(* ===== verification/Prelude.thy ===== *)
theory Prelude
  imports Complex_Main "HOL-Library.Word" "HOL-Library.AList" "HOL-Library.Multiset" "HOL-Library.Sublist"
begin

unbundle bit_operations_syntax

text \<open>
  Shared vocabulary of the development: the machine integers of the Go sources, byte
  strings with the big and little endian coders of the package \<open>encoding/binary\<close>, the
  three-valued result of a Go call (a value, an error, a panic), Go maps as association
  lists, reading and writing a socket in pieces, and two interfaces as locales: a
  fixed-width coder and a deterministic machine with an invariant.
\<close>

section \<open>Machine integers and byte strings\<close>

type_synonym u8 = "8 word"
type_synonym u16 = "16 word"
type_synonym u32 = "32 word"
type_synonym u64 = "64 word"
type_synonym bytes = "u8 list"

named_theorems coder_simps \<open>rewriting of encoders and decoders\<close>
named_theorems gomap_simps \<open>lookup after an update or a deletion of a Go map\<close>
named_theorems res_simps \<open>evaluation of chained Go calls\<close>

definition be16 :: "u16 \<Rightarrow> bytes" where
  "be16 w = [ucast (drop_bit 8 w), ucast w]"

definition be32 :: "u32 \<Rightarrow> bytes" where
  "be32 w = [ucast (drop_bit 24 w), ucast (drop_bit 16 w), ucast (drop_bit 8 w), ucast w]"

definition be64 :: "u64 \<Rightarrow> bytes" where
  "be64 w = [ucast (drop_bit 56 w), ucast (drop_bit 48 w), ucast (drop_bit 40 w),
     ucast (drop_bit 32 w), ucast (drop_bit 24 w), ucast (drop_bit 16 w),
     ucast (drop_bit 8 w), ucast w]"

definition le16 :: "u16 \<Rightarrow> bytes" where
  "le16 w = [ucast w, ucast (drop_bit 8 w)]"

text \<open>
  The readers index a slice, so they panic on a slice that is too short; the model gives
  \<open>None\<close> there and each caller says what happens.
\<close>

fun unbe16 :: "bytes \<Rightarrow> u16 option" where
  "unbe16 (a # b # _) = Some (ucast b OR push_bit 8 (ucast a))"
| "unbe16 _ = None"

fun unbe32 :: "bytes \<Rightarrow> u32 option" where
  "unbe32 (a # b # c # d # _) =
     Some (ucast d OR push_bit 8 (ucast c) OR push_bit 16 (ucast b) OR push_bit 24 (ucast a))"
| "unbe32 _ = None"

fun unbe64 :: "bytes \<Rightarrow> u64 option" where
  "unbe64 (a # b # c # d # e # f # g # h # _) =
     Some (ucast h OR push_bit 8 (ucast g) OR push_bit 16 (ucast f) OR push_bit 24 (ucast e)
       OR push_bit 32 (ucast d) OR push_bit 40 (ucast c) OR push_bit 48 (ucast b)
       OR push_bit 56 (ucast a))"
| "unbe64 _ = None"

lemma unat_u32_bound: "unat x < 4294967296" for x :: u32
  by (rule order.strict_trans2 [OF unsigned_less]) simp

text \<open>The contract of a fixed-width coder, and what follows from it for concatenations.\<close>

locale fixed_coder =
  fixes enc :: "'a \<Rightarrow> bytes" and dec :: "bytes \<Rightarrow> 'a option" and width :: nat
  assumes enc_width: "length (enc x) = width"
    and dec_enc_append: "dec (enc x @ rest) = Some x"
begin

lemma dec_enc: "dec (enc x) = Some x"
  using dec_enc_append [of x "[]"] by simp

lemma drop_enc: "drop width (enc x @ rest) = rest"
  by (simp add: enc_width)

lemma enc_inj: "enc x = enc y \<longleftrightarrow> x = y"
  by (metis dec_enc option.inject)

lemma enc_append_inj: "enc x @ r = enc y @ s \<longleftrightarrow> x = y \<and> r = s"
proof
  assume eq: "enc x @ r = enc y @ s"
  then have "Some x = Some y" by (simp flip: dec_enc_append [of x r] dec_enc_append [of y s])
  with eq show "x = y \<and> r = s" by simp
qed simp

end

text \<open>One byte of a word, shifted back to its place, has the bits of that range.\<close>

lemma bit_byte_piece:
  "bit (push_bit k (ucast (ucast (drop_bit k (w :: 'a::len word)) :: u8)) :: 'a word) n
     \<longleftrightarrow> k \<le> n \<and> n < k + 8 \<and> bit w n"
  by (auto simp: bit_simps dest: bit_imp_le_length)

lemma bit_byte_piece0:
  "bit (ucast (ucast (w :: 'a::len word) :: u8) :: 'a word) n \<longleftrightarrow> n < 8 \<and> bit w n"
  by (auto simp: bit_simps dest: bit_imp_le_length)

lemma byte_split16:
  "(ucast (ucast w :: u8) :: u16) OR push_bit 8 (ucast (ucast (drop_bit 8 w) :: u8)) = w" (is "?l = w")
proof (rule bit_word_eqI)
  fix n assume "n < LENGTH(16)"
  then have "n < 8 \<or> 8 \<le> n \<and> n < 16" by simp arith
  then show "bit ?l n = bit w n"
    by (simp only: bit_or_iff bit_byte_piece bit_byte_piece0) auto
qed

lemma byte_split32:
  "(ucast (ucast w :: u8) :: u32) OR push_bit 8 (ucast (ucast (drop_bit 8 w) :: u8))
     OR push_bit 16 (ucast (ucast (drop_bit 16 w) :: u8))
     OR push_bit 24 (ucast (ucast (drop_bit 24 w) :: u8)) = w" (is "?l = w")
proof (rule bit_word_eqI)
  fix n assume "n < LENGTH(32)"
  then have "n < 8 \<or> 8 \<le> n \<and> n < 16 \<or> 16 \<le> n \<and> n < 24 \<or> 24 \<le> n \<and> n < 32"
    by simp arith
  then show "bit ?l n = bit w n"
    by (simp only: bit_or_iff bit_byte_piece bit_byte_piece0) auto
qed

lemma byte_split64:
  "(ucast (ucast w :: u8) :: u64) OR push_bit 8 (ucast (ucast (drop_bit 8 w) :: u8))
     OR push_bit 16 (ucast (ucast (drop_bit 16 w) :: u8))
     OR push_bit 24 (ucast (ucast (drop_bit 24 w) :: u8))
     OR push_bit 32 (ucast (ucast (drop_bit 32 w) :: u8))
     OR push_bit 40 (ucast (ucast (drop_bit 40 w) :: u8))
     OR push_bit 48 (ucast (ucast (drop_bit 48 w) :: u8))
     OR push_bit 56 (ucast (ucast (drop_bit 56 w) :: u8)) = w" (is "?l = w")
proof (rule bit_word_eqI)
  fix n assume "n < LENGTH(64)"
  then have "n < 8 \<or> 8 \<le> n \<and> n < 16 \<or> 16 \<le> n \<and> n < 24 \<or> 24 \<le> n \<and> n < 32
    \<or> 32 \<le> n \<and> n < 40 \<or> 40 \<le> n \<and> n < 48 \<or> 48 \<le> n \<and> n < 56 \<or> 56 \<le> n \<and> n < 64"
    by simp arith
  then show "bit ?l n = bit w n"
    by (simp only: bit_or_iff bit_byte_piece bit_byte_piece0) auto
qed

interpretation be16: fixed_coder be16 unbe16 2
  by unfold_locales (simp_all add: be16_def byte_split16)

interpretation be32: fixed_coder be32 unbe32 4
  by unfold_locales (simp_all add: be32_def byte_split32)

interpretation be64: fixed_coder be64 unbe64 8
  by unfold_locales (simp_all add: be64_def byte_split64)

lemmas [coder_simps] =
  be16.enc_width be32.enc_width be64.enc_width
  be16.dec_enc be32.dec_enc be64.dec_enc
  be16.dec_enc_append be32.dec_enc_append be64.dec_enc_append
  be16.drop_enc be32.drop_enc be64.drop_enc

lemma length_le16 [coder_simps]: "length (le16 w) = 2"
  by (simp add: le16_def)

lemma le16_append_inj: "le16 v @ r = le16 w @ s \<longleftrightarrow> v = w \<and> r = s"
proof -
  have "v = w" if "le16 v = le16 w"
  proof -
    from that have "(ucast v :: u8) = ucast w" "(ucast (drop_bit 8 v) :: u8) = ucast (drop_bit 8 w)"
      by (simp_all add: le16_def)
    then show ?thesis by (subst byte_split16 [symmetric], subst (3) byte_split16 [symmetric]) (simp only:)
  qed
  then show ?thesis by (auto simp: length_le16 append_eq_append_conv)
qed

section \<open>The result of a Go call\<close>

text \<open>
  A Go function returns a value, returns an error, or panics (a nil dereference, an index
  out of range, a failed type assertion, an explicit \<open>panic\<close>). \<open>rbind\<close> chains calls the way
  \<open>if err != nil { return err }\<close> does.
\<close>

datatype ('e, 'a) res = Ok 'a | Err 'e | Panic

fun rbind :: "('e, 'a) res \<Rightarrow> ('a \<Rightarrow> ('e, 'b) res) \<Rightarrow> ('e, 'b) res" where
  "rbind (Ok x) f = f x"
| "rbind (Err e) f = Err e"
| "rbind Panic f = Panic"

lemma rbind_eq_Ok [res_simps]: "rbind m f = Ok y \<longleftrightarrow> (\<exists>x. m = Ok x \<and> f x = Ok y)"
  by (cases m) auto

lemma rbind_eq_Panic [res_simps]: "rbind m f = Panic \<longleftrightarrow> m = Panic \<or> (\<exists>x. m = Ok x \<and> f x = Panic)"
  by (cases m) auto

lemma rbind_eq_Err [res_simps]:
  "rbind m f = Err e \<longleftrightarrow> m = Err e \<or> (\<exists>x. m = Ok x \<and> f x = Err e)"
  by (cases m) auto

definition of_opt :: "'e \<Rightarrow> 'a option \<Rightarrow> ('e, 'a) res" where
  "of_opt e m = (case m of None \<Rightarrow> Err e | Some x \<Rightarrow> Ok x)"

definition deref :: "'a option \<Rightarrow> ('e, 'a) res" where
  \<comment> \<open>dereference of a pointer: \<open>None\<close> is nil\<close>
  "deref m = (case m of None \<Rightarrow> Panic | Some x \<Rightarrow> Ok x)"

lemma deref_simps [simp]: "deref (Some x) = Ok x" "deref None = Panic"
  by (simp_all add: deref_def)

lemma of_opt_simps [simp]: "of_opt e (Some x) = Ok x" "of_opt e None = Err e"
  by (simp_all add: of_opt_def)

section \<open>Go maps\<close>

text \<open>
  A Go map is an association list with distinct keys: a lookup is \<open>map_of\<close>, an assignment
  \<open>mput\<close>, \<open>delete\<close> is \<open>mdel\<close>. The order of the list stands for the order in which one
  \<open>range\<close> loop visits the entries, which Go leaves open.
\<close>

type_synonym ('k, 'v) gomap = "('k \<times> 'v) list"

abbreviation mput :: "'k \<Rightarrow> 'v \<Rightarrow> ('k, 'v) gomap \<Rightarrow> ('k, 'v) gomap" where
  "mput \<equiv> AList.update"

abbreviation mdel :: "'k \<Rightarrow> ('k, 'v) gomap \<Rightarrow> ('k, 'v) gomap" where
  "mdel \<equiv> AList.delete"

abbreviation mkeys :: "('k, 'v) gomap \<Rightarrow> 'k list" where
  "mkeys m \<equiv> map fst m"

definition mwf :: "('k, 'v) gomap \<Rightarrow> bool" where
  "mwf m \<longleftrightarrow> distinct (mkeys m)"

lemma map_of_mput [gomap_simps]: "map_of (mput k v m) = (map_of m)(k \<mapsto> v)"
  by (simp add: update_conv')

lemma map_of_mdel [gomap_simps]: "map_of (mdel k m) = (map_of m)(k := None)"
  by (simp add: delete_conv')

lemma mwf_mput [gomap_simps]: "mwf m \<Longrightarrow> mwf (mput k v m)"
  by (simp add: mwf_def distinct_update)

lemma mwf_mdel [gomap_simps]: "mwf m \<Longrightarrow> mwf (mdel k m)"
  by (simp add: mwf_def distinct_delete)

lemma mwf_Nil [gomap_simps, simp]: "mwf []"
  by (simp add: mwf_def)

lemma mwf_filter [gomap_simps]: "mwf m \<Longrightarrow> mwf (filter P m)"
  by (simp add: mwf_def distinct_map_filter)

lemma mwf_map_of: "mwf m \<Longrightarrow> (k, v) \<in> set m \<longleftrightarrow> map_of m k = Some v"
  by (auto simp: mwf_def map_of_eq_Some_iff)

lemma map_of_filter_key [gomap_simps]:
  "mwf m \<Longrightarrow> map_of (filter P m) k = (case map_of m k of None \<Rightarrow> None | Some v \<Rightarrow> if P (k, v) then Some v else None)"
proof (induction m)
  case (Cons kv m)
  obtain a b where kv: "kv = (a, b)" by (cases kv)
  from Cons.prems have wf: "mwf m" and a: "a \<notin> fst ` set m"
    by (auto simp: mwf_def kv)
  from a have "map_of m a = None" "map_of (filter P m) a = None"
    by (auto simp: map_of_eq_None_iff)
  with Cons.IH [OF wf] show ?case by (auto simp: kv split: option.splits)
qed simp

lemma mput_nonempty [simp]: "mput k v m \<noteq> []"
  by (induction m) auto

lemma set_mput_subset: "set (mput k v m) \<subseteq> insert (k, v) (set m)"
  by (induction m) auto

lemma set_mdel: "set (mdel k m) \<subseteq> set m"
  by (auto simp: AList.delete_eq)

lemma length_mput_new: "mwf m \<Longrightarrow> map_of m k = None \<Longrightarrow> length (mput k v m) = Suc (length m)"
  by (induction m) (auto simp: mwf_def split: if_splits)

lemma length_mdel: "mwf m \<Longrightarrow> map_of m k = Some v \<Longrightarrow> length (mdel k m) = length m - 1"
proof (induction m)
  case (Cons x m)
  obtain a b where x: "x = (a, b)" by (cases x)
  show ?case
  proof (cases "a = k")
    case True
    then show ?thesis using Cons.prems(1) delete_idem [of k m] by (simp add: x mwf_def)
  next
    case False
    then have m: "map_of m k = Some v" using Cons.prems(2) by (simp add: x)
    have "length (mdel k m) = length m - 1" using Cons.IH [OF _ m] Cons.prems(1) by (simp add: mwf_def)
    moreover have "m \<noteq> []" using m by auto
    ultimately show ?thesis using False by (cases m) (simp_all add: x)
  qed
qed simp

lemma sum_list_mset_cong:
  "mset xs = mset ys \<Longrightarrow> sum_list (map f xs) = sum_list (map f ys)" for f :: "'a \<Rightarrow> 'b::comm_monoid_add"
  by (metis mset_map sum_mset_sum_list)

section \<open>Sockets read and written in pieces\<close>

text \<open>
  What a connection delivers is a list of events: bytes that have arrived, or an error of
  one \<open>Read\<close>. \<open>conn.Read(buf[k:])\<close> takes at most the room left in the buffer and leaves the
  rest for the next call.
\<close>

datatype 'e rd = Data bytes | RdErr 'e

fun sock_bytes :: "'e rd list \<Rightarrow> bytes" where
  "sock_bytes [] = []"
| "sock_bytes (Data bs # es) = bs @ sock_bytes es"
| "sock_bytes (RdErr e # es) = sock_bytes es"

definition no_errors :: "'e rd list \<Rightarrow> bool" where
  "no_errors es \<longleftrightarrow> (\<forall>e\<in>set es. case e of Data _ \<Rightarrow> True | RdErr _ \<Rightarrow> False)"

lemma no_errors_Cons [simp]:
  "no_errors (Data bs # es) = no_errors es" "\<not> no_errors (RdErr x # es)" "no_errors []"
  by (simp_all add: no_errors_def)

section \<open>Machines\<close>

text \<open>
  A component that handles one event at a time, and an invariant of its state. The lemmas
  lift the invariant of one step to a run.
\<close>

locale machine =
  fixes step :: "'s \<Rightarrow> 'e \<Rightarrow> 's" and start :: 's and inv :: "'s \<Rightarrow> bool"
  assumes inv_start: "inv start"
    and inv_step: "inv s \<Longrightarrow> inv (step s e)"
begin

lemma inv_run: "inv s \<Longrightarrow> inv (foldl step s es)"
  by (induction es arbitrary: s) (auto intro: inv_step)

lemma inv_reached: "inv (foldl step start es)"
  by (rule inv_run) (rule inv_start)

end

end
