(* ===== verification/Entity.thy ===== *)
theory Entity
  imports Prelude
begin

text \<open>
  The entities of \<open>business/entity\<close>: errors and their one-byte codes, messages and their
  classification, packet descriptions, connections and the nine-byte connection key, the
  network configuration and the arithmetic on it.
\<close>

section \<open>Errors\<close>

text \<open>
  The error values of \<open>errors.go\<close>, the errors made with \<open>errors.New\<close> in the encryptors and
  the waiting list, the network errors that \<open>IsErrorInterruptingNetwork\<close> looks at, and one
  constructor for an error of a library that the code only hands on.
\<close>

datatype gerror =
    ErrUnknown | ErrNoError | ErrInternalError | ErrCommandShellUndefined
  | ErrConnectionNotExists | ErrInterfaceNotExists | ErrSessionNotExists
  | ErrWrongMessageHeaderSize | ErrWrongMessagePayload | ErrEmptyMessagePayload
  | ErrWrongMessagePayloadSize | ErrWrongMessageAcknowledgement | ErrMaxBytesSize
  | ErrWrongBytesSize | ErrUnknownCommand | ErrUnauthorized | ErrReceiverHandlerNotSet
  | ErrDisconnectHandlerNotSet | ErrMaxConnectionAttempts | ErrKeepaliveTimeoutExceeded
  | ErrWrongPacketLength | ErrWrongPacketData | ErrNoPortSelectionStrategy
  | ErrUnknownEncryptionMethod | ErrWrongConnectionId | ErrGrpcServerUnavailable
  | ErrValidation
  | ErrNilInput | ErrInvalidInputType | ErrUnpadding | ErrWaitingListSort | ErrUnknownProtocol
  | EOF | NetErrClosed | ErrShortBuffer
  | NetOpError bool bool \<comment> \<open>\<open>*net.OpError\<close>: a timeout, wrapping \<open>net.ErrClosed\<close>\<close>
  | ErrLibrary nat

definition unknownMessageError :: u8 where [simp]: "unknownMessageError = 0xff"

definition errorToMessageErrorCode :: "(gerror, u8) gomap" where
  "errorToMessageErrorCode =
     [(ErrNoError, 0x00), (ErrWrongMessagePayload, 0x01), (ErrUnknownCommand, 0x02),
      (ErrUnauthorized, 0x03), (ErrInternalError, 0x04)]"

text \<open>The reverse table is filled by the package's \<open>init\<close> in one pass over the table.\<close>

definition messageErrorToError :: "(u8, gerror) gomap" where
  "messageErrorToError = fold (\<lambda>(k, v) m. mput v k m) errorToMessageErrorCode []"

definition GetMessageError :: "gerror \<Rightarrow> u8" where
  "GetMessageError err =
     (case map_of errorToMessageErrorCode err of Some code \<Rightarrow> code | None \<Rightarrow> unknownMessageError)"

definition MessageError_Error :: "u8 \<Rightarrow> gerror" where
  "MessageError_Error m = (case map_of messageErrorToError m of Some e \<Rightarrow> e | None \<Rightarrow> ErrUnknown)"

fun IsErrorInterruptingNetwork :: "gerror \<Rightarrow> bool" where
  "IsErrorInterruptingNetwork (NetOpError timedout isclosed) = (timedout \<or> isclosed)"
| "IsErrorInterruptingNetwork err = (err = EOF \<or> err = NetErrClosed)"

section \<open>Constants of the protocol\<close>

definition MessageTypeAuthentication :: u8 where [simp]: "MessageTypeAuthentication = 1"
definition MessageTypeHandshake :: u8 where [simp]: "MessageTypeHandshake = 2"
definition MessageTypeData :: u8 where [simp]: "MessageTypeData = 3"
definition MessageTypeKeepalive :: u8 where [simp]: "MessageTypeKeepalive = 4"
definition MessageTypeReset :: u8 where [simp]: "MessageTypeReset = 5"

definition HeaderSize :: nat where [simp]: "HeaderSize = 12"
definition connectionKeySize :: nat where [simp]: "connectionKeySize = 9"

definition ProtoTCP :: u8 where [simp]: "ProtoTCP = 1"
definition ProtoUDP :: u8 where [simp]: "ProtoUDP = 2"

definition PortSelectionStrategyRandom :: u8 where [simp]: "PortSelectionStrategyRandom = 1"
definition PortSelectionStrategyHash :: u8 where [simp]: "PortSelectionStrategyHash = 2"

definition CompressionNone :: u8 where [simp]: "CompressionNone = 0"
definition CompressionLZ4 :: u8 where [simp]: "CompressionLZ4 = 1"
definition CompressionLZO :: u8 where [simp]: "CompressionLZO = 2"
definition CompressionZSTD :: u8 where [simp]: "CompressionZSTD = 3"

definition IPProtocolUDP :: u8 where [simp]: "IPProtocolUDP = 17"
definition MaxUint32 :: u32 where "MaxUint32 = 0xFFFFFFFF"

definition GetCompressionType :: "string \<Rightarrow> u8" where
  "GetCompressionType name =
     (if name = ''none'' then CompressionNone
      else if name = ''lz4'' then CompressionLZ4
      else if name = ''lzo'' then CompressionLZO
      else if name = ''zstd'' then CompressionZSTD
      else CompressionNone)"

definition GetPortSelectionStrategy :: "string \<Rightarrow> u8" where
  "GetPortSelectionStrategy name =
     (if name = ''random'' then PortSelectionStrategyRandom
      else if name = ''hash'' then PortSelectionStrategyHash
      else PortSelectionStrategyRandom)"

section \<open>Messages\<close>

text \<open>
  The layers of a packet (\<open>IP\<close>, \<open>TCP\<close>, ...) are filled only when tracing is on, for the
  log; they are kept as fields, and no operation reads them.
\<close>

record ip_layer =
  ip_Version :: int
  ip_Src :: string
  ip_Dst :: string
  ip_ID :: u16
  ip_Protocol :: string
  ip_Length :: u16
  ip_Error :: "gerror option"

record tcp_layer =
  tcp_Src :: string
  tcp_Dst :: string
  tcp_Seq :: u32
  tcp_Length :: int
  tcp_Error :: "gerror option"

record udp_layer =
  udp_Src :: string
  udp_Dst :: string
  udp_Length :: u16
  udp_Error :: "gerror option"

record tls_layer =
  tls_Length :: int
  tls_Error :: "gerror option"

record icmp_layer =
  icmp_Seq :: u16
  icmp_Id :: u16
  icmp_Type :: string
  icmp_Length :: int
  icmp_Error :: "gerror option"

record packet_info =
  pi_Endpoint :: u64
  pi_Protocol :: u8
  pi_IP :: "ip_layer option"
  pi_TCP :: "tcp_layer option"
  pi_UDP :: "udp_layer option"
  pi_TLS :: "tls_layer option"
  pi_ICMPv4 :: "icmp_layer option"
  pi_IfName :: string

definition new_packet_info :: packet_info where
  "new_packet_info = \<lparr>pi_Endpoint = 0, pi_Protocol = 0, pi_IP = None, pi_TCP = None,
     pi_UDP = None, pi_TLS = None, pi_ICMPv4 = None, pi_IfName = ''''\<rparr>"

record auth_request =
  ar_ClientID :: bytes
  ar_Name :: bytes
  ar_Password :: bytes
  ar_CompressionType :: u8
  ar_CompressionLevel :: u8

record auth_response =
  as_SessionID :: u32
  as_LocalIP :: bytes
  as_RemoteIP :: bytes

text \<open>\<open>MessageAcknowledgement\<close>: the identifiers to acknowledge, by endpoint (\<open>ack.go\<close>).\<close>

record ack_message =
  ack_data :: "(u64, u32 list) gomap"
  ack_maxSize :: int
  ack_size :: int

text \<open>What the \<open>interface{}\<close> field \<open>Payload\<close> can hold; \<open>PNil\<close> is a nil interface.\<close>

datatype payload =
    PNil
  | PBytes bytes
  | PAuthRequest auth_request
  | PAuthResponse auth_response
  | PHandshake bytes
  | PAck ack_message

record message =
  m_ID :: u32
  m_SessionID :: u32
  m_Type :: u8
  m_CompressionType :: u8
  m_CompressionLevel :: u8
  m_Error :: u8
  m_PayloadLength :: u16
  m_IsError :: bool
  m_IsRequest :: bool
  m_IsACK :: bool
  m_Payload :: payload
  m_PacketInfo :: "packet_info option"

definition new_message :: message where
  "new_message = \<lparr>m_ID = 0, m_SessionID = 0, m_Type = 0, m_CompressionType = 0,
     m_CompressionLevel = 0, m_Error = 0, m_PayloadLength = 0, m_IsError = False,
     m_IsRequest = False, m_IsACK = False, m_Payload = PNil, m_PacketInfo = None\<rparr>"

definition MessageType_Valid :: "u8 \<Rightarrow> bool" where
  "MessageType_Valid t \<longleftrightarrow> t \<in> {MessageTypeAuthentication, MessageTypeHandshake,
     MessageTypeData, MessageTypeKeepalive, MessageTypeReset}"

definition MessageType_String :: "u8 \<Rightarrow> string" where
  "MessageType_String t =
     (if t = MessageTypeAuthentication then ''auth''
      else if t = MessageTypeHandshake then ''handshake''
      else if t = MessageTypeData then ''data''
      else if t = MessageTypeKeepalive then ''keepalive''
      else if t = MessageTypeReset then ''reset''
      else ''unknown'')"

definition IsUserData :: "message \<Rightarrow> bool" where
  "IsUserData m \<longleftrightarrow> m_Type m = MessageTypeData \<and> \<not> m_IsACK m"

definition IsStreamMerge :: "message \<Rightarrow> bool" where
  "IsStreamMerge m \<longleftrightarrow> m_Type m = MessageTypeData \<and> m_SessionID m \<noteq> 0"

definition WithWaitingList :: "message \<Rightarrow> bool" where
  "WithWaitingList m \<longleftrightarrow>
     (case m_PacketInfo m of None \<Rightarrow> False | Some p \<Rightarrow> pi_Protocol p \<noteq> IPProtocolUDP)"

definition IsSendACK :: "message \<Rightarrow> bool" where
  "IsSendACK m \<longleftrightarrow> m_Type m = MessageTypeData \<and> \<not> m_IsACK m"

definition IsPayload :: "message \<Rightarrow> bool" where
  "IsPayload m \<longleftrightarrow> \<not> (m_Type m = MessageTypeReset \<or> m_Type m = MessageTypeKeepalive)"

definition Message_Reset :: "message \<Rightarrow> message" where
  "Message_Reset m = m\<lparr>m_ID := 0, m_SessionID := 0, m_Type := 0, m_CompressionType := 0,
     m_CompressionLevel := 0, m_Error := 0, m_PayloadLength := 0, m_IsError := False,
     m_IsRequest := False, m_IsACK := False, m_PacketInfo := None\<rparr>"

definition GetEndpoint :: "message \<Rightarrow> u64" where
  "GetEndpoint m = (case m_PacketInfo m of None \<Rightarrow> 0 | Some p \<Rightarrow> pi_Endpoint p)"

section \<open>Connections\<close>

datatype net_addr = NoAddr | TCPAddr bytes int | UDPAddr bytes int

record socket =
  so_LocalAddr :: net_addr
  so_RemoteAddr :: net_addr

text \<open>
  The pointers to a socket are \<open>None\<close> when nil; the handles \<open>Retry\<close> and \<open>Ack\<close> name an
  instance of the retransmission and of the acknowledgement component.
\<close>

record connection =
  c_TCPConn :: "socket option"
  c_UDPConn :: "socket option"
  c_GNetConn :: "socket option"
  c_Proto :: u8
  c_Addr :: net_addr
  c_Port :: u16
  c_Retry :: "nat option"
  c_Ack :: "nat option"
  c_SessionID :: u32
  c_CreatedAt :: int
  c_CompressionType :: u8
  c_CompressionLevel :: u8

definition new_connection :: connection where
  "new_connection = \<lparr>c_TCPConn = None, c_UDPConn = None, c_GNetConn = None, c_Proto = 0,
     c_Addr = NoAddr, c_Port = 0, c_Retry = None, c_Ack = None, c_SessionID = 0,
     c_CreatedAt = 0, c_CompressionType = 0, c_CompressionLevel = 0\<rparr>"

text \<open>\<open>net.IP.To4\<close> of the standard library: nil for an address that is not IPv4.\<close>

definition To4 :: "bytes \<Rightarrow> bytes" where
  "To4 ip = (if length ip = 4 then ip
     else if length ip = 16 \<and> take 10 ip = replicate 10 0 \<and> ip ! 10 = 0xff \<and> ip ! 11 = 0xff
     then drop 12 ip else [])"

definition key_bytes :: "u8 \<Rightarrow> u16 \<Rightarrow> bytes \<Rightarrow> int \<Rightarrow> bytes" where
  \<comment> \<open>\<open>copy(cKey[:], key)\<close>: the first nine bytes, the rest of the array stays zero\<close>
  "key_bytes proto lport ip rport =
     take connectionKeySize
       ((proto # le16 lport @ To4 ip @ le16 (word_of_int rport)) @ replicate connectionKeySize 0)"

definition Connection_Key :: "connection \<Rightarrow> (gerror, bytes) res" where
  "Connection_Key c =
     (if c_Port c = 0 then Ok (replicate connectionKeySize 0)
      else case c_TCPConn c of
        Some s \<Rightarrow> (case so_RemoteAddr s of
            TCPAddr ip port \<Rightarrow> Ok (key_bytes (c_Proto c) (c_Port c) ip port)
          | _ \<Rightarrow> Panic)
      | None \<Rightarrow> (case c_UDPConn c of
        Some s \<Rightarrow> (case c_Addr c of
            UDPAddr ip port \<Rightarrow> Ok (key_bytes (c_Proto c) (c_Port c) ip port)
          | _ \<Rightarrow> Panic)
      | None \<Rightarrow> (case c_GNetConn c of
        Some s \<Rightarrow> (case so_RemoteAddr s of
            UDPAddr ip port \<Rightarrow> Ok (key_bytes (c_Proto c) (c_Port c) ip port)
          | TCPAddr ip port \<Rightarrow> Ok (key_bytes (c_Proto c) (c_Port c) ip port)
          | _ \<Rightarrow> Panic)
      | None \<Rightarrow> Panic)))"

definition Connection_Protocol :: "connection \<Rightarrow> u8" where
  "Connection_Protocol c = (if c_TCPConn c \<noteq> None then ProtoTCP else ProtoUDP)"

section \<open>Network configuration\<close>

record network_config =
  nc_Host :: string
  nc_PortMin :: u16
  nc_PortMax :: u16
  nc_UseTCP :: bool
  nc_UseUDP :: bool
  nc_MaxConnectionAttempts :: int
  nc_PortSelectionStrategy :: string
  nc_Compression :: string
  nc_CompressionLevel :: int
  nc_ObfuscateData :: bool

definition MaxPorts :: "network_config \<Rightarrow> int" where
  "MaxPorts c =
     (let ports = nc_PortMax c - nc_PortMin c + 1;
          ports = (if nc_UseTCP c \<and> nc_UseUDP c then ports * 2 else ports)
      in uint ports)"

definition UseStreamMerger :: "network_config \<Rightarrow> bool" where
  "UseStreamMerger c \<longleftrightarrow> nc_PortMin c < nc_PortMax c \<or> nc_UseUDP c"

definition GetConnectionProtocol :: "nat \<Rightarrow> network_config \<Rightarrow> (gerror, u8) res" where
  \<comment> \<open>\<open>draw\<close> is what \<open>rand.Intn\<close> draws; \<open>rand.Intn(0)\<close> panics\<close>
  "GetConnectionProtocol draw c =
     (let proto = (if nc_UseTCP c then [ProtoTCP] else []) @ (if nc_UseUDP c then [ProtoUDP] else [])
      in if proto = [] then Panic else Ok (proto ! (draw mod length proto)))"

section \<open>Facts used by the components\<close>

lemmas message_class_defs =
  IsUserData_def IsStreamMerge_def IsSendACK_def IsPayload_def WithWaitingList_def

lemma GetEndpoint_simps [simp]:
  "m_PacketInfo m = None \<Longrightarrow> GetEndpoint m = 0"
  "m_PacketInfo m = Some p \<Longrightarrow> GetEndpoint m = pi_Endpoint p"
  by (simp_all add: GetEndpoint_def)

lemma IsSendACK_IsUserData: "IsSendACK m = IsUserData m"
  by (simp add: message_class_defs)

lemma IsUserData_IsPayload: "IsUserData m \<Longrightarrow> IsPayload m"
  by (simp add: message_class_defs)

lemma key_bytes_IPv4:
  "length (To4 ip) = 4 \<Longrightarrow>
     key_bytes proto lport ip rport = proto # le16 lport @ To4 ip @ le16 (word_of_int rport)"
  by (simp add: key_bytes_def length_le16)

lemma key_bytes_inj:
  assumes "length (To4 ip) = 4" "length (To4 ip') = 4"
  shows "key_bytes p l ip r = key_bytes p' l' ip' r' \<longleftrightarrow>
     p = p' \<and> l = l' \<and> To4 ip = To4 ip' \<and> (word_of_int r :: u16) = word_of_int r'"
  using le16_append_inj [of "word_of_int r" "[]" "word_of_int r'" "[]"]
  by (auto simp: key_bytes_IPv4 assms le16_append_inj)

lemma length_key_bytes [simp]: "length (key_bytes p l ip r) = connectionKeySize"
  by (simp add: key_bytes_def length_le16)

lemma length_Connection_Key: "Connection_Key c = Ok k \<Longrightarrow> length k = connectionKeySize"
  by (auto simp: Connection_Key_def split: if_splits option.splits net_addr.splits)

section \<open>Properties\<close>

text \<open>
  Two UDP connections of the server, both with a port and an IPv4 peer, have the same
  key exactly when protocol, local port, peer address and peer port agree: no two peers
  share an entry of the connection tables.
\<close>

theorem Connection_Key_injective:
  assumes "c_TCPConn c = None" "c_UDPConn c = Some s" "c_Addr c = UDPAddr ip r"
    and "c_TCPConn d = None" "c_UDPConn d = Some s'" "c_Addr d = UDPAddr ip' r'"
    and "c_Port c \<noteq> 0" "c_Port d \<noteq> 0"
    and "length (To4 ip) = 4" "length (To4 ip') = 4"
    and "0 \<le> r" "r < 65536" "0 \<le> r'" "r' < 65536"
  shows "Connection_Key c = Connection_Key d \<longleftrightarrow>
     c_Proto c = c_Proto d \<and> c_Port c = c_Port d \<and> To4 ip = To4 ip' \<and> r = r'"
proof -
  have "(word_of_int r :: u16) = word_of_int r' \<longleftrightarrow> r = r'"
    using assms(11-14) by (simp add: word_of_int_eq_iff take_bit_int_eq_self)
  then show ?thesis
    using assms by (simp add: Connection_Key_def key_bytes_inj)
qed

definition sample_udp :: "int \<Rightarrow> connection" where
  "sample_udp port = new_connection\<lparr>c_UDPConn := Some \<lparr>so_LocalAddr = NoAddr, so_RemoteAddr = NoAddr\<rparr>,
     c_Proto := ProtoUDP, c_Port := 1977, c_Addr := UDPAddr [10, 0, 0, 1] port\<rparr>"

theorem Connection_Key_injective_witness:
  "Connection_Key (sample_udp 4000) \<noteq> Connection_Key (sample_udp 4001)"
proof -
  note inj = Connection_Key_injective [of "sample_udp 4000" "\<lparr>so_LocalAddr = NoAddr, so_RemoteAddr = NoAddr\<rparr>"
      "[10, 0, 0, 1]" 4000 "sample_udp 4001" "\<lparr>so_LocalAddr = NoAddr, so_RemoteAddr = NoAddr\<rparr>" "[10, 0, 0, 1]" 4001]
  show ?thesis
    by (subst inj) (simp_all add: sample_udp_def new_connection_def To4_def)
qed

text \<open>
  The one-byte error codes round trip: every error that has a code of its own comes
  back from its code, and every other error is received as \<open>ErrUnknown\<close>.
\<close>

theorem MessageError_roundtrip:
  "MessageError_Error (GetMessageError err) =
     (if err \<in> {ErrNoError, ErrWrongMessagePayload, ErrUnknownCommand, ErrUnauthorized, ErrInternalError}
      then err else ErrUnknown)"
  by (cases err) (simp_all add: MessageError_Error_def GetMessageError_def
      errorToMessageErrorCode_def messageErrorToError_def)

text \<open>
  \<open>MaxPorts\<close> computes in 16 bits: it is the number of ports times the number of
  protocols, reduced modulo 65536, so the full port range counts as zero ports.
\<close>

theorem MaxPorts_mod:
  "MaxPorts c =
     ((uint (nc_PortMax c) - uint (nc_PortMin c) + 1) * (if nc_UseTCP c \<and> nc_UseUDP c then 2 else 1)) mod 65536"
  by (simp add: MaxPorts_def Let_def uint_word_ariths mod_simps)

end
