(* ===== verification/Retry.thy ===== *)
theory Retry
  imports Entity
begin

text \<open>
  The retransmission of \<open>adapter/retry/retry.go\<close>: a timer per message that is not yet
  acknowledged, the estimate of the round trip time that sets the timers, and the keepalive
  loop. Times are nanoseconds; the \<open>float64\<close> arithmetic is done in the reals. Each clock
  reading is an argument of the step that takes it.
\<close>

section \<open>Model\<close>

definition initRTO :: int where "initRTO = 1000000000"
definition initSrttFactor :: real where "initSrttFactor = 1 / 8"
definition initRttvarFactor :: real where "initRttvarFactor = 1 / 4"
definition rtoFactor :: real where "rtoFactor = 4"
definition rttFactor :: int where "rttFactor = 100000000"
definition fSecond :: real where "fSecond = 1000000000"

record retry_config =
  rc_MaxTimeout :: int
  rc_BackoffFactor :: real
  rc_KeepaliveTimeout :: int
  rc_KeepaliveInterval :: int
  rc_KeepaliveProbes :: int

text \<open>The state of the estimate; \<open>rtt\<close> is the sample before.\<close>

record rtt_state =
  rs_srtt :: real
  rs_rttvar :: real
  rs_rto :: int
  rs_rtt :: real

definition rtt_new :: rtt_state where
  "rtt_new = \<lparr>rs_srtt = 0, rs_rttvar = 0, rs_rto = initRTO, rs_rtt = 0\<rparr>"

definition duration :: "real \<Rightarrow> int" where
  \<comment> \<open>\<open>time.Duration(x)\<close> truncates towards zero\<close>
  "duration x = (if 0 \<le> x then \<lfloor>x\<rfloor> else \<lceil>x\<rceil>)"

definition updateRTO :: "real \<Rightarrow> rtt_state \<Rightarrow> rtt_state" where
  "updateRTO rtt r =
     (let r1 = (if rs_srtt r = 0 then r\<lparr>rs_srtt := rtt, rs_rttvar := rtt / 2\<rparr>
                else
                  let rttrc = \<bar>(rtt - rs_rtt r) / rs_rtt r\<bar>;
                      rttrc = (if rttrc > 1 then 1 else rttrc);
                      srttFactor = initSrttFactor * (1 + rttrc);
                      rttvarFactor = initRttvarFactor * (1 - rttrc);
                      srtt = (1 - srttFactor) * rs_srtt r + srttFactor * rtt;
                      rttvar = (1 - rttvarFactor) * rs_rttvar r + rttvarFactor * \<bar>srtt - rtt\<bar>
                  in r\<lparr>rs_srtt := srtt, rs_rttvar := rttvar\<rparr>)
      in r1\<lparr>rs_rto := duration (rs_srtt r1 + rtoFactor * rs_rttvar r1), rs_rtt := rtt\<rparr>)"

text \<open>
  A message in flight: its start, attempts, the duration its timer was set to last, whether
  \<open>stop\<close> has been signalled, and whether the goroutine of its timer still runs. The table of
  messages is a \<open>sync.Map\<close> from the pair of endpoint and identifier to the message, here to
  the index of its goroutine.
\<close>

record retry_message =
  rm_start :: int
  rm_attempts :: nat
  rm_duration :: int
  rm_stop :: bool
  rm_running :: bool
  rm_msg :: message

record retry_state =
  rt_rtt :: rtt_state
  rt_messages :: "(u64 \<times> u64, nat) gomap"
  rt_timers :: "retry_message list"
  rt_sent :: "(bytes \<times> message) list" \<comment> \<open>calls of \<open>sendData\<close>\<close>
  rt_keepaliveCh :: "bool list" \<comment> \<open>\<open>True\<close> for an acknowledgement, \<open>False\<close> for nil\<close>
  rt_stopped :: bool

definition retry_New :: retry_state where
  "retry_New = \<lparr>rt_rtt = rtt_new, rt_messages = [], rt_timers = [], rt_sent = [], rt_keepaliveCh = [], rt_stopped = False\<rparr>"

definition getMessageKey :: "u64 \<Rightarrow> u32 \<Rightarrow> u64 \<times> u64" where
  "getMessageKey endpoint messageID = (endpoint, ucast messageID)"

definition retry_Push :: "int \<Rightarrow> message \<Rightarrow> retry_state \<Rightarrow> retry_state" where
  "retry_Push now m r =
     r\<lparr>rt_messages := mput (getMessageKey (GetEndpoint m) (m_ID m)) (length (rt_timers r)) (rt_messages r),
       rt_timers := rt_timers r @ [\<lparr>rm_start = now, rm_attempts = 0, rm_duration = rs_rto (rt_rtt r),
         rm_stop = False, rm_running = True, rm_msg = m\<rparr>]\<rparr>"

text \<open>
  \<open>Ack\<close> for one identifier at time \<open>now\<close>: \<open>pending\<close> is the answer of \<open>timer.Stop()\<close>, whether
  the timer had not fired yet.
\<close>

definition ack_one :: "int \<Rightarrow> bool \<Rightarrow> u64 \<Rightarrow> u32 \<Rightarrow> retry_state \<Rightarrow> retry_state" where
  "ack_one now pending endpoint i r =
     (case map_of (rt_messages r) (getMessageKey endpoint i) of
        None \<Rightarrow> r
      | Some k \<Rightarrow>
          (let msg = rt_timers r ! k;
               rtt = real_of_int ((now + rttFactor) - rm_start msg);
               r1 = r\<lparr>rt_messages := mdel (getMessageKey endpoint i) (rt_messages r)\<rparr>;
               r2 = (if pending \<and> rm_attempts msg = 0 then r1\<lparr>rt_rtt := updateRTO rtt (rt_rtt r1)\<rparr> else r1)
           in r2\<lparr>rt_timers := (rt_timers r2)[k := msg\<lparr>rm_stop := True\<rparr>]\<rparr>))"

definition retry_Ack :: "int \<Rightarrow> bool \<Rightarrow> ack_message option \<Rightarrow> retry_state \<Rightarrow> retry_state" where
  "retry_Ack now pending ids r =
     (let r1 = (case ids of None \<Rightarrow> r
                | Some a \<Rightarrow> fold (\<lambda>(endpoint, ids). fold (ack_one now pending endpoint) ids) (ack_data a) r)
      in r1\<lparr>rt_keepaliveCh := rt_keepaliveCh r1 @ [True]\<rparr>)"

definition retry_Keepalive :: "retry_state \<Rightarrow> retry_state" where
  "retry_Keepalive r = r\<lparr>rt_keepaliveCh := rt_keepaliveCh r @ [False]\<rparr>"

definition GetRTO :: "retry_state \<Rightarrow> int" where
  "GetRTO r = rs_rto (rt_rtt r)"

definition retry_Stop :: "retry_state \<Rightarrow> retry_state" where
  "retry_Stop r = r\<lparr>rt_stopped := True\<rparr>"

text \<open>
  The end of a timer goroutine. The deferred function puts the message back into the pool,
  which resets it, and deletes the table entry of the key it computes from the message after
  that.
\<close>

definition timer_return :: "nat \<Rightarrow> retry_state \<Rightarrow> retry_state" where
  "timer_return k r =
     (let m = Message_Reset (rm_msg (rt_timers r ! k))
      in r\<lparr>rt_timers := (rt_timers r)[k := (rt_timers r ! k)\<lparr>rm_running := False, rm_msg := m\<rparr>],
           rt_messages := mdel (getMessageKey (GetEndpoint m) (m_ID m)) (rt_messages r)\<rparr>)"

text \<open>
  The timer of message \<open>k\<close> fires at \<open>now\<close>. The payload is asserted to be bytes; the error of
  \<open>sendData\<close> is only logged.
\<close>

definition timer_fire :: "retry_config \<Rightarrow> nat \<Rightarrow> int \<Rightarrow> retry_state \<Rightarrow> (gerror, retry_state) res" where
  "timer_fire cfg k now r =
     (let m = rt_timers r ! k
      in if \<not> rm_running m then Ok r
         else if now - rm_start m \<ge> rc_MaxTimeout cfg then Ok (timer_return k r)
         else case m_Payload (rm_msg m) of
           PBytes b \<Rightarrow>
             (let att = rm_attempts m + 1
              in Ok (r\<lparr>rt_sent := rt_sent r @ [(b, rm_msg m)],
                       rt_timers := (rt_timers r)[k := m\<lparr>rm_attempts := att,
                         rm_duration := rm_duration m + duration (fSecond * exp (real att * rc_BackoffFactor cfg))\<rparr>]\<rparr>))
         | _ \<Rightarrow> Panic)"

definition timer_stop :: "nat \<Rightarrow> retry_state \<Rightarrow> retry_state" where
  \<comment> \<open>the goroutine sees \<open>stop\<close>, or the end of the context\<close>
  "timer_stop k r =
     (let m = rt_timers r ! k
      in if rm_running m \<and> (rm_stop m \<or> rt_stopped r) then timer_return k r else r)"

text \<open>The keepalive loop, with \<open>time.Since\<close> readings for the events of its timer.\<close>

record keepalive_state =
  ks_probes :: int
  ks_lastAck :: "int option" \<comment> \<open>\<open>None\<close> is the zero time, longer ago than any timeout\<close>
  ks_started :: int
  ks_sent :: "bool list" \<comment> \<open>calls of \<open>sendKeepalive\<close>: whether it is an answer\<close>
  ks_disconnected :: bool
  ks_running :: bool

definition keepalive_new :: "int \<Rightarrow> keepalive_state" where
  "keepalive_new now = \<lparr>ks_probes = 0, ks_lastAck = None, ks_started = now, ks_sent = [],
     ks_disconnected = False, ks_running = True\<rparr>"

datatype keepalive_event =
    KAMessage bool int \<comment> \<open>from the channel: an acknowledgement or nil; the time\<close>
  | KADone
  | KATimer int

definition keepalive_step :: "retry_config \<Rightarrow> keepalive_state \<Rightarrow> keepalive_event \<Rightarrow> keepalive_state" where
  "keepalive_step cfg s ev =
     (if \<not> ks_running s then s
      else case ev of
        KAMessage ack now \<Rightarrow>
          (let s1 = s\<lparr>ks_lastAck := Some now, ks_probes := 0\<rparr>
           in if \<not> ack then s1\<lparr>ks_sent := ks_sent s1 @ [True]\<rparr> else s1)
      | KADone \<Rightarrow> s\<lparr>ks_running := False\<rparr>
      | KATimer now \<Rightarrow>
          if (case ks_lastAck s of None \<Rightarrow> False | Some t \<Rightarrow> now - t < rc_KeepaliveTimeout cfg)
             \<or> now - ks_started s < rc_KeepaliveTimeout cfg then s
          else if ks_probes s \<ge> rc_KeepaliveProbes cfg then s\<lparr>ks_disconnected := True, ks_running := False\<rparr>
          else s\<lparr>ks_sent := ks_sent s @ [False], ks_probes := ks_probes s + 1\<rparr>)"

section \<open>The estimate stays within the samples\<close>

definition rtt_within :: "real \<Rightarrow> real \<Rightarrow> rtt_state \<Rightarrow> bool" where
  "rtt_within lo hi r \<longleftrightarrow>
     (rs_srtt r = 0 \<and> rs_rto r = initRTO)
   \<or> (lo \<le> rs_srtt r \<and> rs_srtt r \<le> hi \<and> 0 \<le> rs_rttvar r \<and> rs_rttvar r \<le> hi
      \<and> rs_rto r = \<lfloor>rs_srtt r + 4 * rs_rttvar r\<rfloor>)"

lemma convex_between:
  fixes f :: real
  assumes "0 \<le> f" "f \<le> 1" "lo \<le> x" "x \<le> hi" "lo \<le> y" "y \<le> hi"
  shows "lo \<le> (1 - f) * x + f * y" "(1 - f) * x + f * y \<le> hi"
proof -
  have "(1 - f) * lo + f * lo \<le> (1 - f) * x + f * y" using assms by (intro add_mono mult_left_mono) auto
  then show "lo \<le> (1 - f) * x + f * y" by (simp add: algebra_simps)
  have "(1 - f) * x + f * y \<le> (1 - f) * hi + f * hi" using assms by (intro add_mono mult_left_mono) auto
  then show "(1 - f) * x + f * y \<le> hi" by (simp add: algebra_simps)
qed

lemma updateRTO_within:
  assumes "rtt_within lo hi r" "0 < lo" "lo \<le> rtt" "rtt \<le> hi"
  shows "rtt_within lo hi (updateRTO rtt r)" "rs_srtt (updateRTO rtt r) \<noteq> 0"
proof -
  have "rtt_within lo hi (updateRTO rtt r) \<and> rs_srtt (updateRTO rtt r) \<noteq> 0"
  proof (cases "rs_srtt r = 0")
    case True
    then show ?thesis
      using assms(2-4) by (simp add: updateRTO_def rtt_within_def rtoFactor_def duration_def Let_def)
  next
    case False
    then have r: "lo \<le> rs_srtt r" "rs_srtt r \<le> hi" "0 \<le> rs_rttvar r" "rs_rttvar r \<le> hi"
      using assms(1) by (auto simp: rtt_within_def)
    define c where "c = (if \<bar>(rtt - rs_rtt r) / rs_rtt r\<bar> > 1 then 1 else \<bar>(rtt - rs_rtt r) / rs_rtt r\<bar>)"
    have c: "0 \<le> c" "c \<le> 1" by (auto simp: c_def)
    define srtt where "srtt = (1 - 1/8 * (1 + c)) * rs_srtt r + 1/8 * (1 + c) * rtt"
    define rttvar where "rttvar = (1 - 1/4 * (1 - c)) * rs_rttvar r + 1/4 * (1 - c) * \<bar>srtt - rtt\<bar>"
    have s: "lo \<le> srtt" "srtt \<le> hi"
      unfolding srtt_def using c r assms(3,4) convex_between [of "1/8 * (1 + c)" lo "rs_srtt r" hi rtt] by simp_all
    then have "0 \<le> \<bar>srtt - rtt\<bar>" "\<bar>srtt - rtt\<bar> \<le> hi" using assms(2-4) by auto
    then have v: "0 \<le> rttvar" "rttvar \<le> hi"
      unfolding rttvar_def using c r convex_between [of "1/4 * (1 - c)" 0 "rs_rttvar r" hi "\<bar>srtt - rtt\<bar>"] by simp_all
    have "updateRTO rtt r = r\<lparr>rs_srtt := srtt, rs_rttvar := rttvar, rs_rto := duration (srtt + 4 * rttvar), rs_rtt := rtt\<rparr>"
      using False by (simp add: updateRTO_def Let_def c_def srtt_def rttvar_def initSrttFactor_def
          initRttvarFactor_def rtoFactor_def)
    then show ?thesis using s v assms(2) by (simp add: rtt_within_def duration_def)
  qed
  then show "rtt_within lo hi (updateRTO rtt r)" "rs_srtt (updateRTO rtt r) \<noteq> 0" by blast+
qed

lemma rtt_within_fold:
  "rtt_within lo hi r \<Longrightarrow> 0 < lo \<Longrightarrow> \<forall>s\<in>set samples. lo \<le> s \<and> s \<le> hi \<Longrightarrow> rtt_within lo hi (fold updateRTO samples r)"
  by (induction samples arbitrary: r) (auto simp: updateRTO_within)

lemma fold_srtt_nonzero:
  assumes "rtt_within lo hi r" "0 < lo" "\<forall>s\<in>set samples. lo \<le> s \<and> s \<le> hi" "samples \<noteq> []"
  shows "rs_srtt (fold updateRTO samples r) \<noteq> 0"
proof -
  obtain ss s where ss: "samples = ss @ [s]" using assms(4) by (cases samples rule: rev_cases) auto
  have "rtt_within lo hi (fold updateRTO ss r)" using assms(1-3) ss by (intro rtt_within_fold) auto
  then show ?thesis using updateRTO_within(2) assms(2,3) ss by simp
qed

text \<open>
  The retransmission timeout follows the round trip times: if all samples lie between
  \<open>lo\<close> and \<open>hi\<close>, the smoothed time does, and the timeout lies between \<open>lo\<close> (rounded down)
  and five times \<open>hi\<close>.
\<close>

theorem RTO_follows_samples:
  assumes "0 < lo" "\<forall>s\<in>set samples. lo \<le> s \<and> s \<le> hi" "samples \<noteq> []"
  shows "lo \<le> rs_srtt (fold updateRTO samples rtt_new) \<and> rs_srtt (fold updateRTO samples rtt_new) \<le> hi
     \<and> \<lfloor>lo\<rfloor> \<le> rs_rto (fold updateRTO samples rtt_new) \<and> rs_rto (fold updateRTO samples rtt_new) \<le> \<lfloor>5 * hi\<rfloor>"
proof -
  have new: "rtt_within lo hi rtt_new" by (simp add: rtt_within_def rtt_new_def)
  have w: "rtt_within lo hi (fold updateRTO samples rtt_new)" by (rule rtt_within_fold [OF new assms(1,2)])
  have "rs_srtt (fold updateRTO samples rtt_new) \<noteq> 0" by (rule fold_srtt_nonzero [OF new assms])
  with w show ?thesis by (auto simp: rtt_within_def intro!: floor_mono)
qed

theorem RTO_follows_samples_witness:
  "100000000 \<le> rs_srtt (fold updateRTO [200000000, 100000000, 300000000] rtt_new)"
  using RTO_follows_samples [of 100000000 "[200000000, 100000000, 300000000]" 300000000] by simp

section \<open>Acknowledging\<close>

lemma getMessageKey_inj: "getMessageKey e i = getMessageKey e' i' \<longleftrightarrow> e = e' \<and> i = i'"
proof -
  have "(ucast i :: u64) = ucast i' \<longleftrightarrow> i = i'"
  proof
    assume "(ucast i :: u64) = ucast i'"
    then have "(ucast (ucast i :: u64) :: u32) = ucast (ucast i' :: u64)" by (rule arg_cong)
    then show "i = i'" by (simp add: ucast_down_ucast_id is_down)
  qed simp
  then show ?thesis by (simp add: getMessageKey_def)
qed

lemma ack_one_messages:
  "map_of (rt_messages (ack_one now p e i r)) k = (if k = getMessageKey e i then None else map_of (rt_messages r) k)"
  by (auto simp: ack_one_def Let_def gomap_simps split: option.splits)

lemma fold_ack_one_messages:
  "map_of (rt_messages (fold (ack_one now p e) ids r)) k =
     (if \<exists>i\<in>set ids. k = getMessageKey e i then None else map_of (rt_messages r) k)"
  by (induction ids arbitrary: r) (auto simp: ack_one_messages)

lemma fold_ack_messages:
  "map_of (rt_messages (fold (\<lambda>(e, ids). fold (ack_one now p e) ids) d r)) k =
     (if \<exists>e ids i. (e, ids) \<in> set d \<and> i \<in> set ids \<and> k = getMessageKey e i then None
      else map_of (rt_messages r) k)"
proof (induction d arbitrary: r)
  case (Cons a d)
  obtain e ids where a: "a = (e, ids)" by (cases a)
  show ?case by (simp add: a Cons.IH fold_ack_one_messages) blast
qed simp

lemma retry_Ack_Some:
  "rt_messages (retry_Ack now p (Some a) r) = rt_messages (fold (\<lambda>(e, ids). fold (ack_one now p e) ids) (ack_data a) r)"
  by (simp add: retry_Ack_def Let_def)

text \<open>
  An acknowledgement takes exactly the messages it names out of the table: a message in
  flight stays there just when its endpoint and identifier are not acknowledged.
\<close>

theorem retry_Ack_removes_exactly:
  "map_of (rt_messages (retry_Ack now pending (Some a) r)) (getMessageKey e i) =
     (if \<exists>ids. (e, ids) \<in> set (ack_data a) \<and> i \<in> set ids then None
      else map_of (rt_messages r) (getMessageKey e i))"
  by (simp add: retry_Ack_Some fold_ack_messages getMessageKey_inj)

section \<open>Timers\<close>

text \<open>
  A message that is given up stays in the table: the deferred cleanup resets the message
  before it computes the key, so the entry it deletes is the one of endpoint 0 and
  identifier 0, and the entry of the message itself is never deleted.
\<close>

theorem expired_message_stays_in_table:
  assumes "rm_running (rt_timers r ! k)" "now - rm_start (rt_timers r ! k) \<ge> rc_MaxTimeout cfg"
    and "map_of (rt_messages r) (getMessageKey e i) = Some k" "e \<noteq> 0 \<or> i \<noteq> 0"
  shows "\<exists>r'. timer_fire cfg k now r = Ok r' \<and> map_of (rt_messages r') (getMessageKey e i) = Some k"
proof -
  have "GetEndpoint (Message_Reset m) = 0" "m_ID (Message_Reset m) = 0" for m
    by (simp_all add: Message_Reset_def GetEndpoint_def)
  moreover have "getMessageKey e i \<noteq> getMessageKey 0 0" using assms(4) by (simp add: getMessageKey_inj)
  ultimately show ?thesis
    using assms(1-3) by (simp add: timer_fire_def timer_return_def Let_def gomap_simps)
qed

definition sample_retry_cfg :: retry_config where
  "sample_retry_cfg = \<lparr>rc_MaxTimeout = 5000, rc_BackoffFactor = 1 / 2, rc_KeepaliveTimeout = 60,
     rc_KeepaliveInterval = 2, rc_KeepaliveProbes = 2\<rparr>"

theorem expired_message_stays_in_table_witness:
  "\<exists>r'. timer_fire sample_retry_cfg 0 9000 (retry_Push 1000 (new_message\<lparr>m_ID := 7\<rparr>) retry_New) = Ok r'
     \<and> map_of (rt_messages r') (getMessageKey 0 7) = Some 0"
proof (rule expired_message_stays_in_table)
  show "rm_running (rt_timers (retry_Push 1000 (new_message\<lparr>m_ID := 7\<rparr>) retry_New) ! 0)"
    by (simp add: retry_Push_def retry_New_def)
  show "9000 - rm_start (rt_timers (retry_Push 1000 (new_message\<lparr>m_ID := 7\<rparr>) retry_New) ! 0) \<ge> rc_MaxTimeout sample_retry_cfg"
    by (simp add: retry_Push_def retry_New_def sample_retry_cfg_def)
  show "map_of (rt_messages (retry_Push 1000 (new_message\<lparr>m_ID := 7\<rparr>) retry_New)) (getMessageKey 0 7) = Some 0"
    by (simp add: retry_Push_def retry_New_def GetEndpoint_def new_message_def)
qed simp

text \<open>The fires of one timer, and the payloads that are sent again on the way.\<close>

fun timer_fires :: "retry_config \<Rightarrow> nat \<Rightarrow> int list \<Rightarrow> retry_state \<Rightarrow> (gerror, retry_state) res" where
  "timer_fires cfg k [] r = Ok r"
| "timer_fires cfg k (t # ts) r = rbind (timer_fire cfg k t r) (timer_fires cfg k ts)"

lemma timer_fires_stopped:
  "\<not> rm_running (rt_timers r ! k) \<Longrightarrow> timer_fires cfg k ts r = Ok r"
  by (induction ts) (simp_all add: timer_fire_def Let_def)

lemma timer_fires_run:
  assumes "k < length (rt_timers r)" "rm_running (rt_timers r ! k)" "m_Payload (rm_msg (rt_timers r ! k)) = PBytes b"
  shows "\<exists>r'. timer_fires cfg k ts r = Ok r' \<and> rt_sent r' = rt_sent r @
     replicate (length (takeWhile (\<lambda>t. t - rm_start (rt_timers r ! k) < rc_MaxTimeout cfg) ts)) (b, rm_msg (rt_timers r ! k))"
  using assms
proof (induction ts arbitrary: r)
  case (Cons t ts)
  let ?m = "rt_timers r ! k"
  show ?case
  proof (cases "t - rm_start ?m \<ge> rc_MaxTimeout cfg")
    case True
    then have "timer_fire cfg k t r = Ok (timer_return k r)" using Cons.prems by (simp add: timer_fire_def Let_def)
    moreover have "\<not> rm_running (rt_timers (timer_return k r) ! k)" "rt_sent (timer_return k r) = rt_sent r"
      using Cons.prems(1) by (simp_all add: timer_return_def Let_def)
    ultimately show ?thesis using True by (simp add: timer_fires_stopped)
  next
    case False
    define r1 where "r1 = r\<lparr>rt_sent := rt_sent r @ [(b, rm_msg ?m)],
      rt_timers := (rt_timers r)[k := ?m\<lparr>rm_attempts := rm_attempts ?m + 1,
        rm_duration := rm_duration ?m + duration (fSecond * exp (real (rm_attempts ?m + 1) * rc_BackoffFactor cfg))\<rparr>]\<rparr>"
    have fire: "timer_fire cfg k t r = Ok r1" using False Cons.prems by (simp add: timer_fire_def Let_def r1_def)
    have r1: "k < length (rt_timers r1)" "rm_running (rt_timers r1 ! k)" "rm_msg (rt_timers r1 ! k) = rm_msg ?m"
      "rm_start (rt_timers r1 ! k) = rm_start ?m" "rt_sent r1 = rt_sent r @ [(b, rm_msg ?m)]"
      using Cons.prems by (simp_all add: r1_def)
    with Cons.IH [OF r1(1,2)] Cons.prems(3) fire False show ?thesis by auto
  qed
qed simp

text \<open>
  C24. Retransmission is bounded: a message that is not acknowledged is sent again, unchanged,
  once per timer event, until the first event that comes \<open>MaxTimeout\<close> or more after its
  start, and never after that.
\<close>

theorem retransmits_until_timeout:
  assumes "m_Payload m = PBytes b"
  shows "\<exists>r. timer_fires cfg 0 ts (retry_Push now m retry_New) = Ok r
     \<and> rt_sent r = replicate (length (takeWhile (\<lambda>t. t - now < rc_MaxTimeout cfg) ts)) (b, m)"
  using timer_fires_run [of 0 "retry_Push now m retry_New" b cfg ts] assms
  by (simp add: retry_Push_def retry_New_def)

theorem retransmits_until_timeout_witness:
  "\<exists>r. timer_fires sample_retry_cfg 0 [2000, 4000, 7000, 9000] (retry_Push 1000 (new_message\<lparr>m_Payload := PBytes [1, 2]\<rparr>) retry_New) = Ok r
     \<and> rt_sent r = [([1, 2], new_message\<lparr>m_Payload := PBytes [1, 2]\<rparr>), ([1, 2], new_message\<lparr>m_Payload := PBytes [1, 2]\<rparr>)]"
  using retransmits_until_timeout [of "new_message\<lparr>m_Payload := PBytes [1, 2]\<rparr>" "[1, 2]" sample_retry_cfg "[2000, 4000, 7000, 9000]" 1000]
  by (simp add: sample_retry_cfg_def)

section \<open>Keepalive\<close>

definition keepalive_inv :: "retry_config \<Rightarrow> keepalive_state \<Rightarrow> bool" where
  "keepalive_inv cfg s \<longleftrightarrow> 0 \<le> ks_probes s \<and> (0 \<le> rc_KeepaliveProbes cfg \<longrightarrow> ks_probes s \<le> rc_KeepaliveProbes cfg)
     \<and> (ks_disconnected s \<longrightarrow> \<not> ks_running s)"

interpretation keepalive: machine "keepalive_step cfg" "keepalive_new now" "keepalive_inv cfg" for cfg now
proof
  show "keepalive_inv cfg (keepalive_new now)" by (simp add: keepalive_inv_def keepalive_new_def)
  show "keepalive_inv cfg (keepalive_step cfg s ev)" if "keepalive_inv cfg s" for s ev
    using that by (cases ev) (auto simp: keepalive_inv_def keepalive_step_def Let_def)
qed

definition silent :: "retry_config \<Rightarrow> keepalive_state \<Rightarrow> int \<Rightarrow> bool" where
  "silent cfg s t \<longleftrightarrow> (\<forall>a. ks_lastAck s = Some a \<longrightarrow> t - a \<ge> rc_KeepaliveTimeout cfg)
     \<and> t - ks_started s \<ge> rc_KeepaliveTimeout cfg"

lemma keepalive_silent_step:
  assumes "ks_running s" "silent cfg s t"
  shows "keepalive_step cfg s (KATimer t) =
     (if ks_probes s \<ge> rc_KeepaliveProbes cfg then s\<lparr>ks_disconnected := True, ks_running := False\<rparr>
      else s\<lparr>ks_sent := ks_sent s @ [False], ks_probes := ks_probes s + 1\<rparr>)"
  using assms by (auto simp: keepalive_step_def silent_def split: option.splits)

lemma keepalive_stopped: "\<not> ks_running s \<Longrightarrow> foldl (keepalive_step cfg) s evs = s"
  by (induction evs) (simp_all add: keepalive_step_def)

lemma keepalive_silent_run:
  "ks_running s \<Longrightarrow> \<not> ks_disconnected s \<Longrightarrow> \<forall>t\<in>set ts. silent cfg s t \<Longrightarrow>
   ks_probes s + int n = rc_KeepaliveProbes cfg \<Longrightarrow>
   ks_sent (foldl (keepalive_step cfg) s (map KATimer ts)) = ks_sent s @ replicate (min (length ts) n) False
   \<and> (ks_disconnected (foldl (keepalive_step cfg) s (map KATimer ts)) \<longleftrightarrow> n < length ts)"
proof (induction ts arbitrary: s n)
  case (Cons t ts)
  show ?case
  proof (cases n)
    case 0
    then have "keepalive_step cfg s (KATimer t) = s\<lparr>ks_disconnected := True, ks_running := False\<rparr>"
      using Cons.prems by (simp add: keepalive_silent_step)
    then show ?thesis using 0 by (simp add: keepalive_stopped)
  next
    case (Suc n')
    define s1 where "s1 = s\<lparr>ks_sent := ks_sent s @ [False], ks_probes := ks_probes s + 1\<rparr>"
    have step: "keepalive_step cfg s (KATimer t) = s1"
      using Cons.prems Suc by (simp add: keepalive_silent_step s1_def)
    have "\<forall>t\<in>set ts. silent cfg s1 t" using Cons.prems(3) by (simp add: silent_def s1_def)
    then show ?thesis
      using Cons.IH [of s1 n'] Cons.prems Suc step by (simp add: s1_def)
  qed
qed simp

text \<open>
  C25. A peer that stays silent is probed \<open>KeepaliveProbes\<close> times and then disconnected: over
  timer events that all come a \<open>KeepaliveTimeout\<close> after the last sign of life, exactly that
  many probes are sent, and the connection is given up at the next event and not before.
\<close>

theorem silent_peer_is_disconnected:
  assumes "0 \<le> rc_KeepaliveProbes cfg" "\<forall>t\<in>set ts. t - now \<ge> rc_KeepaliveTimeout cfg"
  shows "ks_sent (foldl (keepalive_step cfg) (keepalive_new now) (map KATimer ts)) =
       replicate (min (length ts) (nat (rc_KeepaliveProbes cfg))) False
     \<and> (ks_disconnected (foldl (keepalive_step cfg) (keepalive_new now) (map KATimer ts))
          \<longleftrightarrow> nat (rc_KeepaliveProbes cfg) < length ts)"
  using keepalive_silent_run [of "keepalive_new now" ts cfg "nat (rc_KeepaliveProbes cfg)"] assms
  by (simp add: keepalive_new_def silent_def)

theorem silent_peer_is_disconnected_witness:
  "ks_disconnected (foldl (keepalive_step sample_retry_cfg) (keepalive_new 0) (map KATimer [60, 62, 64]))"
  using silent_peer_is_disconnected [of sample_retry_cfg "[60, 62, 64]" 0] by (simp add: sample_retry_cfg_def)

end
