(* ===== verification/AckSet.thy ===== *)
theory AckSet
  imports Entity
begin

text \<open>
  \<open>MessageAcknowledgement\<close> of \<open>business/entity/ack.go\<close>: a bounded set of message
  identifiers grouped by endpoint, whose size in bytes on the wire is kept up to date by
  every insertion.
\<close>

section \<open>Model\<close>

definition acknowledgementEndpointSize :: int where [simp]: "acknowledgementEndpointSize = 9"
definition MaxUint8 :: int where [simp]: "MaxUint8 = 255"

definition NewMessageAcknowledgement :: "(u64, u32 list) gomap option \<Rightarrow> ack_message" where
  "NewMessageAcknowledgement data =
     \<lparr>ack_data = (case data of None \<Rightarrow> [] | Some d \<Rightarrow> d), ack_maxSize = 0, ack_size = 0\<rparr>"

definition SetMaxSize :: "int \<Rightarrow> ack_message \<Rightarrow> ack_message" where
  "SetMaxSize n ma = ma\<lparr>ack_maxSize := n\<rparr>"

definition GetMessagesCount :: "ack_message \<Rightarrow> int" where
  "GetMessagesCount ma = foldl (\<lambda>count (_, ids). count + int (length ids)) 0 (ack_data ma)"

definition ack_Push :: "u64 \<Rightarrow> u32 \<Rightarrow> ack_message \<Rightarrow> bool \<times> ack_message" where
  "ack_Push endpoint messageID ma =
     (case map_of (ack_data ma) endpoint of
        None \<Rightarrow>
          if ack_size ma + acknowledgementEndpointSize + 4 > ack_maxSize ma then (False, ma)
          else (True, ma\<lparr>ack_data := mput endpoint [messageID] (ack_data ma),
                         ack_size := ack_size ma + acknowledgementEndpointSize + 4\<rparr>)
      | Some ids \<Rightarrow>
          if ack_size ma + 4 > ack_maxSize ma \<or> int (length ids) + 1 > MaxUint8 then (False, ma)
          else (True, ma\<lparr>ack_data := mput endpoint (ids @ [messageID]) (ack_data ma),
                         ack_size := ack_size ma + 4\<rparr>))"

definition ack_Reset :: "ack_message \<Rightarrow> ack_message" where
  "ack_Reset ma = ma\<lparr>ack_data := [], ack_size := 0\<rparr>"

section \<open>What a set of acknowledgements holds\<close>

definition ack_pairs :: "(u64, u32 list) gomap \<Rightarrow> (u64 \<times> u32) list" where
  "ack_pairs d = concat (map (\<lambda>(e, ids). map (Pair e) ids) d)"

definition wire_size :: "(u64, u32 list) gomap \<Rightarrow> int" where
  "wire_size d = (\<Sum>(e, ids)\<leftarrow>d. 9 + 4 * int (length ids))"

definition ack_wf :: "ack_message \<Rightarrow> bool" where
  "ack_wf ma \<longleftrightarrow> mwf (ack_data ma) \<and> ack_size ma = wire_size (ack_data ma)
     \<and> (ack_data ma = [] \<or> ack_size ma \<le> ack_maxSize ma)
     \<and> (\<forall>(e, ids)\<in>set (ack_data ma). ids \<noteq> [] \<and> length ids \<le> 255)"

lemma ack_pairs_simps [simp]:
  "ack_pairs [] = []"
  "ack_pairs ((e, ids) # d) = map (Pair e) ids @ ack_pairs d"
  by (simp_all add: ack_pairs_def)

lemma wire_size_simps [simp]:
  "wire_size [] = 0"
  "wire_size ((e, ids) # d) = 9 + 4 * int (length ids) + wire_size d"
  by (simp_all add: wire_size_def)

lemma wire_size_nonneg: "0 \<le> wire_size d"
  by (induction d) auto

text \<open>Appending one identifier to the entry of its endpoint, or starting a new entry.\<close>

lemma mput_append_id:
  assumes "mwf d" "map_of d e = Some ids"
  shows "mset (ack_pairs (mput e (ids @ [x]) d)) = add_mset (e, x) (mset (ack_pairs d))"
    and "wire_size (mput e (ids @ [x]) d) = wire_size d + 4"
  using assms by (induction d) (auto simp: mwf_def split: if_splits)

lemma mput_new_id:
  assumes "map_of d e = None"
  shows "mset (ack_pairs (mput e [x] d)) = add_mset (e, x) (mset (ack_pairs d))"
    and "wire_size (mput e [x] d) = wire_size d + 13"
  using assms by (induction d) (auto split: if_splits)

lemma set_mput: "(k', v') \<in> set (mput k v d) \<Longrightarrow> (k' = k \<and> v' = v) \<or> (k', v') \<in> set d"
  by (induction d) (auto split: if_splits)

lemma ack_wf_new: "ack_wf (SetMaxSize n (NewMessageAcknowledgement None))"
  by (simp add: ack_wf_def SetMaxSize_def NewMessageAcknowledgement_def)

lemma ack_wf_Reset: "ack_wf (ack_Reset ma)"
  by (simp add: ack_wf_def ack_Reset_def)

lemma ack_Push_maxSize [simp]: "ack_maxSize (snd (ack_Push e x ma)) = ack_maxSize ma"
  by (auto simp: ack_Push_def split: option.splits)

lemma ack_Push_refused: "\<not> fst (ack_Push e x ma) \<Longrightarrow> snd (ack_Push e x ma) = ma"
  by (auto simp: ack_Push_def split: option.splits if_splits)

lemma ack_Push_pairs:
  assumes "ack_wf ma" "fst (ack_Push e x ma)"
  shows "mset (ack_pairs (ack_data (snd (ack_Push e x ma)))) = add_mset (e, x) (mset (ack_pairs (ack_data ma)))"
  using assms by (auto simp: ack_Push_def ack_wf_def mput_append_id mput_new_id split: option.splits if_splits)

lemma ack_Push_wf:
  assumes "ack_wf ma"
  shows "ack_wf (snd (ack_Push e x ma))"
proof (cases "fst (ack_Push e x ma)")
  case False
  with assms show ?thesis by (simp add: ack_Push_refused)
next
  case True
  show ?thesis
  proof (cases "map_of (ack_data ma) e")
    case None
    with True assms show ?thesis
      by (auto simp: ack_Push_def ack_wf_def mput_new_id gomap_simps split: if_splits dest: set_mput)
  next
    case (Some ids)
    then have "(e, ids) \<in> set (ack_data ma)" by (rule map_of_SomeD)
    with True Some assms show ?thesis
      by (auto simp: ack_Push_def ack_wf_def mput_append_id gomap_simps split: if_splits dest: set_mput)
  qed
qed

lemma ack_Push_empty:
  assumes "13 \<le> ack_maxSize ma" "ack_data ma = []" "ack_size ma = 0"
  shows "fst (ack_Push e x ma)"
  using assms by (simp add: ack_Push_def)

lemma GetMessagesCount_eq: "GetMessagesCount ma = int (length (ack_pairs (ack_data ma)))"
proof -
  have "foldl (\<lambda>count (_, ids). count + int (length ids)) n d = n + int (length (ack_pairs d))"
    for n and d :: "(u64, u32 list) gomap"
    by (induction d arbitrary: n) auto
  then show ?thesis by (simp add: GetMessagesCount_def)
qed

end
