(* ===== verification/Tracking.thy ===== *)
theory Tracking
  imports Retry AckSet
begin

text \<open>
  What the retransmission knows of the messages it was given (\<open>adapter/retry/retry.go\<close>): as long as every message has a key of its
  own, the timers are the messages in the order of their \<open>Push\<close>, the table leads from a key to its timer, and an
  acknowledgement stops the timers of the messages that it names and no other.
\<close>

definition key_of :: "message \<Rightarrow> u64 \<times> u64" where
  "key_of m = getMessageKey (GetEndpoint m) (m_ID m)"

lemma key_of_eq: "key_of m = key_of n \<longleftrightarrow> GetEndpoint m = GetEndpoint n \<and> m_ID m = m_ID n"
  by (simp add: key_of_def getMessageKey_inj)

lemma key_of_payload [simp]: "key_of (m\<lparr>m_Payload := p\<rparr>) = key_of m"
  by (simp add: key_of_def GetEndpoint_def)

text \<open>
  \<open>retry_tracks G sent r\<close>: the messages \<open>sent\<close> were pushed one after the other, each with the datagram
  that it was sent in as its payload; \<open>G\<close> is what is known of message and datagram.
\<close>

definition retry_tracks :: "(message \<Rightarrow> bytes \<Rightarrow> bool) \<Rightarrow> message list \<Rightarrow> retry_state \<Rightarrow> bool" where
  "retry_tracks G sent r \<longleftrightarrow> length (rt_timers r) = length sent
     \<and> (\<forall>m\<in>set sent. m_ID m \<noteq> 0) \<and> distinct (map key_of sent)
     \<and> (\<forall>k<length sent. rm_running (rt_timers r ! k) \<longrightarrow>
          (\<exists>b. rm_msg (rt_timers r ! k) = (sent ! k)\<lparr>m_Payload := PBytes b\<rparr> \<and> G (sent ! k) b))
     \<and> (\<forall>key k. map_of (rt_messages r) key = Some k \<longrightarrow> k < length sent \<and> key = key_of (sent ! k))
     \<and> (\<forall>k<length sent. rm_running (rt_timers r ! k) \<longrightarrow> \<not> rm_stop (rt_timers r ! k) \<longrightarrow>
          map_of (rt_messages r) (key_of (sent ! k)) = Some k)"

lemma tracksD:
  assumes "retry_tracks G sent r"
  shows "length (rt_timers r) = length sent" "distinct (map key_of sent)"
    and "m \<in> set sent \<Longrightarrow> m_ID m \<noteq> 0"
    and "k < length sent \<Longrightarrow> rm_running (rt_timers r ! k) \<Longrightarrow>
      \<exists>b. rm_msg (rt_timers r ! k) = (sent ! k)\<lparr>m_Payload := PBytes b\<rparr> \<and> G (sent ! k) b"
    and "map_of (rt_messages r) key = Some k \<Longrightarrow> k < length sent \<and> key = key_of (sent ! k)"
    and "k < length sent \<Longrightarrow> rm_running (rt_timers r ! k) \<Longrightarrow> \<not> rm_stop (rt_timers r ! k) \<Longrightarrow>
      map_of (rt_messages r) (key_of (sent ! k)) = Some k"
  using assms unfolding retry_tracks_def by blast+

lemma tracks_new: "retry_tracks G [] retry_New"
  by (simp add: retry_tracks_def retry_New_def)

lemma tracks_same_key: "retry_tracks G sent r \<Longrightarrow> j < length sent \<Longrightarrow> k < length sent \<Longrightarrow> key_of (sent ! j) = key_of (sent ! k) \<Longrightarrow> j = k"
  using nth_eq_iff_index_eq [OF tracksD(2), of G sent r j k] by simp

lemma tracks_push:
  assumes tr: "retry_tracks G sent r" and new: "key_of m \<notin> key_of ` set sent" "m_ID m \<noteq> 0" "G m b"
  shows "retry_tracks G (sent @ [m]) (retry_Push now (m\<lparr>m_Payload := PBytes b\<rparr>) r)"
proof -
  note t = tracksD [OF tr]
  let ?r = "retry_Push now (m\<lparr>m_Payload := PBytes b\<rparr>) r"
  have key: "getMessageKey (GetEndpoint (m\<lparr>m_Payload := PBytes b\<rparr>)) (m_ID (m\<lparr>m_Payload := PBytes b\<rparr>)) = key_of m"
    using key_of_payload [of "PBytes b" m] by (simp add: key_of_def)
  have old: "rt_timers ?r ! k = rt_timers r ! k" "(sent @ [m]) ! k = sent ! k" if "k < length sent" for k
    using that t(1) by (simp_all add: retry_Push_def nth_append)
  have here: "rt_timers ?r ! length sent = \<lparr>rm_start = now, rm_attempts = 0, rm_duration = rs_rto (rt_rtt r),
      rm_stop = False, rm_running = True, rm_msg = m\<lparr>m_Payload := PBytes b\<rparr>\<rparr>"
    using t(1) by (simp add: retry_Push_def nth_append)
  have table: "map_of (rt_messages ?r) = (map_of (rt_messages r))(key_of m \<mapsto> length sent)"
    using t(1) by (simp only: retry_Push_def key) (simp add: gomap_simps)
  have fresh: "key_of (sent ! k) \<noteq> key_of m" if "k < length sent" for k
    using new(1) that by (metis image_eqI nth_mem)
  show ?thesis
    unfolding retry_tracks_def
  proof (intro conjI allI impI)
    show "length (rt_timers ?r) = length (sent @ [m])" using t(1) by (simp add: retry_Push_def)
    show "\<forall>m\<in>set (sent @ [m]). m_ID m \<noteq> 0" using t(3) new(2) by auto
    show "distinct (map key_of (sent @ [m]))" using t(2) new(1) by simp
  next
    fix k assume "k < length (sent @ [m])" "rm_running (rt_timers ?r ! k)"
    then show "\<exists>b. rm_msg (rt_timers ?r ! k) = ((sent @ [m]) ! k)\<lparr>m_Payload := PBytes b\<rparr> \<and> G ((sent @ [m]) ! k) b"
    proof (cases "k = length sent")
      case True
      then show ?thesis using here new(3) by (intro exI [of _ b]) simp
    next
      case False
      with \<open>k < length (sent @ [m])\<close> have k: "k < length sent" by simp
      from t(4) [OF k] show ?thesis using \<open>rm_running (rt_timers ?r ! k)\<close> by (simp only: old [OF k])
    qed
  next
    fix key k assume "map_of (rt_messages ?r) key = Some k"
    then have "key = key_of m \<and> k = length sent \<or> map_of (rt_messages r) key = Some k" by (auto simp: table split: if_splits)
    then have "k < length (sent @ [m]) \<and> key = key_of ((sent @ [m]) ! k)"
      using t(5) [of key k] by (auto simp: nth_append)
    then show "k < length (sent @ [m])" "key = key_of ((sent @ [m]) ! k)" by simp_all
  next
    fix k assume "k < length (sent @ [m])" "rm_running (rt_timers ?r ! k)" "\<not> rm_stop (rt_timers ?r ! k)"
    then show "map_of (rt_messages ?r) (key_of ((sent @ [m]) ! k)) = Some k"
    proof (cases "k = length sent")
      case False
      with \<open>k < length (sent @ [m])\<close> have k: "k < length sent" by simp
      from t(6) [OF k] show ?thesis
        using \<open>rm_running (rt_timers ?r ! k)\<close> \<open>\<not> rm_stop (rt_timers ?r ! k)\<close> fresh [OF k] by (simp only: old [OF k] table) simp
    qed (simp add: table)
  qed
qed

text \<open>Changes that leave messages, table and the timers that run in order.\<close>

lemma tracks_change:
  assumes tr: "retry_tracks G sent r" and len: "length (rt_timers r1) = length (rt_timers r)"
    and running: "\<And>k. k < length sent \<Longrightarrow> rm_running (rt_timers r1 ! k) \<Longrightarrow>
      rm_running (rt_timers r ! k) \<and> rm_msg (rt_timers r1 ! k) = rm_msg (rt_timers r ! k) \<and> (rm_stop (rt_timers r ! k) \<longrightarrow> rm_stop (rt_timers r1 ! k))"
    and table: "\<And>key k. map_of (rt_messages r1) key = Some k \<Longrightarrow> map_of (rt_messages r) key = Some k"
    and kept: "\<And>k. k < length sent \<Longrightarrow> rm_running (rt_timers r1 ! k) \<Longrightarrow> \<not> rm_stop (rt_timers r1 ! k) \<Longrightarrow>
      map_of (rt_messages r1) (key_of (sent ! k)) = map_of (rt_messages r) (key_of (sent ! k))"
  shows "retry_tracks G sent r1"
  unfolding retry_tracks_def
proof (intro conjI allI impI)
  show "length (rt_timers r1) = length sent" "\<forall>m\<in>set sent. m_ID m \<noteq> 0" "distinct (map key_of sent)"
    using tracksD [OF tr] len by simp_all
  show "\<exists>b. rm_msg (rt_timers r1 ! k) = (sent ! k)\<lparr>m_Payload := PBytes b\<rparr> \<and> G (sent ! k) b"
    if "k < length sent" "rm_running (rt_timers r1 ! k)" for k
    using tracksD(4) [OF tr that(1)] running [OF that] by simp
  show "k < length sent" "key = key_of (sent ! k)" if "map_of (rt_messages r1) key = Some k" for key k
    using tracksD(5) [OF tr table [OF that]] by simp_all
  show "map_of (rt_messages r1) (key_of (sent ! k)) = Some k"
    if "k < length sent" "rm_running (rt_timers r1 ! k)" "\<not> rm_stop (rt_timers r1 ! k)" for k
    using tracksD(6) [OF tr that(1)] running [OF that(1,2)] kept [OF that] that(3) by auto
qed

text \<open>The entry that a returning timer deletes is that of no message: none has number 0.\<close>

lemma tracks_return:
  assumes tr: "retry_tracks G sent r" and k: "k < length sent"
  shows "retry_tracks G sent (timer_return k r)"
    and "j < length sent \<Longrightarrow> rm_stop (rt_timers (timer_return k r) ! j) = rm_stop (rt_timers r ! j)"
proof -
  have len: "length (rt_timers r) = length sent" by (rule tracksD(1) [OF tr])
  have reset: "GetEndpoint (Message_Reset m) = 0" "m_ID (Message_Reset m) = 0" for m
    by (simp_all add: Message_Reset_def GetEndpoint_def)
  have other: "key_of (sent ! j) \<noteq> getMessageKey 0 0" if "j < length sent" for j
    using tracksD(3) [OF tr nth_mem [OF that]] by (simp add: key_of_def getMessageKey_inj)
  show "retry_tracks G sent (timer_return k r)"
  proof (rule tracks_change [OF tr])
    show "map_of (rt_messages r) key = Some j" if "map_of (rt_messages (timer_return k r)) key = Some j" for key j
      using that by (simp add: timer_return_def Let_def gomap_simps split: if_splits)
    show "map_of (rt_messages (timer_return k r)) (key_of (sent ! j)) = map_of (rt_messages r) (key_of (sent ! j))"
      if "j < length sent" for j
      using other [OF that] by (simp add: timer_return_def Let_def gomap_simps reset)
  qed (use k len in \<open>auto simp: timer_return_def Let_def nth_list_update split: if_splits\<close>)
  show "j < length sent \<Longrightarrow> rm_stop (rt_timers (timer_return k r) ! j) = rm_stop (rt_timers r ! j)"
    using k len by (simp add: timer_return_def Let_def nth_list_update)
qed

text \<open>A timer fires: the datagram of its message is sent again, or it is given up.\<close>

lemma tracks_fire:
  assumes tr: "retry_tracks G sent r" and k: "k < length sent" and fire: "timer_fire cfg k now r = Ok r1"
  shows "retry_tracks G sent r1"
    and "\<exists>again. rt_sent r1 = rt_sent r @ again \<and> (\<forall>x\<in>set again. G (sent ! k) (fst x))"
    and "j < length sent \<Longrightarrow> rm_stop (rt_timers r1 ! j) = rm_stop (rt_timers r ! j)"
proof -
  let ?m = "rt_timers r ! k"
  have len: "length (rt_timers r) = length sent" by (rule tracksD(1) [OF tr])
  consider "r1 = r" | "r1 = timer_return k r" "rt_sent r1 = rt_sent r"
    | b where "rm_running ?m" "m_Payload (rm_msg ?m) = PBytes b" "r1 = r\<lparr>rt_sent := rt_sent r @ [(b, rm_msg ?m)],
        rt_timers := (rt_timers r)[k := ?m\<lparr>rm_attempts := rm_attempts ?m + 1,
          rm_duration := rm_duration ?m + duration (fSecond * exp (real (rm_attempts ?m + 1) * rc_BackoffFactor cfg))\<rparr>]\<rparr>"
    using fire by (auto simp: timer_fire_def timer_return_def Let_def split: if_splits payload.splits)
  then have "retry_tracks G sent r1 \<and> (\<exists>again. rt_sent r1 = rt_sent r @ again \<and> (\<forall>x\<in>set again. G (sent ! k) (fst x)))
     \<and> (\<forall>j<length sent. rm_stop (rt_timers r1 ! j) = rm_stop (rt_timers r ! j))"
  proof cases
    case 1
    then show ?thesis using tr by simp
  next
    case 2
    then show ?thesis using tracks_return [OF tr k] by simp
  next
    case 3
    then obtain b' where "rm_msg ?m = (sent ! k)\<lparr>m_Payload := PBytes b'\<rparr>" "G (sent ! k) b'" using tracksD(4) [OF tr k] by blast
    then have "G (sent ! k) b" using 3(2) by simp
    moreover have "retry_tracks G sent r1"
      by (rule tracks_change [OF tr]) (use 3(3) len k in \<open>auto simp: nth_list_update split: if_splits\<close>)
    ultimately show ?thesis using 3(3) len k by (simp add: nth_list_update)
  qed
  then show "retry_tracks G sent r1" "\<exists>again. rt_sent r1 = rt_sent r @ again \<and> (\<forall>x\<in>set again. G (sent ! k) (fst x))"
    "j < length sent \<Longrightarrow> rm_stop (rt_timers r1 ! j) = rm_stop (rt_timers r ! j)" by blast+
qed

lemma tracks_stop:
  assumes "retry_tracks G sent r" "k < length sent"
  shows "retry_tracks G sent (timer_stop k r)"
    and "j < length sent \<Longrightarrow> rm_stop (rt_timers (timer_stop k r) ! j) = rm_stop (rt_timers r ! j)"
  using tracks_return [OF assms] assms(1) by (simp_all add: timer_stop_def Let_def)

section \<open>Acknowledgements\<close>

text \<open>One identifier: the timer of the message with that key is stopped, if the table still has it.\<close>

lemma tracks_ack_one:
  assumes tr: "retry_tracks G sent r" and r1_def: "r1 = ack_one now pending e i r"
  shows "retry_tracks G sent r1"
    and "j < length sent \<Longrightarrow> rm_running (rt_timers r1 ! j) = rm_running (rt_timers r ! j)"
    and "j < length sent \<Longrightarrow> rm_stop (rt_timers r ! j) \<Longrightarrow> rm_stop (rt_timers r1 ! j)"
    and "j < length sent \<Longrightarrow> rm_stop (rt_timers r1 ! j) \<Longrightarrow>
      rm_stop (rt_timers r ! j) \<or> GetEndpoint (sent ! j) = e \<and> m_ID (sent ! j) = i"
    and "j < length sent \<Longrightarrow> rm_running (rt_timers r ! j) \<Longrightarrow> GetEndpoint (sent ! j) = e \<Longrightarrow> m_ID (sent ! j) = i \<Longrightarrow>
      rm_stop (rt_timers r1 ! j)"
proof -
  have len: "length (rt_timers r) = length sent" by (rule tracksD(1) [OF tr])
  have all: "retry_tracks G sent r1 \<and> (\<forall>j<length sent. rm_running (rt_timers r1 ! j) = rm_running (rt_timers r ! j)
      \<and> (rm_stop (rt_timers r ! j) \<longrightarrow> rm_stop (rt_timers r1 ! j))
      \<and> (rm_stop (rt_timers r1 ! j) \<longrightarrow> rm_stop (rt_timers r ! j) \<or> GetEndpoint (sent ! j) = e \<and> m_ID (sent ! j) = i)
      \<and> (rm_running (rt_timers r ! j) \<longrightarrow> GetEndpoint (sent ! j) = e \<longrightarrow> m_ID (sent ! j) = i \<longrightarrow> rm_stop (rt_timers r1 ! j)))"
  proof (cases "map_of (rt_messages r) (getMessageKey e i)")
    case None
    then have "r1 = r" by (simp add: r1_def ack_one_def)
    moreover have "rm_stop (rt_timers r ! j)"
      if "j < length sent" "rm_running (rt_timers r ! j)" "GetEndpoint (sent ! j) = e" "m_ID (sent ! j) = i" for j
      using tracksD(6) [OF tr that(1,2)] that(3,4) None by (auto simp: key_of_def)
    ultimately show ?thesis using tr by blast
  next
    case (Some k)
    note k = tracksD(5) [OF tr Some]
    then have key: "getMessageKey e i = key_of (sent ! k)" by blast
    have names: "GetEndpoint (sent ! k) = e \<and> m_ID (sent ! k) = i" using k by (simp add: key_of_def getMessageKey_inj)
    have timers: "rt_timers r1 = (rt_timers r)[k := (rt_timers r ! k)\<lparr>rm_stop := True\<rparr>]"
      and table: "map_of (rt_messages r1) = (map_of (rt_messages r))(key_of (sent ! k) := None)"
      using Some by (auto simp: r1_def ack_one_def Let_def gomap_simps key)
    have "retry_tracks G sent r1"
    proof (rule tracks_change [OF tr])
      show "map_of (rt_messages r1) (key_of (sent ! j)) = map_of (rt_messages r) (key_of (sent ! j))"
        if "j < length sent" "rm_running (rt_timers r1 ! j)" "\<not> rm_stop (rt_timers r1 ! j)" for j
      proof -
        have "j \<noteq> k" using that(3) k len by (auto simp: timers)
        then have "key_of (sent ! j) \<noteq> key_of (sent ! k)" using tracks_same_key [OF tr that(1)] k by blast
        then show ?thesis by (simp add: table)
      qed
    qed (use len k in \<open>auto simp: timers table nth_list_update split: if_splits\<close>)
    moreover have "rm_running (rt_timers r1 ! j) = rm_running (rt_timers r ! j)
      \<and> rm_stop (rt_timers r1 ! j) = (rm_stop (rt_timers r ! j) \<or> j = k)" for j
      using k len by (simp add: timers nth_list_update)
    moreover have "(j = k) = (GetEndpoint (sent ! j) = e \<and> m_ID (sent ! j) = i)" if "j < length sent" for j
      using tracks_same_key [OF tr that conjunct1 [OF k]] names by (metis key_of_eq)
    ultimately show ?thesis by simp
  qed
  then show "retry_tracks G sent r1" by blast
  from all show "j < length sent \<Longrightarrow> rm_running (rt_timers r1 ! j) = rm_running (rt_timers r ! j)"
    "j < length sent \<Longrightarrow> rm_stop (rt_timers r ! j) \<Longrightarrow> rm_stop (rt_timers r1 ! j)"
    "j < length sent \<Longrightarrow> rm_stop (rt_timers r1 ! j) \<Longrightarrow>
      rm_stop (rt_timers r ! j) \<or> GetEndpoint (sent ! j) = e \<and> m_ID (sent ! j) = i"
    "j < length sent \<Longrightarrow> rm_running (rt_timers r ! j) \<Longrightarrow> GetEndpoint (sent ! j) = e \<Longrightarrow> m_ID (sent ! j) = i \<Longrightarrow>
      rm_stop (rt_timers r1 ! j)"
    by simp_all
qed

text \<open>A sequence of them, as the two loops of \<open>Ack\<close> go through the set.\<close>

definition ack_each :: "int \<Rightarrow> bool \<Rightarrow> (u64 \<times> u32) list \<Rightarrow> retry_state \<Rightarrow> retry_state" where
  "ack_each now pending ps r = fold (\<lambda>(e, i). ack_one now pending e i) ps r"

lemma ack_each_pairs: "fold (\<lambda>(e, ids). fold (ack_one now p e) ids) d r = ack_each now p (ack_pairs d) r"
proof -
  have one: "fold (ack_one now p e) ids r = ack_each now p (map (Pair e) ids) r" for e ids r
    by (induction ids arbitrary: r) (simp_all add: ack_each_def)
  show ?thesis
    by (induction d arbitrary: r) (auto simp: one ack_each_def ack_pairs_def)
qed

lemma tracks_ack_each:
  assumes "retry_tracks G sent r"
  shows "retry_tracks G sent (ack_each now p ps r)
    \<and> (\<forall>j<length sent. rm_running (rt_timers (ack_each now p ps r) ! j) = rm_running (rt_timers r ! j)
      \<and> (rm_stop (rt_timers (ack_each now p ps r) ! j) \<longrightarrow>
          rm_stop (rt_timers r ! j) \<or> (GetEndpoint (sent ! j), m_ID (sent ! j)) \<in> set ps)
      \<and> (rm_stop (rt_timers r ! j) \<or> rm_running (rt_timers r ! j) \<and> (GetEndpoint (sent ! j), m_ID (sent ! j)) \<in> set ps \<longrightarrow>
          rm_stop (rt_timers (ack_each now p ps r) ! j)))"
  using assms
proof (induction ps arbitrary: r)
  case (Cons x ps)
  obtain e i where x: "x = (e, i)" by (cases x)
  let ?r = "ack_one now p e i r"
  note one = tracks_ack_one [OF Cons.prems refl, where now = now and pending = p and e = e and i = i]
  have step: "ack_each now p (x # ps) r = ack_each now p ps ?r" by (simp add: ack_each_def x)
  have "j < length sent \<Longrightarrow> rm_running (rt_timers (ack_each now p ps ?r) ! j) = rm_running (rt_timers r ! j)
      \<and> (rm_stop (rt_timers (ack_each now p ps ?r) ! j) \<longrightarrow>
          rm_stop (rt_timers r ! j) \<or> (GetEndpoint (sent ! j), m_ID (sent ! j)) \<in> set (x # ps))
      \<and> (rm_stop (rt_timers r ! j) \<or> rm_running (rt_timers r ! j) \<and> (GetEndpoint (sent ! j), m_ID (sent ! j)) \<in> set (x # ps) \<longrightarrow>
          rm_stop (rt_timers (ack_each now p ps ?r) ! j))" for j
    using conjunct2 [OF Cons.IH [OF one(1)], rule_format, of j] one(2-5) [of j] by (auto simp: x)
  then show ?case
    unfolding step using conjunct1 [OF Cons.IH [OF one(1)]] by blast
qed (simp add: ack_each_def)

lemma tracks_Ack:
  assumes "retry_tracks G sent r" and r1_def: "r1 = retry_Ack now p (Some a) r"
  shows "retry_tracks G sent r1"
    and "j < length sent \<Longrightarrow> rm_stop (rt_timers r1 ! j) \<Longrightarrow>
      rm_stop (rt_timers r ! j) \<or> (GetEndpoint (sent ! j), m_ID (sent ! j)) \<in> set (ack_pairs (ack_data a))"
    and "j < length sent \<Longrightarrow> rm_stop (rt_timers r ! j)
        \<or> rm_running (rt_timers r ! j) \<and> (GetEndpoint (sent ! j), m_ID (sent ! j)) \<in> set (ack_pairs (ack_data a)) \<Longrightarrow>
      rm_stop (rt_timers r1 ! j)"
proof -
  have eq: "r1 = (ack_each now p (ack_pairs (ack_data a)) r)\<lparr>rt_keepaliveCh := rt_keepaliveCh (ack_each now p (ack_pairs (ack_data a)) r) @ [True]\<rparr>"
    by (simp add: r1_def retry_Ack_def ack_each_pairs Let_def)
  note each = tracks_ack_each [OF assms(1), of now p "ack_pairs (ack_data a)"]
  show "retry_tracks G sent r1" using each by (simp add: eq retry_tracks_def)
  show "j < length sent \<Longrightarrow> rm_stop (rt_timers r1 ! j) \<Longrightarrow>
      rm_stop (rt_timers r ! j) \<or> (GetEndpoint (sent ! j), m_ID (sent ! j)) \<in> set (ack_pairs (ack_data a))"
    "j < length sent \<Longrightarrow> rm_stop (rt_timers r ! j)
        \<or> rm_running (rt_timers r ! j) \<and> (GetEndpoint (sent ! j), m_ID (sent ! j)) \<in> set (ack_pairs (ack_data a)) \<Longrightarrow>
      rm_stop (rt_timers r1 ! j)"
    using each by (auto simp: eq)
qed

end
