(* ===== verification/WaitingList.thy ===== *)
theory WaitingList
  imports Entity
begin

text \<open>
  The waiting list of \<open>adapter/merger/wlist.go\<close>: the messages of one endpoint that arrived
  ahead of their turn, kept in the order of their identifiers. A call of the sender is
  recorded by appending the message to \<open>wl_sent\<close>, so that \<open>wl_sent\<close> is what the receiver of
  the merger has been given, in order.
\<close>

section \<open>Model\<close>

record merge_message =
  mm_msg :: message
  mm_conn :: connection

definition mm_id :: "merge_message \<Rightarrow> u32" where
  "mm_id m = m_ID (mm_msg m)"

definition mm_size :: "merge_message \<Rightarrow> int" where
  "mm_size m = uint (m_PayloadLength (mm_msg m))"

record waiting_list =
  wl_lastID :: u32
  wl_firstSent :: bool
  wl_data :: "merge_message list"
  wl_dataSize :: int
  wl_firstMessageTs :: int
  wl_idsMap :: "u32 set"
  wl_sent :: "merge_message list"

definition newWaitingList :: waiting_list where
  "newWaitingList = \<lparr>wl_lastID = 0, wl_firstSent = False, wl_data = [], wl_dataSize = 0,
     wl_firstMessageTs = 0, wl_idsMap = {}, wl_sent = []\<rparr>"

definition getHead :: "waiting_list \<Rightarrow> merge_message option" where
  "getHead wl = (case wl_data wl of [] \<Rightarrow> None | m # _ \<Rightarrow> Some m)"

definition isThisFirstMessage :: "waiting_list \<Rightarrow> bool" where
  "isThisFirstMessage wl \<longleftrightarrow> \<not> wl_firstSent wl"

definition wl_exists :: "u32 \<Rightarrow> waiting_list \<Rightarrow> bool" where
  "wl_exists i wl \<longleftrightarrow> i \<in> wl_idsMap wl"

definition wl_send :: "merge_message \<Rightarrow> waiting_list \<Rightarrow> waiting_list" where
  "wl_send req wl = wl\<lparr>wl_sent := wl_sent wl @ [req], wl_lastID := mm_id req, wl_firstSent := True\<rparr>"

text \<open>
  The loop of \<open>push\<close> looks for the first position where the difference \<open>req.ID - data[i].ID\<close>,
  taken in 32 bits, grows: there the identifiers have stepped over the new one.
\<close>

fun push_position :: "u32 \<Rightarrow> u32 \<Rightarrow> nat \<Rightarrow> merge_message list \<Rightarrow> nat option" where
  "push_position i lastMinID k [] = None"
| "push_position i lastMinID k (d # ds) =
     (let minID = i - mm_id d
      in if minID > lastMinID then Some k else push_position i minID (Suc k) ds)"

definition insert_at :: "nat \<Rightarrow> 'a \<Rightarrow> 'a list \<Rightarrow> 'a list" where
  \<comment> \<open>\<open>slices.Insert(xs, k, x)\<close>\<close>
  "insert_at k x xs = take k xs @ x # drop k xs"

definition wl_push :: "int \<Rightarrow> merge_message \<Rightarrow> waiting_list \<Rightarrow> (gerror, unit) res \<times> waiting_list" where
  "wl_push now req wl0 =
     (let wl = wl0\<lparr>wl_dataSize := wl_dataSize wl0 + mm_size req\<rparr>;
          data = wl_data wl;
          ids = insert (mm_id req) (wl_idsMap wl)
      in if data \<noteq> [] then
           if mm_id (last data) < mm_id req
           then (Ok (), wl\<lparr>wl_data := data @ [req], wl_idsMap := ids\<rparr>)
           else if mm_id (hd data) > mm_id req
           then (Ok (), wl\<lparr>wl_data := insert_at 0 req data, wl_idsMap := ids\<rparr>)
           else (case push_position (mm_id req) MaxUint32 0 data of
                   Some k \<Rightarrow> (Ok (), wl\<lparr>wl_data := insert_at k req data, wl_idsMap := ids\<rparr>)
                 | None \<Rightarrow> (Err ErrWaitingListSort, wl))
         else (Ok (), wl\<lparr>wl_data := [req], wl_idsMap := ids, wl_firstMessageTs := now\<rparr>))"

text \<open>
  The loop of \<open>pop\<close> sends the messages from the head on, as long as the next one follows the
  last identifier sent; what it leaves is \<open>data[i+1:]\<close>.
\<close>

fun pop_loop :: "merge_message list \<Rightarrow> waiting_list \<Rightarrow> merge_message list \<times> waiting_list" where
  "pop_loop [] wl = ([], wl)"
| "pop_loop (d # ds) wl =
     (let wl1 = wl_send d wl;
          wl2 = wl1\<lparr>wl_idsMap := wl_idsMap wl1 - {mm_id d}, wl_dataSize := wl_dataSize wl1 - mm_size d\<rparr>
      in if ds \<noteq> [] \<and> mm_id (hd ds) \<noteq> wl_lastID wl2 + 1 then (ds, wl2)
         else pop_loop ds wl2)"

definition wl_pop :: "merge_message option \<Rightarrow> waiting_list \<Rightarrow> bool \<times> waiting_list" where
  "wl_pop req wl =
     (case getHead wl of
        Some h \<Rightarrow>
          if mm_id h = wl_lastID wl + 1 \<or> mm_id h = 0 then
            let wl1 = (case req of None \<Rightarrow> wl | Some r \<Rightarrow> wl_send r wl);
                (rest, wl2) = pop_loop (wl_data wl1) wl1
            in (False, if rest = [] then wl2\<lparr>wl_data := [], wl_firstMessageTs := 0\<rparr>
                       else wl2\<lparr>wl_data := rest\<rparr>)
          else (True, wl)
      | None \<Rightarrow> (True, wl))"

definition wl_reset :: "waiting_list \<Rightarrow> waiting_list" where
  "wl_reset wl =
     (let wl1 = fold wl_send (wl_data wl) wl
      in wl1\<lparr>wl_data := [], wl_idsMap := {}, wl_dataSize := 0\<rparr>)"

section \<open>The invariant\<close>

abbreviation wl_ids :: "waiting_list \<Rightarrow> u32 list" where
  "wl_ids wl \<equiv> map mm_id (wl_data wl)"

abbreviation sent_ids :: "waiting_list \<Rightarrow> u32 list" where
  "sent_ids wl \<equiv> map mm_id (wl_sent wl)"

text \<open>
  The order of delivery: each identifier is above the one before, unless that one was the
  last 32-bit identifier, after which the sender starts again.
\<close>

definition delivery_ordered :: "u32 list \<Rightarrow> bool" where
  "delivery_ordered = successively (\<lambda>a b. a < b \<or> a = MaxUint32)"

definition wl_stored :: "waiting_list \<Rightarrow> bool" where
  "wl_stored wl \<longleftrightarrow> sorted_wrt (<) (wl_ids wl) \<and> wl_idsMap wl = set (wl_ids wl)
     \<and> wl_dataSize wl = (\<Sum>d\<leftarrow>wl_data wl. mm_size d) \<and> 0 \<notin> set (wl_ids wl)"

definition wl_sent_ok :: "waiting_list \<Rightarrow> bool" where
  "wl_sent_ok wl \<longleftrightarrow> delivery_ordered (sent_ids wl) \<and> (wl_firstSent wl \<longleftrightarrow> wl_sent wl \<noteq> [])
     \<and> wl_lastID wl = (if wl_sent wl = [] then 0 else last (sent_ids wl))"

definition wl_ahead :: "waiting_list \<Rightarrow> bool" where
  "wl_ahead wl \<longleftrightarrow> wl_lastID wl = MaxUint32 \<or> (\<forall>i\<in>set (wl_ids wl). wl_lastID wl < i)"

definition wl_gap :: "waiting_list \<Rightarrow> bool" where
  "wl_gap wl \<longleftrightarrow> wl_data wl = [] \<or> mm_id (hd (wl_data wl)) \<noteq> wl_lastID wl + 1"

definition wl_inv :: "waiting_list \<Rightarrow> bool" where
  "wl_inv wl \<longleftrightarrow> wl_stored wl \<and> wl_sent_ok wl \<and> wl_ahead wl \<and> wl_gap wl"

lemmas wl_inv_defs = wl_inv_def wl_stored_def wl_sent_ok_def wl_ahead_def wl_gap_def

lemma wl_inv_new: "wl_inv newWaitingList"
  by (simp add: wl_inv_defs newWaitingList_def delivery_ordered_def)

section \<open>Inserting\<close>

lemma diff_below: "d \<le> i \<Longrightarrow> unat (i - d) = unat i - unat d" for i d :: u32
  by (rule unat_sub)

lemma diff_above: "i < d \<Longrightarrow> unat (i - d) = unat i + 2 ^ 32 - unat d" for i d :: u32
  by (simp add: unat_sub_if' word_less_nat_alt)

text \<open>The loop of \<open>push\<close>, entered after an element below the new identifier.\<close>

lemma push_position_after:
  assumes "sorted_wrt (<) (p # map mm_id ds)" "p < i" "i \<notin> mm_id ` set ds" "\<exists>d\<in>set ds. i < mm_id d"
  shows "push_position i (i - p) k ds = Some (k + length (takeWhile (\<lambda>d. mm_id d < i) ds))"
  using assms
proof (induction ds arbitrary: p k)
  case (Cons d ds)
  have pd: "p < mm_id d" using Cons.prems(1) by simp
  show ?case
  proof (cases "mm_id d < i")
    case True
    then have "\<not> i - p < i - mm_id d"
      using pd Cons.prems(2) by (simp add: word_less_nat_alt diff_below order.strict_implies_order)
    moreover have "push_position i (i - mm_id d) (Suc k) ds = Some (Suc k + length (takeWhile (\<lambda>d. mm_id d < i) ds))"
      using Cons.prems True by (intro Cons.IH) auto
    ultimately show ?thesis using True by (simp add: Let_def)
  next
    case False
    with Cons.prems(3) have "i < mm_id d" by auto
    then have "i - p < i - mm_id d"
      using pd Cons.prems(2) unat_u32_bound [of "mm_id d"]
      by (simp add: word_less_nat_alt diff_below diff_above order.strict_implies_order)
    with False show ?thesis by (simp add: Let_def)
  qed
qed simp

lemma not_above_MaxUint32 [simp]: "\<not> MaxUint32 < x"
  using unat_u32_bound [of x] by (simp add: MaxUint32_def word_less_nat_alt)

lemma push_position_found:
  assumes "sorted_wrt (<) (map mm_id ds)" "i \<notin> mm_id ` set ds" "ds \<noteq> []"
    and "mm_id (hd ds) < i" "i < mm_id (last ds)"
  shows "push_position i MaxUint32 0 ds = Some (length (takeWhile (\<lambda>d. mm_id d < i) ds))"
proof -
  obtain d ds' where ds: "ds = d # ds'" using assms(3) by (cases ds) auto
  have "ds' \<noteq> []" using assms(4,5) ds by auto
  then have "\<exists>e\<in>set ds'. i < mm_id e" using assms(5) ds by (auto intro: bexI [of _ "last ds'"])
  then have "push_position i (i - mm_id d) (Suc 0) ds' = Some (Suc 0 + length (takeWhile (\<lambda>d. mm_id d < i) ds'))"
    using assms(1,2,4) ds by (intro push_position_after) auto
  then show ?thesis using assms(4) ds by (simp add: Let_def)
qed

lemma insert_at_takeWhile: "insert_at (length (takeWhile P xs)) x xs = takeWhile P xs @ x # dropWhile P xs"
  by (metis insert_at_def takeWhile_eq_take dropWhile_eq_drop)

lemma sorted_le_last:
  "sorted_wrt (<) (map mm_id ds) \<Longrightarrow> d \<in> set ds \<Longrightarrow> mm_id d \<le> mm_id (last ds)"
  by (induction ds) (auto intro: order.strict_implies_order)

lemma takeWhile_all_less:
  assumes "sorted_wrt (<) (map mm_id ds)" "mm_id (last ds) < i"
  shows "takeWhile (\<lambda>d. mm_id d < i) ds = ds" "dropWhile (\<lambda>d. mm_id d < i) ds = []"
  using sorted_le_last [OF assms(1)] assms(2) by (auto intro: le_less_trans)

definition sorted_insert :: "merge_message \<Rightarrow> merge_message list \<Rightarrow> merge_message list" where
  "sorted_insert req ds = takeWhile (\<lambda>d. mm_id d < mm_id req) ds @ req # dropWhile (\<lambda>d. mm_id d < mm_id req) ds"

text \<open>On a sorted list without the identifier, \<open>push\<close> always finds the place.\<close>

lemma wl_push_eq:
  assumes "wl_stored wl" "mm_id req \<notin> set (wl_ids wl)"
  shows "wl_push now req wl = (Ok (),
     wl\<lparr>wl_data := sorted_insert req (wl_data wl), wl_dataSize := wl_dataSize wl + mm_size req,
        wl_idsMap := insert (mm_id req) (wl_idsMap wl),
        wl_firstMessageTs := (if wl_data wl = [] then now else wl_firstMessageTs wl)\<rparr>)"
proof (cases "wl_data wl")
  case Nil
  then show ?thesis by (simp add: wl_push_def sorted_insert_def Let_def)
next
  case (Cons d ds)
  let ?data = "wl_data wl" and ?i = "mm_id req"
  have ne: "?data \<noteq> []" and srt: "sorted_wrt (<) (map mm_id ?data)"
    using Cons assms(1) by (auto simp: wl_stored_def)
  have notin: "?i \<notin> mm_id ` set ?data" using assms(2) by simp
  consider "mm_id (last ?data) < ?i" | "\<not> mm_id (last ?data) < ?i" "?i < mm_id (hd ?data)"
    | "\<not> mm_id (last ?data) < ?i" "\<not> ?i < mm_id (hd ?data)" by blast
  then show ?thesis
  proof cases
    case 1
    note all = takeWhile_all_less [OF srt 1]
    with 1 ne show ?thesis by (simp only: wl_push_def sorted_insert_def Let_def all) simp
  next
    case 2
    then show ?thesis using Cons by (auto simp: wl_push_def sorted_insert_def Let_def insert_at_def)
  next
    case 3
    have "mm_id (hd ?data) < ?i" "?i < mm_id (last ?data)"
      using 3 notin ne by (metis hd_in_set last_in_set image_eqI linorder_neqE)+
    then have "push_position ?i MaxUint32 0 ?data = Some (length (takeWhile (\<lambda>d. mm_id d < ?i) ?data))"
      using srt notin ne by (intro push_position_found)
    with 3 ne show ?thesis
      by (simp add: wl_push_def sorted_insert_def Let_def insert_at_takeWhile)
  qed
qed

lemma mset_sorted_insert [simp]: "mset (sorted_insert req ds) = add_mset req (mset ds)"
proof -
  have "mset (takeWhile P ds) + mset (dropWhile P ds) = mset ds" for P
    by (metis mset_append takeWhile_dropWhile_id)
  then show ?thesis by (simp add: sorted_insert_def)
qed

lemma set_sorted_insert [simp]: "set (sorted_insert req ds) = insert req (set ds)"
  by (metis mset_sorted_insert set_mset_add_mset_insert set_mset_mset)

lemma sorted_insert_nonempty [simp]: "sorted_insert req ds \<noteq> []"
  by (simp add: sorted_insert_def)

lemma hd_sorted_insert:
  "hd (sorted_insert req ds) = (if ds \<noteq> [] \<and> mm_id (hd ds) < mm_id req then hd ds else req)"
  by (cases ds) (auto simp: sorted_insert_def)

lemma sorted_sorted_insert:
  assumes "sorted_wrt (<) (map mm_id ds)" "mm_id req \<notin> mm_id ` set ds"
  shows "sorted_wrt (<) (map mm_id (sorted_insert req ds))"
  using assms
proof (induction ds)
  case (Cons d ds)
  show ?case
  proof (cases "mm_id d < mm_id req")
    case True
    then have "sorted_insert req (d # ds) = d # sorted_insert req ds"
      by (simp add: sorted_insert_def)
    with True Cons show ?thesis by simp
  next
    case False
    with Cons.prems(2) have "mm_id req < mm_id d" by auto
    with Cons.prems(1) False show ?thesis
      by (auto simp: sorted_insert_def intro: less_trans)
  qed
qed (simp add: sorted_insert_def)

section \<open>Popping\<close>

lemma delivery_ordered_snoc:
  "delivery_ordered (xs @ ys) \<longleftrightarrow> delivery_ordered xs \<and> delivery_ordered ys
     \<and> (xs = [] \<or> ys = [] \<or> last xs < hd ys \<or> last xs = MaxUint32)"
  by (auto simp: delivery_ordered_def successively_append_iff)

lemma delivery_ordered_simps [simp]: "delivery_ordered []" "delivery_ordered [x]"
  by (simp_all add: delivery_ordered_def)

lemma sorted_delivery_ordered: "sorted_wrt (<) xs \<Longrightarrow> delivery_ordered xs"
  unfolding delivery_ordered_def by (rule successively_if_sorted_wrt) (auto elim: sorted_wrt_mono_rel [rotated])

text \<open>What the loop of \<open>pop\<close> does: it sends a prefix, and leaves the rest at a gap.\<close>

definition popped :: "merge_message list \<Rightarrow> waiting_list \<Rightarrow> waiting_list" where
  "popped pre wl = wl\<lparr>wl_sent := wl_sent wl @ pre,
     wl_lastID := (if pre = [] then wl_lastID wl else mm_id (last pre)),
     wl_firstSent := wl_firstSent wl \<or> pre \<noteq> [],
     wl_idsMap := wl_idsMap wl - mm_id ` set pre,
     wl_dataSize := wl_dataSize wl - (\<Sum>d\<leftarrow>pre. mm_size d)\<rparr>"

lemma popped_simps [simp]:
  "wl_sent (popped pre wl) = wl_sent wl @ pre"
  "wl_lastID (popped pre wl) = (if pre = [] then wl_lastID wl else mm_id (last pre))"
  "wl_firstSent (popped pre wl) \<longleftrightarrow> wl_firstSent wl \<or> pre \<noteq> []"
  "wl_idsMap (popped pre wl) = wl_idsMap wl - mm_id ` set pre"
  "wl_dataSize (popped pre wl) = wl_dataSize wl - (\<Sum>d\<leftarrow>pre. mm_size d)"
  "wl_data (popped pre wl) = wl_data wl"
  "wl_firstMessageTs (popped pre wl) = wl_firstMessageTs wl"
  by (simp_all add: popped_def)

lemma popped_Cons:
  "popped pre (wl_send d wl\<lparr>wl_idsMap := wl_idsMap (wl_send d wl) - {mm_id d},
      wl_dataSize := wl_dataSize (wl_send d wl) - mm_size d\<rparr>) = popped (d # pre) wl"
  by (rule waiting_list.equality) (auto simp: popped_def wl_send_def)

lemma pop_loop_spec:
  "pop_loop ds wl = (rest, wl') \<Longrightarrow>
     \<exists>pre. ds = pre @ rest \<and> wl' = popped pre wl \<and> (ds \<noteq> [] \<longrightarrow> pre \<noteq> [])
       \<and> (rest \<noteq> [] \<longrightarrow> mm_id (hd rest) \<noteq> mm_id (last pre) + 1)
       \<and> successively (\<lambda>a b. mm_id b = mm_id a + 1) pre"
proof (induction ds arbitrary: wl)
  case Nil
  then show ?case by (auto intro!: exI [of _ "[]"] simp: popped_def)
next
  case (Cons d ds)
  let ?w = "wl_send d wl\<lparr>wl_idsMap := wl_idsMap (wl_send d wl) - {mm_id d},
      wl_dataSize := wl_dataSize (wl_send d wl) - mm_size d\<rparr>"
  have last: "wl_lastID ?w = mm_id d" by (simp add: wl_send_def)
  show ?case
  proof (cases "ds \<noteq> [] \<and> mm_id (hd ds) \<noteq> mm_id d + 1")
    case True
    with Cons.prems last have "rest = ds" "wl' = ?w" by (auto simp: Let_def)
    moreover have "?w = popped [d] wl" using popped_Cons [of "[]" d wl] by (simp add: popped_def)
    ultimately show ?thesis using True by (intro exI [of _ "[d]"]) auto
  next
    case False
    with Cons.prems last have "pop_loop ds ?w = (rest, wl')" by (auto simp: Let_def)
    from Cons.IH [OF this] obtain pre where pre: "ds = pre @ rest" "wl' = popped pre ?w"
      "ds \<noteq> [] \<longrightarrow> pre \<noteq> []" "rest \<noteq> [] \<longrightarrow> mm_id (hd rest) \<noteq> mm_id (last pre) + 1"
      "successively (\<lambda>a b. mm_id b = mm_id a + 1) pre" by blast
    show ?thesis
    proof (intro exI [of _ "d # pre"] conjI impI)
      show "wl' = popped (d # pre) wl" using pre(2) by (simp only: popped_Cons)
      show "successively (\<lambda>a b. mm_id b = mm_id a + 1) (d # pre)"
        using pre(1,3,5) False by (auto simp: successively_Cons)
    next
      assume "rest \<noteq> []"
      then show "mm_id (hd rest) \<noteq> mm_id (last (d # pre)) + 1" using pre(1,3,4) by auto
    qed (use pre(1) in auto)
  qed
qed

definition pop_result :: "merge_message list \<Rightarrow> waiting_list \<Rightarrow> waiting_list \<Rightarrow> bool" where
  "pop_result pre wl wl' \<longleftrightarrow> wl_data wl = pre @ wl_data wl' \<and> wl_sent wl' = wl_sent wl @ pre
     \<and> (wl_data wl' \<noteq> [] \<longrightarrow> wl_firstMessageTs wl' = wl_firstMessageTs wl)
     \<and> (pre \<noteq> [] \<longrightarrow> mm_id (hd pre) = wl_lastID wl + 1)
     \<and> successively (\<lambda>a b. mm_id b = mm_id a + 1) pre"

text \<open>
  After a message has been sent, \<open>pop(nil)\<close> sends every stored message that now follows
  without a gap, and restores the invariant.
\<close>

lemma wl_pop_None:
  assumes "wl_stored wl" "wl_sent_ok wl" "wl_ahead wl"
  shows "wl_inv (snd (wl_pop None wl))"
    and "\<exists>pre. pop_result pre wl (snd (wl_pop None wl))"
proof -
  have "wl_inv (snd (wl_pop None wl)) \<and> (\<exists>pre. pop_result pre wl (snd (wl_pop None wl)))"
  proof (cases "wl_gap wl")
    case True
    then have "wl_pop None wl = (True, wl)"
      using assms(1) by (cases "wl_data wl") (auto simp: wl_pop_def getHead_def wl_gap_def wl_stored_def)
    moreover have "pop_result [] wl wl" by (simp add: pop_result_def)
    ultimately show ?thesis using True assms by (auto simp: wl_inv_def)
  next
    case False
    then obtain h ds where data: "wl_data wl = h # ds" "mm_id h = wl_lastID wl + 1"
      by (cases "wl_data wl") (auto simp: wl_gap_def)
    obtain rest wl' where loop: "pop_loop (wl_data wl) wl = (rest, wl')" by force
    then obtain pre where pre: "wl_data wl = pre @ rest" "wl' = popped pre wl" "pre \<noteq> []"
      "rest \<noteq> [] \<longrightarrow> mm_id (hd rest) \<noteq> mm_id (last pre) + 1"
      "successively (\<lambda>a b. mm_id b = mm_id a + 1) pre"
      using pop_loop_spec [OF loop] data by auto
    define wf where "wf = snd (wl_pop None wl)"
    have wf: "wl_data wf = rest" "wl_sent wf = wl_sent wl @ pre" "wl_lastID wf = mm_id (last pre)"
      "wl_firstSent wf" "wl_idsMap wf = wl_idsMap wl - mm_id ` set pre"
      "wl_dataSize wf = wl_dataSize wl - (\<Sum>d\<leftarrow>pre. mm_size d)"
      using data loop pre by (auto simp: wf_def wl_pop_def getHead_def)
    have srt: "sorted_wrt (<) (map mm_id pre @ map mm_id rest)"
      using assms(1) pre(1) by (simp add: wl_stored_def)
    then have "sorted_wrt (<) (map mm_id pre)" by (simp add: sorted_wrt_append)
    moreover have disj: "mm_id ` set pre \<inter> mm_id ` set rest = {}"
      using srt by (fastforce simp: sorted_wrt_append)
    moreover have hd: "mm_id (hd pre) = wl_lastID wl + 1" using data pre by (cases pre) auto
    moreover have "wl_lastID wl < mm_id (hd pre) \<or> wl_lastID wl = MaxUint32"
      using assms(3) pre(1,3) by (auto simp: wl_ahead_def)
    ultimately have "wl_sent_ok wf"
      using assms(2) pre(3) sorted_delivery_ordered
      by (auto simp: wl_sent_ok_def wf delivery_ordered_snoc hd_map last_map split: if_splits)
    moreover have "wl_stored wf"
      using assms(1) srt pre(1) disj by (auto simp: wl_stored_def wf sorted_wrt_append)
    moreover have "wl_ahead wf" "wl_gap wf"
      using srt pre(3,4) by (auto simp: wl_ahead_def wl_gap_def wf sorted_wrt_append)
    moreover have "wl_firstMessageTs wf = (if rest = [] then 0 else wl_firstMessageTs wl)"
      using data loop pre by (auto simp: wf_def wl_pop_def getHead_def)
    then have "pop_result pre wl wf"
      using pre hd wf(1,2) by (simp add: pop_result_def split: if_splits)
    ultimately show ?thesis unfolding wl_inv_def wf_def by blast
  qed
  then show "wl_inv (snd (wl_pop None wl))" and "\<exists>pre. pop_result pre wl (snd (wl_pop None wl))"
    by blast+
qed

section \<open>Sending, storing and giving up\<close>

text \<open>A new message: not stored yet, and above what has been sent.\<close>

definition wl_fresh :: "merge_message \<Rightarrow> waiting_list \<Rightarrow> bool" where
  "wl_fresh req wl \<longleftrightarrow> mm_id req \<notin> set (wl_ids wl)
     \<and> (wl_lastID wl < mm_id req \<or> wl_lastID wl = MaxUint32)"

definition wl_holds :: "waiting_list \<Rightarrow> merge_message multiset" where
  "wl_holds wl = mset (wl_sent wl) + mset (wl_data wl)"

lemma MaxUint32_Suc [simp]: "MaxUint32 + 1 = 0"
  by (simp add: MaxUint32_def)

lemma less_Suc_u32: "a < b \<Longrightarrow> a + 1 \<le> b" for a b :: u32
  by (rule inc_le)

lemma wl_send_parts:
  assumes "wl_inv wl" "wl_fresh req wl" "mm_id req = wl_lastID wl + 1 \<or> wl_data wl = []"
  shows "wl_stored (wl_send req wl)" "wl_sent_ok (wl_send req wl)" "wl_ahead (wl_send req wl)"
proof -
  show "wl_stored (wl_send req wl)"
    using assms(1) by (simp add: wl_inv_defs wl_send_def)
  show "wl_sent_ok (wl_send req wl)"
    using assms(1,2)
    by (auto simp: wl_inv_defs wl_send_def wl_fresh_def delivery_ordered_snoc split: if_splits)
  show "wl_ahead (wl_send req wl)"
  proof (cases "wl_data wl = []")
    case False
    with assms(3) have req: "mm_id req = wl_lastID wl + 1" by blast
    have "mm_id req < i" if i: "i \<in> set (wl_ids wl)" for i
    proof -
      have ne: "i \<noteq> mm_id req" using i assms(2) by (metis wl_fresh_def)
      show ?thesis
      proof (cases "wl_lastID wl = MaxUint32")
        case True
        then have "mm_id req = 0" using req by simp
        with ne show ?thesis by (simp add: word_neq_0_conv)
      next
        case False
        then have "wl_lastID wl < i" using assms(1) i by (auto simp: wl_inv_defs)
        then have "mm_id req \<le> i" unfolding req by (rule less_Suc_u32)
        with ne show ?thesis by simp
      qed
    qed
    then show ?thesis by (simp add: wl_ahead_def wl_send_def)
  qed (simp add: wl_ahead_def wl_send_def)
qed

lemma wl_send_pop:
  assumes "wl_inv wl" "wl_fresh req wl" "mm_id req = wl_lastID wl + 1 \<or> wl_data wl = []"
  shows "wl_inv (snd (wl_pop None (wl_send req wl)))"
    and "\<exists>pre. pop_result pre (wl_send req wl) (snd (wl_pop None (wl_send req wl)))"
  using wl_pop_None [OF wl_send_parts [OF assms]] by blast+

definition wl_pushed :: "int \<Rightarrow> merge_message \<Rightarrow> waiting_list \<Rightarrow> waiting_list" where
  "wl_pushed now req wl = snd (wl_push now req wl)"

lemma wl_pushed_simps:
  assumes "wl_inv wl" "wl_fresh req wl"
  shows "wl_push now req wl = (Ok (), wl_pushed now req wl)"
    and "wl_data (wl_pushed now req wl) = sorted_insert req (wl_data wl)"
    and "wl_dataSize (wl_pushed now req wl) = wl_dataSize wl + mm_size req"
    and "wl_idsMap (wl_pushed now req wl) = insert (mm_id req) (wl_idsMap wl)"
    and "wl_firstMessageTs (wl_pushed now req wl) = (if wl_data wl = [] then now else wl_firstMessageTs wl)"
    and "wl_sent (wl_pushed now req wl) = wl_sent wl"
    and "wl_lastID (wl_pushed now req wl) = wl_lastID wl"
    and "wl_firstSent (wl_pushed now req wl) = wl_firstSent wl"
proof -
  have "wl_stored wl" "mm_id req \<notin> set (wl_ids wl)"
    using assms by (auto simp: wl_inv_def wl_fresh_def)
  note eq = wl_push_eq [OF this, of now]
  show "wl_push now req wl = (Ok (), wl_pushed now req wl)"
    and "wl_data (wl_pushed now req wl) = sorted_insert req (wl_data wl)"
    and "wl_dataSize (wl_pushed now req wl) = wl_dataSize wl + mm_size req"
    and "wl_idsMap (wl_pushed now req wl) = insert (mm_id req) (wl_idsMap wl)"
    and "wl_firstMessageTs (wl_pushed now req wl) = (if wl_data wl = [] then now else wl_firstMessageTs wl)"
    and "wl_sent (wl_pushed now req wl) = wl_sent wl"
    and "wl_lastID (wl_pushed now req wl) = wl_lastID wl"
    and "wl_firstSent (wl_pushed now req wl) = wl_firstSent wl"
    by (simp_all add: wl_pushed_def eq)
qed

lemma wl_pushed_inv:
  assumes "wl_inv wl" "wl_fresh req wl" "mm_id req \<noteq> wl_lastID wl + 1"
  shows "wl_inv (wl_pushed now req wl)"
proof -
  note simps = wl_pushed_simps [OF assms(1,2), of now]
  have nz: "mm_id req \<noteq> 0"
    using assms(2,3) by (cases "wl_lastID wl = MaxUint32") (auto simp: wl_fresh_def)
  have "(\<Sum>d\<leftarrow>sorted_insert req (wl_data wl). mm_size d) = (\<Sum>d\<leftarrow>wl_data wl. mm_size d) + mm_size req"
    using sum_list_mset_cong [of "sorted_insert req (wl_data wl)" "req # wl_data wl" mm_size] by simp
  then have "wl_stored (wl_pushed now req wl)"
    using assms(1,2) nz sorted_sorted_insert [of "wl_data wl" req]
    by (auto simp: wl_inv_defs simps wl_fresh_def)
  moreover have "wl_sent_ok (wl_pushed now req wl)" using assms(1) by (simp add: wl_inv_defs simps)
  moreover have "wl_ahead (wl_pushed now req wl)"
    using assms(1,2) by (auto simp: wl_inv_defs simps wl_fresh_def)
  moreover have "wl_gap (wl_pushed now req wl)"
    using assms(1,3) by (auto simp: wl_inv_defs simps hd_sorted_insert)
  ultimately show ?thesis by (simp add: wl_inv_def)
qed

lemma fold_wl_send:
  "fold wl_send ds wl = wl\<lparr>wl_sent := wl_sent wl @ ds,
     wl_lastID := (if ds = [] then wl_lastID wl else mm_id (last ds)),
     wl_firstSent := wl_firstSent wl \<or> ds \<noteq> []\<rparr>"
  by (induction ds arbitrary: wl) (simp_all add: wl_send_def)

lemma wl_reset_simps:
  "wl_sent (wl_reset wl) = wl_sent wl @ wl_data wl" "wl_data (wl_reset wl) = []"
  "wl_idsMap (wl_reset wl) = {}" "wl_dataSize (wl_reset wl) = 0"
  "wl_lastID (wl_reset wl) = (if wl_data wl = [] then wl_lastID wl else mm_id (last (wl_data wl)))"
  "wl_firstSent (wl_reset wl) \<longleftrightarrow> wl_firstSent wl \<or> wl_data wl \<noteq> []"
  by (simp_all add: wl_reset_def fold_wl_send)

text \<open>Giving up a gap: everything stored is sent in order.\<close>

lemma wl_reset_inv:
  assumes "wl_inv wl"
  shows "wl_inv (wl_reset wl)"
proof -
  have "wl_sent wl = [] \<or> wl_data wl = [] \<or> last (sent_ids wl) < hd (wl_ids wl) \<or> last (sent_ids wl) = MaxUint32"
    using assms by (auto simp: wl_inv_defs last_map hd_map split: if_splits)
  then have "delivery_ordered (sent_ids wl @ wl_ids wl)"
    using assms sorted_delivery_ordered by (auto simp: wl_inv_defs delivery_ordered_snoc)
  then have "wl_sent_ok (wl_reset wl)"
    using assms by (auto simp: wl_inv_defs wl_reset_simps last_map)
  then show ?thesis by (simp add: wl_inv_defs wl_reset_simps)
qed

text \<open>
  C11. \<open>push\<close> on a waiting list in a reachable state never reports a wrong order: a message
  that is not stored yet is put at the place its identifier has in the ascending order,
  and the index of identifiers and the byte count follow.
\<close>

theorem wl_push_inserts_in_order:
  assumes "wl_inv wl" "mm_id req \<notin> set (wl_ids wl)" "wl_push now req wl = (r, wl')"
  shows "r = Ok () \<and> sorted_wrt (<) (wl_ids wl') \<and> mset (wl_data wl') = add_mset req (mset (wl_data wl))
     \<and> wl_idsMap wl' = set (wl_ids wl') \<and> wl_dataSize wl' = (\<Sum>d\<leftarrow>wl_data wl'. mm_size d)"
proof -
  have st: "wl_stored wl" using assms(1) by (simp add: wl_inv_def)
  note eq = wl_push_eq [OF st assms(2), of now]
  have "(\<Sum>d\<leftarrow>sorted_insert req (wl_data wl). mm_size d) = mm_size req + (\<Sum>d\<leftarrow>wl_data wl. mm_size d)"
    using sum_list_mset_cong [of "sorted_insert req (wl_data wl)" "req # wl_data wl" mm_size] by simp
  then show ?thesis
    using st assms(2,3) sorted_sorted_insert [of "wl_data wl" req]
    by (auto simp: eq wl_stored_def)
qed

definition sample_mm :: "u32 \<Rightarrow> merge_message" where
  "sample_mm i = \<lparr>mm_msg = new_message\<lparr>m_ID := i, m_SessionID := 1, m_Type := MessageTypeData,
     m_PayloadLength := 10\<rparr>, mm_conn = new_connection\<rparr>"

lemma mm_id_sample [simp]: "mm_id (sample_mm i) = i" "mm_size (sample_mm i) = 10"
  by (simp_all add: sample_mm_def mm_id_def mm_size_def new_message_def)

theorem wl_push_inserts_in_order_witness:
  "sorted_wrt (<) (wl_ids (snd (wl_push 7 (sample_mm 5)
     (snd (wl_push 7 (sample_mm 9) (snd (wl_push 7 (sample_mm 3) newWaitingList)))))))"
proof -
  let ?wl = "snd (wl_push 7 (sample_mm 9) (snd (wl_push 7 (sample_mm 3) newWaitingList)))"
  have inv: "wl_inv ?wl"
    by (auto simp: wl_push_def newWaitingList_def wl_inv_defs)
  have notin: "mm_id (sample_mm 5) \<notin> set (wl_ids ?wl)"
    by (simp add: wl_push_def newWaitingList_def)
  show ?thesis
    using wl_push_inserts_in_order [OF inv notin prod.collapse [symmetric], of 7] by blast
qed

end
