(* ===== verification/MergerStream.thy ===== *)
theory MergerStream
  imports WaitingList
begin

text \<open>
  The two stream loops of the merger. \<open>V1.stream\<close> (\<open>stream.v1.go\<close>) keeps one waiting list
  per endpoint of a session, \<open>V2.stream\<close> (\<open>stream.v2.go\<close>) one loop per endpoint. A clock
  reading is an argument of the step that takes it.
\<close>

section \<open>Model\<close>

record merger_config =
  mc_ThreadingBy :: string
  mc_WaitingListMaxSize :: int
  mc_WaitingListMaxTTL :: int
  mc_StreamCheckInterval :: int
  mc_StreamTTL :: real
  mc_StreamCount :: int

text \<open>
  The part of both loops behind the duplicate check. \<open>log.Fatalf\<close> ends the process and is
  modelled as a panic; \<open>t1\<close> is the time \<open>push\<close> reads, \<open>t2\<close> the time of the TTL check.
\<close>

definition is_dup :: "merge_message \<Rightarrow> waiting_list \<Rightarrow> bool" where
  "is_dup req wl \<longleftrightarrow> wl_lastID wl \<ge> mm_id req \<and> wl_lastID wl < MaxUint32 \<or> wl_exists (mm_id req) wl"

definition push_and_check :: "merger_config \<Rightarrow> int \<Rightarrow> int \<Rightarrow> merge_message \<Rightarrow> waiting_list \<Rightarrow> (gerror, waiting_list) res" where
  "push_and_check cfg t1 t2 req wl =
     (case wl_push t1 req wl of
        (Ok _, wl2) \<Rightarrow>
          (let ts = wl_firstMessageTs wl2
           in if wl_dataSize wl2 > mc_WaitingListMaxSize cfg \<or> (ts \<noteq> 0 \<and> t2 - ts \<ge> mc_WaitingListMaxTTL cfg)
              then Ok (wl_reset wl2) else Ok wl2)
      | _ \<Rightarrow> Panic)"

definition v1_handle :: "merger_config \<Rightarrow> int \<Rightarrow> int \<Rightarrow> merge_message \<Rightarrow> waiting_list \<Rightarrow> (gerror, waiting_list) res" where
  "v1_handle cfg t1 t2 req wl =
     (if is_dup req wl then Ok wl
      else case wl_pop (Some req) wl of
        (False, wl1) \<Rightarrow> Ok wl1
      | (True, wl1) \<Rightarrow>
          if (\<not> isThisFirstMessage wl1 \<and> (wl_lastID wl1 + 1 = mm_id req \<or> mm_id req = 0))
             \<or> (isThisFirstMessage wl1 \<and> mm_id req = 1)
          then Ok (snd (wl_pop None (wl_send req wl1)))
          else push_and_check cfg t1 t2 req wl1)"

definition v2_handle :: "merger_config \<Rightarrow> int \<Rightarrow> int \<Rightarrow> merge_message \<Rightarrow> waiting_list \<Rightarrow> (gerror, waiting_list) res" where
  "v2_handle cfg t1 t2 req wl =
     (if is_dup req wl then Ok wl
      else case wl_pop (Some req) wl of
        (False, wl1) \<Rightarrow> Ok wl1
      | (True, wl1) \<Rightarrow>
          if (\<not> isThisFirstMessage wl1 \<and> (wl_lastID wl1 + 1 = mm_id req \<or> mm_id req = 0))
             \<or> isThisFirstMessage wl1
          then Ok (snd (wl_pop None (wl_send req wl1)))
          else push_and_check cfg t1 t2 req wl1)"

text \<open>
  The session loop of \<open>V1\<close>: \<open>getWaitingList\<close> makes a list on the first message of an
  endpoint. A nil in the channel (or its end) finishes the loop.
\<close>

record v1_session =
  vs_wlMap :: "(u64, waiting_list) gomap"
  vs_finished :: bool

definition v1_session_new :: v1_session where
  "v1_session_new = \<lparr>vs_wlMap = [], vs_finished = False\<rparr>"

definition v1_getWaitingList :: "u64 \<Rightarrow> v1_session \<Rightarrow> waiting_list \<times> v1_session" where
  "v1_getWaitingList endpoint s =
     (case map_of (vs_wlMap s) endpoint of
        Some wl \<Rightarrow> (wl, s)
      | None \<Rightarrow> (newWaitingList, s\<lparr>vs_wlMap := mput endpoint newWaitingList (vs_wlMap s)\<rparr>))"

definition v1_stream_step ::
  "merger_config \<Rightarrow> int \<Rightarrow> int \<Rightarrow> merge_message option \<Rightarrow> v1_session \<Rightarrow> (gerror, v1_session) res" where
  "v1_stream_step cfg t1 t2 req s =
     (if vs_finished s then Ok s
      else case req of
        None \<Rightarrow> Ok (s\<lparr>vs_finished := True\<rparr>)
      | Some r \<Rightarrow>
          (let e = GetEndpoint (mm_msg r); (wl, s1) = v1_getWaitingList e s
           in rbind (v1_handle cfg t1 t2 r wl) (\<lambda>wl'. Ok (s1\<lparr>vs_wlMap := mput e wl' (vs_wlMap s1)\<rparr>))))"

text \<open>
  The loop of one endpoint of \<open>V2\<close>: a nil is the tick of the stream checker, which ends the
  loop when the last message is older than the stream's time to live; cancelling the
  session's context ends it as well. A message of another session or endpoint is dropped.
\<close>

record v2_stream =
  v2_session :: u32
  v2_endpoint :: u64
  v2_wl :: waiting_list
  v2_lastMessageTs :: int
  v2_finished :: bool

datatype v2_event =
    V2Message merge_message int int int \<comment> \<open>the request and three clock readings\<close>
  | V2Tick real \<comment> \<open>\<open>time.Since(lastMessageTs).Seconds()\<close> at the tick\<close>
  | V2Done

definition v2_stream_new :: "u32 \<Rightarrow> u64 \<Rightarrow> v2_stream" where
  "v2_stream_new sid e = \<lparr>v2_session = sid, v2_endpoint = e, v2_wl = newWaitingList,
     v2_lastMessageTs = 0, v2_finished = False\<rparr>"

definition v2_stream_step :: "merger_config \<Rightarrow> v2_event \<Rightarrow> v2_stream \<Rightarrow> (gerror, v2_stream) res" where
  "v2_stream_step cfg ev s =
     (if v2_finished s then Ok s
      else case ev of
        V2Done \<Rightarrow> Ok (s\<lparr>v2_finished := True\<rparr>)
      | V2Tick since \<Rightarrow> Ok (if since \<ge> mc_StreamTTL cfg then s\<lparr>v2_finished := True\<rparr> else s)
      | V2Message req t0 t1 t2 \<Rightarrow>
          if m_SessionID (mm_msg req) \<noteq> v2_session s \<or> GetEndpoint (mm_msg req) \<noteq> v2_endpoint s
          then Ok s
          else rbind (v2_handle cfg t1 t2 req (v2_wl s))
                 (\<lambda>wl'. Ok (s\<lparr>v2_lastMessageTs := t0, v2_wl := wl'\<rparr>)))"

text \<open>A run of one of the two loops over the messages of one endpoint.\<close>

type_synonym arrival = "merge_message \<times> int \<times> int"

fun run_stream ::
  "(int \<Rightarrow> int \<Rightarrow> merge_message \<Rightarrow> waiting_list \<Rightarrow> (gerror, waiting_list) res) \<Rightarrow>
     arrival list \<Rightarrow> waiting_list \<Rightarrow> (gerror, waiting_list) res" where
  "run_stream handle [] wl = Ok wl"
| "run_stream handle ((req, t1, t2) # as) wl = rbind (handle t1 t2 req wl) (run_stream handle as)"

section \<open>One message\<close>

lemma wl_pop_passes:
  assumes "wl_inv wl"
  shows "wl_pop req wl = (True, wl)"
  using assms by (cases "wl_data wl") (auto simp: wl_pop_def getHead_def wl_inv_defs)

lemma le_MaxUint32: "x \<le> MaxUint32"
  by (simp add: not_less [symmetric])

lemma not_dup_fresh: "wl_inv wl \<Longrightarrow> \<not> is_dup req wl \<Longrightarrow> wl_fresh req wl"
  using le_MaxUint32 [of "wl_lastID wl"]
  by (auto simp: is_dup_def wl_exists_def wl_fresh_def wl_inv_defs not_le)

lemma fresh_zero: "wl_fresh req wl \<Longrightarrow> mm_id req = 0 \<Longrightarrow> wl_lastID wl + 1 = 0"
  by (auto simp: wl_fresh_def)

text \<open>
  What one message does to a list in a reachable state: it is dropped as a duplicate, sent
  with everything that follows it, stored, or stored with everything given up and sent.
\<close>

definition stream_outcome :: "bool \<Rightarrow> merger_config \<Rightarrow> int \<Rightarrow> int \<Rightarrow> merge_message \<Rightarrow> waiting_list \<Rightarrow> waiting_list \<Rightarrow> bool" where
  \<comment> \<open>\<open>jump\<close>: the first message may have any identifier, as in \<open>V2\<close>\<close>
  "stream_outcome jump cfg t1 t2 req wl wl' \<longleftrightarrow>
     is_dup req wl \<and> wl' = wl
   \<or> \<not> is_dup req wl \<and> (mm_id req = wl_lastID wl + 1 \<or> jump \<and> \<not> wl_firstSent wl \<and> wl_data wl = [])
       \<and> wl' = snd (wl_pop None (wl_send req wl))
   \<or> \<not> is_dup req wl \<and> mm_id req \<noteq> wl_lastID wl + 1
       \<and> (wl' = wl_pushed t1 req wl
         \<or> wl' = wl_reset (wl_pushed t1 req wl)
           \<and> (wl_dataSize (wl_pushed t1 req wl) > mc_WaitingListMaxSize cfg
              \<or> t2 - wl_firstMessageTs (wl_pushed t1 req wl) \<ge> mc_WaitingListMaxTTL cfg))"

lemma push_and_check_eq:
  assumes "wl_inv wl" "wl_fresh req wl"
  shows "push_and_check cfg t1 t2 req wl =
     Ok (if wl_dataSize (wl_pushed t1 req wl) > mc_WaitingListMaxSize cfg
            \<or> (wl_firstMessageTs (wl_pushed t1 req wl) \<noteq> 0
               \<and> t2 - wl_firstMessageTs (wl_pushed t1 req wl) \<ge> mc_WaitingListMaxTTL cfg)
         then wl_reset (wl_pushed t1 req wl) else wl_pushed t1 req wl)"
  using wl_pushed_simps(1) [OF assms, of t1] by (simp add: push_and_check_def Let_def)

lemma first_lastID: "wl_inv wl \<Longrightarrow> isThisFirstMessage wl \<Longrightarrow> wl_lastID wl = 0"
  by (auto simp: wl_inv_defs isThisFirstMessage_def)

lemma v1_handle_outcome:
  assumes "wl_inv wl"
  shows "\<exists>wl'. v1_handle cfg t1 t2 req wl = Ok wl' \<and> stream_outcome False cfg t1 t2 req wl wl'"
proof (cases "is_dup req wl")
  case False
  then have fresh: "wl_fresh req wl" by (rule not_dup_fresh [OF assms])
  note pass = wl_pop_passes [OF assms, of "Some req"]
  show ?thesis
  proof (cases "mm_id req = wl_lastID wl + 1")
    case True
    then have "v1_handle cfg t1 t2 req wl = Ok (snd (wl_pop None (wl_send req wl)))"
      using False first_lastID [OF assms] by (simp add: v1_handle_def pass)
    then show ?thesis using True False by (auto simp: stream_outcome_def)
  next
    case neq: False
    then have "v1_handle cfg t1 t2 req wl = push_and_check cfg t1 t2 req wl"
      using False first_lastID [OF assms] fresh_zero [OF fresh] by (auto simp: v1_handle_def pass)
    then show ?thesis
      using neq False by (auto simp: push_and_check_eq [OF assms fresh] stream_outcome_def)
  qed
qed (simp add: v1_handle_def stream_outcome_def)

text \<open>Once a message has been sent, the two loops treat every further one alike.\<close>

lemma v2_handle_eq_v1: "wl_inv wl \<Longrightarrow> wl_firstSent wl \<Longrightarrow> v2_handle cfg t1 t2 req wl = v1_handle cfg t1 t2 req wl"
  by (simp add: v1_handle_def v2_handle_def wl_pop_passes isThisFirstMessage_def)

lemma v2_handle_outcome:
  assumes "wl_inv wl" "wl_firstSent wl \<or> wl_data wl = []"
  shows "\<exists>wl'. v2_handle cfg t1 t2 req wl = Ok wl' \<and> stream_outcome True cfg t1 t2 req wl wl'"
proof (cases "wl_firstSent wl")
  case True
  then show ?thesis
    using v1_handle_outcome [OF assms(1), of cfg t1 t2 req]
    by (auto simp: v2_handle_eq_v1 assms(1) stream_outcome_def)
next
  case False
  then show ?thesis
    using assms
    by (cases "is_dup req wl") (auto simp: v2_handle_def wl_pop_passes isThisFirstMessage_def stream_outcome_def)
qed

lemma stream_outcome_inv:
  assumes "wl_inv wl" "stream_outcome jump cfg t1 t2 req wl wl'"
  shows "wl_inv wl'"
proof (cases "is_dup req wl")
  case True
  with assms show ?thesis by (auto simp: stream_outcome_def)
next
  case False
  then have fresh: "wl_fresh req wl" by (rule not_dup_fresh [OF assms(1)])
  from False assms(2) show ?thesis
    using wl_send_pop(1) [OF assms(1) fresh] wl_pushed_inv [OF assms(1) fresh]
      wl_reset_inv [OF wl_pushed_inv [OF assms(1) fresh]]
    by (auto simp: stream_outcome_def)
qed

text \<open>Nothing accepted is lost or sent twice, and what was sent stays sent.\<close>

lemma stream_outcome_holds:
  assumes "wl_inv wl" "stream_outcome jump cfg t1 t2 req wl wl'"
  shows "wl_holds wl' = wl_holds wl + (if is_dup req wl then {#} else {#req#})"
    and "prefix (wl_sent wl) (wl_sent wl')"
proof -
  have "wl_holds wl' = wl_holds wl + (if is_dup req wl then {#} else {#req#}) \<and> prefix (wl_sent wl) (wl_sent wl')"
  proof (cases "is_dup req wl")
    case True
    with assms show ?thesis by (auto simp: stream_outcome_def)
  next
    case False
    then have fresh: "wl_fresh req wl" by (rule not_dup_fresh [OF assms(1)])
    note push = wl_pushed_simps [OF assms(1) fresh, of t1]
    consider "wl' = snd (wl_pop None (wl_send req wl))" "mm_id req = wl_lastID wl + 1 \<or> wl_data wl = []"
      | "wl' = wl_pushed t1 req wl" | "wl' = wl_reset (wl_pushed t1 req wl)"
      using assms(2) False by (auto simp: stream_outcome_def)
    then show ?thesis
    proof cases
      case 1
      then obtain pre where "pop_result pre (wl_send req wl) wl'"
        using wl_send_pop(2) [OF assms(1) fresh] by blast
      then show ?thesis using False by (simp add: pop_result_def wl_holds_def wl_send_def)
    qed (use False in \<open>simp_all add: wl_holds_def wl_reset_simps push\<close>)
  qed
  then show "wl_holds wl' = wl_holds wl + (if is_dup req wl then {#} else {#req#})"
    and "prefix (wl_sent wl) (wl_sent wl')" by blast+
qed

lemma stream_outcome_firstSent:
  assumes "wl_inv wl" "stream_outcome jump cfg t1 t2 req wl wl'" "wl_firstSent wl"
  shows "wl_firstSent wl'"
proof -
  have "wl_sent wl \<noteq> []" using assms(1,3) by (simp add: wl_inv_defs)
  then have "wl_sent wl' \<noteq> []" using stream_outcome_holds(2) [OF assms(1,2)] by auto
  then show ?thesis using stream_outcome_inv [OF assms(1,2)] by (simp add: wl_inv_defs)
qed

section \<open>Runs\<close>

text \<open>
  The contract of a reordering loop: it returns on every message, with one of the outcomes
  above, and stays in the states it can handle. The lemmas about runs need no more.
\<close>

locale reorder_stream =
  fixes handle :: "int \<Rightarrow> int \<Rightarrow> merge_message \<Rightarrow> waiting_list \<Rightarrow> (gerror, waiting_list) res"
    and ready :: "waiting_list \<Rightarrow> bool" and jump :: bool and cfg :: merger_config
  assumes ready_new: "ready newWaitingList"
    and ready_inv: "ready wl \<Longrightarrow> wl_inv wl"
    and handle_step: "ready wl \<Longrightarrow>
      \<exists>wl'. handle t1 t2 req wl = Ok wl' \<and> stream_outcome jump cfg t1 t2 req wl wl' \<and> ready wl'"
begin

lemma run_returns:
  "ready wl \<Longrightarrow> \<exists>wl'. run_stream handle as wl = Ok wl' \<and> ready wl'
     \<and> prefix (wl_sent wl) (wl_sent wl') \<and> wl_holds wl' \<subseteq># wl_holds wl + mset (map fst as)"
proof (induction as arbitrary: wl)
  case (Cons a as)
  obtain req t1 t2 where a: "a = (req, t1, t2)" by (cases a)
  from handle_step [OF Cons.prems, of t1 t2 req] obtain wl1 where
    wl1: "handle t1 t2 req wl = Ok wl1" "stream_outcome jump cfg t1 t2 req wl wl1" "ready wl1" by blast
  note holds = stream_outcome_holds [OF ready_inv [OF Cons.prems] wl1(2)]
  have sub: "wl_holds wl1 \<subseteq># wl_holds wl + {#req#}" using holds(1) by simp
  from Cons.IH [OF wl1(3)] obtain wl' where
    wl': "run_stream handle as wl1 = Ok wl'" "ready wl'" "prefix (wl_sent wl1) (wl_sent wl')"
      "wl_holds wl' \<subseteq># wl_holds wl1 + mset (map fst as)" by blast
  have "wl_holds wl' \<subseteq># (wl_holds wl + {#req#}) + mset (map fst as)"
    using wl'(4) sub by (meson subset_mset.add_right_mono subset_mset.order_trans)
  then show ?case
    using wl1(1) wl' holds(2) by (auto simp: a intro: prefix_order.trans)
qed simp

lemma run_delivers:
  "\<exists>wl. run_stream handle as newWaitingList = Ok wl \<and> wl_inv wl
     \<and> delivery_ordered (sent_ids wl) \<and> wl_holds wl \<subseteq># mset (map fst as)"
proof -
  from run_returns [OF ready_new, of as] obtain wl where
    wl: "run_stream handle as newWaitingList = Ok wl" "ready wl"
      "wl_holds wl \<subseteq># wl_holds newWaitingList + mset (map fst as)" by blast
  moreover have "wl_holds newWaitingList = {#}" by (simp add: wl_holds_def newWaitingList_def)
  moreover from ready_inv [OF wl(2)] have "delivery_ordered (sent_ids wl)"
    by (simp add: wl_inv_def wl_sent_ok_def)
  ultimately show ?thesis using ready_inv [OF wl(2)] by auto
qed

end

interpretation v1_loop: reorder_stream "v1_handle cfg" wl_inv False cfg for cfg
proof unfold_locales
  fix wl t1 t2 req
  assume "wl_inv wl"
  then show "\<exists>wl'. v1_handle cfg t1 t2 req wl = Ok wl' \<and> stream_outcome False cfg t1 t2 req wl wl' \<and> wl_inv wl'"
    using v1_handle_outcome stream_outcome_inv by blast
qed (rule wl_inv_new)

definition v2_ready :: "waiting_list \<Rightarrow> bool" where
  "v2_ready wl \<longleftrightarrow> wl_inv wl \<and> (wl_firstSent wl \<or> wl_data wl = [])"

lemma v2_ready_step:
  assumes "v2_ready wl" "stream_outcome True cfg t1 t2 req wl wl'" "v2_handle cfg t1 t2 req wl = Ok wl'"
  shows "v2_ready wl'"
proof -
  have inv: "wl_inv wl" "wl_inv wl'"
    using assms(1,2) stream_outcome_inv by (auto simp: v2_ready_def)
  consider "wl_firstSent wl" | "\<not> wl_firstSent wl" "is_dup req wl"
    | "\<not> wl_firstSent wl" "\<not> is_dup req wl" by blast
  then show ?thesis
  proof cases
    case 1
    with stream_outcome_firstSent [OF inv(1) assms(2)] inv(2) show ?thesis by (simp add: v2_ready_def)
  next
    case 2
    with assms show ?thesis by (simp add: v2_handle_def)
  next
    case 3
    then have "wl' = snd (wl_pop None (wl_send req wl))" and "wl_data wl = []"
      using assms(1,3) inv(1) by (auto simp: v2_handle_def wl_pop_passes isThisFirstMessage_def v2_ready_def)
    then show ?thesis using inv(2) by (simp add: v2_ready_def wl_pop_def getHead_def wl_send_def)
  qed
qed

interpretation v2_loop: reorder_stream "v2_handle cfg" v2_ready True cfg for cfg
proof unfold_locales
  show "v2_ready newWaitingList" by (simp add: v2_ready_def wl_inv_new) (simp add: newWaitingList_def)
  show "wl_inv wl" if "v2_ready wl" for wl using that by (simp add: v2_ready_def)
  fix wl t1 t2 req
  assume "v2_ready wl"
  then obtain wl' where "v2_handle cfg t1 t2 req wl = Ok wl'" "stream_outcome True cfg t1 t2 req wl wl'"
    using v2_handle_outcome [of wl cfg t1 t2 req] by (auto simp: v2_ready_def)
  with v2_ready_step [OF \<open>v2_ready wl\<close>]
  show "\<exists>wl'. v2_handle cfg t1 t2 req wl = Ok wl' \<and> stream_outcome True cfg t1 t2 req wl wl' \<and> v2_ready wl'"
    by blast
qed

text \<open>
  The loop of \<open>V1\<close>, fed any messages at any times, never ends the process, delivers in
  ascending order of the identifiers (starting again only after the last 32-bit one), and
  delivers or keeps no message that was not received, nor one message more often than it
  was received.
\<close>

theorem v1_stream_delivers_in_order:
  "\<exists>wl. run_stream (v1_handle cfg) as newWaitingList = Ok wl
     \<and> delivery_ordered (sent_ids wl) \<and> wl_holds wl \<subseteq># mset (map fst as)"
  using v1_loop.run_delivers by blast

text \<open>The same for the loop of \<open>V2\<close>.\<close>

theorem v2_stream_delivers_in_order:
  "\<exists>wl. run_stream (v2_handle cfg) as newWaitingList = Ok wl
     \<and> delivery_ordered (sent_ids wl) \<and> wl_holds wl \<subseteq># mset (map fst as)"
  using v2_loop.run_delivers by blast

section \<open>Reassembly\<close>

text \<open>
  No gap is given up during a run: all messages together fit the waiting list, and every
  TTL check comes within the TTL of every insertion.
\<close>

definition no_giveup :: "merger_config \<Rightarrow> arrival list \<Rightarrow> bool" where
  "no_giveup cfg as \<longleftrightarrow> (\<Sum>(req, _, _)\<leftarrow>as. mm_size req) \<le> mc_WaitingListMaxSize cfg
     \<and> (\<forall>a\<in>set as. \<forall>b\<in>set as. snd (snd b) - fst (snd a) < mc_WaitingListMaxTTL cfg)"

text \<open>
  The state after the arrivals \<open>done\<close>: identifiers from \<open>f\<close> on have been sent without a gap,
  and every arrival is sent, stored, or older than \<open>f\<close>.
\<close>

definition known :: "nat \<Rightarrow> waiting_list \<Rightarrow> merge_message \<Rightarrow> bool" where
  "known f wl r \<longleftrightarrow> mm_id r \<in> set (sent_ids wl) \<or> mm_id r \<in> set (wl_ids wl) \<or> unat (mm_id r) < f"

definition reassembling :: "nat \<Rightarrow> arrival list \<Rightarrow> waiting_list \<Rightarrow> bool" where
  "reassembling f past wl \<longleftrightarrow> wl_inv wl
     \<and> sent_ids wl = map of_nat [f..<f + length (wl_sent wl)]
     \<and> wl_lastID wl = of_nat (f + length (wl_sent wl) - 1)
     \<and> wl_holds wl \<subseteq># mset (map fst past)
     \<and> (wl_data wl \<noteq> [] \<longrightarrow> wl_firstMessageTs wl \<in> (\<lambda>a. fst (snd a)) ` set past)
     \<and> (\<forall>a\<in>set past. known f wl (fst a))"

lemma consecutive_ids:
  "successively (\<lambda>a b. mm_id b = mm_id a + 1) ms \<Longrightarrow> ms = [] \<or> mm_id (hd ms) = of_nat k \<Longrightarrow>
     map mm_id ms = map of_nat [k..<k + length ms]"
proof (induction ms arbitrary: k)
  case (Cons m ms)
  then have "map mm_id ms = map of_nat [Suc k..<Suc k + length ms]"
    by (intro Cons.IH) (auto simp: successively_Cons)
  with Cons.prems(2) show ?case by (simp add: upt_conv_Cons del: upt_Suc)
qed simp

lemma sum_sizes_nonneg: "0 \<le> (\<Sum>m\<in>#N. mm_size m)"
  by (induction N) (auto simp: mm_size_def)

lemma size_bound:
  assumes "M \<subseteq># mset (map fst as)"
  shows "(\<Sum>m\<in>#M. mm_size m) \<le> (\<Sum>(req, _, _)\<leftarrow>as. mm_size req)"
proof -
  obtain N where N: "mset (map fst as) = M + N" using assms by (auto simp: mset_subset_eq_exists_conv)
  have "(\<Sum>(req, _, _)\<leftarrow>as. mm_size req) = (\<Sum>m\<in>#mset (map fst as). mm_size m)"
    by (induction as) auto
  also have "\<dots> = (\<Sum>m\<in>#M. mm_size m) + (\<Sum>m\<in>#N. mm_size m)"
    by (simp only: N image_mset_union sum_mset.union)
  finally show ?thesis using sum_sizes_nonneg [of N] by linarith
qed

text \<open>Below the last 32-bit identifier, the number of messages sent is bounded by the largest one.\<close>

lemma sent_below:
  assumes "set (map of_nat [f..<f + k] :: u32 list) \<subseteq> {i. unat i \<le> n}" "f \<le> n + 1" "n + 1 < 2 ^ 32"
  shows "f + k \<le> n + 1"
proof (rule ccontr)
  assume "\<not> f + k \<le> n + 1"
  then have "n + 1 \<in> set [f..<f + k]" using assms(2) by simp
  then have "unat (of_nat (n + 1) :: u32) \<le> n" using assms(1) by (auto simp del: set_upt)
  moreover have "unat (of_nat (n + 1) :: u32) = n + 1"
    by (subst unat_of_nat) (use assms(3) in simp)
  ultimately show False by simp
qed

lemma no_giveup_prefix: "no_giveup cfg (xs @ ys) \<Longrightarrow> no_giveup cfg xs"
proof -
  have "0 \<le> (\<Sum>(req, _, _)\<leftarrow>ys. mm_size req)"
    using size_bound [of "{#}" ys] by simp
  moreover assume "no_giveup cfg (xs @ ys)"
  ultimately show "no_giveup cfg xs"
    unfolding no_giveup_def by simp
qed

lemma pushed_within_limits:
  assumes "reassembling f past wl" "wl_fresh req wl" "no_giveup cfg (past @ [(req, t1, t2)])"
  shows "\<not> wl_dataSize (wl_pushed t1 req wl) > mc_WaitingListMaxSize cfg"
    and "\<not> t2 - wl_firstMessageTs (wl_pushed t1 req wl) \<ge> mc_WaitingListMaxTTL cfg"
proof -
  have inv: "wl_inv wl" using assms(1) by (simp add: reassembling_def)
  note push = wl_pushed_simps [OF inv assms(2), of t1]
  have "mset (wl_data wl) \<subseteq># mset (map fst past)"
    using assms(1) by (auto simp: reassembling_def wl_holds_def intro: subset_mset.order_trans mset_subset_eq_add_right)
  then have "add_mset req (mset (wl_data wl)) \<subseteq># mset (map fst (past @ [(req, t1, t2)]))" by simp
  from size_bound [OF this]
  have "wl_dataSize wl + mm_size req \<le> (\<Sum>(req, _, _)\<leftarrow>past @ [(req, t1, t2)]. mm_size req)"
    using inv by (simp add: wl_inv_defs sum_mset_sum_list flip: mset_map)
  then show "\<not> wl_dataSize (wl_pushed t1 req wl) > mc_WaitingListMaxSize cfg"
    using assms(3) by (simp add: no_giveup_def push)
  have "wl_firstMessageTs (wl_pushed t1 req wl) \<in> (\<lambda>a. fst (snd a)) ` set (past @ [(req, t1, t2)])"
    using assms(1) by (simp add: reassembling_def push)
  then show "\<not> t2 - wl_firstMessageTs (wl_pushed t1 req wl) \<ge> mc_WaitingListMaxTTL cfg"
    using assms(3) by (fastforce simp: no_giveup_def)
qed

lemma reassembling_count:
  assumes "reassembling f past wl" "\<forall>a\<in>set past. unat (mm_id (fst a)) \<le> n" "f \<le> n + 1" "n + 1 < 2 ^ 32"
  shows "f + length (wl_sent wl) \<le> n + 1"
proof (rule sent_below)
  have "set_mset (wl_holds wl) \<subseteq> set_mset (mset (map fst past))"
    using assms(1) by (intro set_mset_mono) (simp add: reassembling_def)
  then have sub: "set (wl_sent wl) \<subseteq> fst ` set past" by (simp add: wl_holds_def)
  have small: "\<forall>r\<in>fst ` set past. unat (mm_id r) \<le> n" using assms(2) by simp
  have "set (sent_ids wl) \<subseteq> {i. unat i \<le> n}" using sub small by auto
  then show "set (map of_nat [f..<f + length (wl_sent wl)] :: u32 list) \<subseteq> {i. unat i \<le> n}"
    using assms(1) by (simp only: reassembling_def)
qed (use assms in auto)

lemma dup_known:
  assumes "reassembling f past wl" "is_dup req wl" "1 \<le> f" "f + length (wl_sent wl) \<le> n + 1" "n + 1 < 2 ^ 32"
  shows "known f wl req"
proof (cases "wl_exists (mm_id req) wl")
  case True
  then show ?thesis using assms(1) by (auto simp: known_def reassembling_def wl_exists_def wl_inv_defs)
next
  case False
  let ?k = "length (wl_sent wl)"
  from False assms(2) have "mm_id req \<le> of_nat (f + ?k - 1)"
    using assms(1) by (auto simp: is_dup_def reassembling_def)
  then have "unat (mm_id req) \<le> f + ?k - 1"
    using assms(4,5) by (simp add: word_le_nat_alt unat_of_nat del: of_nat_diff)
  then have "unat (mm_id req) < f \<or> unat (mm_id req) \<in> set [f..<f + ?k]"
    using assms(3) by auto
  then have "unat (mm_id req) < f \<or> of_nat (unat (mm_id req)) \<in> set (map of_nat [f..<f + ?k] :: u32 list)"
    by (metis image_eqI list.set_map)
  then have "unat (mm_id req) < f \<or> mm_id req \<in> set (map of_nat [f..<f + ?k] :: u32 list)"
    by (simp only: of_nat_unat ucast_id)
  then show ?thesis using assms(1) by (simp only: reassembling_def known_def) blast
qed

lemma subset_add_mset_intro: "A \<subseteq># B \<Longrightarrow> A \<subseteq># add_mset x B"
  by (rule subset_mset.order_trans) auto

lemma reassembling_send:
  assumes re: "reassembling f past wl" and f: "1 \<le> f" and nd: "\<not> is_dup req wl"
    and req: "mm_id req = wl_lastID wl + 1"
  defines "wl' \<equiv> snd (wl_pop None (wl_send req wl))"
  assumes inv': "wl_inv wl'" and holds: "wl_holds wl' \<subseteq># mset (map fst (past @ [(req, t1, t2)]))"
  shows "reassembling f (past @ [(req, t1, t2)]) wl'"
proof -
  let ?k = "length (wl_sent wl)"
  have inv: "wl_inv wl" using re by (simp add: reassembling_def)
  obtain pre where "pop_result pre (wl_send req wl) wl'"
    using wl_send_pop(2) [OF inv not_dup_fresh [OF inv nd]] req unfolding wl'_def by blast
  then have pre: "wl_data wl = pre @ wl_data wl'" "wl_sent wl' = wl_sent wl @ req # pre"
    "wl_data wl' \<noteq> [] \<longrightarrow> wl_firstMessageTs wl' = wl_firstMessageTs wl"
    "successively (\<lambda>a b. mm_id b = mm_id a + 1) (req # pre)"
    by (auto simp: pop_result_def wl_send_def successively_Cons)
  have "mm_id req = of_nat (f + ?k)"
    using re f req by (simp add: reassembling_def)
  then have "map mm_id (req # pre) = map of_nat [f + ?k..<f + ?k + length (req # pre)]"
    by (intro consecutive_ids [OF pre(4)]) simp
  moreover have "sent_ids wl = map of_nat [f..<f + ?k]" using re by (simp add: reassembling_def)
  ultimately have sent: "sent_ids wl' = map of_nat [f..<f + length (wl_sent wl')]"
    unfolding pre(2) using upt_add_eq_append [of f "f + ?k" "length (req # pre)"]
    by (simp add: add.assoc del: upt_Suc)
  have "wl_lastID wl' = last (sent_ids wl')" using inv' pre(2) by (simp add: wl_inv_defs)
  then have last: "wl_lastID wl' = of_nat (f + length (wl_sent wl') - 1)"
    unfolding sent using pre(2) by (simp add: last_map del: upt_Suc)
  show ?thesis
    unfolding reassembling_def
  proof (intro conjI inv' sent last holds)
    show "wl_data wl' \<noteq> [] \<longrightarrow> wl_firstMessageTs wl' \<in> (\<lambda>a. fst (snd a)) ` set (past @ [(req, t1, t2)])"
      using re pre(1,3) by (auto simp: reassembling_def)
    have "known f wl r \<Longrightarrow> known f wl' r" for r
      using pre(1,2) by (auto simp: known_def)
    moreover have "known f wl' req" using pre(2) by (simp add: known_def)
    ultimately show "\<forall>a\<in>set (past @ [(req, t1, t2)]). known f wl' (fst a)"
      using re by (simp add: reassembling_def)
  qed
qed

lemma reassembling_push:
  assumes re: "reassembling f past wl" and nd: "\<not> is_dup req wl" and req: "mm_id req \<noteq> wl_lastID wl + 1"
    and holds: "wl_holds (wl_pushed t1 req wl) \<subseteq># mset (map fst (past @ [(req, t1, t2)]))"
  shows "reassembling f (past @ [(req, t1, t2)]) (wl_pushed t1 req wl)"
proof -
  have inv: "wl_inv wl" using re by (simp add: reassembling_def)
  note fresh = not_dup_fresh [OF inv nd]
  note push = wl_pushed_simps [OF inv fresh, of t1]
  show ?thesis
    unfolding reassembling_def
  proof (intro conjI wl_pushed_inv [OF inv fresh req] holds)
    show "wl_data (wl_pushed t1 req wl) \<noteq> [] \<longrightarrow>
        wl_firstMessageTs (wl_pushed t1 req wl) \<in> (\<lambda>a. fst (snd a)) ` set (past @ [(req, t1, t2)])"
      using re by (simp add: reassembling_def push)
    have "known f wl r \<Longrightarrow> known f (wl_pushed t1 req wl) r" for r
      by (auto simp: known_def push)
    moreover have "known f (wl_pushed t1 req wl) req" by (simp add: known_def push)
    ultimately show "\<forall>a\<in>set (past @ [(req, t1, t2)]). known f (wl_pushed t1 req wl) (fst a)"
      using re by (simp add: reassembling_def)
  qed (use re in \<open>simp_all add: reassembling_def push\<close>)
qed

text \<open>While no gap is given up, every message moves the reassembly on.\<close>

lemma reassembling_step:
  assumes re: "reassembling f past wl" and f: "1 \<le> f" "f \<le> n + 1" "n + 1 < 2 ^ 32"
    and ids: "\<forall>a\<in>set past. unat (mm_id (fst a)) \<le> n"
    and ng: "no_giveup cfg (past @ [(req, t1, t2)])"
  shows "\<exists>wl'. v1_handle cfg t1 t2 req wl = Ok wl' \<and> reassembling f (past @ [(req, t1, t2)]) wl'"
proof -
  have inv: "wl_inv wl" using re by (simp add: reassembling_def)
  obtain wl' where wl': "v1_handle cfg t1 t2 req wl = Ok wl'" "stream_outcome False cfg t1 t2 req wl wl'"
    using v1_handle_outcome [OF inv] by blast
  have inv': "wl_inv wl'" by (rule stream_outcome_inv [OF inv wl'(2)])
  have "wl_holds wl \<subseteq># mset (map fst past)" using re by (simp add: reassembling_def)
  then have holds: "wl_holds wl' \<subseteq># mset (map fst (past @ [(req, t1, t2)]))"
    using stream_outcome_holds(1) [OF inv wl'(2)] by (cases "is_dup req wl") (simp_all add: subset_mset.add_increasing2 subset_add_mset_intro)
  show ?thesis
  proof (cases "is_dup req wl")
    case True
    then have [simp]: "wl' = wl" using wl'(2) by (simp add: stream_outcome_def)
    have "known f wl req"
      by (rule dup_known [OF re True f(1) reassembling_count [OF re ids f(2,3)] f(3)])
    with re holds have "reassembling f (past @ [(req, t1, t2)]) wl"
      by (simp add: reassembling_def)
    with wl'(1) show ?thesis by auto
  next
    case False
    note limits = pushed_within_limits [OF re not_dup_fresh [OF inv False] ng]
    show ?thesis
    proof (cases "mm_id req = wl_lastID wl + 1")
      case True
      then have "wl' = snd (wl_pop None (wl_send req wl))"
        using wl'(2) False by (simp add: stream_outcome_def)
      with reassembling_send [OF re f(1) False True] inv' holds wl'(1) show ?thesis by auto
    next
      case neq: False
      then have "wl' = wl_pushed t1 req wl"
        using wl'(2) False limits by (auto simp: stream_outcome_def)
      with reassembling_push [OF re False neq] holds wl'(1) show ?thesis by auto
    qed
  qed
qed

lemma reassembling_run:
  "reassembling f past wl \<Longrightarrow> 1 \<le> f \<Longrightarrow> f \<le> n + 1 \<Longrightarrow> n + 1 < 2 ^ 32 \<Longrightarrow>
   \<forall>a\<in>set (past @ as). unat (mm_id (fst a)) \<le> n \<Longrightarrow> no_giveup cfg (past @ as) \<Longrightarrow>
   \<exists>wl'. run_stream (v1_handle cfg) as wl = Ok wl' \<and> reassembling f (past @ as) wl'"
proof (induction as arbitrary: past wl)
  case (Cons a as)
  obtain req t1 t2 where a: "a = (req, t1, t2)" by (cases a)
  have "no_giveup cfg (past @ [(req, t1, t2)])"
    using Cons.prems(6) no_giveup_prefix [of cfg "past @ [a]" as] by (simp add: a)
  then obtain wl1 where wl1: "v1_handle cfg t1 t2 req wl = Ok wl1" "reassembling f (past @ [a]) wl1"
    using reassembling_step [OF Cons.prems(1-4)] Cons.prems(5) by (force simp: a)
  with Cons.IH [OF wl1(2) Cons.prems(2-4)] Cons.prems(5,6) show ?case by (simp add: a)
qed simp

text \<open>When every identifier from \<open>f\<close> to \<open>n\<close> has arrived, all of them have been sent.\<close>

lemma unat_of_nat_u32: "k < 2 ^ 32 \<Longrightarrow> unat (of_nat k :: u32) = k"
  by (simp add: unat_of_nat)

lemma sorted_hd_le: "sorted_wrt (<) xs \<Longrightarrow> x \<in> set xs \<Longrightarrow> hd xs \<le> x" for x :: u32
  by (cases xs) (auto intro: order.strict_implies_order)

lemma reassembling_done:
  assumes re: "reassembling f past wl" and f: "1 \<le> f" "f \<le> n + 1" "n + 1 < 2 ^ 32"
    and ids: "\<forall>a\<in>set past. unat (mm_id (fst a)) \<le> n"
    and all: "of_nat ` {f..n} \<subseteq> (\<lambda>a. mm_id (fst a)) ` set past"
  shows "f + length (wl_sent wl) = n + 1" and "wl_data wl = []"
proof -
  let ?k = "length (wl_sent wl)"
  have inv: "wl_inv wl" and sent: "sent_ids wl = map of_nat [f..<f + ?k]"
    and last: "wl_lastID wl = of_nat (f + ?k - 1)" using re by (simp_all add: reassembling_def)
  have le: "f + ?k \<le> n + 1" by (rule reassembling_count [OF re ids f(2,3)])
  have lastn: "unat (wl_lastID wl) = f + ?k - 1"
    unfolding last using le f by (intro unat_of_nat_u32) linarith
  then have notmax: "wl_lastID wl \<noteq> MaxUint32" using le f(1,3) by (auto simp: MaxUint32_def)
  then have above: "wl_lastID wl < i" if "i \<in> set (wl_ids wl)" for i
    using inv that by (auto simp: wl_inv_defs)
  show total: "f + ?k = n + 1"
  proof (rule ccontr)
    assume "f + ?k \<noteq> n + 1"
    with le have k: "f + ?k \<le> n" by simp
    let ?i = "of_nat (f + ?k) :: u32"
    have i: "unat ?i = f + ?k" using k f(3) by (intro unat_of_nat_u32) linarith
    have "?i \<in> (\<lambda>a. mm_id (fst a)) ` set past" by (rule subsetD [OF all imageI]) (use k in simp)
    then obtain a where "a \<in> set past" "?i = mm_id (fst a)" by blast
    then have "?i \<in> set (sent_ids wl) \<or> ?i \<in> set (wl_ids wl) \<or> unat ?i < f"
      using re unfolding reassembling_def known_def by metis
    moreover have "?i \<notin> set (sent_ids wl)"
    proof
      assume "?i \<in> set (sent_ids wl)"
      then obtain j where j: "j < f + ?k" "?i = of_nat j" unfolding sent by auto
      then have "unat ?i = j" using k f(3) by (simp only:) (intro unat_of_nat_u32, linarith)
      with i j(1) show False by simp
    qed
    ultimately have stored: "?i \<in> set (wl_ids wl)" using i by auto
    then have ne: "wl_data wl \<noteq> []" by auto
    have "hd (wl_ids wl) \<le> ?i"
      using inv stored by (intro sorted_hd_le) (simp_all add: wl_inv_defs)
    moreover have "wl_lastID wl < hd (wl_ids wl)" using ne by (intro above) (simp add: hd_map)
    ultimately have "unat (hd (wl_ids wl)) = f + ?k"
      using i lastn by (simp add: word_le_nat_alt word_less_nat_alt)
    then have "hd (wl_ids wl) = ?i" by (metis of_nat_unat ucast_id)
    also have "?i = wl_lastID wl + 1" unfolding last using f(1) by (simp add: of_nat_diff)
    finally show False using inv ne by (simp add: wl_inv_defs hd_map)
  qed
  show "wl_data wl = []"
  proof (rule ccontr)
    assume ne: "wl_data wl \<noteq> []"
    then have hd: "hd (wl_data wl) \<in># wl_holds wl" by (simp add: wl_holds_def)
    moreover have "wl_holds wl \<subseteq># mset (map fst past)" using re by (simp add: reassembling_def)
    ultimately have "hd (wl_data wl) \<in> fst ` set past" by (metis mset_subset_eqD set_mset_mset list.set_map)
    then have "unat (mm_id (hd (wl_data wl))) \<le> n" using ids by auto
    moreover have "wl_lastID wl < mm_id (hd (wl_data wl))" using ne by (intro above) simp
    ultimately show False using lastn total by (simp add: word_less_nat_alt)
  qed
qed

lemma v1_reassembly:
  assumes "(\<lambda>a. mm_id (fst a)) ` set as = of_nat ` {1..n}" "n + 1 < 2 ^ 32" "no_giveup cfg as"
  shows "\<exists>wl. run_stream (v1_handle cfg) as newWaitingList = Ok wl
     \<and> sent_ids wl = map of_nat [1..<n + 1] \<and> wl_data wl = []
     \<and> wl_holds wl \<subseteq># mset (map fst as)"
proof -
  have "reassembling 1 [] newWaitingList"
    by (simp add: reassembling_def wl_inv_new) (simp add: newWaitingList_def wl_holds_def)
  moreover have ids: "\<forall>a\<in>set as. unat (mm_id (fst a)) \<le> n"
  proof
    fix a assume "a \<in> set as"
    then obtain i where "i \<in> {1..n}" "mm_id (fst a) = of_nat i" using assms(1) by blast
    then show "unat (mm_id (fst a)) \<le> n" using assms(2) unat_of_nat_u32 [of i] by simp
  qed
  ultimately obtain wl where wl: "run_stream (v1_handle cfg) as newWaitingList = Ok wl" "reassembling 1 as wl"
    using reassembling_run [of 1 "[]" newWaitingList n as cfg] assms(2,3) by auto
  have "1 + length (wl_sent wl) = n + 1" "wl_data wl = []"
    using reassembling_done [OF wl(2) _ _ assms(2) ids] assms(1) by simp_all
  moreover have "sent_ids wl = map of_nat [1..<1 + length (wl_sent wl)]"
    using wl(2) by (simp add: reassembling_def)
  moreover have "wl_holds wl \<subseteq># mset (map fst as)" using wl(2) by (simp add: reassembling_def)
  ultimately show ?thesis using wl(1) by simp
qed

text \<open>
  C21. Reassembly by the loop of \<open>V1\<close>: if the messages that arrive, in any order and however
  often, have exactly the identifiers \<open>1, \<dots>, n\<close>, and no gap is given up on the way, then the
  receiver gets the messages \<open>1, \<dots>, n\<close> once each and in this order, and nothing is left over.
\<close>

theorem v1_reassembles:
  assumes "(\<lambda>a. mm_id (fst a)) ` set as = of_nat ` {1..n}" "n + 1 < 2 ^ 32" "no_giveup cfg as"
  shows "\<exists>wl. run_stream (v1_handle cfg) as newWaitingList = Ok wl
     \<and> sent_ids wl = map of_nat [1..<n + 1] \<and> wl_data wl = []"
  using v1_reassembly [OF assms] by blast

lemma v2_run_eq_v1:
  "wl_inv wl \<Longrightarrow> wl_firstSent wl \<Longrightarrow> run_stream (v2_handle cfg) as wl = run_stream (v1_handle cfg) as wl"
proof (induction as arbitrary: wl)
  case (Cons a as)
  obtain req t1 t2 where a: "a = (req, t1, t2)" by (cases a)
  obtain wl' where wl': "v1_handle cfg t1 t2 req wl = Ok wl'" "stream_outcome False cfg t1 t2 req wl wl'"
    using v1_handle_outcome [OF Cons.prems(1)] by blast
  then have "wl_inv wl'" "wl_firstSent wl'"
    using stream_outcome_inv stream_outcome_firstSent Cons.prems by blast+
  with Cons wl'(1) show ?case by (simp add: a v2_handle_eq_v1)
qed simp

lemma v2_reassembly:
  assumes "mm_id req = of_nat f" "1 \<le> f" "f \<le> n" "n + 1 < 2 ^ 32"
    and "\<forall>a\<in>set as. unat (mm_id (fst a)) \<le> n"
    and "of_nat ` {f..n} \<subseteq> (\<lambda>a. mm_id (fst a)) ` set ((req, t1, t2) # as)"
    and "no_giveup cfg ((req, t1, t2) # as)"
  shows "\<exists>wl. run_stream (v2_handle cfg) ((req, t1, t2) # as) newWaitingList = Ok wl
     \<and> sent_ids wl = map of_nat [f..<n + 1] \<and> wl_data wl = []
     \<and> wl_holds wl \<subseteq># mset (map fst ((req, t1, t2) # as))"
proof -
  define w1 where "w1 = wl_send req newWaitingList"
  have fn: "unat (mm_id req) = f" unfolding assms(1) using assms(3,4) by (intro unat_of_nat_u32) linarith
  have nd: "\<not> is_dup req newWaitingList"
    using fn assms(2) by (auto simp: is_dup_def newWaitingList_def wl_exists_def)
  then have w1: "v2_handle cfg t1 t2 req newWaitingList = Ok w1"
    by (simp add: v2_handle_def w1_def) (simp add: newWaitingList_def isThisFirstMessage_def wl_pop_def getHead_def wl_send_def)
  have re: "reassembling f [(req, t1, t2)] w1"
    unfolding reassembling_def w1_def wl_send_def newWaitingList_def
    using assms(1,2) by (simp add: wl_holds_def known_def wl_inv_defs)
  have inv: "wl_inv w1" using re by (simp add: reassembling_def)
  have started: "wl_firstSent w1" by (simp add: w1_def wl_send_def)
  let ?as = "(req, t1, t2) # as"
  have ids: "\<forall>a\<in>set ?as. unat (mm_id (fst a)) \<le> n" using assms(3,5) fn by simp
  obtain wl where wl: "run_stream (v1_handle cfg) as w1 = Ok wl" "reassembling f ?as wl"
    using reassembling_run [OF re, of n as cfg] assms(2-4,7) ids by auto
  have "f + length (wl_sent wl) = n + 1" "wl_data wl = []"
    using reassembling_done [OF wl(2) assms(2) _ assms(4) ids assms(6)] assms(3) by simp_all
  moreover have "sent_ids wl = map of_nat [f..<f + length (wl_sent wl)]"
    using wl(2) by (simp add: reassembling_def)
  moreover have "wl_holds wl \<subseteq># mset (map fst ?as)" using wl(2) by (simp add: reassembling_def)
  ultimately show ?thesis using w1 wl(1) v2_run_eq_v1 [OF inv started, of cfg as] by simp
qed

text \<open>
  C22. Reassembly by the loop of \<open>V2\<close>: the first message to arrive fixes where the stream
  starts. From its identifier \<open>f\<close> on the receiver gets every message once and in order, and
  what was numbered below \<open>f\<close> is lost.
\<close>

theorem v2_reassembles:
  assumes "mm_id req = of_nat f" "1 \<le> f" "f \<le> n" "n + 1 < 2 ^ 32"
    and "\<forall>a\<in>set as. unat (mm_id (fst a)) \<le> n"
    and "of_nat ` {f..n} \<subseteq> (\<lambda>a. mm_id (fst a)) ` set ((req, t1, t2) # as)"
    and "no_giveup cfg ((req, t1, t2) # as)"
  shows "\<exists>wl. run_stream (v2_handle cfg) ((req, t1, t2) # as) newWaitingList = Ok wl
     \<and> sent_ids wl = map of_nat [f..<n + 1] \<and> wl_data wl = []"
  using v2_reassembly [OF assms] by blast

definition sample_cfg :: merger_config where
  "sample_cfg = \<lparr>mc_ThreadingBy = ''session'', mc_WaitingListMaxSize = 1000, mc_WaitingListMaxTTL = 500,
     mc_StreamCheckInterval = 60, mc_StreamTTL = 300, mc_StreamCount = 4\<rparr>"

definition sample_arrivals :: "u32 list \<Rightarrow> arrival list" where
  "sample_arrivals is = map (\<lambda>i. (sample_mm i, 7, 8)) is"

theorem v1_reassembles_witness:
  "\<exists>wl. run_stream (v1_handle sample_cfg) (sample_arrivals [3, 1, 3, 4, 2]) newWaitingList = Ok wl
     \<and> sent_ids wl = map of_nat [1..<4 + 1] \<and> wl_data wl = []"
proof (rule v1_reassembles)
  have "{1..4::nat} = {1, 2, 3, 4}" by auto
  then show "(\<lambda>a. mm_id (fst a)) ` set (sample_arrivals [3, 1, 3, 4, 2]) = of_nat ` {1..4}"
    by (simp add: sample_arrivals_def insert_commute)
  show "no_giveup sample_cfg (sample_arrivals [3, 1, 3, 4, 2])"
    by (simp add: no_giveup_def sample_arrivals_def sample_cfg_def)
qed simp

theorem v2_reassembles_witness:
  "\<exists>wl. run_stream (v2_handle sample_cfg) ((sample_mm 2, 7, 8) # sample_arrivals [4, 1, 3]) newWaitingList = Ok wl
     \<and> sent_ids wl = map of_nat [2..<4 + 1] \<and> wl_data wl = []"
proof (rule v2_reassembles)
  have "{2..4::nat} = {2, 3, 4}" by auto
  then show "of_nat ` {2..4} \<subseteq> (\<lambda>a. mm_id (fst a)) ` set ((sample_mm 2, 7, 8) # sample_arrivals [4, 1, 3])"
    by (simp add: sample_arrivals_def)
  show "no_giveup sample_cfg ((sample_mm 2, 7, 8) # sample_arrivals [4, 1, 3])"
    by (simp add: no_giveup_def sample_arrivals_def sample_cfg_def)
qed (simp_all add: sample_arrivals_def)

end
