(* ===== verification/Merger.thy ===== *)
theory Merger
  imports MergerStream
begin

text \<open>
  The two stream mergers around the loops: \<open>V1\<close> (\<open>merger.v1.go\<close>) has a channel and a
  goroutine per session, \<open>V2\<close> (\<open>merger.v2.go\<close>) one per session and endpoint. A goroutine is
  an entry of a list, with the queue of its channel and the state of its loop; it goes on
  when its event is taken. The queue is not bounded in the model: a full channel delays the
  sender. A goroutine that panics ends the process (\<open>dead\<close>).
\<close>

section \<open>V1\<close>

record v1_run =
  vr_sid :: u32
  vr_ch :: "merge_message option list"
  vr_session :: v1_session

record v1_merger =
  vm_receiver :: bool \<comment> \<open>the handlers that have been set\<close>
  vm_disconnect :: bool
  vm_streams :: "(u32, nat) gomap"
  vm_runs :: "v1_run list"
  vm_direct :: "merge_message list" \<comment> \<open>the messages given to the receiver at once\<close>
  vm_resets :: "(u32 \<times> connection) list"
  vm_dead :: bool

definition NewV1 :: "bool \<Rightarrow> bool \<Rightarrow> v1_merger" where
  "NewV1 receiver disconnect = \<lparr>vm_receiver = receiver, vm_disconnect = disconnect, vm_streams = [],
     vm_runs = [], vm_direct = [], vm_resets = [], vm_dead = False\<rparr>"

definition v1_CreateStream :: "u32 \<Rightarrow> v1_merger \<Rightarrow> (gerror, unit) res \<times> v1_merger" where
  "v1_CreateStream sid m =
     (if \<not> vm_receiver m then (Err ErrReceiverHandlerNotSet, m)
      else if \<not> vm_disconnect m then (Err ErrDisconnectHandlerNotSet, m)
      else if map_of (vm_streams m) sid \<noteq> None then (Ok (), m)
      else (Ok (), m\<lparr>vm_streams := mput sid (length (vm_runs m)) (vm_streams m),
              vm_runs := vm_runs m @ [\<lparr>vr_sid = sid, vr_ch = [], vr_session = v1_session_new\<rparr>]\<rparr>))"

definition v1_enqueue :: "nat \<Rightarrow> merge_message option \<Rightarrow> v1_merger \<Rightarrow> v1_merger" where
  "v1_enqueue i x m = m\<lparr>vm_runs := (vm_runs m)[i := (vm_runs m ! i)\<lparr>vr_ch := vr_ch (vm_runs m ! i) @ [x]\<rparr>]\<rparr>"

definition v1_DeleteStream :: "u32 \<Rightarrow> v1_merger \<Rightarrow> v1_merger" where
  "v1_DeleteStream sid m =
     (case map_of (vm_streams m) sid of
        None \<Rightarrow> m
      | Some i \<Rightarrow> (v1_enqueue i None m)\<lparr>vm_streams := mdel sid (vm_streams m)\<rparr>)"

definition v1_Push :: "message \<Rightarrow> connection \<Rightarrow> v1_merger \<Rightarrow> v1_merger" where
  "v1_Push msg conn m =
     (if \<not> IsStreamMerge msg then m\<lparr>vm_direct := vm_direct m @ [\<lparr>mm_msg = msg, mm_conn = conn\<rparr>]\<rparr>
      else case map_of (vm_streams m) (m_SessionID msg) of
        Some i \<Rightarrow> v1_enqueue i (Some \<lparr>mm_msg = msg, mm_conn = conn\<rparr>) m
      | None \<Rightarrow> m\<lparr>vm_resets := vm_resets m @ [(m_SessionID msg, conn)]\<rparr>)"

definition v1_take :: "merger_config \<Rightarrow> nat \<Rightarrow> int \<Rightarrow> int \<Rightarrow> v1_merger \<Rightarrow> v1_merger" where
  \<comment> \<open>goroutine \<open>i\<close> receives the next element of its channel\<close>
  "v1_take cfg i t1 t2 m =
     (if i < length (vm_runs m) then
        (let run = vm_runs m ! i
         in case vr_ch run of
              [] \<Rightarrow> m
            | x # xs \<Rightarrow>
                (case v1_stream_step cfg t1 t2 x (vr_session run) of
                   Ok s \<Rightarrow> m\<lparr>vm_runs := (vm_runs m)[i := run\<lparr>vr_ch := xs, vr_session := s\<rparr>]\<rparr>
                 | _ \<Rightarrow> m\<lparr>vm_dead := True\<rparr>))
      else m)"

datatype merger_event =
    MCreate u32
  | MDelete u32
  | MPush message connection
  | MTake nat int int int
  | MTick
  | MTickAt nat real
  | MDone nat

definition v1_step :: "merger_config \<Rightarrow> v1_merger \<Rightarrow> merger_event \<Rightarrow> v1_merger" where
  "v1_step cfg m ev =
     (if vm_dead m then m
      else case ev of
        MCreate sid \<Rightarrow> snd (v1_CreateStream sid m)
      | MDelete sid \<Rightarrow> v1_DeleteStream sid m
      | MPush msg conn \<Rightarrow> v1_Push msg conn m
      | MTake i _ t1 t2 \<Rightarrow> v1_take cfg i t1 t2 m
      | _ \<Rightarrow> m)"

section \<open>Soundness of V1\<close>

definition of_stream :: "u32 \<Rightarrow> merge_message \<Rightarrow> bool" where
  "of_stream sid r \<longleftrightarrow> m_SessionID (mm_msg r) = sid \<and> IsStreamMerge (mm_msg r)"

definition wl_of :: "(merge_message \<Rightarrow> bool) \<Rightarrow> waiting_list \<Rightarrow> bool" where
  "wl_of P wl \<longleftrightarrow> wl_inv wl \<and> (\<forall>r\<in>#wl_holds wl. P r)"

definition v1_session_ok :: "u32 \<Rightarrow> v1_session \<Rightarrow> bool" where
  "v1_session_ok sid s \<longleftrightarrow> (\<forall>(e, wl)\<in>set (vs_wlMap s). wl_of (\<lambda>r. of_stream sid r \<and> GetEndpoint (mm_msg r) = e) wl)"

definition v1_run_ok :: "v1_run \<Rightarrow> bool" where
  "v1_run_ok run \<longleftrightarrow> v1_session_ok (vr_sid run) (vr_session run) \<and> (\<forall>r. Some r \<in> set (vr_ch run) \<longrightarrow> of_stream (vr_sid run) r)"

definition v1_inv :: "v1_merger \<Rightarrow> bool" where
  "v1_inv m \<longleftrightarrow> \<not> vm_dead m \<and> (\<forall>run\<in>set (vm_runs m). v1_run_ok run)
     \<and> (\<forall>sid i. map_of (vm_streams m) sid = Some i \<longrightarrow> i < length (vm_runs m) \<and> vr_sid (vm_runs m ! i) = sid)"

lemma set_mput_other: "(k', v') \<in> set (mput k v d) \<Longrightarrow> (k', v') = (k, v) \<or> (k', v') \<in> set d"
  by (induction d) (auto split: if_splits)

lemma wl_of_new: "wl_of P newWaitingList"
  using wl_inv_new by (simp add: wl_of_def wl_holds_def) (simp add: newWaitingList_def)

text \<open>A message of the right stream keeps the lists of a session in order and of one endpoint each.\<close>

lemma v1_stream_step_ok:
  assumes "v1_session_ok sid s" "\<And>r. x = Some r \<Longrightarrow> of_stream sid r"
  shows "\<exists>s'. v1_stream_step cfg t1 t2 x s = Ok s' \<and> v1_session_ok sid s'"
proof (cases "vs_finished s \<or> x = None")
  case True
  then show ?thesis using assms(1) by (auto simp: v1_stream_step_def v1_session_ok_def)
next
  case False
  then obtain r where r: "x = Some r" "\<not> vs_finished s" by auto
  let ?e = "GetEndpoint (mm_msg r)"
  obtain wl s1 where g: "v1_getWaitingList ?e s = (wl, s1)" by force
  have wl: "wl_of (\<lambda>r. of_stream sid r \<and> GetEndpoint (mm_msg r) = ?e) wl" and s1: "v1_session_ok sid s1"
    using g assms(1) wl_of_new
    by (auto simp: v1_getWaitingList_def v1_session_ok_def split: option.splits dest!: set_mput_other map_of_SomeD)
  then have inv: "wl_inv wl" by (simp add: wl_of_def)
  obtain wl' where h: "v1_handle cfg t1 t2 r wl = Ok wl'" "stream_outcome False cfg t1 t2 r wl wl'"
    using v1_handle_outcome [OF inv] by blast
  have "wl_of (\<lambda>r. of_stream sid r \<and> GetEndpoint (mm_msg r) = ?e) wl'"
    using wl stream_outcome_inv [OF inv h(2)] stream_outcome_holds(1) [OF inv h(2)] assms(2) [OF r(1)]
    by (simp add: wl_of_def)
  then have "v1_session_ok sid (s1\<lparr>vs_wlMap := mput ?e wl' (vs_wlMap s1)\<rparr>)"
    using s1 by (auto simp: v1_session_ok_def dest!: set_mput_other)
  with r g h(1) show ?thesis by (simp add: v1_stream_step_def)
qed

lemma v1_inv_update:
  assumes "v1_inv m" "i < length (vm_runs m)" "v1_run_ok run" "vr_sid run = vr_sid (vm_runs m ! i)"
  shows "v1_inv (m\<lparr>vm_runs := (vm_runs m)[i := run]\<rparr>)"
  using assms by (auto simp: v1_inv_def nth_list_update dest: set_update_subset_insert [THEN subsetD])

lemma v1_enqueue_inv:
  assumes "v1_inv m" "map_of (vm_streams m) sid = Some i" "\<And>r. x = Some r \<Longrightarrow> of_stream sid r"
  shows "v1_inv (v1_enqueue i x m)"
proof -
  have i: "i < length (vm_runs m)" "vr_sid (vm_runs m ! i) = sid" "v1_run_ok (vm_runs m ! i)"
    using assms(1,2) by (auto simp: v1_inv_def)
  show ?thesis
    unfolding v1_enqueue_def using i assms(3) by (intro v1_inv_update [OF assms(1) i(1)]) (auto simp: v1_run_ok_def)
qed

lemma v1_inv_new: "v1_inv (NewV1 a b)"
  by (simp add: v1_inv_def NewV1_def)

lemma v1_step_inv:
  assumes "v1_inv m"
  shows "v1_inv (v1_step cfg m ev)"
proof -
  have alive: "\<not> vm_dead m" using assms by (simp add: v1_inv_def)
  show ?thesis
  proof (cases ev)
    case (MCreate sid)
    have "v1_run_ok \<lparr>vr_sid = sid, vr_ch = [], vr_session = v1_session_new\<rparr>"
      by (simp add: v1_run_ok_def v1_session_ok_def v1_session_new_def)
    then show ?thesis
      using MCreate alive assms by (fastforce simp: v1_step_def v1_CreateStream_def v1_inv_def gomap_simps nth_append)
  next
    case (MDelete sid)
    show ?thesis
    proof (cases "map_of (vm_streams m) sid")
      case (Some i)
      have "v1_inv (v1_enqueue i None m)" by (rule v1_enqueue_inv [OF assms Some]) simp
      then have "v1_inv ((v1_enqueue i None m)\<lparr>vm_streams := mdel sid (vm_streams m)\<rparr>)"
        by (auto simp: v1_inv_def v1_enqueue_def gomap_simps split: if_splits)
      then show ?thesis using MDelete Some alive by (simp add: v1_step_def v1_DeleteStream_def)
    qed (use MDelete alive assms in \<open>simp add: v1_step_def v1_DeleteStream_def\<close>)
  next
    case (MPush msg conn)
    have push: "v1_inv (v1_enqueue i (Some \<lparr>mm_msg = msg, mm_conn = conn\<rparr>) m)"
      if "map_of (vm_streams m) (m_SessionID msg) = Some i" "IsStreamMerge msg" for i
      by (rule v1_enqueue_inv [OF assms that(1)]) (use that(2) in \<open>auto simp: of_stream_def\<close>)
    have other: "v1_inv (m\<lparr>vm_direct := d\<rparr>)" "v1_inv (m\<lparr>vm_resets := rs\<rparr>)" for d rs
      using assms by (simp_all add: v1_inv_def)
    show ?thesis
      using MPush alive push other by (auto simp: v1_step_def v1_Push_def split: option.splits)
  next
    case (MTake i t0 t1 t2)
    show ?thesis
    proof (cases "i < length (vm_runs m) \<and> vr_ch (vm_runs m ! i) \<noteq> []")
      case True
      then obtain x xs where ch: "vr_ch (vm_runs m ! i) = x # xs" by (cases "vr_ch (vm_runs m ! i)") auto
      have ok: "v1_run_ok (vm_runs m ! i)" using True assms by (simp add: v1_inv_def)
      then obtain s where s: "v1_stream_step cfg t1 t2 x (vr_session (vm_runs m ! i)) = Ok s" "v1_session_ok (vr_sid (vm_runs m ! i)) s"
        using v1_stream_step_ok [of "vr_sid (vm_runs m ! i)" "vr_session (vm_runs m ! i)" x cfg t1 t2] ch by (auto simp: v1_run_ok_def)
      then have "v1_inv (m\<lparr>vm_runs := (vm_runs m)[i := (vm_runs m ! i)\<lparr>vr_ch := xs, vr_session := s\<rparr>]\<rparr>)"
        using ok ch True by (intro v1_inv_update [OF assms]) (auto simp: v1_run_ok_def)
      then show ?thesis using MTake alive True ch s(1) by (simp add: v1_step_def v1_take_def Let_def)
    qed (use MTake alive assms in \<open>auto simp: v1_step_def v1_take_def Let_def\<close>)
  qed (use alive assms in \<open>simp_all add: v1_step_def\<close>)
qed

interpretation v1_merger: machine "v1_step cfg" "NewV1 a b" v1_inv for cfg a b
  by unfold_locales (rule v1_inv_new, rule v1_step_inv)

text \<open>
  C6. The merger \<open>V1\<close> keeps streams apart: after any sequence of stream creations, deletions,
  pushes and receptions, in every goroutine the messages delivered for an endpoint belong to
  the goroutine's session and to that endpoint, and are in the order of their identifiers;
  and the process is alive.
\<close>

theorem v1_streams_separate_and_ordered:
  assumes "run \<in> set (vm_runs (foldl (v1_step cfg) (NewV1 a b) evs))" "(e, wl) \<in> set (vs_wlMap (vr_session run))"
  shows "delivery_ordered (sent_ids wl)
     \<and> (\<forall>r\<in>set (wl_sent wl). m_SessionID (mm_msg r) = vr_sid run \<and> GetEndpoint (mm_msg r) = e)
     \<and> \<not> vm_dead (foldl (v1_step cfg) (NewV1 a b) evs)"
proof -
  have inv: "v1_inv (foldl (v1_step cfg) (NewV1 a b) evs)" by (rule v1_merger.inv_reached)
  then have "wl_of (\<lambda>r. of_stream (vr_sid run) r \<and> GetEndpoint (mm_msg r) = e) wl"
    using assms by (auto simp: v1_inv_def v1_run_ok_def v1_session_ok_def)
  then show ?thesis
    using inv by (auto simp: wl_of_def of_stream_def wl_holds_def wl_inv_defs v1_inv_def)
qed

theorem v1_streams_separate_and_ordered_witness:
  "\<exists>run wl. run \<in> set (vm_runs (foldl (v1_step sample_cfg) (NewV1 True True)
       [MCreate 1, MPush (mm_msg (sample_mm 1)) new_connection, MTake 0 0 0 0]))
     \<and> (0, wl) \<in> set (vs_wlMap (vr_session run)) \<and> delivery_ordered (sent_ids wl)"
proof -
  let ?evs = "[MCreate 1, MPush (mm_msg (sample_mm 1)) new_connection, MTake 0 0 0 0]"
  let ?m = "foldl (v1_step sample_cfg) (NewV1 True True) ?evs"
  have "\<exists>run wl. run \<in> set (vm_runs ?m) \<and> (0, wl) \<in> set (vs_wlMap (vr_session run))"
    by (simp add: v1_step_def v1_CreateStream_def NewV1_def v1_Push_def IsStreamMerge_def sample_mm_def new_message_def
        v1_enqueue_def v1_take_def v1_stream_step_def v1_session_new_def v1_getWaitingList_def GetEndpoint_def
        newWaitingList_def v1_handle_def is_dup_def mm_id_def wl_exists_def wl_pop_def getHead_def
        isThisFirstMessage_def wl_send_def Let_def)
  then show ?thesis using v1_streams_separate_and_ordered by blast
qed

section \<open>V2\<close>

text \<open>
  A session is a context: an index into the list of contexts, which says whether the context
  has been cancelled. The map of the streams belongs to the merger, its entries are removed
  by the goroutines themselves.
\<close>

record v2_run =
  vq_ctx :: nat
  vq_ch :: "merge_message option list"
  vq_stream :: v2_stream

record v2_merger =
  vn_receiver :: bool
  vn_disconnect :: bool
  vn_sessions :: "(u32, nat) gomap"
  vn_cancelled :: "bool list"
  vn_streams :: "(u64 \<times> u64, nat) gomap"
  vn_runs :: "v2_run list"
  vn_direct :: "merge_message list"
  vn_resets :: "(u32 \<times> connection) list"
  vn_dead :: bool

definition NewV2 :: "bool \<Rightarrow> bool \<Rightarrow> v2_merger" where
  "NewV2 receiver disconnect = \<lparr>vn_receiver = receiver, vn_disconnect = disconnect, vn_sessions = [],
     vn_cancelled = [], vn_streams = [], vn_runs = [], vn_direct = [], vn_resets = [], vn_dead = False\<rparr>"

definition getStreamKey :: "u32 \<Rightarrow> u64 \<Rightarrow> u64 \<times> u64" where
  "getStreamKey sessionID endpoint = (ucast sessionID, endpoint)"

definition v2_CreateStream :: "u32 \<Rightarrow> v2_merger \<Rightarrow> (gerror, unit) res \<times> v2_merger" where
  "v2_CreateStream sid m =
     (if \<not> vn_receiver m then (Err ErrReceiverHandlerNotSet, m)
      else if \<not> vn_disconnect m then (Err ErrDisconnectHandlerNotSet, m)
      else if map_of (vn_sessions m) sid \<noteq> None then (Ok (), m)
      else (Ok (), m\<lparr>vn_sessions := mput sid (length (vn_cancelled m)) (vn_sessions m),
              vn_cancelled := vn_cancelled m @ [False]\<rparr>))"

definition v2_DeleteStream :: "u32 \<Rightarrow> v2_merger \<Rightarrow> v2_merger" where
  "v2_DeleteStream sid m =
     (case map_of (vn_sessions m) sid of
        None \<Rightarrow> m
      | Some i \<Rightarrow> m\<lparr>vn_cancelled := (vn_cancelled m)[i := True], vn_sessions := mdel sid (vn_sessions m)\<rparr>)"

definition v2_enqueue :: "nat \<Rightarrow> merge_message option \<Rightarrow> v2_merger \<Rightarrow> v2_merger" where
  "v2_enqueue i x m = m\<lparr>vn_runs := (vn_runs m)[i := (vn_runs m ! i)\<lparr>vq_ch := vq_ch (vn_runs m ! i) @ [x]\<rparr>]\<rparr>"

definition v2_Push :: "message \<Rightarrow> connection \<Rightarrow> v2_merger \<Rightarrow> (gerror, unit) res \<times> v2_merger" where
  "v2_Push msg conn m =
     (let req = \<lparr>mm_msg = msg, mm_conn = conn\<rparr>
      in if \<not> IsStreamMerge msg then (Ok (), m\<lparr>vn_direct := vn_direct m @ [req]\<rparr>)
         else case map_of (vn_sessions m) (m_SessionID msg) of
           None \<Rightarrow> (Err ErrSessionNotExists, m\<lparr>vn_resets := vn_resets m @ [(m_SessionID msg, conn)]\<rparr>)
         | Some ctx \<Rightarrow>
             (let key = getStreamKey (m_SessionID msg) (GetEndpoint msg)
              in case map_of (vn_streams m) key of
                   Some i \<Rightarrow> (Ok (), v2_enqueue i (Some req) m)
                 | None \<Rightarrow>
                     (Ok (), m\<lparr>vn_streams := mput key (length (vn_runs m)) (vn_streams m),
                        vn_runs := vn_runs m @ [\<lparr>vq_ctx = ctx, vq_ch = [Some req],
                          vq_stream = v2_stream_new (m_SessionID msg) (GetEndpoint msg)\<rparr>]\<rparr>)))"

text \<open>\<open>streamChecker\<close>: a nil for every stream of the map; off when an interval is zero.\<close>

definition v2_tick :: "merger_config \<Rightarrow> v2_merger \<Rightarrow> v2_merger" where
  "v2_tick cfg m =
     (if mc_StreamCheckInterval cfg = 0 \<or> mc_StreamTTL cfg = 0 then m
      else fold (\<lambda>(_, i). v2_enqueue i None) (vn_streams m) m)"

text \<open>Goroutine \<open>i\<close> handles one event; when its loop returns it removes its map entry.\<close>

definition v2_event :: "merger_config \<Rightarrow> nat \<Rightarrow> v2_event \<Rightarrow> merge_message option list \<Rightarrow> v2_merger \<Rightarrow> v2_merger" where
  "v2_event cfg i ev rest m =
     (let run = vn_runs m ! i
      in case v2_stream_step cfg ev (vq_stream run) of
           Ok s \<Rightarrow>
             m\<lparr>vn_runs := (vn_runs m)[i := run\<lparr>vq_ch := rest, vq_stream := s\<rparr>],
               vn_streams := (if v2_finished s \<and> \<not> v2_finished (vq_stream run)
                              then mdel (getStreamKey (v2_session s) (v2_endpoint s)) (vn_streams m)
                              else vn_streams m)\<rparr>
         | _ \<Rightarrow> m\<lparr>vn_dead := True\<rparr>)"

definition v2_take :: "merger_config \<Rightarrow> nat \<Rightarrow> int \<Rightarrow> int \<Rightarrow> int \<Rightarrow> real \<Rightarrow> v2_merger \<Rightarrow> v2_merger" where
  "v2_take cfg i t0 t1 t2 since m =
     (if i < length (vn_runs m) then
        (case vq_ch (vn_runs m ! i) of
           [] \<Rightarrow> m
         | None # xs \<Rightarrow> v2_event cfg i (V2Tick since) xs m
         | Some r # xs \<Rightarrow> v2_event cfg i (V2Message r t0 t1 t2) xs m)
      else m)"

definition v2_done :: "merger_config \<Rightarrow> nat \<Rightarrow> v2_merger \<Rightarrow> v2_merger" where
  "v2_done cfg i m =
     (if i < length (vn_runs m) \<and> vn_cancelled m ! vq_ctx (vn_runs m ! i)
      then v2_event cfg i V2Done (vq_ch (vn_runs m ! i)) m else m)"

definition v2_step :: "merger_config \<Rightarrow> v2_merger \<Rightarrow> merger_event \<Rightarrow> v2_merger" where
  "v2_step cfg m ev =
     (if vn_dead m then m
      else case ev of
        MCreate sid \<Rightarrow> snd (v2_CreateStream sid m)
      | MDelete sid \<Rightarrow> v2_DeleteStream sid m
      | MPush msg conn \<Rightarrow> snd (v2_Push msg conn m)
      | MTake i t0 t1 t2 \<Rightarrow> v2_take cfg i t0 t1 t2 0 m
      | MTickAt i since \<Rightarrow> v2_take cfg i 0 0 0 since m
      | MTick \<Rightarrow> v2_tick cfg m
      | MDone i \<Rightarrow> v2_done cfg i m)"

text \<open>The selection of the merger by \<open>New\<close>; an unknown name ends the process.\<close>

definition merger_New :: "merger_config \<Rightarrow> (gerror, v1_merger + v2_merger) res" where
  "merger_New cfg =
     (if mc_ThreadingBy cfg = ''session'' then Ok (Inl (NewV1 False False))
      else if mc_ThreadingBy cfg = ''endpoint'' then Ok (Inr (NewV2 False False))
      else Panic)"

section \<open>Soundness of V2\<close>

definition v2_run_ok :: "v2_run \<Rightarrow> bool" where
  "v2_run_ok run \<longleftrightarrow>
     (let s = vq_stream run; P = (\<lambda>r. of_stream (v2_session s) r \<and> GetEndpoint (mm_msg r) = v2_endpoint s)
      in wl_of P (v2_wl s) \<and> v2_ready (v2_wl s) \<and> (\<forall>r. Some r \<in> set (vq_ch run) \<longrightarrow> P r))"

definition v2_inv :: "v2_merger \<Rightarrow> bool" where
  "v2_inv m \<longleftrightarrow> \<not> vn_dead m \<and> (\<forall>run\<in>set (vn_runs m). v2_run_ok run)
     \<and> (\<forall>k i. map_of (vn_streams m) k = Some i \<longrightarrow> i < length (vn_runs m)
          \<and> k = getStreamKey (v2_session (vq_stream (vn_runs m ! i))) (v2_endpoint (vq_stream (vn_runs m ! i))))
     \<and> mwf (vn_streams m)"

lemma getStreamKey_inj: "getStreamKey s e = getStreamKey s' e' \<longleftrightarrow> s = s' \<and> e = e'"
proof -
  have "(ucast s :: u64) = ucast s' \<longleftrightarrow> s = s'" for s s' :: u32
  proof
    assume "(ucast s :: u64) = ucast s'"
    then have "(ucast (ucast s :: u64) :: u32) = ucast (ucast s' :: u64)" by (rule arg_cong)
    then show "s = s'" by (simp add: ucast_down_ucast_id is_down)
  qed simp
  then show ?thesis by (simp add: getStreamKey_def)
qed

lemma v2_stream_step_ok:
  assumes "v2_run_ok run" "\<And>r t0 t1 t2. ev = V2Message r t0 t1 t2 \<Longrightarrow>
      of_stream (v2_session (vq_stream run)) r \<and> GetEndpoint (mm_msg r) = v2_endpoint (vq_stream run)"
    and "set rest \<subseteq> set (vq_ch run)"
  shows "\<exists>s. v2_stream_step cfg ev (vq_stream run) = Ok s \<and> v2_session s = v2_session (vq_stream run)
     \<and> v2_endpoint s = v2_endpoint (vq_stream run) \<and> v2_run_ok (run\<lparr>vq_ch := rest, vq_stream := s\<rparr>)"
proof -
  let ?s = "vq_stream run"
  have rest: "v2_run_ok (run\<lparr>vq_ch := rest, vq_stream := ?s\<lparr>v2_finished := f\<rparr>\<rparr>)" for f
    using assms(1,3) by (auto simp: v2_run_ok_def Let_def)
  consider "v2_finished ?s \<or> (\<forall>r t0 t1 t2. ev \<noteq> V2Message r t0 t1 t2)"
    | r t0 t1 t2 where "ev = V2Message r t0 t1 t2" "\<not> v2_finished ?s" by blast
  then show ?thesis
  proof cases
    case 1
    then obtain f where "v2_stream_step cfg ev ?s = Ok (?s\<lparr>v2_finished := f\<rparr>)"
    proof (cases "v2_finished ?s")
      case True
      then have "v2_stream_step cfg ev ?s = Ok (?s\<lparr>v2_finished := True\<rparr>)" by (simp add: v2_stream_step_def)
      then show ?thesis by (rule that)
    next
      case False
      then have "ev = V2Done \<or> (\<exists>since. ev = V2Tick since)" using 1 by (cases ev) auto
      moreover from False have "?s\<lparr>v2_finished := False\<rparr> = ?s" by simp
      ultimately have "v2_stream_step cfg ev ?s = Ok (?s\<lparr>v2_finished := True\<rparr>)
          \<or> v2_stream_step cfg ev ?s = Ok (?s\<lparr>v2_finished := False\<rparr>)"
        using False by (auto simp: v2_stream_step_def)
      then show ?thesis using that by blast
    qed
    with rest [of f] show ?thesis by auto
  next
    case 2
    let ?P = "\<lambda>r. of_stream (v2_session ?s) r \<and> GetEndpoint (mm_msg r) = v2_endpoint ?s"
    have wl: "wl_of ?P (v2_wl ?s)" and ready: "v2_ready (v2_wl ?s)"
      using assms(1) by (simp_all add: v2_run_ok_def Let_def)
    have inv: "wl_inv (v2_wl ?s)" using wl by (simp add: wl_of_def)
    have P: "?P r" using assms(2) [OF 2(1)] .
    obtain wl' where wl': "v2_handle cfg t1 t2 r (v2_wl ?s) = Ok wl'"
      "stream_outcome True cfg t1 t2 r (v2_wl ?s) wl'" "v2_ready wl'"
      using v2_loop.handle_step [OF ready] by blast
    have "wl_of ?P wl'"
      using wl P stream_outcome_inv [OF inv wl'(2)] stream_outcome_holds(1) [OF inv wl'(2)] by (simp add: wl_of_def)
    moreover have "v2_stream_step cfg ev ?s = Ok (?s\<lparr>v2_lastMessageTs := t0, v2_wl := wl'\<rparr>)"
      using 2 P wl'(1) by (simp add: v2_stream_step_def of_stream_def)
    ultimately show ?thesis
      using assms(1,3) wl'(3) by (auto simp: v2_run_ok_def Let_def)
  qed
qed

lemma v2_inv_update:
  assumes "v2_inv m" "i < length (vn_runs m)" "v2_run_ok run"
    and "v2_session (vq_stream run) = v2_session (vq_stream (vn_runs m ! i))"
    and "v2_endpoint (vq_stream run) = v2_endpoint (vq_stream (vn_runs m ! i))"
  shows "v2_inv (m\<lparr>vn_runs := (vn_runs m)[i := run]\<rparr>)"
  using assms by (auto simp: v2_inv_def nth_list_update dest: set_update_subset_insert [THEN subsetD])

lemma v2_inv_stream:
  assumes "v2_inv m" "map_of (vn_streams m) k = Some i"
  shows "i < length (vn_runs m)" "v2_run_ok (vn_runs m ! i)"
    "k = getStreamKey (v2_session (vq_stream (vn_runs m ! i))) (v2_endpoint (vq_stream (vn_runs m ! i)))"
proof -
  have "\<forall>k i. map_of (vn_streams m) k = Some i \<longrightarrow> i < length (vn_runs m)
      \<and> k = getStreamKey (v2_session (vq_stream (vn_runs m ! i))) (v2_endpoint (vq_stream (vn_runs m ! i)))"
    using assms(1) unfolding v2_inv_def by blast
  then show i: "i < length (vn_runs m)"
    and "k = getStreamKey (v2_session (vq_stream (vn_runs m ! i))) (v2_endpoint (vq_stream (vn_runs m ! i)))"
    using assms(2) by blast+
  show "v2_run_ok (vn_runs m ! i)" using assms(1) i by (simp add: v2_inv_def)
qed

lemma v2_enqueue_inv:
  assumes "v2_inv m" "map_of (vn_streams m) k = Some i"
    and "\<And>r. x = Some r \<Longrightarrow> k = getStreamKey (m_SessionID (mm_msg r)) (GetEndpoint (mm_msg r)) \<and> IsStreamMerge (mm_msg r)"
  shows "v2_inv (v2_enqueue i x m)"
proof -
  note i = v2_inv_stream [OF assms(1,2)]
  show ?thesis
    unfolding v2_enqueue_def using i assms(3)
    by (intro v2_inv_update [OF assms(1) i(1)])
      (auto simp: v2_run_ok_def Let_def of_stream_def getStreamKey_inj)
qed

lemma v2_event_inv:
  assumes "v2_inv m" "i < length (vn_runs m)" "set rest \<subseteq> set (vq_ch (vn_runs m ! i))"
    and "\<And>r t0 t1 t2. ev = V2Message r t0 t1 t2 \<Longrightarrow> Some r \<in> set (vq_ch (vn_runs m ! i))"
  shows "v2_inv (v2_event cfg i ev rest m)"
proof -
  let ?run = "vn_runs m ! i"
  have ok: "v2_run_ok ?run" using assms(1,2) by (simp add: v2_inv_def)
  obtain s where s: "v2_stream_step cfg ev (vq_stream ?run) = Ok s" "v2_session s = v2_session (vq_stream ?run)"
      "v2_endpoint s = v2_endpoint (vq_stream ?run)" "v2_run_ok (?run\<lparr>vq_ch := rest, vq_stream := s\<rparr>)"
    using v2_stream_step_ok [OF ok _ assms(3), of ev cfg] assms(4) ok by (fastforce simp: v2_run_ok_def Let_def)
  let ?m = "m\<lparr>vn_runs := (vn_runs m)[i := ?run\<lparr>vq_ch := rest, vq_stream := s\<rparr>]\<rparr>"
  have "v2_inv ?m" using s by (intro v2_inv_update [OF assms(1,2)]) simp_all
  then have "v2_inv (?m\<lparr>vn_streams := mdel k (vn_streams m)\<rparr>)" for k
    by (auto simp: v2_inv_def gomap_simps split: if_splits)
  with \<open>v2_inv ?m\<close> show ?thesis by (simp add: v2_event_def s(1) Let_def)
qed

lemma v2_tick_inv:
  assumes "v2_inv m"
  shows "v2_inv (v2_tick cfg m)"
proof -
  have "\<forall>(k, i)\<in>set ss. map_of (vn_streams m0) k = Some i \<Longrightarrow> v2_inv m0 \<Longrightarrow>
      v2_inv (fold (\<lambda>(_, i). v2_enqueue i None) ss m0)" for ss m0
  proof (induction ss arbitrary: m0)
    case (Cons ki ss)
    obtain k i where ki: "ki = (k, i)" by (cases ki)
    have "v2_inv (v2_enqueue i None m0)" using Cons.prems by (intro v2_enqueue_inv) (auto simp: ki)
    moreover have "vn_streams (v2_enqueue i None m0) = vn_streams m0" by (simp add: v2_enqueue_def)
    ultimately show ?case using Cons.IH [of "v2_enqueue i None m0"] Cons.prems(1) by (simp add: ki)
  qed simp
  moreover have "\<forall>(k, i)\<in>set (vn_streams m). map_of (vn_streams m) k = Some i"
    using assms by (auto simp: v2_inv_def mwf_map_of)
  ultimately show ?thesis using assms by (simp add: v2_tick_def)
qed

lemma v2_Push_inv:
  assumes "v2_inv m"
  shows "v2_inv (snd (v2_Push msg conn m))"
proof (cases "IsStreamMerge msg \<and> map_of (vn_sessions m) (m_SessionID msg) \<noteq> None")
  case False
  then show ?thesis using assms by (auto simp: v2_Push_def Let_def v2_inv_def split: option.splits)
next
  case True
  then obtain ctx where ctx: "map_of (vn_sessions m) (m_SessionID msg) = Some ctx" by auto
  let ?req = "\<lparr>mm_msg = msg, mm_conn = conn\<rparr>" and ?k = "getStreamKey (m_SessionID msg) (GetEndpoint msg)"
  show ?thesis
  proof (cases "map_of (vn_streams m) ?k")
    case (Some i)
    have "v2_inv (v2_enqueue i (Some ?req) m)" using True by (intro v2_enqueue_inv [OF assms Some]) auto
    then show ?thesis using True ctx Some by (simp add: v2_Push_def Let_def)
  next
    case None
    let ?run = "\<lparr>vq_ctx = ctx, vq_ch = [Some ?req], vq_stream = v2_stream_new (m_SessionID msg) (GetEndpoint msg)\<rparr>"
    have "v2_run_ok ?run"
      using True wl_of_new v2_loop.ready_new by (simp add: v2_run_ok_def v2_stream_new_def of_stream_def Let_def)
    then have "v2_inv (m\<lparr>vn_streams := mput ?k (length (vn_runs m)) (vn_streams m), vn_runs := vn_runs m @ [?run]\<rparr>)"
      using assms by (fastforce simp: v2_inv_def gomap_simps nth_append v2_stream_new_def)
    then show ?thesis using True ctx None by (simp add: v2_Push_def Let_def)
  qed
qed

lemma v2_inv_new: "v2_inv (NewV2 a b)"
  by (simp add: v2_inv_def NewV2_def)

lemma v2_step_inv:
  assumes "v2_inv m"
  shows "v2_inv (v2_step cfg m ev)"
proof -
  have alive: "\<not> vn_dead m" using assms by (simp add: v2_inv_def)
  have take: "v2_inv (v2_take cfg i t0 t1 t2 since m)" for i t0 t1 t2 since
  proof (cases "i < length (vn_runs m)")
    case True
    show ?thesis
    proof (cases "vq_ch (vn_runs m ! i)")
      case (Cons x xs)
      then have "v2_inv (v2_event cfg i ev xs m)" if "\<And>r t0 t1 t2. ev = V2Message r t0 t1 t2 \<Longrightarrow> x = Some r" for ev
        using that by (intro v2_event_inv [OF assms True]) auto
      from this [of "case x of None \<Rightarrow> V2Tick since | Some r \<Rightarrow> V2Message r t0 t1 t2"] show ?thesis
        using True Cons by (cases x) (simp_all add: v2_take_def)
    qed (use True assms in \<open>simp add: v2_take_def\<close>)
  qed (use assms in \<open>simp add: v2_take_def\<close>)
  have other: "v2_inv (snd (v2_CreateStream sid m))" "v2_inv (v2_DeleteStream sid m)" for sid
    using assms by (auto simp: v2_CreateStream_def v2_DeleteStream_def v2_inv_def split: option.splits)
  have "v2_inv (v2_done cfg i m)" for i
    using assms v2_event_inv [OF assms, of i "vq_ch (vn_runs m ! i)" V2Done] by (simp add: v2_done_def)
  then show ?thesis
    using alive take other v2_Push_inv [OF assms] v2_tick_inv [OF assms] by (cases ev) (simp_all add: v2_step_def)
qed

interpretation v2_merger: machine "v2_step cfg" "NewV2 a b" v2_inv for cfg a b
  by unfold_locales (rule v2_inv_new, rule v2_step_inv)



end
