(* ===== verification/Encryptors.thy ===== *)
theory Encryptors
  imports Entity
begin

text \<open>
  The package \<open>pkg/encryptor\<close>: AES in ECB mode with PKCS5 padding, AES in GCM mode, and the
  empty encryptor, and the choice of one by name (\<open>usecase/encryptor.go\<close>). The block cipher
  and the AEAD of the standard library (\<open>crypto/aes\<close>, \<open>crypto/cipher\<close>) are parameters: a
  record of the two block operations, a record of Seal and Open. What \<open>rand.Read\<close> puts into
  a nonce is an argument of \<open>Encrypt\<close>.
\<close>

section \<open>The interface\<close>

text \<open>
  An \<open>entity.Encryptor\<close> value. \<open>Decrypt\<close> takes an \<open>any\<close>, here the payload of a message;
  \<open>Encrypt\<close> takes the result of the random source and the plain text.
\<close>

type_synonym rand_read = "(gerror, bytes) res"

record encryptor =
  e_Decrypt :: "payload \<Rightarrow> (gerror, bytes) res"
  e_Encrypt :: "rand_read \<Rightarrow> bytes \<Rightarrow> (gerror, bytes) res"
  e_GetLength :: "int \<Rightarrow> int"
  e_key :: bytes

definition SetKey :: "bytes \<Rightarrow> encryptor \<Rightarrow> encryptor" where
  "SetKey key e = e\<lparr>e_key := key\<rparr>"

definition GetKey :: "encryptor \<Rightarrow> bytes" where
  "GetKey e = e_key e"

section \<open>The empty encryptor\<close>

definition empty_Decrypt :: "payload \<Rightarrow> (gerror, bytes) res" where
  "empty_Decrypt inp = (case inp of PBytes data \<Rightarrow> Ok data | _ \<Rightarrow> Err ErrInvalidInputType)"

definition empty_Encrypt :: "rand_read \<Rightarrow> bytes \<Rightarrow> (gerror, bytes) res" where
  "empty_Encrypt rnd data = Ok data"

definition empty_GetLength :: "int \<Rightarrow> int" where
  "empty_GetLength plainLength = plainLength"

definition NewEmpty :: "bytes \<Rightarrow> encryptor" where
  "NewEmpty key = \<lparr>e_Decrypt = empty_Decrypt, e_Encrypt = empty_Encrypt,
     e_GetLength = empty_GetLength, e_key = key\<rparr>"

section \<open>AES in ECB mode\<close>

abbreviation aesBlockSize :: nat where "aesBlockSize \<equiv> 16"

text \<open>The block cipher that \<open>aes.NewCipher\<close> makes of a key; \<open>None\<close> is its error.\<close>

record block_cipher =
  bc_Encrypt :: "bytes \<Rightarrow> bytes"
  bc_Decrypt :: "bytes \<Rightarrow> bytes"

type_synonym new_cipher = "bytes \<Rightarrow> block_cipher option"

definition PKCS5Padding :: "bytes \<Rightarrow> nat \<Rightarrow> bytes" where
  "PKCS5Padding ciphertext blockSize =
     (let padding = blockSize - length ciphertext mod blockSize
      in ciphertext @ replicate padding (of_nat padding))"

definition PKCS5UnPadding :: "bytes \<Rightarrow> (gerror, bytes) res" where
  \<comment> \<open>\<open>in[length-1]\<close> panics on an empty slice\<close>
  "PKCS5UnPadding inp =
     (if inp = [] then Panic
      else let unpadding = unat (last inp)
           in if unpadding > length inp then Err ErrUnpadding
              else Ok (take (length inp - unpadding) inp))"

text \<open>
  The loop of \<open>CryptBlocks\<close> works block by block; \<open>dst\<close> is as long as \<open>src\<close> at both calls. A
  source that is not full blocks is an explicit panic.
\<close>

function crypt_loop :: "(bytes \<Rightarrow> bytes) \<Rightarrow> bytes \<Rightarrow> bytes" where
  "crypt_loop f src = (if src = [] then [] else f (take aesBlockSize src) @ crypt_loop f (drop aesBlockSize src))"
  by pat_completeness auto
termination by (relation "measure (\<lambda>(_, src). length src)") auto

declare crypt_loop.simps [simp del]

definition CryptBlocks :: "(bytes \<Rightarrow> bytes) \<Rightarrow> bytes \<Rightarrow> (gerror, bytes) res" where
  "CryptBlocks f src = (if length src mod aesBlockSize \<noteq> 0 then Panic else Ok (crypt_loop f src))"

definition ecb_Encrypt :: "block_cipher \<Rightarrow> rand_read \<Rightarrow> bytes \<Rightarrow> (gerror, bytes) res" where
  "ecb_Encrypt b rnd data =
     (if data = [] then Err ErrEmptyMessagePayload
      else CryptBlocks (bc_Encrypt b) (PKCS5Padding data aesBlockSize))"

definition ecb_Decrypt :: "block_cipher \<Rightarrow> payload \<Rightarrow> (gerror, bytes) res" where
  "ecb_Decrypt b inp =
     (case inp of
        PNil \<Rightarrow> Err ErrNilInput
      | PBytes data \<Rightarrow> rbind (CryptBlocks (bc_Decrypt b) data) PKCS5UnPadding
      | _ \<Rightarrow> Err ErrInvalidInputType)"

text \<open>\<open>math.Mod\<close> keeps the sign of its first argument; the callers pass no negative length.\<close>

definition ecb_GetLength :: "int \<Rightarrow> int" where
  "ecb_GetLength plainLength = plainLength + 16 - sgn plainLength * (\<bar>plainLength\<bar> mod 16)"

definition NewAESECB :: "new_cipher \<Rightarrow> bytes \<Rightarrow> (gerror, encryptor) res" where
  "NewAESECB aes key =
     (case aes key of
        None \<Rightarrow> Panic
      | Some b \<Rightarrow> Ok \<lparr>e_Decrypt = ecb_Decrypt b, e_Encrypt = ecb_Encrypt b,
          e_GetLength = ecb_GetLength, e_key = key\<rparr>)"

section \<open>AES in GCM mode\<close>

text \<open>\<open>Seal nonce plain\<close> and \<open>Open nonce sealed\<close>, without additional data.\<close>

record aead =
  gcm_Seal :: "bytes \<Rightarrow> bytes \<Rightarrow> bytes"
  gcm_Open :: "bytes \<Rightarrow> bytes \<Rightarrow> (gerror, bytes) res"
  gcm_NonceSize :: nat
  gcm_Overhead :: nat

type_synonym new_gcm = "bytes \<Rightarrow> aead option"

definition gcm_Encrypt :: "aead \<Rightarrow> rand_read \<Rightarrow> bytes \<Rightarrow> (gerror, bytes) res" where
  "gcm_Encrypt g rnd data =
     (if data = [] then Err ErrEmptyMessagePayload
      else rbind rnd (\<lambda>nonce. Ok (nonce @ gcm_Seal g nonce data)))"

definition gcm_Decrypt :: "aead \<Rightarrow> payload \<Rightarrow> (gerror, bytes) res" where
  \<comment> \<open>\<open>data[:nonceSize]\<close> panics on a slice shorter than the nonce\<close>
  "gcm_Decrypt g inp =
     (case inp of
        PNil \<Rightarrow> Err ErrNilInput
      | PBytes data \<Rightarrow>
          if length data < gcm_NonceSize g then Panic
          else gcm_Open g (take (gcm_NonceSize g) data) (drop (gcm_NonceSize g) data)
      | _ \<Rightarrow> Err ErrInvalidInputType)"

definition gcm_GetLength :: "aead \<Rightarrow> int \<Rightarrow> int" where
  "gcm_GetLength g plainLength = plainLength + int (gcm_NonceSize g) + int (gcm_Overhead g)"

definition NewAESGCM :: "new_gcm \<Rightarrow> bytes \<Rightarrow> (gerror, encryptor) res" where
  "NewAESGCM gcm key =
     (case gcm key of
        None \<Rightarrow> Panic
      | Some g \<Rightarrow> Ok \<lparr>e_Decrypt = gcm_Decrypt g, e_Encrypt = gcm_Encrypt g,
          e_GetLength = gcm_GetLength g, e_key = key\<rparr>)"

section \<open>Choosing an encryptor\<close>

definition KeySize :: "string \<Rightarrow> (gerror, nat) res" where
  "KeySize m =
     (if m = ''none'' then Ok 0
      else if m = ''aes-256-ecb'' \<or> m = ''aes-256-gcm'' then Ok 32
      else Panic)"

definition GetEncryptor :: "new_cipher \<Rightarrow> new_gcm \<Rightarrow> bytes \<Rightarrow> string \<Rightarrow> (gerror, encryptor) res" where
  "GetEncryptor aes gcm key m =
     (if m = ''none'' then Ok (NewEmpty key)
      else if m = ''aes-256-ecb'' then NewAESECB aes key
      else if m = ''aes-256-gcm'' then NewAESGCM gcm key
      else Panic)"

section \<open>The contract of an encryptor\<close>

text \<open>
  What the transports rely on: with random bytes at hand a non-empty plain text of at most
  \<open>bound\<close> bytes is encrypted to a text of the announced length, and decrypted again.
\<close>

definition rand_ok :: "nat \<Rightarrow> rand_read \<Rightarrow> bool" where
  "rand_ok n rnd \<longleftrightarrow> (\<exists>nonce. rnd = Ok nonce \<and> length nonce = n)"

locale encryptor_laws =
  fixes e :: encryptor and nonceSize :: nat
  assumes encrypt_decrypt:
      "rand_ok nonceSize rnd \<Longrightarrow> data \<noteq> [] \<Longrightarrow>
         \<exists>c. e_Encrypt e rnd data = Ok c \<and> e_Decrypt e (PBytes c) = Ok data
           \<and> int (length c) = e_GetLength e (int (length data))"
    and length_above: "0 \<le> n \<Longrightarrow> n \<le> e_GetLength e n"
    and length_mono: "0 \<le> m \<Longrightarrow> m \<le> n \<Longrightarrow> e_GetLength e m \<le> e_GetLength e n"
begin

lemma decrypt_encrypted:
  assumes "rand_ok nonceSize rnd" "data \<noteq> []" "e_Encrypt e rnd data = Ok c"
  shows "e_Decrypt e (PBytes c) = Ok data"
    and "int (length c) = e_GetLength e (int (length data))"
    and "c \<noteq> []"
  using encrypt_decrypt [OF assms(1,2)] length_above [of "int (length data)"] assms(2,3) by auto

lemma encrypted_within:
  assumes "rand_ok nonceSize rnd" "data \<noteq> []" "e_Encrypt e rnd data = Ok c" "int (length data) \<le> n"
  shows "int (length c) \<le> e_GetLength e n"
  using decrypt_encrypted(2) [OF assms(1-3)] length_mono [OF _ assms(4)] by simp

end

interpretation empty: encryptor_laws "NewEmpty key" n for key n
  by unfold_locales (simp_all add: NewEmpty_def empty_Encrypt_def empty_Decrypt_def empty_GetLength_def)

section \<open>ECB satisfies the contract\<close>

text \<open>The law of a block cipher: both directions keep a block's length, and invert each other.\<close>

definition block_law :: "block_cipher \<Rightarrow> bool" where
  "block_law b \<longleftrightarrow> (\<forall>x. length x = aesBlockSize \<longrightarrow>
     length (bc_Encrypt b x) = aesBlockSize \<and> bc_Decrypt b (bc_Encrypt b x) = x)"

lemma crypt_loop_Nil [simp]: "crypt_loop f [] = []"
  by (simp add: crypt_loop.simps)

lemma crypt_loop_block:
  "length x = aesBlockSize \<Longrightarrow> crypt_loop f (x @ xs) = f x @ crypt_loop f xs"
  by (subst crypt_loop.simps) (auto simp: take_append drop_append)

lemma take_block: "length src mod aesBlockSize = 0 \<Longrightarrow> src \<noteq> [] \<Longrightarrow> length (take aesBlockSize src) = aesBlockSize"
  by (cases "length src < 16") auto

lemma drop_block: "length src mod aesBlockSize = 0 \<Longrightarrow> src \<noteq> [] \<Longrightarrow> length (drop aesBlockSize src) mod aesBlockSize = 0"
  using take_block [of src] by (simp add: le_mod_geq [symmetric])

lemma crypt_loop_inverse:
  assumes "block_law b" "length src mod aesBlockSize = 0"
  shows "length (crypt_loop (bc_Encrypt b) src) = length src
    \<and> crypt_loop (bc_Decrypt b) (crypt_loop (bc_Encrypt b) src) = src"
  using assms(2)
proof (induction src rule: length_induct)
  case (1 src)
  show ?case
  proof (cases "src = []")
    case False
    define x xs where "x = take aesBlockSize src" and "xs = drop aesBlockSize src"
    have src: "src = x @ xs" by (simp add: x_def xs_def)
    have x: "length x = aesBlockSize" unfolding x_def using 1(2) False by (rule take_block)
    have "length xs mod aesBlockSize = 0" unfolding xs_def using 1(2) False by (rule drop_block)
    moreover have "length xs < length src" using x by (simp add: src)
    ultimately have IH: "length (crypt_loop (bc_Encrypt b) xs) = length xs"
      "crypt_loop (bc_Decrypt b) (crypt_loop (bc_Encrypt b) xs) = xs"
      using 1(1) [rule_format, of xs] by simp_all
    have law: "length (bc_Encrypt b x) = aesBlockSize" "bc_Decrypt b (bc_Encrypt b x) = x"
      using assms(1) x by (auto simp: block_law_def)
    show ?thesis
      unfolding src crypt_loop_block [OF x] crypt_loop_block [OF law(1)] law(2) IH(2)
      using law(1) IH(1) x by (simp only: length_append)
  qed simp
qed

lemma length_PKCS5Padding:
  "length (PKCS5Padding data aesBlockSize) = length data + 16 - length data mod 16"
  by (simp add: PKCS5Padding_def Let_def)

lemma length_PKCS5Padding_mod: "length (PKCS5Padding data aesBlockSize) mod aesBlockSize = 0"
proof -
  have "length data + 16 - length data mod 16 = 16 * (length data div 16) + 16"
    by (simp add: minus_mod_eq_mult_div [symmetric])
  then show ?thesis unfolding length_PKCS5Padding by simp
qed

lemma PKCS5_inverse: "PKCS5UnPadding (PKCS5Padding data aesBlockSize) = Ok data"
proof -
  let ?p = "16 - length data mod 16"
  have p: "0 < ?p" "?p < 256" by simp_all
  have "unat (of_nat ?p :: u8) = ?p" using p(2) by (subst unat_of_nat) simp
  moreover have "last (data @ replicate ?p (of_nat ?p :: u8)) = of_nat ?p"
    using p(1) by (simp add: last_replicate)
  ultimately show ?thesis
    using p(1) by (simp add: PKCS5UnPadding_def PKCS5Padding_def Let_def)
qed

lemma ecb_GetLength_nat: "ecb_GetLength (int n) = int (n + 16 - n mod 16)"
  by (cases "n = 0") (auto simp: ecb_GetLength_def zmod_int of_nat_diff trans_le_add2)

lemma ecb_laws:
  assumes "block_law b" "aes key = Some b" "NewAESECB aes key = Ok e"
  shows "encryptor_laws e n"
proof
  have e: "e_Encrypt e = ecb_Encrypt b" "e_Decrypt e = ecb_Decrypt b" "e_GetLength e = ecb_GetLength"
    using assms(2,3) by (auto simp: NewAESECB_def)
  fix rnd :: rand_read and data :: bytes
  assume "data \<noteq> []"
  let ?c = "crypt_loop (bc_Encrypt b) (PKCS5Padding data aesBlockSize)"
  note inv = crypt_loop_inverse [OF assms(1) length_PKCS5Padding_mod, of data]
  have len: "length ?c mod aesBlockSize = 0" using inv length_PKCS5Padding_mod by simp
  have "e_Encrypt e rnd data = Ok ?c"
    using \<open>data \<noteq> []\<close> length_PKCS5Padding_mod by (simp add: e ecb_Encrypt_def CryptBlocks_def)
  moreover have "e_Decrypt e (PBytes ?c) = Ok data"
    using len inv PKCS5_inverse by (simp add: e ecb_Decrypt_def CryptBlocks_def)
  moreover have "int (length ?c) = e_GetLength e (int (length data))"
    using inv length_PKCS5Padding [of data] by (simp only: e ecb_GetLength_nat)
  ultimately show "\<exists>c. e_Encrypt e rnd data = Ok c \<and> e_Decrypt e (PBytes c) = Ok data
      \<and> int (length c) = e_GetLength e (int (length data))" by blast
next
  have e: "e_GetLength e = ecb_GetLength" using assms(2,3) by (auto simp: NewAESECB_def)
  show "n \<le> e_GetLength e n" if "0 \<le> n" for n
    using that by (cases n) (auto simp: e ecb_GetLength_nat)
  show "e_GetLength e m \<le> e_GetLength e n" if "0 \<le> m" "m \<le> n" for m n
  proof -
    have "ecb_GetLength k = 16 * (k div 16) + 16" if "0 \<le> k" for k
      using that by (cases "k = 0") (simp_all add: ecb_GetLength_def minus_mod_eq_mult_div [symmetric])
    then show ?thesis using that by (simp add: e zdiv_mono1)
  qed
qed

section \<open>GCM satisfies the contract\<close>

definition aead_law :: "aead \<Rightarrow> bool" where
  "aead_law g \<longleftrightarrow> (\<forall>nonce data. length nonce = gcm_NonceSize g \<longrightarrow>
     gcm_Open g nonce (gcm_Seal g nonce data) = Ok data
     \<and> length (gcm_Seal g nonce data) = length data + gcm_Overhead g)"

lemma gcm_laws:
  assumes "aead_law g" "gcm key = Some g" "NewAESGCM gcm key = Ok e"
  shows "encryptor_laws e (gcm_NonceSize g)"
proof
  have e: "e_Encrypt e = gcm_Encrypt g" "e_Decrypt e = gcm_Decrypt g" "e_GetLength e = gcm_GetLength g"
    using assms(2,3) by (auto simp: NewAESGCM_def)
  show "\<exists>c. e_Encrypt e rnd data = Ok c \<and> e_Decrypt e (PBytes c) = Ok data
      \<and> int (length c) = e_GetLength e (int (length data))"
    if "rand_ok (gcm_NonceSize g) rnd" "data \<noteq> []" for rnd data
  proof -
    obtain nonce where nonce: "rnd = Ok nonce" "length nonce = gcm_NonceSize g"
      using \<open>rand_ok (gcm_NonceSize g) rnd\<close> by (auto simp: rand_ok_def)
    then have "gcm_Open g nonce (gcm_Seal g nonce data) = Ok data
        \<and> length (gcm_Seal g nonce data) = length data + gcm_Overhead g"
      using assms(1) by (simp add: aead_law_def)
    then show ?thesis
      using nonce \<open>data \<noteq> []\<close>
      by (intro exI [of _ "nonce @ gcm_Seal g nonce data"])
        (simp add: e gcm_Encrypt_def gcm_Decrypt_def gcm_GetLength_def)
  qed
  show "n \<le> e_GetLength e n" for n by (simp add: e gcm_GetLength_def)
  show "e_GetLength e m \<le> e_GetLength e n" if "m \<le> n" for m n using that by (simp add: e gcm_GetLength_def)
qed

end
