(* ===== verification/ServerState.thy ===== *)
theory ServerState
  imports Merger Encryptors
begin

text \<open>
  The state of the server's use case (\<open>business/usecase/server.go\<close>) and the operations on its
  tables: sessions (\<open>server.sessions.go\<close>), tunnel interfaces (\<open>server.interfaces.go\<close>) and
  connections (\<open>server.connections.go\<close>). The two locks are left out: an operation is one
  step. What the operations hand to other components (interfaces closed, instances stopped,
  sessions dropped) is kept in lists.
\<close>

section \<open>State\<close>

record statistic =
  st_IncomingBytes :: u64
  st_OutgoingBytes :: u64
  st_IncomingFrames :: u64
  st_OutgoingFrames :: u64
  st_IncomingRateBytes :: real
  st_OutgoingRateBytes :: real
  st_IncomingRateFrames :: real
  st_OutgoingRateFrames :: real

definition no_statistic :: statistic where
  "no_statistic = \<lparr>st_IncomingBytes = 0, st_OutgoingBytes = 0, st_IncomingFrames = 0, st_OutgoingFrames = 0,
     st_IncomingRateBytes = 0, st_OutgoingRateBytes = 0, st_IncomingRateFrames = 0, st_OutgoingRateFrames = 0\<rparr>"

record user =
  us_Name :: bytes
  us_Password :: bytes

record if_ip =
  ifip_ServerLocal :: bytes
  ifip_ServerRemote :: bytes
  ifip_ClientLocal :: bytes
  ifip_ClientRemote :: bytes

text \<open>An interface: the name of its device, the addresses, the connections its packets go out on.\<close>

record server_interface =
  si_Name :: string
  si_IP :: if_ip
  si_Connections :: "connection list"
  si_SessionID :: u32

record session_info =
  ss_IfName :: string
  ss_UserName :: bytes
  ss_ClientID :: bytes
  ss_Stat :: statistic

record server_conn =
  sc_ifName :: string
  sc_encryptor :: "encryptor option"
  sc_sessionID :: u32
  sc_port :: u16
  sc_protocol :: u8
  sc_compressionType :: u8
  sc_compressionLevel :: u8

datatype stream_merger = MergerV1 v1_merger | MergerV2 v2_merger

text \<open>\<open>AddrMin\<close> is what \<open>net.ParseIP\<close> makes of the configured address, empty for nil.\<close>

record server_config =
  cf_Users :: "user list"
  cf_Network :: network_config
  cf_AddrMin :: bytes
  cf_Encryption :: string

text \<open>
  \<open>su_authRequest\<close> and \<open>su_handshake\<close> are the two objects of the table
  \<open>MessageTypePayload\<close>, into which every request is decoded.
\<close>

record server_uc =
  su_cfg :: server_config
  su_users :: "(bytes, user) gomap"
  su_connections :: "(bytes, server_conn) gomap"
  su_interfaces :: "(string, server_interface) gomap"
  su_sessions :: "(u32, session_info) gomap"
  su_client2session :: "(bytes, u32) gomap"
  su_merger :: stream_merger
  su_portSelectionStrategy :: u8
  su_authRequest :: auth_request
  su_handshake :: bytes
  su_statCh :: "(u32 \<times> statistic) list"
  su_dropped :: "u32 list" \<comment> \<open>\<open>DropSession\<close> of the network server\<close>
  su_stopped :: "(nat option \<times> nat option) list" \<comment> \<open>instances told to stop\<close>
  su_closed :: "string list" \<comment> \<open>interfaces closed\<close>
  su_written :: "(string \<times> payload) list" \<comment> \<open>writes to the devices\<close>

definition initUsers :: "server_config \<Rightarrow> (bytes, user) gomap" where
  "initUsers cfg = fold (\<lambda>u m. mput (us_Name u) u m) (cf_Users cfg) []"

definition NewServerUseCase :: "server_config \<Rightarrow> stream_merger \<Rightarrow> server_uc" where
  \<comment> \<open>with \<open>initUsers\<close> of \<open>Start\<close>\<close>
  "NewServerUseCase cfg mg =
     \<lparr>su_cfg = cfg, su_users = initUsers cfg, su_connections = [], su_interfaces = [], su_sessions = [],
      su_client2session = [], su_merger = mg,
      su_portSelectionStrategy = GetPortSelectionStrategy (nc_PortSelectionStrategy (cf_Network cfg)),
      su_authRequest = \<lparr>ar_ClientID = [], ar_Name = [], ar_Password = [], ar_CompressionType = 0, ar_CompressionLevel = 0\<rparr>,
      su_handshake = [], su_statCh = [], su_dropped = [], su_stopped = [], su_closed = [], su_written = []\<rparr>"

definition onConfigChanged :: "server_config \<Rightarrow> server_uc \<Rightarrow> server_uc" where
  "onConfigChanged cfg uc = uc\<lparr>su_cfg := cfg, su_users := initUsers cfg\<rparr>"

text \<open>The calls through the interface \<open>StreamMerger\<close>.\<close>

definition merger_CreateStream :: "u32 \<Rightarrow> stream_merger \<Rightarrow> (gerror, unit) res \<times> stream_merger" where
  "merger_CreateStream sid mg =
     (case mg of
        MergerV1 m \<Rightarrow> (case v1_CreateStream sid m of (r, m1) \<Rightarrow> (r, MergerV1 m1))
      | MergerV2 m \<Rightarrow> (case v2_CreateStream sid m of (r, m1) \<Rightarrow> (r, MergerV2 m1)))"

definition merger_DeleteStream :: "u32 \<Rightarrow> stream_merger \<Rightarrow> stream_merger" where
  "merger_DeleteStream sid mg =
     (case mg of MergerV1 m \<Rightarrow> MergerV1 (v1_DeleteStream sid m) | MergerV2 m \<Rightarrow> MergerV2 (v2_DeleteStream sid m))"

section \<open>Sessions\<close>

text \<open>
  \<open>createSession\<close> draws numbers until one is free: \<open>draws\<close> is what \<open>r.Intn\<close> draws, and
  \<open>None\<close> stands for a loop that has not ended with the draws given.
\<close>

definition session_number :: "nat \<Rightarrow> u32" where
  "session_number draw = of_nat (draw mod (4294967295 - 1) + 1)"

fun free_session :: "nat list \<Rightarrow> (u32, session_info) gomap \<Rightarrow> u32 option" where
  "free_session [] sessions = None"
| "free_session (d # draws) sessions =
     (if map_of sessions (session_number d) = None then Some (session_number d) else free_session draws sessions)"

definition createSession :: "nat list \<Rightarrow> bytes \<Rightarrow> bytes \<Rightarrow> server_uc \<Rightarrow> (u32 \<times> server_uc) option" where
  "createSession draws clientID userName uc =
     (case map_of (su_client2session uc) clientID of
        Some sid \<Rightarrow> Some (sid, uc)
      | None \<Rightarrow>
          map_option (\<lambda>sid. (sid, uc\<lparr>su_sessions := mput sid \<lparr>ss_IfName = '''', ss_UserName = userName,
              ss_ClientID = clientID, ss_Stat = no_statistic\<rparr> (su_sessions uc),
            su_client2session := mput clientID sid (su_client2session uc)\<rparr>))
            (free_session draws (su_sessions uc)))"

definition checkSession :: "u32 \<Rightarrow> bytes \<Rightarrow> bytes \<Rightarrow> server_uc \<Rightarrow> gerror option" where
  "checkSession sid clientID userName uc =
     (case map_of (su_sessions uc) sid of
        None \<Rightarrow> Some ErrSessionNotExists
      | Some s \<Rightarrow> if ss_ClientID s \<noteq> clientID \<or> ss_UserName s \<noteq> userName then Some ErrUnauthorized else None)"

text \<open>
  \<open>dropSession\<close> returns early when the interface of the session is gone, and leaves the
  session where it is.
\<close>

definition dropSession :: "u32 \<Rightarrow> server_uc \<Rightarrow> (gerror, server_uc) res" where
  "dropSession sid uc =
     (case map_of (su_sessions uc) sid of
        None \<Rightarrow> Panic
      | Some s \<Rightarrow>
          (case map_of (su_interfaces uc) (ss_IfName s) of
             None \<Rightarrow> Ok uc
           | Some ifc \<Rightarrow>
               Ok (uc\<lparr>su_stopped := su_stopped uc @ map (\<lambda>c. (c_Retry c, c_Ack c)) (si_Connections ifc),
                      su_closed := su_closed uc @ [si_Name ifc],
                      su_interfaces := mdel (ss_IfName s) (su_interfaces uc),
                      su_client2session := mdel (ss_ClientID s) (su_client2session uc),
                      su_sessions := mdel sid (su_sessions uc),
                      su_merger := merger_DeleteStream sid (su_merger uc),
                      su_dropped := List.insert sid (su_dropped uc)\<rparr>)))"

definition dropSessionByID :: "u32 \<Rightarrow> server_uc \<Rightarrow> (gerror, server_uc) res" where
  "dropSessionByID sid uc =
     (case map_of (su_sessions uc) sid of None \<Rightarrow> Err ErrSessionNotExists | Some _ \<Rightarrow> dropSession sid uc)"

definition dropSessionByClientID :: "bytes \<Rightarrow> server_uc \<Rightarrow> (gerror, server_uc) res" where
  "dropSessionByClientID clientID uc =
     (case map_of (su_client2session uc) clientID of None \<Rightarrow> Err ErrSessionNotExists | Some sid \<Rightarrow> dropSession sid uc)"

section \<open>Interfaces\<close>

definition int2ip :: "u32 \<Rightarrow> bytes" where
  "int2ip nn = be32 nn"

definition ip2int :: "bytes \<Rightarrow> (gerror, u32) res" where
  \<comment> \<open>\<open>binary.BigEndian.Uint32(ip.To4())\<close> panics on fewer than four bytes\<close>
  "ip2int ip = deref (unbe32 (To4 ip))"

text \<open>The highest client address in use; the loop starts from 0 and passes over an address 0.\<close>

fun last_client_ip :: "server_interface list \<Rightarrow> u32 \<Rightarrow> bool \<Rightarrow> (gerror, u32 \<times> bool) res" where
  "last_client_ip [] maxIP found = Ok (maxIP, found)"
| "last_client_ip (ifc # ifcs) maxIP found =
     rbind (ip2int (ifip_ClientRemote (si_IP ifc))) (\<lambda>ip.
       if ip > maxIP then last_client_ip ifcs ip True else last_client_ip ifcs maxIP found)"

definition getTunnelIP :: "server_uc \<Rightarrow> (gerror, if_ip) res" where
  "getTunnelIP uc =
     rbind (last_client_ip (map snd (su_interfaces uc)) 0 False) (\<lambda>(maxIP, found).
     rbind (ip2int (cf_AddrMin (su_cfg uc))) (\<lambda>addrMin.
       let fromIP = (if found then maxIP + 1 else addrMin)
       in Ok \<lparr>ifip_ServerLocal = int2ip fromIP, ifip_ServerRemote = int2ip (fromIP + 1),
              ifip_ClientLocal = int2ip (fromIP + 2), ifip_ClientRemote = int2ip (fromIP + 3)\<rparr>))"

text \<open>
  \<open>created\<close> is what creating the device answers: its name, or an error. For a session that has
  an interface the pointer from the table is returned, which is nil when the interface is gone.
\<close>

definition createInterface :: "(gerror, string) res \<Rightarrow> u32 \<Rightarrow> server_uc \<Rightarrow> (gerror, server_interface option) res \<times> server_uc" where
  "createInterface created sid uc =
     (let sess = map_of (su_sessions uc) sid
      in if (case sess of Some s \<Rightarrow> ss_IfName s \<noteq> '''' | None \<Rightarrow> False)
         then (Ok (map_of (su_interfaces uc) (ss_IfName (the sess))), uc)
         else (case getTunnelIP uc of
             Panic \<Rightarrow> (Panic, uc)
           | Err e \<Rightarrow> (Err e, uc)
           | Ok ip \<Rightarrow>
               (case created of
                  Panic \<Rightarrow> (Panic, uc)
                | Err e \<Rightarrow> (Err e, uc)
                | Ok ifName \<Rightarrow>
                    (let ic = \<lparr>si_Name = ifName, si_IP = ip, si_Connections = [], si_SessionID = sid\<rparr>;
                         uc1 = uc\<lparr>su_interfaces := mput ifName ic (su_interfaces uc)\<rparr>
                     in case sess of
                          None \<Rightarrow> (Panic, uc1)
                        | Some s \<Rightarrow> (Ok (Some ic), uc1\<lparr>su_sessions := mput sid (s\<lparr>ss_IfName := ifName\<rparr>) (su_sessions uc1)\<rparr>)))))"

definition getInterfaceByName :: "string \<Rightarrow> server_uc \<Rightarrow> server_interface option" where
  "getInterfaceByName ifName uc = map_of (su_interfaces uc) ifName"

text \<open>A connection of the same session, protocol and port is replaced, otherwise one is added.\<close>

fun replace_connection :: "server_conn \<Rightarrow> connection \<Rightarrow> connection list \<Rightarrow> connection list" where
  "replace_connection sc conn [] = [conn]"
| "replace_connection sc conn (cv # cs) =
     (if c_SessionID cv = sc_sessionID sc \<and> Connection_Protocol cv = sc_protocol sc \<and> c_Port cv = sc_port sc
      then conn # cs else cv # replace_connection sc conn cs)"

definition addInterfaceConnection :: "int \<Rightarrow> server_conn \<Rightarrow> connection \<Rightarrow> server_uc
    \<Rightarrow> (gerror, connection \<times> server_uc) res" where
  "addInterfaceConnection now sc conn uc =
     (case map_of (su_interfaces uc) (sc_ifName sc) of
        None \<Rightarrow> Err ErrInterfaceNotExists
      | Some ic \<Rightarrow>
          (let conn1 = conn\<lparr>c_CompressionType := sc_compressionType sc, c_CompressionLevel := sc_compressionLevel sc, c_CreatedAt := now\<rparr>
           in Ok (conn1, uc\<lparr>su_interfaces := mput (sc_ifName sc)
                (ic\<lparr>si_Connections := replace_connection sc conn1 (si_Connections ic)\<rparr>) (su_interfaces uc)\<rparr>)))"

definition getInterfaceConnection :: "nat \<Rightarrow> packet_info \<Rightarrow> server_uc \<Rightarrow> (gerror, server_interface \<times> connection) res" where
  \<comment> \<open>\<open>draw\<close> is what \<open>rand.Intn\<close> draws\<close>
  "getInterfaceConnection draw packet uc =
     (case map_of (su_interfaces uc) (pi_IfName packet) of
        None \<Rightarrow> Err ErrInterfaceNotExists
      | Some ic \<Rightarrow>
          (let n = length (si_Connections ic)
           in if n = 0 then Err ErrConnectionNotExists
              else if su_portSelectionStrategy uc = PortSelectionStrategyRandom then Ok (ic, si_Connections ic ! (draw mod n))
              else if su_portSelectionStrategy uc = PortSelectionStrategyHash then
                Ok (ic, si_Connections ic ! (unat (pi_Endpoint packet) mod n))
              else Err ErrNoPortSelectionStrategy))"

section \<open>Connections\<close>

definition addConnection :: "connection \<Rightarrow> server_conn \<Rightarrow> server_uc \<Rightarrow> (gerror, server_uc) res" where
  "addConnection conn sc uc =
     rbind (Connection_Key conn) (\<lambda>k.
       Ok (uc\<lparr>su_connections := mput k sc
         (filter (\<lambda>(ck, cv). \<not> (sc_sessionID cv = sc_sessionID sc \<and> sc_protocol cv = sc_protocol sc \<and> sc_port cv = sc_port sc))
           (su_connections uc))\<rparr>))"

definition getConnection :: "connection \<Rightarrow> server_uc \<Rightarrow> (gerror, server_conn option) res" where
  "getConnection conn uc = rbind (Connection_Key conn) (\<lambda>k. Ok (map_of (su_connections uc) k))"

text \<open>\<open>slices.IndexFunc\<close> with the keys compared.\<close>

fun index_of_key :: "bytes \<Rightarrow> connection list \<Rightarrow> (gerror, nat option) res" where
  "index_of_key k [] = Ok None"
| "index_of_key k (c # cs) =
     rbind (Connection_Key c) (\<lambda>k'.
       if k' = k then Ok (Some 0) else rbind (index_of_key k cs) (\<lambda>i. Ok (map_option Suc i)))"

definition remove_at :: "nat option \<Rightarrow> 'a list \<Rightarrow> 'a list" where
  "remove_at i xs = (case i of None \<Rightarrow> xs | Some k \<Rightarrow> take k xs @ drop (Suc k) xs)"

text \<open>With the last connection of an interface goes the session of the connection given.\<close>

definition close_interface :: "string \<Rightarrow> server_interface \<Rightarrow> u32 \<Rightarrow> server_uc \<Rightarrow> server_uc" where
  "close_interface ifName ifc sid uc =
     uc\<lparr>su_merger := merger_DeleteStream sid (su_merger uc),
        su_client2session := (case map_of (su_sessions uc) sid of
            Some sess \<Rightarrow> mdel (ss_ClientID sess) (su_client2session uc)
          | None \<Rightarrow> su_client2session uc),
        su_sessions := mdel sid (su_sessions uc),
        su_dropped := List.insert sid (su_dropped uc),
        su_closed := su_closed uc @ [si_Name ifc],
        su_interfaces := mdel ifName (su_interfaces uc)\<rparr>"

definition removeConnection :: "connection \<Rightarrow> server_uc \<Rightarrow> (gerror, server_uc) res" where
  "removeConnection conn uc =
     rbind (Connection_Key conn) (\<lambda>k.
       case map_of (su_connections uc) k of
         None \<Rightarrow> Ok uc
       | Some c \<Rightarrow>
           (let uc1 = uc\<lparr>su_connections := mdel k (su_connections uc)\<rparr>
            in if sc_ifName c = '''' then Ok uc1
               else case map_of (su_interfaces uc1) (sc_ifName c) of
                 None \<Rightarrow> Ok uc1
               | Some ifc \<Rightarrow>
                   rbind (index_of_key k (si_Connections ifc)) (\<lambda>i.
                     let ifc1 = ifc\<lparr>si_Connections := remove_at i (si_Connections ifc)\<rparr>;
                         uc2 = uc1\<lparr>su_interfaces := mput (sc_ifName c) ifc1 (su_interfaces uc1)\<rparr>
                     in if si_Connections ifc1 = [] then Ok (close_interface (sc_ifName c) ifc1 (c_SessionID conn) uc2)
                        else Ok uc2)))"

definition setConnectionEncryptor :: "connection \<Rightarrow> encryptor \<Rightarrow> server_uc \<Rightarrow> (gerror, server_uc) res" where
  "setConnectionEncryptor conn enc uc =
     rbind (Connection_Key conn) (\<lambda>k.
       case map_of (su_connections uc) k of
         None \<Rightarrow> Panic
       | Some c \<Rightarrow> Ok (uc\<lparr>su_connections := mput k (c\<lparr>sc_encryptor := Some enc\<rparr>) (su_connections uc)\<rparr>))"

definition getConnectionEncryptor :: "connection \<Rightarrow> server_uc \<Rightarrow> (gerror, encryptor option) res" where
  "getConnectionEncryptor conn uc =
     rbind (Connection_Key conn) (\<lambda>k.
       case map_of (su_connections uc) k of
         None \<Rightarrow> Err ErrConnectionNotExists
       | Some c \<Rightarrow> Ok (sc_encryptor c))"

text \<open>The error only chooses the level of the log.\<close>

definition disconnect :: "connection \<Rightarrow> gerror option \<Rightarrow> server_uc \<Rightarrow> (gerror, server_uc) res" where
  "disconnect conn err uc = removeConnection conn uc"

section \<open>Statistics\<close>

definition addSessionStat :: "u32 \<Rightarrow> statistic \<Rightarrow> server_uc \<Rightarrow> server_uc" where
  "addSessionStat sid stat uc = uc\<lparr>su_statCh := su_statCh uc @ [(sid, no_statistic\<lparr>
     st_IncomingBytes := st_IncomingBytes stat, st_OutgoingBytes := st_OutgoingBytes stat,
     st_IncomingFrames := st_IncomingFrames stat, st_OutgoingFrames := st_OutgoingFrames stat\<rparr>)]\<rparr>"

definition stat_add :: "statistic \<Rightarrow> statistic \<Rightarrow> statistic" where
  "stat_add a b = a\<lparr>st_IncomingBytes := st_IncomingBytes a + st_IncomingBytes b,
     st_OutgoingBytes := st_OutgoingBytes a + st_OutgoingBytes b,
     st_IncomingFrames := st_IncomingFrames a + st_IncomingFrames b,
     st_OutgoingFrames := st_OutgoingFrames a + st_OutgoingFrames b\<rparr>"

text \<open>
  The goroutine of \<open>sessionStat\<close>: it adds up what comes through the channel, and at every
  tick adds the sums to the sessions, with the rates over the interval in seconds.
\<close>

definition stat_receive :: "u32 \<times> statistic \<Rightarrow> (u32, statistic) gomap \<Rightarrow> (u32, statistic) gomap" where
  "stat_receive = (\<lambda>(sid, s) stat. mput sid (stat_add (case map_of stat sid of Some a \<Rightarrow> a | None \<Rightarrow> no_statistic) s) stat)"

definition stat_rates :: "real \<Rightarrow> statistic \<Rightarrow> statistic \<Rightarrow> statistic" where
  "stat_rates interval s a = a\<lparr>
     st_IncomingRateBytes := real (unat (st_IncomingBytes s)) / interval,
     st_OutgoingRateBytes := real (unat (st_OutgoingBytes s)) / interval,
     st_IncomingRateFrames := real (unat (st_IncomingFrames s)) / interval,
     st_OutgoingRateFrames := real (unat (st_OutgoingFrames s)) / interval\<rparr>"

definition stat_flush :: "real \<Rightarrow> u32 \<times> statistic \<Rightarrow> (u32, session_info) gomap \<Rightarrow> (u32, session_info) gomap" where
  "stat_flush interval = (\<lambda>(sid, s) sessions.
     case map_of sessions sid of
       None \<Rightarrow> sessions
     | Some sess \<Rightarrow> mput sid (sess\<lparr>ss_Stat := stat_rates interval s (stat_add (ss_Stat sess) s)\<rparr>) sessions)"

datatype stat_event = StatTake | StatTick

definition sessionStat_step :: "real \<Rightarrow> stat_event \<Rightarrow> (u32, statistic) gomap \<times> server_uc \<Rightarrow> (u32, statistic) gomap \<times> server_uc" where
  "sessionStat_step interval ev st =
     (case st of (stat, uc) \<Rightarrow>
      case ev of
        StatTake \<Rightarrow>
          (case su_statCh uc of
             [] \<Rightarrow> st
           | x # xs \<Rightarrow> (stat_receive x stat, uc\<lparr>su_statCh := xs\<rparr>))
      | StatTick \<Rightarrow> ([], uc\<lparr>su_sessions := fold (stat_flush interval) stat (su_sessions uc)\<rparr>))"

end
