(* ===== verification/Compression.thy ===== *)
theory Compression
  imports Entity
begin

text \<open>
  The compressor of \<open>pkg/compression/compress.go\<close>. The three libraries (lz4, lzo, zstd) are a
  record of parameters; an error of \<open>lz4.CompressBlock\<close> is \<open>None\<close>, and its result is the
  part \<open>buf[:n]\<close> that was written.
\<close>

section \<open>Model\<close>

record compress_lib =
  lz4_CompressBlock :: "bytes \<Rightarrow> bytes option"
  lz4_UncompressBlock :: "bytes \<Rightarrow> int \<Rightarrow> (gerror, bytes) res" \<comment> \<open>the source, the size of the target\<close>
  lzo_Compress1X :: "bytes \<Rightarrow> bytes"
  lzo_Decompress1X :: "bytes \<Rightarrow> int \<Rightarrow> int \<Rightarrow> (gerror, bytes) res"
  zstd_EncodeAll :: "u8 \<Rightarrow> bytes \<Rightarrow> bytes"
  zstd_DecodeAll :: "bytes \<Rightarrow> (gerror, bytes) res"

record compressor =
  cmp_PayloadSize :: int
  cmp_lib :: compress_lib
  cmp_levels :: "u8 list" \<comment> \<open>the levels \<open>New\<close> makes an encoder for\<close>

definition new_compressor :: "compress_lib \<Rightarrow> int \<Rightarrow> compressor" where
  "new_compressor lib payloadSize =
     \<lparr>cmp_PayloadSize = payloadSize, cmp_lib = lib, cmp_levels = [1, 2, 3, 4]\<rparr>"

definition CompressLZ4 :: "compressor \<Rightarrow> bytes \<Rightarrow> bytes \<times> bool" where
  "CompressLZ4 c inp =
     (case lz4_CompressBlock (cmp_lib c) inp of
        None \<Rightarrow> (inp, False)
      | Some buf \<Rightarrow> if length buf \<ge> length inp then (inp, False) else (buf, True))"

definition DecompressLZ4 :: "compressor \<Rightarrow> bytes \<Rightarrow> (gerror, bytes) res" where
  "DecompressLZ4 c inp = lz4_UncompressBlock (cmp_lib c) inp (cmp_PayloadSize c)"

definition CompressLZO :: "compressor \<Rightarrow> bytes \<Rightarrow> bytes \<times> bool" where
  "CompressLZO c inp =
     (let out = lzo_Compress1X (cmp_lib c) inp
      in if length out \<ge> length inp then (inp, False) else (out, True))"

definition DecompressLZO :: "compressor \<Rightarrow> bytes \<Rightarrow> (gerror, bytes) res" where
  "DecompressLZO c inp = lzo_Decompress1X (cmp_lib c) inp (int (length inp)) (cmp_PayloadSize c)"

text \<open>A level without an encoder would be a nil dereference.\<close>

definition CompressZSTD :: "compressor \<Rightarrow> bytes \<Rightarrow> u8 \<Rightarrow> (gerror, bytes \<times> bool) res" where
  "CompressZSTD c inp level =
     (let level = (if level < 1 \<or> level > 4 then 2 else level)
      in if level \<in> set (cmp_levels c) then Ok (zstd_EncodeAll (cmp_lib c) level inp, True) else Panic)"

definition DecompressZSTD :: "compressor \<Rightarrow> bytes \<Rightarrow> (gerror, bytes) res" where
  "DecompressZSTD c inp = zstd_DecodeAll (cmp_lib c) inp"

section \<open>Round trips\<close>

text \<open>
  What the libraries document: decompression undoes compression, given room for the result,
  and only an empty text may be compressed to an empty one.
\<close>

definition compress_law :: "compress_lib \<Rightarrow> int \<Rightarrow> bool" where
  "compress_law lib psize \<longleftrightarrow>
     (\<forall>x. int (length x) \<le> psize \<longrightarrow>
        (\<forall>y. lz4_CompressBlock lib x = Some y \<longrightarrow> lz4_UncompressBlock lib y psize = Ok x \<and> (y = [] \<longrightarrow> x = []))
      \<and> (\<forall>y. lzo_Compress1X lib x = y \<longrightarrow> lzo_Decompress1X lib y (int (length y)) psize = Ok x \<and> (y = [] \<longrightarrow> x = []))
      \<and> (\<forall>l y. zstd_EncodeAll lib l x = y \<longrightarrow> zstd_DecodeAll lib y = Ok x \<and> (y = [] \<longrightarrow> x = [])))"

lemma lz4_roundtrip:
  assumes "compress_law (cmp_lib c) (cmp_PayloadSize c)" "int (length x) \<le> cmp_PayloadSize c"
  shows "CompressLZ4 c x = (y, True) \<Longrightarrow> DecompressLZ4 c y = Ok x \<and> (y = [] \<longrightarrow> x = [])"
    and "CompressLZ4 c x = (y, False) \<Longrightarrow> y = x"
    and "length (fst (CompressLZ4 c x)) \<le> length x"
  using assms by (auto simp: CompressLZ4_def DecompressLZ4_def compress_law_def split: option.splits if_splits)

lemma lzo_roundtrip:
  assumes "compress_law (cmp_lib c) (cmp_PayloadSize c)" "int (length x) \<le> cmp_PayloadSize c"
  shows "CompressLZO c x = (y, True) \<Longrightarrow> DecompressLZO c y = Ok x \<and> (y = [] \<longrightarrow> x = [])"
    and "CompressLZO c x = (y, False) \<Longrightarrow> y = x"
    and "length (fst (CompressLZO c x)) \<le> length x"
  using assms by (auto simp: CompressLZO_def DecompressLZO_def compress_law_def Let_def split: if_splits)

lemma level_range: "\<not> level < 1 \<Longrightarrow> \<not> 4 < level \<Longrightarrow> level \<in> {1, 2, 3, 4}" for level :: u8
proof -
  assume "\<not> level < 1" "\<not> 4 < level"
  then have "1 \<le> unat level \<and> unat level \<le> 4"
    by (simp add: not_less word_le_nat_alt Suc_le_eq unat_gt_0)
  then have "unat level \<in> {1, 2, 3, 4}" by (simp, linarith)
  then have "of_nat (unat level) \<in> (of_nat ` {1, 2, 3, 4} :: u8 set)" by (rule imageI)
  then show ?thesis by simp
qed

lemma CompressZSTD_returns:
  "cmp_levels c = [1, 2, 3, 4] \<Longrightarrow> \<exists>y. CompressZSTD c x level = Ok (y, True)"
  using level_range [of level] by (auto simp: CompressZSTD_def Let_def)

lemma zstd_roundtrip:
  assumes "compress_law (cmp_lib c) (cmp_PayloadSize c)" "int (length x) \<le> cmp_PayloadSize c"
  shows "CompressZSTD c x level = Ok (y, ok) \<Longrightarrow> ok \<and> DecompressZSTD c y = Ok x \<and> (y = [] \<longrightarrow> x = [])"
  using assms by (auto simp: CompressZSTD_def DecompressZSTD_def compress_law_def Let_def split: if_splits)

end
