(* ===== verification/Codec.thy ===== *)
theory Codec
  imports Compression AckSet
begin

text \<open>
  The wire format of \<open>pkg/codec/tapir.go\<close>: a header of twelve bytes (type, flags, identifier,
  session, length of the encrypted payload) and a payload, encoded by \<open>Marshal\<close> and decoded
  by \<open>UnmarshalHeader\<close> and \<open>UnmarshalPayload\<close>.
\<close>

section \<open>Model\<close>

text \<open>The flags are \<open>1 << (iota - 1)\<close>.\<close>

definition flagNoFlags :: u8 where [simp]: "flagNoFlags = 0"
definition flagError :: u8 where [simp]: "flagError = 1"
definition flagRequest :: u8 where [simp]: "flagRequest = 2"
definition flagACK :: u8 where [simp]: "flagACK = 4"
definition flagCompressionLZ4 :: u8 where [simp]: "flagCompressionLZ4 = 8"
definition flagCompressionLZO :: u8 where [simp]: "flagCompressionLZO = 16"
definition flagCompressionZSTD :: u8 where [simp]: "flagCompressionZSTD = 32"

record tapir =
  tp_PayloadSize :: int
  tp_ObfuscateData :: bool
  tp_GetLength :: "int \<Rightarrow> int"
  tp_cmp :: compressor
  tp_maxEncryptedPayloadSize :: u16

definition NewTapirCodec :: "compress_lib \<Rightarrow> int \<Rightarrow> bool \<Rightarrow> (int \<Rightarrow> int) \<Rightarrow> tapir" where
  "NewTapirCodec lib payloadSize obfuscate getLength =
     \<lparr>tp_PayloadSize = payloadSize, tp_ObfuscateData = obfuscate, tp_GetLength = getLength,
      tp_cmp = new_compressor lib payloadSize,
      tp_maxEncryptedPayloadSize = of_int (getLength payloadSize)\<rparr>"

fun marshalBytes :: "bytes list \<Rightarrow> (gerror, bytes) res" where
  "marshalBytes [] = Ok []"
| "marshalBytes (v # data) =
     (if int (length v) + 1 > MaxUint8 then Err ErrMaxBytesSize
      else rbind (marshalBytes data) (\<lambda>r. Ok (of_nat (length v) # v @ r)))"

text \<open>The loop of \<open>unmarshalBytes\<close>; \<open>k\<close> fields have been read.\<close>

function unmarshal_loop :: "nat \<Rightarrow> bytes list \<Rightarrow> bytes \<Rightarrow> (gerror, bytes list) res" where
  "unmarshal_loop n acc [] = Ok acc"
| "unmarshal_loop n acc (b # data) =
     (let l = unat b
      in if l > length data then Err ErrWrongBytesSize
         else let acc = acc @ [take l data]
              in if length acc = n then Ok acc else unmarshal_loop n acc (drop l data))"
  by pat_completeness auto
termination by (relation "measure (\<lambda>(_, _, data). length data)") auto

definition unmarshalBytes :: "bytes \<Rightarrow> nat \<Rightarrow> (gerror, bytes list) res" where
  "unmarshalBytes data n = unmarshal_loop n [] data"

text \<open>
  \<open>rnd\<close> is the sequence of draws of \<open>math/rand\<close>; \<open>rand.Intn\<close> panics unless its bound is positive.
\<close>

definition addFakeData :: "tapir \<Rightarrow> (nat \<Rightarrow> nat) \<Rightarrow> bytes \<Rightarrow> (gerror, bytes) res" where
  "addFakeData c rnd data =
     (if \<not> tp_ObfuscateData c then Ok data
      else let room = tp_PayloadSize c - int (length data)
           in if room \<le> 0 then Panic
              else let l = rnd 0 mod nat room
                   in Ok (data @ map (\<lambda>i. of_nat (rnd (Suc i) mod 255)) [0..<l]))"

text \<open>\<open>MarshalAcknowledgement\<close> writes into a slice of \<open>Size()\<close> bytes; a write behind its end panics.\<close>

definition put_at :: "nat \<Rightarrow> bytes \<Rightarrow> bytes \<Rightarrow> bytes option" where
  "put_at i bs buf = (if i + length bs \<le> length buf then Some (take i buf @ bs @ drop (i + length bs) buf) else None)"

fun ack_write_ids :: "u32 list \<Rightarrow> nat \<Rightarrow> bytes \<Rightarrow> (nat \<times> bytes) option" where
  "ack_write_ids [] i buf = Some (i, buf)"
| "ack_write_ids (e # v) i buf = Option.bind (put_at i (be32 e) buf) (ack_write_ids v (i + 4))"

fun ack_write :: "(u64, u32 list) gomap \<Rightarrow> nat \<Rightarrow> bytes \<Rightarrow> bytes option" where
  "ack_write [] i buf = Some buf"
| "ack_write ((k, v) # d) i buf =
     Option.bind (put_at i (be64 k) buf) (\<lambda>buf.
     Option.bind (put_at (i + 8) [of_nat (length v)] buf) (\<lambda>buf.
     Option.bind (ack_write_ids v (i + 9) buf) (\<lambda>(i, buf). ack_write d i buf)))"

definition MarshalAcknowledgement :: "ack_message \<Rightarrow> (gerror, bytes) res" where
  "MarshalAcknowledgement ack =
     deref (ack_write (ack_data ack) 0 (replicate (nat (ack_size ack)) 0))"

fun read_ids :: "nat \<Rightarrow> bytes \<Rightarrow> u32 list option" where
  "read_ids 0 data = Some []"
| "read_ids (Suc n) data =
     Option.bind (unbe32 data) (\<lambda>x. Option.bind (read_ids n (drop 4 data)) (\<lambda>xs. Some (x # xs)))"

text \<open>The loop of \<open>UnmarshalAcknowledgement\<close> on the data from position \<open>i\<close> on.\<close>

function unack_loop :: "(u64, u32 list) gomap \<Rightarrow> bytes \<Rightarrow> (gerror, (u64, u32 list) gomap) res" where
  "unack_loop acc data =
     (if data = [] then Ok acc
      else if 9 \<ge> length data then Err ErrWrongMessageAcknowledgement
      else let eLen = unat (data ! 8)
           in if 4 * eLen + 9 > length data then Err ErrWrongMessageAcknowledgement
              else rbind (deref (unbe64 data)) (\<lambda>endpoint.
                   rbind (deref (read_ids eLen (drop 9 data))) (\<lambda>ids.
                   unack_loop (mput endpoint ids acc) (drop (4 * eLen + 9) data))))"
  by pat_completeness auto
termination by (relation "measure (\<lambda>(_, data). length data)") auto

declare unack_loop.simps [simp del]

definition UnmarshalAcknowledgement :: "bytes \<Rightarrow> (gerror, ack_message) res" where
  "UnmarshalAcknowledgement data =
     (if length data < 13 then Err ErrWrongMessageAcknowledgement
      else rbind (unack_loop [] data) (\<lambda>d. Ok (NewMessageAcknowledgement (Some d))))"

text \<open>The header of \<open>Marshal\<close>, whose slots are written in place.\<close>

definition marshal_header :: "message \<Rightarrow> u8 \<Rightarrow> u16 \<Rightarrow> bytes" where
  "marshal_header m flags len = [m_Type m, flags] @ be32 (m_ID m) @ be32 (m_SessionID m) @ be16 len"

definition compress_payload :: "tapir \<Rightarrow> message \<Rightarrow> bytes \<Rightarrow> (gerror, u8 \<times> bytes) res" where
  "compress_payload c m payload =
     (if m_CompressionType m = CompressionLZ4 then
        (let (p, ok) = CompressLZ4 (tp_cmp c) payload in Ok (if ok then flagCompressionLZ4 else 0, p))
      else if m_CompressionType m = CompressionLZO then
        (let (p, ok) = CompressLZO (tp_cmp c) payload in Ok (if ok then flagCompressionLZO else 0, p))
      else if m_CompressionType m = CompressionZSTD then
        rbind (CompressZSTD (tp_cmp c) payload (m_CompressionLevel m))
          (\<lambda>(p, ok). Ok (if ok then flagCompressionZSTD else 0, p))
      else Ok (0, payload))"

text \<open>The switch over the type: the flags it adds, and the payload if the type has one.\<close>

definition marshal_payload :: "tapir \<Rightarrow> (nat \<Rightarrow> nat) \<Rightarrow> message \<Rightarrow> (gerror, u8 \<times> bytes option) res" where
  "marshal_payload c rnd m =
     (if m_Type m = MessageTypeAuthentication then
        (case m_Payload m of
           PAuthRequest req \<Rightarrow>
             rbind (marshalBytes [ar_ClientID req, ar_Name req, ar_Password req,
                      [ar_CompressionType req], [ar_CompressionLevel req]]) (\<lambda>p.
             rbind (addFakeData c rnd p) (\<lambda>p. Ok (flagRequest, Some p)))
         | PAuthResponse resp \<Rightarrow>
             rbind (marshalBytes [as_LocalIP resp, as_RemoteIP resp]) (\<lambda>ips.
             rbind (addFakeData c rnd (be32 (as_SessionID resp) @ ips)) (\<lambda>p. Ok (0, Some p)))
         | _ \<Rightarrow> Err ErrWrongMessagePayload)
      else if m_Type m = MessageTypeHandshake then
        (case m_Payload m of
           PHandshake key \<Rightarrow>
             rbind (marshalBytes [key]) (\<lambda>p. rbind (addFakeData c rnd p) (\<lambda>p. Ok (0, Some p)))
         | _ \<Rightarrow> Err ErrWrongMessagePayload)
      else if m_Type m = MessageTypeData then
        if \<not> m_IsACK m then
          (case m_Payload m of
             PBytes payload \<Rightarrow> rbind (compress_payload c m payload) (\<lambda>(f, p). Ok (f, Some p))
           | _ \<Rightarrow> Err ErrWrongMessagePayload)
        else
          (case m_Payload m of
             PAck ack \<Rightarrow> rbind (MarshalAcknowledgement ack) (\<lambda>p. Ok (0, Some p))
           | _ \<Rightarrow> Err ErrWrongMessagePayload)
      else Ok (0, None))"

definition Marshal :: "tapir \<Rightarrow> (nat \<Rightarrow> nat) \<Rightarrow> message \<Rightarrow> (gerror, bytes \<times> bytes) res" where
  "Marshal c rnd m =
     (let flags = (if m_Error m > 0 then flagError else 0) + (if m_IsACK m then flagACK else 0);
          length16 = (\<lambda>p. of_int (tp_GetLength c (int (length p))) :: u16)
      in if m_Error m > 0 then Ok (marshal_header m flags (length16 [m_Error m]), [m_Error m])
         else rbind (marshal_payload c rnd m) (\<lambda>(f, mp).
           case mp of
             Some p \<Rightarrow> Ok (marshal_header m (flags + f) (length16 p), p)
           | None \<Rightarrow> Ok (marshal_header m (flags + f) 0, [])))"

definition set_flags :: "u8 \<Rightarrow> message \<Rightarrow> message" where
  "set_flags f m =
     (if f \<noteq> flagNoFlags then
        m\<lparr>m_IsError := (if f AND flagError = flagError then True else m_IsError m),
          m_IsRequest := (if f AND flagRequest = flagRequest then True else m_IsRequest m),
          m_IsACK := (if f AND flagACK = flagACK then True else m_IsACK m),
          m_CompressionType :=
            (if f AND flagCompressionLZ4 = flagCompressionLZ4 then CompressionLZ4
             else if f AND flagCompressionLZO = flagCompressionLZO then CompressionLZO
             else if f AND flagCompressionZSTD = flagCompressionZSTD then CompressionZSTD
             else m_CompressionType m)\<rparr>
      else m)"

text \<open>
  \<open>UnmarshalHeader\<close> fills a message that its caller keeps on an error as well; the callers
  drop it then, so the model returns it on success only.
\<close>

definition UnmarshalHeader :: "tapir \<Rightarrow> bytes \<Rightarrow> message \<Rightarrow> (gerror, message) res" where
  "UnmarshalHeader c data m =
     (if length data \<noteq> HeaderSize then Err ErrWrongMessageHeaderSize
      else if \<not> MessageType_Valid (data ! 0) then Err ErrUnknownCommand
      else
        rbind (deref (unbe32 (drop 2 data))) (\<lambda>i.
        rbind (deref (unbe32 (drop 6 data))) (\<lambda>sid.
        rbind (deref (unbe16 (drop 10 data))) (\<lambda>len.
          if len > tp_maxEncryptedPayloadSize c then Err ErrWrongMessagePayloadSize
          else Ok (set_flags (data ! 1) (m\<lparr>m_Type := data ! 0\<rparr>)
                 \<lparr>m_ID := i, m_SessionID := sid, m_PayloadLength := len\<rparr>)))))"

definition payload_bytes :: "message \<Rightarrow> (gerror, bytes) res" where
  \<comment> \<open>the type assertion \<open>m.Payload.([]byte)\<close>\<close>
  "payload_bytes m = (case m_Payload m of PBytes b \<Rightarrow> Ok b | _ \<Rightarrow> Panic)"

definition head_byte :: "bytes \<Rightarrow> (gerror, u8) res" where
  \<comment> \<open>\<open>b[0]\<close>\<close>
  "head_byte b = (case b of [] \<Rightarrow> Panic | x # _ \<Rightarrow> Ok x)"

definition unmarshal_auth :: "bytes \<Rightarrow> bool \<Rightarrow> (gerror, payload) res" where
  "unmarshal_auth data isRequest =
     (if isRequest then
        rbind (unmarshalBytes data 5) (\<lambda>fields.
          if length fields \<noteq> 5 then Err ErrWrongMessagePayload
          else rbind (head_byte (fields ! 3)) (\<lambda>t.
               rbind (head_byte (fields ! 4)) (\<lambda>l.
               Ok (PAuthRequest \<lparr>ar_ClientID = fields ! 0, ar_Name = fields ! 1, ar_Password = fields ! 2,
                     ar_CompressionType = t, ar_CompressionLevel = l\<rparr>))))
      else if length data < 14 then Err ErrWrongMessagePayload
      else rbind (unmarshalBytes (drop 4 data) 2) (\<lambda>fields.
             if length fields \<noteq> 2 then Err ErrWrongMessagePayload
             else rbind (deref (unbe32 data)) (\<lambda>sid.
                  Ok (PAuthResponse \<lparr>as_SessionID = sid, as_LocalIP = fields ! 0, as_RemoteIP = fields ! 1\<rparr>))))"

definition decompress_payload :: "tapir \<Rightarrow> message \<Rightarrow> bytes \<Rightarrow> (gerror, bytes) res" where
  "decompress_payload c m payload =
     (if m_CompressionType m = CompressionLZ4 then DecompressLZ4 (tp_cmp c) payload
      else if m_CompressionType m = CompressionLZO then DecompressLZO (tp_cmp c) payload
      else if m_CompressionType m = CompressionZSTD then DecompressZSTD (tp_cmp c) payload
      else Ok payload)"

definition UnmarshalPayload :: "tapir \<Rightarrow> message \<Rightarrow> (gerror, message) res" where
  "UnmarshalPayload c m =
     (if m_PayloadLength m = 0 then Ok m
      else if m_IsError m then
        rbind (payload_bytes m) (\<lambda>b.
          if b = [] then Err ErrWrongMessagePayload
          else Ok (m\<lparr>m_Error := hd b\<rparr>))
      else if m_Type m = MessageTypeAuthentication then
        rbind (payload_bytes m) (\<lambda>b. rbind (unmarshal_auth b (m_IsRequest m)) (\<lambda>p. Ok (m\<lparr>m_Payload := p\<rparr>)))
      else if m_Type m = MessageTypeHandshake then
        rbind (payload_bytes m) (\<lambda>b.
        rbind (unmarshalBytes b 1) (\<lambda>fields.
          if length fields \<noteq> 1 then Err ErrWrongMessagePayload
          else Ok (m\<lparr>m_Payload := PHandshake (fields ! 0)\<rparr>)))
      else if m_Type m = MessageTypeData then
        rbind (payload_bytes m) (\<lambda>b.
          if \<not> m_IsACK m
          then rbind (decompress_payload c m b) (\<lambda>p. Ok (m\<lparr>m_Payload := PBytes p\<rparr>))
          else rbind (UnmarshalAcknowledgement b) (\<lambda>a. Ok (m\<lparr>m_Payload := PAck a\<rparr>)))
      else Ok m)"

section \<open>Length-prefixed fields\<close>

lemma marshalBytes_Ok: "(\<exists>p. marshalBytes vs = Ok p) \<longleftrightarrow> (\<forall>v\<in>set vs. length v \<le> 254)"
  by (induction vs) (auto simp: res_simps)

lemma marshalBytes_no_panic: "marshalBytes vs \<noteq> Panic"
  by (induction vs) (auto simp: res_simps)

lemma unmarshal_loop_marshalled:
  "marshalBytes vs = Ok p \<Longrightarrow> vs \<noteq> [] \<Longrightarrow> unmarshal_loop (length acc + length vs) acc (p @ rest) = Ok (acc @ vs)"
proof (induction vs arbitrary: acc p)
  case (Cons v vs)
  from Cons.prems(1) obtain r where v: "length v \<le> 254" and r: "marshalBytes vs = Ok r"
    and p: "p = of_nat (length v) # v @ r"
    by (auto simp: res_simps split: if_splits)
  have l: "unat (of_nat (length v) :: u8) = length v"
    using v by (subst unat_of_nat) simp
  show ?case
  proof (cases "vs = []")
    case True
    then show ?thesis using l p by (simp add: Let_def)
  next
    case False
    from Cons.IH [OF r False, of "acc @ [v]"] False l p show ?thesis by (simp add: Let_def)
  qed
qed simp

text \<open>Fields come back, whatever follows them: the fake data of \<open>addFakeData\<close> is never read.\<close>

lemma unmarshalBytes_marshalled:
  "marshalBytes vs = Ok p \<Longrightarrow> vs \<noteq> [] \<Longrightarrow> unmarshalBytes (p @ rest) (length vs) = Ok vs"
  using unmarshal_loop_marshalled [of vs p "[]" rest] by (simp add: unmarshalBytes_def)

lemma length_marshalBytes: "marshalBytes vs = Ok p \<Longrightarrow> length p = length vs + sum_list (map length vs)"
  by (induction vs arbitrary: p) (auto simp: res_simps split: if_splits)

lemma unmarshal_loop_no_panic: "unmarshal_loop n acc data \<noteq> Panic"
  by (induction n acc data rule: unmarshal_loop.induct) (auto simp: Let_def)

lemma addFakeData_Ok:
  assumes "addFakeData c rnd p = Ok q"
  shows "\<exists>fake. q = p @ fake \<and> (tp_ObfuscateData c \<longrightarrow> int (length q) < tp_PayloadSize c)
     \<and> (\<not> tp_ObfuscateData c \<longrightarrow> fake = [])"
proof (cases "tp_ObfuscateData c")
  case True
  let ?room = "tp_PayloadSize c - int (length p)"
  have room: "0 < ?room" using assms True by (auto simp: addFakeData_def Let_def split: if_splits)
  then have "q = p @ map (\<lambda>i. of_nat (rnd (Suc i) mod 255)) [0..<rnd 0 mod nat ?room]"
    using assms True by (simp add: addFakeData_def Let_def)
  moreover have "rnd 0 mod nat ?room < nat ?room" using room by simp
  then have "int (length p) + int (rnd 0 mod nat ?room) < tp_PayloadSize c" by linarith
  ultimately show ?thesis using True by auto
next
  case False
  then show ?thesis using assms by (simp add: addFakeData_def)
qed

lemma addFakeData_returns: "int (length p) < tp_PayloadSize c \<Longrightarrow> \<exists>q. addFakeData c rnd p = Ok q"
  by (auto simp: addFakeData_def Let_def)

section \<open>Acknowledgements\<close>

definition enc_ids :: "u32 list \<Rightarrow> bytes" where
  "enc_ids v = concat (map be32 v)"

fun enc_ack :: "(u64, u32 list) gomap \<Rightarrow> bytes" where
  "enc_ack [] = []"
| "enc_ack ((k, v) # d) = be64 k @ of_nat (length v) # enc_ids v @ enc_ack d"

lemma enc_ids_simps [simp]: "enc_ids [] = []" "enc_ids (x # v) = be32 x @ enc_ids v"
  by (simp_all add: enc_ids_def)

lemma length_enc_ids [simp]: "length (enc_ids v) = 4 * length v"
  by (induction v) (simp_all add: coder_simps)

lemma length_enc_ack: "int (length (enc_ack d)) = wire_size d"
  by (induction d rule: enc_ack.induct) (simp_all add: coder_simps)

lemma ack_write_ids_eq:
  "i + 4 * length v \<le> length buf \<Longrightarrow>
     ack_write_ids v i buf = Some (i + 4 * length v, take i buf @ enc_ids v @ drop (i + 4 * length v) buf)"
proof (induction v arbitrary: i buf)
  case (Cons e v)
  let ?buf = "take i buf @ be32 e @ drop (i + 4) buf"
  have "put_at i (be32 e) buf = Some ?buf" using Cons.prems by (simp add: put_at_def coder_simps)
  moreover have "ack_write_ids v (i + 4) ?buf =
      Some (i + 4 + 4 * length v, take (i + 4) ?buf @ enc_ids v @ drop (i + 4 + 4 * length v) ?buf)"
    using Cons.prems by (intro Cons.IH) (simp add: coder_simps)
  ultimately show ?case using Cons.prems by (simp add: coder_simps algebra_simps)
qed simp

lemma ack_write_eq:
  "i + length (enc_ack d) \<le> length buf \<Longrightarrow>
     ack_write d i buf = Some (take i buf @ enc_ack d @ drop (i + length (enc_ack d)) buf)"
proof (induction d arbitrary: i buf rule: enc_ack.induct)
  case (2 k v d)
  let ?h = "be64 k @ [of_nat (length v)]"
  have h: "length ?h = 9" by (simp add: coder_simps)
  define buf1 where "buf1 = take i buf @ be64 k @ drop (i + 8) buf"
  define buf2 where "buf2 = take i buf @ ?h @ drop (i + 9) buf"
  define buf3 where "buf3 = take i buf @ ?h @ enc_ids v @ drop (i + 9 + 4 * length v) buf"
  have room: "i + 9 + 4 * length v + length (enc_ack d) \<le> length buf"
    using 2(2) by (simp add: coder_simps)
  have p1: "put_at i (be64 k) buf = Some buf1" using room by (simp add: put_at_def coder_simps buf1_def)
  have p2: "put_at (i + 8) [of_nat (length v)] buf1 = Some buf2"
    using room by (simp add: put_at_def coder_simps buf1_def buf2_def add.commute)
  have p3: "ack_write_ids v (i + 9) buf2 = Some (i + 9 + 4 * length v, buf3)"
    using room by (subst ack_write_ids_eq) (simp_all add: coder_simps buf2_def buf3_def algebra_simps)
  have "ack_write d (i + 9 + 4 * length v) buf3 =
      Some (take (i + 9 + 4 * length v) buf3 @ enc_ack d @ drop (i + 9 + 4 * length v + length (enc_ack d)) buf3)"
    using room by (intro 2(1)) (simp add: coder_simps buf3_def)
  then show ?case
    using room p1 p2 p3 by (simp add: buf3_def coder_simps algebra_simps)
qed simp

lemma MarshalAcknowledgement_eq:
  assumes "ack_wf ack"
  shows "MarshalAcknowledgement ack = Ok (enc_ack (ack_data ack))"
proof -
  have "nat (ack_size ack) = length (enc_ack (ack_data ack))"
    using assms length_enc_ack [of "ack_data ack"] by (simp add: ack_wf_def)
  then show ?thesis by (simp add: MarshalAcknowledgement_def ack_write_eq)
qed

lemma read_ids_enc: "read_ids (length v) (enc_ids v @ rest) = Some v"
  by (induction v) (simp_all add: coder_simps)

lemma mput_snoc: "k \<notin> set (mkeys acc) \<Longrightarrow> mput k v acc = acc @ [(k, v)]"
  by (induction acc) auto

lemma unack_loop_enc:
  "mwf (acc @ d) \<Longrightarrow> \<forall>(e, ids)\<in>set d. ids \<noteq> [] \<and> length ids \<le> 255 \<Longrightarrow> unack_loop acc (enc_ack d) = Ok (acc @ d)"
proof (induction d arbitrary: acc rule: enc_ack.induct)
  case (2 k v d)
  have v: "v \<noteq> []" "length v \<le> 255" using 2(3) by auto
  have len: "unat (of_nat (length v) :: u8) = length v" using v by (subst unat_of_nat) simp
  have "k \<notin> set (mkeys acc)" using 2(2) by (auto simp: mwf_def)
  then have snoc: "mput k v acc = acc @ [(k, v)]" by (rule mput_snoc)
  have IH: "unack_loop (acc @ [(k, v)]) (enc_ack d) = Ok ((acc @ [(k, v)]) @ d)"
    using 2 by simp
  let ?data = "be64 k @ of_nat (length v) # enc_ids v @ enc_ack d"
  have d8: "?data ! 8 = of_nat (length v)" by (simp add: nth_append coder_simps)
  have d9: "drop 9 ?data = enc_ids v @ enc_ack d" by (simp add: coder_simps)
  have dn: "drop (4 * length v + 9) ?data = enc_ack d" by (simp add: coder_simps)
  have ln: "\<not> 9 \<ge> length ?data" "\<not> 4 * length v + 9 > length ?data" "?data \<noteq> []"
    using v by (simp_all add: coder_simps Suc_le_eq)
  show ?case
    unfolding enc_ack.simps unack_loop.simps [of acc ?data]
    using ln by (simp only: d8 len d9 dn read_ids_enc Let_def if_False deref_simps rbind.simps
        be64.dec_enc_append snoc IH append.assoc append_Cons append_Nil)
qed (simp add: unack_loop.simps)

lemma ack_roundtrip:
  assumes "ack_wf ack" "ack_data ack \<noteq> []"
  shows "\<exists>p. MarshalAcknowledgement ack = Ok p \<and> int (length p) = ack_size ack \<and> 13 \<le> length p
     \<and> UnmarshalAcknowledgement p = Ok (NewMessageAcknowledgement (Some (ack_data ack)))"
proof (intro exI conjI)
  let ?p = "enc_ack (ack_data ack)"
  show "MarshalAcknowledgement ack = Ok ?p" using assms(1) by (rule MarshalAcknowledgement_eq)
  show "int (length ?p) = ack_size ack" using assms(1) by (simp add: length_enc_ack ack_wf_def)
  obtain k v d where d: "ack_data ack = (k, v) # d" using assms(2) by (cases "ack_data ack") auto
  have "v \<noteq> []" using assms(1) d by (auto simp: ack_wf_def)
  then have "0 < length v" by simp
  then have "4 \<le> 4 * length v + length (enc_ack d)" by linarith
  then show len: "13 \<le> length ?p" using d by (simp add: coder_simps)
  have "unack_loop [] ?p = Ok ([] @ ack_data ack)"
    using assms(1) by (intro unack_loop_enc) (auto simp: ack_wf_def)
  then show "UnmarshalAcknowledgement ?p = Ok (NewMessageAcknowledgement (Some (ack_data ack)))"
    using len by (simp add: UnmarshalAcknowledgement_def)
qed

lemma unbe64_Some: "8 \<le> length data \<Longrightarrow> \<exists>x. unbe64 data = Some x"
  by (cases data rule: unbe64.cases) auto

lemma unbe32_Some: "4 \<le> length data \<Longrightarrow> \<exists>x. unbe32 data = Some x"
  by (cases data rule: unbe32.cases) auto

lemma unbe16_Some: "2 \<le> length data \<Longrightarrow> \<exists>x. unbe16 data = Some x"
  by (cases data rule: unbe16.cases) auto

lemma read_ids_Some: "4 * n \<le> length data \<Longrightarrow> \<exists>v. read_ids n data = Some v \<and> length v = n"
proof (induction n arbitrary: data)
  case (Suc n)
  obtain x where "unbe32 data = Some x" using unbe32_Some [of data] Suc.prems by auto
  moreover obtain v where "read_ids n (drop 4 data) = Some v \<and> length v = n"
    using Suc.IH [of "drop 4 data"] Suc.prems by (auto simp: le_diff_conv2)
  ultimately show ?case by auto
qed simp

text \<open>No input makes the decoder of acknowledgements panic.\<close>

lemma unack_loop_no_panic: "unack_loop acc data \<noteq> Panic"
proof (induction acc data rule: unack_loop.induct)
  case (1 acc data)
  consider "data = []" | "data \<noteq> []" "9 \<ge> length data"
    | "\<not> 9 \<ge> length data" "4 * unat (data ! 8) + 9 > length data"
    | "\<not> 9 \<ge> length data" "\<not> 4 * unat (data ! 8) + 9 > length data" by fastforce
  then show ?case
  proof cases
    case 4
    then have "4 * unat (data ! 8) \<le> length (drop 9 data)" by simp
    then obtain v where v: "read_ids (unat (data ! 8)) (drop 9 data) = Some v"
      using read_ids_Some by blast
    obtain x where x: "unbe64 data = Some x" using unbe64_Some [of data] 4(1) by auto
    note xv = x v
    have ne: "data \<noteq> []" using 4 by auto
    have "unack_loop (mput x v acc) (drop (4 * unat (data ! 8) + 9) data) \<noteq> Panic"
      using 1 [OF ne 4(1) refl 4(2)] by simp
    then show ?thesis
      using 4 ne xv by (subst unack_loop.simps) (simp add: Let_def)
  qed (subst unack_loop.simps; simp add: Let_def)+
qed

section \<open>Headers\<close>

lemma length_marshal_header [simp]: "length (marshal_header m f len) = HeaderSize"
  by (simp add: marshal_header_def coder_simps)

lemma UnmarshalHeader_marshal_header:
  assumes "MessageType_Valid (m_Type m)" "len \<le> tp_maxEncryptedPayloadSize c"
  shows "UnmarshalHeader c (marshal_header m f len) m0 =
     Ok (set_flags f (m0\<lparr>m_Type := m_Type m\<rparr>)\<lparr>m_ID := m_ID m, m_SessionID := m_SessionID m, m_PayloadLength := len\<rparr>)"
proof -
  have d: "drop 2 (marshal_header m f len) = be32 (m_ID m) @ be32 (m_SessionID m) @ be16 len"
    "drop 6 (marshal_header m f len) = be32 (m_SessionID m) @ be16 len"
    "drop 10 (marshal_header m f len) = be16 len"
    "marshal_header m f len ! 0 = m_Type m" "marshal_header m f len ! 1 = f"
    by (simp_all add: marshal_header_def coder_simps)
  have nlt: "\<not> tp_maxEncryptedPayloadSize c < len" using assms(2) by simp
  show ?thesis
    using assms(1) nlt by (simp add: UnmarshalHeader_def d coder_simps del: One_nat_def)
qed

text \<open>No header makes \<open>UnmarshalHeader\<close> panic.\<close>

lemma UnmarshalHeader_no_panic: "UnmarshalHeader c data m \<noteq> Panic"
proof (cases "length data = HeaderSize")
  case True
  then obtain i sid len where "unbe32 (drop 2 data) = Some i" "unbe32 (drop 6 data) = Some sid"
    "unbe16 (drop 10 data) = Some len"
    using unbe32_Some [of "drop 2 data"] unbe32_Some [of "drop 6 data"] unbe16_Some [of "drop 10 data"] by auto
  then show ?thesis by (simp add: UnmarshalHeader_def)
qed (simp add: UnmarshalHeader_def)

text \<open>The flags of a message: error, request, acknowledgement, and one of the compressions.\<close>

definition compression_flag :: "u8 \<Rightarrow> bool" where
  "compression_flag g \<longleftrightarrow> g \<in> {0, flagRequest, flagCompressionLZ4, flagCompressionLZO, flagCompressionZSTD}"

definition flag_compression :: "u8 \<Rightarrow> u8" where
  "flag_compression g = (if g = flagCompressionLZ4 then CompressionLZ4
     else if g = flagCompressionLZO then CompressionLZO
     else if g = flagCompressionZSTD then CompressionZSTD else CompressionNone)"

lemma set_flags_new:
  assumes "compression_flag g"
  shows "set_flags ((if e then flagError else 0) + (if a then flagACK else 0) + g) (new_message\<lparr>m_Type := t\<rparr>) =
     new_message\<lparr>m_Type := t, m_IsError := e, m_IsACK := a, m_IsRequest := (g = flagRequest),
       m_CompressionType := flag_compression g\<rparr>"
  using assms
  by (cases e; cases a) (auto simp: compression_flag_def set_flags_def flag_compression_def new_message_def)

section \<open>Messages\<close>

definition tapir_ok :: "tapir \<Rightarrow> bool" where
  "tapir_ok c \<longleftrightarrow> 1 \<le> tp_PayloadSize c \<and> tp_GetLength c (tp_PayloadSize c) < 65536
     \<and> (\<forall>n\<in>{0..tp_PayloadSize c}. n \<le> tp_GetLength c n \<and> tp_GetLength c n \<le> tp_GetLength c (tp_PayloadSize c))
     \<and> tp_maxEncryptedPayloadSize c = of_int (tp_GetLength c (tp_PayloadSize c))
     \<and> cmp_PayloadSize (tp_cmp c) = tp_PayloadSize c \<and> cmp_levels (tp_cmp c) = [1, 2, 3, 4]
     \<and> compress_law (cmp_lib (tp_cmp c)) (tp_PayloadSize c)"

text \<open>
  The messages the two ends exchange: an error code, or a payload of the right kind for the
  type, with fields of at most 254 bytes that leave room for at least one byte.
\<close>

definition fields_fit :: "tapir \<Rightarrow> nat \<Rightarrow> bytes list \<Rightarrow> bool" where
  "fields_fit c k vs \<longleftrightarrow> (\<forall>v\<in>set vs. length v \<le> 254)
     \<and> int (k + length vs + sum_list (map length vs)) < tp_PayloadSize c"

definition wire_payload :: "tapir \<Rightarrow> message \<Rightarrow> bool" where
  "wire_payload c m \<longleftrightarrow>
     (m_Type m = MessageTypeAuthentication \<and>
        (case m_Payload m of
           PAuthRequest r \<Rightarrow> fields_fit c 0 [ar_ClientID r, ar_Name r, ar_Password r,
             [ar_CompressionType r], [ar_CompressionLevel r]]
         | PAuthResponse r \<Rightarrow> fields_fit c 4 [as_LocalIP r, as_RemoteIP r]
             \<and> 8 \<le> length (as_LocalIP r) + length (as_RemoteIP r)
         | _ \<Rightarrow> False))
   \<or> (m_Type m = MessageTypeHandshake \<and> (case m_Payload m of PHandshake k \<Rightarrow> fields_fit c 0 [k] | _ \<Rightarrow> False))
   \<or> (m_Type m = MessageTypeData \<and> \<not> m_IsACK m \<and>
        (case m_Payload m of
           PBytes p \<Rightarrow> int (length p) \<le> tp_PayloadSize c
             \<and> (\<forall>l. int (length (zstd_EncodeAll (cmp_lib (tp_cmp c)) l p)) \<le> tp_PayloadSize c)
         | _ \<Rightarrow> False))
   \<or> (m_Type m = MessageTypeData \<and> m_IsACK m \<and>
        (case m_Payload m of
           PAck a \<Rightarrow> ack_wf a \<and> ack_data a \<noteq> [] \<and> ack_size a \<le> tp_PayloadSize c
         | _ \<Rightarrow> False))"

definition wire_ok :: "tapir \<Rightarrow> message \<Rightarrow> bool" where
  "wire_ok c m \<longleftrightarrow> MessageType_Valid (m_Type m) \<and> (m_Error m > 0 \<or> \<not> IsPayload m \<or> wire_payload c m)"

text \<open>What the receiver makes of the payload; the limit of an acknowledgement is not sent.\<close>

definition received_payload :: "message \<Rightarrow> payload" where
  "received_payload m = (case m_Payload m of PAck a \<Rightarrow> PAck (NewMessageAcknowledgement (Some (ack_data a))) | p \<Rightarrow> p)"

definition decode_message :: "tapir \<Rightarrow> bytes \<Rightarrow> bytes \<Rightarrow> (gerror, message) res" where
  \<comment> \<open>the two decoding steps of a transport, on a fresh message\<close>
  "decode_message c h p =
     rbind (UnmarshalHeader c h new_message) (\<lambda>m. UnmarshalPayload c (m\<lparr>m_Payload := PBytes p\<rparr>))"

text \<open>The payload \<open>p\<close> and the flag \<open>g\<close> give the sent payload back.\<close>

definition payload_decodes :: "tapir \<Rightarrow> message \<Rightarrow> u8 \<Rightarrow> bytes \<Rightarrow> bool" where
  "payload_decodes c m g p \<longleftrightarrow> compression_flag g \<and> int (length p) \<le> tp_PayloadSize c
     \<and> (p = [] \<longrightarrow> received_payload m = PBytes [])
     \<and> (g = flagRequest \<longleftrightarrow> m_Type m = MessageTypeAuthentication \<and> (\<exists>r. m_Payload m = PAuthRequest r))
     \<and> (\<forall>m1. m_Type m1 = m_Type m \<longrightarrow> \<not> m_IsError m1 \<longrightarrow> m_IsRequest m1 = (g = flagRequest) \<longrightarrow>
          m_IsACK m1 = m_IsACK m \<longrightarrow> m_CompressionType m1 = flag_compression g \<longrightarrow>
          m_Payload m1 = PBytes p \<longrightarrow> m_PayloadLength m1 \<noteq> 0 \<longrightarrow>
          UnmarshalPayload c m1 = Ok (m1\<lparr>m_Payload := received_payload m\<rparr>))"

lemma fields_fit_marshal:
  assumes "fields_fit c (length pre) vs" "vs \<noteq> []"
  shows "\<exists>p q fake. marshalBytes vs = Ok p \<and> addFakeData c rnd (pre @ p) = Ok q \<and> q = pre @ p @ fake
     \<and> length p = length vs + sum_list (map length vs)
     \<and> int (length q) \<le> tp_PayloadSize c \<and> unmarshalBytes (p @ fake) (length vs) = Ok vs"
proof -
  obtain p where p: "marshalBytes vs = Ok p"
    using assms(1) marshalBytes_Ok [of vs] by (auto simp: fields_fit_def)
  have len: "length p = length vs + sum_list (map length vs)" by (rule length_marshalBytes [OF p])
  then have small: "int (length (pre @ p)) < tp_PayloadSize c"
    using assms(1) by (simp add: fields_fit_def)
  obtain q where q: "addFakeData c rnd (pre @ p) = Ok q" using addFakeData_returns [OF small] by blast
  from addFakeData_Ok [OF this] obtain fake where
    "q = (pre @ p) @ fake" "int (length q) \<le> tp_PayloadSize c"
    using small by (cases "tp_ObfuscateData c") auto
  with p q len unmarshalBytes_marshalled [OF p assms(2)] show ?thesis by auto
qed

lemma decodes_auth_request:
  assumes "m_Type m = MessageTypeAuthentication" "m_Payload m = PAuthRequest r"
    and "fields_fit c 0 [ar_ClientID r, ar_Name r, ar_Password r, [ar_CompressionType r], [ar_CompressionLevel r]]"
  shows "\<exists>p. marshal_payload c rnd m = Ok (flagRequest, Some p) \<and> payload_decodes c m flagRequest p"
proof -
  let ?vs = "[ar_ClientID r, ar_Name r, ar_Password r, [ar_CompressionType r], [ar_CompressionLevel r]]"
  from fields_fit_marshal [of c "[]" ?vs rnd] assms(3) obtain p q fake where
    p: "marshalBytes ?vs = Ok p" "addFakeData c rnd p = Ok q" "q = p @ fake" "length p = length ?vs + sum_list (map length ?vs)"
      "int (length q) \<le> tp_PayloadSize c" "unmarshalBytes (p @ fake) (length ?vs) = Ok ?vs" by auto
  have "marshal_payload c rnd m = Ok (flagRequest, Some q)"
    using assms(1,2) p(1,2) by (simp add: marshal_payload_def del: marshalBytes.simps)
  moreover have "unmarshalBytes q 5 = Ok ?vs" using p(3,6) by (simp add: eval_nat_numeral)
  then have "unmarshal_auth q True = Ok (PAuthRequest r)"
    by (simp add: unmarshal_auth_def head_byte_def)
  then have "payload_decodes c m flagRequest q"
    using assms(1,2) p(3-5)
    by (auto simp: payload_decodes_def compression_flag_def received_payload_def UnmarshalPayload_def payload_bytes_def)
  ultimately show ?thesis by blast
qed

lemma decodes_auth_response:
  assumes "m_Type m = MessageTypeAuthentication" "m_Payload m = PAuthResponse r"
    and "fields_fit c 4 [as_LocalIP r, as_RemoteIP r]" "8 \<le> length (as_LocalIP r) + length (as_RemoteIP r)"
  shows "\<exists>p. marshal_payload c rnd m = Ok (0, Some p) \<and> payload_decodes c m 0 p"
proof -
  let ?vs = "[as_LocalIP r, as_RemoteIP r]"
  from fields_fit_marshal [of c "be32 (as_SessionID r)" ?vs rnd] assms(3) obtain p q fake where
    p: "marshalBytes ?vs = Ok p" "addFakeData c rnd (be32 (as_SessionID r) @ p) = Ok q"
      "q = be32 (as_SessionID r) @ p @ fake" "length p = length ?vs + sum_list (map length ?vs)"
      "int (length q) \<le> tp_PayloadSize c" "unmarshalBytes (p @ fake) (length ?vs) = Ok ?vs"
    by (auto simp: coder_simps)
  have "marshal_payload c rnd m = Ok (0, Some q)"
    using assms(1,2) p(1,2) by (simp add: marshal_payload_def del: marshalBytes.simps)
  note marshalled = this
  have len: "14 \<le> length q" using p(3,4) assms(4) by (simp add: coder_simps)
  have "drop 4 q = p @ fake" "unbe32 q = Some (as_SessionID r)" using p(3) by (simp_all add: coder_simps)
  moreover have "unmarshalBytes (p @ fake) 2 = Ok ?vs" using p(6) by (simp add: eval_nat_numeral)
  ultimately have "unmarshal_auth q False = Ok (PAuthResponse r)"
    using len by (simp add: unmarshal_auth_def)
  then have "payload_decodes c m 0 q"
    using assms(1,2) len p(5)
    by (auto simp: payload_decodes_def compression_flag_def received_payload_def UnmarshalPayload_def payload_bytes_def)
  with marshalled show ?thesis by blast
qed

lemma decodes_handshake:
  assumes "m_Type m = MessageTypeHandshake" "m_Payload m = PHandshake k" "fields_fit c 0 [k]"
  shows "\<exists>p. marshal_payload c rnd m = Ok (0, Some p) \<and> payload_decodes c m 0 p"
proof -
  from fields_fit_marshal [of c "[]" "[k]" rnd] assms(3) obtain p q fake where
    p: "marshalBytes [k] = Ok p" "addFakeData c rnd p = Ok q" "q = p @ fake" "length p = length [k] + sum_list (map length [k])"
      "int (length q) \<le> tp_PayloadSize c" "unmarshalBytes (p @ fake) (length [k]) = Ok [k]" by auto
  have "marshal_payload c rnd m = Ok (0, Some q)"
    using assms(1,2) p(1,2) by (simp add: marshal_payload_def del: marshalBytes.simps)
  moreover have "payload_decodes c m 0 q"
    using assms(1,2) p(3-6)
    by (auto simp: payload_decodes_def compression_flag_def received_payload_def UnmarshalPayload_def payload_bytes_def)
  ultimately show ?thesis by blast
qed

lemma decodes_ack:
  assumes "m_Type m = MessageTypeData" "m_IsACK m" "m_Payload m = PAck a"
    and "ack_wf a" "ack_data a \<noteq> []" "ack_size a \<le> tp_PayloadSize c"
  shows "\<exists>p. marshal_payload c rnd m = Ok (0, Some p) \<and> payload_decodes c m 0 p"
proof -
  obtain p where p: "MarshalAcknowledgement a = Ok p" "int (length p) = ack_size a" "13 \<le> length p"
    "UnmarshalAcknowledgement p = Ok (NewMessageAcknowledgement (Some (ack_data a)))"
    using ack_roundtrip [OF assms(4,5)] by blast
  have "marshal_payload c rnd m = Ok (0, Some p)"
    using assms(1-3) p(1) by (simp add: marshal_payload_def)
  moreover have "payload_decodes c m 0 p"
    using assms p
    by (auto simp: payload_decodes_def compression_flag_def received_payload_def UnmarshalPayload_def payload_bytes_def)
  ultimately show ?thesis by blast
qed

text \<open>A compression that does not shorten the text is not used, and then not announced.\<close>

lemma compress_payload_spec:
  assumes "tapir_ok c" "int (length x) \<le> tp_PayloadSize c"
    and "\<forall>l. int (length (zstd_EncodeAll (cmp_lib (tp_cmp c)) l x)) \<le> tp_PayloadSize c"
  shows "\<exists>g p. compress_payload c m x = Ok (g, p) \<and> g \<noteq> flagRequest \<and> compression_flag g
     \<and> int (length p) \<le> tp_PayloadSize c \<and> (p = [] \<longrightarrow> x = [])
     \<and> (\<forall>m1. m_CompressionType m1 = flag_compression g \<longrightarrow> decompress_payload c m1 p = Ok x)"
proof -
  have law: "compress_law (cmp_lib (tp_cmp c)) (cmp_PayloadSize (tp_cmp c))"
    and levels: "cmp_levels (tp_cmp c) = [1, 2, 3, 4]" and size: "int (length x) \<le> cmp_PayloadSize (tp_cmp c)"
    using assms(1,2) by (simp_all add: tapir_ok_def)
  note defs = compress_payload_def decompress_payload_def compression_flag_def flag_compression_def
  consider "m_CompressionType m = CompressionLZ4" | "m_CompressionType m = CompressionLZO"
    | "m_CompressionType m = CompressionZSTD"
    | "m_CompressionType m \<notin> {CompressionLZ4, CompressionLZO, CompressionZSTD}" by auto
  then show ?thesis
  proof cases
    case 1
    obtain p ok where c: "CompressLZ4 (tp_cmp c) x = (p, ok)" by force
    then show ?thesis
      using 1 lz4_roundtrip [OF law size] assms(2) by (cases ok) (auto simp: defs)
  next
    case 2
    obtain p ok where c: "CompressLZO (tp_cmp c) x = (p, ok)" by force
    then show ?thesis
      using 2 lzo_roundtrip [OF law size] assms(2) by (cases ok) (auto simp: defs)
  next
    case 3
    obtain p where p: "CompressZSTD (tp_cmp c) x (m_CompressionLevel m) = Ok (p, True)"
      using CompressZSTD_returns [OF levels] by blast
    then have "int (length p) \<le> tp_PayloadSize c"
      using assms(3) by (auto simp: CompressZSTD_def Let_def split: if_splits)
    then show ?thesis using 3 p zstd_roundtrip [OF law size p] by (auto simp: defs)
  next
    case 4
    then show ?thesis using assms(2) by (auto simp: defs)
  qed
qed

lemma decodes_data:
  assumes "tapir_ok c" "m_Type m = MessageTypeData" "\<not> m_IsACK m" "m_Payload m = PBytes x"
    and "int (length x) \<le> tp_PayloadSize c"
    and "\<forall>l. int (length (zstd_EncodeAll (cmp_lib (tp_cmp c)) l x)) \<le> tp_PayloadSize c"
  shows "\<exists>g p. marshal_payload c rnd m = Ok (g, Some p) \<and> payload_decodes c m g p"
proof -
  obtain g p where gp: "compress_payload c m x = Ok (g, p)" "g \<noteq> flagRequest" "compression_flag g"
    "int (length p) \<le> tp_PayloadSize c" "p = [] \<longrightarrow> x = []"
    "\<And>m1. m_CompressionType m1 = flag_compression g \<Longrightarrow> decompress_payload c m1 p = Ok x"
    using compress_payload_spec [OF assms(1,5,6), of m] by blast
  have "marshal_payload c rnd m = Ok (g, Some p)"
    using assms(2-4) gp(1) by (simp add: marshal_payload_def)
  moreover have "payload_decodes c m g p"
    using assms(2-4) gp(2-6)
    by (auto simp: payload_decodes_def received_payload_def UnmarshalPayload_def payload_bytes_def)
  ultimately show ?thesis by blast
qed

lemma wire_payload_decodes:
  assumes "tapir_ok c" "wire_payload c m"
  shows "\<exists>g p. marshal_payload c rnd m = Ok (g, Some p) \<and> payload_decodes c m g p"
  using assms(2) unfolding wire_payload_def
proof (elim disjE conjE)
  assume t: "m_Type m = MessageTypeAuthentication"
    and p: "case m_Payload m of
       PAuthRequest r \<Rightarrow> fields_fit c 0 [ar_ClientID r, ar_Name r, ar_Password r, [ar_CompressionType r], [ar_CompressionLevel r]]
     | PAuthResponse r \<Rightarrow> fields_fit c 4 [as_LocalIP r, as_RemoteIP r] \<and> 8 \<le> length (as_LocalIP r) + length (as_RemoteIP r)
     | _ \<Rightarrow> False"
  show ?thesis
  proof (cases "m_Payload m")
    case (PAuthRequest r)
    with p decodes_auth_request [OF t, of r c rnd] show ?thesis by auto
  next
    case (PAuthResponse r)
    with p decodes_auth_response [OF t, of r c rnd] show ?thesis by auto
  qed (use p in simp_all)
next
  assume t: "m_Type m = MessageTypeHandshake"
    and p: "case m_Payload m of PHandshake k \<Rightarrow> fields_fit c 0 [k] | _ \<Rightarrow> False"
  then show ?thesis using decodes_handshake [OF t, of _ c rnd] by (cases "m_Payload m") auto
next
  assume t: "m_Type m = MessageTypeData" "\<not> m_IsACK m"
    and p: "case m_Payload m of
       PBytes p \<Rightarrow> int (length p) \<le> tp_PayloadSize c
         \<and> (\<forall>l. int (length (zstd_EncodeAll (cmp_lib (tp_cmp c)) l p)) \<le> tp_PayloadSize c)
     | _ \<Rightarrow> False"
  then show ?thesis using decodes_data [OF assms(1) t] by (cases "m_Payload m") auto
next
  assume t: "m_Type m = MessageTypeData" "m_IsACK m"
    and p: "case m_Payload m of
       PAck a \<Rightarrow> ack_wf a \<and> ack_data a \<noteq> [] \<and> ack_size a \<le> tp_PayloadSize c | _ \<Rightarrow> False"
  show ?thesis
  proof (cases "m_Payload m")
    case (PAck a)
    with p decodes_ack [OF t PAck, of c rnd] show ?thesis by auto
  qed (use p in simp_all)
qed

text \<open>The announced length fits the field of the header and the receiver's limit.\<close>

lemma announced_length:
  assumes "tapir_ok c" "0 \<le> n" "n \<le> tp_PayloadSize c"
  shows "(of_int (tp_GetLength c n) :: u16) \<le> tp_maxEncryptedPayloadSize c"
    and "uint (of_int (tp_GetLength c n) :: u16) = tp_GetLength c n"
    and "n \<le> tp_GetLength c n"
proof -
  have range: "n \<le> tp_GetLength c n" "tp_GetLength c n \<le> tp_GetLength c (tp_PayloadSize c)"
    "tp_GetLength c (tp_PayloadSize c) < 65536"
    using assms by (auto simp: tapir_ok_def)
  have u: "uint (of_int k :: u16) = k" if "0 \<le> k" "k < 65536" for k
    using that by (simp add: uint_word_of_int)
  then show "uint (of_int (tp_GetLength c n) :: u16) = tp_GetLength c n" using range assms(2) by simp
  show "(of_int (tp_GetLength c n) :: u16) \<le> tp_maxEncryptedPayloadSize c"
    using range assms u [of "tp_GetLength c n"] u [of "tp_GetLength c (tp_PayloadSize c)"]
    by (simp add: tapir_ok_def word_le_def)
  show "n \<le> tp_GetLength c n" by (rule range)
qed

text \<open>What arrives of a message.\<close>

definition arrives_as :: "tapir \<Rightarrow> message \<Rightarrow> bytes \<Rightarrow> message \<Rightarrow> bool" where
  "arrives_as c m p m' \<longleftrightarrow> m_Type m' = m_Type m \<and> m_ID m' = m_ID m \<and> m_SessionID m' = m_SessionID m
     \<and> m_IsACK m' = m_IsACK m \<and> m_Error m' = m_Error m \<and> (m_IsError m' \<longleftrightarrow> m_Error m > 0)
     \<and> (m_Error m = 0 \<longrightarrow> IsPayload m \<longrightarrow> m_Payload m' = received_payload m
          \<and> (m_IsRequest m' \<longleftrightarrow> (\<exists>r. m_Payload m = PAuthRequest r)))
     \<and> uint (m_PayloadLength m') = (if m_Error m > 0 \<or> IsPayload m then tp_GetLength c (int (length p)) else 0)"

lemma decode_error:
  assumes "tapir_ok c" "MessageType_Valid (m_Type m)" "m_Error m > 0"
  shows "\<exists>h p m'. Marshal c rnd m = Ok (h, p) \<and> length h = HeaderSize \<and> int (length p) \<le> tp_PayloadSize c
     \<and> decode_message c h p = Ok m' \<and> arrives_as c m p m' \<and> p \<noteq> []"
proof -
  let ?l = "of_int (tp_GetLength c 1) :: u16"
  have one: "1 \<le> tp_PayloadSize c" using assms(1) by (simp add: tapir_ok_def)
  note len = announced_length [OF assms(1), of 1, OF _ one]
  have "1 \<le> uint ?l" using len by simp
  then have nz: "?l \<noteq> 0" by auto
  define f where "f = (if m_Error m > 0 then flagError else 0) + (if m_IsACK m then flagACK else 0)"
  have f: "set_flags f (new_message\<lparr>m_Type := m_Type m\<rparr>) = new_message\<lparr>m_Type := m_Type m, m_IsError := True,
      m_IsACK := m_IsACK m, m_IsRequest := False, m_CompressionType := 0\<rparr>"
    using set_flags_new [of 0 True "m_IsACK m" "m_Type m"] assms(3)
    by (simp add: compression_flag_def flag_compression_def f_def)
  have "Marshal c rnd m = Ok (marshal_header m f ?l, [m_Error m])"
    using assms(3) by (simp add: Marshal_def Let_def f_def)
  moreover have "decode_message c (marshal_header m f ?l) [m_Error m] =
      Ok (set_flags f (new_message\<lparr>m_Type := m_Type m\<rparr>)\<lparr>m_ID := m_ID m, m_SessionID := m_SessionID m,
        m_PayloadLength := ?l, m_Payload := PBytes [m_Error m], m_Error := m_Error m\<rparr>)"
    using nz by (simp add: decode_message_def UnmarshalHeader_marshal_header [OF assms(2) len(1)] UnmarshalPayload_def payload_bytes_def f)
  moreover have "m_Error m \<noteq> 0" using assms(3) by auto
  ultimately show ?thesis
    using one len assms(3) by (simp add: arrives_as_def f)
qed

lemma decode_nopayload:
  assumes "MessageType_Valid (m_Type m)" "m_Error m = 0" "\<not> IsPayload m"
  shows "\<exists>h p m'. Marshal c rnd m = Ok (h, p) \<and> length h = HeaderSize \<and> p = []
     \<and> decode_message c h p = Ok m' \<and> arrives_as c m p m'"
proof -
  define f where "f = (0 :: u8) + (if m_IsACK m then flagACK else 0)"
  have f: "set_flags f (new_message\<lparr>m_Type := m_Type m\<rparr>) = new_message\<lparr>m_Type := m_Type m, m_IsError := False,
      m_IsACK := m_IsACK m, m_IsRequest := False, m_CompressionType := 0\<rparr>"
    using set_flags_new [of 0 False "m_IsACK m" "m_Type m"]
    by (simp add: compression_flag_def flag_compression_def f_def)
  have "marshal_payload c rnd m = Ok (0, None)"
    using assms(3) by (auto simp: marshal_payload_def IsPayload_def)
  then have "Marshal c rnd m = Ok (marshal_header m f 0, [])"
    using assms(2) by (simp add: Marshal_def Let_def f_def)
  moreover have "decode_message c (marshal_header m f 0) [] =
      Ok (set_flags f (new_message\<lparr>m_Type := m_Type m\<rparr>)\<lparr>m_ID := m_ID m, m_SessionID := m_SessionID m,
        m_PayloadLength := 0, m_Payload := PBytes []\<rparr>)"
    by (simp add: decode_message_def UnmarshalHeader_marshal_header [OF assms(1)] UnmarshalPayload_def f)
  ultimately show ?thesis using assms(2,3) by (simp add: arrives_as_def f) (simp add: new_message_def)
qed

lemma decode_payload:
  assumes ok: "tapir_ok c" and valid: "MessageType_Valid (m_Type m)" and noerr: "m_Error m = 0" and pl: "IsPayload m"
    and gp: "marshal_payload c rnd m = Ok (g, Some p)" "payload_decodes c m g p"
  shows "\<exists>h p m'. Marshal c rnd m = Ok (h, p) \<and> length h = HeaderSize \<and> int (length p) \<le> tp_PayloadSize c
     \<and> decode_message c h p = Ok m' \<and> arrives_as c m p m' \<and> (p = [] \<longrightarrow> m_Payload m = PBytes [])"
proof -
  let ?l = "of_int (tp_GetLength c (int (length p))) :: u16"
  have pl': "int (length p) \<le> tp_PayloadSize c" using gp(2) by (simp add: payload_decodes_def)
  note len = announced_length [OF ok _ pl', simplified]
  define f where "f = 0 + (if m_IsACK m then flagACK else 0) + g"
  have f: "set_flags f (new_message\<lparr>m_Type := m_Type m\<rparr>) = new_message\<lparr>m_Type := m_Type m, m_IsError := False,
      m_IsACK := m_IsACK m, m_IsRequest := (g = flagRequest), m_CompressionType := flag_compression g\<rparr>"
    using set_flags_new [of g False "m_IsACK m" "m_Type m"] gp(2)
    by (simp add: payload_decodes_def f_def)
  define m1 where "m1 = new_message\<lparr>m_Type := m_Type m, m_IsError := False,
      m_IsACK := m_IsACK m, m_IsRequest := (g = flagRequest), m_CompressionType := flag_compression g,
      m_ID := m_ID m, m_SessionID := m_SessionID m, m_PayloadLength := ?l, m_Payload := PBytes p\<rparr>"
  have marshal: "Marshal c rnd m = Ok (marshal_header m f ?l, p)"
    using noerr gp(1) by (simp add: Marshal_def Let_def f_def)
  have decode: "decode_message c (marshal_header m f ?l) p = UnmarshalPayload c m1"
    by (simp add: decode_message_def UnmarshalHeader_marshal_header [OF valid len(1)] f m1_def)
  have "UnmarshalPayload c m1 = Ok (m1\<lparr>m_Payload := received_payload m\<rparr>)"
  proof (cases "?l = 0")
    case True
    then have "p = []" using len by simp
    then have "received_payload m = PBytes []" using gp(2) by (simp add: payload_decodes_def)
    with True \<open>p = []\<close> show ?thesis by (simp add: UnmarshalPayload_def m1_def)
  next
    case False
    have "\<And>m1. m_Type m1 = m_Type m \<Longrightarrow> \<not> m_IsError m1 \<Longrightarrow> m_IsRequest m1 = (g = flagRequest) \<Longrightarrow>
          m_IsACK m1 = m_IsACK m \<Longrightarrow> m_CompressionType m1 = flag_compression g \<Longrightarrow>
          m_Payload m1 = PBytes p \<Longrightarrow> m_PayloadLength m1 \<noteq> 0 \<Longrightarrow>
          UnmarshalPayload c m1 = Ok (m1\<lparr>m_Payload := received_payload m\<rparr>)"
      using gp(2) by (simp add: payload_decodes_def)
    from this [of m1] False show ?thesis by (simp add: m1_def)
  qed
  moreover have "arrives_as c m p (m1\<lparr>m_Payload := received_payload m\<rparr>)"
  proof -
    have "m_Error m1 = 0" by (simp add: m1_def new_message_def)
    moreover have "g = flagRequest \<longleftrightarrow> m_Type m = MessageTypeAuthentication \<and> (\<exists>r. m_Payload m = PAuthRequest r)"
      using gp(2) by (simp add: payload_decodes_def)
    moreover have "m_Type m = MessageTypeAuthentication" if "m_Payload m = PAuthRequest r" for r
      using gp(1) that valid pl
      by (auto simp: marshal_payload_def IsPayload_def MessageType_Valid_def split: if_splits)
    ultimately show ?thesis
      using noerr pl len by (auto simp: arrives_as_def m1_def)
  qed
  moreover have "p = [] \<longrightarrow> m_Payload m = PBytes []"
    using gp(2) by (auto simp: payload_decodes_def received_payload_def split: payload.splits)
  ultimately show ?thesis using marshal decode pl' by (intro exI conjI) auto
qed

text \<open>The three cases together, for the transports.\<close>

lemma marshal_arrives:
  assumes "tapir_ok c" "wire_ok c m"
  shows "\<exists>h p m'. Marshal c rnd m = Ok (h, p) \<and> length h = HeaderSize \<and> int (length p) \<le> tp_PayloadSize c
     \<and> decode_message c h p = Ok m' \<and> arrives_as c m p m'
     \<and> (p = [] \<longrightarrow> (m_Error m = 0 \<and> \<not> IsPayload m) \<or> m_Payload m = PBytes [])
     \<and> (m_Error m = 0 \<and> \<not> IsPayload m \<longrightarrow> p = [])"
proof -
  have valid: "MessageType_Valid (m_Type m)" using assms(2) by (simp add: wire_ok_def)
  consider "m_Error m > 0" | "m_Error m = 0" "\<not> IsPayload m" | "m_Error m = 0" "IsPayload m" "wire_payload c m"
    using assms(2) by (cases "m_Error m = 0") (auto simp: wire_ok_def word_neq_0_conv)
  then show ?thesis
  proof cases
    case 1
    then have "m_Error m \<noteq> 0" by auto
    with decode_error [OF assms(1) valid 1, of rnd] show ?thesis by auto
  next
    case 2
    have "0 \<le> tp_PayloadSize c" using assms(1) by (simp add: tapir_ok_def)
    with decode_nopayload [OF valid 2, of c rnd] 2 show ?thesis by auto
  next
    case 3
    from wire_payload_decodes [OF assms(1) 3(3), of rnd] show ?thesis
      using decode_payload [OF assms(1) valid 3(1,2)] 3(2) by blast
  qed
qed

text \<open>Decoding the payload leaves the fields of the header alone.\<close>

lemma UnmarshalPayload_changes:
  assumes "UnmarshalPayload c m = Ok m2"
  shows "m2 = m \<or> (\<exists>e. m2 = m\<lparr>m_Error := e\<rparr>) \<or> (\<exists>p. m2 = m\<lparr>m_Payload := p\<rparr>)"
  using assms unfolding UnmarshalPayload_def
  by (auto simp: res_simps split: if_splits)

lemma UnmarshalPayload_keeps:
  assumes "UnmarshalPayload c m = Ok m2"
  shows "m_Type m2 = m_Type m" "m_ID m2 = m_ID m" "m_SessionID m2 = m_SessionID m" "m_IsACK m2 = m_IsACK m"
    "m_PayloadLength m2 = m_PayloadLength m" "m_PacketInfo m2 = m_PacketInfo m"
  using UnmarshalPayload_changes [OF assms] by auto

lemma UnmarshalHeader_keeps:
  assumes "UnmarshalHeader c h m = Ok m1"
  shows "m_Payload m1 = m_Payload m" "m_PacketInfo m1 = m_PacketInfo m"
  using assms by (auto simp: UnmarshalHeader_def set_flags_def res_simps split: if_splits)

section \<open>Properties\<close>

text \<open>
  C8. The wire format round trip: every message of the right shape is encoded to a header of
  twelve bytes and a payload of at most \<open>PayloadSize\<close> bytes, and the two decoding steps
  give back its type, identifiers, flags, error code and payload, whatever fake data was
  added and whichever compression was used.
\<close>

theorem codec_roundtrip:
  assumes "tapir_ok c" "wire_ok c m"
  shows "\<exists>h p m'. Marshal c rnd m = Ok (h, p) \<and> length h = HeaderSize \<and> int (length p) \<le> tp_PayloadSize c
     \<and> decode_message c h p = Ok m' \<and> arrives_as c m p m'"
using marshal_arrives [OF assms, of rnd] by blast

text \<open>A library that compresses nothing, for examples.\<close>

definition plain_lib :: compress_lib where
  "plain_lib = \<lparr>lz4_CompressBlock = Some, lz4_UncompressBlock = (\<lambda>x _. Ok x), lzo_Compress1X = (\<lambda>x. x),
     lzo_Decompress1X = (\<lambda>x _ _. Ok x), zstd_EncodeAll = (\<lambda>_ x. x), zstd_DecodeAll = Ok\<rparr>"

definition sample_tapir :: tapir where
  "sample_tapir = NewTapirCodec plain_lib 1400 True (\<lambda>n. n + 28)"

lemma sample_tapir_ok: "tapir_ok sample_tapir"
  by (simp add: tapir_ok_def sample_tapir_def NewTapirCodec_def new_compressor_def compress_law_def plain_lib_def)

theorem codec_roundtrip_witness:
  "\<exists>h p m'. Marshal sample_tapir (\<lambda>i. i + 5) (new_message\<lparr>m_Type := MessageTypeHandshake, m_ID := 7, m_Payload := PHandshake [1, 2, 3]\<rparr>) = Ok (h, p)
     \<and> length h = HeaderSize \<and> int (length p) \<le> tp_PayloadSize sample_tapir \<and> decode_message sample_tapir h p = Ok m'
     \<and> arrives_as sample_tapir (new_message\<lparr>m_Type := MessageTypeHandshake, m_ID := 7, m_Payload := PHandshake [1, 2, 3]\<rparr>) p m'"
proof (rule codec_roundtrip [OF sample_tapir_ok])
  show "wire_ok sample_tapir (new_message\<lparr>m_Type := MessageTypeHandshake, m_ID := 7, m_Payload := PHandshake [1, 2, 3]\<rparr>)"
    by (simp add: wire_ok_def wire_payload_def fields_fit_def MessageType_Valid_def sample_tapir_def NewTapirCodec_def)
qed

text \<open>What the libraries do with foreign data: they answer, or report an error.\<close>

definition lib_no_panic :: "compress_lib \<Rightarrow> bool" where
  "lib_no_panic lib \<longleftrightarrow> (\<forall>x n. lz4_UncompressBlock lib x n \<noteq> Panic)
     \<and> (\<forall>x n k. lzo_Decompress1X lib x n k \<noteq> Panic) \<and> (\<forall>x. zstd_DecodeAll lib x \<noteq> Panic)"

lemma decompress_no_panic: "lib_no_panic (cmp_lib (tp_cmp c)) \<Longrightarrow> decompress_payload c m b \<noteq> Panic"
  by (simp add: lib_no_panic_def decompress_payload_def DecompressLZ4_def DecompressLZO_def DecompressZSTD_def)

lemma head_byte_Panic: "head_byte b = Panic \<longleftrightarrow> b = []"
  by (cases b) (simp_all add: head_byte_def)

lemma unmarshalBytes_no_panic: "unmarshalBytes b n \<noteq> Panic"
  by (simp add: unmarshalBytes_def unmarshal_loop_no_panic)

lemma unmarshal_auth_Panic:
  "unmarshal_auth b req = Panic \<longleftrightarrow>
     req \<and> (\<exists>fields. unmarshalBytes b 5 = Ok fields \<and> length fields = 5 \<and> (fields ! 3 = [] \<or> fields ! 4 = []))"
proof (cases req)
  case True
  show ?thesis
  proof (cases "unmarshalBytes b 5")
    case (Ok fields)
    then show ?thesis
      using True head_byte_Panic [of "fields ! 3"] head_byte_Panic [of "fields ! 4"]
      by (cases "head_byte (fields ! 3)"; cases "head_byte (fields ! 4)")
        (auto simp: unmarshal_auth_def head_byte_def split: list.splits)
  qed (use True unmarshalBytes_no_panic [of b 5] in \<open>simp_all add: unmarshal_auth_def\<close>)
next
  case False
  obtain sid where "14 \<le> length b \<Longrightarrow> unbe32 b = Some sid" using unbe32_Some [of b] by (cases "14 \<le> length b") auto
  then show ?thesis
    using False unmarshalBytes_no_panic [of "drop 4 b" 2] by (auto simp: unmarshal_auth_def res_simps)
qed

text \<open>
  The bytes of a peer make \<open>UnmarshalPayload\<close> panic in exactly one way: an authentication
  request whose fourth or fifth field is empty, where the code reads its first byte.
\<close>

theorem UnmarshalPayload_panics_iff:
  assumes "m_Payload m = PBytes b" "lib_no_panic (cmp_lib (tp_cmp c))"
  shows "UnmarshalPayload c m = Panic \<longleftrightarrow>
     m_PayloadLength m \<noteq> 0 \<and> \<not> m_IsError m \<and> m_Type m = MessageTypeAuthentication \<and> m_IsRequest m
     \<and> (\<exists>fields. unmarshalBytes b 5 = Ok fields \<and> length fields = 5 \<and> (fields ! 3 = [] \<or> fields ! 4 = []))"
  using assms unack_loop_no_panic [of "[]" b] unmarshalBytes_no_panic decompress_no_panic [OF assms(2)]
  by (auto simp: UnmarshalPayload_def payload_bytes_def res_simps unmarshal_auth_Panic UnmarshalAcknowledgement_def)

theorem UnmarshalPayload_panics_iff_witness:
  "UnmarshalPayload sample_tapir (new_message\<lparr>m_Type := MessageTypeAuthentication, m_IsRequest := True,
     m_PayloadLength := 5, m_Payload := PBytes [0, 0, 0, 0, 0]\<rparr>) = Panic"
proof -
  let ?m = "new_message\<lparr>m_Type := MessageTypeAuthentication, m_IsRequest := True,
     m_PayloadLength := 5, m_Payload := PBytes [0, 0, 0, 0, 0]\<rparr>"
  have p: "m_Payload ?m = PBytes [0, 0, 0, 0, 0]" by simp
  have l: "lib_no_panic (cmp_lib (tp_cmp sample_tapir))"
    by (simp add: lib_no_panic_def sample_tapir_def NewTapirCodec_def new_compressor_def plain_lib_def)
  have "unmarshalBytes [0, 0, 0, 0, 0] 5 = Ok [[], [], [], [], []]"
    by (simp add: unmarshalBytes_def)
  then show ?thesis
    unfolding UnmarshalPayload_panics_iff [OF p l] by (simp add: new_message_def)
qed

end
