(* ===== verification/Transport.thy ===== *)
theory Transport
  imports Codec Encryptors
begin

text \<open>
  What the client and the server transports share: reading a fixed number of bytes from a
  socket that delivers them in pieces, writing a slice in pieces, decoding a frame (an
  encrypted header followed by an encrypted payload), and opening the payload of a message.
\<close>

section \<open>Reading and writing in pieces\<close>

text \<open>
  \<open>conn.Read(buf[received:])\<close> in a loop until \<open>n\<close> bytes are there. A chunk longer than the
  room stays in the socket. An error in \<open>stop\<close> ends the loop, any other one is passed over;
  the loop blocks when nothing arrives any more.
\<close>

datatype 'a reading = Got 'a "gerror rd list" | ReadFailed gerror "gerror rd list" | Blocked

fun read_full :: "(gerror \<Rightarrow> bool) \<Rightarrow> nat \<Rightarrow> bytes \<Rightarrow> gerror rd list \<Rightarrow> bytes reading" where
  "read_full stop n acc [] = Blocked"
| "read_full stop n acc (RdErr e # es) = (if stop e then ReadFailed e es else read_full stop n acc es)"
| "read_full stop n acc (Data bs # es) =
     (if length acc + length bs < n then read_full stop n (acc @ bs) es
      else Got (acc @ take (n - length acc) bs)
             (if length bs = n - length acc then es else Data (drop (n - length acc) bs) # es))"

text \<open>The loop \<open>for sent < len(data)\<close> around \<open>conn.Write\<close>; \<open>None\<close> is a write that blocks.\<close>

datatype wr = Wrote nat | WrErr gerror

fun write_all :: "bytes \<Rightarrow> wr list \<Rightarrow> (bytes \<times> (gerror, unit) res) option" where
  "write_all data ws =
     (if data = [] then Some ([], Ok ())
      else case ws of
        [] \<Rightarrow> None
      | WrErr e # ws \<Rightarrow> Some ([], Err e)
      | Wrote n # ws \<Rightarrow> map_option (\<lambda>(out, r). (take n data @ out, r)) (write_all (drop n data) ws))"

declare write_all.simps [simp del]

text \<open>What has been written when the loop ends without an error is the whole slice.\<close>

lemma write_all_Ok: "write_all data ws = Some (out, Ok ()) \<Longrightarrow> out = data"
proof (induction ws arbitrary: data out)
  case Nil
  then show ?case by (subst (asm) write_all.simps) (auto split: if_splits)
next
  case (Cons w ws)
  show ?case
  proof (cases "data = []")
    case False
    then obtain n out' where "w = Wrote n" "write_all (drop n data) ws = Some (out', Ok ())" "out = take n data @ out'"
      using Cons.prems by (subst (asm) write_all.simps) (auto split: wr.splits)
    then show ?thesis using Cons.IH [of "drop n data" out'] by simp
  qed (use Cons.prems in \<open>subst (asm) write_all.simps; auto\<close>)
qed

text \<open>Whatever the pieces, a read that returns has the next \<open>n\<close> bytes of the stream.\<close>

lemma read_full_bytes:
  "read_full stop n acc es = Got bs rest \<Longrightarrow> length acc \<le> n \<Longrightarrow>
     length bs = n \<and> acc @ sock_bytes es = bs @ sock_bytes rest"
proof (induction stop n acc es rule: read_full.induct)
  case (3 stop n acc ds es)
  show ?case
  proof (cases "length acc + length ds < n")
    case True
    then show ?thesis using 3(1) [OF True] 3(2) by simp
  next
    case False
    then have bs: "bs = acc @ take (n - length acc) ds"
      and rest: "rest = (if length ds = n - length acc then es else Data (drop (n - length acc) ds) # es)"
      using 3(2) by simp_all
    have "sock_bytes rest = drop (n - length acc) ds @ sock_bytes es" by (simp add: rest)
    then show ?thesis using False 3(3) by (simp add: bs)
  qed
qed (auto split: if_splits)

lemma read_full_no_errors: "read_full stop n acc es = Got bs rest \<Longrightarrow> no_errors es \<Longrightarrow> no_errors rest"
  by (induction stop n acc es rule: read_full.induct) (auto split: if_splits)

text \<open>If the bytes arrive without an error, the read returns.\<close>

lemma read_full_returns:
  "no_errors es \<Longrightarrow> 0 < n \<Longrightarrow> length acc \<le> n \<Longrightarrow> n \<le> length acc + length (sock_bytes es) \<Longrightarrow>
   (length acc < n \<or> es \<noteq> []) \<Longrightarrow> \<exists>bs rest. read_full stop n acc es = Got bs rest"
proof (induction stop n acc es rule: read_full.induct)
  case (3 stop n acc ds es)
  show ?case
  proof (cases "length acc + length ds < n")
    case True
    then show ?thesis using 3(1) [OF True] 3(2-) by auto
  qed simp
qed auto

lemma no_errors_read_full: "no_errors es \<Longrightarrow> read_full stop n acc es \<noteq> ReadFailed e rest"
  by (induction stop n acc es rule: read_full.induct) auto

section \<open>Frames\<close>

record transport =
  tr_codec :: tapir
  tr_enc :: encryptor \<comment> \<open>\<open>PrimaryEncryptor\<close>\<close>
  tr_MTU :: int

definition headerLength :: "transport \<Rightarrow> nat" where
  "headerLength t = nat (e_GetLength (tr_enc t) (int HeaderSize))"

text \<open>Decrypting and decoding a header into a fresh message.\<close>

definition open_header :: "transport \<Rightarrow> bytes \<Rightarrow> (gerror, message) res" where
  "open_header t header =
     rbind (e_Decrypt (tr_enc t) (PBytes header)) (\<lambda>h. UnmarshalHeader (tr_codec t) h new_message)"

text \<open>
  The middle part of every receiver: the payload is decrypted, decoded, and the packet of user
  data is described. The packet decoder is a parameter, as in the interface of the code.
\<close>

type_synonym packet_decoder = "bytes \<Rightarrow> (gerror, packet_info option) res"

definition open_payload :: "transport \<Rightarrow> packet_decoder \<Rightarrow> encryptor \<Rightarrow> message \<Rightarrow> (gerror, message) res" where
  "open_payload t decode enc m =
     (if \<not> IsPayload m then Ok m
      else rbind (e_Decrypt enc (m_Payload m)) (\<lambda>p.
           rbind (UnmarshalPayload (tr_codec t) (m\<lparr>m_Payload := PBytes p\<rparr>)) (\<lambda>m1.
             if IsUserData m1 then
               rbind (payload_bytes m1) (\<lambda>b.
               rbind (decode b) (\<lambda>info. Ok (m1\<lparr>m_PacketInfo := info\<rparr>)))
             else Ok m1)))"

text \<open>
  Encrypting the two parts of a message. \<open>force\<close>: an empty payload is encrypted as well, as
  the TCP sender of the client does; \<open>payload_first\<close> is the order of the two encryptions.
\<close>

definition seal_payload :: "transport \<Rightarrow> bool \<Rightarrow> encryptor option \<Rightarrow> rand_read \<Rightarrow> bytes \<Rightarrow> (gerror, bytes) res" where
  "seal_payload t force user rnd p =
     (if p = [] \<and> \<not> force then Ok []
      else case user of Some u \<Rightarrow> e_Encrypt u rnd p | None \<Rightarrow> e_Encrypt (tr_enc t) rnd p)"

definition seal :: "transport \<Rightarrow> bool \<Rightarrow> bool \<Rightarrow> encryptor option \<Rightarrow> (nat \<Rightarrow> nat) \<Rightarrow> rand_read \<Rightarrow> rand_read \<Rightarrow> message \<Rightarrow> (gerror, bytes) res" where
  "seal t force payload_first user fake rnd1 rnd2 m =
     rbind (Marshal (tr_codec t) fake m) (\<lambda>(h, p).
       if payload_first then
         rbind (seal_payload t force user rnd1 p) (\<lambda>cp.
         rbind (e_Encrypt (tr_enc t) rnd2 h) (\<lambda>ch. Ok (ch @ cp)))
       else
         rbind (e_Encrypt (tr_enc t) rnd1 h) (\<lambda>ch.
         rbind (seal_payload t force user rnd2 p) (\<lambda>cp. Ok (ch @ cp))))"

section \<open>Frames decode to their messages\<close>

text \<open>
  A transport is set up right: the codec is well-formed, announces the lengths of the
  encryptors, and both encryptors obey the contract, with nonces of the given size.
\<close>

definition transport_ok :: "nat \<Rightarrow> transport \<Rightarrow> encryptor \<Rightarrow> bool" where
  "transport_ok k t u \<longleftrightarrow> tapir_ok (tr_codec t) \<and> encryptor_laws (tr_enc t) k \<and> encryptor_laws u k
     \<and> (\<forall>n\<ge>0. e_GetLength (tr_enc t) n = tp_GetLength (tr_codec t) n \<and> e_GetLength u n = tp_GetLength (tr_codec t) n)"

definition payload_encryptor :: "transport \<Rightarrow> encryptor option \<Rightarrow> encryptor" where
  "payload_encryptor t user = (case user of Some u \<Rightarrow> u | None \<Rightarrow> tr_enc t)"

text \<open>A frame for a message: header and payload with the lengths that go with them.\<close>

definition frame_for :: "transport \<Rightarrow> encryptor \<Rightarrow> message \<Rightarrow> bytes \<Rightarrow> bytes \<Rightarrow> bool" where
  "frame_for t u m ch cp \<longleftrightarrow> length ch = headerLength t
     \<and> (\<exists>m1. open_header t ch = Ok m1 \<and> m_Type m1 = m_Type m \<and> m_IsACK m1 = m_IsACK m
          \<and> m_SessionID m1 = m_SessionID m \<and> m_ID m1 = m_ID m \<and> m_Payload m1 = PNil
          \<and> unat (m_PayloadLength m1) = length cp
          \<and> (cp = [] \<longleftrightarrow> \<not> IsPayload m \<and> m_Error m = 0)
          \<and> (cp \<noteq> [] \<longrightarrow> (\<exists>p m2. e_Decrypt u (PBytes cp) = Ok p
               \<and> UnmarshalPayload (tr_codec t) (m1\<lparr>m_Payload := PBytes p\<rparr>) = Ok m2
               \<and> arrives_as (tr_codec t) m p m2)))"

definition sendable :: "transport \<Rightarrow> message \<Rightarrow> bool" where
  \<comment> \<open>an encodable message; user data is never empty: it is an IP packet\<close>
  "sendable t m \<longleftrightarrow> wire_ok (tr_codec t) m \<and> (m_Error m > 0 \<longrightarrow> IsPayload m) \<and> m_Payload m \<noteq> PBytes []"

lemma headerLength_pos: "transport_ok k t u \<Longrightarrow> 12 \<le> headerLength t"
proof -
  assume "transport_ok k t u"
  then have law: "int HeaderSize \<le> e_GetLength (tr_enc t) (int HeaderSize)"
    using encryptor_laws.length_above [of "tr_enc t" k "int HeaderSize"] by (simp add: transport_ok_def)
  then show "12 \<le> headerLength t" by (simp add: headerLength_def)
qed

lemma seal_payload_opens:
  assumes "encryptor_laws u k" "rand_ok k rnd" "payload_encryptor t user = u" "p \<noteq> []"
  shows "\<exists>cp. seal_payload t force user rnd p = Ok cp \<and> e_Decrypt u (PBytes cp) = Ok p
     \<and> int (length cp) = e_GetLength u (int (length p)) \<and> cp \<noteq> []"
proof -
  obtain cp where cp: "e_Encrypt u rnd p = Ok cp"
    using encryptor_laws.encrypt_decrypt [OF assms(1,2,4)] by blast
  moreover have "seal_payload t force user rnd p = e_Encrypt u rnd p"
    using assms(3,4) by (auto simp: seal_payload_def payload_encryptor_def split: option.splits)
  ultimately show ?thesis using encryptor_laws.decrypt_encrypted [OF assms(1,2,4) cp] by auto
qed

text \<open>Every sendable message is sealed into a frame for it.\<close>

lemma seal_frame:
  assumes ok: "transport_ok k t (payload_encryptor t user)" and rnd: "rand_ok k rnd1" "rand_ok k rnd2"
    and m: "sendable t m" and force: "force \<longrightarrow> IsPayload m"
  shows "\<exists>ch cp. seal t force pf user fake rnd1 rnd2 m = Ok (ch @ cp) \<and> frame_for t (payload_encryptor t user) m ch cp"
proof -
  let ?u = "payload_encryptor t user" and ?c = "tr_codec t"
  have laws: "encryptor_laws (tr_enc t) k" "encryptor_laws ?u k" and tapir: "tapir_ok ?c"
    and lens: "\<And>n. 0 \<le> n \<Longrightarrow> e_GetLength (tr_enc t) n = tp_GetLength ?c n" "\<And>n. 0 \<le> n \<Longrightarrow> e_GetLength ?u n = tp_GetLength ?c n"
    using ok by (auto simp: transport_ok_def)
  have wire: "wire_ok ?c m" using m by (simp add: sendable_def)
  obtain h p m2 where marshal: "Marshal ?c fake m = Ok (h, p)" "length h = HeaderSize"
    "decode_message ?c h p = Ok m2" "arrives_as ?c m p m2"
    and empty: "p = [] \<longrightarrow> (m_Error m = 0 \<and> \<not> IsPayload m) \<or> m_Payload m = PBytes []"
      "m_Error m = 0 \<and> \<not> IsPayload m \<longrightarrow> p = []"
    using marshal_arrives [OF tapir wire, of fake] by blast
  obtain m1 where m1: "UnmarshalHeader ?c h new_message = Ok m1" "UnmarshalPayload ?c (m1\<lparr>m_Payload := PBytes p\<rparr>) = Ok m2"
    using marshal(3) by (auto simp: decode_message_def res_simps)
  have p0: "p = [] \<longleftrightarrow> \<not> IsPayload m \<and> m_Error m = 0"
    using empty m unfolding sendable_def by blast
  note keeps = UnmarshalPayload_keeps [OF m1(2), simplified]
  have fields: "m_Type m1 = m_Type m" "m_ID m1 = m_ID m" "m_SessionID m1 = m_SessionID m" "m_IsACK m1 = m_IsACK m"
    "uint (m_PayloadLength m1) = (if p = [] then 0 else tp_GetLength ?c (int (length p)))"
  proof -
    have "m_Error m > 0 \<or> IsPayload m \<longleftrightarrow> p \<noteq> []"
      using p0 word_neq_0_conv [of "m_Error m"] by blast
    then show "m_Type m1 = m_Type m" "m_ID m1 = m_ID m" "m_SessionID m1 = m_SessionID m" "m_IsACK m1 = m_IsACK m"
      "uint (m_PayloadLength m1) = (if p = [] then 0 else tp_GetLength ?c (int (length p)))"
      using marshal(4) keeps unfolding arrives_as_def by simp_all
  qed
  have hne: "h \<noteq> []" using marshal(2) by auto
  have head: "\<exists>ch. e_Encrypt (tr_enc t) rnd h = Ok ch \<and> length ch = headerLength t \<and> open_header t ch = Ok m1"
    if rk: "rand_ok k rnd" for rnd
  proof -
    obtain ch where ch: "e_Encrypt (tr_enc t) rnd h = Ok ch"
      using encryptor_laws.encrypt_decrypt [OF laws(1) rk hne] by blast
    note dec = encryptor_laws.decrypt_encrypted [OF laws(1) rk hne ch]
    have "int (length ch) = e_GetLength (tr_enc t) (int HeaderSize)" using dec(2) marshal(2) by simp
    then have "length ch = headerLength t" unfolding headerLength_def by linarith
    with ch dec(1) m1(1) show ?thesis by (simp add: open_header_def)
  qed
  have body: "\<exists>cp. seal_payload t force user rnd p = Ok cp \<and> (cp = [] \<longleftrightarrow> p = []) \<and> unat (m_PayloadLength m1) = length cp
      \<and> (cp \<noteq> [] \<longrightarrow> e_Decrypt ?u (PBytes cp) = Ok p)"
    if rk: "rand_ok k rnd" for rnd
  proof (cases "p = []")
    case True
    then have "\<not> force" using force p0 by blast
    moreover have "unat (m_PayloadLength m1) = 0" using True fields(5) unfolding unat_eq_nat_uint by simp
    ultimately show ?thesis using True by (simp add: seal_payload_def)
  next
    case False
    obtain cp where cp: "seal_payload t force user rnd p = Ok cp" "e_Decrypt ?u (PBytes cp) = Ok p"
      "int (length cp) = e_GetLength ?u (int (length p))" "cp \<noteq> []"
      using seal_payload_opens [OF laws(2) rk refl False] by blast
    have "int (unat (m_PayloadLength m1)) = int (length cp)"
      using False fields(5) cp(3) lens(2) unfolding unat_eq_nat_uint by simp
    then have "unat (m_PayloadLength m1) = length cp" by (rule injD [OF inj_of_nat])
    with cp False show ?thesis by auto
  qed
  obtain cha where cha: "e_Encrypt (tr_enc t) rnd1 h = Ok cha" "length cha = headerLength t" "open_header t cha = Ok m1"
    using head [OF rnd(1)] by blast
  obtain chb where chb: "e_Encrypt (tr_enc t) rnd2 h = Ok chb" "length chb = headerLength t" "open_header t chb = Ok m1"
    using head [OF rnd(2)] by blast
  obtain cpa where cpa: "seal_payload t force user rnd1 p = Ok cpa" "cpa = [] \<longleftrightarrow> p = []"
    "unat (m_PayloadLength m1) = length cpa" "cpa \<noteq> [] \<longrightarrow> e_Decrypt ?u (PBytes cpa) = Ok p"
    using body [OF rnd(1)] by blast
  obtain cpb where cpb: "seal_payload t force user rnd2 p = Ok cpb" "cpb = [] \<longleftrightarrow> p = []"
    "unat (m_PayloadLength m1) = length cpb" "cpb \<noteq> [] \<longrightarrow> e_Decrypt ?u (PBytes cpb) = Ok p"
    using body [OF rnd(2)] by blast
  have nil: "m_Payload m1 = PNil" using UnmarshalHeader_keeps(1) [OF m1(1)] by (simp add: new_message_def)
  have frame: "frame_for t ?u m ch cp"
    if "length ch = headerLength t" "open_header t ch = Ok m1" "cp = [] \<longleftrightarrow> p = []"
      "unat (m_PayloadLength m1) = length cp" "cp \<noteq> [] \<longrightarrow> e_Decrypt ?u (PBytes cp) = Ok p" for ch cp
    unfolding frame_for_def using that fields(1-4) nil p0 m1(2) marshal(4) by auto
  show ?thesis
  proof (cases pf)
    case True
    then have "seal t force pf user fake rnd1 rnd2 m = Ok (chb @ cpa)"
      using marshal(1) cpa(1) chb(1) by (simp add: seal_def)
    with frame [OF chb(2,3) cpa(2-4)] show ?thesis by blast
  next
    case False
    then have "seal t force pf user fake rnd1 rnd2 m = Ok (cha @ cpb)"
      using marshal(1) cpb(1) cha(1) by (simp add: seal_def)
    with frame [OF cha(2,3) cpb(2-4)] show ?thesis by blast
  qed
qed

text \<open>
  What a receiver makes of a frame: the header opens to a message that announces the length
  of the payload, and with the right encryptor the payload opens to the message that was
  sent. \<open>opens_as\<close> is the message in front of the packet decoder.
\<close>

lemma open_payload_frame:
  assumes "frame_for t u m ch cp" "m_Error m = 0" "IsPayload m" "\<not> IsUserData m"
  shows "\<exists>m1 m2. open_header t ch = Ok m1 \<and> unat (m_PayloadLength m1) = length cp \<and> m_Payload m1 = PNil
     \<and> open_payload t decode u (m1\<lparr>m_Payload := PBytes cp\<rparr>) = Ok m2
     \<and> m_Type m2 = m_Type m \<and> m_ID m2 = m_ID m \<and> m_SessionID m2 = m_SessionID m \<and> m_IsACK m2 = m_IsACK m
     \<and> m_Payload m2 = received_payload m"
proof -
  obtain m1 p m2 where f: "open_header t ch = Ok m1" "m_Type m1 = m_Type m" "m_IsACK m1 = m_IsACK m"
    "unat (m_PayloadLength m1) = length cp" "m_Payload m1 = PNil"
    "e_Decrypt u (PBytes cp) = Ok p" "UnmarshalPayload (tr_codec t) (m1\<lparr>m_Payload := PBytes p\<rparr>) = Ok m2"
    "arrives_as (tr_codec t) m p m2"
    using assms(1-3) unfolding frame_for_def by blast
  have a: "m_Type m2 = m_Type m \<and> m_ID m2 = m_ID m \<and> m_SessionID m2 = m_SessionID m \<and> m_IsACK m2 = m_IsACK m
     \<and> m_Payload m2 = received_payload m"
    using f(8) assms(2,3) by (simp add: arrives_as_def)
  have pay: "IsPayload (m1\<lparr>m_Payload := PBytes cp\<rparr>)" "\<not> IsUserData m2"
    using a f(2,3) assms(3,4) by (simp_all add: IsPayload_def IsUserData_def)
  have "open_payload t decode u (m1\<lparr>m_Payload := PBytes cp\<rparr>) = Ok m2"
    using pay f(6,7) by (simp add: open_payload_def)
  with a f(1,4,5) show ?thesis by blast
qed

lemma open_user_frame:
  assumes "frame_for t u m ch cp" "m_Error m = 0" "IsUserData m" "m_Payload m = PBytes b" "decode b = Ok info"
  shows "\<exists>m1 m2. open_header t ch = Ok m1 \<and> unat (m_PayloadLength m1) = length cp \<and> m_Payload m1 = PNil
     \<and> open_payload t decode u (m1\<lparr>m_Payload := PBytes cp\<rparr>) = Ok (m2\<lparr>m_PacketInfo := info\<rparr>)
     \<and> m_Type m2 = m_Type m \<and> m_ID m2 = m_ID m \<and> m_SessionID m2 = m_SessionID m \<and> m_IsACK m2 = m_IsACK m
     \<and> m_Payload m2 = PBytes b"
proof -
  have pl: "IsPayload m" using assms(3) by (rule IsUserData_IsPayload)
  obtain m1 p m2 where f: "open_header t ch = Ok m1" "m_Type m1 = m_Type m" "m_IsACK m1 = m_IsACK m"
    "unat (m_PayloadLength m1) = length cp" "m_Payload m1 = PNil"
    "e_Decrypt u (PBytes cp) = Ok p" "UnmarshalPayload (tr_codec t) (m1\<lparr>m_Payload := PBytes p\<rparr>) = Ok m2"
    "arrives_as (tr_codec t) m p m2"
    using assms(1,2) pl unfolding frame_for_def by blast
  have a: "m_Type m2 = m_Type m \<and> m_ID m2 = m_ID m \<and> m_SessionID m2 = m_SessionID m \<and> m_IsACK m2 = m_IsACK m
     \<and> m_Payload m2 = PBytes b"
    using f(8) assms(2,4) pl by (simp add: arrives_as_def received_payload_def)
  have pay: "IsPayload (m1\<lparr>m_Payload := PBytes cp\<rparr>)" "IsUserData m2"
    using a f(2,3) assms(3) pl by (simp_all add: IsPayload_def IsUserData_def)
  have "open_payload t decode u (m1\<lparr>m_Payload := PBytes cp\<rparr>) = Ok (m2\<lparr>m_PacketInfo := info\<rparr>)"
    using pay f(6,7) a assms(5) by (simp add: open_payload_def payload_bytes_def)
  with a f(1,4,5) show ?thesis by blast
qed

end
