(* ===== verification/FrameLoop.thy ===== *)
theory FrameLoop
  imports Transport
begin

text \<open>
  The receiving loops over a TCP connection: the client's \<open>ReceiverTCP\<close> with \<open>readTCP\<close>
  (\<open>adapter/client/tcp.go\<close>) and the server's \<open>receiverTCP\<close> (\<open>adapter/server/tcp.go\<close>). Both
  read frames from a stream of bytes that arrives in arbitrary pieces.
\<close>

section \<open>Model\<close>

text \<open>One frame: the header, then as many bytes as the header announces.\<close>

datatype frame_read =
    Frame message int "gerror rd list" \<comment> \<open>the message, the number of bytes, the rest\<close>
  | BadHeader "gerror rd list"
  | HeaderPanic
  | FrameErr gerror "gerror rd list"
  | FrameBlocked

definition readTCP :: "transport \<Rightarrow> gerror rd list \<Rightarrow> frame_read" where
  "readTCP t es =
     (case read_full IsErrorInterruptingNetwork (headerLength t) [] es of
        Blocked \<Rightarrow> FrameBlocked
      | ReadFailed e rest \<Rightarrow> FrameErr e rest
      | Got header es1 \<Rightarrow>
          (case open_header t header of
             Panic \<Rightarrow> HeaderPanic
           | Err _ \<Rightarrow> BadHeader es1
           | Ok m \<Rightarrow>
               if m_PayloadLength m > 0 then
                 (case read_full (\<lambda>e. e = EOF) (unat (m_PayloadLength m)) [] es1 of
                    Blocked \<Rightarrow> FrameBlocked
                  | ReadFailed e rest \<Rightarrow> FrameErr e rest
                  | Got payload rest \<Rightarrow>
                      Frame (m\<lparr>m_Payload := PBytes payload\<rparr>) (int (headerLength t + length payload)) rest)
               else Frame m (int (headerLength t)) es1))"

text \<open>
  What a receiver calls: the encryptor of a connection, the packet decoder, the receiver of
  messages, the statistics and the disconnect handler. They read and change the state of the
  application, of type \<open>'s\<close>; the receiver may also change the connection it is given.
\<close>

record 's receiver_env =
  re_enc :: "connection \<Rightarrow> 's \<Rightarrow> (gerror, encryptor option) res"
  re_decode :: packet_decoder
  re_receiver :: "message \<Rightarrow> connection \<Rightarrow> 's \<Rightarrow> (gerror, unit) res \<times> connection \<times> 's"
  re_stat :: "u32 \<Rightarrow> int \<Rightarrow> 's \<Rightarrow> 's"
  re_disconnect :: "connection \<Rightarrow> gerror option \<Rightarrow> 's \<Rightarrow> 's"

datatype verdict = VDeliver message | VSkip | VStop | VPanic

definition verdict_of :: "transport \<Rightarrow> 's receiver_env \<Rightarrow> connection \<Rightarrow> 's \<Rightarrow> message \<Rightarrow> verdict" where
  "verdict_of t env conn s m =
     (case (if IsUserData m then re_enc env conn s else Ok (Some (tr_enc t))) of
        Panic \<Rightarrow> VPanic
      | Err _ \<Rightarrow> VStop
      | Ok None \<Rightarrow> VSkip
      | Ok (Some enc) \<Rightarrow>
          (case open_payload t (re_decode env) enc m of
             Ok m1 \<Rightarrow> VDeliver m1
           | Err _ \<Rightarrow> VSkip
           | Panic \<Rightarrow> VPanic))"

text \<open>How a loop ends: it waits for bytes, its goroutine returns, or it panics.\<close>

datatype recv_end = RBlocked | RFinished | RPanicked | RFuel

text \<open>
  The client: on a header it cannot open, \<open>readTCP\<close> returns a nil message and no error, and
  the loop dereferences it.
\<close>

fun client_loop :: "nat \<Rightarrow> transport \<Rightarrow> 's receiver_env \<Rightarrow> connection \<Rightarrow> 's \<Rightarrow> gerror rd list
    \<Rightarrow> recv_end \<times> connection \<times> 's" where
  "client_loop 0 t env conn s es = (RFuel, conn, s)"
| "client_loop (Suc n) t env conn s es =
     (case readTCP t es of
        FrameBlocked \<Rightarrow> (RBlocked, conn, s)
      | FrameErr e rest \<Rightarrow> if IsErrorInterruptingNetwork e then (RFinished, conn, s) else client_loop n t env conn s rest
      | BadHeader rest \<Rightarrow> (RPanicked, conn, s)
      | HeaderPanic \<Rightarrow> (RPanicked, conn, s)
      | Frame m received rest \<Rightarrow>
          (case verdict_of t env conn s m of
             VStop \<Rightarrow> (RFinished, conn, s)
           | VSkip \<Rightarrow> client_loop n t env conn s rest
           | VPanic \<Rightarrow> (RPanicked, conn, s)
           | VDeliver m1 \<Rightarrow>
               (case re_receiver env m1 conn (re_stat env (m_SessionID m1) received s) of
                  (Ok _, conn1, s1) \<Rightarrow> client_loop n t env conn1 s1 rest
                | (Err _, conn1, s1) \<Rightarrow> (RFinished, conn1, s1)
                | (Panic, conn1, s1) \<Rightarrow> (RPanicked, conn1, s1))))"

definition client_ReceiverTCP :: "nat \<Rightarrow> transport \<Rightarrow> 's receiver_env \<Rightarrow> connection \<Rightarrow> u32 \<Rightarrow> 's \<Rightarrow> gerror rd list
    \<Rightarrow> recv_end \<times> connection \<times> 's" where
  "client_ReceiverTCP fuel t env conn sessionID s es =
     client_loop fuel t env (conn\<lparr>c_SessionID := sessionID, c_Proto := ProtoTCP\<rparr>) s es"

text \<open>
  The server \<open>V1\<close>: a header it cannot open ends the connection. The statistic is taken before
  the payload is opened, and with \<open>receivedHeader\<close> after it has been reset to zero, so that
  it counts the payload only.
\<close>

fun server_loop :: "nat \<Rightarrow> transport \<Rightarrow> 's receiver_env \<Rightarrow> connection \<Rightarrow> 's \<Rightarrow> gerror rd list
    \<Rightarrow> recv_end \<times> connection \<times> 's" where
  "server_loop 0 t env conn s es = (RFuel, conn, s)"
| "server_loop (Suc n) t env conn s es =
     (case readTCP t es of
        FrameBlocked \<Rightarrow> (RBlocked, conn, s)
      | FrameErr e rest \<Rightarrow> (RFinished, conn, s)
      | BadHeader rest \<Rightarrow> (RFinished, conn, s)
      | HeaderPanic \<Rightarrow> (RPanicked, conn, s)
      | Frame m received rest \<Rightarrow>
          (let s0 = re_stat env (m_SessionID m) (int (unat (m_PayloadLength m))) s
           in case verdict_of t env conn s0 m of
             VStop \<Rightarrow> (RFinished, conn, s0)
           | VSkip \<Rightarrow> server_loop n t env conn s0 rest
           | VPanic \<Rightarrow> (RPanicked, conn, s0)
           | VDeliver m1 \<Rightarrow>
               (case re_receiver env m1 conn s0 of
                  (Ok _, conn1, s1) \<Rightarrow> server_loop n t env conn1 s1 rest
                | (Err _, conn1, s1) \<Rightarrow> (RFinished, conn1, s1)
                | (Panic, conn1, s1) \<Rightarrow> (RPanicked, conn1, s1))))"

text \<open>
  The deferred function disconnects the connection when the goroutine returns. The error it
  passes is the one declared outside the loop, which the loop shadows: it is always nil.
\<close>

definition server_receiverTCP :: "nat \<Rightarrow> transport \<Rightarrow> 's receiver_env \<Rightarrow> socket \<Rightarrow> u16 \<Rightarrow> 's \<Rightarrow> gerror rd list
    \<Rightarrow> recv_end \<times> connection \<times> 's" where
  "server_receiverTCP fuel t env conn port s es =
     (case server_loop fuel t env (new_connection\<lparr>c_TCPConn := Some conn, c_Addr := so_RemoteAddr conn,
             c_Port := port, c_Proto := ProtoTCP\<rparr>) s es of
        (RFinished, c, s1) \<Rightarrow> (RFinished, c, re_disconnect env c None s1)
      | r \<Rightarrow> r)"

section \<open>A stream of frames is received as its messages\<close>

text \<open>What the receiver is given for a message \<open>m\<close>.\<close>

definition received_as :: "packet_decoder \<Rightarrow> message \<Rightarrow> message \<Rightarrow> bool" where
  "received_as decode m m' \<longleftrightarrow> m_Type m' = m_Type m \<and> m_ID m' = m_ID m \<and> m_SessionID m' = m_SessionID m
     \<and> m_IsACK m' = m_IsACK m \<and> m_Payload m' = (if IsPayload m then received_payload m else PNil)
     \<and> (\<forall>b. IsUserData m \<longrightarrow> m_Payload m = PBytes b \<longrightarrow> decode b = Ok (m_PacketInfo m'))"

text \<open>A frame of the message, in the encryption its type calls for.\<close>

definition good_frame :: "transport \<Rightarrow> packet_decoder \<Rightarrow> encryptor \<Rightarrow> message \<Rightarrow> bytes \<Rightarrow> bool" where
  "good_frame t decode u m f \<longleftrightarrow> m_Error m = 0
     \<and> (IsUserData m \<longrightarrow> (\<exists>b info. m_Payload m = PBytes b \<and> decode b = Ok info))
     \<and> (\<exists>ch cp. f = ch @ cp \<and> frame_for t (if IsUserData m then u else tr_enc t) m ch cp)"

lemma frame_verdict:
  assumes "frame_for t (if IsUserData m then u else tr_enc t) m ch cp" "m_Error m = 0"
    and "IsUserData m \<longrightarrow> (\<exists>b info. m_Payload m = PBytes b \<and> re_decode env b = Ok info)"
    and "re_enc env conn s = Ok (Some u)"
  shows "\<exists>m1 m2. open_header t ch = Ok m1 \<and> unat (m_PayloadLength m1) = length cp \<and> m_Payload m1 = PNil
     \<and> verdict_of t env conn s (if cp = [] then m1 else m1\<lparr>m_Payload := PBytes cp\<rparr>) = VDeliver m2
     \<and> received_as (re_decode env) m m2"
proof -
  have cp0: "cp = [] \<longleftrightarrow> \<not> IsPayload m" using assms(1,2) unfolding frame_for_def by blast
  have same: "IsUserData m1 = IsUserData m" if "open_header t ch = Ok m1" for m1
    using assms(1) that by (auto simp: frame_for_def IsUserData_def)
  consider "\<not> IsPayload m" | "IsPayload m" "\<not> IsUserData m" | b info where "IsUserData m" "m_Payload m = PBytes b" "re_decode env b = Ok info"
    using assms(3) by blast
  then show ?thesis
  proof cases
    case 1
    then have nu: "\<not> IsUserData m" using IsUserData_IsPayload by blast
    obtain m1 where m1: "open_header t ch = Ok m1" "m_Type m1 = m_Type m" "m_IsACK m1 = m_IsACK m"
      "m_SessionID m1 = m_SessionID m" "m_ID m1 = m_ID m" "m_Payload m1 = PNil" "unat (m_PayloadLength m1) = length cp"
      using assms(1) unfolding frame_for_def by blast
    have "open_payload t (re_decode env) (tr_enc t) m1 = Ok m1"
      using 1 m1(2) by (simp add: open_payload_def IsPayload_def)
    then have "verdict_of t env conn s m1 = VDeliver m1"
      using nu same [OF m1(1)] by (simp add: verdict_of_def)
    then show ?thesis using 1 nu cp0 m1 by (auto simp: received_as_def)
  next
    case 2
    then have f: "frame_for t (tr_enc t) m ch cp" using assms(1) by simp
    obtain m1 m2 where m: "open_header t ch = Ok m1" "unat (m_PayloadLength m1) = length cp" "m_Payload m1 = PNil"
      "open_payload t (re_decode env) (tr_enc t) (m1\<lparr>m_Payload := PBytes cp\<rparr>) = Ok m2"
      "m_Type m2 = m_Type m \<and> m_ID m2 = m_ID m \<and> m_SessionID m2 = m_SessionID m \<and> m_IsACK m2 = m_IsACK m
        \<and> m_Payload m2 = received_payload m"
      using open_payload_frame [OF f assms(2) 2, of "re_decode env"] by blast
    have "\<not> IsUserData (m1\<lparr>m_Payload := PBytes cp\<rparr>)" using same [OF m(1)] 2 by (simp add: IsUserData_def)
    then have "verdict_of t env conn s (m1\<lparr>m_Payload := PBytes cp\<rparr>) = VDeliver m2"
      using m(4) by (simp add: verdict_of_def)
    then show ?thesis using 2 cp0 m by (auto simp: received_as_def)
  next
    case 3
    then have f: "frame_for t u m ch cp" using assms(1) by simp
    obtain m1 m2 where m: "open_header t ch = Ok m1" "unat (m_PayloadLength m1) = length cp" "m_Payload m1 = PNil"
      "open_payload t (re_decode env) u (m1\<lparr>m_Payload := PBytes cp\<rparr>) = Ok (m2\<lparr>m_PacketInfo := info\<rparr>)"
      "m_Type m2 = m_Type m \<and> m_ID m2 = m_ID m \<and> m_SessionID m2 = m_SessionID m \<and> m_IsACK m2 = m_IsACK m
        \<and> m_Payload m2 = PBytes b"
      using open_user_frame [where decode = "re_decode env", OF f assms(2) 3(1,2,3)] by blast
    have "IsUserData (m1\<lparr>m_Payload := PBytes cp\<rparr>)" using same [OF m(1)] 3(1) by (simp add: IsUserData_def)
    then have v: "verdict_of t env conn s (m1\<lparr>m_Payload := PBytes cp\<rparr>) = VDeliver (m2\<lparr>m_PacketInfo := info\<rparr>)"
      using m(4) assms(4) by (simp add: verdict_of_def)
    have "received_as (re_decode env) m (m2\<lparr>m_PacketInfo := info\<rparr>)"
      using m(5) 3 IsUserData_IsPayload [OF 3(1)] by (simp add: received_as_def received_payload_def)
    then show ?thesis using v m cp0 IsUserData_IsPayload [OF 3(1)] by auto
  qed
qed

text \<open>Reading one frame off the stream.\<close>

lemma read_full_prefix:
  assumes "no_errors es" "sock_bytes es = bs @ later" "bs \<noteq> []"
  shows "\<exists>rest. read_full stop (length bs) [] es = Got bs rest \<and> no_errors rest \<and> sock_bytes rest = later"
proof -
  have pos: "0 < length bs" using assms(3) by simp
  have "length bs \<le> length ([] :: bytes) + length (sock_bytes es)" by (simp add: assms(2))
  then obtain cs rest where r: "read_full stop (length bs) [] es = Got cs rest"
    using read_full_returns [OF assms(1) pos, of "[]" stop] pos by auto
  have "length cs = length bs \<and> [] @ sock_bytes es = cs @ sock_bytes rest"
    by (rule read_full_bytes [OF r]) simp
  then have "cs = bs" "sock_bytes rest = later" using assms(2) by auto
  then show ?thesis using r read_full_no_errors [OF r assms(1)] by simp
qed

lemma readTCP_frame:
  assumes "frame_for t u m ch cp" "open_header t ch = Ok m1" "unat (m_PayloadLength m1) = length cp"
    and "no_errors es" "sock_bytes es = ch @ cp @ later" "0 < headerLength t"
  shows "\<exists>rest. readTCP t es = Frame (if cp = [] then m1 else m1\<lparr>m_Payload := PBytes cp\<rparr>) (int (length (ch @ cp))) rest
     \<and> no_errors rest \<and> sock_bytes rest = later"
proof -
  have len: "headerLength t = length ch" using assms(1) by (simp add: frame_for_def)
  then have ne: "ch \<noteq> []" using assms(6) by auto
  obtain es1 where r1: "read_full IsErrorInterruptingNetwork (headerLength t) [] es = Got ch es1"
    and es1: "no_errors es1" "sock_bytes es1 = cp @ later"
    unfolding len using read_full_prefix [OF assms(4,5) ne] by blast
  show ?thesis
  proof (cases "cp = []")
    case True
    then have "m_PayloadLength m1 = 0" using assms(3) by (simp add: unat_eq_0)
    then show ?thesis using True r1 es1 assms(2) len by (simp add: readTCP_def)
  next
    case False
    obtain rest where r2: "read_full (\<lambda>e. e = EOF) (unat (m_PayloadLength m1)) [] es1 = Got cp rest"
      and rest: "no_errors rest" "sock_bytes rest = later"
      unfolding assms(3) using read_full_prefix [OF es1 False] by blast
    have "m_PayloadLength m1 > 0" using False assms(3) by (simp add: word_less_nat_alt)
    then show ?thesis using False r1 r2 rest assms(2) len by (simp add: readTCP_def)
  qed
qed

lemma read_full_blocked: "no_errors es \<Longrightarrow> sock_bytes es = [] \<Longrightarrow> length acc < n \<Longrightarrow> read_full stop n acc es = Blocked"
  by (induction stop n acc es rule: read_full.induct) auto

lemma readTCP_blocked:
  "no_errors es \<Longrightarrow> sock_bytes es = [] \<Longrightarrow> 0 < headerLength t \<Longrightarrow> readTCP t es = FrameBlocked"
  by (simp add: readTCP_def read_full_blocked)

text \<open>One frame of the stream, as the loops see it.\<close>

lemma good_frame_read:
  assumes "good_frame t (re_decode env) u m f"
    and "no_errors es" "sock_bytes es = f @ later" "0 < headerLength t"
  shows "\<exists>m1 rest. readTCP t es = Frame m1 (int (length f)) rest
     \<and> unat (m_PayloadLength m1) + headerLength t = length f \<and> m_SessionID m1 = m_SessionID m
     \<and> (\<forall>conn s. re_enc env conn s = Ok (Some u) \<longrightarrow>
          (\<exists>m2. verdict_of t env conn s m1 = VDeliver m2 \<and> received_as (re_decode env) m m2))
     \<and> no_errors rest \<and> sock_bytes rest = later"
proof -
  obtain ch cp where f: "f = ch @ cp" "frame_for t (if IsUserData m then u else tr_enc t) m ch cp"
    and m: "m_Error m = 0" "IsUserData m \<longrightarrow> (\<exists>b info. m_Payload m = PBytes b \<and> re_decode env b = Ok info)"
    using assms(1) unfolding good_frame_def by blast
  obtain m1 where v: "open_header t ch = Ok m1" "unat (m_PayloadLength m1) = length cp" "m_SessionID m1 = m_SessionID m"
    using f(2) unfolding frame_for_def by blast
  let ?m = "if cp = [] then m1 else m1\<lparr>m_Payload := PBytes cp\<rparr>"
  have verdict: "\<exists>m2. verdict_of t env conn s ?m = VDeliver m2 \<and> received_as (re_decode env) m m2"
    if "re_enc env conn s = Ok (Some u)" for conn s
    using frame_verdict [OF f(2) m that] v(1) by auto
  have bytes: "sock_bytes es = ch @ cp @ later" using assms(3) f(1) by simp
  obtain rest where r: "readTCP t es = Frame ?m (int (length (ch @ cp))) rest"
    "no_errors rest" "sock_bytes rest = later"
    using readTCP_frame [OF f(2) v(1,2) assms(2) bytes assms(4)] by blast
  have "length ch = headerLength t" using f(2) by (simp add: frame_for_def)
  then have "unat (m_PayloadLength ?m) + headerLength t = length f" "m_SessionID ?m = m_SessionID m"
    using v(2,3) f(1) by simp_all
  with r verdict f(1) show ?thesis by blast
qed

text \<open>
  What the handlers make of the received messages, one after the other: a message is
  counted, with the given number of bytes, and handed to the receiver.
\<close>

fun handle_all :: "'s receiver_env \<Rightarrow> (nat \<times> message) list \<Rightarrow> connection \<Rightarrow> 's \<Rightarrow> connection \<times> 's" where
  "handle_all env [] conn s = (conn, s)"
| "handle_all env ((n, m) # ms) conn s =
     (case re_receiver env m conn (re_stat env (m_SessionID m) (int n) s) of
        (r, conn1, s1) \<Rightarrow> handle_all env ms conn1 s1)"

text \<open>
  An application that keeps accepting: as long as \<open>P\<close> holds the encryptor of the connection
  is \<open>u\<close> and the receiver takes every message, and \<open>P\<close> goes on holding.
\<close>

definition accepting :: "'s receiver_env \<Rightarrow> encryptor \<Rightarrow> (connection \<Rightarrow> 's \<Rightarrow> bool) \<Rightarrow> bool" where
  "accepting env u P \<longleftrightarrow> (\<forall>conn s. P conn s \<longrightarrow> re_enc env conn s = Ok (Some u)
     \<and> (\<forall>sid n. P conn (re_stat env sid n s))
     \<and> (\<forall>m. case re_receiver env m conn s of (r, conn1, s1) \<Rightarrow> r = Ok () \<and> P conn1 s1))"

lemma accepting_receiver:
  assumes "accepting env u P" "P conn s"
  obtains conn1 s1 where "re_receiver env m conn (re_stat env sid n s) = (Ok (), conn1, s1)" "P conn1 s1"
proof -
  have P1: "P conn (re_stat env sid n s)" using assms unfolding accepting_def by blast
  obtain r conn1 s1 where r: "re_receiver env m conn (re_stat env sid n s) = (r, conn1, s1)"
    by (cases "re_receiver env m conn (re_stat env sid n s)")
  have "case re_receiver env m conn (re_stat env sid n s) of (r, conn1, s1) \<Rightarrow> r = Ok () \<and> P conn1 s1"
    by (rule assms(1) [unfolded accepting_def, rule_format, OF P1, THEN conjunct2, THEN conjunct2, THEN spec])
  then show ?thesis using that r by simp
qed

lemma accepting_enc: "accepting env u P \<Longrightarrow> P conn s \<Longrightarrow> re_enc env conn s = Ok (Some u)"
  unfolding accepting_def by blast

lemma accepting_stat: "accepting env u P \<Longrightarrow> P conn s \<Longrightarrow> P conn (re_stat env sid n s)"
  unfolding accepting_def by blast

definition received_with :: "packet_decoder \<Rightarrow> nat \<Rightarrow> message \<Rightarrow> bytes \<Rightarrow> nat \<times> message \<Rightarrow> bool" where
  "received_with decode overhead m f r \<longleftrightarrow> received_as decode m (snd r) \<and> fst r + overhead = length f"

definition all_received :: "packet_decoder \<Rightarrow> nat \<Rightarrow> message list \<Rightarrow> bytes list \<Rightarrow> (nat \<times> message) list \<Rightarrow> bool" where
  "all_received decode overhead ms fs rs \<longleftrightarrow>
     list_all2 (\<lambda>(m, f) r. received_with decode overhead m f r) (zip ms fs) rs"

lemma all_received_Nil [simp]: "all_received d k [] [] []"
  by (simp add: all_received_def)

lemma all_received_Cons [simp]:
  "all_received d k (m # ms) (f # fs) (r # rs) \<longleftrightarrow> received_with d k m f r \<and> all_received d k ms fs rs"
  by (simp add: all_received_def)

text \<open>
  The loops on a stream of good frames, however it is cut into pieces: every message is
  handed over, in order, and then the loop waits for more.
\<close>

lemma client_loop_stream:
  assumes acc: "accepting env u P" and pos: "0 < headerLength t"
  shows "list_all2 (good_frame t (re_decode env) u) ms fs \<Longrightarrow> no_errors es \<Longrightarrow> sock_bytes es = concat fs
    \<Longrightarrow> length ms < n \<Longrightarrow> P conn s \<Longrightarrow>
    \<exists>rs. all_received (re_decode env) 0 ms fs rs
      \<and> client_loop n t env conn s es = (RBlocked, handle_all env rs conn s)"
proof (induction ms fs arbitrary: es n conn s rule: list_all2_induct)
  case Nil
  then obtain k where "n = Suc k" by (cases n) auto
  then show ?case using Nil readTCP_blocked [OF Nil(1) _ pos] by (intro exI [of _ "[]"]) simp
next
  case (Cons m ms f fs)
  then obtain k where k: "n = Suc k" "length ms < k" by (cases n) auto
  obtain m1 rest where r: "readTCP t es = Frame m1 (int (length f)) rest"
    "\<forall>conn s. re_enc env conn s = Ok (Some u) \<longrightarrow>
          (\<exists>m2. verdict_of t env conn s m1 = VDeliver m2 \<and> received_as (re_decode env) m m2)"
    "no_errors rest" "sock_bytes rest = concat fs"
    using good_frame_read [OF Cons(1,4), of "concat fs"] Cons(5) pos by auto
  obtain m2 where m2: "verdict_of t env conn s m1 = VDeliver m2" "received_as (re_decode env) m m2"
    using r(2) accepting_enc [OF acc Cons.prems(4)] by blast
  obtain conn1 s1 where h: "re_receiver env m2 conn (re_stat env (m_SessionID m2) (int (length f)) s) = (Ok (), conn1, s1)" "P conn1 s1"
    using accepting_receiver [OF acc Cons.prems(4)] .
  obtain rs where rs: "all_received (re_decode env) 0 ms fs rs"
    "client_loop k t env conn1 s1 rest = (RBlocked, handle_all env rs conn1 s1)"
    using Cons.IH [OF r(3,4) k(2) h(2)] by blast
  have "client_loop n t env conn s es = (RBlocked, handle_all env ((length f, m2) # rs) conn s)"
    using k(1) r(1) m2(1) h(1) rs(2) by simp
  moreover have "all_received (re_decode env) 0 (m # ms) (f # fs) ((length f, m2) # rs)"
    using m2(2) rs(1) by (simp add: received_with_def)
  ultimately show ?case by blast
qed

lemma server_loop_stream:
  assumes acc: "accepting env u P" and pos: "0 < headerLength t"
  shows "list_all2 (good_frame t (re_decode env) u) ms fs \<Longrightarrow> no_errors es \<Longrightarrow> sock_bytes es = concat fs
    \<Longrightarrow> length ms < n \<Longrightarrow> P conn s \<Longrightarrow>
    \<exists>rs. all_received (re_decode env) (headerLength t) ms fs rs
      \<and> server_loop n t env conn s es = (RBlocked, handle_all env rs conn s)"
proof (induction ms fs arbitrary: es n conn s rule: list_all2_induct)
  case Nil
  then obtain k where "n = Suc k" by (cases n) auto
  then show ?case using Nil readTCP_blocked [OF Nil(1) _ pos] by (intro exI [of _ "[]"]) simp
next
  case (Cons m ms f fs)
  then obtain k where k: "n = Suc k" "length ms < k" by (cases n) auto
  obtain m1 rest where r: "readTCP t es = Frame m1 (int (length f)) rest"
    "unat (m_PayloadLength m1) + headerLength t = length f" "m_SessionID m1 = m_SessionID m"
    "\<forall>conn s. re_enc env conn s = Ok (Some u) \<longrightarrow>
          (\<exists>m2. verdict_of t env conn s m1 = VDeliver m2 \<and> received_as (re_decode env) m m2)"
    "no_errors rest" "sock_bytes rest = concat fs"
    using good_frame_read [OF Cons(1,4), of "concat fs"] Cons(5) pos by auto
  let ?n = "unat (m_PayloadLength m1)"
  have "re_enc env conn (re_stat env (m_SessionID m) (int ?n) s) = Ok (Some u)"
    by (rule accepting_enc [OF acc accepting_stat [OF acc Cons.prems(4)]])
  then obtain m2 where m2: "verdict_of t env conn (re_stat env (m_SessionID m) (int ?n) s) m1 = VDeliver m2"
    "received_as (re_decode env) m m2"
    using r(4) by blast
  then have sid: "m_SessionID m2 = m_SessionID m" by (simp add: received_as_def)
  obtain conn1 s1 where h: "re_receiver env m2 conn (re_stat env (m_SessionID m) (int ?n) s) = (Ok (), conn1, s1)" "P conn1 s1"
    using accepting_receiver [OF acc Cons.prems(4)] .
  obtain rs where rs: "all_received (re_decode env) (headerLength t) ms fs rs"
    "server_loop k t env conn1 s1 rest = (RBlocked, handle_all env rs conn1 s1)"
    using Cons.IH [OF r(5,6) k(2) h(2)] by blast
  have "server_loop n t env conn s es = (RBlocked, handle_all env ((?n, m2) # rs) conn s)"
    using k(1) r(1,3) m2(1) h(1) rs(2) sid by (simp add: Let_def)
  moreover have "all_received (re_decode env) (headerLength t) (m # ms) (f # fs) ((?n, m2) # rs)"
    using m2(2) rs(1) r(2) by (simp add: received_with_def)
  ultimately show ?case by blast
qed

end
