(* ===== verification/AckAccumulator.thy ===== *)
theory AckAccumulator
  imports Codec
begin

text \<open>
  The accumulator of \<open>adapter/ack/ack.go\<close>: it collects the identifiers of received messages
  and sends them in acknowledgements of bounded size. One event of its \<open>select\<close> loop is one
  step; a message of the sender is recorded in \<open>aa_sent\<close> as it is when it is sent, since the
  set is emptied right after.
\<close>

section \<open>Model\<close>

record ack_config =
  ac_MaxSize :: int
  ac_EndpointLifeTime :: int
  ac_WaitingTimePercentOfRTO :: real

record ack_acc =
  aa_sessionID :: u32
  aa_partOfRTO :: real
  aa_ids :: ack_message
  aa_firstAckTime :: int
  aa_sent :: "message list"
  aa_stopped :: bool

definition ack_New :: "ack_config \<Rightarrow> u32 \<Rightarrow> ack_acc" where
  "ack_New cfg sessionID =
     \<lparr>aa_sessionID = sessionID, aa_partOfRTO = ac_WaitingTimePercentOfRTO cfg / 100,
      aa_ids = SetMaxSize (ac_MaxSize cfg) (NewMessageAcknowledgement None), aa_firstAckTime = 0,
      aa_sent = [], aa_stopped = False\<rparr>"

datatype ack_event =
    AckMessage u32 u64 int int int \<comment> \<open>identifier, endpoint, two clock readings, the RTO\<close>
  | AckTimeout
  | AckDone

definition sendACK :: "ack_acc \<Rightarrow> ack_acc" where
  "sendACK a =
     (if ack_size (aa_ids a) = 0 then a
      else a\<lparr>aa_sent := aa_sent a @ [new_message\<lparr>m_SessionID := aa_sessionID a, m_Type := MessageTypeData,
                 m_IsACK := True, m_Payload := PAck (aa_ids a)\<rparr>]\<rparr>)"

definition acc_send :: "ack_acc \<Rightarrow> ack_acc" where
  "acc_send a = (sendACK a)\<lparr>aa_ids := ack_Reset (aa_ids a), aa_firstAckTime := 0\<rparr>"

definition accumulator_step :: "ack_acc \<Rightarrow> ack_event \<Rightarrow> ack_acc" where
  "accumulator_step a ev =
     (if aa_stopped a then a
      else case ev of
        AckMessage i endpoint now1 now2 rto \<Rightarrow>
          (let a1 = (if aa_firstAckTime a = 0 then a\<lparr>aa_firstAckTime := now1\<rparr> else a);
               (added, ids) = ack_Push endpoint i (aa_ids a1);
               a2 = a1\<lparr>aa_ids := ids\<rparr>
           in if now2 - aa_firstAckTime a2 \<ge> \<lfloor>real_of_int rto * aa_partOfRTO a\<rfloor> \<or> \<not> added
              then (let a3 = acc_send a2
                    in if \<not> added then a3\<lparr>aa_ids := snd (ack_Push endpoint i (aa_ids a3))\<rparr> else a3)
              else a2)
      | AckTimeout \<Rightarrow> acc_send a
      | AckDone \<Rightarrow> a\<lparr>aa_stopped := True\<rparr>)"

section \<open>Nothing is lost\<close>

definition acked_pairs :: "message \<Rightarrow> (u64 \<times> u32) multiset" where
  "acked_pairs m = (case m_Payload m of PAck a \<Rightarrow> mset (ack_pairs (ack_data a)) | _ \<Rightarrow> {#})"

definition acc_holds :: "ack_acc \<Rightarrow> (u64 \<times> u32) multiset" where
  "acc_holds a = (\<Sum>m\<leftarrow>aa_sent a. acked_pairs m) + mset (ack_pairs (ack_data (aa_ids a)))"

definition sent_ok :: "int \<Rightarrow> message \<Rightarrow> bool" where
  "sent_ok maxSize m \<longleftrightarrow> (\<exists>a. m_Payload m = PAck a \<and> ack_wf a \<and> ack_data a \<noteq> [] \<and> ack_size a \<le> maxSize)
     \<and> m_Type m = MessageTypeData \<and> m_IsACK m \<and> m_Error m = 0"

definition acc_inv :: "int \<Rightarrow> ack_acc \<Rightarrow> bool" where
  "acc_inv maxSize a \<longleftrightarrow> ack_wf (aa_ids a) \<and> ack_maxSize (aa_ids a) = maxSize \<and> (\<forall>m\<in>set (aa_sent a). sent_ok maxSize m)"

fun event_pairs :: "ack_event \<Rightarrow> (u64 \<times> u32) multiset" where
  "event_pairs (AckMessage i e _ _ _) = {#(e, i)#}"
| "event_pairs _ = {#}"

lemma ack_size_zero: "ack_wf ma \<Longrightarrow> ack_size ma = 0 \<longleftrightarrow> ack_data ma = []"
proof -
  assume wf: "ack_wf ma"
  have "ack_data ma \<noteq> [] \<Longrightarrow> 0 < wire_size (ack_data ma)"
    using wire_size_nonneg by (cases "ack_data ma") (auto simp: add_pos_nonneg intro: add_pos_nonneg)
  then show ?thesis using wf by (cases "ack_data ma = []") (auto simp: ack_wf_def)
qed

lemma acc_send_inv:
  assumes "acc_inv n a"
  shows "acc_inv n (acc_send a)" "acc_holds (acc_send a) = acc_holds a"
    and "ack_data (aa_ids (acc_send a)) = []" "ack_size (aa_ids (acc_send a)) = 0"
proof -
  have z: "ack_size (aa_ids a) = 0 \<longleftrightarrow> ack_data (aa_ids a) = []"
    using assms by (simp add: ack_size_zero acc_inv_def)
  show "acc_holds (acc_send a) = acc_holds a"
    using z by (auto simp: acc_holds_def acc_send_def sendACK_def ack_Reset_def acked_pairs_def)
  show "acc_inv n (acc_send a)"
    using assms z
    by (auto simp: acc_inv_def acc_send_def sendACK_def ack_wf_Reset sent_ok_def new_message_def)
      (auto simp: ack_Reset_def ack_wf_def)
  show "ack_data (aa_ids (acc_send a)) = []" "ack_size (aa_ids (acc_send a)) = 0"
    by (simp_all add: acc_send_def ack_Reset_def)
qed

lemma push_inv:
  assumes "acc_inv n a"
  shows "acc_inv n (a\<lparr>aa_ids := snd (ack_Push e i (aa_ids a))\<rparr>)"
    and "fst (ack_Push e i (aa_ids a)) \<Longrightarrow>
      acc_holds (a\<lparr>aa_ids := snd (ack_Push e i (aa_ids a))\<rparr>) = add_mset (e, i) (acc_holds a)"
  using assms by (simp_all add: acc_inv_def acc_holds_def ack_Push_wf ack_Push_pairs)

text \<open>The state after \<open>firstAckTime\<close> has been set.\<close>

lemma first_time_inv [simp]:
  "acc_inv n (a\<lparr>aa_firstAckTime := t\<rparr>) = acc_inv n a" "acc_holds (a\<lparr>aa_firstAckTime := t\<rparr>) = acc_holds a"
  by (simp_all add: acc_inv_def acc_holds_def)

lemma accumulator_message:
  assumes "acc_inv n a" "13 \<le> n" "\<not> aa_stopped a"
  shows "acc_inv n (accumulator_step a (AckMessage i e t1 t2 rto))"
    and "acc_holds (accumulator_step a (AckMessage i e t1 t2 rto)) = add_mset (e, i) (acc_holds a)"
proof -
  define a1 where "a1 = (if aa_firstAckTime a = 0 then a\<lparr>aa_firstAckTime := t1\<rparr> else a)"
  define a2 where "a2 = a1\<lparr>aa_ids := snd (ack_Push e i (aa_ids a1))\<rparr>"
  define a3 where "a3 = acc_send a2"
  define late where "late \<longleftrightarrow> t2 - aa_firstAckTime a2 \<ge> \<lfloor>real_of_int rto * aa_partOfRTO a\<rfloor>"
  have a1: "acc_inv n a1" "acc_holds a1 = acc_holds a" using assms(1) by (simp_all add: a1_def)
  note a2 = push_inv [OF a1(1), of e i, folded a2_def]
  note a3 = acc_send_inv [OF a2(1), folded a3_def]
  let ?added = "fst (ack_Push e i (aa_ids a1))"
  have step: "accumulator_step a (AckMessage i e t1 t2 rto) =
      (if late \<or> \<not> ?added then if \<not> ?added then a3\<lparr>aa_ids := snd (ack_Push e i (aa_ids a3))\<rparr> else a3 else a2)"
    using assms(3) by (simp add: accumulator_step_def Let_def a1_def a2_def a3_def late_def case_prod_unfold)
  have "acc_inv n (accumulator_step a (AckMessage i e t1 t2 rto))
     \<and> acc_holds (accumulator_step a (AckMessage i e t1 t2 rto)) = add_mset (e, i) (acc_holds a)"
  proof (cases ?added)
    case True
    then show ?thesis unfolding step using a1 a2 a3 by simp
  next
    case False
    then have "a2 = a1" by (simp add: a2_def ack_Push_refused)
    then have h: "acc_holds a3 = acc_holds a" using a3(2) a1(2) by simp
    have "fst (ack_Push e i (aa_ids a3))"
      using a3 assms(2) by (intro ack_Push_empty) (auto simp: acc_inv_def)
    then show ?thesis unfolding step using False push_inv [OF a3(1), of e i] h by simp
  qed
  then show "acc_inv n (accumulator_step a (AckMessage i e t1 t2 rto))"
    and "acc_holds (accumulator_step a (AckMessage i e t1 t2 rto)) = add_mset (e, i) (acc_holds a)"
    by blast+
qed

lemma accumulator_inv:
  assumes "acc_inv n a" "13 \<le> n"
  shows "acc_inv n (accumulator_step a ev)"
proof (cases "aa_stopped a")
  case False
  then show ?thesis
    using assms accumulator_message(1) [OF assms False] acc_send_inv(1) [OF assms(1)]
    by (cases ev) (auto simp: accumulator_step_def acc_inv_def)
qed (use assms in \<open>simp add: accumulator_step_def\<close>)

lemma acc_inv_New: "acc_inv (ac_MaxSize cfg) (ack_New cfg sid)"
  by (simp add: acc_inv_def ack_New_def ack_wf_new) (simp add: SetMaxSize_def)

interpretation accumulator: machine accumulator_step "ack_New cfg sid" "\<lambda>a. 13 \<le> ac_MaxSize cfg \<longrightarrow> acc_inv (ac_MaxSize cfg) a"
  for cfg sid
  by unfold_locales (auto simp: acc_inv_New accumulator_inv)

lemma accumulator_holds:
  assumes "13 \<le> n" "AckDone \<notin> set evs"
  shows "acc_inv n a \<Longrightarrow> \<not> aa_stopped a \<Longrightarrow>
    acc_holds (foldl accumulator_step a evs) = acc_holds a + (\<Sum>ev\<leftarrow>evs. event_pairs ev)"
  using assms(2)
proof (induction evs arbitrary: a)
  case (Cons ev evs)
  let ?a = "accumulator_step a ev"
  have holds: "acc_holds ?a = acc_holds a + event_pairs ev"
  proof (cases ev)
    case (AckMessage i e t1 t2 rto)
    then show ?thesis using accumulator_message(2) [OF Cons.prems(1) assms(1) Cons.prems(2)] by simp
  qed (use Cons.prems acc_send_inv(2) [OF Cons.prems(1)] in \<open>simp_all add: accumulator_step_def\<close>)
  have "\<not> aa_stopped ?a"
    using Cons.prems(2,3)
    by (cases ev) (auto simp: accumulator_step_def acc_send_def sendACK_def Let_def split: prod.splits)
  then have "acc_holds (foldl accumulator_step ?a evs) = acc_holds ?a + (\<Sum>ev\<leftarrow>evs. event_pairs ev)"
    using accumulator_inv [OF Cons.prems(1) assms(1)] Cons.prems(3) by (intro Cons.IH) auto
  then show ?case by (simp add: holds add.assoc)
qed simp

text \<open>
  C10. With room for at least one entry (thirteen bytes), every received identifier is in
  exactly one acknowledgement, sent or still being collected: whatever the order and the
  times of the events, as a multiset the identifiers pushed are those sent and pending.
\<close>

theorem acknowledges_every_message:
  assumes "13 \<le> ac_MaxSize cfg" "AckDone \<notin> set evs"
  shows "acc_holds (foldl accumulator_step (ack_New cfg sid) evs) = (\<Sum>ev\<leftarrow>evs. event_pairs ev)"
  using accumulator_holds [OF assms acc_inv_New]
  by (simp add: ack_New_def acc_holds_def SetMaxSize_def NewMessageAcknowledgement_def)

theorem acknowledges_every_message_witness:
  "acc_holds (foldl accumulator_step (ack_New \<lparr>ac_MaxSize = 20, ac_EndpointLifeTime = 0, ac_WaitingTimePercentOfRTO = 50\<rparr> 1)
     [AckMessage 7 1 5 6 1000, AckMessage 8 2 7 8 1000, AckTimeout]) = {#(1, 7), (2, 8)#}"
proof -
  let ?cfg = "\<lparr>ac_MaxSize = 20, ac_EndpointLifeTime = 0, ac_WaitingTimePercentOfRTO = 50\<rparr>"
  have "13 \<le> ac_MaxSize ?cfg" "AckDone \<notin> set [AckMessage 7 1 5 6 1000, AckMessage 8 2 7 8 1000, AckTimeout]"
    by simp_all
  from acknowledges_every_message [OF this, of 1] show ?thesis by simp
qed

text \<open>
  C26. Each acknowledgement that is sent has a valid content of between 13 and \<open>MaxSize\<close>
  bytes, and the wire format carries it: it is encoded, and decoded to the same
  identifiers.
\<close>

theorem acknowledgements_are_sendable:
  assumes "13 \<le> ac_MaxSize cfg" "m \<in> set (aa_sent (foldl accumulator_step (ack_New cfg sid) evs))"
  shows "\<exists>a p. m_Payload m = PAck a \<and> MarshalAcknowledgement a = Ok p \<and> 13 \<le> length p
     \<and> int (length p) \<le> ac_MaxSize cfg
     \<and> UnmarshalAcknowledgement p = Ok (NewMessageAcknowledgement (Some (ack_data a)))"
proof -
  have "acc_inv (ac_MaxSize cfg) (foldl accumulator_step (ack_New cfg sid) evs)"
    using accumulator.inv_reached assms(1) by blast
  then obtain a where a: "m_Payload m = PAck a" "ack_wf a" "ack_data a \<noteq> []" "ack_size a \<le> ac_MaxSize cfg"
    using assms(2) by (auto simp: acc_inv_def sent_ok_def)
  with ack_roundtrip [OF a(2,3)] show ?thesis by force
qed

theorem acknowledgements_are_sendable_witness:
  "\<exists>a p. m_Payload (hd (aa_sent (foldl accumulator_step
       (ack_New \<lparr>ac_MaxSize = 20, ac_EndpointLifeTime = 0, ac_WaitingTimePercentOfRTO = 50\<rparr> 1)
       [AckMessage 7 1 5 6 1000, AckTimeout]))) = PAck a
     \<and> MarshalAcknowledgement a = Ok p \<and> 13 \<le> length p \<and> int (length p) \<le> 20
     \<and> UnmarshalAcknowledgement p = Ok (NewMessageAcknowledgement (Some (ack_data a)))"
proof -
  let ?cfg = "\<lparr>ac_MaxSize = 20, ac_EndpointLifeTime = 0, ac_WaitingTimePercentOfRTO = 50\<rparr>"
  let ?sent = "aa_sent (foldl accumulator_step (ack_New ?cfg 1) [AckMessage 7 1 5 6 1000, AckTimeout])"
  have "?sent \<noteq> []"
    by (simp add: accumulator_step_def ack_New_def acc_send_def sendACK_def ack_Push_def SetMaxSize_def
        NewMessageAcknowledgement_def Let_def)
  then have "hd ?sent \<in> set ?sent" by simp
  from acknowledgements_are_sendable [OF _ this] show ?thesis by simp
qed

end
