(* ===== verification/Datagram.thy ===== *)
theory Datagram
  imports FrameLoop Retry AckAccumulator
begin

text \<open>
  What the UDP halves of the client and of the two servers share: the retransmission and
  acknowledgement instances that connections refer to, sending a sealed message, opening a
  datagram, and the dispatch of an opened message.
\<close>

section \<open>The instances behind a connection\<close>

text \<open>
  \<open>retryFactory\<close> and \<open>ackFactory\<close> make an instance; a connection holds handles, \<open>None\<close> for a
  nil interface. An accumulator is its session and the channel its goroutine takes from.
\<close>

record ack_instance =
  ai_session :: u32
  ai_queue :: "(u32 \<times> u64) list"
  ai_stopped :: bool

record net_store =
  ns_retries :: "retry_state list"
  ns_acks :: "ack_instance list"

definition retryFactory :: "net_store \<Rightarrow> nat \<times> net_store" where
  "retryFactory ns = (length (ns_retries ns), ns\<lparr>ns_retries := ns_retries ns @ [retry_New]\<rparr>)"

definition ackFactory :: "u32 \<Rightarrow> net_store \<Rightarrow> nat \<times> net_store" where
  "ackFactory sessionID ns =
     (length (ns_acks ns),
      ns\<lparr>ns_acks := ns_acks ns @ [\<lparr>ai_session = sessionID, ai_queue = [], ai_stopped = False\<rparr>]\<rparr>)"

definition ack_enqueue :: "u32 \<Rightarrow> u64 \<Rightarrow> ack_instance \<Rightarrow> ack_instance" where
  "ack_enqueue i endpoint a = a\<lparr>ai_queue := ai_queue a @ [(i, endpoint)]\<rparr>"

definition ack_stop :: "ack_instance \<Rightarrow> ack_instance" where
  "ack_stop a = a\<lparr>ai_stopped := True\<rparr>"

text \<open>A method call through a handle; through a nil interface it panics.\<close>

definition with_retry :: "nat option \<Rightarrow> (retry_state \<Rightarrow> retry_state) \<Rightarrow> net_store \<Rightarrow> (gerror, net_store) res" where
  "with_retry h f ns =
     (case h of None \<Rightarrow> Panic
      | Some k \<Rightarrow> if k < length (ns_retries ns) then Ok (ns\<lparr>ns_retries := (ns_retries ns)[k := f (ns_retries ns ! k)]\<rparr>) else Panic)"

definition with_ack :: "nat option \<Rightarrow> (ack_instance \<Rightarrow> ack_instance) \<Rightarrow> net_store \<Rightarrow> (gerror, net_store) res" where
  "with_ack h f ns =
     (case h of None \<Rightarrow> Panic
      | Some k \<Rightarrow> if k < length (ns_acks ns) then Ok (ns\<lparr>ns_acks := (ns_acks ns)[k := f (ns_acks ns ! k)]\<rparr>) else Panic)"

section \<open>Sending\<close>

text \<open>
  Writing a datagram in pieces; the log call after it slices off a header of plain size. The
  result is what has been written and the error; \<open>None\<close> is a write that blocks for good.
\<close>

type_synonym sending = "(bytes \<times> (gerror, unit) res) option"

definition send_data :: "bytes \<Rightarrow> wr list \<Rightarrow> sending" where
  "send_data data ws =
     (case write_all data ws of
        Some (out, Ok _) \<Rightarrow> Some (out, if length data < HeaderSize then Panic else Ok ())
      | r \<Rightarrow> r)"

text \<open>
  \<open>sendAsyncUDP\<close> of the client and \<open>sendUDP\<close> of the servers: seal, send, and register user
  data for retransmission, with the whole datagram as its payload.
\<close>

record draws =
  dr_fake :: "nat \<Rightarrow> nat" \<comment> \<open>what \<open>rand\<close> draws for the fake data of the codec\<close>
  dr_rnd1 :: rand_read \<comment> \<open>what the first and the second encryption draw\<close>
  dr_rnd2 :: rand_read

definition send_udp :: "transport \<Rightarrow> draws \<Rightarrow> wr list \<Rightarrow> int \<Rightarrow> message \<Rightarrow> encryptor option \<Rightarrow> nat option
    \<Rightarrow> net_store \<Rightarrow> (bytes \<times> (gerror, unit) res \<times> net_store) option" where
  "send_udp t d ws now m user retry ns =
     (case seal t False True user (dr_fake d) (dr_rnd1 d) (dr_rnd2 d) m of
        Err e \<Rightarrow> Some ([], Err e, ns)
      | Panic \<Rightarrow> Some ([], Panic, ns)
      | Ok data \<Rightarrow>
          (case send_data data ws of
             None \<Rightarrow> None
           | Some (out, Ok _) \<Rightarrow>
               (if IsSendACK m then
                  (case with_retry retry (retry_Push now (m\<lparr>m_Payload := PBytes data\<rparr>)) ns of
                     Ok ns1 \<Rightarrow> Some (out, Ok (), ns1)
                   | _ \<Rightarrow> Some (out, Panic, ns))
                else Some (out, Ok (), ns))
           | Some (out, r) \<Rightarrow> Some (out, r, ns)))"

text \<open>Keepalives: only the header is sent; errors are logged.\<close>

definition keepalive_message :: "u32 \<Rightarrow> bool \<Rightarrow> message" where
  "keepalive_message sid ack = new_message\<lparr>m_SessionID := sid, m_Type := MessageTypeKeepalive, m_IsACK := ack\<rparr>"

definition send_keepalive :: "transport \<Rightarrow> draws \<Rightarrow> wr list \<Rightarrow> connection \<Rightarrow> bool \<Rightarrow> sending" where
  "send_keepalive t d ws conn ack =
     (case rbind (Marshal (tr_codec t) (dr_fake d) (keepalive_message (c_SessionID conn) ack))
             (\<lambda>(h, p). e_Encrypt (tr_enc t) (dr_rnd1 d) h) of
        Err e \<Rightarrow> Some ([], Ok ())
      | Panic \<Rightarrow> Some ([], Panic)
      | Ok data \<Rightarrow>
          (case send_data data ws of
             Some (out, Err e) \<Rightarrow> Some (out, Ok ())
           | r \<Rightarrow> r))"

section \<open>Receiving\<close>

text \<open>
  Reading a datagram into a buffer of the size of the longest frame; a longer one is cut off.
\<close>

datatype datagram = DGram bytes net_addr | DGErr gerror

datatype dgram_read = DShort | DBadHeader gerror | DHeaderPanic | DBadLength | DMsg message nat

definition buffer_size :: "transport \<Rightarrow> nat" where
  "buffer_size t = nat (e_GetLength (tr_enc t) (tr_MTU t) + int (headerLength t))"

definition open_datagram :: "transport \<Rightarrow> bytes \<Rightarrow> dgram_read" where
  "open_datagram t bs =
     (let buf = take (buffer_size t) bs; n = length buf
      in if n < headerLength t then DShort
         else case open_header t (take (headerLength t) buf) of
           Panic \<Rightarrow> DHeaderPanic
         | Err e \<Rightarrow> DBadHeader e
         | Ok m \<Rightarrow>
             if unat (m_PayloadLength m) + headerLength t \<noteq> n then DBadLength
             else if m_PayloadLength m > 0 then DMsg (m\<lparr>m_Payload := PBytes (drop (headerLength t) buf)\<rparr>) n
             else DMsg m n)"

text \<open>
  The end of every UDP receiver: an acknowledgement goes to the retransmission, user data is
  acknowledged, and what is not an acknowledgement goes to the receiver. \<open>SNext\<close> is a
  \<open>continue\<close>, \<open>SReceived\<close> goes on behind the call of the receiver.
\<close>

datatype step_end = SNext | SReceived | SReturn | SCrash

definition dispatch :: "'s receiver_env \<Rightarrow> int \<Rightarrow> bool \<Rightarrow> message \<Rightarrow> connection \<Rightarrow> net_store \<Rightarrow> 's
    \<Rightarrow> step_end \<times> connection \<times> net_store \<times> 's" where
  "dispatch env now pending m conn ns s =
     (if m_IsACK m then
        (case m_Payload m of
           PAck a \<Rightarrow>
             (case with_retry (c_Retry conn) (retry_Ack now pending (Some a)) ns of
                Ok ns1 \<Rightarrow> (SNext, conn, ns1, s)
              | _ \<Rightarrow> (SCrash, conn, ns, s))
         | _ \<Rightarrow> (SCrash, conn, ns, s))
      else
        (case (if IsSendACK m then with_ack (c_Ack conn) (ack_enqueue (m_ID m) (GetEndpoint m)) ns else Ok ns) of
           Ok ns1 \<Rightarrow>
             (case re_receiver env m conn s of
                (Ok _, conn1, s1) \<Rightarrow> (SReceived, conn1, ns1, s1)
              | (Err _, conn1, s1) \<Rightarrow> (if m_Type m \<noteq> MessageTypeData then SReturn else SReceived, conn1, ns1, s1)
              | (Panic, conn1, s1) \<Rightarrow> (SCrash, conn1, ns1, s1))
         | _ \<Rightarrow> (SCrash, conn, ns, s)))"

text \<open>A keepalive: the peer's is answered, an answer resets the probes.\<close>

definition dispatch_keepalive :: "int \<Rightarrow> bool \<Rightarrow> message \<Rightarrow> connection \<Rightarrow> net_store \<Rightarrow> 's
    \<Rightarrow> step_end \<times> connection \<times> net_store \<times> 's" where
  "dispatch_keepalive now pending m conn ns s =
     (case with_retry (c_Retry conn) (if \<not> m_IsACK m then retry_Keepalive else retry_Ack now pending None) ns of
        Ok ns1 \<Rightarrow> (SNext, conn, ns1, s)
      | _ \<Rightarrow> (SCrash, conn, ns, s))"

section \<open>A sent datagram is opened as its message\<close>

lemma send_data_Ok: "send_data data ws = Some (out, Ok ()) \<Longrightarrow> out = data \<and> HeaderSize \<le> length data"
proof -
  assume sent: "send_data data ws = Some (out, Ok ())"
  show "out = data \<and> HeaderSize \<le> length data"
  proof (cases "write_all data ws")
    case None
    then show ?thesis using sent by (simp add: send_data_def)
  next
    case (Some w)
    obtain out' r where w: "w = (out', r)" by (cases w)
    have "r = Ok () \<and> out' = out \<and> HeaderSize \<le> length data"
      using sent by (cases r) (simp_all add: send_data_def Some w split: if_splits)
    then show ?thesis using write_all_Ok [of data ws out] Some w by simp
  qed
qed

text \<open>A good frame that fits the buffer is opened, and its verdict is the message.\<close>

lemma good_frame_datagram:
  assumes "good_frame t (re_decode env) u m f" "length f \<le> buffer_size t" "re_enc env conn s = Ok (Some u)"
  shows "\<exists>m1 m2. open_datagram t f = DMsg m1 (length f) \<and> m_Type m1 = m_Type m \<and> m_IsACK m1 = m_IsACK m
     \<and> m_SessionID m1 = m_SessionID m
     \<and> verdict_of t env conn s m1 = VDeliver m2 \<and> received_as (re_decode env) m m2"
proof -
  obtain ch cp where f: "f = ch @ cp" "frame_for t (if IsUserData m then u else tr_enc t) m ch cp"
    and m: "m_Error m = 0" "IsUserData m \<longrightarrow> (\<exists>b info. m_Payload m = PBytes b \<and> re_decode env b = Ok info)"
    using assms(1) unfolding good_frame_def by blast
  obtain m1 m2 where v: "open_header t ch = Ok m1" "unat (m_PayloadLength m1) = length cp"
    "verdict_of t env conn s (if cp = [] then m1 else m1\<lparr>m_Payload := PBytes cp\<rparr>) = VDeliver m2"
    "received_as (re_decode env) m m2"
    using frame_verdict [OF f(2) m assms(3)] by blast
  have hd: "length ch = headerLength t" "m_Type m1 = m_Type m" "m_IsACK m1 = m_IsACK m" "m_SessionID m1 = m_SessionID m"
    using f(2) v(1) by (auto simp: frame_for_def)
  have buf: "take (buffer_size t) f = ch @ cp" using assms(2) f(1) by simp
  have "m_PayloadLength m1 > 0 \<longleftrightarrow> cp \<noteq> []" using v(2) by (simp add: word_less_nat_alt)
  then have "open_datagram t f = DMsg (if cp = [] then m1 else m1\<lparr>m_Payload := PBytes cp\<rparr>) (length f)"
    using v(1,2) hd(1) f(1) unfolding open_datagram_def buf by (simp add: Let_def)
  with v(3,4) hd(2-4) show ?thesis by auto
qed

section \<open>What is sealed is a good frame\<close>

definition draws_ok :: "nat \<Rightarrow> draws \<Rightarrow> bool" where
  "draws_ok k d \<longleftrightarrow> rand_ok k (dr_rnd1 d) \<and> rand_ok k (dr_rnd2 d)"

text \<open>A message worth sending: encodable, no error, and user data is a packet the decoder knows.\<close>

definition proper :: "transport \<Rightarrow> packet_decoder \<Rightarrow> message \<Rightarrow> bool" where
  "proper t decode m \<longleftrightarrow> sendable t m \<and> m_Error m = 0
     \<and> (IsUserData m \<longrightarrow> (\<exists>b info. m_Payload m = PBytes b \<and> decode b = Ok info))"

definition user_encryptor :: "encryptor \<Rightarrow> message \<Rightarrow> encryptor option" where
  "user_encryptor u m = (if IsUserData m then Some u else None)"

lemma transport_ok_primary: "transport_ok k t u \<Longrightarrow> transport_ok k t (tr_enc t)"
  by (simp add: transport_ok_def)

lemma seal_proper:
  assumes ok: "transport_ok k t u" and d: "draws_ok k d" and m: "proper t decode m" and force: "force \<longrightarrow> IsPayload m"
  shows "\<exists>data. seal t force pf (user_encryptor u m) (dr_fake d) (dr_rnd1 d) (dr_rnd2 d) m = Ok data \<and> good_frame t decode u m data"
proof -
  have p: "payload_encryptor t (user_encryptor u m) = (if IsUserData m then u else tr_enc t)"
    by (simp add: payload_encryptor_def user_encryptor_def)
  then have tok: "transport_ok k t (payload_encryptor t (user_encryptor u m))"
    using ok transport_ok_primary [OF ok] by simp
  have rnd: "rand_ok k (dr_rnd1 d)" "rand_ok k (dr_rnd2 d)" using d by (simp_all add: draws_ok_def)
  have s: "sendable t m" using m by (simp add: proper_def)
  obtain ch cp where "seal t force pf (user_encryptor u m) (dr_fake d) (dr_rnd1 d) (dr_rnd2 d) m = Ok (ch @ cp)"
    "frame_for t (if IsUserData m then u else tr_enc t) m ch cp"
    using seal_frame [OF tok rnd s force, of pf "dr_fake d"] unfolding p by blast
  then show ?thesis using m unfolding good_frame_def proper_def by blast
qed

lemma seal_good_frame:
  assumes "transport_ok k t u" "draws_ok k d" "proper t decode m" "force \<longrightarrow> IsPayload m"
    and "seal t force pf (user_encryptor u m) (dr_fake d) (dr_rnd1 d) (dr_rnd2 d) m = Ok data"
  shows "good_frame t decode u m data"
  using seal_proper [OF assms(1-4), of pf] assms(5) by auto

lemma good_frame_nonempty: "good_frame t decode u m f \<Longrightarrow> headerLength t \<le> length f"
  by (auto simp: good_frame_def frame_for_def)

end
