(* ===== verification/NetClient.thy ===== *)
theory NetClient
  imports Datagram
begin

text \<open>
  The network client (\<open>adapter/client\<close>): asynchronous and synchronous sending over TCP and UDP,
  keepalives, and the UDP receiver. Its TCP receiver is \<open>client_ReceiverTCP\<close>.
\<close>

section \<open>Sending\<close>

text \<open>
  Over TCP the client encrypts the payload even when it is empty, and writes the header and
  the payload in one slice.
\<close>

definition sendAsyncTCP :: "transport \<Rightarrow> draws \<Rightarrow> wr list \<Rightarrow> message \<Rightarrow> encryptor option \<Rightarrow> sending" where
  "sendAsyncTCP t d ws m user =
     (case seal t True False user (dr_fake d) (dr_rnd1 d) (dr_rnd2 d) m of
        Ok data \<Rightarrow> write_all data ws
      | Err e \<Rightarrow> Some ([], Err e)
      | Panic \<Rightarrow> Some ([], Panic))"

definition client_SendAsync :: "transport \<Rightarrow> 's receiver_env \<Rightarrow> draws \<Rightarrow> wr list \<Rightarrow> int \<Rightarrow> message \<Rightarrow> connection \<Rightarrow> 's
    \<Rightarrow> net_store \<Rightarrow> (bytes \<times> (gerror, unit) res \<times> net_store) option" where
  "client_SendAsync t env d ws now m conn s ns =
     (case (if IsUserData m then re_enc env conn s else Ok None) of
        Err e \<Rightarrow> Some ([], Err e, ns)
      | Panic \<Rightarrow> Some ([], Panic, ns)
      | Ok user \<Rightarrow>
          if c_TCPConn conn \<noteq> None
          then map_option (\<lambda>(out, r). (out, r, ns)) (sendAsyncTCP t d ws m user)
          else send_udp t d ws now m user (c_Retry conn) ns)"

text \<open>
  The synchronous calls write a request and read one reply, with deadlines on the socket; the
  payload of the reply is not opened yet. \<open>dl\<close> is what setting the deadlines answers, in
  order. A reply that could not be read for any other reason than an error of the socket is
  nil, without an error.
\<close>

datatype sync_reply = SyncBlocked | SyncErr gerror | SyncPanic | SyncReply "message option" connection

definition sendSyncTCP :: "transport \<Rightarrow> draws \<Rightarrow> wr list \<Rightarrow> gerror rd list \<Rightarrow> gerror option \<Rightarrow> gerror option
    \<Rightarrow> message \<Rightarrow> connection \<Rightarrow> bytes \<times> sync_reply" where
  "sendSyncTCP t d ws es dl1 dl2 m conn =
     (case sendAsyncTCP t d ws m None of
        None \<Rightarrow> ([], SyncBlocked)
      | Some (out, Err e) \<Rightarrow> (out, SyncErr e)
      | Some (out, Panic) \<Rightarrow> (out, SyncPanic)
      | Some (out, Ok _) \<Rightarrow>
          (out, case dl1 of Some e \<Rightarrow> SyncErr e
           | None \<Rightarrow>
               (case readTCP t es of
                  FrameBlocked \<Rightarrow> SyncBlocked
                | FrameErr e rest \<Rightarrow> SyncErr e
                | HeaderPanic \<Rightarrow> SyncPanic
                | r \<Rightarrow>
                    (case dl2 of Some e \<Rightarrow> SyncErr e
                     | None \<Rightarrow>
                         (case c_TCPConn conn of None \<Rightarrow> SyncPanic
                          | Some so \<Rightarrow>
                              SyncReply (case r of Frame m n rest \<Rightarrow> Some m | _ \<Rightarrow> None)
                                (conn\<lparr>c_Addr := so_RemoteAddr so\<rparr>))))))"

text \<open>
  \<open>readUDP\<close>: a datagram that is too short, does not open or has the wrong length gives a nil
  message and no error. An answer to a keepalive counts as no bytes.
\<close>

datatype udp_read = UMsg message net_addr nat | UNil | UErr gerror | UPanic

definition readUDP :: "transport \<Rightarrow> datagram \<Rightarrow> udp_read" where
  "readUDP t ev =
     (case ev of
        DGErr e \<Rightarrow> UErr e
      | DGram bs addr \<Rightarrow>
          (case open_datagram t bs of
             DHeaderPanic \<Rightarrow> UPanic
           | DMsg m n \<Rightarrow> UMsg m addr (if m_IsACK m \<and> m_Type m = MessageTypeKeepalive then 0 else n)
           | _ \<Rightarrow> UNil))"

definition sendSyncUDP :: "transport \<Rightarrow> draws \<Rightarrow> wr list \<Rightarrow> datagram option \<Rightarrow> (nat \<Rightarrow> gerror option)
    \<Rightarrow> message \<Rightarrow> connection \<Rightarrow> bytes \<times> sync_reply" where
  "sendSyncUDP t d ws ev dl m conn =
     (case seal t False True None (dr_fake d) (dr_rnd1 d) (dr_rnd2 d) m of
        Err e \<Rightarrow> ([], SyncErr e)
      | Panic \<Rightarrow> ([], SyncPanic)
      | Ok data \<Rightarrow>
          (case dl 0 of Some e \<Rightarrow> ([], SyncErr e)
           | None \<Rightarrow>
              (case send_data data ws of
                 None \<Rightarrow> ([], SyncBlocked)
               | Some (out, Err e) \<Rightarrow> (out, SyncErr e)
               | Some (out, Panic) \<Rightarrow> (out, SyncPanic)
               | Some (out, Ok _) \<Rightarrow>
                   (out, case dl 1 of Some e \<Rightarrow> SyncErr e
                    | None \<Rightarrow>
                       (case dl 2 of Some e \<Rightarrow> SyncErr e
                        | None \<Rightarrow>
                           (case ev of None \<Rightarrow> SyncBlocked
                            | Some ev \<Rightarrow>
                               (case readUDP t ev of
                                  UErr e \<Rightarrow> SyncErr e
                                | UPanic \<Rightarrow> SyncPanic
                                | r \<Rightarrow>
                                    (case dl 3 of Some e \<Rightarrow> SyncErr e
                                     | None \<Rightarrow>
                                        (case r of UMsg m addr n \<Rightarrow> SyncReply (Some m) (conn\<lparr>c_Addr := addr\<rparr>)
                                         | _ \<Rightarrow> SyncReply None (conn\<lparr>c_Addr := NoAddr\<rparr>)))))))))) "

definition client_SendSync :: "transport \<Rightarrow> draws \<Rightarrow> wr list \<Rightarrow> gerror rd list \<Rightarrow> datagram option \<Rightarrow> (nat \<Rightarrow> gerror option)
    \<Rightarrow> message \<Rightarrow> connection \<Rightarrow> bytes \<times> sync_reply" where
  "client_SendSync t d ws es ev dl m conn =
     (if c_TCPConn conn \<noteq> None then sendSyncTCP t d ws es (dl 0) (dl 1) m conn
      else sendSyncUDP t d ws ev dl m conn)"

definition client_sendKeepalive :: "transport \<Rightarrow> draws \<Rightarrow> wr list \<Rightarrow> connection \<Rightarrow> bool \<Rightarrow> sending" where
  "client_sendKeepalive t d ws conn ack = send_keepalive t d ws conn ack"

section \<open>The UDP receiver\<close>

definition client_udp_start :: "connection \<Rightarrow> u32 \<Rightarrow> net_store \<Rightarrow> connection \<times> net_store" where
  "client_udp_start conn sessionID ns =
     (case retryFactory ns of (r, ns1) \<Rightarrow>
      case ackFactory sessionID ns1 of (a, ns2) \<Rightarrow>
        (conn\<lparr>c_SessionID := sessionID, c_Retry := Some r, c_Ack := Some a, c_Proto := ProtoUDP\<rparr>, ns2))"

text \<open>
  One datagram, at time \<open>now\<close>; \<open>pending\<close> is what stopping a timer answers. A nil message is
  dereferenced.
\<close>

definition client_udp_step :: "transport \<Rightarrow> 's receiver_env \<Rightarrow> int \<Rightarrow> bool \<Rightarrow> datagram
    \<Rightarrow> connection \<times> net_store \<times> 's \<Rightarrow> step_end \<times> connection \<times> net_store \<times> 's" where
  "client_udp_step t env now pending ev st =
     (case st of (conn, ns, s) \<Rightarrow>
      case readUDP t ev of
        UErr e \<Rightarrow> (if IsErrorInterruptingNetwork e then SReturn else SNext, conn, ns, s)
      | UNil \<Rightarrow> (SCrash, conn, ns, s)
      | UPanic \<Rightarrow> (SCrash, conn, ns, s)
      | UMsg m addr n \<Rightarrow>
          (let conn = conn\<lparr>c_Addr := addr\<rparr>; s = re_stat env (m_SessionID m) (int n) s
           in if m_Type m = MessageTypeKeepalive then dispatch_keepalive now pending m conn ns s
              else case verdict_of t env conn s m of
                VStop \<Rightarrow> (SReturn, conn, ns, s)
              | VSkip \<Rightarrow> (SNext, conn, ns, s)
              | VPanic \<Rightarrow> (SCrash, conn, ns, s)
              | VDeliver m1 \<Rightarrow> dispatch env now pending m1 conn ns s))"

text \<open>When the goroutine returns it stops its retransmission and its accumulator.\<close>

definition client_udp_stop :: "connection \<Rightarrow> net_store \<Rightarrow> (gerror, net_store) res" where
  "client_udp_stop conn ns = rbind (with_retry (c_Retry conn) retry_Stop ns) (with_ack (c_Ack conn) ack_stop)"

fun client_udp_loop :: "transport \<Rightarrow> 's receiver_env \<Rightarrow> (datagram \<times> int \<times> bool) list
    \<Rightarrow> connection \<times> net_store \<times> 's \<Rightarrow> recv_end \<times> connection \<times> net_store \<times> 's" where
  "client_udp_loop t env [] st = (RBlocked, st)"
| "client_udp_loop t env ((ev, now, pending) # evs) st =
     (case client_udp_step t env now pending ev st of
        (SCrash, st1) \<Rightarrow> (RPanicked, st1)
      | (SReturn, conn, ns, s) \<Rightarrow>
          (case client_udp_stop conn ns of
             Ok ns1 \<Rightarrow> (RFinished, conn, ns1, s)
           | _ \<Rightarrow> (RPanicked, conn, ns, s))
      | (_, st1) \<Rightarrow> client_udp_loop t env evs st1)"

definition client_ReceiverUDP :: "transport \<Rightarrow> 's receiver_env \<Rightarrow> connection \<Rightarrow> u32 \<Rightarrow> net_store \<Rightarrow> 's
    \<Rightarrow> (datagram \<times> int \<times> bool) list \<Rightarrow> recv_end \<times> connection \<times> net_store \<times> 's" where
  "client_ReceiverUDP t env conn sessionID ns s evs =
     (case client_udp_start conn sessionID ns of (conn1, ns1) \<Rightarrow> client_udp_loop t env evs (conn1, ns1, s))"

end
