(* ===== verification/Structs.thy ===== *)
theory Structs
  imports Prelude
begin

text \<open>
  The helpers on slices and maps of \<open>pkg/structs\<close>. A nil slice or map is \<open>None\<close> where the code
  tells it from an empty one.
\<close>

section \<open>Slices\<close>

definition structs_If :: "bool \<Rightarrow> 'a \<Rightarrow> 'a \<Rightarrow> 'a" where
  "structs_If condition thn els = (if condition then thn else els)"

definition structs_Map :: "'a list option \<Rightarrow> ('a \<Rightarrow> 'b) \<Rightarrow> 'b list option" where
  "structs_Map collection f = map_option (map f) collection"

fun map_with_error :: "('a \<Rightarrow> ('e, 'b) res) \<Rightarrow> 'a list \<Rightarrow> ('e, 'b list) res" where
  "map_with_error f [] = Ok []"
| "map_with_error f (x # xs) = rbind (f x) (\<lambda>y. rbind (map_with_error f xs) (\<lambda>ys. Ok (y # ys)))"

definition MapWithError :: "'a list option \<Rightarrow> ('a \<Rightarrow> ('e, 'b) res) \<Rightarrow> ('e, 'b list option) res" where
  "MapWithError collection f =
     (case collection of None \<Rightarrow> Ok None | Some xs \<Rightarrow> rbind (map_with_error f xs) (\<lambda>ys. Ok (Some ys)))"

definition FilterSlice :: "'a list option \<Rightarrow> ('a \<Rightarrow> bool) \<Rightarrow> 'a list option" where
  "FilterSlice collection P = map_option (filter P) collection"

definition ForEach :: "'a list \<Rightarrow> ('a \<Rightarrow> 's \<Rightarrow> 's) \<Rightarrow> 's \<Rightarrow> 's" where
  \<comment> \<open>the effects of the calls in order\<close>
  "ForEach collection f = fold f collection"

definition SliceToMap :: "'a list \<Rightarrow> ('a \<Rightarrow> 'k) \<Rightarrow> ('k, 'a) gomap" where
  "SliceToMap collection key = fold (\<lambda>item m. mput (key item) item m) collection []"

definition SliceToMapOfStruct :: "'a list \<Rightarrow> ('a \<Rightarrow> 'k) \<Rightarrow> ('k, unit) gomap" where
  "SliceToMapOfStruct collection key = fold (\<lambda>item m. mput (key item) () m) collection []"

text \<open>The last element takes the place of the deleted one.\<close>

definition structs_Delete :: "'a list \<Rightarrow> nat \<Rightarrow> 'a list" where
  "structs_Delete collection i =
     (if i \<ge> length collection then collection
      else take (length collection - 1) (collection[i := last collection]))"

section \<open>Maps\<close>

definition structs_Keys :: "('k, 'v) gomap option \<Rightarrow> 'k list option" where
  "structs_Keys m = map_option mkeys m"

definition FilterMap :: "('k, 'v) gomap option \<Rightarrow> ('v \<Rightarrow> bool) \<Rightarrow> ('k, 'v) gomap option" where
  "FilterMap collection P = map_option (filter (\<lambda>(k, v). P v)) collection"

section \<open>What they do\<close>

lemma MapWithError_Ok:
  "MapWithError (Some xs) f = Ok (Some ys) \<longleftrightarrow> list_all2 (\<lambda>x y. f x = Ok y) xs ys"
proof (induction xs arbitrary: ys)
  case Nil
  show ?case by (auto simp: MapWithError_def)
next
  case (Cons x xs)
  have "map_with_error f xs = Ok zs \<longleftrightarrow> list_all2 (\<lambda>x y. f x = Ok y) xs zs" for zs
    using Cons.IH [of zs] by (auto simp: MapWithError_def res_simps)
  then show ?case by (auto simp: MapWithError_def res_simps list_all2_Cons1)
qed

lemma SliceToMap_last:
  "map_of (SliceToMap xs key) k = (if k \<in> key ` set xs then Some (last (filter (\<lambda>x. key x = k) xs)) else None)"
proof (induction xs rule: rev_induct)
  case (snoc x xs)
  then show ?case by (simp add: SliceToMap_def gomap_simps)
qed (simp add: SliceToMap_def)

lemma SliceToMap_mwf: "mwf (SliceToMap xs key)"
  by (induction xs rule: rev_induct) (simp_all add: SliceToMap_def gomap_simps)

lemma structs_Delete_mset:
  assumes "i < length xs"
  shows "mset (structs_Delete xs i) = mset xs - {#xs ! i#}"
proof -
  have ne: "xs \<noteq> []" using assms by auto
  then obtain ys y where xs: "xs = ys @ [y]" by (metis append_butlast_last_id)
  show ?thesis
  proof (cases "i = length ys")
    case True
    then show ?thesis by (simp add: structs_Delete_def xs)
  next
    case False
    then have i: "i < length ys" using assms xs by simp
    then show ?thesis
      by (simp add: structs_Delete_def xs list_update_append nth_append mset_update)
  qed
qed

lemma length_structs_Delete: "length (structs_Delete xs i) = (if i < length xs then length xs - 1 else length xs)"
  by (simp add: structs_Delete_def)

lemma structs_Delete_nth:
  assumes "i < length xs" "j < length xs - 1"
  shows "structs_Delete xs i ! j = (if j = i then last xs else xs ! j)"
  using assms by (simp add: structs_Delete_def)

end
