(* ===== verification/ClientUC.thy ===== *)
theory ClientUC
  imports ServerState NetClient Structs
begin

text \<open>
  The use case of the client (\<open>business/usecase/client.go\<close>, \<open>client.connections.go\<close> and
  \<open>client.interface.go\<close>): its connections, authentication and handshake on each of them, the
  tunnel interface, reset, stop and reconnection. The lock is left out: an operation is one step.
\<close>

section \<open>State\<close>

record client_conn =
  cc_idx :: nat
  cc_conn :: connection
  cc_encryptor :: encryptor

record client_interface =
  ci_Name :: string
  ci_IP :: if_ip
  ci_connections :: "connection list"

text \<open>The part of the configuration the use case reads.\<close>

record client_connection =
  cf_Server :: network_config
  cf_Key :: bytes
  cf_User :: user
  cf_TunnelEncryption :: string

text \<open>
  The slice \<open>connections\<close> and the map \<open>connectionsMap\<close> share their objects: both hold
  references into \<open>cu_objects\<close>.
\<close>

record client_uc =
  cu_ClientID :: bytes
  cu_conn :: client_connection
  cu_codec :: tapir
  cu_encryptor :: encryptor
  cu_merger :: stream_merger
  cu_objects :: "client_conn list"
  cu_connections :: "nat list"
  cu_connectionsMap :: "(bytes, nat) gomap"
  cu_interfaceConn :: "client_interface option"
  cu_isConnected :: bool
  cu_isExit :: bool
  cu_sessionID :: u32
  cu_portSelectionStrategy :: u8
  cu_compressionType :: u8
  cu_compressionLevel :: u8
  cu_closed :: "connection list" \<comment> \<open>connections closed\<close>
  cu_ifClosed :: "string list" \<comment> \<open>interfaces closed\<close>
  cu_receivers :: "nat list" \<comment> \<open>receivers started, by their connection\<close>
  cu_sent :: "(message \<times> connection) list" \<comment> \<open>asynchronous sends\<close>
  cu_written :: "payload list" \<comment> \<open>writes to the device\<close>
  cu_stat :: "(u32 \<times> statistic) list" \<comment> \<open>figures reported\<close>

text \<open>The libraries, and what one attempt meets in the world.\<close>

record client_lib =
  cl_authResponse :: "payload \<Rightarrow> (gerror, auth_response) res" \<comment> \<open>\<open>mapstructure.Decode\<close>\<close>
  cl_handshake :: "payload \<Rightarrow> (gerror, bytes) res"
  cl_aes :: new_cipher
  cl_gcm :: new_gcm
  cl_PublicKey :: "bytes \<Rightarrow> bytes"
  cl_NewPublicKey :: "bytes \<Rightarrow> (gerror, bytes) res"
  cl_ECDH :: "bytes \<Rightarrow> bytes \<Rightarrow> (gerror, bytes) res"

record client_world =
  cw_Run :: "u16 \<Rightarrow> u8 \<Rightarrow> (gerror, connection) res"
  cw_SendSync :: "message \<Rightarrow> connection \<Rightarrow> sync_reply"
  cw_SendAsync :: "message \<Rightarrow> connection \<Rightarrow> (gerror, unit) res"
  cw_Receiver :: "u8 \<Rightarrow> connection \<Rightarrow> u32 \<Rightarrow> connection" \<comment> \<open>the connection as starting its receiver leaves it\<close>
  cw_created :: "(gerror, string) res"
  cw_privateKey :: "(gerror, bytes) res"
  cw_write :: "(gerror, unit) res"
  cw_draw :: nat

definition client_conn_of :: "nat \<Rightarrow> client_uc \<Rightarrow> client_conn" where
  "client_conn_of r uc = cu_objects uc ! r"

definition set_conn :: "nat \<Rightarrow> connection \<Rightarrow> client_uc \<Rightarrow> client_uc" where
  "set_conn r conn uc = uc\<lparr>cu_objects := (cu_objects uc)[r := (cu_objects uc ! r)\<lparr>cc_conn := conn\<rparr>]\<rparr>"

definition client_reset :: "client_uc \<Rightarrow> client_uc" where
  "client_reset uc = uc\<lparr>cu_sessionID := 0, cu_isConnected := False\<rparr>"

definition NewClientUseCase :: "client_lib \<Rightarrow> bytes \<Rightarrow> client_connection \<Rightarrow> tapir \<Rightarrow> stream_merger \<Rightarrow> (gerror, client_uc) res" where
  "NewClientUseCase lib clientID conn codec mg =
     rbind (GetEncryptor (cl_aes lib) (cl_gcm lib) (cf_Key conn) (cf_TunnelEncryption conn)) (\<lambda>enc.
       Ok (client_reset \<lparr>cu_ClientID = clientID, cu_conn = conn, cu_codec = codec, cu_encryptor = enc, cu_merger = mg,
         cu_objects = [], cu_connections = [], cu_connectionsMap = [], cu_interfaceConn = None,
         cu_isConnected = False, cu_isExit = False, cu_sessionID = 0,
         cu_portSelectionStrategy = GetPortSelectionStrategy (nc_PortSelectionStrategy (cf_Server conn)),
         cu_compressionType = GetCompressionType (nc_Compression (cf_Server conn)),
         cu_compressionLevel = word_of_int (nc_CompressionLevel (cf_Server conn)),
         cu_closed = [], cu_ifClosed = [], cu_receivers = [], cu_sent = [], cu_written = [], cu_stat = []\<rparr>))"

section \<open>Connections\<close>

text \<open>\<open>addConnection\<close> puts the object \<open>r\<close> into the tables, unless its key is known.\<close>

definition client_addConnection :: "connection \<Rightarrow> nat \<Rightarrow> client_uc \<Rightarrow> (gerror, client_uc) res" where
  "client_addConnection conn r uc =
     rbind (Connection_Key conn) (\<lambda>k.
       Ok (if map_of (cu_connectionsMap uc) k \<noteq> None then uc
           else uc\<lparr>cu_objects := (cu_objects uc)[r := (cu_objects uc ! r)\<lparr>cc_idx := length (cu_connections uc)\<rparr>],
                   cu_connectionsMap := mput k r (cu_connectionsMap uc),
                   cu_connections := cu_connections uc @ [r]\<rparr>))"

definition client_setConnectionEncryptor :: "connection \<Rightarrow> encryptor \<Rightarrow> client_uc \<Rightarrow> (gerror, client_uc) res" where
  "client_setConnectionEncryptor conn enc uc =
     rbind (Connection_Key conn) (\<lambda>k.
       case map_of (cu_connectionsMap uc) k of
         None \<Rightarrow> Ok uc
       | Some r \<Rightarrow> Ok (uc\<lparr>cu_objects := (cu_objects uc)[r := (cu_objects uc ! r)\<lparr>cc_encryptor := enc\<rparr>]\<rparr>))"

definition client_getConnectionEncryptor :: "connection \<Rightarrow> client_uc \<Rightarrow> (gerror, encryptor) res" where
  "client_getConnectionEncryptor conn uc =
     rbind (Connection_Key conn) (\<lambda>k.
       case map_of (cu_connectionsMap uc) k of
         None \<Rightarrow> Err ErrConnectionNotExists
       | Some r \<Rightarrow> Ok (cc_encryptor (client_conn_of r uc)))"

definition client_getConnection :: "nat \<Rightarrow> packet_info option \<Rightarrow> client_uc \<Rightarrow> (gerror, nat) res" where
  \<comment> \<open>a nil packet is dereferenced by the strategy \<open>hash\<close>; an index out of the slice panics\<close>
  "client_getConnection draw packet uc =
     (let n = length (cu_connectionsMap uc);
          pick = (\<lambda>i. if i < length (cu_connections uc) then Ok (cu_connections uc ! i) else Panic)
      in if n = 0 then Err ErrConnectionNotExists
         else if cu_portSelectionStrategy uc = PortSelectionStrategyRandom then pick (draw mod n)
         else if cu_portSelectionStrategy uc = PortSelectionStrategyHash then
           (case packet of None \<Rightarrow> Panic | Some p \<Rightarrow> pick (unat (pi_Endpoint p) mod n))
         else Err ErrNoPortSelectionStrategy)"

text \<open>The local \<open>removeConnection\<close> of \<open>createConnection\<close>.\<close>

definition forget_connection :: "connection \<Rightarrow> client_uc \<Rightarrow> (gerror, client_uc) res" where
  "forget_connection conn uc =
     rbind (Connection_Key conn) (\<lambda>k.
       case map_of (cu_connectionsMap uc) k of
         None \<Rightarrow> Ok uc
       | Some r \<Rightarrow> Ok (uc\<lparr>cu_connections := structs_Delete (cu_connections uc) (cc_idx (client_conn_of r uc)),
                          cu_connectionsMap := mdel k (cu_connectionsMap uc)\<rparr>))"

definition closeAndRemoveAllConnections :: "client_uc \<Rightarrow> client_uc" where
  "closeAndRemoveAllConnections uc =
     uc\<lparr>cu_closed := cu_closed uc @ map (\<lambda>r. cc_conn (client_conn_of r uc)) (cu_connections uc),
        cu_connections := [], cu_connectionsMap := []\<rparr>"

definition closeInterface :: "client_uc \<Rightarrow> client_uc" where
  "closeInterface uc =
     (case cu_interfaceConn uc of
        None \<Rightarrow> uc
      | Some i \<Rightarrow> uc\<lparr>cu_ifClosed := cu_ifClosed uc @ [ci_Name i], cu_interfaceConn := None\<rparr>)"

text \<open>\<open>sendReset\<close> asks for a connection without a packet; an error of the send is only logged.\<close>

definition sendReset :: "client_world \<Rightarrow> client_uc \<Rightarrow> (gerror, client_uc) res" where
  "sendReset w uc =
     (if \<not> cu_isConnected uc then Ok uc
      else case client_getConnection (cw_draw w) None uc of
        Panic \<Rightarrow> Panic
      | Err e \<Rightarrow> Ok uc
      | Ok r \<Rightarrow>
          (let m = new_message\<lparr>m_Type := MessageTypeReset, m_SessionID := cu_sessionID uc\<rparr>;
               conn = cc_conn (client_conn_of r uc)
           in case cw_SendAsync w m conn of
                Panic \<Rightarrow> Panic
              | _ \<Rightarrow> Ok (uc\<lparr>cu_sent := cu_sent uc @ [(m, conn)]\<rparr>)))"

definition client_Stop :: "client_world \<Rightarrow> client_uc \<Rightarrow> (gerror, client_uc) res" where
  "client_Stop w uc =
     (if \<not> cu_isConnected uc then Ok uc
      else rbind (sendReset w (closeInterface (uc\<lparr>cu_merger := merger_DeleteStream (cu_sessionID uc) (cu_merger uc)\<rparr>)))
        (\<lambda>uc1. Ok (client_reset uc1)))"

definition client_Exit :: "client_world \<Rightarrow> client_uc \<Rightarrow> (gerror, client_uc) res" where
  "client_Exit w uc =
     (if \<not> cu_isConnected uc then Ok uc
      else rbind (sendReset w (uc\<lparr>cu_isExit := True\<rparr>)) (\<lambda>uc1.
        Ok (client_reset (closeInterface (closeAndRemoveAllConnections
          (uc1\<lparr>cu_merger := merger_DeleteStream (cu_sessionID uc1) (cu_merger uc1)\<rparr>))))))"

definition client_removeConnection :: "client_world \<Rightarrow> connection \<Rightarrow> client_uc \<Rightarrow> (gerror, client_uc) res" where
  "client_removeConnection w conn uc =
     rbind (forget_connection conn uc) (\<lambda>uc1. if cu_connectionsMap uc1 = [] then client_Stop w uc1 else Ok uc1)"

section \<open>Authentication and handshake\<close>

definition client_createInterface :: "client_world \<Rightarrow> bytes \<Rightarrow> bytes \<Rightarrow> connection \<Rightarrow> client_uc \<Rightarrow> (gerror, unit) res \<times> client_uc" where
  "client_createInterface w localIP remoteIP conn uc =
     (case (case cu_interfaceConn uc of
              Some i \<Rightarrow> Ok i
            | None \<Rightarrow> rbind (cw_created w) (\<lambda>name. Ok \<lparr>ci_Name = name,
                ci_IP = \<lparr>ifip_ServerLocal = localIP, ifip_ServerRemote = remoteIP, ifip_ClientLocal = [], ifip_ClientRemote = []\<rparr>,
                ci_connections = []\<rparr>)) of
        Ok i \<Rightarrow> (Ok (), uc\<lparr>cu_interfaceConn := Some (i\<lparr>ci_connections := ci_connections i @ [conn]\<rparr>)\<rparr>)
      | Err e \<Rightarrow> (Err e, uc)
      | Panic \<Rightarrow> (Panic, uc))"

text \<open>Both responses are opened with the encryptor of the use case; an error code in one is an error.\<close>

definition open_response :: "message \<Rightarrow> client_uc \<Rightarrow> (gerror, message) res" where
  "open_response msg uc =
     rbind (e_Decrypt (cu_encryptor uc) (m_Payload msg)) (\<lambda>p.
     rbind (UnmarshalPayload (cu_codec uc) (msg\<lparr>m_Payload := PBytes p\<rparr>)) (\<lambda>m.
       if m_Error m \<noteq> 0 then Err (MessageError_Error (m_Error m)) else Ok m))"

definition responseAuthentication :: "client_lib \<Rightarrow> client_world \<Rightarrow> message \<Rightarrow> connection \<Rightarrow> client_uc \<Rightarrow> (gerror, unit) res \<times> client_uc" where
  "responseAuthentication lib w msg conn uc =
     (case rbind (open_response msg uc) (\<lambda>m. cl_authResponse lib (m_Payload m)) of
        Err e \<Rightarrow> (Err e, uc)
      | Panic \<Rightarrow> (Panic, uc)
      | Ok resp \<Rightarrow>
          (case (if UseStreamMerger (cf_Server (cu_conn uc)) then merger_CreateStream (as_SessionID resp) (cu_merger uc)
                 else (Ok (), cu_merger uc)) of
             (Panic, mg) \<Rightarrow> (Panic, uc)
           | (Err _, mg) \<Rightarrow> (Err ErrInternalError, uc\<lparr>cu_merger := mg\<rparr>)
           | (Ok _, mg) \<Rightarrow>
               (case client_createInterface w (as_LocalIP resp) (as_RemoteIP resp) conn (uc\<lparr>cu_merger := mg\<rparr>) of
                  (Ok _, uc1) \<Rightarrow> (Ok (), uc1\<lparr>cu_sessionID := as_SessionID resp\<rparr>)
                | (r, uc1) \<Rightarrow> (r, uc1))))"

definition auth_message :: "client_uc \<Rightarrow> message" where
  "auth_message uc = new_message\<lparr>m_Type := MessageTypeAuthentication, m_SessionID := cu_sessionID uc,
     m_Payload := PAuthRequest \<lparr>ar_ClientID = cu_ClientID uc, ar_Name = us_Name (cf_User (cu_conn uc)),
       ar_Password = us_Password (cf_User (cu_conn uc)), ar_CompressionType = cu_compressionType uc,
       ar_CompressionLevel = cu_compressionLevel uc\<rparr>\<rparr>"

text \<open>
  A synchronous call on the object \<open>r\<close>, and what is done with its response: \<open>None\<close> when it
  blocks, a panic on a nil message. \<open>errors.Wrap\<close> keeps the error it wraps for \<open>errors.Is\<close>.
\<close>

definition sync_call :: "client_world \<Rightarrow> message \<Rightarrow> nat \<Rightarrow> client_uc
    \<Rightarrow> (message \<Rightarrow> connection \<Rightarrow> client_uc \<Rightarrow> (gerror, unit) res \<times> client_uc) \<Rightarrow> ((gerror, unit) res \<times> client_uc) option" where
  "sync_call w req r uc k =
     (case cw_SendSync w req (cc_conn (client_conn_of r uc)) of
        SyncBlocked \<Rightarrow> None
      | SyncPanic \<Rightarrow> Some (Panic, uc)
      | SyncErr e \<Rightarrow> Some (Err e, uc)
      | SyncReply m conn \<Rightarrow>
          Some (case m of None \<Rightarrow> (Panic, set_conn r conn uc) | Some m \<Rightarrow> k m conn (set_conn r conn uc)))"

definition client_commandAuthentication :: "client_lib \<Rightarrow> client_world \<Rightarrow> nat \<Rightarrow> client_uc \<Rightarrow> ((gerror, unit) res \<times> client_uc) option" where
  "client_commandAuthentication lib w r uc = sync_call w (auth_message uc) r uc (responseAuthentication lib w)"

definition responseHandshake :: "client_lib \<Rightarrow> bytes \<Rightarrow> message \<Rightarrow> connection \<Rightarrow> client_uc \<Rightarrow> (gerror, unit) res \<times> client_uc" where
  "responseHandshake lib privateKey msg conn uc =
     (case rbind (open_response msg uc) (\<lambda>m.
           rbind (cl_handshake lib (m_Payload m)) (\<lambda>respKey.
           rbind (cl_NewPublicKey lib respKey) (\<lambda>publicKey.
           rbind (cl_ECDH lib privateKey publicKey) (\<lambda>shared.
           rbind (GetEncryptor (cl_aes lib) (cl_gcm lib) shared (cf_TunnelEncryption (cu_conn uc))) (\<lambda>enc.
             client_setConnectionEncryptor conn enc uc))))) of
        Err e \<Rightarrow> (Err e, uc)
      | Panic \<Rightarrow> (Panic, uc)
      | Ok uc1 \<Rightarrow> (Ok (), uc1\<lparr>cu_isConnected := True\<rparr>))"

definition handshake_message :: "client_lib \<Rightarrow> bytes \<Rightarrow> client_uc \<Rightarrow> message" where
  "handshake_message lib privateKey uc = new_message\<lparr>m_SessionID := cu_sessionID uc, m_Type := MessageTypeHandshake,
     m_Payload := PHandshake (cl_PublicKey lib privateKey)\<rparr>"

definition client_commandHandshake :: "client_lib \<Rightarrow> client_world \<Rightarrow> nat \<Rightarrow> client_uc \<Rightarrow> ((gerror, unit) res \<times> client_uc) option" where
  "client_commandHandshake lib w r uc =
     (case cw_privateKey w of
        Err e \<Rightarrow> Some (Err e, uc)
      | Panic \<Rightarrow> Some (Panic, uc)
      | Ok privateKey \<Rightarrow> sync_call w (handshake_message lib privateKey uc) r uc (responseHandshake lib privateKey))"

section \<open>Connecting\<close>

datatype attempt = ADone | AGiveUp gerror | ARetry | APanic

text \<open>One attempt of \<open>createConnection\<close>. Only a refused authentication ends it at once, with the connection left in the tables.\<close>

definition forget_and_retry :: "connection \<Rightarrow> client_uc \<Rightarrow> attempt \<times> client_uc" where
  "forget_and_retry conn uc = (case forget_connection conn uc of Ok uc1 \<Rightarrow> (ARetry, uc1) | _ \<Rightarrow> (APanic, uc))"

definition connection_attempt :: "client_lib \<Rightarrow> client_world \<Rightarrow> u16 \<Rightarrow> u8 \<Rightarrow> client_uc \<Rightarrow> (attempt \<times> client_uc) option" where
  "connection_attempt lib w port proto uc =
     (case cw_Run w port proto of
        Panic \<Rightarrow> Some (APanic, uc)
      | Err e \<Rightarrow> Some (ARetry, uc)
      | Ok conn \<Rightarrow>
          (let r = length (cu_objects uc)
           in case rbind (GetEncryptor (cl_aes lib) (cl_gcm lib) (cf_Key (cu_conn uc)) (cf_TunnelEncryption (cu_conn uc))) (\<lambda>enc.
                 client_addConnection conn r (uc\<lparr>cu_objects := cu_objects uc @ [\<lparr>cc_idx = 0, cc_conn = conn, cc_encryptor = enc\<rparr>]\<rparr>)) of
             Ok uc1 \<Rightarrow>
               (case client_commandAuthentication lib w r uc1 of
                  None \<Rightarrow> None
                | Some (Panic, uc2) \<Rightarrow> Some (APanic, uc2)
                | Some (Err e, uc2) \<Rightarrow>
                    Some (if e = ErrUnauthorized then (AGiveUp e, uc2)
                          else forget_and_retry (cc_conn (client_conn_of r uc2)) uc2)
                | Some (Ok _, uc2) \<Rightarrow>
                    (case client_commandHandshake lib w r uc2 of
                       None \<Rightarrow> None
                     | Some (Panic, uc3) \<Rightarrow> Some (APanic, uc3)
                     | Some (Err e, uc3) \<Rightarrow> Some (forget_and_retry (cc_conn (client_conn_of r uc3)) uc3)
                     | Some (Ok _, uc3) \<Rightarrow>
                         Some (ADone, (set_conn r (cw_Receiver w proto (cc_conn (client_conn_of r uc3)) (cu_sessionID uc3)) uc3)
                           \<lparr>cu_receivers := cu_receivers uc3 @ [r]\<rparr>)))
           | _ \<Rightarrow> Some (APanic, uc)))"

text \<open>\<open>n\<close> attempts are left; \<open>ws\<close> gives the world of an attempt by the number left.\<close>

fun connection_attempts :: "client_lib \<Rightarrow> (nat \<Rightarrow> client_world) \<Rightarrow> nat \<Rightarrow> u16 \<Rightarrow> u8 \<Rightarrow> client_uc
    \<Rightarrow> ((gerror, unit) res \<times> client_uc) option" where
  "connection_attempts lib ws 0 port proto uc = Some (Err ErrMaxConnectionAttempts, uc)"
| "connection_attempts lib ws (Suc n) port proto uc =
     (case connection_attempt lib (ws n) port proto uc of
        None \<Rightarrow> None
      | Some (ADone, uc1) \<Rightarrow> Some (Ok (), uc1)
      | Some (AGiveUp e, uc1) \<Rightarrow> Some (Err e, uc1)
      | Some (APanic, uc1) \<Rightarrow> Some (Panic, uc1)
      | Some (ARetry, uc1) \<Rightarrow> connection_attempts lib ws n port proto uc1)"

definition createConnection :: "client_lib \<Rightarrow> (nat \<Rightarrow> client_world) \<Rightarrow> u16 \<Rightarrow> u8 \<Rightarrow> client_uc
    \<Rightarrow> ((gerror, unit) res \<times> client_uc) option" where
  "createConnection lib ws port proto uc =
     connection_attempts lib ws (nat (nc_MaxConnectionAttempts (cf_Server (cu_conn uc)))) port proto uc"

definition client_disconnect :: "client_lib \<Rightarrow> (nat \<Rightarrow> client_world) \<Rightarrow> connection \<Rightarrow> gerror option \<Rightarrow> client_uc
    \<Rightarrow> ((gerror, unit) res \<times> client_uc) option" where
  "client_disconnect lib ws conn err uc =
     (case client_removeConnection (ws 0) conn uc of
        Ok uc1 \<Rightarrow>
          (let uc2 = uc1\<lparr>cu_closed := cu_closed uc1 @ [conn]\<rparr>
           in if err = None \<or> cu_isExit uc2 then Some (Ok (), uc2)
              else case createConnection lib ws (c_Port conn) (if c_TCPConn conn \<noteq> None then ProtoTCP else ProtoUDP) uc2 of
                  None \<Rightarrow> None
                | Some (Err e, uc3) \<Rightarrow> Some (case client_Stop (ws 0) uc3 of Ok uc4 \<Rightarrow> (Ok (), uc4) | _ \<Rightarrow> (Panic, uc3))
                | Some (r, uc3) \<Rightarrow> Some (r, uc3))
      | _ \<Rightarrow> Some (Panic, uc))"

section \<open>Commands\<close>

definition client_commandData :: "client_world \<Rightarrow> message \<Rightarrow> client_uc \<Rightarrow> (gerror, unit) res \<times> client_uc" where
  "client_commandData w msg uc =
     (if \<not> cu_isConnected uc then (Ok (), uc)
      else case (cu_interfaceConn uc, m_Payload msg) of
        (Some i, PBytes b) \<Rightarrow> (cw_write w, uc\<lparr>cu_written := cu_written uc @ [PBytes b]\<rparr>)
      | _ \<Rightarrow> (Panic, uc))"

definition client_commandReset :: "client_uc \<Rightarrow> client_uc" where
  "client_commandReset uc =
     (if cu_isExit uc then uc else closeInterface (closeAndRemoveAllConnections (client_reset uc)))"

definition client_command :: "client_world \<Rightarrow> message \<Rightarrow> client_uc \<Rightarrow> (gerror, unit) res \<times> client_uc" where
  "client_command w msg uc =
     (if m_Type msg = MessageTypeData then client_commandData w msg uc
      else if m_Type msg = MessageTypeReset then (Ok (), client_commandReset uc)
      else (Err ErrUnknownCommand, uc))"

definition client_socketReceiver :: "client_world \<Rightarrow> message \<Rightarrow> client_uc \<Rightarrow> (gerror, unit) res \<times> client_uc" where
  "client_socketReceiver w msg uc =
     (if m_SessionID msg \<noteq> cu_sessionID uc then (Ok (), uc) else client_command w msg uc)"

text \<open>A packet read from the interface.\<close>

definition client_interfaceReceiver :: "client_world \<Rightarrow> message \<Rightarrow> client_uc \<Rightarrow> (gerror, unit) res \<times> client_uc" where
  "client_interfaceReceiver w msg uc =
     (if \<not> cu_isConnected uc then (Ok (), uc)
      else case client_getConnection (cw_draw w) (m_PacketInfo msg) uc of
        Panic \<Rightarrow> (Panic, uc)
      | Err e \<Rightarrow> (if m_PacketInfo msg = None then (Panic, uc) else (Err e, uc))
      | Ok r \<Rightarrow>
          (let m1 = msg\<lparr>m_SessionID := cu_sessionID uc, m_Type := MessageTypeData,
                 m_CompressionType := cu_compressionType uc, m_CompressionLevel := cu_compressionLevel uc\<rparr>;
               conn = cc_conn (client_conn_of r uc)
           in case cw_SendAsync w m1 conn of
                Panic \<Rightarrow> (Panic, uc)
              | _ \<Rightarrow> (Ok (), uc\<lparr>cu_sent := cu_sent uc @ [(m1, conn)],
                  cu_stat := cu_stat uc @ [(m_SessionID m1, no_statistic\<lparr>st_OutgoingBytes := ucast (m_PayloadLength m1), st_OutgoingFrames := 1\<rparr>)]\<rparr>)))"

end
