(* ===== verification/Ports.thy ===== *)
theory Ports
  imports ClientUC
begin

text \<open>
  The loop \<open>for port := PortMin; port <= PortMax; port++\<close> over 16-bit ports, with which the
  server listens and the client connects. It never ends on its own when \<open>PortMax\<close> is 65535.
\<close>

section \<open>The loop\<close>

text \<open>
  The body says whether the loop is left; it may block. A loop that does not end is \<open>None\<close>.
\<close>

partial_function (option) port_loop :: "(u16 \<Rightarrow> 's \<Rightarrow> (bool \<times> 's) option) \<Rightarrow> u16 \<Rightarrow> u16 \<Rightarrow> 's \<Rightarrow> 's option" where
  "port_loop body pmax port s =
     (if port \<le> pmax then
        Option.bind (body port s) (\<lambda>(leave, s1). if leave then Some s1 else port_loop body pmax (port + 1) s1)
      else Some s)"


text \<open>The server: an error of \<open>Run\<close> is only logged.\<close>

definition server_listen :: "(u16 \<Rightarrow> u8 \<Rightarrow> 's \<Rightarrow> 's) \<Rightarrow> network_config \<Rightarrow> 's \<Rightarrow> 's option" where
  "server_listen run cfg s =
     port_loop (\<lambda>port s.
       let s1 = (if nc_UseTCP cfg then run port ProtoTCP s else s);
           s2 = (if nc_UseUDP cfg then run port ProtoUDP s1 else s1)
       in Some (False, s2)) (nc_PortMax cfg) (nc_PortMin cfg) s"

text \<open>The client: an error ends the loop and is returned.\<close>

definition connect_port :: "client_lib \<Rightarrow> (u16 \<Rightarrow> u8 \<Rightarrow> nat \<Rightarrow> client_world) \<Rightarrow> u16 \<Rightarrow> u8 \<Rightarrow> bool
    \<Rightarrow> (gerror, unit) res \<times> client_uc \<Rightarrow> ((gerror, unit) res \<times> client_uc) option" where
  "connect_port lib ws port proto use = (\<lambda>(r, uc).
     if use \<and> r = Ok () then createConnection lib (ws port proto) port proto uc else Some (r, uc))"

definition client_Start :: "client_lib \<Rightarrow> (u16 \<Rightarrow> u8 \<Rightarrow> nat \<Rightarrow> client_world) \<Rightarrow> client_uc \<Rightarrow> ((gerror, unit) res \<times> client_uc) option" where
  "client_Start lib ws uc =
     (let cfg = cf_Server (cu_conn uc)
      in port_loop (\<lambda>port st.
           Option.bind (connect_port lib ws port ProtoTCP (nc_UseTCP cfg) st) (\<lambda>st1.
           Option.bind (connect_port lib ws port ProtoUDP (nc_UseUDP cfg) st1) (\<lambda>st2.
             Some (fst st2 \<noteq> Ok (), st2)))) (nc_PortMax cfg) (nc_PortMin cfg) (Ok (), uc))"

section \<open>When it ends\<close>

definition port_range :: "u16 \<Rightarrow> u16 \<Rightarrow> u16 list" where
  "port_range pmin pmax = map of_nat [unat pmin ..< Suc (unat pmax)]"

lemma port_bound: "unat (p :: u16) < 65536"
proof -
  have "unat p < 2 ^ LENGTH(16)" by (rule unsigned_less)
  then show ?thesis by simp
qed

lemma port_range_Cons:
  assumes "pmin \<le> pmax" "pmin \<noteq> 0xFFFF"
  shows "port_range pmin pmax = pmin # port_range (pmin + 1) pmax"
proof -
  have "unat pmin < 65536" by (rule port_bound)
  moreover have "unat pmin \<noteq> 65535" using assms(2) by (simp add: word_unat_eq_iff)
  ultimately have "unat (pmin + 1) = Suc (unat pmin)" by (simp add: unat_word_ariths)
  moreover have "unat pmin < Suc (unat pmax)" using assms(1) by (simp add: word_le_nat_alt)
  ultimately show ?thesis unfolding port_range_def by (subst upt_conv_Cons) simp_all
qed

lemma port_range_Nil: "\<not> pmin \<le> pmax \<Longrightarrow> port_range pmin pmax = []"
  by (simp add: port_range_def word_le_nat_alt)

lemma port_loop_visits:
  assumes total: "\<And>p s. body p s = Some (False, f p s)" and bound: "pmax \<noteq> 0xFFFF"
  shows "port_loop body pmax port s = Some (fold f (port_range port pmax) s)"
proof (induction "Suc (unat pmax) - unat port" arbitrary: port s)
  case 0
  then have "\<not> port \<le> pmax" by (simp add: word_le_nat_alt)
  then show ?case by (subst port_loop.simps) (simp add: port_range_Nil)
next
  case (Suc n)
  then have le: "port \<le> pmax" by (simp add: word_le_nat_alt)
  have top: "port \<noteq> 0xFFFF"
  proof
    assume p: "port = 0xFFFF"
    have "unat pmax < 65536" by (rule port_bound)
    moreover have "65535 \<le> unat pmax" using le p by (simp add: word_le_nat_alt)
    ultimately have "unat pmax = 65535" by simp
    then show False using bound by (simp add: word_unat_eq_iff)
  qed
  have "unat port < 65536" by (rule port_bound)
  moreover have "unat port \<noteq> 65535" using top by (simp add: word_unat_eq_iff)
  ultimately have "unat (port + 1) = Suc (unat port)" by (simp add: unat_word_ariths)
  then have "n = Suc (unat pmax) - unat (port + 1)" using Suc.hyps(2) by simp
  then show ?case
    using Suc.hyps(1) [of "port + 1" "f port s"] le
    by (subst port_loop.simps) (simp add: total port_range_Cons [OF le top])
qed

lemma port_loop_never_ends:
  assumes "\<And>p s. body p s \<noteq> None \<Longrightarrow> \<exists>s1. body p s = Some (False, s1)"
  shows "port_loop body 0xFFFF port s \<noteq> Some out"
proof
  assume run: "port_loop body 0xFFFF port s = Some out"
  have "(\<forall>p s s1. body p s \<noteq> Some (True, s1)) \<longrightarrow> (0xFFFF :: u16) \<noteq> 0xFFFF"
  proof (rule port_loop.raw_induct [where P = "\<lambda>body pmax port s out. (\<forall>p s s1. body p s \<noteq> Some (True, s1)) \<longrightarrow> pmax \<noteq> 0xFFFF", OF _ run])
    fix loop :: "(u16 \<Rightarrow> 'a \<Rightarrow> (bool \<times> 'a) option) \<Rightarrow> u16 \<Rightarrow> u16 \<Rightarrow> 'a \<Rightarrow> 'a option" and body pmax port s out
    assume IH: "\<And>body pmax port s out. loop body pmax port s = Some out \<Longrightarrow> (\<forall>p s s1. body p s \<noteq> Some (True, s1)) \<longrightarrow> pmax \<noteq> 0xFFFF"
      and step: "(if port \<le> pmax then Option.bind (body port s) (\<lambda>(leave, s1). if leave then Some s1 else loop body pmax (port + 1) s1)
        else Some s) = Some out"
    show "(\<forall>p s s1. body p s \<noteq> Some (True, s1)) \<longrightarrow> pmax \<noteq> 0xFFFF"
    proof (intro impI notI)
      assume stay: "\<forall>p s s1. body p s \<noteq> Some (True, s1)" and top: "pmax = 0xFFFF"
      have "port \<le> pmax" unfolding top word_le_nat_alt using port_bound [of port] by simp
      then have run: "Option.bind (body port s) (\<lambda>(leave, s1). if leave then Some s1 else loop body pmax (port + 1) s1) = Some out"
        using step by simp
      show False
      proof (cases "body port s")
        case None
        then show False using run by simp
      next
        case (Some x)
        obtain leave s1 where x: "x = (leave, s1)" by fastforce
        have "\<not> leave" using stay Some x by auto
        then have "loop body pmax (port + 1) s1 = Some out" using run Some x by simp
        from IH [OF this] stay top show False by blast
      qed
    qed
  qed
  then show False using assms by fastforce
qed

text \<open>
  The loop of the server's \<open>Start\<close> runs every port from \<open>PortMin\<close> to \<open>PortMax\<close> once and in
  order and then ends, unless \<open>PortMax\<close> is 65535: then it never ends.
\<close>

lemma server_listens_on_every_port:
  "server_listen run cfg s =
     (if nc_PortMax cfg = 0xFFFF then None
      else Some (fold (\<lambda>port s. let s1 = (if nc_UseTCP cfg then run port ProtoTCP s else s)
          in if nc_UseUDP cfg then run port ProtoUDP s1 else s1) (port_range (nc_PortMin cfg) (nc_PortMax cfg)) s))"
proof (cases "nc_PortMax cfg = 0xFFFF")
  case True
  then show ?thesis
    using port_loop_never_ends [of "\<lambda>port s. let s1 = (if nc_UseTCP cfg then run port ProtoTCP s else s);
       s2 = (if nc_UseUDP cfg then run port ProtoUDP s1 else s1) in Some (False, s2)" "nc_PortMin cfg" s]
    by (cases "server_listen run cfg s") (simp_all add: server_listen_def Let_def)
next
  case False
  show ?thesis
    unfolding server_listen_def using False by (simp add: port_loop_visits [OF _ False] Let_def)
qed

end
