(* ===== verification/ServerUC.thy ===== *)
theory ServerUC
  imports ServerState
begin

text \<open>
  The commands of the server's use case (\<open>business/usecase/server.go\<close>): authentication,
  handshake, data and reset, the receiver of packets from an interface, and the dispatch
  with its error responses.
\<close>

section \<open>What comes from outside\<close>

text \<open>
  The libraries: \<open>mapstructure.Decode\<close> into the request objects, the elliptic curve and the
  ciphers. And what one command meets in the world: the draws for a session number, the
  device, a private key, the time, and how a write to the device ends.
\<close>

record server_lib =
  lib_request :: "payload \<Rightarrow> auth_request \<Rightarrow> (gerror, auth_request) res"
  lib_handshake :: "payload \<Rightarrow> bytes \<Rightarrow> (gerror, bytes) res"
  lib_aes :: new_cipher
  lib_gcm :: new_gcm
  lib_PublicKey :: "bytes \<Rightarrow> bytes"
  lib_NewPublicKey :: "bytes \<Rightarrow> (gerror, bytes) res"
  lib_ECDH :: "bytes \<Rightarrow> bytes \<Rightarrow> (gerror, bytes) res"

record server_world =
  sw_session :: "nat list"
  sw_created :: "(gerror, string) res"
  sw_privateKey :: "(gerror, bytes) res"
  sw_now :: int
  sw_write :: "(gerror, unit) res"

definition wrapped :: gerror where
  \<comment> \<open>\<open>errors.Wrap\<close>: a new error value, no entry of the error table\<close>
  "wrapped = ErrLibrary 0"

definition wrap :: "(gerror, 'a) res \<Rightarrow> (gerror, 'a) res" where
  "wrap r = (case r of Err _ \<Rightarrow> Err wrapped | r \<Rightarrow> r)"

section \<open>Commands\<close>

text \<open>
  A command answers with a message or an error, and may change the connection it is given.
  Authentication may loop while it draws a session number: \<open>None\<close>.
\<close>

type_synonym command_result = "(gerror, message option) res \<times> connection \<times> server_uc"

definition auth_session :: "nat list \<Rightarrow> message \<Rightarrow> auth_request \<Rightarrow> server_uc
    \<Rightarrow> ((gerror, u32) res \<times> server_uc) option" where
  "auth_session draws msg req uc =
     (if m_SessionID msg = 0 then
        (case dropSessionByClientID (ar_ClientID req) uc of
           Panic \<Rightarrow> Some (Panic, uc)
         | r \<Rightarrow>
             map_option (\<lambda>(sid, uc2). (Ok sid, uc2))
               (createSession draws (ar_ClientID req) (ar_Name req) (case r of Ok uc1 \<Rightarrow> uc1 | _ \<Rightarrow> uc)))
      else
        (case checkSession (m_SessionID msg) (ar_ClientID req) (ar_Name req) uc of
           Some _ \<Rightarrow> Some (Err ErrUnauthorized, uc)
         | None \<Rightarrow> Some (Ok (m_SessionID msg), uc)))"

definition auth_finish :: "server_world \<Rightarrow> message \<Rightarrow> auth_request \<Rightarrow> connection \<Rightarrow> server_uc \<Rightarrow> command_result" where
  \<comment> \<open>from the creation of the stream on, with the session number in the connection\<close>
  "auth_finish w msg req conn uc =
     (case (if UseStreamMerger (cf_Network (su_cfg uc)) then merger_CreateStream (c_SessionID conn) (su_merger uc)
            else (Ok (), su_merger uc)) of
        (Panic, mg) \<Rightarrow> (Panic, conn, uc)
      | (Err _, mg) \<Rightarrow> (Err ErrInternalError, conn, uc\<lparr>su_merger := mg\<rparr>)
      | (Ok _, mg) \<Rightarrow>
          (case createInterface (sw_created w) (c_SessionID conn) (uc\<lparr>su_merger := mg\<rparr>) of
             (Panic, uc2) \<Rightarrow> (Panic, conn, uc2)
           | (Err _, uc2) \<Rightarrow> (Err ErrInternalError, conn, uc2)
           | (Ok None, uc2) \<Rightarrow> (Panic, conn, uc2)
           | (Ok (Some ic), uc2) \<Rightarrow>
               (case addConnection conn \<lparr>sc_ifName = si_Name ic, sc_encryptor = None, sc_sessionID = c_SessionID conn,
                       sc_port = c_Port conn, sc_protocol = Connection_Protocol conn,
                       sc_compressionType = ar_CompressionType req, sc_compressionLevel = ar_CompressionLevel req\<rparr> uc2 of
                  Ok uc3 \<Rightarrow>
                    (Ok (Some (new_message\<lparr>m_SessionID := c_SessionID conn, m_Type := m_Type msg,
                       m_Payload := PAuthResponse \<lparr>as_SessionID = c_SessionID conn,
                         as_LocalIP = ifip_ClientLocal (si_IP ic), as_RemoteIP = ifip_ClientRemote (si_IP ic)\<rparr>\<rparr>)), conn, uc3)
                | Err e \<Rightarrow> (Err e, conn, uc2)
                | Panic \<Rightarrow> (Panic, conn, uc2))))"

definition commandAuthentication :: "server_lib \<Rightarrow> server_world \<Rightarrow> message \<Rightarrow> connection \<Rightarrow> server_uc
    \<Rightarrow> command_result option" where
  "commandAuthentication lib w msg conn uc =
     (case lib_request lib (m_Payload msg) (su_authRequest uc) of
        Err e \<Rightarrow> Some (Err e, conn, uc)
      | Panic \<Rightarrow> Some (Panic, conn, uc)
      | Ok req \<Rightarrow>
          (let uc = uc\<lparr>su_authRequest := req\<rparr>
           in if (case map_of (su_users uc) (ar_Name req) of None \<Rightarrow> True | Some u \<Rightarrow> us_Password u \<noteq> ar_Password req)
              then Some (Err ErrUnauthorized, conn, uc)
              else (case auth_session (sw_session w) msg req uc of
                  None \<Rightarrow> None
                | Some (Panic, uc1) \<Rightarrow> Some (Panic, conn, uc1)
                | Some (Err e, uc1) \<Rightarrow> Some (Err e, conn, uc1)
                | Some (Ok sid, uc1) \<Rightarrow> Some (auth_finish w msg req (conn\<lparr>c_SessionID := sid\<rparr>) uc1))))"

definition commandHandshake :: "server_lib \<Rightarrow> server_world \<Rightarrow> message \<Rightarrow> connection \<Rightarrow> server_uc \<Rightarrow> command_result" where
  "commandHandshake lib w msg conn uc =
     (case lib_handshake lib (m_Payload msg) (su_handshake uc) of
        Err e \<Rightarrow> (Err e, conn, uc)
      | Panic \<Rightarrow> (Panic, conn, uc)
      | Ok reqKey \<Rightarrow>
          (let uc = uc\<lparr>su_handshake := reqKey\<rparr>
           in case getConnection conn uc of
             Panic \<Rightarrow> (Panic, conn, uc)
           | Err e \<Rightarrow> (Err e, conn, uc)
           | Ok None \<Rightarrow> (Err ErrConnectionNotExists, conn, uc)
           | Ok (Some sc) \<Rightarrow>
               (case rbind (wrap (sw_privateKey w)) (\<lambda>privateKey.
                     rbind (wrap (lib_NewPublicKey lib reqKey)) (\<lambda>publicKey.
                     rbind (wrap (lib_ECDH lib privateKey publicKey)) (\<lambda>shared.
                     rbind (GetEncryptor (lib_aes lib) (lib_gcm lib) shared (cf_Encryption (su_cfg uc))) (\<lambda>enc.
                     Ok (privateKey, enc))))) of
                  Err e \<Rightarrow> (Err e, conn, uc)
                | Panic \<Rightarrow> (Panic, conn, uc)
                | Ok (privateKey, enc) \<Rightarrow>
                    (case setConnectionEncryptor conn enc uc of
                       Ok uc1 \<Rightarrow>
                         (case addInterfaceConnection (sw_now w) sc conn uc1 of
                            Err e \<Rightarrow> (Err wrapped, conn, uc1)
                          | Panic \<Rightarrow> (Panic, conn, uc1)
                          | Ok (conn1, uc2) \<Rightarrow>
                              (Ok (Some (new_message\<lparr>m_SessionID := c_SessionID conn1, m_Type := m_Type msg,
                                 m_Payload := PHandshake (lib_PublicKey lib privateKey)\<rparr>)), conn1, uc2))
                     | Err e \<Rightarrow> (Err e, conn, uc)
                     | Panic \<Rightarrow> (Panic, conn, uc)))))"

text \<open>\<open>Iface.Write\<close> asserts that the payload is bytes.\<close>

definition iface_Write :: "(gerror, unit) res \<Rightarrow> server_interface \<Rightarrow> payload \<Rightarrow> server_uc \<Rightarrow> (gerror, unit) res \<times> server_uc" where
  "iface_Write wr ifc p uc =
     (case p of
        PBytes b \<Rightarrow> (wr, uc\<lparr>su_written := su_written uc @ [(si_Name ifc, PBytes b)]\<rparr>)
      | _ \<Rightarrow> (Panic, uc))"

definition commandData :: "server_world \<Rightarrow> message \<Rightarrow> connection \<Rightarrow> server_uc \<Rightarrow> command_result" where
  "commandData w msg conn uc =
     (case getConnection conn uc of
        Panic \<Rightarrow> (Panic, conn, uc)
      | Err e \<Rightarrow> (Err e, conn, uc)
      | Ok None \<Rightarrow> (Err ErrConnectionNotExists, conn, uc)
      | Ok (Some sc) \<Rightarrow>
          (case getInterfaceByName (sc_ifName sc) uc of
             None \<Rightarrow> (Err ErrInterfaceNotExists, conn, uc)
           | Some ifc \<Rightarrow>
               (case iface_Write (sw_write w) ifc (m_Payload msg) uc of
                  (Ok _, uc1) \<Rightarrow> (Ok None, conn, uc1)
                | (Err e, uc1) \<Rightarrow> (Err e, conn, uc1)
                | (Panic, uc1) \<Rightarrow> (Panic, conn, uc1))))"

definition commandReset :: "message \<Rightarrow> connection \<Rightarrow> server_uc \<Rightarrow> command_result" where
  "commandReset msg conn uc =
     (case getConnection conn uc of
        Panic \<Rightarrow> (Panic, conn, uc)
      | Err e \<Rightarrow> (Err e, conn, uc)
      | Ok None \<Rightarrow> (Err ErrConnectionNotExists, conn, uc)
      | Ok (Some sc) \<Rightarrow>
          (case dropSessionByID (sc_sessionID sc) uc of
             Ok uc1 \<Rightarrow> (Ok None, conn, uc1)
           | Err e \<Rightarrow> (Err e, conn, uc)
           | Panic \<Rightarrow> (Panic, conn, uc)))"

text \<open>
  The dispatch: the deferred function turns an error into a response of the message's type,
  except for data.
\<close>

definition error_response :: "message \<Rightarrow> command_result \<Rightarrow> (gerror, message option) res \<times> connection \<times> server_uc" where
  "error_response msg r =
     (case r of
        (Err e, conn, uc) \<Rightarrow>
          (Ok (if m_Type msg \<noteq> MessageTypeData
               then Some (new_message\<lparr>m_SessionID := c_SessionID conn, m_Type := m_Type msg, m_Error := GetMessageError e\<rparr>)
               else None), conn, uc)
      | _ \<Rightarrow> r)"

definition command :: "server_lib \<Rightarrow> server_world \<Rightarrow> message \<Rightarrow> connection \<Rightarrow> server_uc \<Rightarrow> command_result option" where
  "command lib w msg conn uc =
     map_option (error_response msg)
       (if m_Type msg = MessageTypeAuthentication then commandAuthentication lib w msg conn uc
        else if m_Type msg = MessageTypeHandshake then Some (commandHandshake lib w msg conn uc)
        else if m_Type msg = MessageTypeData then Some (commandData w msg conn uc)
        else if m_Type msg = MessageTypeReset then Some (commandReset msg conn uc)
        else Some (Err ErrUnknownCommand, conn, uc))"

text \<open>\<open>send\<close> is the network server's \<open>Send\<close>.\<close>

definition server_socketReceiver :: "(message \<Rightarrow> connection \<Rightarrow> (gerror, unit) res) \<Rightarrow> server_lib \<Rightarrow> server_world
    \<Rightarrow> message \<Rightarrow> connection \<Rightarrow> server_uc \<Rightarrow> ((gerror, unit) res \<times> connection \<times> server_uc) option" where
  "server_socketReceiver send lib w msg conn uc =
     map_option (\<lambda>(r, conn1, uc1).
       (case r of Ok (Some resp) \<Rightarrow> send resp conn1 | Ok None \<Rightarrow> Ok () | Err e \<Rightarrow> Ok () | Panic \<Rightarrow> Panic, conn1, uc1))
       (command lib w msg conn uc)"

definition server_reset :: "u32 \<Rightarrow> message" where
  "server_reset sid = new_message\<lparr>m_Type := MessageTypeReset, m_SessionID := sid\<rparr>"

text \<open>A packet read from an interface; a nil message or description ends the process.\<close>

definition server_interfaceReceiver :: "(message \<Rightarrow> connection \<Rightarrow> (gerror, unit) res) \<Rightarrow> nat \<Rightarrow> message option
    \<Rightarrow> server_uc \<Rightarrow> (gerror, unit) res \<times> (message \<times> connection) option \<times> server_uc" where
  "server_interfaceReceiver send draw msg uc =
     (case msg of None \<Rightarrow> (Panic, None, uc)
      | Some m \<Rightarrow>
          (case m_PacketInfo m of None \<Rightarrow> (Panic, None, uc)
           | Some packet \<Rightarrow>
               (case getInterfaceConnection draw packet uc of
                  Ok (ic, conn) \<Rightarrow>
                    (let m1 = m\<lparr>m_SessionID := c_SessionID conn, m_Type := MessageTypeData,
                           m_CompressionType := c_CompressionType conn, m_CompressionLevel := c_CompressionLevel conn\<rparr>
                     in (send m1 conn, Some (m1, conn), addSessionStat (m_SessionID m1)
                          (no_statistic\<lparr>st_IncomingBytes := ucast (m_PayloadLength m1), st_IncomingFrames := 1\<rparr>) uc))
                | Err e \<Rightarrow> (Ok (), None, uc)
                | Panic \<Rightarrow> (Panic, None, uc))))"

text \<open>
  A handler thread of an interface takes messages of the listener, each in its world; an error ends it. The
  messages it sends are collected.
\<close>

fun server_interfaceLoop :: "((message \<Rightarrow> connection \<Rightarrow> (gerror, unit) res) \<times> nat \<times> message option) list \<Rightarrow> server_uc
    \<Rightarrow> (gerror, unit) res \<times> (message \<times> connection) list \<times> server_uc" where
  "server_interfaceLoop [] uc = (Ok (), [], uc)"
| "server_interfaceLoop ((send, draw, msg) # ms) uc =
     (case server_interfaceReceiver send draw msg uc of
        (Ok _, out, uc1) \<Rightarrow> (case server_interfaceLoop ms uc1 of (r, outs, uc2) \<Rightarrow> (r, (case out of None \<Rightarrow> [] | Some x \<Rightarrow> [x]) @ outs, uc2))
      | (r, out, uc1) \<Rightarrow> (r, (case out of None \<Rightarrow> [] | Some x \<Rightarrow> [x]), uc1))"

end
