(* ===== verification/ServerInv.thy ===== *)
theory ServerInv
  imports ServerUC
begin

text \<open>
  The steps of the server's use case as a relation, and the invariant of its tables in every
  state that can be reached.
\<close>

section \<open>The invariant\<close>

text \<open>
  Clients and sessions belong together one to one, and so do the interfaces and the sessions
  that have one.
\<close>

definition clients_ok :: "server_uc \<Rightarrow> bool" where
  "clients_ok uc \<longleftrightarrow> mwf (su_sessions uc) \<and> mwf (su_client2session uc) \<and> map_of (su_sessions uc) 0 = None
     \<and> (\<forall>cid sid. map_of (su_client2session uc) cid = Some sid \<longleftrightarrow>
          (\<exists>s. map_of (su_sessions uc) sid = Some s \<and> ss_ClientID s = cid))"

definition interfaces_ok :: "server_uc \<Rightarrow> bool" where
  "interfaces_ok uc \<longleftrightarrow> mwf (su_interfaces uc)
     \<and> (\<forall>n ic. map_of (su_interfaces uc) n = Some ic \<longrightarrow> si_Name ic = n \<and> n \<noteq> ''''
          \<and> (\<exists>s. map_of (su_sessions uc) (si_SessionID ic) = Some s \<and> ss_IfName s = n))
     \<and> (\<forall>sid s. map_of (su_sessions uc) sid = Some s \<longrightarrow> ss_IfName s \<noteq> '''' \<longrightarrow>
          (\<exists>ic. map_of (su_interfaces uc) (ss_IfName s) = Some ic \<and> si_SessionID ic = sid))"

definition server_inv :: "server_uc \<Rightarrow> bool" where
  "server_inv uc \<longleftrightarrow> clients_ok uc \<and> interfaces_ok uc"

lemma clients_okD:
  assumes "clients_ok uc"
  shows "map_of (su_client2session uc) cid = Some sid \<Longrightarrow> \<exists>s. map_of (su_sessions uc) sid = Some s \<and> ss_ClientID s = cid"
    and "map_of (su_sessions uc) sid = Some s \<Longrightarrow> map_of (su_client2session uc) (ss_ClientID s) = Some sid"
    and "map_of (su_sessions uc) sid = Some s \<Longrightarrow> sid \<noteq> 0"
  using assms unfolding clients_ok_def by (blast, blast, auto)

lemma interfaces_okD:
  assumes "interfaces_ok uc"
  shows "map_of (su_interfaces uc) n = Some ic \<Longrightarrow> si_Name ic = n \<and> n \<noteq> ''''
          \<and> (\<exists>s. map_of (su_sessions uc) (si_SessionID ic) = Some s \<and> ss_IfName s = n)"
    and "map_of (su_sessions uc) sid = Some s \<Longrightarrow> ss_IfName s \<noteq> '''' \<Longrightarrow>
          \<exists>ic. map_of (su_interfaces uc) (ss_IfName s) = Some ic \<and> si_SessionID ic = sid"
  using assms unfolding interfaces_ok_def by blast+

lemma server_inv_cong:
  "su_sessions uc1 = su_sessions uc \<Longrightarrow> su_client2session uc1 = su_client2session uc \<Longrightarrow>
   su_interfaces uc1 = su_interfaces uc \<Longrightarrow> server_inv uc1 = server_inv uc"
  by (simp add: server_inv_def clients_ok_def interfaces_ok_def)

section \<open>The operations keep it\<close>

lemma session_number_pos: "session_number d \<noteq> 0"
proof
  assume z: "session_number d = 0"
  have "d mod (4294967295 - 1) + 1 < 4294967296" by (simp add: less_Suc_eq_le)
  then have "unat (session_number d) = d mod (4294967295 - 1) + 1"
    unfolding session_number_def unat_of_nat by simp
  then show False using z by simp
qed

lemma free_session: "free_session draws sessions = Some sid \<Longrightarrow> map_of sessions sid = None \<and> sid \<noteq> 0"
  by (induction draws) (auto simp: session_number_pos split: if_splits)

lemma createSession_inv:
  assumes inv: "server_inv uc" and c: "createSession draws cid name uc = Some (sid, uc1)"
  shows "server_inv uc1" "\<exists>s. map_of (su_sessions uc1) sid = Some s \<and> ss_ClientID s = cid" "su_interfaces uc1 = su_interfaces uc"
proof -
  have ok: "clients_ok uc" "interfaces_ok uc" using inv by (simp_all add: server_inv_def)
  have all: "server_inv uc1 \<and> (\<exists>s. map_of (su_sessions uc1) sid = Some s \<and> ss_ClientID s = cid) \<and> su_interfaces uc1 = su_interfaces uc"
  proof (cases "map_of (su_client2session uc) cid")
    case (Some sid0)
    then show ?thesis using c inv clients_okD(1) [OF ok(1) Some] by (simp add: createSession_def)
  next
    case None
    let ?s = "\<lparr>ss_IfName = '''', ss_UserName = name, ss_ClientID = cid, ss_Stat = no_statistic\<rparr>"
    obtain eq: "uc1 = uc\<lparr>su_sessions := mput sid ?s (su_sessions uc), su_client2session := mput cid sid (su_client2session uc)\<rparr>"
      and free: "map_of (su_sessions uc) sid = None" "sid \<noteq> 0"
      using c None free_session by (auto simp: createSession_def)
    have c1: "clients_ok uc1"
      unfolding clients_ok_def
    proof (intro conjI allI)
      show "mwf (su_sessions uc1)" "mwf (su_client2session uc1)" "map_of (su_sessions uc1) 0 = None"
        using ok(1) free(2) by (simp_all add: eq clients_ok_def gomap_simps)
      fix cid' sid'
      show "map_of (su_client2session uc1) cid' = Some sid' \<longleftrightarrow> (\<exists>s. map_of (su_sessions uc1) sid' = Some s \<and> ss_ClientID s = cid')"
        using clients_okD(1) [OF ok(1), of cid' sid'] clients_okD(2) [OF ok(1), of sid'] free(1) None
        by (auto simp: eq gomap_simps)
    qed
    have other: "si_SessionID ic \<noteq> sid" if "map_of (su_interfaces uc) n = Some ic" for n ic
      using interfaces_okD(1) [OF ok(2) that] free(1) by auto
    have "interfaces_ok uc1"
      using ok(2) other unfolding interfaces_ok_def by (simp add: eq gomap_simps)
    then show ?thesis using c1 by (simp add: server_inv_def eq gomap_simps)
  qed
  then show "server_inv uc1" "\<exists>s. map_of (su_sessions uc1) sid = Some s \<and> ss_ClientID s = cid" "su_interfaces uc1 = su_interfaces uc"
    by blast+
qed

text \<open>A session goes together with its interface and its entry in the table of clients.\<close>

lemma delete_session_inv:
  assumes inv: "server_inv uc" and s: "map_of (su_sessions uc) sid = Some s" "map_of (su_interfaces uc) (ss_IfName s) = Some ic"
    and eq: "su_interfaces uc1 = mdel (ss_IfName s) (su_interfaces uc)"
      "su_client2session uc1 = mdel (ss_ClientID s) (su_client2session uc)" "su_sessions uc1 = mdel sid (su_sessions uc)"
  shows "server_inv uc1"
proof -
  have ok: "clients_ok uc" "interfaces_ok uc" using inv by (simp_all add: server_inv_def)
  have "ss_IfName s \<noteq> ''''" using interfaces_okD(1) [OF ok(2) s(2)] by blast
  then have own: "si_SessionID ic = sid" using interfaces_okD(2) [OF ok(2) s(1)] s(2) by auto
  have c1: "clients_ok uc1"
    unfolding clients_ok_def
  proof (intro conjI allI)
    show "mwf (su_sessions uc1)" "mwf (su_client2session uc1)" "map_of (su_sessions uc1) 0 = None"
      using ok(1) by (simp_all add: eq clients_ok_def gomap_simps)
    fix cid' sid'
    show "map_of (su_client2session uc1) cid' = Some sid' \<longleftrightarrow> (\<exists>s. map_of (su_sessions uc1) sid' = Some s \<and> ss_ClientID s = cid')"
    proof (cases "sid' = sid")
      case True
      then show ?thesis using clients_okD(1) [OF ok(1), of cid' sid] s(1) by (auto simp: eq gomap_simps)
    next
      case False
      then show ?thesis
        using clients_okD(1) [OF ok(1), of cid' sid'] clients_okD(2) [OF ok(1), of sid'] clients_okD(2) [OF ok(1) s(1)]
        by (auto simp: eq gomap_simps)
    qed
  qed
  have "interfaces_ok uc1"
    unfolding interfaces_ok_def
  proof (intro conjI allI impI)
    show "mwf (su_interfaces uc1)" using ok(2) by (simp add: eq interfaces_ok_def gomap_simps)
  next
    fix n ic' assume "map_of (su_interfaces uc1) n = Some ic'"
    then have n: "map_of (su_interfaces uc) n = Some ic'" "n \<noteq> ss_IfName s" by (auto simp: eq gomap_simps split: if_splits)
    show "si_Name ic' = n" "n \<noteq> ''''" using interfaces_okD(1) [OF ok(2) n(1)] by blast+
    obtain s' where s': "map_of (su_sessions uc) (si_SessionID ic') = Some s'" "ss_IfName s' = n"
      using interfaces_okD(1) [OF ok(2) n(1)] by blast
    have "si_SessionID ic' \<noteq> sid" using s' s(1) n(2) by auto
    then show "\<exists>s. map_of (su_sessions uc1) (si_SessionID ic') = Some s \<and> ss_IfName s = n"
      using s' by (simp add: eq gomap_simps)
  next
    fix sid' s' assume "map_of (su_sessions uc1) sid' = Some s'" and ne: "ss_IfName s' \<noteq> ''''"
    then have s': "map_of (su_sessions uc) sid' = Some s'" "sid' \<noteq> sid" by (auto simp: eq gomap_simps split: if_splits)
    obtain ic' where ic': "map_of (su_interfaces uc) (ss_IfName s') = Some ic'" "si_SessionID ic' = sid'"
      using interfaces_okD(2) [OF ok(2) s'(1) ne] by blast
    then have "ss_IfName s' \<noteq> ss_IfName s" using s(2) own s'(2) by auto
    then show "\<exists>ic. map_of (su_interfaces uc1) (ss_IfName s') = Some ic \<and> si_SessionID ic = sid'"
      using ic' by (simp add: eq gomap_simps)
  qed
  with c1 show ?thesis by (simp add: server_inv_def)
qed

lemma dropSession_inv: "server_inv uc \<Longrightarrow> dropSession sid uc = Ok uc1 \<Longrightarrow> server_inv uc1"
  by (auto simp: dropSession_def split: option.splits intro: delete_session_inv)

lemma dropSession_no_panic: "map_of (su_sessions uc) sid = Some s \<Longrightarrow> \<exists>uc1. dropSession sid uc = Ok uc1"
  by (auto simp: dropSession_def split: option.splits)

lemma dropSessionByClientID_inv:
  assumes "server_inv uc"
  shows "dropSessionByClientID cid uc \<noteq> Panic" "dropSessionByClientID cid uc = Ok uc1 \<Longrightarrow> server_inv uc1"
proof -
  show "dropSessionByClientID cid uc = Ok uc1 \<Longrightarrow> server_inv uc1"
    using dropSession_inv [OF assms] by (auto simp: dropSessionByClientID_def split: option.splits)
  have ok: "clients_ok uc" using assms by (simp add: server_inv_def)
  show "dropSessionByClientID cid uc \<noteq> Panic"
  proof (cases "map_of (su_client2session uc) cid")
    case (Some sid)
    obtain s where "map_of (su_sessions uc) sid = Some s" using clients_okD(1) [OF ok Some] by blast
    then show ?thesis using Some dropSession_no_panic [of uc sid] by (auto simp: dropSessionByClientID_def)
  qed (simp add: dropSessionByClientID_def)
qed

text \<open>A device gets a name that is not empty and not in use.\<close>

definition device_fresh :: "server_world \<Rightarrow> server_uc \<Rightarrow> bool" where
  "device_fresh w uc \<longleftrightarrow> (\<forall>n. sw_created w = Ok n \<longrightarrow> n \<noteq> '''' \<and> map_of (su_interfaces uc) n = None)"

lemma createInterface_cases:
  assumes "createInterface created sid uc = (r, uc1)" "map_of (su_sessions uc) sid = Some s"
  shows "(uc1 = uc \<and> (\<forall>ic. r = Ok (Some ic) \<longrightarrow> map_of (su_interfaces uc) (ss_IfName s) = Some ic))
    \<or> (\<exists>n ip. ss_IfName s = '''' \<and> created = Ok n \<and> getTunnelIP uc = Ok ip
        \<and> r = Ok (Some \<lparr>si_Name = n, si_IP = ip, si_Connections = [], si_SessionID = sid\<rparr>)
        \<and> uc1 = uc\<lparr>su_interfaces := mput n \<lparr>si_Name = n, si_IP = ip, si_Connections = [], si_SessionID = sid\<rparr> (su_interfaces uc),
                   su_sessions := mput sid (s\<lparr>ss_IfName := n\<rparr>) (su_sessions uc)\<rparr>)"
proof (cases "ss_IfName s = ''''")
  case False
  then show ?thesis using assms by (auto simp: createInterface_def)
next
  case True
  then show ?thesis
    using assms by (cases "getTunnelIP uc"; cases created) (auto simp: createInterface_def Let_def)
qed

lemma createInterface_inv:
  assumes inv: "server_inv uc" and c: "createInterface created sid uc = (r, uc1)" and s: "map_of (su_sessions uc) sid = Some s"
    and fresh: "\<And>n. created = Ok n \<Longrightarrow> n \<noteq> '''' \<and> map_of (su_interfaces uc) n = None"
  shows "server_inv uc1"
  using createInterface_cases [OF c s]
proof (elim disjE exE conjE)
  assume "uc1 = uc"
  then show ?thesis using inv by simp
next
  fix n ip
  let ?ic = "\<lparr>si_Name = n, si_IP = ip, si_Connections = [], si_SessionID = sid\<rparr>"
  assume none: "ss_IfName s = ''''" and n: "created = Ok n"
    and eq: "uc1 = uc\<lparr>su_interfaces := mput n ?ic (su_interfaces uc), su_sessions := mput sid (s\<lparr>ss_IfName := n\<rparr>) (su_sessions uc)\<rparr>"
  have ok: "clients_ok uc" "interfaces_ok uc" using inv by (simp_all add: server_inv_def)
  have f: "n \<noteq> ''''" "map_of (su_interfaces uc) n = None" using fresh [OF n] by blast+
  have c1: "clients_ok uc1"
    unfolding clients_ok_def
  proof (intro conjI allI)
    show "mwf (su_sessions uc1)" "mwf (su_client2session uc1)" "map_of (su_sessions uc1) 0 = None"
      using ok(1) clients_okD(3) [OF ok(1) s] by (simp_all add: eq clients_ok_def gomap_simps)
    fix cid' sid'
    show "map_of (su_client2session uc1) cid' = Some sid' \<longleftrightarrow> (\<exists>s. map_of (su_sessions uc1) sid' = Some s \<and> ss_ClientID s = cid')"
      using clients_okD(1) [OF ok(1), of cid' sid'] clients_okD(2) [OF ok(1), of sid'] s by (auto simp: eq gomap_simps)
  qed
  have "interfaces_ok uc1"
    unfolding interfaces_ok_def
  proof (intro conjI allI impI)
    show "mwf (su_interfaces uc1)" using ok(2) by (simp add: eq interfaces_ok_def gomap_simps)
  next
    fix n' ic' assume i: "map_of (su_interfaces uc1) n' = Some ic'"
    have "si_Name ic' = n' \<and> n' \<noteq> '''' \<and> (\<exists>s. map_of (su_sessions uc1) (si_SessionID ic') = Some s \<and> ss_IfName s = n')"
    proof (cases "n' = n")
      case True
      then show ?thesis using i f(1) by (auto simp: eq gomap_simps)
    next
      case False
      then have old: "map_of (su_interfaces uc) n' = Some ic'" using i by (simp add: eq gomap_simps)
      obtain s' where s': "map_of (su_sessions uc) (si_SessionID ic') = Some s'" "ss_IfName s' = n'" "si_Name ic' = n'" "n' \<noteq> ''''"
        using interfaces_okD(1) [OF ok(2) old] by blast
      then have "si_SessionID ic' \<noteq> sid" using s none by auto
      then show ?thesis using s' by (simp add: eq gomap_simps)
    qed
    then show "si_Name ic' = n'" "n' \<noteq> ''''" "\<exists>s. map_of (su_sessions uc1) (si_SessionID ic') = Some s \<and> ss_IfName s = n'"
      by blast+
  next
    fix sid' s' assume s': "map_of (su_sessions uc1) sid' = Some s'" and ne: "ss_IfName s' \<noteq> ''''"
    show "\<exists>ic. map_of (su_interfaces uc1) (ss_IfName s') = Some ic \<and> si_SessionID ic = sid'"
    proof (cases "sid' = sid")
      case True
      then show ?thesis using s' by (auto simp: eq gomap_simps)
    next
      case False
      then have old: "map_of (su_sessions uc) sid' = Some s'" using s' by (simp add: eq gomap_simps)
      obtain ic' where ic': "map_of (su_interfaces uc) (ss_IfName s') = Some ic'" "si_SessionID ic' = sid'"
        using interfaces_okD(2) [OF ok(2) old ne] by blast
      then have "ss_IfName s' \<noteq> n" using f(2) by auto
      then show ?thesis using ic' by (simp add: eq gomap_simps)
    qed
  qed
  with c1 show ?thesis by (simp add: server_inv_def)
qed

lemma addConnection_same:
  "addConnection conn sc uc = Ok uc1 \<Longrightarrow> su_sessions uc1 = su_sessions uc \<and> su_client2session uc1 = su_client2session uc
     \<and> su_interfaces uc1 = su_interfaces uc"
  by (auto simp: addConnection_def res_simps)

lemma setConnectionEncryptor_same:
  "setConnectionEncryptor conn enc uc = Ok uc1 \<Longrightarrow> su_sessions uc1 = su_sessions uc \<and> su_client2session uc1 = su_client2session uc
     \<and> su_interfaces uc1 = su_interfaces uc"
  by (auto simp: setConnectionEncryptor_def res_simps split: option.splits)

text \<open>Changing the connections of an interface.\<close>

lemma update_connections_inv:
  assumes inv: "server_inv uc" and ic: "map_of (su_interfaces uc) n = Some ic"
    and eq: "su_interfaces uc1 = mput n (ic\<lparr>si_Connections := cs\<rparr>) (su_interfaces uc)"
      "su_sessions uc1 = su_sessions uc" "su_client2session uc1 = su_client2session uc"
  shows "server_inv uc1"
proof -
  have ok: "clients_ok uc" "interfaces_ok uc" using inv by (simp_all add: server_inv_def)
  have "clients_ok uc1" using ok(1) by (simp add: clients_ok_def eq)
  moreover have "interfaces_ok uc1"
    unfolding interfaces_ok_def
  proof (intro conjI allI impI)
    show "mwf (su_interfaces uc1)" using ok(2) by (simp add: eq interfaces_ok_def gomap_simps)
  next
    fix n' ic' assume "map_of (su_interfaces uc1) n' = Some ic'"
    then obtain ic2 where ic2: "map_of (su_interfaces uc) n' = Some ic2" "si_Name ic' = si_Name ic2" "si_SessionID ic' = si_SessionID ic2"
      using ic by (auto simp: eq gomap_simps split: if_splits)
    show "si_Name ic' = n'" "n' \<noteq> ''''" "\<exists>s. map_of (su_sessions uc1) (si_SessionID ic') = Some s \<and> ss_IfName s = n'"
      using interfaces_okD(1) [OF ok(2) ic2(1)] ic2 by (simp_all add: eq)
  next
    fix sid s assume "map_of (su_sessions uc1) sid = Some s" and ne: "ss_IfName s \<noteq> ''''"
    then have s: "map_of (su_sessions uc) sid = Some s" by (simp add: eq)
    show "\<exists>ic'. map_of (su_interfaces uc1) (ss_IfName s) = Some ic' \<and> si_SessionID ic' = sid"
      using interfaces_okD(2) [OF ok(2) s ne] ic by (cases "ss_IfName s = n") (simp_all add: eq gomap_simps)
  qed
  ultimately show ?thesis by (simp add: server_inv_def)
qed

lemma addInterfaceConnection_inv:
  assumes "server_inv uc" "addInterfaceConnection now sc conn uc = Ok (conn1, uc1)"
  shows "server_inv uc1"
proof -
  obtain ic cs where "map_of (su_interfaces uc) (sc_ifName sc) = Some ic"
    "uc1 = uc\<lparr>su_interfaces := mput (sc_ifName sc) (ic\<lparr>si_Connections := cs\<rparr>) (su_interfaces uc)\<rparr>"
    using assms(2) by (auto simp: addInterfaceConnection_def Let_def split: option.splits)
  then show ?thesis using update_connections_inv [OF assms(1)] by simp
qed

text \<open>
  Removing a connection takes the session it names with it: it must name the session of the
  interface.
\<close>

definition names_its_session :: "connection \<Rightarrow> server_uc \<Rightarrow> bool" where
  "names_its_session conn uc \<longleftrightarrow> (\<forall>k c ifc. Connection_Key conn = Ok k \<longrightarrow> map_of (su_connections uc) k = Some c \<longrightarrow>
     map_of (su_interfaces uc) (sc_ifName c) = Some ifc \<longrightarrow> si_SessionID ifc = c_SessionID conn)"

lemma removeConnection_inv:
  assumes inv: "server_inv uc" and rm: "removeConnection conn uc = Ok uc1" and own: "names_its_session conn uc"
  shows "server_inv uc1"
proof -
  obtain k where k: "Connection_Key conn = Ok k" using rm by (auto simp: removeConnection_def res_simps)
  show ?thesis
  proof (cases "map_of (su_connections uc) k")
    case None
    then show ?thesis using rm k inv by (simp add: removeConnection_def)
  next
    case (Some c)
    let ?uc1 = "uc\<lparr>su_connections := mdel k (su_connections uc)\<rparr>"
    have inv1: "server_inv ?uc1" using inv by (simp add: server_inv_cong [of ?uc1 uc])
    show ?thesis
    proof (cases "sc_ifName c = '''' \<or> map_of (su_interfaces uc) (sc_ifName c) = None")
      case True
      then have "uc1 = ?uc1" using rm k Some by (auto simp: removeConnection_def Let_def split: if_splits)
      then show ?thesis using inv1 by simp
    next
      case False
      then obtain ifc where ifc: "map_of (su_interfaces uc) (sc_ifName c) = Some ifc" by auto
      obtain i where i: "index_of_key k (si_Connections ifc) = Ok i"
        using rm k Some False ifc by (auto simp: removeConnection_def Let_def res_simps)
      let ?ifc = "ifc\<lparr>si_Connections := remove_at i (si_Connections ifc)\<rparr>"
      let ?uc2 = "?uc1\<lparr>su_interfaces := mput (sc_ifName c) ?ifc (su_interfaces ?uc1)\<rparr>"
      have inv2: "server_inv ?uc2" by (rule update_connections_inv [OF inv1, of "sc_ifName c" ifc "?uc2"]) (simp_all add: ifc)
      have r: "uc1 = (if si_Connections ?ifc = [] then close_interface (sc_ifName c) ?ifc (c_SessionID conn) ?uc2 else ?uc2)"
        using rm k Some False ifc i by (auto simp: removeConnection_def Let_def)
      have sid: "si_SessionID ifc = c_SessionID conn" using own k Some ifc unfolding names_its_session_def by blast
      obtain s where s: "map_of (su_sessions uc) (c_SessionID conn) = Some s" "ss_IfName s = sc_ifName c"
        using interfaces_okD(1) [OF _ ifc] inv sid by (auto simp: server_inv_def)
      have "server_inv (close_interface (sc_ifName c) ?ifc (c_SessionID conn) ?uc2)"
        by (rule delete_session_inv [OF inv2, of "c_SessionID conn" s]) (simp_all add: s close_interface_def gomap_simps)
      then show ?thesis unfolding r using inv2 by (simp only: split: if_split) blast
    qed
  qed
qed

end
