(* ===== verification/ServerCommands.thy ===== *)
theory ServerCommands
  imports ServerInv
begin

text \<open>
  The steps of the server's use case as a relation, the invariant of its tables in every
  state that can be reached, and what authentication, reset and the receivers guarantee there.
\<close>

section \<open>The commands keep the invariant\<close>

lemma auth_session_cases:
  assumes inv: "server_inv uc" and a: "auth_session draws msg req uc = Some (r, uc1)"
  shows "server_inv uc1 \<and> r \<noteq> Panic \<and> (\<forall>sid. r = Ok sid \<longrightarrow> (\<exists>s. map_of (su_sessions uc1) sid = Some s \<and> ss_ClientID s = ar_ClientID req))"
proof (cases "m_SessionID msg = 0")
  case True
  let ?d = "dropSessionByClientID (ar_ClientID req) uc"
  have np: "?d \<noteq> Panic" using dropSessionByClientID_inv(1) [OF inv] .
  let ?uc = "case ?d of Ok uc1 \<Rightarrow> uc1 | _ \<Rightarrow> uc"
  have inv1: "server_inv ?uc" using dropSessionByClientID_inv(2) [OF inv] inv by (cases ?d) auto
  obtain sid where "createSession draws (ar_ClientID req) (ar_Name req) ?uc = Some (sid, uc1)" "r = Ok sid"
    using a True np by (cases ?d) (auto simp: auth_session_def)
  then show ?thesis using createSession_inv [OF inv1] by blast
next
  case False
  then show ?thesis using a inv by (auto simp: auth_session_def checkSession_def split: option.splits if_splits)
qed

lemma auth_session_users:
  "auth_session draws msg req uc = Some (r, uc1) \<Longrightarrow> su_cfg uc1 = su_cfg uc \<and> su_users uc1 = su_users uc"
  by (auto simp: auth_session_def createSession_def dropSessionByClientID_def dropSession_def split: option.splits if_splits res.splits)

text \<open>The device that authentication creates has a new name when it is created.\<close>

definition auth_device_fresh :: "server_lib \<Rightarrow> server_world \<Rightarrow> message \<Rightarrow> server_uc \<Rightarrow> bool" where
  "auth_device_fresh lib w msg uc \<longleftrightarrow>
     (\<forall>req r uc1. lib_request lib (m_Payload msg) (su_authRequest uc) = Ok req \<longrightarrow>
        auth_session (sw_session w) msg req (uc\<lparr>su_authRequest := req\<rparr>) = Some (r, uc1) \<longrightarrow> device_fresh w uc1)"

lemma auth_finish_inv:
  assumes inv: "server_inv uc" and s: "map_of (su_sessions uc) (c_SessionID conn) = Some s" and fresh: "device_fresh w uc"
    and f: "auth_finish w msg req conn uc = (r, conn1, uc1)"
  shows "server_inv uc1"
proof -
  obtain r0 mg where m: "(if UseStreamMerger (cf_Network (su_cfg uc)) then merger_CreateStream (c_SessionID conn) (su_merger uc)
            else (Ok (), su_merger uc)) = (r0, mg)" by fastforce
  let ?uc = "uc\<lparr>su_merger := mg\<rparr>"
  have inv0: "server_inv ?uc" using inv by (simp add: server_inv_cong [of ?uc uc])
  obtain r1 uc2 where c: "createInterface (sw_created w) (c_SessionID conn) ?uc = (r1, uc2)" by fastforce
  have inv2: "server_inv uc2"
    by (rule createInterface_inv [OF inv0 c]) (use s fresh in \<open>auto simp: device_fresh_def\<close>)
  have inv3: "server_inv uc3" if "addConnection conn sc uc2 = Ok uc3" for sc uc3
    using inv2 addConnection_same [OF that] by (simp add: server_inv_cong [of uc3 uc2])
  show ?thesis
    using f m c inv0 inv inv2 inv3 by (auto simp: auth_finish_def split: res.splits option.splits)
qed

lemma commandAuthentication_inv:
  assumes inv: "server_inv uc" and fresh: "auth_device_fresh lib w msg uc"
    and c: "commandAuthentication lib w msg conn uc = Some (r, conn1, uc1)"
  shows "server_inv uc1"
proof (cases "lib_request lib (m_Payload msg) (su_authRequest uc)")
  case (Ok req)
  let ?uc = "uc\<lparr>su_authRequest := req\<rparr>"
  have inv0: "server_inv ?uc" using inv by (simp add: server_inv_cong [of ?uc uc])
  show ?thesis
  proof (cases "case map_of (su_users ?uc) (ar_Name req) of None \<Rightarrow> True | Some u \<Rightarrow> us_Password u \<noteq> ar_Password req")
    case True
    then have "uc1 = ?uc" using c Ok by (simp add: commandAuthentication_def Let_def)
    then show ?thesis using inv0 by simp
  next
    case False
    then obtain r1 uc2 where a: "auth_session (sw_session w) msg req ?uc = Some (r1, uc2)"
      using c Ok by (auto simp: commandAuthentication_def Let_def split: option.splits)
    note i2 = auth_session_cases [OF inv0 a]
    have d: "device_fresh w uc2" using fresh Ok a unfolding auth_device_fresh_def by blast
    show ?thesis
    proof (cases r1)
      case (Ok sid)
      then obtain s where s: "map_of (su_sessions uc2) sid = Some s" using i2 by blast
      have "auth_finish w msg req (conn\<lparr>c_SessionID := sid\<rparr>) uc2 = (r, conn1, uc1)"
        using c \<open>lib_request lib (m_Payload msg) (su_authRequest uc) = Ok req\<close> False a Ok
        by (auto simp: commandAuthentication_def Let_def)
      then show ?thesis using auth_finish_inv [of uc2 "conn\<lparr>c_SessionID := sid\<rparr>" s w] i2 s d by simp
    next
      case (Err e)
      then have "uc1 = uc2"
        using c \<open>lib_request lib (m_Payload msg) (su_authRequest uc) = Ok req\<close> False a by (auto simp: commandAuthentication_def Let_def)
      then show ?thesis using i2 by simp
    next
      case Panic
      then show ?thesis using i2 by simp
    qed
  qed
qed (use c inv in \<open>auto simp: commandAuthentication_def\<close>)

lemma commandHandshake_inv:
  assumes inv: "server_inv uc" and c: "commandHandshake lib w msg conn uc = (r, conn1, uc1)"
  shows "server_inv uc1"
proof -
  have inv0: "server_inv (uc\<lparr>su_handshake := k\<rparr>)" for k using inv by (simp add: server_inv_cong [of "uc\<lparr>su_handshake := k\<rparr>" uc])
  have inv1: "server_inv uc2" if "setConnectionEncryptor conn enc (uc\<lparr>su_handshake := k\<rparr>) = Ok uc2" for enc k uc2
    using inv0 setConnectionEncryptor_same [OF that] by (simp add: server_inv_cong [of uc2 "uc\<lparr>su_handshake := k\<rparr>"])
  have inv2: "server_inv uc3" if "setConnectionEncryptor conn enc (uc\<lparr>su_handshake := k\<rparr>) = Ok uc2"
    "addInterfaceConnection now sc conn uc2 = Ok (conn2, uc3)" for enc k uc2 now sc conn2 uc3
    using addInterfaceConnection_inv [OF inv1 [OF that(1)] that(2)] .
  show ?thesis
    using c inv inv0 inv1 inv2 by (auto simp: commandHandshake_def Let_def split: res.splits option.splits)
qed

lemma commandData_inv:
  assumes "server_inv uc" "commandData w msg conn uc = (r, conn1, uc1)"
  shows "server_inv uc1"
proof -
  have "su_sessions uc1 = su_sessions uc \<and> su_client2session uc1 = su_client2session uc \<and> su_interfaces uc1 = su_interfaces uc"
    using assms(2) by (auto simp: commandData_def iface_Write_def split: res.splits option.splits payload.splits)
  then show ?thesis using assms(1) by (simp add: server_inv_cong [of uc1 uc])
qed

lemma dropSessionByID_inv: "server_inv uc \<Longrightarrow> dropSessionByID sid uc = Ok uc1 \<Longrightarrow> server_inv uc1"
  using dropSession_inv by (auto simp: dropSessionByID_def split: option.splits)

lemma commandReset_inv:
  assumes "server_inv uc" "commandReset msg conn uc = (r, conn1, uc1)"
  shows "server_inv uc1"
  using assms dropSessionByID_inv [OF assms(1)] by (auto simp: commandReset_def split: res.splits option.splits)

lemma error_response_state: "error_response msg (r, conn, uc) = (r1, conn1, uc1) \<Longrightarrow> uc1 = uc \<and> conn1 = conn"
  by (cases r) (auto simp: error_response_def)

lemma command_cases:
  assumes "command lib w msg conn uc = Some (r, conn1, uc1)"
  shows "\<exists>r0 conn0. (if m_Type msg = MessageTypeAuthentication then commandAuthentication lib w msg conn uc
        else if m_Type msg = MessageTypeHandshake then Some (commandHandshake lib w msg conn uc)
        else if m_Type msg = MessageTypeData then Some (commandData w msg conn uc)
        else if m_Type msg = MessageTypeReset then Some (commandReset msg conn uc)
        else Some (Err ErrUnknownCommand, conn, uc)) = Some (r0, conn0, uc1)"
  using assms error_response_state unfolding command_def map_option_eq_Some by (metis prod.collapse)

lemma command_inv:
  assumes inv: "server_inv uc" and fresh: "m_Type msg = MessageTypeAuthentication \<Longrightarrow> auth_device_fresh lib w msg uc"
    and c: "command lib w msg conn uc = Some (r, conn1, uc1)"
  shows "server_inv uc1"
proof -
  obtain r0 conn0 where c0: "(if m_Type msg = MessageTypeAuthentication then commandAuthentication lib w msg conn uc
        else if m_Type msg = MessageTypeHandshake then Some (commandHandshake lib w msg conn uc)
        else if m_Type msg = MessageTypeData then Some (commandData w msg conn uc)
        else if m_Type msg = MessageTypeReset then Some (commandReset msg conn uc)
        else Some (Err ErrUnknownCommand, conn, uc)) = Some (r0, conn0, uc1)"
    using command_cases [OF c] by blast
  show ?thesis
    using c0 inv fresh commandAuthentication_inv [OF inv] commandHandshake_inv [OF inv] commandData_inv [OF inv] commandReset_inv [OF inv]
    by (auto split: if_splits)
qed

section \<open>The steps of the use case\<close>

text \<open>
  A step: a command that does not end the process, the end of a connection, a packet of an
  interface, figures from the network server, a step of the statistics, a new configuration.
  A connection that ends names the session of its interface: the first version of the network
  server gives that number, the second gives 0.
\<close>

inductive server_step :: "server_lib \<Rightarrow> server_uc \<Rightarrow> server_uc \<Rightarrow> bool" for lib where
  step_command: "command lib w msg conn uc = Some (r, conn1, uc1) \<Longrightarrow> r \<noteq> Panic \<Longrightarrow>
     (m_Type msg = MessageTypeAuthentication \<Longrightarrow> auth_device_fresh lib w msg uc) \<Longrightarrow> server_step lib uc uc1"
| step_disconnect: "disconnect conn err uc = Ok uc1 \<Longrightarrow> names_its_session conn uc \<Longrightarrow> server_step lib uc uc1"
| step_interface: "server_interfaceReceiver send draw m uc = (Ok (), out, uc1) \<Longrightarrow> server_step lib uc uc1"
| step_addSessionStat: "server_step lib uc (addSessionStat sid stat uc)"
| step_sessionStat: "sessionStat_step interval ev (stat, uc) = (stat1, uc1) \<Longrightarrow> server_step lib uc uc1"
| step_config: "server_step lib uc (onConfigChanged cfg uc)"

inductive_cases server_stepE: "server_step lib uc uc1"

inductive server_reach :: "server_lib \<Rightarrow> server_config \<Rightarrow> stream_merger \<Rightarrow> server_uc \<Rightarrow> bool" for lib cfg mg where
  reach_start: "server_reach lib cfg mg (NewServerUseCase cfg mg)"
| reach_step: "server_reach lib cfg mg uc \<Longrightarrow> server_step lib uc uc1 \<Longrightarrow> server_reach lib cfg mg uc1"

text \<open>The flush of the statistics changes nothing but the figures of a session.\<close>

definition same_sessions :: "(u32, session_info) gomap \<Rightarrow> (u32, session_info) gomap \<Rightarrow> bool" where
  "same_sessions a b \<longleftrightarrow> (\<forall>sid. map_option (\<lambda>s. (ss_IfName s, ss_UserName s, ss_ClientID s)) (map_of a sid)
     = map_option (\<lambda>s. (ss_IfName s, ss_UserName s, ss_ClientID s)) (map_of b sid))"

lemma same_sessions_refl: "same_sessions a a"
  by (simp add: same_sessions_def)

lemma same_sessions_trans: "same_sessions a b \<Longrightarrow> same_sessions b c \<Longrightarrow> same_sessions a c"
  by (simp add: same_sessions_def)

lemma stat_flush_same: "same_sessions sessions (stat_flush interval x sessions)"
  by (cases x) (auto simp: same_sessions_def stat_flush_def gomap_simps split: option.splits)

lemma stat_flush_mwf: "mwf sessions \<Longrightarrow> mwf (stat_flush interval x sessions)"
  by (cases x) (auto simp: stat_flush_def gomap_simps split: option.splits)

lemma stat_flushes:
  "same_sessions sessions (fold (stat_flush interval) xs sessions) \<and> (mwf sessions \<longrightarrow> mwf (fold (stat_flush interval) xs sessions))"
proof (induction xs arbitrary: sessions)
  case (Cons x xs)
  then show ?case
    using same_sessions_trans [OF stat_flush_same [of sessions interval x]] stat_flush_mwf [of sessions interval x] Cons.IH [of "stat_flush interval x sessions"] by simp
qed (simp add: same_sessions_refl)


lemma same_sessionsD:
  assumes same: "same_sessions a b"
  shows "map_of a sid = Some s \<Longrightarrow> \<exists>t. map_of b sid = Some t \<and> ss_IfName t = ss_IfName s \<and> ss_ClientID t = ss_ClientID s"
    and "map_of b sid = Some t \<Longrightarrow> \<exists>s. map_of a sid = Some s \<and> ss_IfName t = ss_IfName s \<and> ss_ClientID t = ss_ClientID s"
    and "map_of a sid = None \<longleftrightarrow> map_of b sid = None"
proof -
  have eq: "map_option (\<lambda>s. (ss_IfName s, ss_UserName s, ss_ClientID s)) (map_of a sid)
      = map_option (\<lambda>s. (ss_IfName s, ss_UserName s, ss_ClientID s)) (map_of b sid)"
    using same unfolding same_sessions_def by blast
  show "map_of a sid = None \<longleftrightarrow> map_of b sid = None" using eq by (cases "map_of a sid"; cases "map_of b sid") auto
  show "map_of a sid = Some s \<Longrightarrow> \<exists>t. map_of b sid = Some t \<and> ss_IfName t = ss_IfName s \<and> ss_ClientID t = ss_ClientID s"
    using eq by (cases "map_of b sid") auto
  show "map_of b sid = Some t \<Longrightarrow> \<exists>s. map_of a sid = Some s \<and> ss_IfName t = ss_IfName s \<and> ss_ClientID t = ss_ClientID s"
    using eq by (cases "map_of a sid") auto
qed

lemma same_sessions_inv:
  assumes inv: "server_inv uc" and same: "same_sessions (su_sessions uc) ss" and wf: "mwf ss"
  shows "server_inv (uc\<lparr>su_sessions := ss\<rparr>)"
proof -
  have ok: "clients_ok uc" "interfaces_ok uc" using inv by (simp_all add: server_inv_def)
  note sD = same_sessionsD [OF same]
  have "clients_ok (uc\<lparr>su_sessions := ss\<rparr>)"
    unfolding clients_ok_def
  proof (intro conjI allI)
    show "mwf (su_sessions (uc\<lparr>su_sessions := ss\<rparr>))" "mwf (su_client2session (uc\<lparr>su_sessions := ss\<rparr>))"
      "map_of (su_sessions (uc\<lparr>su_sessions := ss\<rparr>)) 0 = None"
      using wf ok(1) sD(3) by (simp_all add: clients_ok_def)
    fix cid sid
    show "map_of (su_client2session (uc\<lparr>su_sessions := ss\<rparr>)) cid = Some sid \<longleftrightarrow>
        (\<exists>s. map_of (su_sessions (uc\<lparr>su_sessions := ss\<rparr>)) sid = Some s \<and> ss_ClientID s = cid)"
    proof
      assume "map_of (su_client2session (uc\<lparr>su_sessions := ss\<rparr>)) cid = Some sid"
      then obtain s where s: "map_of (su_sessions uc) sid = Some s" "ss_ClientID s = cid" using clients_okD(1) [OF ok(1), of cid sid] by auto
      show "\<exists>s. map_of (su_sessions (uc\<lparr>su_sessions := ss\<rparr>)) sid = Some s \<and> ss_ClientID s = cid" using sD(1) [OF s(1)] s(2) by auto
    next
      assume "\<exists>s. map_of (su_sessions (uc\<lparr>su_sessions := ss\<rparr>)) sid = Some s \<and> ss_ClientID s = cid"
      then obtain t where t: "map_of ss sid = Some t" "ss_ClientID t = cid" by auto
      obtain s where s: "map_of (su_sessions uc) sid = Some s" "ss_ClientID t = ss_ClientID s" using sD(2) [OF t(1)] by blast
      show "map_of (su_client2session (uc\<lparr>su_sessions := ss\<rparr>)) cid = Some sid" using clients_okD(2) [OF ok(1) s(1)] s(2) t(2) by simp
    qed
  qed
  moreover have "interfaces_ok (uc\<lparr>su_sessions := ss\<rparr>)"
    unfolding interfaces_ok_def
  proof (intro conjI allI impI)
    show "mwf (su_interfaces (uc\<lparr>su_sessions := ss\<rparr>))" using ok(2) by (simp add: interfaces_ok_def)
  next
    fix n ic assume "map_of (su_interfaces (uc\<lparr>su_sessions := ss\<rparr>)) n = Some ic"
    then have i: "map_of (su_interfaces uc) n = Some ic" by simp
    show "si_Name ic = n" "n \<noteq> ''''" using interfaces_okD(1) [OF ok(2) i] by blast+
    show "\<exists>s. map_of (su_sessions (uc\<lparr>su_sessions := ss\<rparr>)) (si_SessionID ic) = Some s \<and> ss_IfName s = n"
      using interfaces_okD(1) [OF ok(2) i] sD(1) by fastforce
  next
    fix sid s assume "map_of (su_sessions (uc\<lparr>su_sessions := ss\<rparr>)) sid = Some s" and ne: "ss_IfName s \<noteq> ''''"
    then obtain t where t: "map_of (su_sessions uc) sid = Some t" "ss_IfName s = ss_IfName t" using sD(2) by fastforce
    show "\<exists>ic. map_of (su_interfaces (uc\<lparr>su_sessions := ss\<rparr>)) (ss_IfName s) = Some ic \<and> si_SessionID ic = sid"
      using interfaces_okD(2) [OF ok(2) t(1)] t(2) ne by simp
  qed
  ultimately show ?thesis by (simp add: server_inv_def)
qed

lemma sessionStat_step_inv:
  assumes inv: "server_inv uc" and s: "sessionStat_step interval ev (stat, uc) = (stat1, uc1)"
  shows "server_inv uc1"
proof (cases ev)
  case StatTake
  then have "su_sessions uc1 = su_sessions uc \<and> su_client2session uc1 = su_client2session uc \<and> su_interfaces uc1 = su_interfaces uc"
    using s by (auto simp: sessionStat_step_def split: list.splits)
  then show ?thesis using inv by (simp add: server_inv_cong [of uc1 uc])
next
  case StatTick
  then have uc1: "uc1 = uc\<lparr>su_sessions := fold (stat_flush interval) stat (su_sessions uc)\<rparr>"
    using s by (auto simp: sessionStat_step_def)
  have "mwf (su_sessions uc)" using inv by (simp add: server_inv_def clients_ok_def)
  then show ?thesis
    unfolding uc1 using stat_flushes [of "su_sessions uc" interval stat] same_sessions_inv [OF inv] by blast
qed

lemma interfaceReceiver_same:
  "server_interfaceReceiver send draw m uc = (r, out, uc1) \<Longrightarrow> su_sessions uc1 = su_sessions uc
     \<and> su_client2session uc1 = su_client2session uc \<and> su_interfaces uc1 = su_interfaces uc"
  by (auto simp: server_interfaceReceiver_def addSessionStat_def Let_def split: option.splits res.splits)

lemma server_step_inv:
  assumes "server_step lib uc uc1" "server_inv uc"
  shows "server_inv uc1"
  using assms
proof (cases rule: server_step.cases)
  case (step_command w msg conn r conn1)
  then show ?thesis using command_inv [OF assms(2)] by blast
next
  case (step_disconnect conn err)
  then show ?thesis using removeConnection_inv [OF assms(2)] by (simp add: disconnect_def)
next
  case (step_interface send draw m out)
  then show ?thesis using interfaceReceiver_same [OF step_interface] assms(2) by (simp add: server_inv_cong [of uc1 uc])
next
  case (step_addSessionStat sid stat)
  then have "su_sessions uc1 = su_sessions uc \<and> su_client2session uc1 = su_client2session uc \<and> su_interfaces uc1 = su_interfaces uc"
    by (simp add: addSessionStat_def)
  then show ?thesis using assms(2) by (simp add: server_inv_cong [of uc1 uc])
next
  case (step_sessionStat interval ev stat stat1)
  then show ?thesis using sessionStat_step_inv [OF assms(2)] by blast
next
  case (step_config cfg)
  then have "su_sessions uc1 = su_sessions uc \<and> su_client2session uc1 = su_client2session uc \<and> su_interfaces uc1 = su_interfaces uc"
    by (simp add: onConfigChanged_def)
  then show ?thesis using assms(2) by (simp add: server_inv_cong [of uc1 uc])
qed

lemma server_inv_start: "server_inv (NewServerUseCase cfg mg)"
  by (simp add: server_inv_def clients_ok_def interfaces_ok_def NewServerUseCase_def mwf_def)

lemma server_reach_inv: "server_reach lib cfg mg uc \<Longrightarrow> server_inv uc"
  by (induction rule: server_reach.induct) (simp_all add: server_inv_start server_step_inv)

section \<open>Addresses of the tunnels\<close>

definition ip_block :: "u32 \<Rightarrow> if_ip" where
  "ip_block b = \<lparr>ifip_ServerLocal = int2ip b, ifip_ServerRemote = int2ip (b + 1),
     ifip_ClientLocal = int2ip (b + 2), ifip_ClientRemote = int2ip (b + 3)\<rparr>"

definition ip_list :: "if_ip \<Rightarrow> bytes list" where
  "ip_list ip = [ifip_ServerLocal ip, ifip_ServerRemote ip, ifip_ClientLocal ip, ifip_ClientRemote ip]"

definition ips_ok :: "server_uc \<Rightarrow> bool" where
  "ips_ok uc \<longleftrightarrow> (\<forall>ic \<in> snd ` set (su_interfaces uc). \<exists>b. si_IP ic = ip_block b)"

lemma ip2int_int2ip [simp]: "ip2int (int2ip b) = Ok b"
  by (simp add: ip2int_def int2ip_def To4_def coder_simps)

lemma int2ip_inject [simp]: "int2ip a = int2ip b \<longleftrightarrow> a = b"
  using ip2int_int2ip by (metis res.inject(1))

lemma last_client_ip_blocks:
  assumes "\<forall>ic \<in> set ifcs. \<exists>b. si_IP ic = ip_block b"
  shows "\<exists>m f. last_client_ip ifcs maxIP found = Ok (m, f) \<and> maxIP \<le> m
    \<and> (\<forall>ic b. ic \<in> set ifcs \<longrightarrow> si_IP ic = ip_block b \<longrightarrow> b + 3 \<le> m)
    \<and> (f \<longleftrightarrow> found \<or> maxIP < m) \<and> (m = maxIP \<or> (\<exists>ic b. ic \<in> set ifcs \<and> si_IP ic = ip_block b \<and> m = b + 3))"
  using assms
proof (induction ifcs arbitrary: maxIP found)
  case (Cons ic ifcs)
  obtain b where b: "si_IP ic = ip_block b" using Cons.prems by auto
  have inj: "b' = b" if "ip_block b' = ip_block b" for b' using that by (simp add: ip_block_def)
  have tail: "\<forall>ic \<in> set ifcs. \<exists>b. si_IP ic = ip_block b" using Cons.prems by simp
  show ?case
  proof (cases "b + 3 > maxIP")
    case True
    obtain m f where m: "last_client_ip ifcs (b + 3) True = Ok (m, f)" "b + 3 \<le> m"
      "\<forall>ic b. ic \<in> set ifcs \<longrightarrow> si_IP ic = ip_block b \<longrightarrow> b + 3 \<le> m" "f \<longleftrightarrow> True \<or> b + 3 < m"
      "m = b + 3 \<or> (\<exists>ic b. ic \<in> set ifcs \<and> si_IP ic = ip_block b \<and> m = b + 3)"
      using Cons.IH [OF tail, of "b + 3" True] by blast
    have "last_client_ip (ic # ifcs) maxIP found = Ok (m, f)" using True m(1) by (simp add: b ip_block_def)
    moreover have "\<forall>ic' b'. ic' \<in> set (ic # ifcs) \<longrightarrow> si_IP ic' = ip_block b' \<longrightarrow> b' + 3 \<le> m" using m(2,3) b inj by auto
    moreover have "maxIP < m" using True m(2) by simp
    moreover have "\<exists>ic' b'. ic' \<in> set (ic # ifcs) \<and> si_IP ic' = ip_block b' \<and> m = b' + 3" using m(5) b by auto
    moreover have "maxIP \<le> m" "f = (found \<or> maxIP < m)" using calculation m(4) by simp_all
    ultimately show ?thesis by blast
  next
    case False
    obtain m f where m: "last_client_ip ifcs maxIP found = Ok (m, f)" "maxIP \<le> m"
      "\<forall>ic b. ic \<in> set ifcs \<longrightarrow> si_IP ic = ip_block b \<longrightarrow> b + 3 \<le> m" "f \<longleftrightarrow> found \<or> maxIP < m"
      "m = maxIP \<or> (\<exists>ic b. ic \<in> set ifcs \<and> si_IP ic = ip_block b \<and> m = b + 3)"
      using Cons.IH [OF tail, of maxIP found] by blast
    have "last_client_ip (ic # ifcs) maxIP found = Ok (m, f)" using False m(1) by (simp add: b ip_block_def)
    moreover have "\<forall>ic' b'. ic' \<in> set (ic # ifcs) \<longrightarrow> si_IP ic' = ip_block b' \<longrightarrow> b' + 3 \<le> m" using m(2,3) b inj False by fastforce
    moreover have "m = maxIP \<or> (\<exists>ic' b'. ic' \<in> set (ic # ifcs) \<and> si_IP ic' = ip_block b' \<and> m = b' + 3)" using m(5) by auto
    ultimately show ?thesis using m(2,4) by blast
  qed
qed simp

lemma getTunnelIP_block:
  assumes "ips_ok uc" "getTunnelIP uc = Ok ip"
  shows "\<exists>b. ip = ip_block b"
  using assms(2) by (auto simp: getTunnelIP_def ip_block_def res_simps Let_def split: if_splits)

lemma getTunnelIP_ok:
  assumes "ips_ok uc" "ip2int (cf_AddrMin (su_cfg uc)) = Ok a"
  shows "\<exists>ip. getTunnelIP uc = Ok ip"
proof -
  have "\<forall>ic \<in> set (map snd (su_interfaces uc)). \<exists>b. si_IP ic = ip_block b" using assms(1) by (auto simp: ips_ok_def)
  from last_client_ip_blocks [OF this, of 0 False] assms(2) show ?thesis
    by (auto simp: getTunnelIP_def Let_def)
qed

lemma getTunnelIP_above:
  assumes ok: "ips_ok uc" and get: "getTunnelIP uc = Ok (ip_block b)"
    and ic: "ic \<in> snd ` set (su_interfaces uc)" "si_IP ic = ip_block c"
    and room: "\<And>ic c. ic \<in> snd ` set (su_interfaces uc) \<Longrightarrow> si_IP ic = ip_block c \<Longrightarrow> unat c + 7 < 2 ^ 32"
  shows "unat c + 3 < unat b \<and> unat b + 3 < 2 ^ 32"
proof -
  have all: "\<forall>ic \<in> set (map snd (su_interfaces uc)). \<exists>b. si_IP ic = ip_block b" using ok by (auto simp: ips_ok_def)
  obtain m f where m: "last_client_ip (map snd (su_interfaces uc)) 0 False = Ok (m, f)"
      "\<forall>ic b. ic \<in> set (map snd (su_interfaces uc)) \<longrightarrow> si_IP ic = ip_block b \<longrightarrow> b + 3 \<le> m" "f \<longleftrightarrow> 0 < m"
      "m = 0 \<or> (\<exists>ic b. ic \<in> set (map snd (su_interfaces uc)) \<and> si_IP ic = ip_block b \<and> m = b + 3)"
    using last_client_ip_blocks [OF all, of 0 False] by auto
  have plus: "unat (c + 3) = unat c + 3" if "unat c + 7 < 2 ^ 32" for c :: u32 using that by (simp add: unat_word_ariths)
  have c: "unat c + 3 \<le> unat m" using m(2) ic plus [OF room [OF ic]] by (force simp: word_le_nat_alt)
  then have pos: "0 < m" by (simp add: word_greater_zero_iff) (metis add_is_0 le_zero_eq unat_0 zero_neq_numeral)
  then obtain ic2 c2 where m2: "ic2 \<in> snd ` set (su_interfaces uc)" "si_IP ic2 = ip_block c2" "m = c2 + 3" using m(4) by auto
  have "b = m + 1" using get m(1,3) pos by (auto simp: getTunnelIP_def ip_block_def res_simps Let_def)
  moreover have um: "unat m = unat c2 + 3" using plus [OF room [OF m2(1,2)]] m2(3) by simp
  ultimately have "unat b = unat m + 1" using room [OF m2(1,2)] by (simp add: unat_word_ariths)
  then show ?thesis using c um room [OF m2(1,2)] by simp
qed


lemma ips_ok_same: "ips_ok uc \<Longrightarrow> su_interfaces uc1 = su_interfaces uc \<Longrightarrow> ips_ok uc1"
  by (simp add: ips_ok_def)

lemma ips_ok_mput:
  assumes "ips_ok uc" "su_interfaces uc1 = mput n ic (su_interfaces uc)" "si_IP ic = ip_block b"
  shows "ips_ok uc1"
  using assms set_mput_subset [of n ic "su_interfaces uc"] by (fastforce simp: ips_ok_def)

lemma ips_ok_mdel: "ips_ok uc \<Longrightarrow> su_interfaces uc1 = mdel n (su_interfaces uc) \<Longrightarrow> ips_ok uc1"
  using set_mdel [of n "su_interfaces uc"] by (auto simp: ips_ok_def)

lemma ips_ok_update:
  assumes ok: "ips_ok uc" and ic: "map_of (su_interfaces uc) n = Some ic"
    and eq: "su_interfaces uc1 = mput n (ic\<lparr>si_Connections := cs\<rparr>) (su_interfaces uc)"
  shows "ips_ok uc1"
proof -
  obtain b where "si_IP ic = ip_block b" using ok map_of_SomeD [OF ic] by (force simp: ips_ok_def)
  then show ?thesis using ips_ok_mput [OF ok eq] by simp
qed

lemma dropSession_ips: "ips_ok uc \<Longrightarrow> dropSession sid uc = Ok uc1 \<Longrightarrow> ips_ok uc1"
  by (auto simp: dropSession_def split: option.splits elim: ips_ok_mdel)

lemma auth_session_ips:
  assumes "ips_ok uc" "auth_session draws msg req uc = Some (r, uc1)"
  shows "ips_ok uc1"
proof -
  have drop: "ips_ok uc2" if "dropSessionByClientID cid uc = Ok uc2" for cid uc2
    using that dropSession_ips [OF assms(1)] by (auto simp: dropSessionByClientID_def split: option.splits)
  have create: "ips_ok uc3" if "createSession draws cid name uc2 = Some (sid, uc3)" "ips_ok uc2" for cid name uc2 sid uc3
    by (rule ips_ok_same [OF that(2)]) (use that(1) in \<open>auto simp: createSession_def split: option.splits\<close>)
  show ?thesis
    using assms drop create by (auto simp: auth_session_def split: option.splits if_splits res.splits)
qed

lemma createInterface_ips:
  assumes "ips_ok uc" "createInterface created sid uc = (r, uc1)"
  shows "ips_ok uc1"
proof -
  have new: "ips_ok uc2" if "getTunnelIP uc = Ok ip" "su_interfaces uc2 = mput n \<lparr>si_Name = n, si_IP = ip, si_Connections = [], si_SessionID = sid\<rparr> (su_interfaces uc)"
    for n ip uc2
    using getTunnelIP_block [OF assms(1) that(1)] ips_ok_mput [OF assms(1) that(2)] by auto
  show ?thesis
    using assms by (auto simp: createInterface_def Let_def intro: new split: if_splits res.splits option.splits)
qed

lemma commandAuthentication_ips:
  assumes "ips_ok uc" "commandAuthentication lib w msg conn uc = Some (r, conn1, uc1)"
  shows "ips_ok uc1"
proof -
  have same: "ips_ok (uc2\<lparr>su_authRequest := x\<rparr>)" "ips_ok (uc2\<lparr>su_merger := mg\<rparr>)" if "ips_ok uc2" for x mg uc2
    using that by (simp_all add: ips_ok_def)
  have finish: "ips_ok uc3" if "auth_finish w msg req conn0 uc2 = (r0, conn1, uc3)" "ips_ok uc2" for req conn0 uc2 r0 uc3
    using that same createInterface_ips [OF same(2) [OF that(2)]] ips_ok_same addConnection_same
    by (auto simp: auth_finish_def split: res.splits option.splits prod.splits) metis+
  show ?thesis
    using assms same(1) finish auth_session_ips [OF same(1) [OF assms(1)]]
    by (auto simp: commandAuthentication_def Let_def split: res.splits option.splits if_splits)
qed

lemma commandHandshake_ips:
  assumes "ips_ok uc" "commandHandshake lib w msg conn uc = (r, conn1, uc1)"
  shows "ips_ok uc1"
proof -
  have same: "ips_ok (uc\<lparr>su_handshake := x\<rparr>)" for x using assms(1) by (simp add: ips_ok_def)
  have enc: "ips_ok uc2" if "setConnectionEncryptor c e (uc\<lparr>su_handshake := x\<rparr>) = Ok uc2" for c e x uc2
    using ips_ok_same [OF same] setConnectionEncryptor_same [OF that] by simp
  have add: "ips_ok uc3" if "addInterfaceConnection now sc c uc2 = Ok (c1, uc3)" "ips_ok uc2" for now sc c uc2 c1 uc3
    using that by (auto simp: addInterfaceConnection_def Let_def split: option.splits intro: ips_ok_update)
  show ?thesis
    using assms same enc add by (auto simp: commandHandshake_def Let_def split: res.splits option.splits)
qed

lemma removeConnection_ips:
  assumes ok: "ips_ok uc" and rm: "removeConnection conn uc = Ok uc1"
  shows "ips_ok uc1"
proof -
  obtain k where k: "Connection_Key conn = Ok k" using rm by (auto simp: removeConnection_def res_simps)
  show ?thesis
  proof (cases "map_of (su_connections uc) k")
    case None
    then show ?thesis using rm k ok by (simp add: removeConnection_def)
  next
    case (Some c)
    let ?uc1 = "uc\<lparr>su_connections := mdel k (su_connections uc)\<rparr>"
    show ?thesis
    proof (cases "sc_ifName c = '''' \<or> map_of (su_interfaces uc) (sc_ifName c) = None")
      case True
      then have "uc1 = ?uc1" using rm k Some by (auto simp: removeConnection_def Let_def split: if_splits)
      then show ?thesis using ok by (simp add: ips_ok_def)
    next
      case False
      then obtain ifc where ifc: "map_of (su_interfaces uc) (sc_ifName c) = Some ifc" by auto
      obtain i where i: "index_of_key k (si_Connections ifc) = Ok i"
        using rm k Some False ifc by (auto simp: removeConnection_def Let_def res_simps)
      let ?ifc = "ifc\<lparr>si_Connections := remove_at i (si_Connections ifc)\<rparr>"
      let ?uc2 = "?uc1\<lparr>su_interfaces := mput (sc_ifName c) ?ifc (su_interfaces uc)\<rparr>"
      have ok2: "ips_ok ?uc2" by (rule ips_ok_update [OF ok ifc, of _ "remove_at i (si_Connections ifc)"]) simp
      have "ips_ok (close_interface (sc_ifName c) ?ifc (c_SessionID conn) ?uc2)"
        by (rule ips_ok_mdel [OF ok2, of _ "sc_ifName c"]) (simp add: close_interface_def)
      moreover have "uc1 = (if si_Connections ?ifc = [] then close_interface (sc_ifName c) ?ifc (c_SessionID conn) ?uc2 else ?uc2)"
        using rm k Some False ifc i by (auto simp: removeConnection_def Let_def)
      ultimately show ?thesis using ok2 by (simp only: split: if_split) blast
    qed
  qed
qed

lemma server_step_ips:
  assumes "server_step lib uc uc1" "ips_ok uc"
  shows "ips_ok uc1"
  using assms(1)
proof (cases rule: server_step.cases)
  case (step_command w msg conn r conn1)
  obtain r0 conn0 where c0: "(if m_Type msg = MessageTypeAuthentication then commandAuthentication lib w msg conn uc
        else if m_Type msg = MessageTypeHandshake then Some (commandHandshake lib w msg conn uc)
        else if m_Type msg = MessageTypeData then Some (commandData w msg conn uc)
        else if m_Type msg = MessageTypeReset then Some (commandReset msg conn uc)
        else Some (Err ErrUnknownCommand, conn, uc)) = Some (r0, conn0, uc1)"
    using command_cases [OF step_command(1)] by blast
  have data: "ips_ok uc1" if "commandData w msg conn uc = (r0, conn0, uc1)"
    using that assms(2) ips_ok_same [OF assms(2), of uc1]
    by (auto simp: commandData_def iface_Write_def split: res.splits option.splits payload.splits)
  have reset: "ips_ok uc1" if "commandReset msg conn uc = (r0, conn0, uc1)"
    using that assms(2) dropSession_ips [OF assms(2)]
    by (auto simp: commandReset_def dropSessionByID_def split: res.splits option.splits)
  show ?thesis
    using c0 assms(2) data reset commandAuthentication_ips [OF assms(2)] commandHandshake_ips [OF assms(2)]
    by (auto split: if_splits)
next
  case (step_disconnect conn err)
  then show ?thesis using removeConnection_ips [OF assms(2)] by (simp add: disconnect_def)
next
  case (step_interface send draw m out)
  then show ?thesis using interfaceReceiver_same [OF step_interface] ips_ok_same [OF assms(2)] by simp
next
  case (step_addSessionStat sid stat)
  then show ?thesis using ips_ok_same [OF assms(2)] by (simp add: addSessionStat_def)
next
  case (step_sessionStat interval ev stat stat1)
  then have "su_interfaces uc1 = su_interfaces uc"
    by (cases ev) (auto simp: sessionStat_step_def split: list.splits)
  then show ?thesis using ips_ok_same [OF assms(2)] by simp
next
  case (step_config cfg)
  then show ?thesis using ips_ok_same [OF assms(2)] by (simp add: onConfigChanged_def)
qed

lemma server_reach_ips: "server_reach lib cfg mg uc \<Longrightarrow> ips_ok uc"
proof (induction rule: server_reach.induct)
  case reach_start
  show ?case by (simp add: ips_ok_def NewServerUseCase_def)
qed (rule server_step_ips)

end
