(* ===== verification/ServerProps.thy ===== *)
theory ServerProps
  imports ServerCommands
begin

text \<open>
  What the server's use case guarantees in the states it can reach: consistent tables,
  authentication only with a password, separate addresses, figures that add up; and what goes
  wrong outside of them.
\<close>

section \<open>A small server\<close>

text \<open>For the witnesses: one user, requests that are decoded already, ciphers that do nothing.\<close>

definition demo_network :: network_config where
  "demo_network = \<lparr>nc_Host = '''', nc_PortMin = 1000, nc_PortMax = 1000, nc_UseTCP = True, nc_UseUDP = False,
     nc_MaxConnectionAttempts = 1, nc_PortSelectionStrategy = ''random'', nc_Compression = '''', nc_CompressionLevel = 0,
     nc_ObfuscateData = False\<rparr>"

definition demo_server :: server_config where
  "demo_server = \<lparr>cf_Users = [\<lparr>us_Name = [1], us_Password = [2]\<rparr>, \<lparr>us_Name = [5], us_Password = [6]\<rparr>], cf_Network = demo_network,
     cf_AddrMin = [10, 0, 0, 1], cf_Encryption = ''none''\<rparr>"

definition demo_lib :: server_lib where
  "demo_lib = \<lparr>lib_request = (\<lambda>p r. case p of PAuthRequest q \<Rightarrow> Ok q | _ \<Rightarrow> Ok r),
     lib_handshake = (\<lambda>p r. case p of PHandshake k \<Rightarrow> Ok k | _ \<Rightarrow> Ok r),
     lib_aes = (\<lambda>_. None), lib_gcm = (\<lambda>_. None),
     lib_PublicKey = id, lib_NewPublicKey = Ok, lib_ECDH = (\<lambda>a b. Ok (a @ b))\<rparr>"

definition demo_world :: "nat \<Rightarrow> string \<Rightarrow> server_world" where
  "demo_world draw dev = \<lparr>sw_session = [draw], sw_created = Ok dev, sw_privateKey = Ok [7], sw_now = 0, sw_write = Ok ()\<rparr>"

definition demo_request :: "bytes \<Rightarrow> bytes \<Rightarrow> bytes \<Rightarrow> auth_request" where
  "demo_request client name password = \<lparr>ar_ClientID = client, ar_Name = name, ar_Password = password,
     ar_CompressionType = 0, ar_CompressionLevel = 0\<rparr>"

definition demo_auth :: "auth_request \<Rightarrow> message" where
  "demo_auth req = new_message\<lparr>m_Type := MessageTypeAuthentication, m_Payload := PAuthRequest req\<rparr>"

definition demo_merger :: stream_merger where
  "demo_merger = MergerV1 (NewV1 True True)"

definition demo_conn :: "int \<Rightarrow> connection" where
  "demo_conn port = new_connection\<lparr>c_TCPConn := Some \<lparr>so_LocalAddr = NoAddr, so_RemoteAddr = TCPAddr [10, 9, 8, 7] port\<rparr>,
     c_Proto := ProtoTCP, c_Port := 1000\<rparr>"

lemmas demo_defs = demo_network_def demo_server_def demo_lib_def demo_world_def demo_request_def demo_auth_def
  demo_merger_def demo_conn_def

definition demo_uc :: server_uc where
  "demo_uc = NewServerUseCase demo_server demo_merger"

definition demo_login :: "server_world \<Rightarrow> bytes \<Rightarrow> bytes \<Rightarrow> bytes \<Rightarrow> int \<Rightarrow> server_uc \<Rightarrow> server_uc" where
  "demo_login w client name password port uc =
     (case command demo_lib w (demo_auth (demo_request client name password)) (demo_conn port) uc of
        Some (_, _, uc1) \<Rightarrow> uc1 | None \<Rightarrow> uc)"

lemmas server_eval = demo_login_def demo_uc_def demo_defs NewServerUseCase_def initUsers_def command_def commandAuthentication_def
  auth_session_def dropSessionByClientID_def dropSession_def createSession_def session_number_def auth_finish_def
  UseStreamMerger_def createInterface_def getTunnelIP_def ip2int_def To4_def Let_def addConnection_def Connection_Key_def
  key_bytes_def Connection_Protocol_def error_response_def new_message_def new_connection_def int2ip_def
  no_statistic_def

text \<open>The state after one login, by its tables.\<close>

definition demo_in :: server_uc where
  "demo_in = demo_login (demo_world 4 ''tun0'') [9] [1] [2] 5555 demo_uc"

lemma demo_in_tables:
  "map_of (su_sessions demo_in) = [5 \<mapsto> \<lparr>ss_IfName = ''tun0'', ss_UserName = [1], ss_ClientID = [9], ss_Stat = no_statistic\<rparr>]"
  "su_client2session demo_in = [([9], 5)]"
  "su_interfaces demo_in = [(''tun0'', \<lparr>si_Name = ''tun0'', si_IP = ip_block 167772161, si_Connections = [], si_SessionID = 5\<rparr>)]"
  "su_cfg demo_in = demo_server" "su_users demo_in = su_users demo_uc" "su_merger demo_in = demo_merger"
  by (simp_all add: demo_in_def server_eval ip_block_def)

lemma demo_reach_start: "server_reach demo_lib demo_server demo_merger demo_uc"
  unfolding demo_uc_def by (rule reach_start)

lemma demo_fresh: "auth_device_fresh demo_lib (demo_world 4 ''tun0'') (demo_auth (demo_request [9] [1] [2])) demo_uc"
  by (simp add: auth_device_fresh_def device_fresh_def server_eval)

lemma demo_in_step: "\<exists>r c. command demo_lib (demo_world 4 ''tun0'') (demo_auth (demo_request [9] [1] [2])) (demo_conn 5555) demo_uc
    = Some (Ok r, c, demo_in)"
  by (simp add: demo_in_def server_eval)

lemma demo_reach: "server_reach demo_lib demo_server demo_merger demo_in"
proof -
  obtain r c where rc: "command demo_lib (demo_world 4 ''tun0'') (demo_auth (demo_request [9] [1] [2])) (demo_conn 5555) demo_uc
    = Some (Ok r, c, demo_in)" using demo_in_step by blast
  have "server_step demo_lib demo_uc demo_in" by (rule step_command [OF rc]) (simp_all add: demo_fresh)
  then show ?thesis by (rule reach_step [OF demo_reach_start])
qed

section \<open>The tables\<close>



text \<open>
  C29. The addresses given to a new tunnel are none of the addresses of a tunnel in use, as long as
  four more addresses follow the highest one.
\<close>

theorem tunnel_addresses_are_new:
  assumes reach: "server_reach lib cfg mg uc" and get: "getTunnelIP uc = Ok ip"
    and ic: "map_of (su_interfaces uc) n = Some ic"
    and room: "\<And>n ic a. map_of (su_interfaces uc) n = Some ic \<Longrightarrow> ip2int (ifip_ClientRemote (si_IP ic)) = Ok a \<Longrightarrow> unat a + 4 < 2 ^ 32"
    and low: "\<And>n ic a. map_of (su_interfaces uc) n = Some ic \<Longrightarrow> ip2int (ifip_ServerLocal (si_IP ic)) = Ok a \<Longrightarrow> unat a + 3 < 2 ^ 32"
  shows "distinct (ip_list (si_IP ic) @ ip_list ip)"
proof -
  have ok: "ips_ok uc" and wf: "mwf (su_interfaces uc)"
    using server_reach_ips [OF reach] server_reach_inv [OF reach] by (simp_all add: server_inv_def interfaces_ok_def)
  have inT: "map_of (su_interfaces uc) m = Some i \<longleftrightarrow> (m, i) \<in> set (su_interfaces uc)" for m i
    using mwf_map_of [OF wf, of m i] by simp
  obtain b where b: "ip = ip_block b" using getTunnelIP_block [OF ok get] by blast
  obtain c where c: "si_IP ic = ip_block c" using ok map_of_SomeD [OF ic] by (force simp: ips_ok_def)
  have plus: "unat (x + 3) = unat x + 3" if "unat x + 3 < 2 ^ 32" for x :: u32 using that by (simp add: unat_word_ariths)
  have space: "unat c' + 7 < 2 ^ 32" if i: "ic' \<in> snd ` set (su_interfaces uc)" "si_IP ic' = ip_block c'" for ic' c'
  proof -
    obtain m where m: "map_of (su_interfaces uc) m = Some ic'" using i(1) inT by force
    show ?thesis using room [OF m, of "c' + 3"] low [OF m, of c'] plus [of c'] i(2) by (simp add: ip_block_def)
  qed
  have "unat c + 3 < unat b \<and> unat b + 3 < 2 ^ 32"
    by (rule getTunnelIP_above [OF ok get [unfolded b] _ c]) (use ic inT space in \<open>force+\<close>)
  then show ?thesis by (auto simp: b c ip_block_def ip_list_def unat_word_ariths word_unat_eq_iff)
qed

theorem tunnel_addresses_are_new_witness:
  "getTunnelIP demo_in = Ok (ip_block 167772165) \<and> distinct (ip_list (ip_block 167772161) @ ip_list (ip_block 167772165))"
proof -
  have "ip2int [10, 0, 0, 1] = Ok 167772161" by (simp add: ip2int_def To4_def)
  then have get: "getTunnelIP demo_in = Ok (ip_block 167772165)"
    by (simp add: getTunnelIP_def demo_in_tables demo_server_def ip_block_def Let_def)
  have ic: "map_of (su_interfaces demo_in) ''tun0'' = Some \<lparr>si_Name = ''tun0'', si_IP = ip_block 167772161, si_Connections = [], si_SessionID = 5\<rparr>"
    by (simp add: demo_in_tables)
  have "distinct (ip_list (si_IP \<lparr>si_Name = ''tun0'', si_IP = ip_block 167772161, si_Connections = [], si_SessionID = 5\<rparr>)
      @ ip_list (ip_block 167772165))"
    by (rule tunnel_addresses_are_new [OF demo_reach get ic]) (auto simp: demo_in_tables ip_block_def split: if_splits)
  then show ?thesis using get by simp
qed

section \<open>Authentication\<close>

lemma auth_session_owner:
  assumes inv: "server_inv uc" and a: "auth_session draws msg req uc = Some (Ok sid, uc1)"
  shows "\<exists>s. map_of (su_sessions uc1) sid = Some s \<and> ss_ClientID s = ar_ClientID req
    \<and> (m_SessionID msg \<noteq> 0 \<longrightarrow> ss_UserName s = ar_Name req \<and> sid = m_SessionID msg \<and> uc1 = uc)"
proof (cases "m_SessionID msg = 0")
  case True
  then show ?thesis using auth_session_cases [OF inv a] by auto
next
  case False
  then show ?thesis using a by (auto simp: auth_session_def checkSession_def split: option.splits if_splits)
qed

lemma commandAuthentication_success:
  assumes inv: "server_inv uc" and c: "commandAuthentication lib w msg conn uc = Some (Ok m, conn1, uc1)"
  obtains req u s ic uc2 where
    "lib_request lib (m_Payload msg) (su_authRequest uc) = Ok req"
    "map_of (su_users uc) (ar_Name req) = Some u" "us_Password u = ar_Password req"
    "auth_session (sw_session w) msg req (uc\<lparr>su_authRequest := req\<rparr>) = Some (Ok (c_SessionID conn1), uc2)"
    "map_of (su_sessions uc2) (c_SessionID conn1) = Some s" "ss_ClientID s = ar_ClientID req"
    "auth_finish w msg req conn1 uc2 = (Ok m, conn1, uc1)"
proof -
  obtain req where req: "lib_request lib (m_Payload msg) (su_authRequest uc) = Ok req"
    using c by (auto simp: commandAuthentication_def split: res.splits)
  let ?uc = "uc\<lparr>su_authRequest := req\<rparr>"
  have inv0: "server_inv ?uc" using inv by (simp add: server_inv_cong [of ?uc uc])
  obtain u where u: "map_of (su_users uc) (ar_Name req) = Some u" "us_Password u = ar_Password req"
    using c req by (auto simp: commandAuthentication_def Let_def split: option.splits if_splits)
  obtain sid uc2 where a: "auth_session (sw_session w) msg req ?uc = Some (Ok sid, uc2)"
    and f: "auth_finish w msg req (conn\<lparr>c_SessionID := sid\<rparr>) uc2 = (Ok m, conn1, uc1)"
    using c req u by (auto simp: commandAuthentication_def Let_def split: option.splits res.splits if_splits)
  have conn1: "conn1 = conn\<lparr>c_SessionID := sid\<rparr>"
    using f by (auto simp: auth_finish_def split: prod.splits res.splits option.splits if_splits)
  obtain s where "map_of (su_sessions uc2) sid = Some s" "ss_ClientID s = ar_ClientID req"
    using auth_session_owner [OF inv0 a] by blast
  with req u a f conn1 show ?thesis by (intro that) simp_all
qed

lemma authentication_answer:
  assumes inv: "server_inv uc" and c: "commandAuthentication lib w msg conn uc = Some (Ok m, conn1, uc1)"
  shows "\<exists>req u s ic k sc. lib_request lib (m_Payload msg) (su_authRequest uc) = Ok req
    \<and> map_of (su_users uc) (ar_Name req) = Some u \<and> us_Password u = ar_Password req
    \<and> map_of (su_sessions uc1) (c_SessionID conn1) = Some s \<and> ss_ClientID s = ar_ClientID req
    \<and> map_of (su_interfaces uc1) (ss_IfName s) = Some ic
    \<and> m = Some (new_message\<lparr>m_SessionID := c_SessionID conn1, m_Type := m_Type msg,
        m_Payload := PAuthResponse \<lparr>as_SessionID = c_SessionID conn1,
          as_LocalIP = ifip_ClientLocal (si_IP ic), as_RemoteIP = ifip_ClientRemote (si_IP ic)\<rparr>\<rparr>)
    \<and> Connection_Key conn1 = Ok k \<and> map_of (su_connections uc1) k = Some sc
    \<and> sc_ifName sc = si_Name ic \<and> sc_sessionID sc = c_SessionID conn1 \<and> sc_encryptor sc = None"
proof -
  obtain req u s uc2 where h: "lib_request lib (m_Payload msg) (su_authRequest uc) = Ok req"
    "map_of (su_users uc) (ar_Name req) = Some u" "us_Password u = ar_Password req"
    "map_of (su_sessions uc2) (c_SessionID conn1) = Some s" "ss_ClientID s = ar_ClientID req"
    "auth_finish w msg req conn1 uc2 = (Ok m, conn1, uc1)"
    using commandAuthentication_success [OF inv c] by metis
  obtain mg ic uc3 where f: "createInterface (sw_created w) (c_SessionID conn1) (uc2\<lparr>su_merger := mg\<rparr>) = (Ok (Some ic), uc3)"
    "addConnection conn1 \<lparr>sc_ifName = si_Name ic, sc_encryptor = None, sc_sessionID = c_SessionID conn1,
       sc_port = c_Port conn1, sc_protocol = Connection_Protocol conn1,
       sc_compressionType = ar_CompressionType req, sc_compressionLevel = ar_CompressionLevel req\<rparr> uc3 = Ok uc1"
    "m = Some (new_message\<lparr>m_SessionID := c_SessionID conn1, m_Type := m_Type msg,
        m_Payload := PAuthResponse \<lparr>as_SessionID = c_SessionID conn1,
          as_LocalIP = ifip_ClientLocal (si_IP ic), as_RemoteIP = ifip_ClientRemote (si_IP ic)\<rparr>\<rparr>)"
    using h(6) by (auto simp: auth_finish_def split: prod.splits res.splits option.splits)
  have s3: "\<exists>s3. map_of (su_sessions uc3) (c_SessionID conn1) = Some s3 \<and> ss_ClientID s3 = ar_ClientID req
      \<and> map_of (su_interfaces uc3) (ss_IfName s3) = Some ic"
    using createInterface_cases [OF f(1), of s] h(4,5) by (auto simp: gomap_simps)
  obtain k where "Connection_Key conn1 = Ok k" "map_of (su_connections uc1) k = Some \<lparr>sc_ifName = si_Name ic, sc_encryptor = None,
       sc_sessionID = c_SessionID conn1, sc_port = c_Port conn1, sc_protocol = Connection_Protocol conn1,
       sc_compressionType = ar_CompressionType req, sc_compressionLevel = ar_CompressionLevel req\<rparr>"
    using f(2) by (auto simp: addConnection_def res_simps gomap_simps)
  then show ?thesis using h(1-3) f(3) s3 addConnection_same [OF f(2)] by auto
qed



lemma refused_authentication_changes_nothing:
  assumes "lib_request lib (m_Payload msg) (su_authRequest uc) = Ok req"
    and "\<And>u. map_of (su_users uc) (ar_Name req) = Some u \<Longrightarrow> us_Password u \<noteq> ar_Password req"
  shows "commandAuthentication lib w msg conn uc = Some (Err ErrUnauthorized, conn, uc\<lparr>su_authRequest := req\<rparr>)"
  using assms by (auto simp: commandAuthentication_def Let_def split: option.splits)



section \<open>The directory of clients\<close>

text \<open>
  What the tables are for: a directory from clients to a session number, a user and the name of
  the interface. A login of a client replaces its session, unless the client has one that
  never got its interface.
\<close>

type_synonym directory = "bytes \<rightharpoonup> u32 \<times> bytes \<times> string"

definition directory_of :: "server_uc \<Rightarrow> directory" where
  "directory_of uc cid = Option.bind (map_of (su_client2session uc) cid) (\<lambda>sid.
     map_option (\<lambda>s. (sid, ss_UserName s, ss_IfName s)) (map_of (su_sessions uc) sid))"

definition spec_login :: "bytes \<Rightarrow> bytes \<Rightarrow> u32 \<Rightarrow> directory \<Rightarrow> directory" where
  "spec_login cid name sid d =
     (case d cid of
        Some (_, _, ifname) \<Rightarrow> if ifname = '''' then d else d(cid \<mapsto> (sid, name, ''''))
      | None \<Rightarrow> d(cid \<mapsto> (sid, name, '''')))"

lemma directory_of_session:
  assumes "server_inv uc" "map_of (su_sessions uc) sid = Some s"
  shows "map_of (su_client2session uc) (ss_ClientID s) = Some sid"
    "directory_of uc (ss_ClientID s) = Some (sid, ss_UserName s, ss_IfName s)"
  using assms clients_okD(2) [OF _ assms(2)] by (simp_all add: server_inv_def directory_of_def)

lemma dropSession_directory:
  assumes inv: "server_inv uc" and s: "map_of (su_sessions uc) sid = Some s" and d: "dropSession sid uc = Ok uc1"
  shows "directory_of uc1 = (if ss_IfName s = '''' then directory_of uc else (directory_of uc)(ss_ClientID s := None))"
proof (cases "ss_IfName s = ''''")
  case True
  then have "map_of (su_interfaces uc) (ss_IfName s) = None"
    using inv interfaces_okD(1) [of uc "''''"] by (cases "map_of (su_interfaces uc) (ss_IfName s)") (auto simp: server_inv_def)
  then show ?thesis using d s True by (simp add: dropSession_def)
next
  case False
  then obtain ic where ic: "map_of (su_interfaces uc) (ss_IfName s) = Some ic"
    using inv interfaces_okD(2) [OF _ s] by (auto simp: server_inv_def)
  have ok: "clients_ok uc" using inv by (simp add: server_inv_def)
  have other: "sid' \<noteq> sid" if "map_of (su_client2session uc) cid = Some sid'" "cid \<noteq> ss_ClientID s" for cid sid'
    using clients_okD(1) [OF ok that(1)] s that(2) by auto
  show ?thesis
  proof
    fix cid
    show "directory_of uc1 cid = (if ss_IfName s = '''' then directory_of uc else (directory_of uc)(ss_ClientID s := None)) cid"
      using d s ic False other [of cid]
      by (cases "map_of (su_client2session uc) cid") (auto simp: dropSession_def directory_of_def gomap_simps)
  qed
qed

lemma createSession_directory:
  assumes inv: "server_inv uc" and c: "createSession draws cid name uc = Some (sid, uc1)"
  shows "(directory_of uc cid = None \<longrightarrow> directory_of uc1 = (directory_of uc)(cid \<mapsto> (sid, name, '''')))
    \<and> (\<forall>x. directory_of uc cid = Some x \<longrightarrow> directory_of uc1 = directory_of uc \<and> fst x = sid)"
proof (cases "map_of (su_client2session uc) cid")
  case None
  then have free: "map_of (su_sessions uc) sid = None" and
    eq: "uc1 = uc\<lparr>su_sessions := mput sid \<lparr>ss_IfName = '''', ss_UserName = name, ss_ClientID = cid, ss_Stat = no_statistic\<rparr> (su_sessions uc),
            su_client2session := mput cid sid (su_client2session uc)\<rparr>"
    using c free_session by (auto simp: createSession_def)
  have ok: "clients_ok uc" using inv by (simp add: server_inv_def)
  have other: "sid' \<noteq> sid" if "map_of (su_client2session uc) cid' = Some sid'" for cid' sid'
    using clients_okD(1) [OF ok that] free by auto
  have "directory_of uc1 = (directory_of uc)(cid \<mapsto> (sid, name, ''''))"
  proof
    fix x show "directory_of uc1 x = ((directory_of uc)(cid \<mapsto> (sid, name, ''''))) x"
      using other [of x] by (cases "map_of (su_client2session uc) x") (auto simp: eq directory_of_def gomap_simps)
  qed
  then show ?thesis using None by (simp add: directory_of_def)
next
  case (Some sid0)
  obtain s where "map_of (su_sessions uc) sid0 = Some s" using clients_okD(1) [OF _ Some] inv by (auto simp: server_inv_def)
  then show ?thesis using c Some by (auto simp: createSession_def directory_of_def)
qed



section \<open>The figures of a session\<close>

text \<open>What is known of one counter of a session: in the session, summed up, and on its way.\<close>

definition counters :: "(statistic \<Rightarrow> u64) set" where
  "counters = {st_IncomingBytes, st_OutgoingBytes, st_IncomingFrames, st_OutgoingFrames}"

definition stat_total :: "(statistic \<Rightarrow> u64) \<Rightarrow> u32 \<Rightarrow> (u32, statistic) gomap \<times> server_uc \<Rightarrow> u64" where
  "stat_total f sid = (\<lambda>(stat, uc).
     (case map_of (su_sessions uc) sid of Some s \<Rightarrow> f (ss_Stat s) | None \<Rightarrow> 0)
     + (case map_of stat sid of Some a \<Rightarrow> f a | None \<Rightarrow> 0)
     + (\<Sum>x \<leftarrow> su_statCh uc. if fst x = sid then f (snd x) else 0))"

lemma counter_simps:
  assumes "f \<in> counters"
  shows "f (stat_add a b) = f a + f b" "f no_statistic = 0" "f (stat_rates i s a) = f a"
  using assms by (auto simp: counters_def stat_add_def no_statistic_def stat_rates_def)

lemma stat_flush_other: "fst x \<noteq> sid \<Longrightarrow> map_of (stat_flush i x sessions) sid = map_of sessions sid"
  by (cases x) (auto simp: stat_flush_def gomap_simps split: option.splits)

lemma fold_stat_flush_other:
  "sid \<notin> fst ` set stat \<Longrightarrow> map_of (fold (stat_flush i) stat sessions) sid = map_of sessions sid"
  by (induction stat arbitrary: sessions) (auto simp: stat_flush_other)

lemma fold_stat_flush:
  assumes f: "f \<in> counters" and "mwf stat" "map_of sessions sid = Some s"
  shows "\<exists>t. map_of (fold (stat_flush i) stat sessions) sid = Some t
    \<and> f (ss_Stat t) = f (ss_Stat s) + (case map_of stat sid of Some a \<Rightarrow> f a | None \<Rightarrow> 0)"
  using assms(2,3)
proof (induction stat arbitrary: sessions)
  case (Cons x stat)
  obtain k a where x: "x = (k, a)" by (cases x)
  have wf: "mwf stat" and k: "k \<notin> fst ` set stat" using Cons.prems(1) by (auto simp: mwf_def x)
  show ?case
  proof (cases "k = sid")
    case True
    have "map_of (stat_flush i x sessions) sid = Some (s\<lparr>ss_Stat := stat_rates i a (stat_add (ss_Stat s) a)\<rparr>)"
      using Cons.prems(2) True by (simp add: x stat_flush_def gomap_simps)
    then show ?thesis
      using k True fold_stat_flush_other [of sid stat i "stat_flush i x sessions"] by (simp add: x counter_simps [OF f])
  next
    case False
    then have "map_of (stat_flush i x sessions) sid = Some s" using stat_flush_other [of x sid] Cons.prems(2) by (simp add: x)
    from Cons.IH [OF wf this] show ?thesis using False by (simp add: x)
  qed
qed simp

text \<open>
  C33. A step of the statistics loses no figure of a session that lives, and a new figure is
  counted once: the four counters of a session, with what is summed up and what is on its way,
  are the sums of all figures sent, modulo \<open>2 ^ 64\<close>.
\<close>

theorem statistics_are_conserved:
  assumes f: "f \<in> counters" and wf: "mwf stat" and s: "map_of (su_sessions uc) sid = Some s"
  shows "stat_total f sid (sessionStat_step interval ev (stat, uc)) = stat_total f sid (stat, uc)
    \<and> mwf (fst (sessionStat_step interval ev (stat, uc)))
    \<and> (\<exists>t. map_of (su_sessions (snd (sessionStat_step interval ev (stat, uc)))) sid = Some t)
    \<and> stat_total f sid (stat, addSessionStat sid' x uc) = stat_total f sid (stat, uc) + (if sid' = sid then f x else 0)"
proof (intro conjI)
  show "stat_total f sid (stat, addSessionStat sid' x uc) = stat_total f sid (stat, uc) + (if sid' = sid then f x else 0)"
    using f by (auto simp: stat_total_def addSessionStat_def counters_def)
  show "mwf (fst (sessionStat_step interval ev (stat, uc)))"
    using wf by (cases ev) (auto simp: sessionStat_step_def stat_receive_def gomap_simps split: list.splits)
  show "\<exists>t. map_of (su_sessions (snd (sessionStat_step interval ev (stat, uc)))) sid = Some t"
    using s fold_stat_flush [OF f wf s, of interval] by (cases ev) (auto simp: sessionStat_step_def split: list.splits)
  show "stat_total f sid (sessionStat_step interval ev (stat, uc)) = stat_total f sid (stat, uc)"
  proof (cases ev)
    case StatTake
    then show ?thesis
      by (cases "su_statCh uc")
        (auto simp: sessionStat_step_def stat_total_def stat_receive_def gomap_simps counter_simps [OF f] split: option.splits)
  next
    case StatTick
    obtain t where "map_of (fold (stat_flush interval) stat (su_sessions uc)) sid = Some t"
      "f (ss_Stat t) = f (ss_Stat s) + (case map_of stat sid of Some a \<Rightarrow> f a | None \<Rightarrow> 0)"
      using fold_stat_flush [OF f wf s, of interval] by blast
    then show ?thesis using s StatTick by (simp add: sessionStat_step_def stat_total_def)
  qed
qed

theorem statistics_are_conserved_witness:
  "stat_total st_IncomingBytes 5 (sessionStat_step 1 StatTick ([(5, no_statistic\<lparr>st_IncomingBytes := 7\<rparr>)], demo_in)) = 7"
proof -
  have "st_IncomingBytes \<in> counters" "mwf [(5 :: u32, no_statistic\<lparr>st_IncomingBytes := 7\<rparr>)]"
    "map_of (su_sessions demo_in) 5 = Some \<lparr>ss_IfName = ''tun0'', ss_UserName = [1], ss_ClientID = [9], ss_Stat = no_statistic\<rparr>"
    by (simp_all add: counters_def mwf_def demo_in_tables)
  note t = statistics_are_conserved [OF this, of 1 StatTick 0 no_statistic]
  have "su_statCh demo_in = []" by (simp add: demo_in_def server_eval)
  then show ?thesis using t by (simp add: stat_total_def demo_in_tables no_statistic_def)
qed

end
