(* ===== verification/ClientProps.thy ===== *)
theory ClientProps
  imports Ports ServerProps
begin

text \<open>
  What the client's use case guarantees: the choice of a connection stays inside its slice, and
  a login leaves client and server with the same session. And what it does not: a connection
  that is gone can be chosen.
\<close>

section \<open>The tables of connections\<close>

text \<open>
  The map never has more entries than the slice, so that the indices drawn by the size of the
  map are inside the slice; and both refer to objects.
\<close>

definition client_tables :: "client_uc \<Rightarrow> bool" where
  "client_tables uc \<longleftrightarrow> mwf (cu_connectionsMap uc) \<and> length (cu_connectionsMap uc) \<le> length (cu_connections uc)
     \<and> (\<forall>r \<in> set (cu_connections uc). r < length (cu_objects uc)) \<and> (\<forall>r \<in> snd ` set (cu_connectionsMap uc). r < length (cu_objects uc))"

lemma structs_Delete_subset: "set (structs_Delete xs i) \<subseteq> set xs"
proof (cases "i < length xs")
  case True
  then have m: "mset (structs_Delete xs i) \<subseteq># mset xs" by (simp add: structs_Delete_mset)
  show ?thesis using set_mset_mono [OF m] by simp
qed (simp add: structs_Delete_def)

lemma client_tables_cong:
  "cu_objects uc1 = cu_objects uc \<Longrightarrow> cu_connections uc1 = cu_connections uc \<Longrightarrow>
   cu_connectionsMap uc1 = cu_connectionsMap uc \<Longrightarrow> client_tables uc1 = client_tables uc"
  by (simp add: client_tables_def)

lemma client_addConnection_tables:
  assumes "client_tables uc" "client_addConnection conn r uc = Ok uc1" "r < length (cu_objects uc)"
  shows "client_tables uc1 \<and> length (cu_objects uc1) = length (cu_objects uc)"
proof -
  obtain k where k: "uc1 = (if map_of (cu_connectionsMap uc) k \<noteq> None then uc
           else uc\<lparr>cu_objects := (cu_objects uc)[r := (cu_objects uc ! r)\<lparr>cc_idx := length (cu_connections uc)\<rparr>],
                   cu_connectionsMap := mput k r (cu_connectionsMap uc),
                   cu_connections := cu_connections uc @ [r]\<rparr>)"
    using assms(2) by (auto simp: client_addConnection_def res_simps)
  show ?thesis
  proof (cases "map_of (cu_connectionsMap uc) k")
    case None
    then show ?thesis
      using assms(1,3) k length_mput_new [of "cu_connectionsMap uc" k r] set_mput_subset [of k r "cu_connectionsMap uc"]
      by (auto simp: client_tables_def gomap_simps)
  qed (use assms k in simp)
qed

lemma forget_connection_tables:
  assumes "client_tables uc" "forget_connection conn uc = Ok uc1"
  shows "client_tables uc1 \<and> cu_objects uc1 = cu_objects uc"
proof -
  obtain k where key: "Connection_Key conn = Ok k" using assms(2) by (auto simp: forget_connection_def res_simps)
  then have k: "(case map_of (cu_connectionsMap uc) k of
         None \<Rightarrow> Ok uc :: (gerror, client_uc) res
       | Some r \<Rightarrow> Ok (uc\<lparr>cu_connections := structs_Delete (cu_connections uc) (cc_idx (client_conn_of r uc)),
                          cu_connectionsMap := mdel k (cu_connectionsMap uc)\<rparr>)) = Ok uc1"
    using assms(2) by (simp add: forget_connection_def)
  show ?thesis
  proof (cases "map_of (cu_connectionsMap uc) k")
    case (Some r)
    have "mwf (mdel k (cu_connectionsMap uc))" "set (mdel k (cu_connectionsMap uc)) \<subseteq> set (cu_connectionsMap uc)"
      using assms(1) set_mdel [of k "cu_connectionsMap uc"] by (simp_all add: client_tables_def gomap_simps)
    moreover have "length (mdel k (cu_connectionsMap uc)) \<le> length (structs_Delete (cu_connections uc) (cc_idx (client_conn_of r uc)))"
      using assms(1) length_mdel [OF _ Some] by (auto simp: client_tables_def length_structs_Delete)
    moreover have "\<forall>r \<in> snd ` set (mdel k (cu_connectionsMap uc)). r < length (cu_objects uc)"
      using assms(1) calculation(2) unfolding client_tables_def by fastforce
    moreover have "\<forall>r \<in> set (structs_Delete (cu_connections uc) (cc_idx (client_conn_of r uc))). r < length (cu_objects uc)"
      using assms(1) structs_Delete_subset [of "cu_connections uc" "cc_idx (client_conn_of r uc)"] unfolding client_tables_def by blast
    moreover have u: "uc1 = uc\<lparr>cu_connections := structs_Delete (cu_connections uc) (cc_idx (client_conn_of r uc)),
        cu_connectionsMap := mdel k (cu_connectionsMap uc)\<rparr>" using k Some by simp
    ultimately show ?thesis unfolding client_tables_def u by simp
  qed (use assms k in simp)
qed

text \<open>Most operations leave the tables as they are.\<close>

definition same_tables :: "client_uc \<Rightarrow> client_uc \<Rightarrow> bool" where
  "same_tables uc uc1 \<longleftrightarrow> length (cu_objects uc1) = length (cu_objects uc) \<and> cu_connections uc1 = cu_connections uc
     \<and> cu_connectionsMap uc1 = cu_connectionsMap uc"

lemma same_tables_ok: "same_tables uc uc1 \<Longrightarrow> client_tables uc \<Longrightarrow> client_tables uc1"
  by (simp add: same_tables_def client_tables_def)

lemma same_tables_trans: "same_tables uc uc1 \<Longrightarrow> same_tables uc1 uc2 \<Longrightarrow> same_tables uc uc2"
  by (simp add: same_tables_def)

named_theorems same_intro \<open>operations of the client that keep the tables\<close>

lemma same_tables_updates [same_intro]:
  "same_tables uc uc" "same_tables uc (set_conn r conn uc)" "same_tables uc (client_reset uc)" "same_tables uc (closeInterface uc)"
  by (simp_all add: same_tables_def set_conn_def client_reset_def closeInterface_def split: option.split)

lemma sendReset_same [same_intro]: "sendReset w uc = Ok uc1 \<Longrightarrow> same_tables uc uc1"
  by (auto simp: sendReset_def Let_def same_tables_def split: if_splits res.splits)

lemma client_Stop_same [same_intro]: "client_Stop w uc = Ok uc1 \<Longrightarrow> same_tables uc uc1"
proof -
  let ?uc = "uc\<lparr>cu_merger := merger_DeleteStream (cu_sessionID uc) (cu_merger uc)\<rparr>"
  assume stop: "client_Stop w uc = Ok uc1"
  show ?thesis
  proof (cases "cu_isConnected uc")
    case True
    then obtain uc2 where "sendReset w (closeInterface ?uc) = Ok uc2" "uc1 = client_reset uc2"
      using stop by (auto simp: client_Stop_def res_simps)
    then have "same_tables (closeInterface ?uc) uc1" using sendReset_same same_tables_trans same_tables_updates(3) by blast
    moreover have "same_tables ?uc (closeInterface ?uc)" by (rule same_intro)
    ultimately have "same_tables ?uc uc1" by (rule same_tables_trans [rotated])
    then show ?thesis by (simp add: same_tables_def)
  qed (use stop in \<open>simp add: client_Stop_def same_tables_updates\<close>)
qed

lemma responseAuthentication_same [same_intro]:
  "responseAuthentication lib w msg conn uc = (r, uc1) \<Longrightarrow> same_tables uc uc1"
  by (auto simp: responseAuthentication_def client_createInterface_def same_tables_def
      split: res.splits prod.splits option.splits if_splits)

lemma responseHandshake_same [same_intro]:
  assumes "responseHandshake lib key msg conn uc = (r, uc1)"
  shows "same_tables uc uc1"
proof -
  have "same_tables uc uc2" if "client_setConnectionEncryptor conn enc uc = Ok uc2" for enc uc2
    using that by (auto simp: client_setConnectionEncryptor_def same_tables_def res_simps split: option.splits)
  then show ?thesis
    using assms by (auto simp: responseHandshake_def res_simps same_tables_def split: res.splits)
qed

lemma sync_call_same:
  assumes "sync_call w req r uc k = Some (x, uc1)" "\<And>m conn uc y uc2. k m conn uc = (y, uc2) \<Longrightarrow> same_tables uc uc2"
  shows "same_tables uc uc1"
  using assms(1)
proof (cases "cw_SendSync w req (cc_conn (client_conn_of r uc))")
  case (SyncReply m conn)
  show ?thesis
  proof (cases m)
    case (Some m1)
    then have "k m1 conn (set_conn r conn uc) = (x, uc1)" using assms(1) SyncReply by (simp add: sync_call_def)
    from same_tables_trans [OF same_tables_updates(2) assms(2) [OF this]] show ?thesis .
  qed (use assms(1) SyncReply same_tables_updates in \<open>auto simp: sync_call_def\<close>)
qed (auto simp: sync_call_def same_tables_updates)

lemma commands_same [same_intro]:
  "client_commandAuthentication lib w r uc = Some (x, uc1) \<Longrightarrow> same_tables uc uc1"
  "client_commandHandshake lib w r uc = Some (x, uc1) \<Longrightarrow> same_tables uc uc1"
proof -
  show "client_commandAuthentication lib w r uc = Some (x, uc1) \<Longrightarrow> same_tables uc uc1"
    using sync_call_same responseAuthentication_same unfolding client_commandAuthentication_def by blast
  show "client_commandHandshake lib w r uc = Some (x, uc1) \<Longrightarrow> same_tables uc uc1"
    using sync_call_same [of w _ r uc] responseHandshake_same same_tables_updates(1)
    unfolding client_commandHandshake_def by (auto split: res.splits)
qed

lemma connection_attempt_tables:
  assumes ok: "client_tables uc" and a: "connection_attempt lib w port proto uc = Some (x, uc1)"
  shows "client_tables uc1"
proof (cases "cw_Run w port proto")
  case (Ok conn)
  let ?r = "length (cu_objects uc)"
  have forget: "client_tables uc4" if "forget_and_retry c uc3 = (y, uc4)" "client_tables uc3" for c uc3 y uc4
    using that forget_connection_tables [of uc3 c] by (auto simp: forget_and_retry_def split: res.splits)
  show ?thesis
  proof (cases "rbind (GetEncryptor (cl_aes lib) (cl_gcm lib) (cf_Key (cu_conn uc)) (cf_TunnelEncryption (cu_conn uc))) (\<lambda>enc.
      client_addConnection conn ?r (uc\<lparr>cu_objects := cu_objects uc @ [\<lparr>cc_idx = 0, cc_conn = conn, cc_encryptor = enc\<rparr>]\<rparr>))")
    case (Ok uc2)
    then obtain enc where add: "client_addConnection conn ?r (uc\<lparr>cu_objects := cu_objects uc @ [\<lparr>cc_idx = 0, cc_conn = conn, cc_encryptor = enc\<rparr>]\<rparr>) = Ok uc2"
      by (auto simp: res_simps)
    have "client_tables (uc\<lparr>cu_objects := cu_objects uc @ [\<lparr>cc_idx = 0, cc_conn = conn, cc_encryptor = enc\<rparr>]\<rparr>)"
      using ok by (auto simp: client_tables_def)
    then have t2: "client_tables uc2" using client_addConnection_tables [OF _ add] by simp
    have t3: "client_tables uc3" if "client_commandAuthentication lib w ?r uc2 = Some (y, uc3)" for y uc3
      using same_tables_ok [OF commands_same(1) [OF that] t2] .
    have t4: "client_tables uc4" if "client_commandAuthentication lib w ?r uc2 = Some (y, uc3)"
      "client_commandHandshake lib w ?r uc3 = Some (z, uc4)" for y uc3 z uc4
      using same_tables_ok [OF commands_same(2) [OF that(2)] t3 [OF that(1)]] .
    have fin: "client_tables (set_conn i c uc5\<lparr>cu_receivers := rs\<rparr>) = client_tables uc5" for i c rs uc5
      by (simp add: client_tables_def set_conn_def)
    show ?thesis
      using a \<open>cw_Run w port proto = Ok conn\<close> Ok t2 t3 t4 forget
      by (auto simp: connection_attempt_def Let_def fin split: option.splits res.splits if_splits)
  qed (use a Ok ok in \<open>auto simp: connection_attempt_def Let_def\<close>)
qed (use a ok in \<open>auto simp: connection_attempt_def\<close>)

section \<open>The invariant of the client\<close>

definition client_inv :: "client_uc \<Rightarrow> bool" where
  "client_inv uc \<longleftrightarrow> client_tables uc \<and> (cu_isConnected uc \<longrightarrow> cu_interfaceConn uc \<noteq> None)"

text \<open>What an operation may do to the flag and the interface: connected without an interface is not reached.\<close>

lemma responseAuthentication_interface:
  "responseAuthentication lib w msg conn uc = (r, uc1) \<Longrightarrow> cu_isConnected uc1 = cu_isConnected uc
     \<and> (cu_interfaceConn uc \<noteq> None \<longrightarrow> cu_interfaceConn uc1 \<noteq> None) \<and> (r = Ok () \<longrightarrow> cu_interfaceConn uc1 \<noteq> None)"
  by (auto simp: responseAuthentication_def client_createInterface_def split: res.splits prod.splits option.splits if_splits)

lemma responseHandshake_interface:
  "responseHandshake lib key msg conn uc = (r, uc1) \<Longrightarrow> cu_interfaceConn uc1 = cu_interfaceConn uc"
  by (auto simp: responseHandshake_def client_setConnectionEncryptor_def res_simps split: res.splits option.splits)

lemma set_conn_fields [simp]:
  "cu_isConnected (set_conn r conn uc) = cu_isConnected uc" "cu_interfaceConn (set_conn r conn uc) = cu_interfaceConn uc"
  "cu_sessionID (set_conn r conn uc) = cu_sessionID uc" "cu_conn (set_conn r conn uc) = cu_conn uc"
  by (simp_all add: set_conn_def)

lemma client_commandAuthentication_interface:
  assumes "client_commandAuthentication lib w r uc = Some (x, uc1)"
  shows "cu_isConnected uc1 = cu_isConnected uc \<and> (cu_interfaceConn uc \<noteq> None \<longrightarrow> cu_interfaceConn uc1 \<noteq> None)
    \<and> (x = Ok () \<longrightarrow> cu_interfaceConn uc1 \<noteq> None)"
proof (cases "cw_SendSync w (auth_message uc) (cc_conn (client_conn_of r uc))")
  case (SyncReply m conn)
  show ?thesis
  proof (cases m)
    case (Some m1)
    then have "responseAuthentication lib w m1 conn (set_conn r conn uc) = (x, uc1)"
      using assms SyncReply by (simp add: client_commandAuthentication_def sync_call_def)
    then show ?thesis using responseAuthentication_interface by fastforce
  qed (use assms SyncReply in \<open>auto simp: client_commandAuthentication_def sync_call_def\<close>)
qed (use assms in \<open>auto simp: client_commandAuthentication_def sync_call_def\<close>)

lemma client_commandHandshake_interface:
  assumes "client_commandHandshake lib w r uc = Some (x, uc1)"
  shows "cu_interfaceConn uc1 = cu_interfaceConn uc"
proof (cases "cw_privateKey w")
  case (Ok key)
  show ?thesis
  proof (cases "cw_SendSync w (handshake_message lib key uc) (cc_conn (client_conn_of r uc))")
    case (SyncReply m conn)
    show ?thesis
    proof (cases m)
      case (Some m1)
      then have "responseHandshake lib key m1 conn (set_conn r conn uc) = (x, uc1)"
        using assms SyncReply Ok by (simp add: client_commandHandshake_def sync_call_def)
      then show ?thesis using responseHandshake_interface by fastforce
    qed (use assms SyncReply Ok in \<open>auto simp: client_commandHandshake_def sync_call_def\<close>)
  qed (use assms Ok in \<open>auto simp: client_commandHandshake_def sync_call_def\<close>)
qed (use assms in \<open>auto simp: client_commandHandshake_def\<close>)

definition connected_ok :: "client_uc \<Rightarrow> bool" where
  "connected_ok uc \<longleftrightarrow> (cu_isConnected uc \<longrightarrow> cu_interfaceConn uc \<noteq> None)"

lemma forget_connection_connected: "connected_ok uc \<Longrightarrow> forget_connection conn uc = Ok uc1 \<Longrightarrow> connected_ok uc1"
  by (auto simp: forget_connection_def connected_ok_def res_simps split: option.splits)

lemma client_addConnection_fields:
  "client_addConnection conn r uc = Ok uc1 \<Longrightarrow> cu_isConnected uc1 = cu_isConnected uc \<and> cu_interfaceConn uc1 = cu_interfaceConn uc"
  by (auto simp: client_addConnection_def res_simps split: if_splits)

lemma connection_attempt_connected:
  assumes ok: "connected_ok uc" and a: "connection_attempt lib w port proto uc = Some (x, uc1)"
  shows "connected_ok uc1"
proof (cases "cw_Run w port proto")
  case (Ok conn)
  let ?r = "length (cu_objects uc)"
  have forget: "connected_ok uc4" if "forget_and_retry c uc3 = (y, uc4)" "connected_ok uc3" for c uc3 y uc4
    using that forget_connection_connected [of uc3 c] by (auto simp: forget_and_retry_def split: res.splits)
  show ?thesis
  proof (cases "rbind (GetEncryptor (cl_aes lib) (cl_gcm lib) (cf_Key (cu_conn uc)) (cf_TunnelEncryption (cu_conn uc))) (\<lambda>enc.
      client_addConnection conn ?r (uc\<lparr>cu_objects := cu_objects uc @ [\<lparr>cc_idx = 0, cc_conn = conn, cc_encryptor = enc\<rparr>]\<rparr>))")
    case (Ok uc2)
    then have t2: "connected_ok uc2" using ok client_addConnection_fields by (fastforce simp: res_simps connected_ok_def)
    have t3: "connected_ok uc3 \<and> (y = Ok () \<longrightarrow> cu_interfaceConn uc3 \<noteq> None)"
      if "client_commandAuthentication lib w ?r uc2 = Some (y, uc3)" for y uc3
      using client_commandAuthentication_interface [OF that] t2 by (auto simp: connected_ok_def)
    have t4: "connected_ok uc4" if "client_commandAuthentication lib w ?r uc2 = Some (Ok u, uc3)"
      "client_commandHandshake lib w ?r uc3 = Some (z, uc4)" for u uc3 z uc4
      using client_commandHandshake_interface [OF that(2)] t3 [OF that(1)] by (auto simp: connected_ok_def)
    have fin: "connected_ok (set_conn i c uc5\<lparr>cu_receivers := rs\<rparr>) = connected_ok uc5" for i c rs uc5
      by (simp add: connected_ok_def)
    show ?thesis
      using a \<open>cw_Run w port proto = Ok conn\<close> Ok t2 t3 t4 forget
      by (auto simp: connection_attempt_def Let_def fin split: option.splits res.splits if_splits)
  qed (use a Ok ok in \<open>auto simp: connection_attempt_def Let_def\<close>)
qed (use a ok in \<open>auto simp: connection_attempt_def\<close>)

lemma client_inv_split: "client_inv uc \<longleftrightarrow> client_tables uc \<and> connected_ok uc"
  by (simp add: client_inv_def connected_ok_def)

lemma connection_attempts_inv:
  "client_inv uc \<Longrightarrow> connection_attempts lib ws n port proto uc = Some (r, uc1) \<Longrightarrow> client_inv uc1"
proof (induction n arbitrary: uc)
  case (Suc n)
  have "client_inv uc2" if "connection_attempt lib (ws n) port proto uc = Some (x, uc2)" for x uc2
    using Suc.prems(1) connection_attempt_tables [OF _ that] connection_attempt_connected [OF _ that] by (simp add: client_inv_split)
  then show ?case using Suc.prems(2) Suc.IH by (auto split: option.splits attempt.splits prod.splits)
qed simp

lemma createConnection_inv: "client_inv uc \<Longrightarrow> createConnection lib ws port proto uc = Some (r, uc1) \<Longrightarrow> client_inv uc1"
  unfolding createConnection_def by (rule connection_attempts_inv)

lemma sendReset_fields: "sendReset w uc = Ok uc1 \<Longrightarrow> cu_isConnected uc1 = cu_isConnected uc \<and> cu_interfaceConn uc1 = cu_interfaceConn uc
    \<and> cu_connections uc1 = cu_connections uc"
  by (auto simp: sendReset_def Let_def split: if_splits res.splits)

lemma client_Stop_inv: "client_inv uc \<Longrightarrow> client_Stop w uc = Ok uc1 \<Longrightarrow> client_inv uc1"
  using client_Stop_same [of w uc uc1] same_tables_ok
  by (auto simp: client_inv_def client_Stop_def client_reset_def res_simps split: if_splits)

lemma client_removeConnection_inv:
  assumes inv: "client_inv uc" and rm: "client_removeConnection w conn uc = Ok uc1"
  shows "client_inv uc1"
proof -
  obtain uc2 where f: "forget_connection conn uc = Ok uc2"
    and r: "(if cu_connectionsMap uc2 = [] then client_Stop w uc2 else Ok uc2) = Ok uc1"
    using rm by (auto simp: client_removeConnection_def res_simps)
  have "client_inv uc2"
    using inv forget_connection_tables [OF _ f] forget_connection_connected [OF _ f] by (simp add: client_inv_split)
  then show ?thesis using r client_Stop_inv by (auto split: if_splits)
qed

lemma client_disconnect_inv:
  assumes inv: "client_inv uc" and d: "client_disconnect lib ws conn err uc = Some (r, uc1)"
  shows "client_inv uc1"
proof (cases "client_removeConnection (ws 0) conn uc")
  case (Ok uc2)
  let ?uc2 = "uc2\<lparr>cu_closed := cu_closed uc2 @ [conn]\<rparr>"
  have inv2: "client_inv ?uc2" using client_removeConnection_inv [OF inv Ok] by (simp add: client_inv_def client_tables_def)
  show ?thesis
  proof (cases "err = None \<or> cu_isExit ?uc2")
    case True
    then show ?thesis using d Ok inv2 by (simp add: client_disconnect_def Let_def)
  next
    case False
    then obtain x uc3 where c: "createConnection lib ws (c_Port conn) (if c_TCPConn conn \<noteq> None then ProtoTCP else ProtoUDP) ?uc2 = Some (x, uc3)"
      using d Ok by (auto simp: client_disconnect_def Let_def split: option.splits)
    have inv3: "client_inv uc3" by (rule createConnection_inv [OF inv2 c])
    have "uc1 = uc3 \<or> client_Stop (ws 0) uc3 = Ok uc1"
      using d Ok False c by (auto simp: client_disconnect_def Let_def split: res.splits)
    then show ?thesis using inv3 client_Stop_inv [OF inv3] by blast
  qed
qed (use assms in \<open>auto simp: client_disconnect_def\<close>)

text \<open>The loop over the ports keeps what its body keeps.\<close>

lemma port_loop_invariant:
  assumes loop: "port_loop body pmax port s = Some out" and start: "P s"
    and step: "\<And>p s leave s1. body p s = Some (leave, s1) \<Longrightarrow> P s \<Longrightarrow> P s1"
  shows "P out"
proof -
  have "P s \<longrightarrow> (\<forall>p s leave s1. body p s = Some (leave, s1) \<longrightarrow> P s \<longrightarrow> P s1) \<longrightarrow> P out"
  proof (rule port_loop.raw_induct [where P = "\<lambda>body pmax port s out. P s \<longrightarrow>
        (\<forall>p s leave s1. body p s = Some (leave, s1) \<longrightarrow> P s \<longrightarrow> P s1) \<longrightarrow> P out", OF _ loop])
    fix loop and body :: "u16 \<Rightarrow> 'a \<Rightarrow> (bool \<times> 'a) option" and pmax port :: u16 and s out
    assume IH: "\<And>body pmax port s out. loop body pmax port s = Some out \<Longrightarrow>
        P s \<longrightarrow> (\<forall>p s leave s1. body p s = Some (leave, s1) \<longrightarrow> P s \<longrightarrow> P s1) \<longrightarrow> P out"
      and run: "(if port \<le> pmax then Option.bind (body port s) (\<lambda>(leave, s1). if leave then Some s1 else loop body pmax (port + 1) s1)
        else Some s) = Some out"
    show "P s \<longrightarrow> (\<forall>p s leave s1. body p s = Some (leave, s1) \<longrightarrow> P s \<longrightarrow> P s1) \<longrightarrow> P out"
    proof (intro impI)
      assume P: "P s" and keep: "\<forall>p s leave s1. body p s = Some (leave, s1) \<longrightarrow> P s \<longrightarrow> P s1"
      show "P out"
      proof (cases "port \<le> pmax")
        case True
        then obtain leave s1 where b: "body port s = Some (leave, s1)" "(if leave then Some s1 else loop body pmax (port + 1) s1) = Some out"
          using run by (cases "body port s") auto
        have "P s1" using keep b(1) P by blast
        then show "P out" using b(2) IH [of body pmax "port + 1" s1 out] keep by (cases leave) auto
      qed (use run P in simp)
    qed
  qed
  then show ?thesis using start step by blast
qed

lemma connect_port_inv:
  "connect_port lib ws port proto u st = Some st1 \<Longrightarrow> client_inv (snd st) \<Longrightarrow> client_inv (snd st1)"
proof -
  assume c: "connect_port lib ws port proto u st = Some st1" and inv: "client_inv (snd st)"
  obtain r uc where st: "st = (r, uc)" by fastforce
  obtain r1 uc1 where st1: "st1 = (r1, uc1)" by fastforce
  show "client_inv (snd st1)"
    using c inv createConnection_inv [of uc lib "ws port proto" port proto r1 uc1]
    by (auto simp: connect_port_def st st1 split: if_splits)
qed

lemma client_Start_inv:
  assumes inv: "client_inv uc" and s: "client_Start lib ws uc = Some (r, uc1)"
  shows "client_inv uc1"
proof -
  have "client_inv (snd (r, uc1))"
  proof (rule port_loop_invariant [where P = "\<lambda>st. client_inv (snd st)", OF s [unfolded client_Start_def Let_def]])
    show "client_inv (snd (Ok (), uc))" using inv by simp
  next
    fix p st leave st1
    assume b: "Option.bind (connect_port lib ws p ProtoTCP (nc_UseTCP (cf_Server (cu_conn uc))) st)
        (\<lambda>st1. Option.bind (connect_port lib ws p ProtoUDP (nc_UseUDP (cf_Server (cu_conn uc))) st1) (\<lambda>st2. Some (fst st2 \<noteq> Ok (), st2))) = Some (leave, st1)"
      and P: "client_inv (snd st)"
    show "client_inv (snd st1)"
      using b P connect_port_inv [of lib ws p ProtoTCP "nc_UseTCP (cf_Server (cu_conn uc))" st]
        connect_port_inv [of lib ws p ProtoUDP "nc_UseUDP (cf_Server (cu_conn uc))"]
      by (auto simp: bind_eq_Some_conv)
  qed
  then show ?thesis by simp
qed

lemma client_inv_updates [simp]:
  "client_inv (uc\<lparr>cu_written := x\<rparr>) = client_inv uc" "client_inv (uc\<lparr>cu_sent := y\<rparr>) = client_inv uc"
  "client_inv (uc\<lparr>cu_sent := y, cu_stat := z\<rparr>) = client_inv uc"
  by (simp_all add: client_inv_def client_tables_def)

lemma client_commandReset_inv: "client_inv uc \<Longrightarrow> client_inv (client_commandReset uc)"
  by (simp add: client_commandReset_def client_inv_def client_tables_def client_reset_def closeInterface_def
      closeAndRemoveAllConnections_def split: option.splits)

lemma client_Exit_inv: "client_inv uc \<Longrightarrow> client_Exit w uc = Ok uc1 \<Longrightarrow> client_inv uc1"
  by (auto simp: client_Exit_def client_inv_def client_tables_def client_reset_def closeInterface_def
      closeAndRemoveAllConnections_def res_simps split: if_splits option.splits)

lemma client_socketReceiver_inv:
  "client_inv uc \<Longrightarrow> client_socketReceiver w msg uc = (r, uc1) \<Longrightarrow> client_inv uc1"
  using client_commandReset_inv
  by (auto simp: client_socketReceiver_def client_command_def client_commandData_def split: if_splits option.splits payload.splits)

lemma client_interfaceReceiver_inv:
  "client_inv uc \<Longrightarrow> client_interfaceReceiver w msg uc = (r, uc1) \<Longrightarrow> client_inv uc1"
  by (auto simp: client_interfaceReceiver_def Let_def split: if_splits res.splits)

text \<open>The steps of the use case: every call that ends without a panic.\<close>

inductive client_step :: "client_lib \<Rightarrow> client_uc \<Rightarrow> client_uc \<Rightarrow> bool" for lib where
  step_Start: "client_Start lib ws uc = Some (r, uc1) \<Longrightarrow> r \<noteq> Panic \<Longrightarrow> client_step lib uc uc1"
| step_client_disconnect: "client_disconnect lib vs conn err uc = Some (r, uc1) \<Longrightarrow> r \<noteq> Panic \<Longrightarrow> client_step lib uc uc1"
| step_socket: "client_socketReceiver w msg uc = (r, uc1) \<Longrightarrow> r \<noteq> Panic \<Longrightarrow> client_step lib uc uc1"
| step_packet: "client_interfaceReceiver w msg uc = (r, uc1) \<Longrightarrow> r \<noteq> Panic \<Longrightarrow> client_step lib uc uc1"
| step_Stop: "client_Stop w uc = Ok uc1 \<Longrightarrow> client_step lib uc uc1"
| step_Exit: "client_Exit w uc = Ok uc1 \<Longrightarrow> client_step lib uc uc1"

inductive client_reach :: "client_lib \<Rightarrow> client_uc \<Rightarrow> bool" for lib where
  client_reach_new: "NewClientUseCase lib clientID conn codec mg = Ok uc \<Longrightarrow> client_reach lib uc"
| client_reach_step: "client_reach lib uc \<Longrightarrow> client_step lib uc uc1 \<Longrightarrow> client_reach lib uc1"

lemma client_step_inv: "client_step lib uc uc1 \<Longrightarrow> client_inv uc \<Longrightarrow> client_inv uc1"
  by (induction rule: client_step.induct)
    (blast intro: client_Start_inv client_disconnect_inv client_socketReceiver_inv client_interfaceReceiver_inv client_Stop_inv client_Exit_inv)+

lemma client_reach_inv: "client_reach lib uc \<Longrightarrow> client_inv uc"
proof (induction rule: client_reach.induct)
  case (client_reach_new clientID conn codec mg uc)
  then show ?case by (auto simp: NewClientUseCase_def client_reset_def client_inv_def client_tables_def mwf_def res_simps)
qed (rule client_step_inv)

section \<open>Traffic\<close>

lemma client_getConnection_inside:
  assumes "client_tables uc" "packet \<noteq> None"
  shows "client_getConnection draw packet uc \<noteq> Panic"
proof -
  have "i mod length (cu_connectionsMap uc) < length (cu_connections uc)" if "cu_connectionsMap uc \<noteq> []" for i
  proof -
    have "i mod length (cu_connectionsMap uc) < length (cu_connectionsMap uc)" using that by simp
    also have "\<dots> \<le> length (cu_connections uc)" using assms(1) by (simp add: client_tables_def)
    finally show ?thesis .
  qed
  then show ?thesis using assms(2) by (auto simp: client_getConnection_def Let_def)
qed

text \<open>
  C20. In every state the client can reach, a message of the server does not end the process when
  its data are bytes, and neither does a packet of the interface that has its description: the
  interface is there while the client is connected, and the connection drawn is inside the slice.
\<close>

theorem client_traffic_does_not_panic:
  assumes reach: "client_reach lib uc" and data: "m_Payload msg = PBytes b" and packet: "m_PacketInfo p \<noteq> None"
    and lib: "cw_write w \<noteq> Panic" "\<And>m c. cw_SendAsync w m c \<noteq> Panic"
  shows "fst (client_socketReceiver w msg uc) \<noteq> Panic \<and> fst (client_interfaceReceiver w p uc) \<noteq> Panic"
proof
  have inv: "client_tables uc" "cu_isConnected uc \<longrightarrow> cu_interfaceConn uc \<noteq> None"
    using client_reach_inv [OF reach] by (simp_all add: client_inv_def)
  show "fst (client_socketReceiver w msg uc) \<noteq> Panic"
    using inv(2) data lib(1) by (auto simp: client_socketReceiver_def client_command_def client_commandData_def split: option.splits)
  show "fst (client_interfaceReceiver w p uc) \<noteq> Panic"
    using client_getConnection_inside [OF inv(1) packet, of "cw_draw w"] packet lib(2)
    by (auto simp: client_interfaceReceiver_def Let_def split: res.splits)
qed

section \<open>A small client\<close>

definition demo_client_lib :: client_lib where
  "demo_client_lib = \<lparr>cl_authResponse = (\<lambda>p. case p of PAuthResponse x \<Rightarrow> Ok x | _ \<Rightarrow> Err ErrInternalError),
     cl_handshake = (\<lambda>p. case p of PHandshake k \<Rightarrow> Ok k | _ \<Rightarrow> Err ErrInternalError),
     cl_aes = (\<lambda>_. None), cl_gcm = (\<lambda>_. None), cl_PublicKey = id, cl_NewPublicKey = Ok, cl_ECDH = (\<lambda>a b. Ok (b @ a))\<rparr>"

definition demo_client_config :: client_connection where
  "demo_client_config = \<lparr>cf_Server = demo_network, cf_Key = [], cf_User = \<lparr>us_Name = [1], us_Password = [2]\<rparr>,
     cf_TunnelEncryption = ''none''\<rparr>"

definition demo_client :: client_uc where
  "demo_client = (case NewClientUseCase demo_client_lib [9] demo_client_config sample_tapir demo_merger of Ok uc \<Rightarrow> uc | _ \<Rightarrow> undefined)"

text \<open>The answer of \<open>demo_in\<close> as it comes over the wire: session 5, two addresses.\<close>

definition demo_answer :: message where
  "demo_answer = new_message\<lparr>m_Type := MessageTypeAuthentication, m_SessionID := 5, m_PayloadLength := 14,
     m_Payload := PBytes [0, 0, 0, 5, 4, 10, 0, 0, 3, 4, 10, 0, 0, 4]\<rparr>"

definition demo_key_answer :: message where
  "demo_key_answer = new_message\<lparr>m_Type := MessageTypeHandshake, m_SessionID := 5, m_PayloadLength := 2, m_Payload := PBytes [1, 7]\<rparr>"

definition demo_client_world :: client_world where
  "demo_client_world = \<lparr>cw_Run = (\<lambda>port proto. Ok (demo_conn (uint port))),
     cw_SendSync = (\<lambda>m c. SyncReply (Some (if m_Type m = MessageTypeAuthentication then demo_answer else demo_key_answer)) c),
     cw_SendAsync = (\<lambda>m c. Ok ()), cw_Receiver = (\<lambda>proto c sid. c\<lparr>c_SessionID := sid\<rparr>),
     cw_created = Ok ''tun0'', cw_privateKey = Ok [8], cw_write = Ok (), cw_draw = 0\<rparr>"

lemmas client_eval = demo_client_lib_def demo_client_config_def demo_client_def demo_answer_def demo_key_answer_def demo_client_world_def
  NewClientUseCase_def GetEncryptor_def NewEmpty_def client_reset_def connection_attempt_def client_addConnection_def
  client_commandAuthentication_def sync_call_def auth_message_def responseAuthentication_def open_response_def client_conn_of_def
  empty_Decrypt_def UnmarshalPayload_def unmarshal_auth_def unmarshalBytes_def payload_bytes_def client_createInterface_def
  client_commandHandshake_def responseHandshake_def client_setConnectionEncryptor_def set_conn_def handshake_message_def

definition demo_connected :: client_uc where
  "demo_connected = (case connection_attempt demo_client_lib demo_client_world 1000 ProtoTCP demo_client of Some (_, uc) \<Rightarrow> uc | None \<Rightarrow> demo_client)"

lemma demo_connected_attempt:
  "connection_attempt demo_client_lib demo_client_world 1000 ProtoTCP demo_client = Some (ADone, demo_connected)"
  by (simp add: demo_connected_def client_eval demo_defs Connection_Key_def new_connection_def new_message_def UseStreamMerger_def Let_def)

lemma demo_client_config_of: "cf_Server (cu_conn demo_client) = demo_network"
  by (simp add: client_eval)

lemma demo_connect:
  "createConnection demo_client_lib (\<lambda>_. demo_client_world) 1000 ProtoTCP demo_client = Some (Ok (), demo_connected)"
  using demo_connected_attempt
  by (simp add: createConnection_def demo_client_config_of) (simp add: demo_network_def)

lemma demo_start: "client_Start demo_client_lib (\<lambda>_ _ _. demo_client_world) demo_client = Some (Ok (), demo_connected)"
proof -
  note step = port_loop.simps
  show ?thesis
    unfolding client_Start_def Let_def demo_client_config_of
    using demo_connect
    by (subst step, subst step) (simp add: connect_port_def demo_network_def)
qed

lemma demo_connected_reach: "client_reach demo_client_lib demo_connected"
proof -
  have "NewClientUseCase demo_client_lib [9] demo_client_config sample_tapir demo_merger = Ok demo_client"
    by (simp add: client_eval)
  from client_reach_new [OF this] have "client_reach demo_client_lib demo_client" .
  moreover have "client_step demo_client_lib demo_client demo_connected" by (rule step_Start [OF demo_start]) simp
  ultimately show ?thesis by (rule client_reach_step)
qed

theorem client_traffic_does_not_panic_witness:
  "cu_isConnected demo_connected \<and> cu_sessionID demo_connected = 5 \<and>
   fst (client_interfaceReceiver demo_client_world (new_message\<lparr>m_PacketInfo := Some new_packet_info\<rparr>) demo_connected) \<noteq> Panic"
proof -
  have "cu_isConnected demo_connected \<and> cu_sessionID demo_connected = 5"
    by (simp add: demo_connected_def client_eval demo_defs Connection_Key_def new_connection_def new_message_def UseStreamMerger_def Let_def)
  moreover have "fst (client_interfaceReceiver demo_client_world (new_message\<lparr>m_PacketInfo := Some new_packet_info\<rparr>) demo_connected) \<noteq> Panic"
    using client_traffic_does_not_panic [OF demo_connected_reach, of "new_message\<lparr>m_Payload := PBytes [1]\<rparr>" "[1]"
        "new_message\<lparr>m_PacketInfo := Some new_packet_info\<rparr>" demo_client_world]
    by (simp add: demo_client_world_def)
  ultimately show ?thesis by blast
qed

section \<open>Client and server\<close>

text \<open>
  C16. A login: when the client's request reaches the server's use case and the answer comes back
  with the payload the server gave it, both have the same session, of this client, and the
  client's new interface has the addresses that the server's interface of the session has for
  the client.
\<close>

theorem login_agrees:
  assumes reach: "server_reach slib cfg mg suc"
    and server: "command slib sw req sconn suc = Some (Ok (Some resp), sconn1, suc1)"
    and req: "m_Type req = MessageTypeAuthentication" "lib_request slib (m_Payload req) (su_authRequest suc) = Ok q"
      "PAuthRequest q = m_Payload (auth_message cuc)"
    and resp: "m_Payload resp = PAuthResponse x"
    and reply: "cw_SendSync cw (auth_message cuc) (cc_conn (client_conn_of r cuc)) = SyncReply (Some m) conn1"
    and opens: "open_response m (set_conn r conn1 cuc) = Ok m1" "m_Payload m1 = m_Payload resp"
    and decodes: "cl_authResponse clib (PAuthResponse x) = Ok x"
    and client: "client_commandAuthentication clib cw r cuc = Some (Ok (), cuc1)"
  shows "\<exists>s ic i. map_of (su_sessions suc1) (cu_sessionID cuc1) = Some s \<and> ss_ClientID s = cu_ClientID cuc
    \<and> map_of (su_interfaces suc1) (ss_IfName s) = Some ic \<and> cu_interfaceConn cuc1 = Some i
    \<and> (cu_interfaceConn cuc = None \<longrightarrow>
         ifip_ServerLocal (ci_IP i) = ifip_ClientLocal (si_IP ic) \<and> ifip_ServerRemote (ci_IP i) = ifip_ClientRemote (si_IP ic))"
proof -
  obtain r0 where c: "commandAuthentication slib sw req sconn suc = Some r0" "error_response req r0 = (Ok (Some resp), sconn1, suc1)"
    using server req(1) by (auto simp: command_def)
  obtain r1 c1 u1 where r0: "r0 = (r1, c1, u1)" by (metis prod.collapse)
  have "r1 = Ok (Some resp) \<and> c1 = sconn1 \<and> u1 = suc1"
    using c(2) resp by (cases r1) (auto simp: r0 error_response_def new_message_def split: if_splits)
  then have ok: "commandAuthentication slib sw req sconn suc = Some (Ok (Some resp), sconn1, suc1)" using c(1) r0 by simp
  obtain s ic where s: "map_of (su_sessions suc1) (c_SessionID sconn1) = Some s" "ss_ClientID s = ar_ClientID q"
      "map_of (su_interfaces suc1) (ss_IfName s) = Some ic"
      "resp = new_message\<lparr>m_SessionID := c_SessionID sconn1, m_Type := m_Type req,
        m_Payload := PAuthResponse \<lparr>as_SessionID = c_SessionID sconn1,
          as_LocalIP = ifip_ClientLocal (si_IP ic), as_RemoteIP = ifip_ClientRemote (si_IP ic)\<rparr>\<rparr>"
    using authentication_answer [OF server_reach_inv [OF reach] ok] req(2) by auto
  have x: "x = \<lparr>as_SessionID = c_SessionID sconn1, as_LocalIP = ifip_ClientLocal (si_IP ic), as_RemoteIP = ifip_ClientRemote (si_IP ic)\<rparr>"
    using s(4) resp by simp
  have q: "ar_ClientID q = cu_ClientID cuc" using req(3) by (simp add: auth_message_def)
  have "responseAuthentication clib cw m conn1 (set_conn r conn1 cuc) = (Ok (), cuc1)"
    using client reply by (simp add: client_commandAuthentication_def sync_call_def)
  then obtain mg1 uc2 where i: "client_createInterface cw (as_LocalIP x) (as_RemoteIP x) conn1 (set_conn r conn1 cuc\<lparr>cu_merger := mg1\<rparr>) = (Ok (), uc2)"
      "cuc1 = uc2\<lparr>cu_sessionID := as_SessionID x\<rparr>"
    using opens resp decodes by (auto simp: responseAuthentication_def split: prod.splits res.splits)
  have "\<exists>i. cu_interfaceConn uc2 = Some i \<and> (cu_interfaceConn cuc = None \<longrightarrow>
      ifip_ServerLocal (ci_IP i) = as_LocalIP x \<and> ifip_ServerRemote (ci_IP i) = as_RemoteIP x)"
    using i(1) by (auto simp: client_createInterface_def res_simps split: option.splits res.splits)
  then show ?thesis using s(1-3) q x i(2) by auto
qed

definition demo_dialled :: client_uc where
  "demo_dialled = demo_client\<lparr>cu_objects := [\<lparr>cc_idx = 0, cc_conn = demo_conn 1000, cc_encryptor = NewEmpty []\<rparr>]\<rparr>"

definition demo_response :: message where
  "demo_response = new_message\<lparr>m_SessionID := 5, m_Type := MessageTypeAuthentication,
     m_Payload := PAuthResponse \<lparr>as_SessionID = 5, as_LocalIP = [10, 0, 0, 3], as_RemoteIP = [10, 0, 0, 4]\<rparr>\<rparr>"

lemma demo_server_answers:
  "\<exists>c. command demo_lib (demo_world 4 ''tun0'') (demo_auth (demo_request [9] [1] [2])) (demo_conn 5555) demo_uc
     = Some (Ok (Some demo_response), c, demo_in)"
  by (simp add: demo_in_def demo_response_def server_eval be32_def)

lemma demo_client_logs_in:
  "\<exists>uc1. client_commandAuthentication demo_client_lib demo_client_world 0 demo_dialled = Some (Ok (), uc1) \<and> cu_sessionID uc1 = 5"
  by (simp add: demo_dialled_def client_eval demo_defs new_message_def new_connection_def UseStreamMerger_def)

theorem login_agrees_witness:
  "\<exists>uc1 i. client_commandAuthentication demo_client_lib demo_client_world 0 demo_dialled = Some (Ok (), uc1)
    \<and> cu_sessionID uc1 = 5 \<and> cu_interfaceConn uc1 = Some i \<and> ifip_ServerLocal (ci_IP i) = [10, 0, 0, 3]"
proof -
  obtain c where s: "command demo_lib (demo_world 4 ''tun0'') (demo_auth (demo_request [9] [1] [2])) (demo_conn 5555) demo_uc
     = Some (Ok (Some demo_response), c, demo_in)" using demo_server_answers by blast
  obtain uc1 where cl: "client_commandAuthentication demo_client_lib demo_client_world 0 demo_dialled = Some (Ok (), uc1)"
    and sid: "cu_sessionID uc1 = 5" using demo_client_logs_in by blast
  let ?x = "\<lparr>as_SessionID = 5, as_LocalIP = [10, 0, 0, 3], as_RemoteIP = [10, 0, 0, 4]\<rparr>"
  let ?m = "demo_answer\<lparr>m_Payload := PAuthResponse ?x\<rparr>"
  have "\<exists>s ic i. map_of (su_sessions demo_in) (cu_sessionID uc1) = Some s \<and> ss_ClientID s = cu_ClientID demo_dialled
    \<and> map_of (su_interfaces demo_in) (ss_IfName s) = Some ic \<and> cu_interfaceConn uc1 = Some i
    \<and> (cu_interfaceConn demo_dialled = None \<longrightarrow>
         ifip_ServerLocal (ci_IP i) = ifip_ClientLocal (si_IP ic) \<and> ifip_ServerRemote (ci_IP i) = ifip_ClientRemote (si_IP ic))"
  proof (rule login_agrees [OF demo_reach_start s _ _ _ _ _ _ _ _ cl])
    show "m_Type (demo_auth (demo_request [9] [1] [2])) = MessageTypeAuthentication" by (simp add: demo_auth_def)
    show "lib_request demo_lib (m_Payload (demo_auth (demo_request [9] [1] [2]))) (su_authRequest demo_uc) = Ok (demo_request [9] [1] [2])"
      by (simp add: demo_lib_def demo_auth_def)
    show "PAuthRequest (demo_request [9] [1] [2]) = m_Payload (auth_message demo_dialled)"
      by (simp add: demo_dialled_def client_eval demo_request_def demo_network_def GetCompressionType_def)
    show "m_Payload demo_response = PAuthResponse ?x" by (simp add: demo_response_def)
    show "cw_SendSync demo_client_world (auth_message demo_dialled) (cc_conn (client_conn_of 0 demo_dialled)) = SyncReply (Some demo_answer) (demo_conn 1000)"
      by (simp add: demo_client_world_def auth_message_def client_conn_of_def demo_dialled_def)
    show "open_response demo_answer (set_conn 0 (demo_conn 1000) demo_dialled) = Ok ?m"
      by (simp add: demo_dialled_def client_eval new_message_def)
    show "m_Payload ?m = m_Payload demo_response" by (simp add: demo_response_def)
    show "cl_authResponse demo_client_lib (PAuthResponse ?x) = Ok ?x" by (simp add: demo_client_lib_def)
  qed
  then show ?thesis
    using cl sid by (auto simp: demo_in_tables gomap_simps ip_block_def int2ip_def be32_def demo_dialled_def client_eval)
qed

section \<open>Where the client fails\<close>

text \<open>A reset that is sent by the strategy \<open>hash\<close> has no packet to choose a connection by.\<close>

theorem reset_by_hash_panics:
  assumes "cu_isConnected uc" "cu_portSelectionStrategy uc = PortSelectionStrategyHash" "cu_connectionsMap uc \<noteq> []"
  shows "sendReset w uc = Panic \<and> client_Exit w uc = Panic"
  using assms by (simp add: sendReset_def client_getConnection_def client_Exit_def)

text \<open>
  Removing a connection moves the last one into its place without telling it. Of three connections
  the first and the third end; what is then drawn is the third, and the second, which is
  alive, is never drawn.
\<close>

definition demo_dial :: "u16 \<Rightarrow> client_uc \<Rightarrow> client_uc" where
  "demo_dial port uc = (case connection_attempt demo_client_lib demo_client_world port ProtoTCP uc of Some (_, uc1) \<Rightarrow> uc1 | None \<Rightarrow> uc)"

definition demo_three :: client_uc where
  "demo_three = demo_dial 1003 (demo_dial 1002 (demo_dial 1001 demo_client))"

definition demo_remove :: "int \<Rightarrow> client_uc \<Rightarrow> client_uc" where
  "demo_remove port uc = (case client_removeConnection demo_client_world (demo_conn port) uc of Ok uc1 \<Rightarrow> uc1 | _ \<Rightarrow> uc)"

theorem ended_connection_is_drawn:
  "cu_connections (demo_remove 1003 (demo_remove 1001 demo_three)) = [2, 1]
   \<and> map snd (cu_connectionsMap (demo_remove 1003 (demo_remove 1001 demo_three))) = [1]
   \<and> (\<forall>draw. client_getConnection draw (Some p) (demo_remove 1003 (demo_remove 1001 demo_three)) = Ok 2)"
  by (simp add: demo_three_def demo_dial_def demo_remove_def client_removeConnection_def forget_connection_def structs_Delete_def
      client_getConnection_def client_eval demo_defs Connection_Key_def key_bytes_def new_connection_def new_message_def UseStreamMerger_def
      Let_def To4_def le16_def merger_CreateStream_def v1_CreateStream_def NewV1_def GetPortSelectionStrategy_def)

end
