(* ===== verification/Packet.thy ===== *)
theory Packet
  imports Entity
begin

text \<open>
  The packet decoder of \<open>adapter/packet\<close>: from a raw IP packet it takes the protocol number
  and an endpoint, a hash of the addresses that all packets of one flow share. The layer
  parser of gopacket, used when tracing is on, is a parameter.
\<close>

section \<open>Hashing\<close>

definition fnvBasis :: u64 where "fnvBasis = 14695981039346656037"
definition fnvPrime :: u64 where "fnvPrime = 1099511628211"

definition endpointTypeIPv4 :: u64 where [simp]: "endpointTypeIPv4 = 1"
definition endpointTypeIPv6 :: u64 where [simp]: "endpointTypeIPv6 = 2"

definition fnv_step :: "u64 \<Rightarrow> u8 \<Rightarrow> u64" where
  "fnv_step h b = (h XOR ucast b) * fnvPrime"

definition fnvHash :: "bytes \<Rightarrow> u64" where
  "fnvHash s = foldl fnv_step fnvBasis s"

definition fastHash :: "bytes \<Rightarrow> u64 \<Rightarrow> u64" where
  "fastHash s typ = (fnvHash s XOR typ) * fnvPrime"

section \<open>Decoding\<close>

definition IpPacketMinLength :: nat where [simp]: "IpPacketMinLength = 20"

definition EndpointHashSourceAddress :: u8 where [simp]: "EndpointHashSourceAddress = 1"
definition EndpointHashDestinationAddress :: u8 where [simp]: "EndpointHashDestinationAddress = 2"
definition EndpointHashFullAddress :: u8 where [simp]: "EndpointHashFullAddress = 3"

record decoder_config =
  dc_EndpointHashType :: u8
  dc_Tracing :: bool

definition slice :: "nat \<Rightarrow> nat \<Rightarrow> 'a list \<Rightarrow> 'a list" where
  \<comment> \<open>\<open>xs[i:j]\<close>, used within the bounds only\<close>
  "slice i j xs = take (j - i) (drop i xs)"

text \<open>
  \<open>append(data[a:b], data[b:c]...)\<close> writes the bytes \<open>data[b:c]\<close> over themselves, since the
  first slice has the room; the result is \<open>data[a:c]\<close>. \<open>None\<close> is the panic on an unknown
  hash type.
\<close>

definition hashed_bytes :: "u8 \<Rightarrow> nat \<Rightarrow> nat \<Rightarrow> bytes \<Rightarrow> bytes option" where
  "hashed_bytes typ start width data =
     (if typ = EndpointHashSourceAddress then Some (slice start (start + width) data)
      else if typ = EndpointHashDestinationAddress then Some (slice (start + width) (start + 2 * width) data)
      else if typ = EndpointHashFullAddress
        then Some (slice start (start + width) data @ slice (start + width) (start + 2 * width) data)
      else None)"

definition decodeIPv4 :: "decoder_config \<Rightarrow> bytes \<Rightarrow> (gerror, packet_info) res" where
  "decodeIPv4 cfg data =
     (let ihl = data ! 0 AND 0x0F
      in if ihl < 5 \<or> ihl > 15 then Err ErrWrongPacketData
         else rbind (deref (unbe16 (drop 2 data))) (\<lambda>len.
           if unat (ihl * 4) > unat len then Err ErrWrongPacketData
           else rbind (deref (hashed_bytes (dc_EndpointHashType cfg) 12 4 data)) (\<lambda>endpoint.
             Ok (new_packet_info\<lparr>pi_Endpoint := fastHash endpoint endpointTypeIPv4, pi_Protocol := data ! 9\<rparr>))))"

definition decodeIPv6 :: "decoder_config \<Rightarrow> bytes \<Rightarrow> (gerror, packet_info) res" where
  "decodeIPv6 cfg data =
     (if length data < 40 then Err ErrWrongPacketLength
      else rbind (deref (hashed_bytes (dc_EndpointHashType cfg) 8 16 data)) (\<lambda>endpoint.
        Ok (new_packet_info\<lparr>pi_Endpoint := fastHash endpoint endpointTypeIPv6, pi_Protocol := data ! 6\<rparr>)))"

definition decodeIP :: "decoder_config \<Rightarrow> bytes \<Rightarrow> (gerror, packet_info) res" where
  "decodeIP cfg data =
     (if drop_bit 4 (data ! 0) = 4 then decodeIPv4 cfg data
      else if drop_bit 4 (data ! 0) = 6 then decodeIPv6 cfg data
      else Err ErrWrongPacketData)"

text \<open>
  \<open>decodeLayers\<close> copies the layers that the parser found; a pointer to the packet
  description may be nil here, which is a panic as soon as there is a layer to store. The
  length of the IPv4 header is read after the parser has run.
\<close>

datatype decoded_layer =
    LayerIPv4 ip_layer
  | LayerTCP tcp_layer
  | LayerUDP udp_layer
  | LayerTLS tls_layer
  | LayerICMPv4 icmp_layer
  | LayerPayload

type_synonym layer_parser = "bytes \<Rightarrow> decoded_layer list"

fun ip4_length :: "decoded_layer list \<Rightarrow> u16" where
  "ip4_length [] = 0"
| "ip4_length (LayerIPv4 l # ls) = ip_Length l"
| "ip4_length (_ # ls) = ip4_length ls"

fun store_layer :: "nat \<Rightarrow> u16 \<Rightarrow> decoded_layer \<Rightarrow> packet_info \<Rightarrow> packet_info" where
  "store_layer n len (LayerIPv4 l) p = p\<lparr>pi_IP := Some (l\<lparr>ip_Error := None\<rparr>)\<rparr>"
| "store_layer n len (LayerTCP l) p = p\<lparr>pi_TCP := Some (l\<lparr>tcp_Error := None\<rparr>)\<rparr>"
| "store_layer n len (LayerUDP l) p = p\<lparr>pi_UDP := Some (l\<lparr>udp_Error := None\<rparr>)\<rparr>"
| "store_layer n len (LayerTLS l) p = p\<lparr>pi_TLS := Some (l\<lparr>tls_Error := None\<rparr>)\<rparr>"
| "store_layer n len (LayerICMPv4 l) p =
     p\<lparr>pi_ICMPv4 := Some (l\<lparr>icmp_Error := (if n \<noteq> unat len then Some ErrWrongPacketLength else None)\<rparr>)\<rparr>"
| "store_layer n len LayerPayload p = p"

definition decodeLayers :: "layer_parser \<Rightarrow> bytes \<Rightarrow> packet_info option \<Rightarrow> (gerror, packet_info option) res" where
  "decodeLayers parse data info =
     (let ls = parse data
      in case info of
           None \<Rightarrow> if (\<exists>l\<in>set ls. l \<noteq> LayerPayload) then Panic else Ok None
         | Some p \<Rightarrow> Ok (Some (fold (store_layer (length data) (ip4_length ls)) ls p)))"

text \<open>With tracing on, the error of \<open>decodeIP\<close> is dropped and a nil description goes on.\<close>

definition Decode :: "layer_parser \<Rightarrow> decoder_config \<Rightarrow> bytes \<Rightarrow> (gerror, packet_info option) res" where
  "Decode parse cfg data =
     (if length data < IpPacketMinLength then Err ErrWrongPacketLength
      else case decodeIP cfg data of
        Panic \<Rightarrow> Panic
      | Ok p \<Rightarrow> if \<not> dc_Tracing cfg then Ok (Some p) else decodeLayers parse data (Some p)
      | Err e \<Rightarrow> if \<not> dc_Tracing cfg then Err e else decodeLayers parse data None)"

section \<open>The hash separates neighbours\<close>

lemma fnvPrime_inverse: "fnvPrime * 14886173955864302971 = 1"
  by (simp add: fnvPrime_def)

lemma fnvPrime_cancel: "x * fnvPrime = y * fnvPrime \<longleftrightarrow> x = y"
proof
  assume "x * fnvPrime = y * fnvPrime"
  then have "x * (fnvPrime * 14886173955864302971) = y * (fnvPrime * 14886173955864302971)"
    by (simp flip: mult.assoc)
  then show "x = y" by (simp only: fnvPrime_inverse mult_1_right)
qed simp

lemma xor_cancel: "(x :: u64) XOR a = y XOR a \<longleftrightarrow> x = y"
proof
  assume "x XOR a = y XOR a"
  then have "(x XOR a) XOR a = (y XOR a) XOR a" by (rule arg_cong)
  then show "x = y" by (simp add: xor.assoc)
qed simp

lemma xor_cancel_left: "(a :: u64) XOR x = a XOR y \<longleftrightarrow> x = y"
  using xor_cancel [of x a y] by (simp only: xor.commute)

lemma byte_inj: "(ucast (a :: u8) :: u64) = ucast b \<longleftrightarrow> a = b"
proof
  assume "(ucast a :: u64) = ucast b"
  then have "(ucast (ucast a :: u64) :: u8) = ucast (ucast b :: u64)" by (rule arg_cong)
  then show "a = b" by (simp add: ucast_down_ucast_id is_down)
qed simp

lemma fnv_step_state: "fnv_step h b = fnv_step k b \<longleftrightarrow> h = k"
  by (simp add: fnv_step_def fnvPrime_cancel xor_cancel)

lemma fnv_step_byte: "fnv_step h a = fnv_step h b \<longleftrightarrow> a = b"
  by (simp add: fnv_step_def fnvPrime_cancel xor_cancel_left byte_inj)

lemma foldl_fnv_state: "foldl fnv_step h s = foldl fnv_step k s \<longleftrightarrow> h = k"
  by (induction s arbitrary: h k) (simp_all add: fnv_step_state)

lemma fastHash_one_byte: "fastHash (pre @ a # post) t = fastHash (pre @ b # post) t \<longleftrightarrow> a = b"
  by (simp add: fastHash_def fnvHash_def fnvPrime_cancel xor_cancel foldl_fnv_state fnv_step_byte)

lemma fastHash_type: "fastHash s t = fastHash s t' \<longleftrightarrow> t = t'"
  by (simp add: fastHash_def fnvPrime_cancel xor_cancel_left)

section \<open>Properties\<close>

definition hash_type_ok :: "u8 \<Rightarrow> bool" where
  "hash_type_ok t \<longleftrightarrow> t \<in> {EndpointHashSourceAddress, EndpointHashDestinationAddress, EndpointHashFullAddress}"

lemma hashed_bytes_Some: "hash_type_ok t \<Longrightarrow> \<exists>e. hashed_bytes t start width data = Some e"
  by (auto simp: hash_type_ok_def hashed_bytes_def)

lemma decodeIPv4_cases:
  assumes "20 \<le> length data" "hash_type_ok (dc_EndpointHashType cfg)"
  shows "decodeIPv4 cfg data \<noteq> Panic"
    and "decodeIPv4 cfg data = Ok p \<Longrightarrow> \<exists>e. hashed_bytes (dc_EndpointHashType cfg) 12 4 data = Some e
       \<and> p = new_packet_info\<lparr>pi_Endpoint := fastHash e endpointTypeIPv4, pi_Protocol := data ! 9\<rparr>"
proof -
  obtain a b where "drop 2 data = a # b # drop 4 data"
  proof -
    have "drop 2 data = data ! 2 # data ! 3 # drop 4 data"
      using assms(1) Cons_nth_drop_Suc [of 2 data] Cons_nth_drop_Suc [of 3 data] by (simp add: eval_nat_numeral)
    then show ?thesis by (rule that)
  qed
  then obtain len where len: "unbe16 (drop 2 data) = Some len" by simp
  obtain e where e: "hashed_bytes (dc_EndpointHashType cfg) 12 4 data = Some e"
    using hashed_bytes_Some [OF assms(2)] by blast
  show "decodeIPv4 cfg data \<noteq> Panic" by (simp add: decodeIPv4_def len e Let_def)
  show "\<exists>e. hashed_bytes (dc_EndpointHashType cfg) 12 4 data = Some e
       \<and> p = new_packet_info\<lparr>pi_Endpoint := fastHash e endpointTypeIPv4, pi_Protocol := data ! 9\<rparr>"
    if "decodeIPv4 cfg data = Ok p"
    using that by (auto simp: decodeIPv4_def len e Let_def split: if_splits)
qed

lemma decodeIP_no_panic:
  assumes "20 \<le> length data" "hash_type_ok (dc_EndpointHashType cfg)"
  shows "decodeIP cfg data \<noteq> Panic"
  using decodeIPv4_cases(1) [OF assms] hashed_bytes_Some [OF assms(2), of 8 16 data]
  by (auto simp: decodeIP_def decodeIPv6_def)

text \<open>
  With tracing off and one of the three hash types configured, every byte string is
  decoded or refused with an error: too short, not an IP packet, a wrong header length.
\<close>

theorem Decode_returns:
  assumes "hash_type_ok (dc_EndpointHashType cfg)" "\<not> dc_Tracing cfg"
  shows "(\<exists>p. Decode parse cfg data = Ok (Some p)) \<or> Decode parse cfg data \<in> {Err ErrWrongPacketLength, Err ErrWrongPacketData}"
proof (cases "length data < 20")
  case False
  then have len: "20 \<le> length data" by simp
  have errs: "decodeIP cfg data = Err e \<Longrightarrow> e = ErrWrongPacketLength \<or> e = ErrWrongPacketData" for e
    by (auto simp: decodeIP_def decodeIPv4_def decodeIPv6_def deref_def Let_def split: if_splits option.splits)
  show ?thesis
    using False assms(2) decodeIP_no_panic [OF len assms(1)] errs
    by (cases "decodeIP cfg data") (auto simp: Decode_def)
qed (simp add: Decode_def)

theorem Decode_returns_witness:
  "(\<exists>p. Decode (\<lambda>_. []) \<lparr>dc_EndpointHashType = 1, dc_Tracing = False\<rparr> (0x45 # replicate 19 0) = Ok (Some p))
   \<or> Decode (\<lambda>_. []) \<lparr>dc_EndpointHashType = 1, dc_Tracing = False\<rparr> (0x45 # replicate 19 0)
       \<in> {Err ErrWrongPacketLength, Err ErrWrongPacketData}"
  by (rule Decode_returns) (simp_all add: hash_type_ok_def)

definition is_v4 :: "bytes \<Rightarrow> bool" where
  "is_v4 data \<longleftrightarrow> 20 \<le> length data \<and> drop_bit 4 (data ! 0) = 4"

text \<open>
  Packets of one source share an endpoint, and neighbouring sources do not: of two
  IPv4 packets whose source addresses agree except in one byte, the endpoints are equal
  just when that byte is.
\<close>

theorem endpoint_of_source:
  assumes "dc_EndpointHashType cfg = EndpointHashSourceAddress" "\<not> dc_Tracing cfg"
    and "is_v4 d1" "is_v4 d2"
    and "Decode parse cfg d1 = Ok (Some p1)" "Decode parse cfg d2 = Ok (Some p2)"
    and "slice 12 16 d1 = pre @ a # post" "slice 12 16 d2 = pre @ b # post"
  shows "pi_Endpoint p1 = pi_Endpoint p2 \<longleftrightarrow> a = b"
proof -
  have t: "hash_type_ok (dc_EndpointHashType cfg)" using assms(1) by (simp add: hash_type_ok_def)
  have e: "pi_Endpoint p = fastHash (slice 12 16 d) endpointTypeIPv4"
    if "is_v4 d" "Decode parse cfg d = Ok (Some p)" for d p
  proof -
    have len: "20 \<le> length d" and v4: "decodeIP cfg d = decodeIPv4 cfg d"
      using that(1) by (simp_all add: is_v4_def decodeIP_def)
    have "decodeIPv4 cfg d = Ok p"
      using that(2) len assms(2) by (cases "decodeIPv4 cfg d") (auto simp: Decode_def v4)
    from decodeIPv4_cases(2) [OF len t this] show ?thesis
      using assms(1) by (auto simp: hashed_bytes_def)
  qed
  show ?thesis
    unfolding e [OF assms(3,5)] e [OF assms(4,6)] assms(7,8) by (rule fastHash_one_byte)
qed

definition sample_packet :: "u8 \<Rightarrow> bytes" where
  "sample_packet b = [0x45, 0, 0, 20, 0, 0, 0, 0, 64, 6, 0, 0, 10, 0, 0, b, 10, 0, 0, 2]"

definition sample_decoder :: decoder_config where
  "sample_decoder = \<lparr>dc_EndpointHashType = EndpointHashSourceAddress, dc_Tracing = False\<rparr>"

lemma sample_packet_v4: "is_v4 (sample_packet b)"
  by (simp add: is_v4_def sample_packet_def)

lemma sample_packet_source: "slice 12 16 (sample_packet b) = [10, 0, 0] @ b # []"
  by (simp add: slice_def sample_packet_def)

lemma Decode_sample:
  "Decode parse sample_decoder (sample_packet b) =
     Ok (Some (new_packet_info\<lparr>pi_Endpoint := fastHash [10, 0, 0, b] endpointTypeIPv4, pi_Protocol := 6\<rparr>))"
  by (simp add: Decode_def decodeIP_def decodeIPv4_def sample_decoder_def sample_packet_def
      hashed_bytes_def slice_def Let_def)

theorem endpoint_of_source_witness:
  "fastHash [10, 0, 0, 5] endpointTypeIPv4 \<noteq> fastHash [10, 0, 0, 6] endpointTypeIPv4"
proof -
  have "dc_EndpointHashType sample_decoder = EndpointHashSourceAddress" "\<not> dc_Tracing sample_decoder"
    by (simp_all add: sample_decoder_def)
  from endpoint_of_source [OF this sample_packet_v4 sample_packet_v4 Decode_sample [where parse = "\<lambda>_. []"]
      Decode_sample sample_packet_source sample_packet_source, of 5 6]
  show ?thesis by simp
qed

text \<open>
  With tracing on, a packet that is not an IP packet is reported without an error and
  without a description; a parser that finds a layer in it makes the code panic.
\<close>

theorem Decode_tracing_drops_error:
  assumes "dc_Tracing cfg" "20 \<le> length data" "decodeIP cfg data = Err e"
  shows "Decode parse cfg data = (if \<exists>l\<in>set (parse data). l \<noteq> LayerPayload then Panic else Ok None)"
  using assms by (simp add: Decode_def decodeLayers_def)

end
