(* ===== verification/Iface.thy ===== *)
theory Iface
  imports Packet
begin

text \<open>
  The reader of a tunnel interface (\<open>adapter/wiface/iface.go\<close>, \<open>pool.go\<close>): every packet read
  becomes a message with the next sequence number of its endpoint. Endpoints that have been
  silent are forgotten when their number reaches a limit that adapts itself. Creating and
  configuring the device is outside the model.
\<close>

section \<open>Model\<close>

definition initialEndpoints :: int where [simp]: "initialEndpoints = 100"
definition incrementEndpoints :: int where [simp]: "incrementEndpoints = 10"

record endpoint_sequence =
  es_id :: u32
  es_ts :: int

text \<open>
  The pool of sequences: \<open>put\<close> clears an entry, so \<open>get\<close> gives a cleared entry whether it is
  a new one or a used one.
\<close>

definition pool_get :: endpoint_sequence where
  "pool_get = \<lparr>es_id = 0, es_ts = 0\<rparr>"

record iface_listener =
  il_map :: "(u64, endpoint_sequence) gomap"
  il_max :: int
  il_len :: int
  il_out :: "message list" \<comment> \<open>what has been put into the channel \<open>Receiver\<close>\<close>
  il_closed :: bool

definition listener_new :: iface_listener where
  "listener_new = \<lparr>il_map = [], il_max = initialEndpoints, il_len = 0, il_out = [], il_closed = False\<rparr>"

definition getMessageID :: "int \<Rightarrow> u64 \<Rightarrow> iface_listener \<Rightarrow> u32 \<times> iface_listener" where
  "getMessageID now endpointID s =
     (let s1 = (case map_of (il_map s) endpointID of
            Some _ \<Rightarrow> s
          | None \<Rightarrow> s\<lparr>il_map := mput endpointID pool_get (il_map s), il_len := il_len s + 1\<rparr>);
          es = (case map_of (il_map s1) endpointID of Some es \<Rightarrow> es | None \<Rightarrow> pool_get);
          i = es_id es + 1
      in (i, s1\<lparr>il_map := mput endpointID \<lparr>es_id = i, es_ts = now\<rparr> (il_map s1)\<rparr>))"

definition evict :: "int \<Rightarrow> int \<Rightarrow> iface_listener \<Rightarrow> iface_listener" where
  "evict ttl curTs s =
     (if ttl > 0 \<and> il_len s \<ge> il_max s then
        let kept = filter (\<lambda>(e, es). \<not> curTs > es_ts es + ttl) (il_map s);
            deleted = int (length (il_map s)) - int (length kept);
            m = il_max s
        in s\<lparr>il_map := kept, il_len := il_len s - deleted,
             il_max := (if deleted = 0 then m + incrementEndpoints
                        else if m - deleted \<le> initialEndpoints then initialEndpoints
                        else if m - incrementEndpoints \<ge> initialEndpoints then m - incrementEndpoints
                        else m - 1)\<rparr>
      else s)"

text \<open>
  One round of the loop. A read error closes the interface and ends the loop. A packet the
  decoder refuses is skipped; a nil packet description (tracing on, see \<open>Decode\<close>) is
  dereferenced. \<open>copy\<close> fills the payload buffer of \<open>n\<close> bytes that the message came with.
\<close>

datatype iface_read = ReadPacket bytes int int | ReadError

definition listen_step ::
  "(bytes \<Rightarrow> (gerror, packet_info option) res) \<Rightarrow> string \<Rightarrow> int \<Rightarrow> iface_read \<Rightarrow> iface_listener \<Rightarrow> (gerror, iface_listener) res" where
  "listen_step decode ifName ttl ev s =
     (if il_closed s then Ok s
      else case ev of
        ReadError \<Rightarrow> Ok (s\<lparr>il_closed := True\<rparr>)
      | ReadPacket data now1 now2 \<Rightarrow>
          (case decode data of
             Err e \<Rightarrow> Ok s
           | Panic \<Rightarrow> Panic
           | Ok None \<Rightarrow> Panic
           | Ok (Some info) \<Rightarrow>
               (let (i, s1) = getMessageID now1 (pi_Endpoint info) s;
                    msg = new_message\<lparr>m_ID := i, m_Payload := PBytes data, m_PayloadLength := of_nat (length data),
                            m_PacketInfo := Some (info\<lparr>pi_IfName := ifName\<rparr>)\<rparr>
                in Ok (evict ttl now2 (s1\<lparr>il_out := il_out s1 @ [msg]\<rparr>)))))"

fun listen_run ::
  "(bytes \<Rightarrow> (gerror, packet_info option) res) \<Rightarrow> string \<Rightarrow> int \<Rightarrow> iface_read list \<Rightarrow> iface_listener \<Rightarrow> (gerror, iface_listener) res" where
  "listen_run decode ifName ttl [] s = Ok s"
| "listen_run decode ifName ttl (ev # evs) s = rbind (listen_step decode ifName ttl ev s) (listen_run decode ifName ttl evs)"

section \<open>The endpoint table\<close>

definition listener_inv :: "iface_listener \<Rightarrow> bool" where
  "listener_inv s \<longleftrightarrow> mwf (il_map s) \<and> il_len s = int (length (il_map s)) \<and> initialEndpoints \<le> il_max s"

lemma listener_inv_new: "listener_inv listener_new"
  by (simp add: listener_inv_def listener_new_def)

lemma length_mput: "mwf m \<Longrightarrow> int (length (mput k v m)) = int (length m) + (if map_of m k = None then 1 else 0)"
proof (induction m)
  case (Cons p m)
  obtain a b where p: "p = (a, b)" by (cases p)
  have "k = a \<Longrightarrow> map_of m k = None" using Cons.prems by (auto simp: p mwf_def map_of_eq_None_iff)
  with Cons show ?case by (auto simp: p mwf_def)
qed simp

lemma getMessageID_simps:
  "fst (getMessageID now e s) = (case map_of (il_map s) e of None \<Rightarrow> 1 | Some es \<Rightarrow> es_id es + 1)"
  "map_of (il_map (snd (getMessageID now e s))) =
     (map_of (il_map s))(e \<mapsto> \<lparr>es_id = fst (getMessageID now e s), es_ts = now\<rparr>)"
  "il_out (snd (getMessageID now e s)) = il_out s"
  "il_closed (snd (getMessageID now e s)) = il_closed s"
  by (auto simp: getMessageID_def Let_def gomap_simps pool_get_def split: option.splits)

lemma getMessageID_inv: "listener_inv s \<Longrightarrow> listener_inv (snd (getMessageID now e s))"
  by (auto simp: listener_inv_def getMessageID_def Let_def gomap_simps length_mput split: option.splits)

lemma evict_inv: "listener_inv s \<Longrightarrow> listener_inv (evict ttl t s)"
proof -
  assume inv: "listener_inv s"
  define kept where "kept = filter (\<lambda>(e, es). \<not> t > es_ts es + ttl) (il_map s)"
  have "length kept \<le> length (il_map s)" "mwf kept"
    using inv by (simp_all add: kept_def listener_inv_def gomap_simps)
  with inv show ?thesis
    by (auto simp: listener_inv_def evict_def Let_def kept_def [symmetric])
qed

lemma evict_out [simp]: "il_out (evict ttl t s) = il_out s" "il_closed (evict ttl t s) = il_closed s"
  by (simp_all add: evict_def Let_def)

lemma evict_map_of:
  "listener_inv s \<Longrightarrow> map_of (il_map (evict ttl t s)) e =
     (if ttl > 0 \<and> il_len s \<ge> il_max s \<and> (\<exists>es. map_of (il_map s) e = Some es \<and> t > es_ts es + ttl) then None
      else map_of (il_map s) e)"
  by (auto simp: evict_def Let_def listener_inv_def gomap_simps split: option.splits)

lemma listen_step_inv: "listener_inv s \<Longrightarrow> listen_step decode ifName ttl ev s = Ok s' \<Longrightarrow> listener_inv s'"
proof -
  assume inv: "listener_inv s" and step: "listen_step decode ifName ttl ev s = Ok s'"
  have app: "listener_inv (s1\<lparr>il_out := xs\<rparr>) = listener_inv s1" "listener_inv (s1\<lparr>il_closed := c\<rparr>) = listener_inv s1"
    for s1 xs c
    by (simp_all add: listener_inv_def)
  show "listener_inv s'"
    using inv step evict_inv getMessageID_inv
    by (auto simp: listen_step_def Let_def app case_prod_unfold
        split: if_splits iface_read.splits res.splits option.splits)
qed

text \<open>
  C27. The table of endpoints is sound in every reachable state: the counter is the number of
  entries, no endpoint has two entries, and the limit never falls below its initial value.
\<close>

theorem listener_table_sound:
  assumes "listen_run decode ifName ttl evs listener_new = Ok s"
  shows "distinct (mkeys (il_map s)) \<and> il_len s = int (length (il_map s)) \<and> 100 \<le> il_max s"
proof -
  have "listener_inv s0 \<Longrightarrow> listen_run decode ifName ttl evs s0 = Ok s \<Longrightarrow> listener_inv s" for s0
    by (induction evs arbitrary: s0) (auto simp: res_simps dest: listen_step_inv)
  from this [OF listener_inv_new assms] show ?thesis by (simp add: listener_inv_def mwf_def)
qed

definition sample_decode :: "bytes \<Rightarrow> (gerror, packet_info option) res" where
  "sample_decode data = (if data = [] then Err ErrWrongPacketLength
     else Ok (Some (new_packet_info\<lparr>pi_Endpoint := ucast (hd data)\<rparr>)))"

theorem listener_table_sound_witness:
  "\<exists>s. listen_run sample_decode ''tun0'' 60 [ReadPacket [1] 10 10, ReadPacket [] 11 11, ReadPacket [2] 12 12] listener_new = Ok s
     \<and> distinct (mkeys (il_map s)) \<and> il_len s = int (length (il_map s)) \<and> 100 \<le> il_max s"
proof -
  have "\<exists>s. listen_run sample_decode ''tun0'' 60 [ReadPacket [1] 10 10, ReadPacket [] 11 11, ReadPacket [2] 12 12] listener_new = Ok s"
    by (simp add: listen_step_def sample_decode_def getMessageID_def evict_def listener_new_def pool_get_def Let_def)
  then show ?thesis using listener_table_sound by blast
qed

section \<open>Sequence numbers\<close>

text \<open>The packets of one endpoint that were read, and the messages made of them.\<close>

definition packets_of :: "(bytes \<Rightarrow> (gerror, packet_info option) res) \<Rightarrow> u64 \<Rightarrow> iface_read list \<Rightarrow> bytes list" where
  "packets_of decode e evs = concat (map (\<lambda>ev. case ev of ReadError \<Rightarrow> []
     | ReadPacket data _ _ \<Rightarrow> (case decode data of Ok (Some info) \<Rightarrow> if pi_Endpoint info = e then [data] else [] | _ \<Rightarrow> [])) evs)"

definition endpoints_of :: "(bytes \<Rightarrow> (gerror, packet_info option) res) \<Rightarrow> iface_read list \<Rightarrow> u64 set" where
  "endpoints_of decode evs = set (concat (map (\<lambda>ev. case ev of ReadError \<Rightarrow> []
     | ReadPacket data _ _ \<Rightarrow> (case decode data of Ok (Some info) \<Rightarrow> [pi_Endpoint info] | _ \<Rightarrow> [])) evs))"

definition messages_of :: "u64 \<Rightarrow> iface_listener \<Rightarrow> message list" where
  "messages_of e s = filter (\<lambda>m. GetEndpoint m = e) (il_out s)"

text \<open>
  Nothing is forgotten: no time to live is configured, or the endpoints \<open>E\<close> that are read are
  fewer than the table has room for at first.
\<close>

definition few_endpoints :: "int \<Rightarrow> u64 set \<Rightarrow> bool" where
  "few_endpoints ttl E \<longleftrightarrow> ttl \<le> 0 \<or> finite E \<and> card E < 100"

lemma few_evict:
  assumes "few_endpoints ttl E" "listener_inv s" "set (mkeys (il_map s)) \<subseteq> E"
  shows "evict ttl t s = s"
proof (cases "ttl \<le> 0")
  case False
  then have "card (set (mkeys (il_map s))) \<le> card E" "card E < 100"
    using assms by (auto simp: few_endpoints_def intro: card_mono)
  moreover have "card (set (mkeys (il_map s))) = length (il_map s)"
    using assms(2) distinct_card [of "mkeys (il_map s)"] by (simp add: listener_inv_def mwf_def)
  ultimately show ?thesis
    using assms(2) by (simp add: evict_def listener_inv_def)
qed (simp add: evict_def)

text \<open>The endpoint has been given \<open>n\<close> numbers, and is still known.\<close>

definition numbered :: "u64 set \<Rightarrow> u64 \<Rightarrow> iface_listener \<Rightarrow> nat \<Rightarrow> bool" where
  "numbered E e s n \<longleftrightarrow> listener_inv s \<and> \<not> il_closed s \<and> set (mkeys (il_map s)) \<subseteq> E
     \<and> (case map_of (il_map s) e of None \<Rightarrow> n = 0 | Some es \<Rightarrow> es_id es = of_nat n)"

lemma listen_packet:
  assumes "numbered E e s n" "decode data = Ok (Some info)" "few_endpoints ttl E" "pi_Endpoint info \<in> E"
    and step: "listen_step decode ifName ttl (ReadPacket data t1 t2) s = Ok s'"
  shows "pi_Endpoint info = e \<Longrightarrow> numbered E e s' (Suc n)
      \<and> (\<exists>m. messages_of e s' = messages_of e s @ [m] \<and> m_ID m = of_nat (Suc n) \<and> m_Payload m = PBytes data)"
    and "pi_Endpoint info \<noteq> e \<Longrightarrow> numbered E e s' n \<and> messages_of e s' = messages_of e s"
proof -
  let ?g = "getMessageID t1 (pi_Endpoint info) s"
  define m where "m = new_message\<lparr>m_ID := fst ?g, m_Payload := PBytes data, m_PayloadLength := of_nat (length data),
      m_PacketInfo := Some (info\<lparr>pi_IfName := ifName\<rparr>)\<rparr>"
  have open': "\<not> il_closed s" using assms(1) by (simp add: numbered_def)
  have keys: "set (mkeys (il_map (snd ?g))) \<subseteq> E"
    using assms(1,4) by (auto simp: numbered_def dom_map_of_conv_image_fst [symmetric] getMessageID_simps)
  have "listener_inv ((snd ?g)\<lparr>il_out := il_out s @ [m]\<rparr>)"
    using assms(1) getMessageID_inv by (simp add: numbered_def listener_inv_def)
  then have "evict ttl t2 ((snd ?g)\<lparr>il_out := il_out s @ [m]\<rparr>) = (snd ?g)\<lparr>il_out := il_out s @ [m]\<rparr>"
    using keys by (intro few_evict [OF assms(3)]) simp_all
  then have s': "s' = (snd ?g)\<lparr>il_out := il_out s @ [m]\<rparr>"
    using open' assms(2) step by (simp add: listen_step_def Let_def case_prod_unfold getMessageID_simps m_def)
  have inv: "listener_inv s'" "set (mkeys (il_map s')) \<subseteq> E"
    using assms(1) step listen_step_inv keys by (auto simp: numbered_def s')
  have out: "messages_of e s' = messages_of e s @ (if pi_Endpoint info = e then [m] else [])"
    by (simp add: messages_of_def s' m_def GetEndpoint_def)
  have lookup: "map_of (il_map s') = (map_of (il_map s))(pi_Endpoint info \<mapsto> \<lparr>es_id = fst ?g, es_ts = t1\<rparr>)"
    by (simp add: s' getMessageID_simps)
  have closed: "\<not> il_closed s'" using open' by (simp add: s' getMessageID_simps)
  show "numbered E e s' (Suc n)
      \<and> (\<exists>m. messages_of e s' = messages_of e s @ [m] \<and> m_ID m = of_nat (Suc n) \<and> m_Payload m = PBytes data)"
    if "pi_Endpoint info = e"
  proof -
    have "fst ?g = of_nat (Suc n)"
      using assms(1) that by (auto simp: numbered_def getMessageID_simps split: option.splits)
    then show ?thesis
      using that inv closed out lookup by (auto simp: numbered_def m_def)
  qed
  show "numbered E e s' n \<and> messages_of e s' = messages_of e s" if "pi_Endpoint info \<noteq> e"
    using that assms(1) inv closed out lookup by (simp add: numbered_def)
qed

lemma listen_numbers:
  assumes "few_endpoints ttl E"
  shows "ReadError \<notin> set evs \<Longrightarrow> endpoints_of decode evs \<subseteq> E \<Longrightarrow> numbered E e s n \<Longrightarrow> listen_run decode ifName ttl evs s = Ok s' \<Longrightarrow>
     \<exists>ms. messages_of e s' = messages_of e s @ ms \<and> map m_ID ms = map of_nat [Suc n..<Suc n + length ms]
       \<and> map m_Payload ms = map PBytes (packets_of decode e evs)"
proof (induction evs arbitrary: s n)
  case (Cons ev evs)
  obtain s1 where step: "listen_step decode ifName ttl ev s = Ok s1" and run: "listen_run decode ifName ttl evs s1 = Ok s'"
    using Cons.prems(4) by (auto simp: res_simps)
  obtain data t1 t2 where ev: "ev = ReadPacket data t1 t2" using Cons.prems(1) by (cases ev) auto
  have later: "ReadError \<notin> set evs" "endpoints_of decode evs \<subseteq> E"
    using Cons.prems(1,2) by (auto simp: endpoints_of_def)
  show ?case
  proof (cases "decode data")
    case (Ok info')
    then obtain info where info: "decode data = Ok (Some info)"
      using step Cons.prems(3) by (cases info') (auto simp: ev listen_step_def numbered_def)
    have "pi_Endpoint info \<in> E" using Cons.prems(2) info by (simp add: endpoints_of_def ev)
    note packet = listen_packet [OF Cons.prems(3) info assms this step [unfolded ev]]
    show ?thesis
    proof (cases "pi_Endpoint info = e")
      case True
      obtain m where m: "numbered E e s1 (Suc n)" "messages_of e s1 = messages_of e s @ [m]"
        "m_ID m = of_nat (Suc n)" "m_Payload m = PBytes data" using packet(1) [OF True] by blast
      obtain ms where ms: "messages_of e s' = messages_of e s1 @ ms"
        "map m_ID ms = map of_nat [Suc (Suc n)..<Suc (Suc n) + length ms]"
        "map m_Payload ms = map PBytes (packets_of decode e evs)"
        using Cons.IH [OF later m(1) run] by auto
      have "map m_ID (m # ms) = map of_nat [Suc n..<Suc n + length (m # ms)]"
        using m(3) ms(2) by (simp add: upt_conv_Cons del: upt_Suc of_nat_Suc)
      moreover have "packets_of decode e (ev # evs) = data # packets_of decode e evs"
        using True info by (simp add: packets_of_def ev)
      ultimately show ?thesis using m ms by (intro exI [of _ "m # ms"]) simp
    next
      case False
      then have "packets_of decode e (ev # evs) = packets_of decode e evs"
        using info by (simp add: packets_of_def ev)
      then show ?thesis using packet(2) [OF False] Cons.IH [OF later _ run] by auto
    qed
  next
    case (Err x)
    then have "s1 = s" and "packets_of decode e (ev # evs) = packets_of decode e evs"
      using step Cons.prems(3) by (auto simp: ev listen_step_def packets_of_def numbered_def)
    then show ?thesis using Cons.IH [OF later Cons.prems(3)] run by auto
  next
    case Panic
    then show ?thesis using step Cons.prems(3) by (simp add: ev listen_step_def numbered_def)
  qed
qed (simp add: packets_of_def)

lemma listen_numbered:
  assumes "ttl \<le> 0 \<or> card (endpoints_of decode evs) < 100" "ReadError \<notin> set evs"
    and "listen_run decode ifName ttl evs listener_new = Ok s"
  shows "map m_ID (messages_of e s) = map of_nat [1..<1 + length (messages_of e s)]
     \<and> map m_Payload (messages_of e s) = map PBytes (packets_of decode e evs)"
proof -
  let ?E = "endpoints_of decode evs"
  have few: "few_endpoints ttl ?E" using assms(1) by (auto simp: few_endpoints_def endpoints_of_def)
  have "numbered ?E e listener_new 0"
    using listener_inv_new by (simp add: numbered_def) (simp add: listener_new_def)
  from listen_numbers [OF few assms(2) order.refl this assms(3)] show ?thesis
    by (auto simp: messages_of_def listener_new_def simp del: upt_Suc)
qed

text \<open>What a message of the listener looks like.\<close>

definition listened :: "(bytes \<Rightarrow> (gerror, packet_info option) res) \<Rightarrow> message \<Rightarrow> bool" where
  "listened decode m \<longleftrightarrow> (\<exists>i data info info'. m = new_message\<lparr>m_ID := i, m_Payload := PBytes data,
       m_PayloadLength := of_nat (length data), m_PacketInfo := Some info'\<rparr>
     \<and> decode data = Ok (Some info) \<and> pi_Endpoint info' = pi_Endpoint info)"

lemma listen_step_listened:
  assumes "listen_step decode ifName ttl ev s = Ok s'" "\<forall>m\<in>set (il_out s). listened decode m"
  shows "\<forall>m\<in>set (il_out s'). listened decode m"
proof (cases "\<exists>data t1 t2 info. \<not> il_closed s \<and> ev = ReadPacket data t1 t2 \<and> decode data = Ok (Some info)")
  case True
  then obtain data t1 t2 info where ev: "\<not> il_closed s" "ev = ReadPacket data t1 t2" "decode data = Ok (Some info)" by blast
  then obtain i where "il_out s' = il_out s @ [new_message\<lparr>m_ID := i, m_Payload := PBytes data,
      m_PayloadLength := of_nat (length data), m_PacketInfo := Some (info\<lparr>pi_IfName := ifName\<rparr>)\<rparr>]"
    using assms(1) by (auto simp: listen_step_def Let_def case_prod_unfold getMessageID_simps)
  moreover have "listened decode (new_message\<lparr>m_ID := i, m_Payload := PBytes data,
      m_PayloadLength := of_nat (length data), m_PacketInfo := Some (info\<lparr>pi_IfName := ifName\<rparr>)\<rparr>)"
    unfolding listened_def using ev(3) by (intro exI conjI) (rule refl, assumption, simp)
  ultimately show ?thesis using assms(2) by simp
next
  case False
  then have "il_out s' = il_out s"
    using assms(1) by (auto simp: listen_step_def split: if_splits iface_read.splits res.splits option.splits)
  then show ?thesis using assms(2) by simp
qed

lemma listen_run_listened:
  "listen_run decode ifName ttl evs s = Ok s' \<Longrightarrow> \<forall>m\<in>set (il_out s). listened decode m
     \<Longrightarrow> \<forall>m\<in>set (il_out s'). listened decode m"
  by (induction evs arbitrary: s) (auto simp: res_simps dest: listen_step_listened)

text \<open>
  C28. As long as endpoints are not forgotten (no time to live is configured, or fewer than a
  hundred endpoints are in use), the messages of an endpoint carry its packets in the order they
  were read, numbered 1, 2, 3 and so on (in 32 bits), whatever is read for other endpoints in
  between.
\<close>

theorem sequence_numbers_consecutive:
  assumes "ttl \<le> 0 \<or> card (endpoints_of decode evs) < 100" "ReadError \<notin> set evs"
    and "listen_run decode ifName ttl evs listener_new = Ok s"
  shows "map m_ID (messages_of e s) = map of_nat [1..<1 + length (messages_of e s)]
     \<and> map m_Payload (messages_of e s) = map PBytes (packets_of decode e evs)"
  using listen_numbered [OF assms] .

theorem sequence_numbers_consecutive_witness:
  "\<exists>s. listen_run sample_decode ''tun0'' 0 [ReadPacket [1] 10 10, ReadPacket [2] 11 11, ReadPacket [1, 7] 12 12] listener_new = Ok s
     \<and> map m_ID (messages_of 1 s) = map of_nat [1..<1 + length (messages_of 1 s)]
     \<and> map m_Payload (messages_of 1 s) = map PBytes (packets_of sample_decode 1
         [ReadPacket [1] 10 10, ReadPacket [2] 11 11, ReadPacket [1, 7] 12 12])"
proof -
  let ?evs = "[ReadPacket [1] 10 10, ReadPacket [2] 11 11, ReadPacket [1, 7] 12 12]"
  have "\<exists>s. listen_run sample_decode ''tun0'' 0 ?evs listener_new = Ok s"
    by (simp add: listen_step_def sample_decode_def getMessageID_def evict_def listener_new_def pool_get_def Let_def)
  then obtain s where s: "listen_run sample_decode ''tun0'' 0 ?evs listener_new = Ok s" ..
  have e: "ReadError \<notin> set ?evs" by simp
  have t: "(0::int) \<le> 0 \<or> card (endpoints_of sample_decode ?evs) < 100" by simp
  show ?thesis using s sequence_numbers_consecutive [OF t e s, of 1] by blast
qed

end
