(* ===== verification/NetServer.thy ===== *)
theory NetServer
  imports NetClient
begin

text \<open>
  The two network servers (\<open>adapter/server\<close>): \<open>V1\<close> on the sockets of the standard library and
  \<open>V2\<close> on the event loop of gnet. Sending, the UDP receiver of \<open>V1\<close> with its table of
  sessions, and the traffic handler of \<open>V2\<close>. The TCP receiver of \<open>V1\<close> is
  \<open>server_receiverTCP\<close>.
\<close>

section \<open>The table of sessions of a UDP socket\<close>

text \<open>
  The retransmission and the accumulator of each session seen on a socket, and the counters
  that decide when the dropped sessions are removed. The set of dropped sessions belongs to
  the server, shared by all its sockets; it is a part of the application state.
\<close>

record udp_control =
  uc_control :: "(u32, nat \<times> nat) gomap"
  uc_curSessionsCount :: int
  uc_maxSessionsCount :: int

definition control_new :: "int \<Rightarrow> udp_control" where
  "control_new maxSessions = \<lparr>uc_control = [], uc_curSessionsCount = 0, uc_maxSessionsCount = maxSessions\<rparr>"

record 's server_env =
  se_env :: "'s receiver_env"
  se_dropped :: "'s \<Rightarrow> u32 list"
  se_set_dropped :: "u32 list \<Rightarrow> 's \<Rightarrow> 's"

definition server_DropSession :: "'s server_env \<Rightarrow> u32 \<Rightarrow> 's \<Rightarrow> 's" where
  "server_DropSession env sid s = se_set_dropped env (List.insert sid (se_dropped env s)) s"

definition attach_control :: "message \<Rightarrow> connection \<Rightarrow> udp_control \<Rightarrow> net_store \<Rightarrow> connection \<times> udp_control \<times> net_store" where
  "attach_control m conn ctl ns =
     (if m_SessionID m = 0 then (conn, ctl, ns)
      else case map_of (uc_control ctl) (m_SessionID m) of
        None \<Rightarrow>
          (case retryFactory ns of (r, ns1) \<Rightarrow>
           case ackFactory (m_SessionID m) ns1 of (a, ns2) \<Rightarrow>
             (conn\<lparr>c_Retry := Some r, c_Ack := Some a\<rparr>,
              ctl\<lparr>uc_control := mput (m_SessionID m) (r, a) (uc_control ctl),
                  uc_curSessionsCount := uc_curSessionsCount ctl + 1\<rparr>, ns2))
      | Some (r, a) \<Rightarrow> (conn\<lparr>c_Retry := Some r, c_Ack := Some a\<rparr>, ctl, ns))"

definition control_cleanup :: "'s server_env \<Rightarrow> udp_control \<Rightarrow> 's \<Rightarrow> udp_control \<times> 's" where
  "control_cleanup env ctl s =
     (if uc_curSessionsCount ctl > uc_maxSessionsCount ctl then
        (let ctl1 = ctl\<lparr>uc_control := fold mdel (se_dropped env s) (uc_control ctl),
                        uc_curSessionsCount := uc_curSessionsCount ctl - int (length (se_dropped env s))\<rparr>;
             ctl2 = (if uc_curSessionsCount ctl1 > uc_maxSessionsCount ctl1
                     then ctl1\<lparr>uc_maxSessionsCount := uc_maxSessionsCount ctl1 + 1\<rparr> else ctl1)
         in (ctl2, se_set_dropped env [] s))
      else (ctl, s))"

section \<open>\<open>V1\<close>\<close>

definition v1_sendTCP :: "transport \<Rightarrow> draws \<Rightarrow> wr list \<Rightarrow> message \<Rightarrow> encryptor option \<Rightarrow> sending" where
  "v1_sendTCP t d ws m user =
     (case seal t False False user (dr_fake d) (dr_rnd1 d) (dr_rnd2 d) m of
        Ok data \<Rightarrow> write_all data ws
      | Err e \<Rightarrow> Some ([], Err e)
      | Panic \<Rightarrow> Some ([], Panic))"

text \<open>The datagrams of \<open>V1\<close>: its \<open>sendUDP\<close> and \<open>send\<close> do what those of the client do.\<close>

definition v1_send :: "bytes \<Rightarrow> wr list \<Rightarrow> sending" where
  "v1_send data ws = send_data data ws"

definition v1_sendUDP :: "transport \<Rightarrow> draws \<Rightarrow> wr list \<Rightarrow> int \<Rightarrow> message \<Rightarrow> encryptor option \<Rightarrow> nat option
    \<Rightarrow> net_store \<Rightarrow> (bytes \<times> (gerror, unit) res \<times> net_store) option" where
  [simp]: "v1_sendUDP t d ws now m user retry ns = send_udp t d ws now m user retry ns"

definition v1_Send :: "transport \<Rightarrow> 's receiver_env \<Rightarrow> draws \<Rightarrow> wr list \<Rightarrow> int \<Rightarrow> message \<Rightarrow> connection \<Rightarrow> 's
    \<Rightarrow> net_store \<Rightarrow> (bytes \<times> (gerror, unit) res \<times> net_store) option" where
  "v1_Send t env d ws now m conn s ns =
     (case (if IsUserData m then re_enc env conn s else Ok None) of
        Err e \<Rightarrow> Some ([], Err e, ns)
      | Panic \<Rightarrow> Some ([], Panic, ns)
      | Ok user \<Rightarrow>
          if c_TCPConn conn \<noteq> None
          then map_option (\<lambda>(out, r). (out, r, ns)) (v1_sendTCP t d ws m user)
          else v1_sendUDP t d ws now m user (c_Retry conn) ns)"

definition v1_sendKeepalive :: "transport \<Rightarrow> draws \<Rightarrow> wr list \<Rightarrow> connection \<Rightarrow> bool \<Rightarrow> sending" where
  "v1_sendKeepalive t d ws conn ack = send_keepalive t d ws conn ack"

text \<open>
  An opened message: the instances of its session are looked up or made, and after the
  receiver has been called dropped sessions are removed.
\<close>

definition v1_deliver :: "'s server_env \<Rightarrow> int \<Rightarrow> bool \<Rightarrow> message \<Rightarrow> connection
    \<Rightarrow> udp_control \<times> net_store \<times> 's \<Rightarrow> step_end \<times> udp_control \<times> net_store \<times> 's" where
  "v1_deliver env now pending m1 conn0 st =
     (case st of (ctl0, ns0, s) \<Rightarrow>
      case attach_control m1 conn0 ctl0 ns0 of (conn, ctl, ns) \<Rightarrow>
      if m_Type m1 = MessageTypeKeepalive then
        (case dispatch_keepalive now pending m1 conn ns s of (e, _, ns1, s1) \<Rightarrow> (e, ctl, ns1, s1))
      else
        (case dispatch (se_env env) now pending m1 conn ns s of
           (SReceived, _, ns1, s1) \<Rightarrow>
             (case control_cleanup env ctl s1 of (ctl1, s2) \<Rightarrow> (SReceived, ctl1, ns1, s2))
         | (e, _, ns1, s1) \<Rightarrow> (e, ctl, ns1, s1)))"

text \<open>
  One datagram at a socket. A datagram whose header does not open disconnects the peer it
  came from; the connection of a datagram is made anew for each of them.
\<close>

definition v1_udp_step :: "transport \<Rightarrow> 's server_env \<Rightarrow> socket \<Rightarrow> u16 \<Rightarrow> int \<Rightarrow> bool \<Rightarrow> datagram
    \<Rightarrow> udp_control \<times> net_store \<times> 's \<Rightarrow> step_end \<times> udp_control \<times> net_store \<times> 's" where
  "v1_udp_step t env so port now pending ev st =
     (case st of (ctl, ns, s) \<Rightarrow>
      case ev of
        DGErr e \<Rightarrow> (if IsErrorInterruptingNetwork e then SReturn else SNext, ctl, ns, s)
      | DGram bs addr \<Rightarrow>
          (let conn = new_connection\<lparr>c_UDPConn := Some so, c_Addr := addr, c_Port := port, c_Proto := ProtoUDP\<rparr>
           in case open_datagram t bs of
             DShort \<Rightarrow> (SNext, ctl, ns, s)
           | DBadLength \<Rightarrow> (SNext, ctl, ns, s)
           | DHeaderPanic \<Rightarrow> (SCrash, ctl, ns, s)
           | DBadHeader e \<Rightarrow> (SNext, ctl, ns, re_disconnect (se_env env) conn (Some e) s)
           | DMsg m n \<Rightarrow>
               (let s = re_stat (se_env env) (m_SessionID m) (int n) s;
                    conn = conn\<lparr>c_SessionID := m_SessionID m\<rparr>
                in case verdict_of t (se_env env) conn s m of
                  VStop \<Rightarrow> (SNext, ctl, ns, s)
                | VSkip \<Rightarrow> (SNext, ctl, ns, s)
                | VPanic \<Rightarrow> (SCrash, ctl, ns, s)
                | VDeliver m1 \<Rightarrow>
                    v1_deliver env now pending m1 conn (ctl, ns, s))))"

fun v1_udp_loop :: "transport \<Rightarrow> 's server_env \<Rightarrow> socket \<Rightarrow> u16 \<Rightarrow> (datagram \<times> int \<times> bool) list
    \<Rightarrow> udp_control \<times> net_store \<times> 's \<Rightarrow> recv_end \<times> udp_control \<times> net_store \<times> 's" where
  "v1_udp_loop t env so port [] st = (RBlocked, st)"
| "v1_udp_loop t env so port ((ev, now, pending) # evs) st =
     (case v1_udp_step t env so port now pending ev st of
        (SCrash, st1) \<Rightarrow> (RPanicked, st1)
      | (SReturn, st1) \<Rightarrow> (RFinished, st1)
      | (_, st1) \<Rightarrow> v1_udp_loop t env so port evs st1)"

definition v1_receiverUDP :: "transport \<Rightarrow> 's server_env \<Rightarrow> int \<Rightarrow> socket \<Rightarrow> net_store \<Rightarrow> 's
    \<Rightarrow> (datagram \<times> int \<times> bool) list \<Rightarrow> recv_end \<times> udp_control \<times> net_store \<times> 's" where
  "v1_receiverUDP t env maxSessions so ns s evs =
     (case so_LocalAddr so of
        UDPAddr ip port \<Rightarrow> v1_udp_loop t env so (word_of_int port) evs (control_new maxSessions, ns, s)
      | _ \<Rightarrow> (RPanicked, control_new maxSessions, ns, s))"

section \<open>\<open>V2\<close>\<close>

text \<open>
  The connection of gnet is a parameter: peeking at the first bytes of its inbound buffer,
  dropping them, and their number. \<open>Discard\<close> answers an error that is only logged.
\<close>

record 'c gnet =
  gn_Peek :: "int \<Rightarrow> 'c \<Rightarrow> (gerror, bytes) res"
  gn_Discard :: "int \<Rightarrow> 'c \<Rightarrow> 'c"
  gn_InboundBuffered :: "'c \<Rightarrow> int"

datatype gaction = GNone | GClose

datatype traffic_end = TBreak | TReturn gaction | TPanic | TFuel

definition v2_port :: "u8 \<Rightarrow> socket \<Rightarrow> u16 option" where
  \<comment> \<open>the type assertion on the local address\<close>
  "v2_port proto so =
     (if proto = ProtoTCP then (case so_LocalAddr so of TCPAddr ip port \<Rightarrow> Some (word_of_int port) | _ \<Rightarrow> None)
      else (case so_LocalAddr so of UDPAddr ip port \<Rightarrow> Some (word_of_int port) | _ \<Rightarrow> None))"

text \<open>What is peeked: nothing yet, an end of the handler, or a message with its length.\<close>

datatype peeked = PkBreak | PkReturn gaction | PkPanic | PkFrame message int

definition peek_frame :: "'c gnet \<Rightarrow> transport \<Rightarrow> 'c \<Rightarrow> peeked" where
  "peek_frame g t c =
     (case gn_Peek g (int (headerLength t)) c of
        Panic \<Rightarrow> PkPanic
      | Err e \<Rightarrow> if e = ErrShortBuffer then PkBreak
                else if IsErrorInterruptingNetwork e then PkReturn GClose else PkBreak
      | Ok header \<Rightarrow>
          if length header < headerLength t then PkBreak
          else case open_header t header of
            Panic \<Rightarrow> PkPanic
          | Err _ \<Rightarrow> PkReturn GClose
          | Ok m \<Rightarrow>
              if m_PayloadLength m > 0 then
                (let packetLength = int (headerLength t) + int (unat (m_PayloadLength m))
                 in if gn_InboundBuffered g c < packetLength then PkBreak
                    else case gn_Peek g packetLength c of
                      Panic \<Rightarrow> PkPanic
                    | Err e \<Rightarrow> if e = ErrShortBuffer then PkBreak else if e = EOF then PkReturn GNone else PkBreak
                    | Ok buf \<Rightarrow> PkFrame (m\<lparr>m_Payload := PBytes (drop (headerLength t) buf)\<rparr>) packetLength)
              else PkFrame m (int (headerLength t)))"

text \<open>One pass of the loop of \<open>OnTraffic\<close>; \<open>Inl\<close> ends the loop.\<close>

definition on_traffic_step :: "'c gnet \<Rightarrow> transport \<Rightarrow> 's server_env \<Rightarrow> u8 \<Rightarrow> socket \<Rightarrow> int \<Rightarrow> bool
    \<Rightarrow> 'c \<times> udp_control \<times> net_store \<times> 's \<Rightarrow> traffic_end option \<times> 'c \<times> udp_control \<times> net_store \<times> 's" where
  "on_traffic_step g t env proto so now pending st =
     (case st of (c, ctl, ns, s) \<Rightarrow>
      case peek_frame g t c of
        PkBreak \<Rightarrow> (Some TBreak, st)
      | PkReturn a \<Rightarrow> (Some (TReturn a), st)
      | PkPanic \<Rightarrow> (Some TPanic, st)
      | PkFrame m packetLength \<Rightarrow>
          (let c = gn_Discard g packetLength c;
               s = re_stat (se_env env) (m_SessionID m) (int (headerLength t) + int (unat (m_PayloadLength m))) s
           in case v2_port proto so of
             None \<Rightarrow> (Some TPanic, c, ctl, ns, s)
           | Some port \<Rightarrow>
               (let conn = new_connection\<lparr>c_GNetConn := Some so, c_Addr := so_RemoteAddr so, c_Port := port,
                             c_Proto := proto, c_SessionID := m_SessionID m\<rparr>
                in case verdict_of t (se_env env) conn s m of
                  VStop \<Rightarrow> (Some (TReturn GClose), c, ctl, ns, s)
                | VSkip \<Rightarrow> (Some TBreak, c, ctl, ns, s)
                | VPanic \<Rightarrow> (Some TPanic, c, ctl, ns, s)
                | VDeliver m1 \<Rightarrow>
                    if proto = ProtoUDP then
                      (case attach_control m1 conn ctl ns of (conn, ctl, ns) \<Rightarrow>
                       case (if m_Type m1 = MessageTypeKeepalive then dispatch_keepalive now pending m1 conn ns s
                             else dispatch (se_env env) now pending m1 conn ns s) of
                         (SNext, _, ns1, s1) \<Rightarrow> (Some TBreak, c, ctl, ns1, s1)
                       | (SReceived, _, ns1, s1) \<Rightarrow> (None, c, ctl, ns1, s1)
                       | (SReturn, _, ns1, s1) \<Rightarrow> (Some (TReturn GClose), c, ctl, ns1, s1)
                       | (SCrash, _, ns1, s1) \<Rightarrow> (Some TPanic, c, ctl, ns1, s1))
                    else
                      (case re_receiver (se_env env) m1 conn s of
                         (Ok _, _, s1) \<Rightarrow> (None, c, ctl, ns, s1)
                       | (Err _, _, s1) \<Rightarrow>
                           (if m_Type m1 \<noteq> MessageTypeData then Some (TReturn GClose) else None, c, ctl, ns, s1)
                       | (Panic, _, s1) \<Rightarrow> (Some TPanic, c, ctl, ns, s1)))))"

fun on_traffic_loop :: "nat \<Rightarrow> 'c gnet \<Rightarrow> transport \<Rightarrow> 's server_env \<Rightarrow> u8 \<Rightarrow> socket \<Rightarrow> int \<Rightarrow> bool
    \<Rightarrow> 'c \<times> udp_control \<times> net_store \<times> 's \<Rightarrow> traffic_end \<times> 'c \<times> udp_control \<times> net_store \<times> 's" where
  "on_traffic_loop 0 g t env proto so now pending st = (TFuel, st)"
| "on_traffic_loop (Suc n) g t env proto so now pending st =
     (case on_traffic_step g t env proto so now pending st of
        (None, st1) \<Rightarrow> on_traffic_loop n g t env proto so now pending st1
      | (Some e, st1) \<Rightarrow> (e, st1))"

text \<open>Behind the loop the handler removes the dropped sessions, of UDP connections.\<close>

definition traffic_cleanup :: "u8 \<Rightarrow> 's server_env \<Rightarrow> udp_control \<Rightarrow> 's \<Rightarrow> udp_control \<times> 's" where
  [simp]: "traffic_cleanup proto env ctl s = (if proto = ProtoUDP then control_cleanup env ctl s else (ctl, s))"

definition OnTraffic :: "nat \<Rightarrow> 'c gnet \<Rightarrow> transport \<Rightarrow> 's server_env \<Rightarrow> u8 \<Rightarrow> socket \<Rightarrow> int \<Rightarrow> bool
    \<Rightarrow> 'c \<times> udp_control \<times> net_store \<times> 's \<Rightarrow> traffic_end \<times> 'c \<times> udp_control \<times> net_store \<times> 's" where
  "OnTraffic fuel g t env proto so now pending st =
     (case on_traffic_loop fuel g t env proto so now pending st of
        (TBreak, c, ctl, ns, s) \<Rightarrow>
          (case traffic_cleanup proto env ctl s of (ctl1, s1) \<Rightarrow> (TReturn GNone, c, ctl1, ns, s1))
      | r \<Rightarrow> r)"

text \<open>The connection of a closed socket carries no session.\<close>

definition OnClose :: "'s server_env \<Rightarrow> u8 \<Rightarrow> u16 \<Rightarrow> socket \<Rightarrow> gerror option \<Rightarrow> 's \<Rightarrow> gaction \<times> 's" where
  "OnClose env proto port so err s =
     (GClose, re_disconnect (se_env env) (new_connection\<lparr>c_GNetConn := Some so, c_Addr := so_RemoteAddr so,
        c_Proto := proto, c_Port := port\<rparr>) err s)"

text \<open>
  \<open>Send\<close> does not register user data for retransmission; \<open>sendUDP\<close>, which the accumulators
  are made with, would.
\<close>

definition v2_send :: "bytes \<Rightarrow> wr list \<Rightarrow> sending" where
  [simp]: "v2_send data ws = send_data data ws"

definition v2_Send :: "transport \<Rightarrow> 's receiver_env \<Rightarrow> draws \<Rightarrow> wr list \<Rightarrow> message \<Rightarrow> connection \<Rightarrow> 's \<Rightarrow> sending" where
  "v2_Send t env d ws m conn s =
     (case (if IsUserData m then re_enc env conn s else Ok None) of
        Err e \<Rightarrow> Some ([], Err e)
      | Panic \<Rightarrow> Some ([], Panic)
      | Ok user \<Rightarrow>
          (case seal t False False user (dr_fake d) (dr_rnd1 d) (dr_rnd2 d) m of
             Ok data \<Rightarrow> v2_send data ws
           | Err e \<Rightarrow> Some ([], Err e)
           | Panic \<Rightarrow> Some ([], Panic)))"

definition v2_sendUDP :: "transport \<Rightarrow> draws \<Rightarrow> wr list \<Rightarrow> int \<Rightarrow> message \<Rightarrow> encryptor option \<Rightarrow> nat option
    \<Rightarrow> net_store \<Rightarrow> (bytes \<times> (gerror, unit) res \<times> net_store) option" where
  "v2_sendUDP t d ws now m user retry ns = send_udp t d ws now m user retry ns"

definition v2_sendKeepalive :: "transport \<Rightarrow> draws \<Rightarrow> wr list \<Rightarrow> connection \<Rightarrow> bool \<Rightarrow> sending" where
  "v2_sendKeepalive t d ws conn ack = send_keepalive t d ws conn ack"

section \<open>TCP streams between the client and \<open>V1\<close>\<close>

lemma res_unit: "(r :: (gerror, unit) res) = Ok () \<or> (\<exists>e. r = Err e) \<or> r = Panic"
  by (cases r) auto

lemma user_choice:
  assumes "re_enc env conn s = Ok (Some u)"
  shows "(if IsUserData m then re_enc env conn s else Ok None) = Ok (user_encryptor u m)"
  using assms by (simp add: user_encryptor_def)

lemma client_SendAsync_tcp:
  assumes "c_TCPConn conn \<noteq> None" "re_enc env conn s = Ok (Some u)"
    and "transport_ok k t u" "draws_ok k d" "proper t decode m" "IsPayload m"
    and "client_SendAsync t env d ws now m conn s ns = Some (out, Ok (), ns1)"
  shows "good_frame t decode u m out"
proof -
  obtain data where data: "seal t True False (user_encryptor u m) (dr_fake d) (dr_rnd1 d) (dr_rnd2 d) m = Ok data"
    "good_frame t decode u m data"
    using seal_proper [OF assms(3-5), of True False] assms(6) by blast
  have "write_all data ws = Some (out, Ok ())"
    using assms(1,7) data(1) user_choice [OF assms(2), of m] by (auto simp: client_SendAsync_def sendAsyncTCP_def)
  then show ?thesis using write_all_Ok data(2) by blast
qed

lemma v1_Send_tcp:
  assumes "c_TCPConn conn \<noteq> None" "re_enc env conn s = Ok (Some u)"
    and "transport_ok k t u" "draws_ok k d" "proper t decode m"
    and "v1_Send t env d ws now m conn s ns = Some (out, Ok (), ns1)"
  shows "good_frame t decode u m out"
proof -
  obtain data where data: "seal t False False (user_encryptor u m) (dr_fake d) (dr_rnd1 d) (dr_rnd2 d) m = Ok data"
    "good_frame t decode u m data"
    using seal_proper [OF assms(3-5), of False False] by blast
  have "write_all data ws = Some (out, Ok ())"
    using assms(1,6) data(1) user_choice [OF assms(2), of m] by (auto simp: v1_Send_def v1_sendTCP_def)
  then show ?thesis using write_all_Ok data(2) by blast
qed

text \<open>A call of a sender: the message, what is drawn, how the writes go, and the time.\<close>

type_synonym send_call = "message \<times> draws \<times> wr list \<times> int"

definition client_sent :: "transport \<Rightarrow> 'a receiver_env \<Rightarrow> connection \<Rightarrow> 'a \<Rightarrow> net_store \<Rightarrow> send_call \<Rightarrow> bytes \<Rightarrow> bool" where
  "client_sent t env conn s ns call out \<longleftrightarrow>
     (case call of (m, d, ws, now) \<Rightarrow> client_SendAsync t env d ws now m conn s ns = Some (out, Ok (), ns))"

definition v1_sent :: "transport \<Rightarrow> 'a receiver_env \<Rightarrow> connection \<Rightarrow> 'a \<Rightarrow> net_store \<Rightarrow> send_call \<Rightarrow> bytes \<Rightarrow> bool" where
  "v1_sent t env conn s ns call out \<longleftrightarrow>
     (case call of (m, d, ws, now) \<Rightarrow> v1_Send t env d ws now m conn s ns = Some (out, Ok (), ns))"

definition proper_call :: "nat \<Rightarrow> transport \<Rightarrow> packet_decoder \<Rightarrow> send_call \<Rightarrow> bool" where
  "proper_call k t decode call \<longleftrightarrow> (case call of (m, d, ws, now) \<Rightarrow> proper t decode m \<and> draws_ok k d)"

lemma client_stream_frames:
  assumes "c_TCPConn conn \<noteq> None" "re_enc env conn s = Ok (Some u)" "transport_ok k t u"
  shows "list_all2 (client_sent t env conn s ns) calls outs \<Longrightarrow>
    \<forall>call\<in>set calls. proper_call k t decode call \<and> IsPayload (fst call) \<Longrightarrow>
    list_all2 (good_frame t decode u) (map fst calls) outs"
proof (induction calls outs rule: list_all2_induct)
  case (Cons call calls out outs)
  obtain m d ws now where call: "call = (m, d, ws, now)" by (cases call)
  have "good_frame t decode u m out"
    using Cons.hyps Cons.prems client_SendAsync_tcp [OF assms, of d decode m ws now ns out ns]
    by (simp add: call client_sent_def proper_call_def)
  then show ?case using Cons call by simp
qed simp

lemma v1_stream_frames:
  assumes "c_TCPConn conn \<noteq> None" "re_enc env conn s = Ok (Some u)" "transport_ok k t u"
  shows "list_all2 (v1_sent t env conn s ns) calls outs \<Longrightarrow> \<forall>call\<in>set calls. proper_call k t decode call \<Longrightarrow>
    list_all2 (good_frame t decode u) (map fst calls) outs"
proof (induction calls outs rule: list_all2_induct)
  case (Cons call calls out outs)
  obtain m d ws now where call: "call = (m, d, ws, now)" by (cases call)
  have "good_frame t decode u m out"
    using Cons.hyps Cons.prems v1_Send_tcp [OF assms, of d decode m ws now ns out ns]
    by (simp add: call v1_sent_def proper_call_def)
  then show ?case using Cons call by simp
qed simp

text \<open>A transport without encryption and an application that collects messages, for examples.\<close>

definition sample_transport :: transport where
  "sample_transport = \<lparr>tr_codec = NewTapirCodec plain_lib 1400 False (\<lambda>n. n), tr_enc = NewEmpty [], tr_MTU = 1400\<rparr>"

definition sample_env :: "message list receiver_env" where
  "sample_env = \<lparr>re_enc = (\<lambda>_ _. Ok (Some (NewEmpty []))), re_decode = (\<lambda>_. Ok (Some new_packet_info)),
     re_receiver = (\<lambda>m c s. (Ok (), c, s @ [m])), re_stat = (\<lambda>_ _ s. s), re_disconnect = (\<lambda>_ _ s. s)\<rparr>"

definition sample_data :: message where
  "sample_data = new_message\<lparr>m_Type := MessageTypeData, m_ID := 7, m_SessionID := 9, m_Payload := PBytes [0x45, 1, 2]\<rparr>"

definition sample_draws :: draws where
  "sample_draws = \<lparr>dr_fake = (\<lambda>_. 0), dr_rnd1 = Ok [], dr_rnd2 = Ok []\<rparr>"

definition sample_frame :: bytes where
  "sample_frame = [3, 0, 0, 0, 0, 7, 0, 0, 0, 9, 0, 3, 0x45, 1, 2]"

definition sample_socket :: socket where
  "sample_socket = \<lparr>so_LocalAddr = UDPAddr [10, 0, 0, 1] 1977, so_RemoteAddr = UDPAddr [10, 0, 0, 2] 4000\<rparr>"

lemma sample_transport_ok: "transport_ok 0 sample_transport (NewEmpty [])"
  by (simp add: transport_ok_def sample_transport_def empty.encryptor_laws_axioms tapir_ok_def NewTapirCodec_def
      new_compressor_def compress_law_def plain_lib_def) (simp add: NewEmpty_def empty_GetLength_def)

lemma sample_accepting: "accepting sample_env (NewEmpty []) (\<lambda>_ _. True)"
  by (simp add: accepting_def sample_env_def)

lemma sample_headerLength: "headerLength sample_transport = 12"
  by (simp add: headerLength_def sample_transport_def NewEmpty_def empty_GetLength_def)

lemma sample_buffer_size: "buffer_size sample_transport = 1412"
  by (simp add: buffer_size_def sample_headerLength) (simp add: sample_transport_def NewEmpty_def empty_GetLength_def)

lemma sample_proper: "proper sample_transport (re_decode sample_env) sample_data"
  by (simp add: proper_def sendable_def wire_ok_def wire_payload_def sample_data_def new_message_def MessageType_Valid_def
      sample_transport_def NewTapirCodec_def new_compressor_def plain_lib_def sample_env_def IsPayload_def)

lemma sample_seal: "seal sample_transport force pf (user_encryptor (NewEmpty []) sample_data) f r1 r2 sample_data = Ok sample_frame"
  by (simp add: seal_def seal_payload_def Marshal_def marshal_payload_def marshal_header_def compress_payload_def be32_def be16_def
      sample_data_def new_message_def sample_transport_def NewTapirCodec_def sample_frame_def user_encryptor_def NewEmpty_def
      empty_Encrypt_def empty_GetLength_def IsUserData_def)

text \<open>
  C13. Over TCP, the messages that the client has sent on a connection are handed by the
  server's receiver to the application, each of them once and in the order they were sent,
  however the network cuts the stream into pieces and with whatever encryption that obeys
  the contract; the bytes it counts are those of the payloads.
\<close>

theorem client_stream_reaches_server:
  assumes "transport_ok k t u" "c_TCPConn conn \<noteq> None" "re_enc cenv conn cs = Ok (Some u)"
    and "list_all2 (client_sent t cenv conn cs ns) calls outs"
    and "\<forall>call\<in>set calls. proper_call k t (re_decode env) call \<and> IsPayload (fst call)"
    and "no_errors es" "sock_bytes es = concat outs" "length calls < n"
    and "accepting env u P"
    and "P (new_connection\<lparr>c_TCPConn := Some so, c_Addr := so_RemoteAddr so, c_Port := port, c_Proto := ProtoTCP\<rparr>) s"
  shows "\<exists>rs. all_received (re_decode env) (headerLength t) (map fst calls) outs rs
     \<and> server_receiverTCP n t env so port s es =
         (RBlocked, handle_all env rs (new_connection\<lparr>c_TCPConn := Some so, c_Addr := so_RemoteAddr so,
            c_Port := port, c_Proto := ProtoTCP\<rparr>) s)"
proof -
  have pos: "0 < headerLength t" using headerLength_pos [OF assms(1)] by simp
  have len: "length (map fst calls) < n" using assms(8) by simp
  note frames = client_stream_frames [OF assms(2,3,1,4,5)]
  show ?thesis
    using server_loop_stream [OF assms(9) pos frames assms(6,7) len assms(10)] by (auto simp: server_receiverTCP_def)
qed

lemma sample_sent:
  "client_sent sample_transport sample_env (new_connection\<lparr>c_TCPConn := Some sample_socket\<rparr>) [] ns
     (sample_data, sample_draws, [Wrote 4, Wrote 11], 0) sample_frame"
proof -
  have w: "write_all sample_frame [Wrote 4, Wrote 11] = Some (sample_frame, Ok ())"
    by (simp add: write_all.simps sample_frame_def)
  have "re_enc sample_env (new_connection\<lparr>c_TCPConn := Some sample_socket\<rparr>) [] = Ok (Some (NewEmpty []))"
    by (simp add: sample_env_def)
  note choice = user_choice [OF this, of sample_data]
  show ?thesis
    unfolding client_sent_def client_SendAsync_def prod.case choice
    by (simp add: sendAsyncTCP_def sample_seal w)
qed

theorem client_stream_reaches_server_witness:
  "\<exists>rs. all_received (re_decode sample_env) 12 [sample_data] [sample_frame] rs
     \<and> server_receiverTCP 5 sample_transport sample_env sample_socket 1977 []
         [Data (take 5 sample_frame), Data (drop 5 sample_frame)] =
         (RBlocked, handle_all sample_env rs (new_connection\<lparr>c_TCPConn := Some sample_socket, c_Addr := so_RemoteAddr sample_socket,
            c_Port := 1977, c_Proto := ProtoTCP\<rparr>) [])"
proof -
  have enc: "re_enc sample_env (new_connection\<lparr>c_TCPConn := Some sample_socket\<rparr>) [] = Ok (Some (NewEmpty []))"
    by (simp add: sample_env_def)
  have good: "\<forall>call\<in>set [(sample_data, sample_draws, [Wrote 4, Wrote 11], 0)].
      proper_call 0 sample_transport (re_decode sample_env) call \<and> IsPayload (fst call)"
    using sample_proper
    by (simp add: proper_call_def draws_ok_def sample_draws_def rand_ok_def) (simp add: sample_data_def new_message_def IsPayload_def)
  have bytes: "no_errors [Data (take 5 sample_frame), Data (drop 5 sample_frame)]"
    "sock_bytes [Data (take 5 sample_frame), Data (drop 5 sample_frame)] = concat [sample_frame]"
    by (simp_all add: no_errors_def)
  show ?thesis
    using client_stream_reaches_server [where n = 5 and port = 1977 and s = "[]" and so = sample_socket,
        OF sample_transport_ok _ enc _ good bytes _ sample_accepting, where ns = undefined] sample_sent
    by (simp add: sample_headerLength)
qed

text \<open>
  The other direction: what the server sends on a TCP connection the client receives,
  once and in order, resets and keepalives included, and it counts every byte.
\<close>

theorem server_stream_reaches_client:
  assumes "transport_ok k t u" "c_TCPConn conn \<noteq> None" "re_enc senv conn ss = Ok (Some u)"
    and "list_all2 (v1_sent t senv conn ss ns) calls outs"
    and "\<forall>call\<in>set calls. proper_call k t (re_decode env) call"
    and "no_errors es" "sock_bytes es = concat outs" "length calls < n"
    and "accepting env u P" "P (c\<lparr>c_SessionID := sid, c_Proto := ProtoTCP\<rparr>) s"
  shows "\<exists>rs. all_received (re_decode env) 0 (map fst calls) outs rs
     \<and> client_ReceiverTCP n t env c sid s es =
         (RBlocked, handle_all env rs (c\<lparr>c_SessionID := sid, c_Proto := ProtoTCP\<rparr>) s)"
proof -
  have pos: "0 < headerLength t" using headerLength_pos [OF assms(1)] by simp
  have len: "length (map fst calls) < n" using assms(8) by simp
  note frames = v1_stream_frames [OF assms(2,3,1,4,5)]
  show ?thesis
    using client_loop_stream [OF assms(9) pos frames assms(6,7) len assms(10)] by (simp add: client_ReceiverTCP_def)
qed

lemma sample_v1_sent:
  "v1_sent sample_transport sample_env (new_connection\<lparr>c_TCPConn := Some sample_socket\<rparr>) [] ns
     (sample_data, sample_draws, [Wrote 15], 0) sample_frame"
proof -
  have w: "write_all sample_frame [Wrote 15] = Some (sample_frame, Ok ())"
    by (simp add: write_all.simps sample_frame_def)
  have "re_enc sample_env (new_connection\<lparr>c_TCPConn := Some sample_socket\<rparr>) [] = Ok (Some (NewEmpty []))"
    by (simp add: sample_env_def)
  note choice = user_choice [OF this, of sample_data]
  show ?thesis
    unfolding v1_sent_def v1_Send_def prod.case choice
    by (simp add: v1_sendTCP_def sample_seal w)
qed

theorem server_stream_reaches_client_witness:
  "\<exists>rs. all_received (re_decode sample_env) 0 [sample_data, sample_data] [sample_frame, sample_frame] rs
     \<and> client_ReceiverTCP 3 sample_transport sample_env new_connection 9 []
         [Data (sample_frame @ take 12 sample_frame), Data (drop 12 sample_frame)] =
         (RBlocked, handle_all sample_env rs (new_connection\<lparr>c_SessionID := 9, c_Proto := ProtoTCP\<rparr>) [])"
proof -
  have enc: "re_enc sample_env (new_connection\<lparr>c_TCPConn := Some sample_socket\<rparr>) [] = Ok (Some (NewEmpty []))"
    by (simp add: sample_env_def)
  have good: "\<forall>call\<in>set [(sample_data, sample_draws, [Wrote 15], 0), (sample_data, sample_draws, [Wrote 15], 0)].
      proper_call 0 sample_transport (re_decode sample_env) call"
    using sample_proper by (simp add: proper_call_def draws_ok_def sample_draws_def rand_ok_def)
  have bytes: "no_errors [Data (sample_frame @ take 12 sample_frame), Data (drop 12 sample_frame)]"
    "sock_bytes [Data (sample_frame @ take 12 sample_frame), Data (drop 12 sample_frame)] = concat [sample_frame, sample_frame]"
    by (simp_all add: no_errors_def)
  show ?thesis
    using server_stream_reaches_client [where n = 3 and s = "[]" and c = new_connection and sid = 9,
        OF sample_transport_ok _ enc _ good bytes _ sample_accepting, where ns = undefined] sample_v1_sent
    by simp
qed

section \<open>Datagrams at \<open>V1\<close>\<close>

text \<open>The connection that \<open>V1\<close> makes for a datagram.\<close>

definition datagram_connection :: "socket \<Rightarrow> net_addr \<Rightarrow> u16 \<Rightarrow> u32 \<Rightarrow> connection" where
  "datagram_connection so addr port sid =
     new_connection\<lparr>c_UDPConn := Some so, c_Addr := addr, c_Port := port, c_Proto := ProtoUDP, c_SessionID := sid\<rparr>"

lemma v1_udp_step_frame:
  assumes "good_frame t (re_decode (se_env env)) u m f" "length f \<le> buffer_size t"
    and "accepting (se_env env) u (\<lambda>_. P)" "P s"
  shows "\<exists>m2. received_as (re_decode (se_env env)) m m2
     \<and> v1_udp_step t env so port now pending (DGram f addr) (ctl, ns, s) =
         v1_deliver env now pending m2 (datagram_connection so addr port (m_SessionID m))
           (ctl, ns, re_stat (se_env env) (m_SessionID m) (int (length f)) s)"
proof -
  let ?conn = "datagram_connection so addr port (m_SessionID m)"
  let ?s = "re_stat (se_env env) (m_SessionID m) (int (length f)) s"
  have enc: "re_enc (se_env env) ?conn ?s = Ok (Some u)"
    using accepting_enc [OF assms(3)] accepting_stat [OF assms(3)] assms(4) by blast
  obtain m1 m2 where m: "open_datagram t f = DMsg m1 (length f)" "m_SessionID m1 = m_SessionID m"
    "verdict_of t (se_env env) ?conn ?s m1 = VDeliver m2" "received_as (re_decode (se_env env)) m m2"
    using good_frame_datagram [OF assms(1,2) enc] by blast
  have "v1_udp_step t env so port now pending (DGram f addr) (ctl, ns, s) = v1_deliver env now pending m2 ?conn (ctl, ns, ?s)"
    using m(1-3) by (simp add: v1_udp_step_def datagram_connection_def Let_def)
  with m(4) show ?thesis by blast
qed

text \<open>The instances of a table are there, each session has its own, and acknowledges for itself.\<close>

definition control_ok :: "udp_control \<Rightarrow> net_store \<Rightarrow> bool" where
  "control_ok ctl ns \<longleftrightarrow> mwf (uc_control ctl)
     \<and> (\<forall>sid r a. map_of (uc_control ctl) sid = Some (r, a) \<longrightarrow>
          r < length (ns_retries ns) \<and> a < length (ns_acks ns) \<and> ai_session (ns_acks ns ! a) = sid)
     \<and> (\<forall>sid sid' r a r' a'. map_of (uc_control ctl) sid = Some (r, a) \<longrightarrow> map_of (uc_control ctl) sid' = Some (r', a')
          \<longrightarrow> sid \<noteq> sid' \<longrightarrow> r \<noteq> r' \<and> a \<noteq> a')"

lemma control_okD:
  assumes "control_ok ctl ns" "map_of (uc_control ctl) sid = Some (r, a)"
  shows "r < length (ns_retries ns)" "a < length (ns_acks ns)" "ai_session (ns_acks ns ! a) = sid"
  using assms unfolding control_ok_def by blast+

lemma control_ok_new: "control_ok (control_new n) ns"
  by (simp add: control_ok_def control_new_def mwf_def)

text \<open>Attaching the instances of a session gives valid handles, its own.\<close>

lemma attach_control_ok:
  assumes ok: "control_ok ctl ns" and att: "attach_control m conn ctl ns = (conn1, ctl1, ns1)"
  shows "control_ok ctl1 ns1"
    and "m_SessionID m \<noteq> 0 \<Longrightarrow> \<exists>r a. map_of (uc_control ctl1) (m_SessionID m) = Some (r, a)
       \<and> c_Retry conn1 = Some r \<and> c_Ack conn1 = Some a"
    and "m_SessionID m = 0 \<Longrightarrow> conn1 = conn \<and> ctl1 = ctl \<and> ns1 = ns"
proof -
  show "m_SessionID m = 0 \<Longrightarrow> conn1 = conn \<and> ctl1 = ctl \<and> ns1 = ns"
    using att by (simp add: attach_control_def)
  have both: "control_ok ctl1 ns1 \<and> (m_SessionID m \<noteq> 0 \<longrightarrow> (\<exists>r a. map_of (uc_control ctl1) (m_SessionID m) = Some (r, a)
       \<and> c_Retry conn1 = Some r \<and> c_Ack conn1 = Some a))"
  proof (cases "m_SessionID m = 0")
    case True
    then show ?thesis using ok att by (simp add: attach_control_def)
  next
    case False
    show ?thesis
    proof (cases "map_of (uc_control ctl) (m_SessionID m)")
      case (Some ra)
      then show ?thesis using ok att False by (cases ra) (auto simp: attach_control_def)
    next
      case None
      let ?r = "length (ns_retries ns)" and ?a = "length (ns_acks ns)" and ?sid = "m_SessionID m"
      have eq: "ctl1 = ctl\<lparr>uc_control := mput ?sid (?r, ?a) (uc_control ctl), uc_curSessionsCount := uc_curSessionsCount ctl + 1\<rparr>"
        "ns1 = ns\<lparr>ns_retries := ns_retries ns @ [retry_New], ns_acks := ns_acks ns @ [\<lparr>ai_session = ?sid, ai_queue = [], ai_stopped = False\<rparr>]\<rparr>"
        "c_Retry conn1 = Some ?r" "c_Ack conn1 = Some ?a"
        using att False None by (auto simp: attach_control_def retryFactory_def ackFactory_def)
      have old: "r < ?r \<and> a < ?a \<and> ai_session (ns_acks ns ! a) = sid" if "map_of (uc_control ctl) sid = Some (r, a)" for sid r a
        using control_okD [OF ok that] by blast
      have wf: "mwf (uc_control ctl)" using ok by (simp add: control_ok_def)
      have "control_ok ctl1 ns1"
        unfolding control_ok_def
      proof (intro conjI allI impI)
        show "mwf (uc_control ctl1)" using wf by (simp add: eq gomap_simps)
      next
        fix sid r a assume "map_of (uc_control ctl1) sid = Some (r, a)"
        then show "r < length (ns_retries ns1)" "a < length (ns_acks ns1)" "ai_session (ns_acks ns1 ! a) = sid"
          using old [of sid r a] by (auto simp: eq nth_append gomap_simps split: if_splits)
      next
        fix sid sid' r a r' a'
        assume "map_of (uc_control ctl1) sid = Some (r, a)" "map_of (uc_control ctl1) sid' = Some (r', a')" "sid \<noteq> sid'"
        then show "r \<noteq> r'" "a \<noteq> a'"
          using old [of sid r a] old [of sid' r' a'] ok unfolding control_ok_def
          by (auto simp: eq gomap_simps split: if_splits)
      qed
      then show ?thesis using eq by (simp add: gomap_simps)
    qed
  qed
  show "control_ok ctl1 ns1" using both by blast
  show "m_SessionID m \<noteq> 0 \<Longrightarrow> \<exists>r a. map_of (uc_control ctl1) (m_SessionID m) = Some (r, a)
       \<and> c_Retry conn1 = Some r \<and> c_Ack conn1 = Some a"
    using both by blast
qed

text \<open>Dispatching changes the state of an instance, never the instances.\<close>

definition same_instances :: "net_store \<Rightarrow> net_store \<Rightarrow> bool" where
  "same_instances ns ns1 \<longleftrightarrow> length (ns_retries ns1) = length (ns_retries ns)
     \<and> map ai_session (ns_acks ns1) = map ai_session (ns_acks ns)"

lemma same_instances_refl [simp]: "same_instances ns ns"
  by (simp add: same_instances_def)

lemma with_retry_same: "with_retry h f ns = Ok ns1 \<Longrightarrow> same_instances ns ns1"
  by (auto simp: with_retry_def same_instances_def split: option.splits if_splits)

lemma with_ack_same:
  assumes "\<And>a. ai_session (f a) = ai_session a" "with_ack h f ns = Ok ns1"
  shows "same_instances ns ns1"
proof -
  obtain k where k: "k < length (ns_acks ns)" "ns1 = ns\<lparr>ns_acks := (ns_acks ns)[k := f (ns_acks ns ! k)]\<rparr>"
    using assms(2) by (auto simp: with_ack_def split: option.splits if_splits)
  have "map ai_session ((ns_acks ns)[k := f (ns_acks ns ! k)]) = (map ai_session (ns_acks ns))[k := ai_session (ns_acks ns ! k)]"
    by (simp add: map_update assms(1))
  also have "\<dots> = (map ai_session (ns_acks ns))[k := map ai_session (ns_acks ns) ! k]"
    using k(1) by simp
  finally show ?thesis using k(2) by (simp add: same_instances_def)
qed

lemma dispatch_same: "dispatch env now pending m conn ns s = (e, conn1, ns1, s1) \<Longrightarrow> same_instances ns ns1"
proof (cases "m_IsACK m")
  case True
  assume "dispatch env now pending m conn ns s = (e, conn1, ns1, s1)"
  then show ?thesis using True by (auto simp: dispatch_def dest: with_retry_same split: payload.splits res.splits)
next
  case False
  assume d: "dispatch env now pending m conn ns s = (e, conn1, ns1, s1)"
  let ?r = "if IsSendACK m then with_ack (c_Ack conn) (ack_enqueue (m_ID m) (GetEndpoint m)) ns else Ok ns"
  obtain r c2 s2 where rec: "re_receiver env m conn s = (r, c2, s2)" by (cases "re_receiver env m conn s")
  have "ns1 = ns \<or> ?r = Ok ns1"
    using d False rec by (cases ?r; cases r) (auto simp: dispatch_def)
  moreover have "same_instances ns ns2" if "?r = Ok ns2" for ns2
    using that with_ack_same [of "ack_enqueue (m_ID m) (GetEndpoint m)" "c_Ack conn" ns ns2]
    by (auto simp: ack_enqueue_def split: if_splits)
  ultimately show ?thesis by auto
qed

lemma dispatch_keepalive_same:
  "dispatch_keepalive now pending m conn ns s = (e, conn1, ns1, s1) \<Longrightarrow> same_instances ns ns1"
  by (auto simp: dispatch_keepalive_def dest: with_retry_same split: res.splits)

lemma control_ok_same: "control_ok ctl ns \<Longrightarrow> same_instances ns ns1 \<Longrightarrow> control_ok ctl ns1"
proof -
  assume ok: "control_ok ctl ns" and same: "same_instances ns ns1"
  have r: "length (ns_retries ns1) = length (ns_retries ns)" using same by (simp add: same_instances_def)
  have s: "map ai_session (ns_acks ns1) = map ai_session (ns_acks ns)" using same by (simp add: same_instances_def)
  have l: "length (ns_acks ns1) = length (ns_acks ns)" using arg_cong [OF s, of length] by simp
  have "ai_session (ns_acks ns1 ! a) = ai_session (ns_acks ns ! a)" if "a < length (ns_acks ns)" for a
    using arg_cong [OF s, of "\<lambda>xs. xs ! a"] that l by simp
  with ok r l show ?thesis unfolding control_ok_def by simp
qed

lemma control_ok_sub:
  "control_ok ctl ns \<Longrightarrow> mwf (uc_control ctl1)
   \<Longrightarrow> (\<And>sid v. map_of (uc_control ctl1) sid = Some v \<Longrightarrow> map_of (uc_control ctl) sid = Some v) \<Longrightarrow> control_ok ctl1 ns"
  unfolding control_ok_def by blast

lemma fold_mdel: "mwf m \<Longrightarrow> mwf (fold mdel ks m)"
  "map_of (fold mdel ks m) k = Some v \<Longrightarrow> map_of m k = Some v"
proof -
  show "mwf m \<Longrightarrow> mwf (fold mdel ks m)" by (induction ks arbitrary: m) (simp_all add: gomap_simps)
  show "map_of (fold mdel ks m) k = Some v \<Longrightarrow> map_of m k = Some v"
  proof (induction ks arbitrary: m)
    case (Cons a ks)
    then have "map_of (mdel a m) k = Some v" by simp
    then show ?case by (simp add: gomap_simps split: if_splits)
  qed simp
qed

lemma cleanup_ok:
  assumes "control_ok ctl ns"
  shows "control_ok (fst (control_cleanup env ctl s)) ns"
proof -
  have "mwf (uc_control ctl)" using assms by (simp add: control_ok_def)
  then show ?thesis
    using assms fold_mdel by (intro control_ok_sub [OF assms]) (auto simp: control_cleanup_def Let_def split: if_splits)
qed

lemma v1_deliver_ok:
  assumes "control_ok ctl ns" "v1_deliver env now pending m conn (ctl, ns, s) = (e, ctl1, ns1, s1)"
  shows "control_ok ctl1 ns1"
proof -
  obtain c2 ctl2 ns2 where att: "attach_control m conn ctl ns = (c2, ctl2, ns2)"
    by (cases "attach_control m conn ctl ns")
  have ok2: "control_ok ctl2 ns2" by (rule attach_control_ok(1) [OF assms(1) att])
  show ?thesis
  proof (cases "m_Type m = MessageTypeKeepalive")
    case True
    obtain e3 c3 ns3 s3 where d: "dispatch_keepalive now pending m c2 ns2 s = (e3, c3, ns3, s3)"
      by (cases "dispatch_keepalive now pending m c2 ns2 s")
    then show ?thesis
      using assms(2) True att control_ok_same [OF ok2 dispatch_keepalive_same [OF d]] by (simp add: v1_deliver_def)
  next
    case False
    obtain e3 c3 ns3 s3 where d: "dispatch (se_env env) now pending m c2 ns2 s = (e3, c3, ns3, s3)"
      by (cases "dispatch (se_env env) now pending m c2 ns2 s")
    have ok3: "control_ok ctl2 ns3" by (rule control_ok_same [OF ok2 dispatch_same [OF d]])
    have "control_ok (fst (control_cleanup env ctl2 s3)) ns3" by (rule cleanup_ok [OF ok3])
    then show ?thesis
      using assms(2) False att d ok3 by (cases e3) (auto simp: v1_deliver_def split: prod.splits)
  qed
qed

lemma v1_udp_step_ok:
  assumes "control_ok ctl ns" "v1_udp_step t env so port now pending ev (ctl, ns, s) = (e, ctl1, ns1, s1)"
  shows "control_ok ctl1 ns1"
proof (cases ev)
  case (DGErr err)
  then show ?thesis using assms by (simp add: v1_udp_step_def)
next
  case (DGram bs addr)
  show ?thesis
  proof (cases "open_datagram t bs")
    case (DMsg m n)
    let ?conn = "new_connection\<lparr>c_UDPConn := Some so, c_Addr := addr, c_Port := port, c_Proto := ProtoUDP, c_SessionID := m_SessionID m\<rparr>"
    let ?s = "re_stat (se_env env) (m_SessionID m) (int n) s"
    show ?thesis
    proof (cases "verdict_of t (se_env env) ?conn ?s m")
      case (VDeliver m1)
      then have "v1_deliver env now pending m1 ?conn (ctl, ns, ?s) = (e, ctl1, ns1, s1)"
        using assms(2) DGram DMsg by (simp add: v1_udp_step_def Let_def)
      then show ?thesis by (rule v1_deliver_ok [OF assms(1)])
    qed (use assms DGram DMsg in \<open>simp_all add: v1_udp_step_def Let_def\<close>)
  qed (use assms DGram in \<open>simp_all add: v1_udp_step_def Let_def\<close>)
qed

lemma v1_udp_loop_ok:
  "control_ok ctl ns \<Longrightarrow> v1_udp_loop t env so port evs (ctl, ns, s) = (e, ctl1, ns1, s1) \<Longrightarrow> control_ok ctl1 ns1"
proof (induction evs arbitrary: ctl ns s)
  case (Cons x evs)
  obtain ev now pending where x: "x = (ev, now, pending)" by (cases x)
  obtain e2 ctl2 ns2 s2 where st: "v1_udp_step t env so port now pending ev (ctl, ns, s) = (e2, ctl2, ns2, s2)"
    by (cases "v1_udp_step t env so port now pending ev (ctl, ns, s)")
  have ok2: "control_ok ctl2 ns2" by (rule v1_udp_step_ok [OF Cons.prems(1) st])
  then show ?case
    using Cons.IH [OF ok2] Cons.prems(2) st x by (cases e2) auto
qed simp

text \<open>
  C23. Whatever datagrams arrive at a UDP socket of the server, every session in its table has
  a retransmission and an accumulator of its own, no two sessions share one, and the
  accumulator acknowledges under the number of that session.
\<close>

theorem udp_sessions_have_their_own_instances:
  assumes "v1_receiverUDP t env maxSessions so ns s evs = (e, ctl, ns1, s1)"
    and "map_of (uc_control ctl) sid = Some (r, a)"
  shows "r < length (ns_retries ns1) \<and> a < length (ns_acks ns1) \<and> ai_session (ns_acks ns1 ! a) = sid
     \<and> (\<forall>sid' r' a'. map_of (uc_control ctl) sid' = Some (r', a') \<longrightarrow> sid' \<noteq> sid \<longrightarrow> r' \<noteq> r \<and> a' \<noteq> a)"
proof -
  have ok: "control_ok ctl ns1"
    using assms(1) v1_udp_loop_ok [OF control_ok_new [of maxSessions ns]] control_ok_new [of maxSessions ns]
    by (auto simp: v1_receiverUDP_def split: net_addr.splits)
  show ?thesis
    using control_okD [OF ok assms(2)] ok assms(2) unfolding control_ok_def by blast
qed

definition sample_server :: "message list server_env" where
  "sample_server = \<lparr>se_env = sample_env, se_dropped = (\<lambda>_. []), se_set_dropped = (\<lambda>_ s. s)\<rparr>"

definition sample_keepalive :: "u8 \<Rightarrow> bytes" where
  "sample_keepalive sid = [4, 0, 0, 0, 0, 0, 0, 0, 0, sid, 0, 0]"

definition no_instances :: net_store where
  "no_instances = \<lparr>ns_retries = [], ns_acks = []\<rparr>"

lemma sample_keepalive_run:
  "\<exists>ctl ns1 s1. v1_receiverUDP sample_transport sample_server 10 sample_socket no_instances []
      [(DGram (sample_keepalive 9) (UDPAddr [10, 0, 0, 2] 4000), 5, True)] = (RBlocked, ctl, ns1, s1)
    \<and> map_of (uc_control ctl) 9 = Some (0, 0)"
proof -
  have o: "open_header sample_transport (sample_keepalive 9) = Ok (new_message\<lparr>m_Type := 4, m_SessionID := 9\<rparr>)"
    by (simp add: open_header_def sample_keepalive_def UnmarshalHeader_def sample_transport_def NewTapirCodec_def
        NewEmpty_def empty_Decrypt_def new_message_def set_flags_def MessageType_Valid_def)
  have d: "open_datagram sample_transport (sample_keepalive 9) = DMsg (new_message\<lparr>m_Type := 4, m_SessionID := 9\<rparr>) 12"
  proof -
    have len: "length (sample_keepalive 9) = 12" by (simp add: sample_keepalive_def)
    have takes: "take 1412 (sample_keepalive 9) = sample_keepalive 9" "take 12 (sample_keepalive 9) = sample_keepalive 9"
      using len by simp_all
    have zero: "m_PayloadLength (new_message\<lparr>m_Type := 4, m_SessionID := 9\<rparr>) = 0" by (simp add: new_message_def)
    show ?thesis
      unfolding open_datagram_def sample_buffer_size takes sample_headerLength Let_def len o using zero by simp
  qed
  show ?thesis
    by (simp add: v1_receiverUDP_def sample_socket_def v1_udp_step_def d verdict_of_def)
      (simp add: IsUserData_def open_payload_def IsPayload_def new_message_def v1_deliver_def attach_control_def control_new_def
        retryFactory_def ackFactory_def dispatch_keepalive_def with_retry_def no_instances_def Let_def)
qed

theorem udp_sessions_have_their_own_instances_witness:
  "\<exists>ctl ns1 s1. v1_receiverUDP sample_transport sample_server 10 sample_socket no_instances []
      [(DGram (sample_keepalive 9) (UDPAddr [10, 0, 0, 2] 4000), 5, True)] = (RBlocked, ctl, ns1, s1)
    \<and> 0 < length (ns_retries ns1) \<and> ai_session (ns_acks ns1 ! 0) = 9"
proof -
  obtain ctl ns1 s1 where run: "v1_receiverUDP sample_transport sample_server 10 sample_socket no_instances []
      [(DGram (sample_keepalive 9) (UDPAddr [10, 0, 0, 2] 4000), 5, True)] = (RBlocked, ctl, ns1, s1)"
    and "map_of (uc_control ctl) 9 = Some (0, 0)"
    using sample_keepalive_run by blast
  from udp_sessions_have_their_own_instances [OF this] run show ?thesis by auto
qed

text \<open>The outcome of sending user data over UDP: the datagram, and the copy to retransmit.\<close>

lemma client_SendAsync_udp:
  assumes "c_TCPConn conn = None" "re_enc env conn s = Ok (Some u)" "IsUserData m"
    and "client_SendAsync t env d ws now m conn s ns = Some (out, Ok (), ns1)"
  shows "seal t False True (user_encryptor u m) (dr_fake d) (dr_rnd1 d) (dr_rnd2 d) m = Ok out"
    and "with_retry (c_Retry conn) (retry_Push now (m\<lparr>m_Payload := PBytes out\<rparr>)) ns = Ok ns1"
proof -
  have choice: "(if IsUserData m then re_enc env conn s else Ok None) = Ok (user_encryptor u m)"
    by (rule user_choice [OF assms(2)])
  have snd: "send_udp t d ws now m (user_encryptor u m) (c_Retry conn) ns = Some (out, Ok (), ns1)"
    using assms(1,4) unfolding client_SendAsync_def choice by simp
  then obtain data where data: "seal t False True (user_encryptor u m) (dr_fake d) (dr_rnd1 d) (dr_rnd2 d) m = Ok data"
    by (cases "seal t False True (user_encryptor u m) (dr_fake d) (dr_rnd1 d) (dr_rnd2 d) m") (auto simp: send_udp_def)
  obtain o1 r1 where w: "send_data data ws = Some (o1, r1)"
    using snd data by (cases "send_data data ws") (auto simp: send_udp_def)
  have ack: "IsSendACK m" using assms(3) by (simp add: IsSendACK_IsUserData)
  obtain ns2 where ns2: "r1 = Ok ()" "with_retry (c_Retry conn) (retry_Push now (m\<lparr>m_Payload := PBytes data\<rparr>)) ns = Ok ns2"
    "o1 = out" "ns2 = ns1"
    using snd data w ack
    by (cases r1; cases "with_retry (c_Retry conn) (retry_Push now (m\<lparr>m_Payload := PBytes data\<rparr>)) ns")
      (auto simp: send_udp_def)
  have "out = data" using send_data_Ok [of data ws o1] w ns2 by simp
  then show "seal t False True (user_encryptor u m) (dr_fake d) (dr_rnd1 d) (dr_rnd2 d) m = Ok out"
    and "with_retry (c_Retry conn) (retry_Push now (m\<lparr>m_Payload := PBytes out\<rparr>)) ns = Ok ns1"
    using data ns2 by simp_all
qed

text \<open>What \<open>V1\<close> does with user data that it has opened.\<close>

lemma v1_deliver_data:
  assumes "control_ok ctl ns" "accepting (se_env env) u (\<lambda>_. P)" "P s" "IsUserData m" "m_SessionID m \<noteq> 0"
    and "attach_control m conn ctl ns = (conn1, ctl1, ns1)"
  shows "\<exists>a conn2 s2. c_Ack conn1 = Some a \<and> a < length (ns_acks ns1) \<and> ai_session (ns_acks ns1 ! a) = m_SessionID m
     \<and> re_receiver (se_env env) m conn1 s = (Ok (), conn2, s2) \<and> P s2
     \<and> v1_deliver env now pending m conn (ctl, ns, s) =
         (SReceived, fst (control_cleanup env ctl1 s2),
          ns1\<lparr>ns_acks := (ns_acks ns1)[a := ack_enqueue (m_ID m) (GetEndpoint m) (ns_acks ns1 ! a)]\<rparr>,
          snd (control_cleanup env ctl1 s2))"
proof -
  obtain r a where att: "map_of (uc_control ctl1) (m_SessionID m) = Some (r, a)" "c_Ack conn1 = Some a"
    using attach_control_ok(2) [OF assms(1,6,5)] by blast
  note ok = control_okD [OF attach_control_ok(1) [OF assms(1,6)] att(1)]
  have acc: "case re_receiver (se_env env) m conn1 s of (r, c, s1) \<Rightarrow> r = Ok () \<and> P s1"
    using assms(2,3) unfolding accepting_def by meson
  obtain conn2 s2 where rec: "re_receiver (se_env env) m conn1 s = (Ok (), conn2, s2)" "P s2"
    using acc by (cases "re_receiver (se_env env) m conn1 s") auto
  have kinds: "m_Type m \<noteq> MessageTypeKeepalive" "\<not> m_IsACK m" "IsSendACK m"
    using assms(4) by (auto simp: IsUserData_def IsSendACK_def)
  have "dispatch (se_env env) now pending m conn1 ns1 s =
      (SReceived, conn2, ns1\<lparr>ns_acks := (ns_acks ns1)[a := ack_enqueue (m_ID m) (GetEndpoint m) (ns_acks ns1 ! a)]\<rparr>, s2)"
    using kinds att(2) ok(2) rec(1) by (simp add: dispatch_def with_ack_def)
  then show ?thesis
    using att(2) ok(2,3) rec kinds(1) assms(6)
    by (intro exI [of _ a] exI [of _ conn2] exI [of _ s2]) (auto simp: v1_deliver_def split: prod.splits)
qed

text \<open>
  User data over UDP. What the client sends on a connection in one datagram that fits the
  server's buffer, the server hands to the application as it was sent, and queues its
  identifier, under its endpoint and for its session, to be acknowledged. The client keeps
  the datagram, as it was sent, for retransmission.
\<close>

theorem udp_data_reaches_server:
  assumes "transport_ok k t u" "c_TCPConn conn = None" "re_enc cenv conn cs = Ok (Some u)"
    and "client_SendAsync t cenv d ws time m conn cs cns = Some (out, Ok (), cns1)"
    and "proper t (re_decode (se_env env)) m" "draws_ok k d" "IsUserData m" "m_SessionID m \<noteq> 0"
    and "length out \<le> buffer_size t" "accepting (se_env env) u (\<lambda>_. P)" "P s" "control_ok ctl ns"
  shows "with_retry (c_Retry conn) (retry_Push time (m\<lparr>m_Payload := PBytes out\<rparr>)) cns = Ok cns1
     \<and> (\<exists>m' a q conn1 conn2 s2 ctl1 ns1. received_as (re_decode (se_env env)) m m'
        \<and> re_receiver (se_env env) m' conn1 (re_stat (se_env env) (m_SessionID m) (int (length out)) s) = (Ok (), conn2, s2)
        \<and> v1_udp_step t env so port now pending (DGram out addr) (ctl, ns, s) = (SReceived, ctl1, ns1, snd (control_cleanup env q s2))
        \<and> a < length (ns_acks ns1) \<and> ai_session (ns_acks ns1 ! a) = m_SessionID m
        \<and> (\<exists>before. ai_queue (ns_acks ns1 ! a) = before @ [(m_ID m, GetEndpoint m')]))"
proof -
  note sent = client_SendAsync_udp [OF assms(2,3,7,4)]
  have good: "good_frame t (re_decode (se_env env)) u m out"
    by (rule seal_good_frame [OF assms(1,6,5) _ sent(1)]) simp
  let ?conn = "datagram_connection so addr port (m_SessionID m)"
  let ?s = "re_stat (se_env env) (m_SessionID m) (int (length out)) s"
  obtain m' where m': "received_as (re_decode (se_env env)) m m'"
    "v1_udp_step t env so port now pending (DGram out addr) (ctl, ns, s) = v1_deliver env now pending m' ?conn (ctl, ns, ?s)"
    using v1_udp_step_frame [OF good assms(9,10,11)] by blast
  have data: "IsUserData m'" "m_SessionID m' \<noteq> 0" "m_ID m' = m_ID m" "m_SessionID m' = m_SessionID m"
    using m'(1) assms(7,8) by (auto simp: received_as_def IsUserData_def)
  have P: "P ?s" using accepting_stat [OF assms(10)] assms(11) by blast
  obtain conn1 ctl1 ns1 where att: "attach_control m' ?conn ctl ns = (conn1, ctl1, ns1)"
    by (cases "attach_control m' ?conn ctl ns")
  obtain a conn2 s2 where del: "a < length (ns_acks ns1)" "ai_session (ns_acks ns1 ! a) = m_SessionID m'"
    "re_receiver (se_env env) m' conn1 ?s = (Ok (), conn2, s2)"
    "v1_deliver env now pending m' ?conn (ctl, ns, ?s) =
         (SReceived, fst (control_cleanup env ctl1 s2),
          ns1\<lparr>ns_acks := (ns_acks ns1)[a := ack_enqueue (m_ID m') (GetEndpoint m') (ns_acks ns1 ! a)]\<rparr>,
          snd (control_cleanup env ctl1 s2))"
    using v1_deliver_data [OF assms(12,10) P data(1,2) att] by blast
  let ?ns = "ns1\<lparr>ns_acks := (ns_acks ns1)[a := ack_enqueue (m_ID m') (GetEndpoint m') (ns_acks ns1 ! a)]\<rparr>"
  have "a < length (ns_acks ?ns)" "ai_session (ns_acks ?ns ! a) = m_SessionID m"
    "ai_queue (ns_acks ?ns ! a) = ai_queue (ns_acks ns1 ! a) @ [(m_ID m, GetEndpoint m')]"
    using del(1,2) data(3,4) by (simp_all add: ack_enqueue_def)
  with sent(2) m' del(3,4) show ?thesis by metis
qed

lemma sample_sent_udp:
  "\<exists>ns1. client_SendAsync sample_transport sample_env sample_draws [Wrote 15] 3 sample_data
      (new_connection\<lparr>c_UDPConn := Some sample_socket, c_Retry := Some 0\<rparr>) [] (no_instances\<lparr>ns_retries := [retry_New]\<rparr>)
    = Some (sample_frame, Ok (), ns1)"
proof -
  let ?conn = "new_connection\<lparr>c_UDPConn := Some sample_socket, c_Retry := Some 0\<rparr>"
  have w: "write_all sample_frame [Wrote 15] = Some (sample_frame, Ok ())"
    by (simp add: write_all.simps sample_frame_def)
  have "\<not> length sample_frame < HeaderSize" by (simp add: sample_frame_def)
  then have s: "send_data sample_frame [Wrote 15] = Some (sample_frame, Ok ())" using w by (simp add: send_data_def)
  have "re_enc sample_env ?conn [] = Ok (Some (NewEmpty []))" by (simp add: sample_env_def)
  note choice = user_choice [OF this, of sample_data]
  have tcp: "c_TCPConn ?conn = None" by (simp add: new_connection_def)
  show ?thesis
    unfolding client_SendAsync_def choice
    by (simp add: tcp send_udp_def sample_seal s with_retry_def no_instances_def)
qed

theorem udp_data_reaches_server_witness:
  "\<exists>m' s2 ctl1 ns1. received_as (re_decode (se_env sample_server)) sample_data m'
     \<and> v1_udp_step sample_transport sample_server sample_socket 1977 5 True
         (DGram sample_frame (UDPAddr [10, 0, 0, 2] 4000)) (control_new 10, no_instances, []) = (SReceived, ctl1, ns1, s2)"
proof -
  let ?conn = "new_connection\<lparr>c_UDPConn := Some sample_socket, c_Retry := Some 0\<rparr>"
  obtain ns1 where sent: "client_SendAsync sample_transport sample_env sample_draws [Wrote 15] 3 sample_data ?conn []
      (no_instances\<lparr>ns_retries := [retry_New]\<rparr>) = Some (sample_frame, Ok (), ns1)"
    using sample_sent_udp by blast
  have s: "se_env sample_server = sample_env" by (simp add: sample_server_def)
  have p: "proper sample_transport (re_decode (se_env sample_server)) sample_data"
    "accepting (se_env sample_server) (NewEmpty []) (\<lambda>_. (\<lambda>_. True))"
    using sample_proper sample_accepting by (simp_all add: s)
  have e: "re_enc sample_env ?conn [] = Ok (Some (NewEmpty []))" by (simp add: sample_env_def)
  have q: "c_TCPConn ?conn = None" "draws_ok 0 sample_draws" "IsUserData sample_data" "m_SessionID sample_data \<noteq> 0"
    "length sample_frame \<le> buffer_size sample_transport"
    by (simp_all add: new_connection_def draws_ok_def sample_draws_def rand_ok_def sample_data_def new_message_def IsUserData_def
        sample_buffer_size sample_frame_def)
  show ?thesis
    using udp_data_reaches_server [OF sample_transport_ok q(1) e sent p(1) q(2,3,4,5) p(2) TrueI control_ok_new [of 10 no_instances],
        where so = sample_socket and port = 1977 and now = 5 and pending = True and addr = "UDPAddr [10, 0, 0, 2] 4000" and s = "[]"]
    by blast
qed

text \<open>
  A datagram without a session number crashes the server: the connection of a keepalive,
  of an acknowledgement or of user data with session 0 has neither a retransmission nor an
  accumulator, and the receiver calls them all the same.
\<close>

theorem datagram_without_session_panics:
  assumes "transport_ok k t u" "proper t (re_decode (se_env env)) m" "draws_ok k d"
    and "seal t False pf (user_encryptor u m) (dr_fake d) (dr_rnd1 d) (dr_rnd2 d) m = Ok f"
    and "m_SessionID m = 0" "m_Type m = MessageTypeKeepalive \<or> m_Type m = MessageTypeData"
    and "length f \<le> buffer_size t" "accepting (se_env env) u (\<lambda>_. P)" "P s"
  shows "fst (v1_udp_step t env so port now pending (DGram f addr) (ctl, ns, s)) = SCrash"
proof -
  have good: "good_frame t (re_decode (se_env env)) u m f"
    by (rule seal_good_frame [OF assms(1,3,2) _ assms(4)]) simp
  let ?conn = "datagram_connection so addr port (m_SessionID m)"
  obtain m' where m': "received_as (re_decode (se_env env)) m m'"
    "v1_udp_step t env so port now pending (DGram f addr) (ctl, ns, s) =
       v1_deliver env now pending m' ?conn (ctl, ns, re_stat (se_env env) (m_SessionID m) (int (length f)) s)"
    using v1_udp_step_frame [OF good assms(7-9)] by blast
  have att: "attach_control m' ?conn ctl ns = (?conn, ctl, ns)"
    using m'(1) assms(5) by (simp add: attach_control_def received_as_def)
  have nil: "c_Retry ?conn = None" "c_Ack ?conn = None"
    by (simp_all add: datagram_connection_def new_connection_def)
  have type: "m_Type m' = m_Type m" using m'(1) by (simp add: received_as_def)
  show ?thesis
  proof (cases "m_Type m' = MessageTypeKeepalive")
    case True
    then show ?thesis using m'(2) att nil(1) by (simp add: v1_deliver_def dispatch_keepalive_def with_retry_def)
  next
    case False
    then have "m_Type m' = MessageTypeData" using assms(6) type by metis
    then have "dispatch (se_env env) now pending m' ?conn ns s' = (SCrash, ?conn, ns, s')" for s'
      using nil by (cases "m_Payload m'") (auto simp: dispatch_def with_retry_def with_ack_def IsSendACK_def)
    then show ?thesis using m'(2) att False by (simp add: v1_deliver_def)
  qed
qed

theorem datagram_without_session_panics_witness:
  "fst (v1_udp_step sample_transport sample_server sample_socket 1977 5 True
     (DGram (sample_keepalive 0) NoAddr) (control_new 10, no_instances, [])) = SCrash"
proof -
  let ?m = "keepalive_message 0 False"
  have s: "se_env sample_server = sample_env" by (simp add: sample_server_def)
  have p: "proper sample_transport (re_decode (se_env sample_server)) ?m" "draws_ok 0 sample_draws"
    "accepting (se_env sample_server) (NewEmpty []) (\<lambda>_. (\<lambda>_. True))"
    using sample_accepting
    by (simp_all add: s proper_def sendable_def wire_ok_def keepalive_message_def new_message_def MessageType_Valid_def
        IsPayload_def IsUserData_def draws_ok_def sample_draws_def rand_ok_def)
  have f: "seal sample_transport False False (user_encryptor (NewEmpty []) ?m) (dr_fake sample_draws) (dr_rnd1 sample_draws)
      (dr_rnd2 sample_draws) ?m = Ok (sample_keepalive 0)"
    by (simp add: seal_def seal_payload_def Marshal_def marshal_payload_def marshal_header_def be32_def be16_def keepalive_message_def
        new_message_def sample_transport_def NewTapirCodec_def sample_keepalive_def user_encryptor_def NewEmpty_def
        empty_Encrypt_def empty_GetLength_def IsUserData_def)
  have q: "m_SessionID ?m = 0" "m_Type ?m = MessageTypeKeepalive \<or> m_Type ?m = MessageTypeData"
    "length (sample_keepalive 0) \<le> buffer_size sample_transport"
    by (simp_all add: keepalive_message_def new_message_def sample_keepalive_def sample_buffer_size)
  show ?thesis
    by (rule datagram_without_session_panics [OF sample_transport_ok p(1,2) f q p(3) TrueI])
qed

end
