(* ===== verification/Tunnel.thy ===== *)
theory Tunnel
  imports ClientProps Iface NetServer Packet
begin

text \<open>
  The way of a packet through the tunnel, from the interface of the client to the interface of
  the server: the listener that numbers it, the threads that choose a connection for it, the TCP
  connections, the stream merger, and the use case of the server that writes it. The decoders of
  both programs are here as the start-up code wires them (\<open>deploy/client/connection.go\<close>,
  \<open>deploy/server/main.go\<close>), and the loop of the handler threads (\<open>client.interface.go\<close>).
\<close>

section \<open>The wiring of the decoders\<close>

definition client_ifacePacketDecoder :: "layer_parser \<Rightarrow> bool \<Rightarrow> packet_decoder" where
  "client_ifacePacketDecoder parse tracing =
     Decode parse \<lparr>dc_EndpointHashType = EndpointHashDestinationAddress, dc_Tracing = tracing\<rparr>"

definition client_sockPacketDecoder :: "layer_parser \<Rightarrow> bool \<Rightarrow> packet_decoder" where
  "client_sockPacketDecoder parse tracing =
     Decode parse \<lparr>dc_EndpointHashType = EndpointHashSourceAddress, dc_Tracing = tracing\<rparr>"

definition server_ifacePacketDecoder :: "layer_parser \<Rightarrow> bool \<Rightarrow> packet_decoder" where
  "server_ifacePacketDecoder parse tracing =
     Decode parse \<lparr>dc_EndpointHashType = EndpointHashSourceAddress, dc_Tracing = tracing\<rparr>"

definition server_sockPacketDecoder :: "layer_parser \<Rightarrow> bool \<Rightarrow> packet_decoder" where
  "server_sockPacketDecoder parse tracing =
     Decode parse \<lparr>dc_EndpointHashType = EndpointHashDestinationAddress, dc_Tracing = tracing\<rparr>"

text \<open>
  Two decoders of the same hash type give a packet the same endpoint, with tracing or without:
  the layers that tracing adds leave it alone.
\<close>

lemma decodeIP_cong:
  assumes "dc_EndpointHashType c = dc_EndpointHashType d"
  shows "decodeIP c data = decodeIP d data"
  unfolding decodeIP_def decodeIPv4_def decodeIPv6_def assms ..

lemma store_layer_endpoint [simp]: "pi_Endpoint (store_layer n len l p) = pi_Endpoint p"
  by (cases l) simp_all

lemma fold_store_layer_endpoint [simp]: "pi_Endpoint (fold (store_layer n len) ls p) = pi_Endpoint p"
  by (induction ls arbitrary: p) simp_all

lemma Decode_Some_iff:
  "(\<exists>i. Decode parse c data = Ok (Some i) \<and> pi_Endpoint i = e)
     \<longleftrightarrow> IpPacketMinLength \<le> length data \<and> (\<exists>p. decodeIP c data = Ok p \<and> pi_Endpoint p = e)"
  by (cases "decodeIP c data") (auto simp: Decode_def decodeLayers_def Let_def)

lemma Decode_same_endpoint:
  assumes "Decode parse c data = Ok (Some i)" "dc_EndpointHashType d = dc_EndpointHashType c"
  obtains j where "Decode parse' d data = Ok (Some j)" "pi_Endpoint j = pi_Endpoint i"
proof -
  have "\<exists>i'. Decode parse c data = Ok (Some i') \<and> pi_Endpoint i' = pi_Endpoint i" using assms(1) by simp
  then have "\<exists>j. Decode parse' d data = Ok (Some j) \<and> pi_Endpoint j = pi_Endpoint i"
    using assms(2) by (simp only: Decode_Some_iff decodeIP_cong [of d c])
  then show ?thesis using that by blast
qed

lemma upstream_decoders_agree:
  assumes "client_ifacePacketDecoder parse tracing data = Ok (Some i)"
  obtains j where "server_sockPacketDecoder parse' tracing' data = Ok (Some j)" "pi_Endpoint j = pi_Endpoint i"
  by (rule Decode_same_endpoint [OF assms [unfolded client_ifacePacketDecoder_def],
        of "\<lparr>dc_EndpointHashType = EndpointHashDestinationAddress, dc_Tracing = tracing'\<rparr>" parse'])
    (simp_all add: server_sockPacketDecoder_def)

lemma downstream_decoders_agree:
  assumes "server_ifacePacketDecoder parse tracing data = Ok (Some i)"
  obtains j where "client_sockPacketDecoder parse' tracing' data = Ok (Some j)" "pi_Endpoint j = pi_Endpoint i"
  by (rule Decode_same_endpoint [OF assms [unfolded server_ifacePacketDecoder_def],
        of "\<lparr>dc_EndpointHashType = EndpointHashSourceAddress, dc_Tracing = tracing'\<rparr>" parse'])
    (simp_all add: client_sockPacketDecoder_def)

section \<open>The handler threads of the client\<close>

text \<open>
  A thread of \<open>interfaceLoop\<close> takes messages of the listener, each in its world; an error ends it.
  All threads take from one channel: together they handle the messages in some order.
\<close>

fun client_interfaceLoop :: "(client_world \<times> message) list \<Rightarrow> client_uc \<Rightarrow> (gerror, unit) res \<times> client_uc" where
  "client_interfaceLoop [] uc = (Ok (), uc)"
| "client_interfaceLoop ((w, m) # ms) uc =
     (case client_interfaceReceiver w m uc of
        (Ok _, uc1) \<Rightarrow> client_interfaceLoop ms uc1
      | r \<Rightarrow> r)"

definition stamped :: "client_uc \<Rightarrow> message \<Rightarrow> message" where
  "stamped uc m = m\<lparr>m_SessionID := cu_sessionID uc, m_Type := MessageTypeData,
     m_CompressionType := cu_compressionType uc, m_CompressionLevel := cu_compressionLevel uc\<rparr>"

definition client_links :: "client_uc \<Rightarrow> connection list" where
  "client_links uc = map (\<lambda>r. cc_conn (client_conn_of r uc)) (cu_connections uc)"

text \<open>A client that can send: connected, with connections, and a strategy that it knows.\<close>

definition can_send :: "client_uc \<Rightarrow> bool" where
  "can_send uc \<longleftrightarrow> cu_isConnected uc \<and> cu_connectionsMap uc \<noteq> []
     \<and> cu_portSelectionStrategy uc \<in> {PortSelectionStrategyRandom, PortSelectionStrategyHash}"

lemma client_sends:
  assumes "client_tables uc" "can_send uc" "m_PacketInfo m \<noteq> None" "\<And>m c. cw_SendAsync w m c \<noteq> Panic"
  shows "\<exists>conn st. conn \<in> set (client_links uc)
     \<and> client_interfaceReceiver w m uc = (Ok (), uc\<lparr>cu_sent := cu_sent uc @ [(stamped uc m, conn)], cu_stat := st\<rparr>)"
proof -
  have inside: "i mod length (cu_connectionsMap uc) < length (cu_connections uc)" for i
  proof -
    have "i mod length (cu_connectionsMap uc) < length (cu_connectionsMap uc)" using assms(2) by (simp add: can_send_def)
    also have "\<dots> \<le> length (cu_connections uc)" using assms(1) by (simp add: client_tables_def)
    finally show ?thesis .
  qed
  obtain p where p: "m_PacketInfo m = Some p" using assms(3) by blast
  have "\<exists>i. client_getConnection (cw_draw w) (m_PacketInfo m) uc = Ok (cu_connections uc ! (i mod length (cu_connectionsMap uc)))"
    using assms(2) inside unfolding client_getConnection_def can_send_def Let_def p by auto
  then obtain r where r: "client_getConnection (cw_draw w) (m_PacketInfo m) uc = Ok r" "r \<in> set (cu_connections uc)"
    using inside nth_mem by blast
  then have link: "cc_conn (client_conn_of r uc) \<in> set (client_links uc)" by (simp add: client_links_def)
  have "cu_isConnected uc" using assms(2) by (simp add: can_send_def)
  then have "\<exists>st. client_interfaceReceiver w m uc =
      (Ok (), uc\<lparr>cu_sent := cu_sent uc @ [(stamped uc m, cc_conn (client_conn_of r uc))], cu_stat := st\<rparr>)"
    using r(1) assms(4) unfolding client_interfaceReceiver_def Let_def stamped_def [symmetric]
    by (cases "cw_SendAsync w (stamped uc m) (cc_conn (client_conn_of r uc))") auto
  with link show ?thesis by blast
qed

lemma client_loop_sends:
  assumes "client_tables uc" "can_send uc" "\<forall>(w, m)\<in>set wms. m_PacketInfo m \<noteq> None \<and> (\<forall>m c. cw_SendAsync w m c \<noteq> Panic)"
  shows "\<exists>ps st. client_interfaceLoop wms uc = (Ok (), uc\<lparr>cu_sent := cu_sent uc @ ps, cu_stat := st\<rparr>)
     \<and> map fst ps = map (stamped uc \<circ> snd) wms \<and> snd ` set ps \<subseteq> set (client_links uc)"
  using assms
proof (induction wms arbitrary: uc)
  case Nil
  have "uc\<lparr>cu_sent := cu_sent uc @ [], cu_stat := cu_stat uc\<rparr> = uc" by simp
  then show ?case by (intro exI [of _ "[]"] exI [of _ "cu_stat uc"]) (simp only: client_interfaceLoop.simps list.map list.set image_empty empty_subsetI simp_thms)
next
  case (Cons wm wms)
  obtain w m where wm: "wm = (w, m)" by (cases wm)
  have m: "m_PacketInfo m \<noteq> None" "\<And>m c. cw_SendAsync w m c \<noteq> Panic"
    and rest: "\<forall>(w, m)\<in>set wms. m_PacketInfo m \<noteq> None \<and> (\<forall>m c. cw_SendAsync w m c \<noteq> Panic)"
    using Cons.prems(3) by (auto simp: wm)
  obtain conn st where step: "conn \<in> set (client_links uc)"
    "client_interfaceReceiver w m uc = (Ok (), uc\<lparr>cu_sent := cu_sent uc @ [(stamped uc m, conn)], cu_stat := st\<rparr>)"
    using client_sends [OF Cons.prems(1,2) m] by blast
  define uc1 where "uc1 = uc\<lparr>cu_sent := cu_sent uc @ [(stamped uc m, conn)], cu_stat := st\<rparr>"
  have same: "client_tables uc1" "can_send uc1" "client_links uc1 = client_links uc" "stamped uc1 m' = stamped uc m'" for m'
    using Cons.prems(1,2)
    by (simp_all add: uc1_def client_tables_def can_send_def client_links_def client_conn_of_def stamped_def)
  obtain ps st' where ps: "client_interfaceLoop wms uc1 = (Ok (), uc1\<lparr>cu_sent := cu_sent uc1 @ ps, cu_stat := st'\<rparr>)"
    "map fst ps = map (stamped uc1 \<circ> snd) wms" "snd ` set ps \<subseteq> set (client_links uc1)"
    using Cons.IH [OF same(1,2) rest] by blast
  have "client_interfaceLoop (wm # wms) uc = client_interfaceLoop wms uc1"
    using step(2) by (simp add: wm uc1_def)
  also have "\<dots> = (Ok (), uc\<lparr>cu_sent := cu_sent uc @ (stamped uc m, conn) # ps, cu_stat := st'\<rparr>)"
    unfolding ps(1) by (simp add: uc1_def)
  finally have "client_interfaceLoop (wm # wms) uc =
      (Ok (), uc\<lparr>cu_sent := cu_sent uc @ (stamped uc m, conn) # ps, cu_stat := st'\<rparr>)" .
  moreover have "map fst ((stamped uc m, conn) # ps) = map (stamped uc \<circ> snd) (wm # wms)"
    using ps(2) by (simp add: wm same(4))
  moreover have "snd ` set ((stamped uc m, conn) # ps) \<subseteq> set (client_links uc)"
    using ps(3) step(1) by (simp add: same(3))
  ultimately show ?case by blast
qed

section \<open>The connections\<close>

text \<open>
  A TCP connection of the client: the calls that sent on it and what they wrote, the encryptor
  that both sides agreed on, and at the server its socket, port, and the pieces that were read.
\<close>

record link =
  ln_conn :: connection
  ln_calls :: "send_call list"
  ln_outs :: "bytes list"
  ln_enc :: encryptor
  ln_so :: socket
  ln_port :: u16
  ln_reads :: "gerror rd list"

text \<open>The receiver of the server is \<open>Push\<close> of the merger, here with its channel only.\<close>

definition push_env :: "encryptor \<Rightarrow> packet_decoder \<Rightarrow> merge_message list receiver_env" where
  "push_env u decode = \<lparr>re_enc = (\<lambda>_ _. Ok (Some u)), re_decode = decode,
     re_receiver = (\<lambda>m conn q. (Ok (), conn, q @ [\<lparr>mm_msg = m, mm_conn = conn\<rparr>])),
     re_stat = (\<lambda>_ _ q. q), re_disconnect = (\<lambda>_ _ q. q)\<rparr>"

definition pushed :: "transport \<Rightarrow> packet_decoder \<Rightarrow> link \<Rightarrow> merge_message list" where
  "pushed t decode l = snd (snd (server_receiverTCP (Suc (length (ln_calls l))) t (push_env (ln_enc l) decode)
     (ln_so l) (ln_port l) [] (ln_reads l)))"

definition link_end :: "link \<Rightarrow> connection" where
  "link_end l = new_connection\<lparr>c_TCPConn := Some (ln_so l), c_Addr := so_RemoteAddr (ln_so l), c_Port := ln_port l,
     c_Proto := ProtoTCP\<rparr>"

text \<open>
  The link carries the sends \<open>ps\<close> of its connection: every call succeeded, and the pieces that
  the server reads are, together, what was written.
\<close>

definition carries :: "nat \<Rightarrow> transport \<Rightarrow> client_uc receiver_env \<Rightarrow> client_uc \<Rightarrow> net_store
    \<Rightarrow> (message \<times> connection) list \<Rightarrow> link \<Rightarrow> bool" where
  "carries k t cenv uc ns ps l \<longleftrightarrow> c_TCPConn (ln_conn l) \<noteq> None \<and> transport_ok k t (ln_enc l)
     \<and> re_enc cenv (ln_conn l) uc = Ok (Some (ln_enc l))
     \<and> map fst (ln_calls l) = map fst (filter (\<lambda>p. snd p = ln_conn l) ps)
     \<and> (\<forall>(m, d, ws, now)\<in>set (ln_calls l). sendable t m \<and> draws_ok k d)
     \<and> list_all2 (client_sent t cenv (ln_conn l) uc ns) (ln_calls l) (ln_outs l)
     \<and> no_errors (ln_reads l) \<and> sock_bytes (ln_reads l) = concat (ln_outs l)"

lemma handle_all_push:
  "handle_all (push_env u decode) rs conn q = (conn, q @ map (\<lambda>r. \<lparr>mm_msg = snd r, mm_conn = conn\<rparr>) rs)"
  by (induction rs arbitrary: q) (auto simp: push_env_def)

lemma all_received_messages:
  "all_received decode n ms fs rs \<Longrightarrow> length ms = length fs \<Longrightarrow> list_all2 (received_as decode) ms (map snd rs)"
  by (auto simp: all_received_def received_with_def list_all2_conv_all_nth case_prod_unfold)

text \<open>The server pushes what was sent on the connection, in that order.\<close>

lemma link_pushes:
  assumes "carries k t cenv uc ns ps l"
    and "\<forall>m\<in>fst ` set ps. IsUserData m \<and> m_Error m = 0 \<and> (\<exists>b info. m_Payload m = PBytes b \<and> decode b = Ok info)"
  shows "list_all2 (\<lambda>p r. received_as decode (fst p) (mm_msg r) \<and> mm_conn r = link_end l)
     (filter (\<lambda>p. snd p = ln_conn l) ps) (pushed t decode l)"
proof -
  let ?env = "push_env (ln_enc l) decode"
  note c = assms(1) [unfolded carries_def]
  have pos: "0 < headerLength t" using c headerLength_pos [of k t "ln_enc l"] by simp
  have enc: "re_enc cenv (ln_conn l) uc = Ok (Some (ln_enc l))" and tcp: "c_TCPConn (ln_conn l) \<noteq> None"
    and tok: "transport_ok k t (ln_enc l)" using c by simp_all
  have "fst call \<in> fst ` set ps" if "call \<in> set (ln_calls l)" for call
  proof -
    have "fst call \<in> set (map fst (ln_calls l))" using that by simp
    also have "\<dots> = set (map fst (filter (\<lambda>p. snd p = ln_conn l) ps))" using c by simp
    finally show ?thesis by auto
  qed
  then have calls: "\<forall>call\<in>set (ln_calls l). proper_call k t decode call \<and> IsPayload (fst call)"
    using c assms(2) IsUserData_IsPayload by (fastforce simp: proper_call_def proper_def)
  have sent: "list_all2 (client_sent t cenv (ln_conn l) uc ns) (ln_calls l) (ln_outs l)" using c by simp
  have frames: "list_all2 (good_frame t (re_decode ?env) (ln_enc l)) (map fst (ln_calls l)) (ln_outs l)"
    using client_stream_frames [OF tcp enc tok sent, of decode] calls by (simp add: push_env_def)
  have acc: "accepting ?env (ln_enc l) (\<lambda>_ _. True)" by (simp add: accepting_def push_env_def)
  have bytes: "no_errors (ln_reads l)" "sock_bytes (ln_reads l) = concat (ln_outs l)" using c by simp_all
  have fuel: "length (map fst (ln_calls l)) < Suc (length (ln_calls l))" by simp
  obtain rs where rs: "all_received (re_decode ?env) (headerLength t) (map fst (ln_calls l)) (ln_outs l) rs"
    "server_loop (Suc (length (ln_calls l))) t ?env (link_end l) [] (ln_reads l) = (RBlocked, handle_all ?env rs (link_end l) [])"
    using server_loop_stream [OF acc pos frames bytes fuel TrueI] by blast
  have p: "pushed t decode l = map (\<lambda>r. \<lparr>mm_msg = snd r, mm_conn = link_end l\<rparr>) rs"
    unfolding pushed_def server_receiverTCP_def link_end_def [symmetric] rs(2) by (simp add: handle_all_push)
  have "length (map fst (ln_calls l)) = length (ln_outs l)" using list_all2_lengthD [OF sent] by simp
  then have "list_all2 (received_as decode) (map fst (ln_calls l)) (map snd rs)"
    using all_received_messages [OF rs(1)] by (simp add: push_env_def)
  moreover have "map fst (ln_calls l) = map fst (filter (\<lambda>p. snd p = ln_conn l) ps)" using c by simp
  ultimately show ?thesis by (simp add: p list.rel_map)
qed

text \<open>What is known of a message at both ends: its number, its bytes, and their endpoint.\<close>

definition essence :: "message \<Rightarrow> u32 \<times> payload \<times> u64" where
  "essence m = (m_ID m, m_Payload m, GetEndpoint m)"

lemma received_essence:
  assumes "IsUserData m" "m_Payload m = PBytes b" "decode b = Ok (Some info)" "pi_Endpoint info = GetEndpoint m" "received_as decode m r"
  shows "essence r = essence m"
proof -
  have "m_PacketInfo r = Some info" using assms(1-3,5) by (simp add: received_as_def)
  then have "GetEndpoint r = GetEndpoint m" using assms(4) by simp
  then show ?thesis
    using assms(2,5) IsUserData_IsPayload [OF assms(1)] by (simp add: received_as_def received_payload_def essence_def)
qed

lemma filter_partition:
  "distinct (map f ls) \<Longrightarrow> snd ` set ps \<subseteq> set (map f ls) \<Longrightarrow>
     mset (concat (map (\<lambda>l. filter (\<lambda>p. snd p = f l) ps) ls)) = mset ps"
proof (induction ls arbitrary: ps)
  case (Cons l ls)
  let ?ps = "filter (\<lambda>p. snd p \<noteq> f l) ps"
  have eq: "filter (\<lambda>p. snd p = f l') ps = filter (\<lambda>p. snd p = f l') ?ps" if "l' \<in> set ls" for l'
  proof -
    have "f l' \<noteq> f l" using that Cons.prems(1) by (auto simp: image_iff)
    then show ?thesis by (auto intro: filter_cong)
  qed
  have "mset (concat (map (\<lambda>l. filter (\<lambda>p. snd p = f l) ps) ls)) = mset (concat (map (\<lambda>l. filter (\<lambda>p. snd p = f l) ?ps) ls))"
    by (intro arg_cong [where f = "\<lambda>x. mset (concat x)"] map_cong refl eq)
  also have "\<dots> = mset ?ps" using Cons.prems by (intro Cons.IH) auto
  finally have "mset (concat (map (\<lambda>l. filter (\<lambda>p. snd p = f l) ps) (l # ls))) = mset (filter (\<lambda>p. snd p = f l) ps) + mset ?ps"
    by simp
  also have "\<dots> = mset ps" by (simp flip: multiset_partition)
  finally show ?case .
qed simp

text \<open>If every connection hands over what was sent on it, together they hand over what was sent: for any \<open>push\<close> of a link.\<close>

lemma links_cover:
  assumes push: "\<And>l. l \<in> set ls \<Longrightarrow> list_all2 (\<lambda>p r. received_as decode (fst p) (mm_msg r)) (filter (\<lambda>p. snd p = conn_of l) ps) (push l)"
    and "distinct (map conn_of ls)" "snd ` set ps \<subseteq> set (map conn_of ls)"
    and good: "\<forall>m\<in>fst ` set ps. IsUserData m \<and> m_Error m = 0
      \<and> (\<exists>b info. m_Payload m = PBytes b \<and> decode b = Ok (Some info) \<and> pi_Endpoint info = GetEndpoint m)"
  shows "image_mset (\<lambda>r. essence (mm_msg r)) (mset (concat (map push ls))) = image_mset essence (mset (map fst ps))"
proof -
  have essence: "essence (mm_msg r) = essence (fst p)" if "p \<in> set ps" "received_as decode (fst p) (mm_msg r)" for p r
  proof -
    have "fst p \<in> fst ` set ps" using that(1) by simp
    then show ?thesis using good received_essence [OF _ _ _ _ that(2)] by blast
  qed
  have "map (\<lambda>r. essence (mm_msg r)) (push l) = map (\<lambda>p. essence (fst p)) (filter (\<lambda>p. snd p = conn_of l) ps)"
    if "l \<in> set ls" for l
  proof -
    have "list_all2 (\<lambda>p r. essence (fst p) = essence (mm_msg r)) (filter (\<lambda>p. snd p = conn_of l) ps) (push l)"
      using push [OF that]
    proof (rule list.rel_mono_strong)
      fix p r assume "p \<in> set (filter (\<lambda>p. snd p = conn_of l) ps)" "received_as decode (fst p) (mm_msg r)"
      then show "essence (fst p) = essence (mm_msg r)" using essence [of p r] by simp
    qed
    then have "map (\<lambda>p. essence (fst p)) (filter (\<lambda>p. snd p = conn_of l) ps) = map (\<lambda>r. essence (mm_msg r)) (push l)"
      by (simp add: list.rel_map flip: list.rel_eq)
    then show ?thesis by simp
  qed
  then have "map (\<lambda>r. essence (mm_msg r)) (concat (map push ls))
      = map (\<lambda>p. essence (fst p)) (concat (map (\<lambda>l. filter (\<lambda>p. snd p = conn_of l) ps) ls))"
    by (simp add: map_concat comp_def cong: map_cong)
  then have "mset (map (\<lambda>r. essence (mm_msg r)) (concat (map push ls)))
      = image_mset (\<lambda>p. essence (fst p)) (mset (concat (map (\<lambda>l. filter (\<lambda>p. snd p = conn_of l) ps) ls)))"
    by (simp only: mset_map)
  also have "\<dots> = image_mset (\<lambda>p. essence (fst p)) (mset ps)" by (simp only: filter_partition [OF assms(2,3)])
  finally show ?thesis by (simp add: multiset.map_comp comp_def)
qed

lemma links_push_everything:
  assumes "\<forall>l\<in>set ls. carries k t cenv uc ns ps l" "distinct (map ln_conn ls)" "snd ` set ps \<subseteq> set (map ln_conn ls)"
    and good: "\<forall>m\<in>fst ` set ps. IsUserData m \<and> m_Error m = 0
      \<and> (\<exists>b info. m_Payload m = PBytes b \<and> decode b = Ok (Some info) \<and> pi_Endpoint info = GetEndpoint m)"
  shows "image_mset (\<lambda>r. essence (mm_msg r)) (mset (concat (map (pushed t decode) ls))) = image_mset essence (mset (map fst ps))"
proof (rule links_cover [OF _ assms(2,3) good])
  fix l assume "l \<in> set ls"
  then have "list_all2 (\<lambda>p r. received_as decode (fst p) (mm_msg r) \<and> mm_conn r = link_end l)
     (filter (\<lambda>p. snd p = ln_conn l) ps) (pushed t decode l)"
    using assms(1) good by (intro link_pushes) blast+
  then show "list_all2 (\<lambda>p r. received_as decode (fst p) (mm_msg r)) (filter (\<lambda>p. snd p = ln_conn l) ps) (pushed t decode l)"
    by (rule list.rel_mono_strong) simp
qed

text \<open>The arrivals of one endpoint are the messages of that endpoint that were sent.\<close>

lemma arrivals_of_endpoint:
  assumes all: "image_mset (\<lambda>r. essence (mm_msg r)) (mset handed) = image_mset essence (mset out)"
    and arr: "mset (map fst arr) = filter_mset (\<lambda>r. GetEndpoint (mm_msg r) = e) (mset handed)"
  shows "(\<lambda>a. essence (mm_msg (fst a))) ` set arr = essence ` set (filter (\<lambda>m. GetEndpoint m = e) out)"
proof -
  have ep: "filter_mset (\<lambda>x. snd (snd x) = e) (image_mset (\<lambda>r. essence (f r)) M) =
      image_mset (\<lambda>r. essence (f r)) (filter_mset (\<lambda>r. GetEndpoint (f r) = e) M)" for f :: "'z \<Rightarrow> message" and M
    by (simp add: filter_mset_image_mset essence_def)
  have "image_mset (\<lambda>r. essence (mm_msg r)) (mset (map fst arr)) = image_mset essence (mset (filter (\<lambda>m. GetEndpoint m = e) out))"
    using arg_cong [OF all, of "filter_mset (\<lambda>x. snd (snd x) = e)"]
    unfolding arr mset_filter ep [of mm_msg] ep [of "\<lambda>m. m"] .
  then have "set_mset (image_mset (\<lambda>r. essence (mm_msg r)) (mset (map fst arr)))
      = set_mset (image_mset essence (mset (filter (\<lambda>m. GetEndpoint m = e) out)))"
    by (rule arg_cong)
  then show ?thesis by (simp add: image_image)
qed

section \<open>The merger\<close>

text \<open>
  One of the two loops; the one of \<open>V2\<close> starts the stream at the first message that arrives, so
  that nothing is lost only if that is the first one.
\<close>

definition merges :: "merger_config \<Rightarrow> (int \<Rightarrow> int \<Rightarrow> merge_message \<Rightarrow> waiting_list \<Rightarrow> (gerror, waiting_list) res)
    \<Rightarrow> arrival list \<Rightarrow> bool" where
  "merges cfg handle arr \<longleftrightarrow> handle = v1_handle cfg
     \<or> handle = v2_handle cfg \<and> (case arr of [] \<Rightarrow> True | a # _ \<Rightarrow> mm_id (fst a) = 1)"

lemma merges_reassembly:
  assumes h: "merges cfg handle arr" and ids: "(\<lambda>a. mm_id (fst a)) ` set arr = of_nat ` {1..n}"
    and n: "n + 1 < 2 ^ 32" and ng: "no_giveup cfg arr"
  shows "\<exists>wl. run_stream handle arr newWaitingList = Ok wl \<and> sent_ids wl = map of_nat [1..<n + 1]
     \<and> wl_data wl = [] \<and> wl_holds wl \<subseteq># mset (map fst arr)"
proof -
  have small: "unat (mm_id (fst a)) \<le> n" if "a \<in> set arr" for a
  proof -
    have "mm_id (fst a) \<in> of_nat ` {1..n}" using ids that by blast
    then obtain i where "i \<in> {1..n}" "mm_id (fst a) = of_nat i" by blast
    then show ?thesis using n unat_of_nat_u32 [of i] by simp
  qed
  consider "handle = v1_handle cfg" | "arr = []" "handle = v2_handle cfg"
    | req t1 t2 as where "arr = (req, t1, t2) # as" "mm_id req = of_nat 1" "handle = v2_handle cfg"
    using h by (cases arr) (auto simp: merges_def)
  then show ?thesis
  proof cases
    case 1
    then show ?thesis using v1_reassembly [OF ids n ng] by simp
  next
    case 2
    then have "n = 0" using ids by auto
    then show ?thesis using 2 by (simp add: newWaitingList_def wl_holds_def)
  next
    case 3
    have "\<forall>a\<in>set as. unat (mm_id (fst a)) \<le> n" "1 \<le> n"
      using small 3(1,2) by (auto simp: less_eq_Suc_le) fastforce
    moreover have "of_nat ` {1..n} \<subseteq> (\<lambda>a. mm_id (fst a)) ` set arr" using ids by simp
    ultimately show ?thesis using v2_reassembly [OF 3(2) order.refl _ n] ng 3(1,3) by simp
  qed
qed

text \<open>The messages of an endpoint, numbered from 1, come out with their bytes in order.\<close>

lemma merged_payloads:
  assumes h: "merges cfg handle arr" and ng: "no_giveup cfg arr" and n: "length bs + 1 < 2 ^ 32"
    and ess: "(\<lambda>a. essence (mm_msg (fst a))) ` set arr = essence ` set ms"
    and ms: "map m_ID ms = map of_nat [1..<1 + length ms]" "map m_Payload ms = map PBytes bs"
  shows "\<exists>wl. run_stream handle arr newWaitingList = Ok wl \<and> wl_data wl = [] \<and> wl_holds wl \<subseteq># mset (map fst arr)
     \<and> map (\<lambda>r. m_Payload (mm_msg r)) (wl_sent wl) = map PBytes bs"
proof -
  have len: "length ms = length bs" using arg_cong [OF ms(2), of length] by simp
  have nth: "m_ID (ms ! i) = of_nat (Suc i)" "m_Payload (ms ! i) = PBytes (bs ! i)" if "i < length bs" for i
    using arg_cong [OF ms(1), of "\<lambda>xs. xs ! i"] arg_cong [OF ms(2), of "\<lambda>xs. xs ! i"] that len
    by (simp_all del: upt_Suc)
  have "(\<lambda>a. mm_id (fst a)) ` set arr = fst ` (\<lambda>a. essence (mm_msg (fst a))) ` set arr"
    by (simp add: image_image essence_def mm_id_def)
  also have "\<dots> = m_ID ` set ms" unfolding ess by (simp add: image_image essence_def)
  also have "\<dots> = set (map of_nat [1..<1 + length ms])" using arg_cong [OF ms(1), of set] by simp
  also have "\<dots> = of_nat ` {1..length bs}" using len by (simp add: atLeastLessThanSuc_atLeastAtMost del: upt_Suc)
  finally obtain wl where wl: "run_stream handle arr newWaitingList = Ok wl" "sent_ids wl = map of_nat [1..<length bs + 1]"
    "wl_data wl = []" "wl_holds wl \<subseteq># mset (map fst arr)"
    using merges_reassembly [OF h _ n ng] by blast
  have "map (\<lambda>r. m_Payload (mm_msg r)) (wl_sent wl) = map PBytes bs"
  proof (rule nth_equalityI)
    show lens: "length (map (\<lambda>r. m_Payload (mm_msg r)) (wl_sent wl)) = length (map PBytes bs)"
      using arg_cong [OF wl(2), of length] by (simp del: upt_Suc)
    fix i assume "i < length (map (\<lambda>r. m_Payload (mm_msg r)) (wl_sent wl))"
    then have i: "i < length (wl_sent wl)" "i < length bs" using lens by simp_all
    let ?r = "wl_sent wl ! i"
    have "?r \<in># wl_holds wl" using i(1) by (simp add: wl_holds_def)
    then have "?r \<in> fst ` set arr" using wl(4) by (metis mset_subset_eqD set_mset_mset list.set_map)
    then obtain a where a: "a \<in> set arr" "?r = fst a" by blast
    have "essence (mm_msg ?r) \<in> essence ` set ms"
      using imageI [OF a(1), of "\<lambda>a. essence (mm_msg (fst a))"] by (simp only: ess a(2))
    then obtain j where j: "j < length bs" "essence (mm_msg ?r) = essence (ms ! j)" using len by (auto simp: in_set_conv_nth)
    have "mm_id ?r = of_nat (Suc i)"
      using arg_cong [OF wl(2), of "\<lambda>xs. xs ! i"] i by (simp del: upt_Suc)
    moreover have "mm_id ?r = of_nat (Suc j)" using j nth(1) by (simp add: essence_def mm_id_def)
    ultimately have "(of_nat (Suc i) :: u32) = of_nat (Suc j)" by simp
    then have "unat (of_nat (Suc i) :: u32) = unat (of_nat (Suc j) :: u32)" by (rule arg_cong)
    moreover have "unat (of_nat (Suc k) :: u32) = Suc k" if "k < length bs" for k
      using that n by (intro unat_of_nat_u32) linarith
    ultimately have "i = j" using i(2) j(1) by (simp del: of_nat_Suc)
    then show "map (\<lambda>r. m_Payload (mm_msg r)) (wl_sent wl) ! i = map PBytes bs ! i"
      using i j nth(2) by (simp add: essence_def)
  qed
  with wl show ?thesis by blast
qed

section \<open>The server writes\<close>

text \<open>The receiver handler of the merger is \<open>socketReceiver\<close>: one call for each message it delivers.\<close>

fun deliver_all :: "(message \<Rightarrow> connection \<Rightarrow> (gerror, unit) res) \<Rightarrow> server_lib \<Rightarrow> server_world \<Rightarrow> merge_message list
    \<Rightarrow> server_uc \<Rightarrow> server_uc option" where
  "deliver_all send lib w [] uc = Some uc"
| "deliver_all send lib w (r # rs) uc =
     (case server_socketReceiver send lib w (mm_msg r) (mm_conn r) uc of
        Some (Ok _, conn, uc1) \<Rightarrow> deliver_all send lib w rs uc1
      | _ \<Rightarrow> None)"

text \<open>A connection that authentication and handshake have tied to an interface.\<close>

definition routed :: "string \<Rightarrow> server_uc \<Rightarrow> connection \<Rightarrow> bool" where
  "routed name uc conn \<longleftrightarrow> (\<exists>sc ifc. getConnection conn uc = Ok (Some sc) \<and> sc_ifName sc = name
     \<and> getInterfaceByName name uc = Some ifc \<and> si_Name ifc = name)"

lemma deliver_routed:
  assumes "sw_write w = Ok ()"
  shows "\<forall>r\<in>set rs. m_Type (mm_msg r) = MessageTypeData \<and> routed name uc (mm_conn r)
       \<and> (\<exists>b. m_Payload (mm_msg r) = PBytes b)
     \<Longrightarrow> deliver_all send lib w rs uc =
       Some (uc\<lparr>su_written := su_written uc @ map (\<lambda>r. (name, m_Payload (mm_msg r))) rs\<rparr>)"
proof (induction rs arbitrary: uc)
  case (Cons r rs)
  let ?uc = "uc\<lparr>su_written := su_written uc @ [(name, m_Payload (mm_msg r))]\<rparr>"
  obtain sc ifc b where r: "m_Type (mm_msg r) = MessageTypeData" "m_Payload (mm_msg r) = PBytes b"
    "getConnection (mm_conn r) uc = Ok (Some sc)" "sc_ifName sc = name" "getInterfaceByName name uc = Some ifc" "si_Name ifc = name"
    using Cons.prems by (auto simp: routed_def)
  have "server_socketReceiver send lib w (mm_msg r) (mm_conn r) uc = Some (Ok (), mm_conn r, ?uc)"
    using r assms by (simp add: server_socketReceiver_def command_def commandData_def iface_Write_def error_response_def)
  moreover have "routed name ?uc c = routed name uc c" for c
    by (simp add: routed_def getConnection_def getInterfaceByName_def)
  then have "deliver_all send lib w rs ?uc = Some (?uc\<lparr>su_written := su_written ?uc @ map (\<lambda>r. (name, m_Payload (mm_msg r))) rs\<rparr>)"
    using Cons.prems by (intro Cons.IH) simp
  ultimately show ?case by simp
qed simp

section \<open>From interface to interface\<close>

text \<open>What the threads send is user data that the decoder of the server describes like the client's.\<close>

lemma stamped_good:
  assumes "listened (client_ifacePacketDecoder parse tracing) m"
  shows "IsUserData (stamped uc m) \<and> m_Error (stamped uc m) = 0 \<and> m_PacketInfo m \<noteq> None
     \<and> (\<exists>b info. m_Payload (stamped uc m) = PBytes b \<and> server_sockPacketDecoder parse' tracing' b = Ok (Some info)
          \<and> pi_Endpoint info = GetEndpoint (stamped uc m))"
proof -
  obtain i data info info' where m: "m = new_message\<lparr>m_ID := i, m_Payload := PBytes data,
       m_PayloadLength := of_nat (length data), m_PacketInfo := Some info'\<rparr>"
    and info: "client_ifacePacketDecoder parse tracing data = Ok (Some info)" "pi_Endpoint info' = pi_Endpoint info"
    using assms unfolding listened_def by blast
  obtain j where j: "server_sockPacketDecoder parse' tracing' data = Ok (Some j)" "pi_Endpoint j = pi_Endpoint info"
    using upstream_decoders_agree [OF info(1)] .
  have "IsUserData (stamped uc m)" "m_Error (stamped uc m) = 0" "m_PacketInfo m \<noteq> None"
    "m_Payload (stamped uc m) = PBytes data" "GetEndpoint (stamped uc m) = pi_Endpoint info"
    using info(2) by (simp_all add: m stamped_def new_message_def IsUserData_def GetEndpoint_def)
  with j show ?thesis by simp
qed

lemma essence_stamped [simp]: "essence (stamped uc m) = essence m"
  by (simp add: essence_def stamped_def GetEndpoint_def)

lemma list_all2_set2: "list_all2 P xs ys \<Longrightarrow> y \<in> set ys \<Longrightarrow> \<exists>x\<in>set xs. P x y"
  by (induction xs ys rule: list_all2_induct) auto

lemma pushed_routed:
  assumes "carries k t cenv uc ns ps l" "r \<in> set (pushed t decode l)"
    and "\<forall>m\<in>fst ` set ps. IsUserData m \<and> m_Error m = 0 \<and> (\<exists>b info. m_Payload m = PBytes b \<and> decode b = Ok info)"
  shows "m_Type (mm_msg r) = MessageTypeData \<and> mm_conn r = link_end l \<and> (\<exists>b. m_Payload (mm_msg r) = PBytes b)"
proof -
  obtain p where p: "p \<in> set ps" "received_as decode (fst p) (mm_msg r)" "mm_conn r = link_end l"
    using list_all2_set2 [OF link_pushes [OF assms(1,3)] assms(2)] by auto
  have "fst p \<in> fst ` set ps" using p(1) by simp
  then obtain b where b: "IsUserData (fst p)" "m_Error (fst p) = 0" "m_Payload (fst p) = PBytes b" using assms(3) by blast
  then show ?thesis
    using p(2,3) IsUserData_IsPayload [OF b(1)] by (simp add: received_as_def received_payload_def IsUserData_def)
qed

text \<open>What the threads send of the messages of the listener.\<close>

lemma loop_sends_listened:
  assumes listen: "listen_run (client_ifacePacketDecoder parse tracing) ifName ttl evs listener_new = Ok s"
    and client: "client_reach clib uc" "can_send uc" "mset (map snd wms) = mset (il_out s)"
      "\<forall>(w, m)\<in>set wms. \<forall>m c. cw_SendAsync w m c \<noteq> Panic" "client_interfaceLoop wms uc = (res, uc1)"
  defines "ps \<equiv> drop (length (cu_sent uc)) (cu_sent uc1)"
  shows "map fst ps = map (stamped uc \<circ> snd) wms" "snd ` set ps \<subseteq> set (client_links uc)"
    and "fst ` set ps = stamped uc ` set (il_out s)" "\<forall>m\<in>set (il_out s). listened (client_ifacePacketDecoder parse tracing) m"
proof -
  show heard: "\<forall>m\<in>set (il_out s). listened (client_ifacePacketDecoder parse tracing) m"
    using listen_run_listened [OF listen] by (simp add: listener_new_def)
  have same: "set (map snd wms) = set (il_out s)" by (rule mset_eq_setD [OF client(3)])
  have "m_PacketInfo m \<noteq> None" if "(w, m) \<in> set wms" for w m
  proof -
    have "m \<in> set (map snd wms)" using that by force
    then show ?thesis using heard stamped_good unfolding same by blast
  qed
  then have worlds: "\<forall>(w, m)\<in>set wms. m_PacketInfo m \<noteq> None \<and> (\<forall>m c. cw_SendAsync w m c \<noteq> Panic)"
    using client(4) by blast
  have tables: "client_tables uc" using client_reach_inv [OF client(1)] by (simp add: client_inv_def)
  obtain qs st where loop: "client_interfaceLoop wms uc = (Ok (), uc\<lparr>cu_sent := cu_sent uc @ qs, cu_stat := st\<rparr>)"
    "map fst qs = map (stamped uc \<circ> snd) wms" "snd ` set qs \<subseteq> set (client_links uc)"
    using client_loop_sends [OF tables client(2) worlds] by blast
  then have "ps = qs" using client(5) by (auto simp: ps_def)
  then show ps: "map fst ps = map (stamped uc \<circ> snd) wms" "snd ` set ps \<subseteq> set (client_links uc)"
    using loop(2,3) by simp_all
  have "set (map fst ps) = stamped uc ` set (map snd wms)" unfolding ps(1) by (simp add: image_image)
  then show "fst ` set ps = stamped uc ` set (il_out s)" unfolding same by simp
qed

text \<open>What the merger makes of the arrivals is written to the interface.\<close>

lemma merged_written:
  assumes h: "merges cfg handle arr" "no_giveup cfg arr" and n: "length bs + 1 < 2 ^ 32"
    and ess: "(\<lambda>a. essence (mm_msg (fst a))) ` set arr = essence ` set ms"
    and ms: "map m_ID ms = map of_nat [1..<1 + length ms] \<and> map m_Payload ms = map PBytes bs"
    and arr: "\<And>r. r \<in> fst ` set arr \<Longrightarrow> m_Type (mm_msg r) = MessageTypeData \<and> routed name suc (mm_conn r) \<and> (\<exists>b. m_Payload (mm_msg r) = PBytes b)"
    and w: "sw_write w = Ok ()"
  shows "\<exists>wl suc1. run_stream handle arr newWaitingList = Ok wl \<and> wl_data wl = []
     \<and> deliver_all send slib w (wl_sent wl) suc = Some suc1 \<and> su_written suc1 = su_written suc @ map (\<lambda>b. (name, PBytes b)) bs"
proof -
  obtain wl where wl: "run_stream handle arr newWaitingList = Ok wl" "wl_data wl = []" "wl_holds wl \<subseteq># mset (map fst arr)"
    "map (\<lambda>r. m_Payload (mm_msg r)) (wl_sent wl) = map PBytes bs"
    using merged_payloads [OF h n ess conjunct1 [OF ms] conjunct2 [OF ms]] by blast
  have "set (wl_sent wl) \<subseteq> fst ` set arr" using set_mset_mono [OF wl(3)] by (simp add: wl_holds_def)
  then have "\<forall>r\<in>set (wl_sent wl). m_Type (mm_msg r) = MessageTypeData \<and> routed name suc (mm_conn r) \<and> (\<exists>b. m_Payload (mm_msg r) = PBytes b)"
    using arr by blast
  then have "deliver_all send slib w (wl_sent wl) suc =
      Some (suc\<lparr>su_written := su_written suc @ map (\<lambda>r. (name, m_Payload (mm_msg r))) (wl_sent wl)\<rparr>)"
    by (rule deliver_routed [OF w])
  moreover have "map (\<lambda>r. (name, m_Payload (mm_msg r))) (wl_sent wl) = map (Pair name) (map (\<lambda>r. m_Payload (mm_msg r)) (wl_sent wl))"
    by simp
  then have "map (\<lambda>r. (name, m_Payload (mm_msg r))) (wl_sent wl) = map (\<lambda>b. (name, PBytes b)) bs"
    unfolding wl(4) by simp
  ultimately show ?thesis using wl(1,2) by auto
qed


section \<open>Two packets\<close>

definition demo_endpoint :: u64 where
  "demo_endpoint = fastHash [10, 0, 0, 2] endpointTypeIPv4"

definition demo_info :: packet_info where
  "demo_info = new_packet_info\<lparr>pi_Endpoint := demo_endpoint, pi_Protocol := 6\<rparr>"

lemma demo_decodes:
  "client_ifacePacketDecoder parse False (sample_packet b) = Ok (Some demo_info)"
  "server_sockPacketDecoder parse False (sample_packet b) = Ok (Some demo_info)"
  by (simp_all add: client_ifacePacketDecoder_def server_sockPacketDecoder_def Decode_def decodeIP_def decodeIPv4_def
      sample_packet_def hashed_bytes_def slice_def Let_def demo_info_def demo_endpoint_def)

definition demo_message :: "u32 \<Rightarrow> u8 \<Rightarrow> message" where
  "demo_message i b = new_message\<lparr>m_ID := i, m_Payload := PBytes (sample_packet b), m_PayloadLength := 20,
     m_PacketInfo := Some (demo_info\<lparr>pi_IfName := ''tun0''\<rparr>)\<rparr>"

definition demo_reads :: "iface_read list" where
  "demo_reads = [ReadPacket (sample_packet 5) 10 10, ReadPacket (sample_packet 6) 11 11]"

lemma demo_listened:
  "\<exists>s. listen_run (client_ifacePacketDecoder parse False) ''tun0'' 600 demo_reads listener_new = Ok s
     \<and> il_out s = [demo_message 1 5, demo_message 2 6]"
proof -
  have len: "length (sample_packet b) = 20" for b by (simp add: sample_packet_def)
  show ?thesis
    by (simp add: demo_reads_def listen_step_def demo_decodes getMessageID_def evict_def listener_new_def pool_get_def
        Let_def demo_message_def len demo_info_def)
qed

lemma demo_read_facts:
  "packets_of (client_ifacePacketDecoder parse False) demo_endpoint demo_reads = [sample_packet 5, sample_packet 6]"
  "endpoints_of (client_ifacePacketDecoder parse False) demo_reads = {demo_endpoint}"
  by (simp_all add: demo_reads_def packets_of_def endpoints_of_def demo_decodes) (simp_all add: demo_info_def)

lemma demo_connected_facts:
  "can_send demo_connected" "client_links demo_connected = [(demo_conn 1000)\<lparr>c_SessionID := 5\<rparr>]"
  "cu_sent demo_connected = []" "c_TCPConn (demo_conn 1000) \<noteq> None"
  by (simp_all add: can_send_def client_links_def demo_connected_def client_eval demo_defs Connection_Key_def new_connection_def
      new_message_def UseStreamMerger_def GetPortSelectionStrategy_def Let_def)

lemma demo_stamped_sendable: "sendable sample_transport (stamped demo_connected (demo_message i b))"
proof -
  have "cu_compressionType demo_connected = 0" "cu_compressionLevel demo_connected = 0"
    by (simp_all add: demo_connected_def client_eval demo_defs Connection_Key_def new_connection_def
      new_message_def UseStreamMerger_def GetCompressionType_def Let_def)
  then show ?thesis
    by (simp add: stamped_def demo_message_def sendable_def wire_ok_def wire_payload_def new_message_def MessageType_Valid_def
      sample_transport_def NewTapirCodec_def new_compressor_def plain_lib_def IsPayload_def sample_packet_def)
qed

definition demo_enc_env :: "client_uc receiver_env" where
  "demo_enc_env = \<lparr>re_enc = (\<lambda>_ _. Ok (Some (NewEmpty []))), re_decode = (\<lambda>_. Err EOF), re_receiver = (\<lambda>m c s. (Ok (), c, s)),
     re_stat = (\<lambda>_ _ s. s), re_disconnect = (\<lambda>_ _ s. s)\<rparr>"

text \<open>The messages are sent in one order of the threads, on the one connection.\<close>

lemma demo_link:
  fixes uc :: client_uc
  defines "m1 \<equiv> stamped demo_connected (demo_message 1 5)" and "m2 \<equiv> stamped demo_connected (demo_message 2 6)"
    and "conn \<equiv> (demo_conn 1000)\<lparr>c_SessionID := 5\<rparr>"
  shows "\<exists>l. ln_conn l = conn \<and> ln_so l = \<lparr>so_LocalAddr = NoAddr, so_RemoteAddr = TCPAddr [10, 9, 8, 7] 5555\<rparr> \<and> ln_port l = 1000
     \<and> carries 0 sample_transport demo_enc_env uc ns [(m2, conn), (m1, conn)] l"
proof -
  have tcp: "c_TCPConn conn \<noteq> None" by (simp add: conn_def demo_conn_def)
  have enc: "re_enc demo_enc_env conn uc = Ok (Some (NewEmpty []))" by (simp add: demo_enc_env_def)
  have draws: "draws_ok 0 sample_draws" by (simp add: draws_ok_def sample_draws_def rand_ok_def)
  have "\<exists>out. client_sent sample_transport demo_enc_env conn uc ns (m, sample_draws, [Wrote (length out)], 0) out"
    if m: "IsUserData m" "sendable sample_transport m" "m_Error m = 0" "m_Payload m = PBytes b" for m b
  proof -
    have "proper sample_transport (\<lambda>_. Ok None) m" using m by (simp add: proper_def)
    from seal_proper [OF sample_transport_ok draws this, of True False] obtain data where
      data: "seal sample_transport True False (user_encryptor (NewEmpty []) m) (dr_fake sample_draws) (dr_rnd1 sample_draws)
        (dr_rnd2 sample_draws) m = Ok data" using IsUserData_IsPayload [OF m(1)] by blast
    have w: "write_all data [Wrote (length data)] = Some (data, Ok ())"
      by (simp add: write_all.simps)
    have "client_sent sample_transport demo_enc_env conn uc ns (m, sample_draws, [Wrote (length data)], 0) data"
      unfolding client_sent_def client_SendAsync_def prod.case user_choice [OF enc, of m]
      using tcp data w by (simp add: sendAsyncTCP_def)
    then show ?thesis by blast
  qed
  moreover have "IsUserData (stamped demo_connected (demo_message i b)) \<and> m_Error (stamped demo_connected (demo_message i b)) = 0
      \<and> m_Payload (stamped demo_connected (demo_message i b)) = PBytes (sample_packet b)" for i b
    by (simp add: stamped_def demo_message_def new_message_def IsUserData_def)
  ultimately obtain o1 o2 where
    o1: "client_sent sample_transport demo_enc_env conn uc ns (m1, sample_draws, [Wrote (length o1)], 0) o1" and
    o2: "client_sent sample_transport demo_enc_env conn uc ns (m2, sample_draws, [Wrote (length o2)], 0) o2"
    using demo_stamped_sendable unfolding m1_def m2_def by meson
  define l where "l = \<lparr>ln_conn = conn, ln_calls = [(m2, sample_draws, [Wrote (length o2)], 0), (m1, sample_draws, [Wrote (length o1)], 0)],
    ln_outs = [o2, o1], ln_enc = NewEmpty [], ln_so = \<lparr>so_LocalAddr = NoAddr, so_RemoteAddr = TCPAddr [10, 9, 8, 7] 5555\<rparr>,
    ln_port = 1000, ln_reads = [Data (take 3 o2), Data (drop 3 o2 @ o1)]\<rparr>"
  have "carries 0 sample_transport demo_enc_env uc ns [(m2, conn), (m1, conn)] l"
    unfolding carries_def
    using tcp enc sample_transport_ok draws o1 o2 demo_stamped_sendable
    by (simp add: l_def no_errors_def) (simp add: m1_def m2_def)
  then show ?thesis by (intro exI [of _ l]) (simp add: l_def)
qed

lemma demo_routed:
  "ln_so l = \<lparr>so_LocalAddr = NoAddr, so_RemoteAddr = TCPAddr [10, 9, 8, 7] 5555\<rparr> \<Longrightarrow> ln_port l = 1000 \<Longrightarrow>
   routed ''tun0'' demo_in (link_end l)"
  by (simp add: routed_def link_end_def getConnection_def getInterfaceByName_def demo_in_def server_eval gomap_simps)

definition demo_merging :: merger_config where
  "demo_merging = \<lparr>mc_ThreadingBy = ''session'', mc_WaitingListMaxSize = 200000, mc_WaitingListMaxTTL = 500,
     mc_StreamCheckInterval = 60, mc_StreamTTL = 300, mc_StreamCount = 4\<rparr>"


end
