(* ===== verification/Reliable.thy ===== *)
theory Reliable
  imports Tracking Tunnel
begin

text \<open>
  A UDP session of the client with the server \<open>V1\<close> over a network that loses, duplicates, delays and reorders datagrams: the
  sender of the client with its retransmission, the receiver of the server with its accumulators, their acknowledgements, and
  the receiver of the client that hands them to the retransmission.
\<close>

section \<open>Datagrams fit\<close>

text \<open>A sealed message is not longer than the buffer that a datagram is read into, when the codec's payload size is within the MTU.\<close>

lemma seal_fits:
  assumes ok: "transport_ok k t u" and d: "draws_ok k d" and m: "proper t decode m" and mtu: "tp_PayloadSize (tr_codec t) \<le> tr_MTU t"
    and s: "seal t False pf (user_encryptor u m) (dr_fake d) (dr_rnd1 d) (dr_rnd2 d) m = Ok f"
  shows "length f \<le> buffer_size t"
proof -
  let ?c = "tr_codec t" and ?user = "user_encryptor u m"
  let ?e = "payload_encryptor t ?user"
  have e: "encryptor_laws (tr_enc t) k" "encryptor_laws ?e k" "tapir_ok ?c"
    "\<And>n. 0 \<le> n \<Longrightarrow> e_GetLength ?e n = e_GetLength (tr_enc t) n"
    using ok by (auto simp: transport_ok_def payload_encryptor_def user_encryptor_def)
  have wire: "wire_ok ?c m" using m by (simp add: proper_def sendable_def)
  obtain h p where mar: "Marshal ?c (dr_fake d) m = Ok (h, p)" "length h = HeaderSize" "int (length p) \<le> tp_PayloadSize ?c"
    using marshal_arrives [OF e(3) wire, of "dr_fake d"] by blast
  have hne: "h \<noteq> []" using mar(2) by auto
  have head: "int (length ch) = int (headerLength t)" if "rand_ok k rnd" "e_Encrypt (tr_enc t) rnd h = Ok ch" for rnd ch
    using encryptor_laws.decrypt_encrypted(2) [OF e(1) that(1) hne that(2)] mar(2) by (simp add: headerLength_def)
  have top: "0 \<le> e_GetLength (tr_enc t) (tr_MTU t)"
  proof -
    have "0 \<le> tr_MTU t" using mtu mar(3) by linarith
    then show ?thesis using encryptor_laws.length_above [OF e(1), of "tr_MTU t"] by linarith
  qed
  have body: "int (length cp) \<le> e_GetLength (tr_enc t) (tr_MTU t)"
    if r: "rand_ok k rnd" and sp: "seal_payload t False ?user rnd p = Ok cp" for rnd cp
  proof (cases "p = []")
    case True
    then show ?thesis using sp top by (simp add: seal_payload_def)
  next
    case False
    have "int (length cp) = e_GetLength ?e (int (length p))"
      using seal_payload_opens [OF e(2) r refl False, of False] sp by auto
    also have "\<dots> \<le> e_GetLength (tr_enc t) (tr_MTU t)"
      using encryptor_laws.length_mono [OF e(1), of "int (length p)" "tr_MTU t"] mar(3) mtu by (simp add: e(4))
    finally show ?thesis .
  qed
  have rnd: "rand_ok k (dr_rnd1 d)" "rand_ok k (dr_rnd2 d)" using d by (simp_all add: draws_ok_def)
  obtain ch cp where f: "f = ch @ cp" "int (length ch) = int (headerLength t)" "int (length cp) \<le> e_GetLength (tr_enc t) (tr_MTU t)"
    using s mar(1) head rnd body by (cases pf) (auto simp: seal_def res_simps split: res.splits)
  then have "int (length f) \<le> e_GetLength (tr_enc t) (tr_MTU t) + int (headerLength t)" by simp
  then show ?thesis unfolding buffer_size_def by linarith
qed

section \<open>The receiver of the server\<close>

text \<open>The use case behind the socket: the channel of the merger, and the set of dropped sessions.\<close>

definition push_server :: "encryptor \<Rightarrow> packet_decoder \<Rightarrow> (merge_message list \<times> u32 list) server_env" where
  "push_server u decode = \<lparr>se_env = \<lparr>re_enc = (\<lambda>_ _. Ok (Some u)), re_decode = decode,
       re_receiver = (\<lambda>m conn (q, dropped). (Ok (), conn, q @ [\<lparr>mm_msg = m, mm_conn = conn\<rparr>], dropped)),
       re_stat = (\<lambda>_ _ s. s), re_disconnect = (\<lambda>_ _ s. s)\<rparr>,
     se_dropped = snd, se_set_dropped = (\<lambda>dropped (q, _). (q, dropped))\<rparr>"

lemma push_server_accepting: "accepting (se_env (push_server u decode)) u (\<lambda>_ _. True)"
  by (simp add: accepting_def push_server_def split: prod.splits)

lemma push_server_decode [simp]: "re_decode (se_env (push_server u decode)) = decode"
  by (simp add: push_server_def)

lemma push_cleanup: "fst (snd (control_cleanup (push_server u decode) ctl s)) = fst s"
  by (cases s) (simp add: control_cleanup_def push_server_def Let_def)

text \<open>The queues of the accumulators grow, by entries of \<open>A\<close> for the session of each; accumulators are never taken away.\<close>

definition queues_grow :: "(u32 \<Rightarrow> (u32 \<times> u64) set) \<Rightarrow> ack_instance list \<Rightarrow> ack_instance list \<Rightarrow> bool" where
  "queues_grow A xs ys \<longleftrightarrow> length xs \<le> length ys
     \<and> (\<forall>a<length ys. \<exists>more. ai_queue (ys ! a) = (if a < length xs then ai_queue (xs ! a) else []) @ more
          \<and> set more \<subseteq> A (ai_session (ys ! a)) \<and> (a < length xs \<longrightarrow> ai_session (ys ! a) = ai_session (xs ! a)))"

lemma queues_grow_refl [simp]: "queues_grow A xs xs"
  by (simp add: queues_grow_def)

lemma queues_grow_new: "queues_grow A xs (xs @ [\<lparr>ai_session = sid, ai_queue = [], ai_stopped = b\<rparr>])"
  by (auto simp: queues_grow_def nth_append)

lemma queues_grow_enqueue:
  assumes g: "queues_grow A xs ys" and a: "a < length ys" "(i, e) \<in> A (ai_session (ys ! a))"
  shows "queues_grow A xs (ys[a := ack_enqueue i e (ys ! a)])"
  unfolding queues_grow_def
proof (intro conjI allI impI)
  show "length xs \<le> length (ys[a := ack_enqueue i e (ys ! a)])" using g by (simp add: queues_grow_def)
  fix b assume "b < length (ys[a := ack_enqueue i e (ys ! a)])"
  then have b: "b < length ys" by simp
  then obtain more where more: "ai_queue (ys ! b) = (if b < length xs then ai_queue (xs ! b) else []) @ more"
    "set more \<subseteq> A (ai_session (ys ! b))" "b < length xs \<longrightarrow> ai_session (ys ! b) = ai_session (xs ! b)"
    using g unfolding queues_grow_def by blast
  then show "\<exists>more. ai_queue (ys[a := ack_enqueue i e (ys ! a)] ! b) = (if b < length xs then ai_queue (xs ! b) else []) @ more
      \<and> set more \<subseteq> A (ai_session (ys[a := ack_enqueue i e (ys ! a)] ! b))
      \<and> (b < length xs \<longrightarrow> ai_session (ys[a := ack_enqueue i e (ys ! a)] ! b) = ai_session (xs ! b))"
    using a b by (intro exI [of _ "more @ (if b = a then [(i, e)] else [])"]) (auto simp: ack_enqueue_def nth_list_update)
qed

lemma queues_growD:
  assumes "queues_grow A xs ys"
  shows "a < length xs \<Longrightarrow> a < length ys" "a < length xs \<Longrightarrow> ai_session (ys ! a) = ai_session (xs ! a)"
    and "a < length xs \<Longrightarrow> \<exists>more. ai_queue (ys ! a) = ai_queue (xs ! a) @ more"
    and "a < length ys \<Longrightarrow> x \<in> set (ai_queue (ys ! a)) \<Longrightarrow>
      a < length xs \<and> x \<in> set (ai_queue (xs ! a)) \<or> x \<in> A (ai_session (ys ! a))"
proof -
  have *: "\<exists>more. ai_queue (ys ! a) = (if a < length xs then ai_queue (xs ! a) else []) @ more
      \<and> set more \<subseteq> A (ai_session (ys ! a)) \<and> (a < length xs \<longrightarrow> ai_session (ys ! a) = ai_session (xs ! a))" if "a < length ys" for a
    using assms that unfolding queues_grow_def by blast
  show len: "a < length xs \<Longrightarrow> a < length ys" using assms unfolding queues_grow_def by linarith
  show "a < length xs \<Longrightarrow> ai_session (ys ! a) = ai_session (xs ! a)"
    "a < length xs \<Longrightarrow> \<exists>more. ai_queue (ys ! a) = ai_queue (xs ! a) @ more"
    using *[OF len] by auto
  show "a < length ys \<Longrightarrow> x \<in> set (ai_queue (ys ! a)) \<Longrightarrow>
      a < length xs \<and> x \<in> set (ai_queue (xs ! a)) \<or> x \<in> A (ai_session (ys ! a))"
    using *[of a] by (auto split: if_splits)
qed

lemma attach_grows: "attach_control m conn ctl ns = (conn1, ctl1, ns1) \<Longrightarrow> queues_grow A (ns_acks ns) (ns_acks ns1)"
  by (auto simp: attach_control_def retryFactory_def ackFactory_def queues_grow_new split: if_splits option.splits prod.splits)

lemma attach_connection: "attach_control m conn ctl ns = (conn1, ctl1, ns1) \<Longrightarrow> \<exists>r a. conn1 = conn\<lparr>c_Retry := r, c_Ack := a\<rparr>"
proof -
  assume att: "attach_control m conn ctl ns = (conn1, ctl1, ns1)"
  show ?thesis
  proof (cases "m_SessionID m = 0")
    case True
    then show ?thesis using att by (intro exI [of _ "c_Retry conn"] exI [of _ "c_Ack conn"]) (simp add: attach_control_def)
  qed (use att in \<open>auto simp: attach_control_def split: option.splits prod.splits\<close>)
qed

lemma with_retry_acks: "with_retry h f ns = Ok ns1 \<Longrightarrow> ns_acks ns1 = ns_acks ns"
  by (auto simp: with_retry_def split: option.splits if_splits)

text \<open>
  What an opened message with a session number does at \<open>V1\<close>: user data is handed over and its number is queued with the
  accumulator of its session; nothing else is queued, and what is handed over is the message.
\<close>

definition queued_of :: "message \<Rightarrow> u32 \<Rightarrow> (u32 \<times> u64) set" where
  "queued_of m sid = (if IsUserData m \<and> sid = m_SessionID m then {(m_ID m, GetEndpoint m)} else {})"

lemma v1_deliver_push:
  assumes ok: "control_ok ctl ns" and sid: "m_SessionID m \<noteq> 0"
    and del: "v1_deliver (push_server u decode) now pending m conn (ctl, ns, q, d) = (e, ctl1, ns1, q1, d1)"
  shows "queues_grow (queued_of m) (ns_acks ns) (ns_acks ns1)"
    and "q1 = q \<and> \<not> IsUserData m \<or> (\<exists>r a. q1 = q @ [\<lparr>mm_msg = m, mm_conn = conn\<lparr>c_Retry := r, c_Ack := a\<rparr>\<rparr>])"
    and "IsUserData m \<Longrightarrow> \<exists>a<length (ns_acks ns1). ai_session (ns_acks ns1 ! a) = m_SessionID m
       \<and> (m_ID m, GetEndpoint m) \<in> set (ai_queue (ns_acks ns1 ! a))"
proof -
  let ?env = "push_server u decode"
  obtain conn1 ctl2 ns2 where att: "attach_control m conn ctl ns = (conn1, ctl2, ns2)" by (cases "attach_control m conn ctl ns")
  note grow = attach_grows [OF att, of "queued_of m"]
  obtain r1 a1 where conn1: "conn1 = conn\<lparr>c_Retry := r1, c_Ack := a1\<rparr>" using attach_connection [OF att] by blast
  obtain r a where h: "c_Retry conn1 = Some r" "c_Ack conn1 = Some a" "map_of (uc_control ctl2) (m_SessionID m) = Some (r, a)"
    using attach_control_ok(2) [OF ok att sid] by blast
  note here = control_okD [OF attach_control_ok(1) [OF ok att] h(3)]
  have all: "queues_grow (queued_of m) (ns_acks ns) (ns_acks ns1)
     \<and> (q1 = q \<and> \<not> IsUserData m \<or> (\<exists>r a. q1 = q @ [\<lparr>mm_msg = m, mm_conn = conn\<lparr>c_Retry := r, c_Ack := a\<rparr>\<rparr>]))
     \<and> (IsUserData m \<longrightarrow> (\<exists>a<length (ns_acks ns1). ai_session (ns_acks ns1 ! a) = m_SessionID m
       \<and> (m_ID m, GetEndpoint m) \<in> set (ai_queue (ns_acks ns1 ! a))))"
  proof (cases "IsUserData m")
    case True
    obtain a' conn2 s2 where x: "a' < length (ns_acks ns2)" "ai_session (ns_acks ns2 ! a') = m_SessionID m"
      "re_receiver (se_env ?env) m conn1 (q, d) = (Ok (), conn2, s2)"
      "v1_deliver ?env now pending m conn (ctl, ns, q, d) =
         (SReceived, fst (control_cleanup ?env ctl2 s2),
          ns2\<lparr>ns_acks := (ns_acks ns2)[a' := ack_enqueue (m_ID m) (GetEndpoint m) (ns_acks ns2 ! a')]\<rparr>,
          snd (control_cleanup ?env ctl2 s2))"
      using v1_deliver_data [OF ok push_server_accepting TrueI True sid att] by blast
    let ?acks = "(ns_acks ns2)[a' := ack_enqueue (m_ID m) (GetEndpoint m) (ns_acks ns2 ! a')]"
    have "ns_acks ns1 = ?acks" using del x(4) by auto
    moreover have "queues_grow (queued_of m) (ns_acks ns) ?acks"
      using True x(1,2) by (intro queues_grow_enqueue [OF grow]) (simp_all add: queued_of_def)
    moreover have "q1 = fst (snd (control_cleanup ?env ctl2 s2))" using del x(4) by simp
    then have "\<exists>r a. q1 = q @ [\<lparr>mm_msg = m, mm_conn = conn\<lparr>c_Retry := r, c_Ack := a\<rparr>\<rparr>]"
      using x(3) conn1 unfolding push_cleanup by (intro exI [of _ r1] exI [of _ a1]) (auto simp: push_server_def)
    moreover have "(m_ID m, GetEndpoint m) \<in> set (ai_queue (?acks ! a'))" using x(1) by (simp add: ack_enqueue_def)
    moreover have "ai_session (?acks ! a') = m_SessionID m" "a' < length ?acks" using x(1,2) by (simp_all add: ack_enqueue_def)
    ultimately show ?thesis by metis
  next
    case False
    have data: "m_IsACK m \<or> \<not> IsSendACK m" using False by (auto simp: IsUserData_def IsSendACK_def)
    have acks: "ns_acks ns1 = ns_acks ns2" "q1 = q \<or> (\<exists>r a. q1 = q @ [\<lparr>mm_msg = m, mm_conn = conn\<lparr>c_Retry := r, c_Ack := a\<rparr>\<rparr>])"
    proof -
      have rec: "re_receiver (se_env ?env) m conn1 (q, d) = (Ok (), conn1, q @ [\<lparr>mm_msg = m, mm_conn = conn1\<rparr>], d)"
        by (simp add: push_server_def)
      have fin: "v1_deliver ?env now pending m conn (ctl, ns, q, d) =
         (SReceived, fst (control_cleanup ?env ctl2 s2), ns3, snd (control_cleanup ?env ctl2 s2))"
        if "m_Type m \<noteq> MessageTypeKeepalive" "dispatch (se_env ?env) now pending m conn1 ns2 (q, d) = (SReceived, c, ns3, s2)" for c ns3 s2
        using that att by (simp add: v1_deliver_def split: prod.splits)
      have "ns_acks ns1 = ns_acks ns2 \<and> (q1 = q \<or> (\<exists>r a. q1 = q @ [\<lparr>mm_msg = m, mm_conn = conn\<lparr>c_Retry := r, c_Ack := a\<rparr>\<rparr>]))"
      proof (cases "m_Type m = MessageTypeKeepalive")
        case True
        then show ?thesis
          using del att by (auto simp: v1_deliver_def dispatch_keepalive_def dest: with_retry_acks split: prod.splits res.splits)
      next
        case False
        show ?thesis
        proof (cases "m_IsACK m")
          case True
          then show ?thesis
            using del att False by (auto simp: v1_deliver_def dispatch_def dest: with_retry_acks split: payload.splits res.splits)
        next
          case nack: False
          then have "dispatch (se_env ?env) now pending m conn1 ns2 (q, d) = (SReceived, conn1, ns2, q @ [\<lparr>mm_msg = m, mm_conn = conn1\<rparr>], d)"
            using data rec by (simp add: dispatch_def)
          from fin [OF False this] have "ns1 = ns2" "snd (control_cleanup ?env ctl2 (q @ [\<lparr>mm_msg = m, mm_conn = conn1\<rparr>], d)) = (q1, d1)"
            using del by simp_all
          then show ?thesis using push_cleanup [of u decode ctl2 "(q @ [\<lparr>mm_msg = m, mm_conn = conn1\<rparr>], d)"] conn1 by auto
        qed
      qed
      then show "ns_acks ns1 = ns_acks ns2" "q1 = q \<or> (\<exists>r a. q1 = q @ [\<lparr>mm_msg = m, mm_conn = conn\<lparr>c_Retry := r, c_Ack := a\<rparr>\<rparr>])" by blast+
    qed
    then show ?thesis using False grow by simp
  qed
  then show "queues_grow (queued_of m) (ns_acks ns) (ns_acks ns1)"
    and "q1 = q \<and> \<not> IsUserData m \<or> (\<exists>r a. q1 = q @ [\<lparr>mm_msg = m, mm_conn = conn\<lparr>c_Retry := r, c_Ack := a\<rparr>\<rparr>])" by blast+
  from all show "IsUserData m \<Longrightarrow> \<exists>a<length (ns_acks ns1). ai_session (ns_acks ns1 ! a) = m_SessionID m
       \<and> (m_ID m, GetEndpoint m) \<in> set (ai_queue (ns_acks ns1 ! a))" by blast
qed

text \<open>A good datagram of a session that fits the buffer, at the socket.\<close>

lemma v1_step_push:
  assumes f: "good_frame t decode u m f" "length f \<le> buffer_size t" and ok: "control_ok ctl ns" and sid: "m_SessionID m \<noteq> 0"
    and st: "v1_udp_step t (push_server u decode) so port now pending (DGram f addr) (ctl, ns, q, d) = (e, ctl1, ns1, q1, d1)"
  obtains m2 where "received_as decode m m2" "control_ok ctl1 ns1" "queues_grow (queued_of m2) (ns_acks ns) (ns_acks ns1)"
    "q1 = q \<and> \<not> IsUserData m2 \<or> (\<exists>r a. q1 = q @ [\<lparr>mm_msg = m2,
        mm_conn = (datagram_connection so addr port (m_SessionID m))\<lparr>c_Retry := r, c_Ack := a\<rparr>\<rparr>])"
    "IsUserData m2 \<Longrightarrow> \<exists>a<length (ns_acks ns1). ai_session (ns_acks ns1 ! a) = m_SessionID m2
       \<and> (m_ID m2, GetEndpoint m2) \<in> set (ai_queue (ns_acks ns1 ! a))"
proof -
  have f': "good_frame t (re_decode (se_env (push_server u decode))) u m f" using f(1) by simp
  have stat: "re_stat (se_env (push_server u decode)) x n (q, d) = (q, d)" for x n by (simp add: push_server_def)
  obtain m2 where m2: "received_as decode m m2" "v1_deliver (push_server u decode) now pending m2
      (datagram_connection so addr port (m_SessionID m)) (ctl, ns, q, d) = (e, ctl1, ns1, q1, d1)"
    using v1_udp_step_frame [OF f' f(2) push_server_accepting TrueI] st stat by (metis push_server_decode)
  have sid2: "m_SessionID m2 \<noteq> 0" using m2(1) sid by (simp add: received_as_def)
  show thesis
    using that m2(1) v1_udp_step_ok [OF ok st] v1_deliver_push [OF ok sid2 m2(2)] by blast
qed

section \<open>The session\<close>

text \<open>
  What the two ends are set up with: the transport, the encryptor of the session, the packet decoder of the server, what the
  client's transport calls, the configurations, the numbers of the session, and the socket at the server. \<open>us_conn\<close> is
  the connection of the client before its receiver starts.
\<close>

record 's udp_setup =
  us_t :: transport
  us_enc :: encryptor
  us_decode :: packet_decoder
  us_client :: "'s receiver_env"
  us_conn :: connection
  us_retry :: retry_config
  us_ack :: ack_config
  us_session :: u32
  us_nonce :: nat
  us_socket :: socket
  us_port :: u16
  us_addr :: net_addr
  us_sessions :: int

definition setup_ok :: "'s udp_setup \<Rightarrow> bool" where
  "setup_ok c \<longleftrightarrow> transport_ok (us_nonce c) (us_t c) (us_enc c) \<and> tp_PayloadSize (tr_codec (us_t c)) \<le> tr_MTU (us_t c)
     \<and> 13 \<le> ac_MaxSize (us_ack c) \<and> ac_MaxSize (us_ack c) \<le> tp_PayloadSize (tr_codec (us_t c))
     \<and> us_session c \<noteq> 0 \<and> c_TCPConn (us_conn c) = None
     \<and> (\<forall>conn s. re_enc (us_client c) conn s = Ok (Some (us_enc c)))"

text \<open>
  The state: the client's connection, instances and application; what it has sent; the datagrams on their way; the server's
  table, instances, channel and dropped sessions; and what the goroutine of each accumulator has seen.
\<close>

record 's udp_world =
  uw_conn :: connection
  uw_client :: net_store
  uw_state :: 's
  uw_sent :: "message list"
  uw_up :: "bytes multiset"
  uw_down :: "bytes multiset"
  uw_control :: udp_control
  uw_server :: net_store
  uw_app :: "merge_message list"
  uw_dropped :: "u32 list"
  uw_seen :: "nat \<Rightarrow> ack_event list"

definition udp_begin :: "'s udp_setup \<Rightarrow> 's \<Rightarrow> 's udp_world" where
  "udp_begin c s =
     (case client_udp_start (us_conn c) (us_session c) \<lparr>ns_retries = [], ns_acks = []\<rparr> of (conn, ns) \<Rightarrow>
        \<lparr>uw_conn = conn, uw_client = ns, uw_state = s, uw_sent = [], uw_up = {#}, uw_down = {#},
         uw_control = control_new (us_sessions c), uw_server = \<lparr>ns_retries = [], ns_acks = []\<rparr>, uw_app = [], uw_dropped = [],
         uw_seen = (\<lambda>_. [])\<rparr>)"

text \<open>The retransmission of the client, and the state of the server's accumulator \<open>a\<close> after what it has seen.\<close>

definition uw_retry :: "'s udp_world \<Rightarrow> retry_state" where
  "uw_retry w = ns_retries (uw_client w) ! the (c_Retry (uw_conn w))"

definition put_retry :: "retry_state \<Rightarrow> 's udp_world \<Rightarrow> 's udp_world" where
  "put_retry r w = w\<lparr>uw_client := (uw_client w)\<lparr>ns_retries := (ns_retries (uw_client w))[the (c_Retry (uw_conn w)) := r]\<rparr>\<rparr>"

definition accumulator_of :: "'s udp_setup \<Rightarrow> nat \<Rightarrow> 's udp_world \<Rightarrow> ack_acc" where
  "accumulator_of c a w = foldl accumulator_step (ack_New (us_ack c) (ai_session (ns_acks (uw_server w) ! a))) (uw_seen w a)"

text \<open>User data with a number that is new for its endpoint, as the listener makes it.\<close>

definition numbered :: "'s udp_setup \<Rightarrow> message \<Rightarrow> bool" where
  "numbered c m \<longleftrightarrow> IsUserData m \<and> m_ID m \<noteq> 0 \<and> m_SessionID m = us_session c \<and> proper (us_t c) (us_decode c) m
     \<and> (\<exists>b info. m_Payload m = PBytes b \<and> us_decode c b = Ok (Some info) \<and> pi_Endpoint info = GetEndpoint m)"

definition messages_seen :: "ack_event list \<Rightarrow> (u32 \<times> u64) list" where
  "messages_seen evs = concat (map (\<lambda>ev. case ev of AckMessage i e _ _ _ \<Rightarrow> [(i, e)] | _ \<Rightarrow> []) evs)"

text \<open>
  The steps: the client sends; a timer of its retransmission fires, or its goroutine sees that it is stopped; the network loses
  or repeats a datagram; the server receives one, of this session or of another; it drops a session; an accumulator takes the
  next number from its channel, or its wait is over; an acknowledgement that it made goes out; the client receives one.
\<close>

inductive udp_session :: "'s udp_setup \<Rightarrow> 's udp_world \<Rightarrow> 's udp_world \<Rightarrow> bool" for c where
  send: "numbered c m \<Longrightarrow> key_of m \<notin> key_of ` set (uw_sent w) \<Longrightarrow> draws_ok (us_nonce c) d \<Longrightarrow>
     client_SendAsync (us_t c) (us_client c) d ws now m (uw_conn w) (uw_state w) (uw_client w) = Some (out, Ok (), ns1) \<Longrightarrow>
     udp_session c w (w\<lparr>uw_client := ns1, uw_sent := uw_sent w @ [m], uw_up := add_mset out (uw_up w)\<rparr>)"
| fire: "k < length (rt_timers (uw_retry w)) \<Longrightarrow> timer_fire (us_retry c) k now (uw_retry w) = Ok r1 \<Longrightarrow>
     rt_sent r1 = rt_sent (uw_retry w) @ again \<Longrightarrow>
     udp_session c w (put_retry r1 w\<lparr>uw_up := uw_up w + mset (map fst again)\<rparr>)"
| stopped: "k < length (rt_timers (uw_retry w)) \<Longrightarrow> udp_session c w (put_retry (timer_stop k (uw_retry w)) w)"
| lose_up: "udp_session c w (w\<lparr>uw_up := uw_up w - {#f#}\<rparr>)"
| lose_down: "udp_session c w (w\<lparr>uw_down := uw_down w - {#f#}\<rparr>)"
| repeat_up: "f \<in># uw_up w \<Longrightarrow> udp_session c w (w\<lparr>uw_up := add_mset f (uw_up w)\<rparr>)"
| repeat_down: "f \<in># uw_down w \<Longrightarrow> udp_session c w (w\<lparr>uw_down := add_mset f (uw_down w)\<rparr>)"
| deliver: "f \<in># uw_up w \<Longrightarrow>
     v1_udp_step (us_t c) (push_server (us_enc c) (us_decode c)) (us_socket c) (us_port c) now pending (DGram f (us_addr c))
       (uw_control w, uw_server w, uw_app w, uw_dropped w) = (e, ctl1, ns1, q1, d1) \<Longrightarrow>
     udp_session c w (w\<lparr>uw_up := uw_up w - {#f#}, uw_control := ctl1, uw_server := ns1, uw_app := q1, uw_dropped := d1\<rparr>)"
| other: "good_frame (us_t c) (us_decode c) (us_enc c) m f \<Longrightarrow> length f \<le> buffer_size (us_t c) \<Longrightarrow>
     m_SessionID m \<noteq> 0 \<Longrightarrow> m_SessionID m \<noteq> us_session c \<Longrightarrow>
     v1_udp_step (us_t c) (push_server (us_enc c) (us_decode c)) (us_socket c) (us_port c) now pending (DGram f addr)
       (uw_control w, uw_server w, uw_app w, uw_dropped w) = (e, ctl1, ns1, q1, d1) \<Longrightarrow>
     udp_session c w (w\<lparr>uw_control := ctl1, uw_server := ns1, uw_app := q1, uw_dropped := d1\<rparr>)"
| drop_session: "server_DropSession (push_server (us_enc c) (us_decode c)) sid (uw_app w, uw_dropped w) = (q1, d1) \<Longrightarrow>
     udp_session c w (w\<lparr>uw_app := q1, uw_dropped := d1\<rparr>)"
| take_number: "a < length (ns_acks (uw_server w)) \<Longrightarrow> length (messages_seen (uw_seen w a)) < length (ai_queue (ns_acks (uw_server w) ! a)) \<Longrightarrow>
     ai_queue (ns_acks (uw_server w) ! a) ! length (messages_seen (uw_seen w a)) = (i, ep) \<Longrightarrow>
     udp_session c w (w\<lparr>uw_seen := (uw_seen w)(a := uw_seen w a @ [AckMessage i ep t1 t2 rto])\<rparr>)"
| waited: "a < length (ns_acks (uw_server w)) \<Longrightarrow>
     udp_session c w (w\<lparr>uw_seen := (uw_seen w)(a := uw_seen w a @ [AckTimeout])\<rparr>)"
| acknowledge: "a < length (ns_acks (uw_server w)) \<Longrightarrow> ai_session (ns_acks (uw_server w) ! a) = us_session c \<Longrightarrow>
     m \<in> set (aa_sent (accumulator_of c a w)) \<Longrightarrow> draws_ok (us_nonce c) d \<Longrightarrow>
     v1_sendUDP (us_t c) d ws now m None None (uw_server w) = Some (out, Ok (), ns1) \<Longrightarrow>
     udp_session c w (w\<lparr>uw_server := ns1, uw_down := add_mset out (uw_down w)\<rparr>)"
| receive: "f \<in># uw_down w \<Longrightarrow>
     client_udp_step (us_t c) (us_client c) now pending (DGram f addr) (uw_conn w, uw_client w, uw_state w) = (e, conn1, ns1, s1) \<Longrightarrow>
     udp_session c w (w\<lparr>uw_down := uw_down w - {#f#}, uw_conn := conn1, uw_client := ns1, uw_state := s1\<rparr>)"

abbreviation udp_reach :: "'s udp_setup \<Rightarrow> 's udp_world \<Rightarrow> bool" where
  "udp_reach c w \<equiv> \<exists>s. (udp_session c)\<^sup>*\<^sup>* (udp_begin c s) w"

section \<open>What holds in every state\<close>

text \<open>A message has been received; the numbers of those that have been, with their endpoints.\<close>

definition got :: "merge_message list \<Rightarrow> message \<Rightarrow> bool" where
  "got app m \<longleftrightarrow> (\<exists>r\<in>set app. m_SessionID (mm_msg r) = m_SessionID m \<and> essence (mm_msg r) = essence m)"

definition arrived :: "message list \<Rightarrow> merge_message list \<Rightarrow> (u64 \<times> u32) set" where
  "arrived sent app = (\<lambda>m. (GetEndpoint m, m_ID m)) ` {m \<in> set sent. got app m}"

lemma got_mono: "got app m \<Longrightarrow> set app \<subseteq> set app1 \<Longrightarrow> got app1 m"
  unfolding got_def by blast

lemma arrived_mono: "set sent \<subseteq> set sent1 \<Longrightarrow> set app \<subseteq> set app1 \<Longrightarrow> arrived sent app \<subseteq> arrived sent1 app1"
  unfolding arrived_def using got_mono by blast

lemma arrived_got:
  assumes "(GetEndpoint m, m_ID m) \<in> arrived sent app" "m \<in> set sent" "distinct (map key_of sent)"
  shows "got app m"
proof -
  obtain n where n: "n \<in> set sent" "got app n" "key_of n = key_of m"
    using assms(1) by (auto simp: arrived_def key_of_eq)
  then have "n = m" using assms(2,3) by (auto simp: distinct_map dest: inj_onD)
  then show ?thesis using n(2) by simp
qed

definition frame_of :: "'s udp_setup \<Rightarrow> message \<Rightarrow> bytes \<Rightarrow> bool" where
  "frame_of c m f \<longleftrightarrow> good_frame (us_t c) (us_decode c) (us_enc c) m f \<and> length f \<le> buffer_size (us_t c)"

text \<open>A connection that the server makes for a datagram of the client, with the instances of the session.\<close>

definition peer_connection :: "'s udp_setup \<Rightarrow> connection \<Rightarrow> bool" where
  "peer_connection c conn \<longleftrightarrow>
     (\<exists>r a. conn = (datagram_connection (us_socket c) (us_addr c) (us_port c) (us_session c))\<lparr>c_Retry := r, c_Ack := a\<rparr>)"

definition client_ok :: "'s udp_setup \<Rightarrow> 's udp_world \<Rightarrow> bool" where
  "client_ok c w \<longleftrightarrow> (\<exists>h. c_Retry (uw_conn w) = Some h \<and> h < length (ns_retries (uw_client w))) \<and> c_TCPConn (uw_conn w) = None
     \<and> (\<forall>m\<in>set (uw_sent w). numbered c m) \<and> retry_tracks (frame_of c) (uw_sent w) (uw_retry w)"

definition stops_ok :: "'s udp_world \<Rightarrow> bool" where
  "stops_ok w \<longleftrightarrow> (\<forall>k<length (uw_sent w). rm_stop (rt_timers (uw_retry w) ! k) \<longrightarrow> got (uw_app w) (uw_sent w ! k))"

definition up_ok :: "'s udp_setup \<Rightarrow> 's udp_world \<Rightarrow> bool" where
  "up_ok c w \<longleftrightarrow> (\<forall>f. f \<in># uw_up w \<longrightarrow> (\<exists>m\<in>set (uw_sent w). frame_of c m f))"

definition down_ok :: "'s udp_setup \<Rightarrow> 's udp_world \<Rightarrow> bool" where
  "down_ok c w \<longleftrightarrow> (\<forall>f. f \<in># uw_down w \<longrightarrow> (\<exists>m a. frame_of c m f \<and> m_IsACK m \<and> m_Type m = MessageTypeData
     \<and> m_Payload m = PAck a \<and> set (ack_pairs (ack_data a)) \<subseteq> arrived (uw_sent w) (uw_app w)))"

definition server_ok :: "'s udp_setup \<Rightarrow> 's udp_world \<Rightarrow> bool" where
  "server_ok c w \<longleftrightarrow> control_ok (uw_control w) (uw_server w)
     \<and> (\<forall>r\<in>set (uw_app w). m_SessionID (mm_msg r) = us_session c \<longrightarrow>
          peer_connection c (mm_conn r) \<and> (\<exists>m\<in>set (uw_sent w). received_as (us_decode c) m (mm_msg r)))
     \<and> (\<forall>a<length (ns_acks (uw_server w)). ai_session (ns_acks (uw_server w) ! a) = us_session c \<longrightarrow>
          (\<forall>(i, e)\<in>set (ai_queue (ns_acks (uw_server w) ! a)). (e, i) \<in> arrived (uw_sent w) (uw_app w)))"

definition seen_ok :: "'s udp_world \<Rightarrow> bool" where
  "seen_ok w \<longleftrightarrow> (\<forall>a. AckDone \<notin> set (uw_seen w a) \<and> (uw_seen w a = [] \<or> a < length (ns_acks (uw_server w))
     \<and> messages_seen (uw_seen w a) = take (length (messages_seen (uw_seen w a))) (ai_queue (ns_acks (uw_server w) ! a))))"

definition udp_inv :: "'s udp_setup \<Rightarrow> 's udp_world \<Rightarrow> bool" where
  "udp_inv c w \<longleftrightarrow> client_ok c w \<and> stops_ok w \<and> up_ok c w \<and> down_ok c w \<and> server_ok c w \<and> seen_ok w"

lemmas udp_inv_defs = udp_inv_def client_ok_def stops_ok_def up_ok_def down_ok_def server_ok_def seen_ok_def

lemma udp_invD:
  assumes "udp_inv c w"
  shows "client_ok c w" "stops_ok w" "up_ok c w" "down_ok c w" "server_ok c w" "seen_ok w"
  using assms by (simp_all add: udp_inv_def)

lemma inv_begin: "setup_ok c \<Longrightarrow> udp_inv c (udp_begin c s)"
  by (auto simp: udp_inv_defs udp_begin_def client_udp_start_def retryFactory_def ackFactory_def uw_retry_def tracks_new
      control_ok_new setup_ok_def)

text \<open>Putting back the retransmission.\<close>

lemma put_retry_simps [simp]:
  "uw_conn (put_retry r w) = uw_conn w" "uw_state (put_retry r w) = uw_state w" "uw_sent (put_retry r w) = uw_sent w"
  "uw_up (put_retry r w) = uw_up w" "uw_down (put_retry r w) = uw_down w" "uw_control (put_retry r w) = uw_control w"
  "uw_server (put_retry r w) = uw_server w" "uw_app (put_retry r w) = uw_app w" "uw_dropped (put_retry r w) = uw_dropped w"
  "uw_seen (put_retry r w) = uw_seen w" "length (ns_retries (uw_client (put_retry r w))) = length (ns_retries (uw_client w))"
  by (simp_all add: put_retry_def)

lemma uw_retry_put: "client_ok c w \<Longrightarrow> uw_retry (put_retry r w) = r"
  by (auto simp: client_ok_def uw_retry_def put_retry_def)

lemma uw_retry_cong: "uw_conn w1 = uw_conn w \<Longrightarrow> uw_client w1 = uw_client w \<Longrightarrow> uw_retry w1 = uw_retry w"
  by (simp add: uw_retry_def)

text \<open>The client's retransmission moves on to \<open>r\<close>, and datagrams of sent messages go up.\<close>

lemma inv_retry:
  assumes inv: "udp_inv c w" and r: "retry_tracks (frame_of c) (uw_sent w) r"
    and stops: "\<And>k. k < length (uw_sent w) \<Longrightarrow> rm_stop (rt_timers r ! k) \<Longrightarrow> got (uw_app w) (uw_sent w ! k)"
    and up: "\<And>f. f \<in># again \<Longrightarrow> \<exists>m\<in>set (uw_sent w). frame_of c m f"
  shows "udp_inv c (put_retry r w\<lparr>uw_up := uw_up w + again\<rparr>)"
proof -
  note i = udp_invD [OF inv]
  have "uw_retry (put_retry r w\<lparr>uw_up := uw_up w + again\<rparr>) = r"
    using uw_retry_put [OF i(1)] uw_retry_cong [of "put_retry r w\<lparr>uw_up := uw_up w + again\<rparr>" "put_retry r w"] by simp
  moreover have "\<exists>m\<in>set (uw_sent w). frame_of c m f" if "f \<in># uw_up w + again" for f
    using that i(3) up by (auto simp: up_ok_def)
  ultimately show ?thesis
    using i(1,4-6) r stops unfolding udp_inv_def client_ok_def stops_ok_def up_ok_def down_ok_def server_ok_def seen_ok_def by simp
qed

text \<open>Sending.\<close>

lemma setup_okD:
  assumes "setup_ok c"
  shows "transport_ok (us_nonce c) (us_t c) (us_enc c)" "tp_PayloadSize (tr_codec (us_t c)) \<le> tr_MTU (us_t c)"
    and "13 \<le> ac_MaxSize (us_ack c)" "ac_MaxSize (us_ack c) \<le> tp_PayloadSize (tr_codec (us_t c))"
    and "us_session c \<noteq> 0" "re_enc (us_client c) conn s = Ok (Some (us_enc c))"
  using assms unfolding setup_ok_def by blast+

lemma sealed_frame_of:
  assumes ok: "setup_ok c" and m: "proper (us_t c) (us_decode c) m" "draws_ok (us_nonce c) d"
    and s: "seal (us_t c) False True (user_encryptor (us_enc c) m) (dr_fake d) (dr_rnd1 d) (dr_rnd2 d) m = Ok f"
  shows "frame_of c m f"
  unfolding frame_of_def
  using seal_good_frame [OF setup_okD(1) [OF ok] m(2,1) _ s] seal_fits [OF setup_okD(1) [OF ok] m(2,1) setup_okD(2) [OF ok] s] by simp

lemma inv_send:
  assumes ok: "setup_ok c" and inv: "udp_inv c w" and m: "numbered c m" "key_of m \<notin> key_of ` set (uw_sent w)" "draws_ok (us_nonce c) d"
    and snd: "client_SendAsync (us_t c) (us_client c) d ws now m (uw_conn w) (uw_state w) (uw_client w) = Some (out, Ok (), ns1)"
  shows "udp_inv c (w\<lparr>uw_client := ns1, uw_sent := uw_sent w @ [m], uw_up := add_mset out (uw_up w)\<rparr>)"
    and "w\<lparr>uw_client := ns1\<rparr> = put_retry (retry_Push now (m\<lparr>m_Payload := PBytes out\<rparr>) (uw_retry w)) w"
proof -
  note i = udp_invD [OF inv]
  obtain h where h: "c_Retry (uw_conn w) = Some h" "h < length (ns_retries (uw_client w))" "c_TCPConn (uw_conn w) = None"
    using i(1) unfolding client_ok_def by blast
  have data: "IsUserData m" "m_ID m \<noteq> 0" "proper (us_t c) (us_decode c) m" using m(1) by (simp_all add: numbered_def)
  note sent = client_SendAsync_udp [OF h(3) setup_okD(6) [OF ok] data(1) snd]
  have frame: "frame_of c m out" by (rule sealed_frame_of [OF ok data(3) m(3) sent(1)])
  let ?r = "retry_Push now (m\<lparr>m_Payload := PBytes out\<rparr>) (uw_retry w)"
  let ?w = "w\<lparr>uw_client := ns1, uw_sent := uw_sent w @ [m], uw_up := add_mset out (uw_up w)\<rparr>"
  have ns1: "ns1 = (uw_client w)\<lparr>ns_retries := (ns_retries (uw_client w))[h := ?r]\<rparr>"
    using sent(2) h by (simp add: with_retry_def uw_retry_def)
  then show "w\<lparr>uw_client := ns1\<rparr> = put_retry ?r w" using h(1) by (simp add: put_retry_def)
  have r: "uw_retry ?w = ?r" using h ns1 by (simp add: uw_retry_def)
  have tr: "retry_tracks (frame_of c) (uw_sent w) (uw_retry w)" using i(1) by (simp add: client_ok_def)
  have track: "retry_tracks (frame_of c) (uw_sent w @ [m]) ?r" by (rule tracks_push [where G = "frame_of c", OF tr m(2) data(2) frame])
  have client: "client_ok c ?w" using i(1) h ns1 m(1) track unfolding client_ok_def r by simp
  have stop: "rm_stop (rt_timers ?r ! k) \<longrightarrow> got (uw_app w) ((uw_sent w @ [m]) ! k)" if "k < length (uw_sent w @ [m])" for k
    using that tracksD(1) [OF tr] i(2) by (cases "k = length (uw_sent w)") (simp_all add: retry_Push_def nth_append stops_ok_def)
  have mono: "arrived (uw_sent w) (uw_app w) \<subseteq> arrived (uw_sent w @ [m]) (uw_app w)" by (intro arrived_mono) auto
  have "stops_ok ?w" unfolding stops_ok_def r using stop by simp
  moreover have "up_ok c ?w" using i(3) frame by (auto simp: up_ok_def)
  moreover have "down_ok c ?w" unfolding down_ok_def
  proof (intro allI impI)
    fix f assume "f \<in># uw_down ?w"
    then have "f \<in># uw_down w" by simp
    then show "\<exists>m' a. frame_of c m' f \<and> m_IsACK m' \<and> m_Type m' = MessageTypeData \<and> m_Payload m' = PAck a
        \<and> set (ack_pairs (ack_data a)) \<subseteq> arrived (uw_sent ?w) (uw_app ?w)"
      using i(4) mono unfolding down_ok_def by (simp; blast)
  qed
  moreover have "server_ok c ?w" using i(5) mono unfolding server_ok_def by (simp add: case_prod_unfold; blast)
  moreover have "seen_ok ?w" using i(6) by (simp add: seen_ok_def)
  ultimately show "udp_inv c ?w" using client by (simp add: udp_inv_def)
qed

text \<open>A timer.\<close>

lemma inv_fire:
  assumes inv: "udp_inv c w" and k: "k < length (rt_timers (uw_retry w))"
    and fire: "timer_fire (us_retry c) k now (uw_retry w) = Ok r1" "rt_sent r1 = rt_sent (uw_retry w) @ again"
  shows "udp_inv c (put_retry r1 w\<lparr>uw_up := uw_up w + mset (map fst again)\<rparr>)"
proof -
  have tr: "retry_tracks (frame_of c) (uw_sent w) (uw_retry w)" using udp_invD(1) [OF inv] by (simp add: client_ok_def)
  have k': "k < length (uw_sent w)" using k tracksD(1) [OF tr] by simp
  note f = tracks_fire [OF tr k' fire(1)]
  show ?thesis
  proof (rule inv_retry [OF inv f(1)])
    show "got (uw_app w) (uw_sent w ! j)" if "j < length (uw_sent w)" "rm_stop (rt_timers r1 ! j)" for j
      using f(3) [OF that(1)] that udp_invD(2) [OF inv] by (simp add: stops_ok_def)
    show "\<exists>m\<in>set (uw_sent w). frame_of c m x" if "x \<in># mset (map fst again)" for x
      using f(2) fire(2) that k' by auto
  qed
qed

lemma inv_stopped:
  assumes inv: "udp_inv c w" and k: "k < length (rt_timers (uw_retry w))"
  shows "udp_inv c (put_retry (timer_stop k (uw_retry w)) w)"
proof -
  have tr: "retry_tracks (frame_of c) (uw_sent w) (uw_retry w)" using udp_invD(1) [OF inv] by (simp add: client_ok_def)
  have k': "k < length (uw_sent w)" using k tracksD(1) [OF tr] by simp
  note f = tracks_stop [OF tr k']
  have "udp_inv c (put_retry (timer_stop k (uw_retry w)) w\<lparr>uw_up := uw_up w + {#}\<rparr>)"
  proof (rule inv_retry [OF inv f(1)])
    show "got (uw_app w) (uw_sent w ! j)" if "j < length (uw_sent w)" "rm_stop (rt_timers (timer_stop k (uw_retry w)) ! j)" for j
      using f(2) [OF that(1)] that udp_invD(2) [OF inv] by (simp add: stops_ok_def)
  qed simp
  then show ?thesis by (simp add: put_retry_def)
qed

text \<open>The network.\<close>

lemma inv_wires:
  assumes "udp_inv c w" "set_mset up \<subseteq> set_mset (uw_up w)" "set_mset down \<subseteq> set_mset (uw_down w)"
  shows "udp_inv c (w\<lparr>uw_up := up, uw_down := down\<rparr>)"
proof -
  have "uw_retry (w\<lparr>uw_up := up, uw_down := down\<rparr>) = uw_retry w" by (rule uw_retry_cong) simp_all
  then show ?thesis
    using udp_invD [OF assms(1)] assms(2,3)
    unfolding udp_inv_def client_ok_def stops_ok_def up_ok_def down_ok_def server_ok_def seen_ok_def by (simp add: subset_iff)
qed

text \<open>A datagram at the server.\<close>

lemma numbered_received:
  assumes "numbered c m" "received_as (us_decode c) m m2"
  shows "essence m2 = essence m" "m_SessionID m2 = us_session c" "IsUserData m2" "m_ID m2 = m_ID m" "GetEndpoint m2 = GetEndpoint m"
proof -
  obtain b info where b: "IsUserData m" "m_Payload m = PBytes b" "us_decode c b = Ok (Some info)" "pi_Endpoint info = GetEndpoint m"
    using assms(1) unfolding numbered_def by blast
  show e: "essence m2 = essence m" by (rule received_essence [OF b assms(2)])
  show "m_SessionID m2 = us_session c" "IsUserData m2" "m_ID m2 = m_ID m"
    using assms b(1) by (simp_all add: numbered_def received_as_def IsUserData_def)
  show "GetEndpoint m2 = GetEndpoint m" using e by (simp add: essence_def)
qed

lemma inv_server:
  assumes inv: "udp_inv c w" and f: "frame_of c m f" "m_SessionID m \<noteq> 0" "m_SessionID m = us_session c \<Longrightarrow> m \<in> set (uw_sent w) \<and> addr = us_addr c"
    and st: "v1_udp_step (us_t c) (push_server (us_enc c) (us_decode c)) (us_socket c) (us_port c) now pending (DGram f addr)
       (uw_control w, uw_server w, uw_app w, uw_dropped w) = (e, ctl1, ns1, q1, d1)"
  shows "udp_inv c (w\<lparr>uw_control := ctl1, uw_server := ns1, uw_app := q1, uw_dropped := d1\<rparr>)"
    and "m \<in> set (uw_sent w) \<Longrightarrow> \<exists>a<length (ns_acks ns1). ai_session (ns_acks ns1 ! a) = us_session c
       \<and> (m_ID m, GetEndpoint m) \<in> set (ai_queue (ns_acks ns1 ! a))"
proof -
  note i = udp_invD [OF inv]
  let ?w = "w\<lparr>uw_control := ctl1, uw_server := ns1, uw_app := q1, uw_dropped := d1\<rparr>"
  have frame: "good_frame (us_t c) (us_decode c) (us_enc c) m f" "length f \<le> buffer_size (us_t c)"
    using f(1) by (simp_all add: frame_of_def)
  have ctl: "control_ok (uw_control w) (uw_server w)" using i(5) by (simp add: server_ok_def)
  obtain m2 where m2: "received_as (us_decode c) m m2" "control_ok ctl1 ns1"
    "queues_grow (queued_of m2) (ns_acks (uw_server w)) (ns_acks ns1)"
    "q1 = uw_app w \<and> \<not> IsUserData m2 \<or> (\<exists>r a. q1 = uw_app w @ [\<lparr>mm_msg = m2,
       mm_conn = (datagram_connection (us_socket c) addr (us_port c) (m_SessionID m))\<lparr>c_Retry := r, c_Ack := a\<rparr>\<rparr>])"
    "IsUserData m2 \<Longrightarrow> \<exists>a<length (ns_acks ns1). ai_session (ns_acks ns1 ! a) = m_SessionID m2
       \<and> (m_ID m2, GetEndpoint m2) \<in> set (ai_queue (ns_acks ns1 ! a))"
    using v1_step_push [OF frame ctl f(2) st] by blast
  note grow = queues_growD [OF m2(3)]
  have sid: "m_SessionID m2 = m_SessionID m" using m2(1) by (simp add: received_as_def)
  have app: "set (uw_app w) \<subseteq> set q1" using m2(4) by auto
  have here: "numbered c m" if "m \<in> set (uw_sent w)" using i(1) that by (simp add: client_ok_def)
  have new: "got q1 m" if "m \<in> set (uw_sent w)"
    using m2(4) numbered_received [OF here [OF that] m2(1)] sid by (auto simp: got_def)
  have mono: "arrived (uw_sent w) (uw_app w) \<subseteq> arrived (uw_sent w) q1" by (rule arrived_mono [OF order.refl app])
  have client: "client_ok c ?w" "uw_retry ?w = uw_retry w"
    using i(1) uw_retry_cong [of ?w w] by (simp_all add: client_ok_def)
  moreover have "stops_ok ?w" using i(2) got_mono [OF _ app] unfolding stops_ok_def client(2) by simp
  moreover have "up_ok c ?w" using i(3) by (simp add: up_ok_def)
  moreover have "down_ok c ?w" using i(4) mono unfolding down_ok_def by (simp; blast)
  moreover have "server_ok c ?w" unfolding server_ok_def
  proof (intro conjI ballI allI impI)
    show "control_ok (uw_control ?w) (uw_server ?w)" using m2(2) by simp
  next
    fix r assume "r \<in> set (uw_app ?w)" "m_SessionID (mm_msg r) = us_session c"
    then consider "r \<in> set (uw_app w)" "m_SessionID (mm_msg r) = us_session c"
      | rt ak where "mm_msg r = m2" "m_SessionID m2 = us_session c"
          "mm_conn r = (datagram_connection (us_socket c) addr (us_port c) (m_SessionID m))\<lparr>c_Retry := rt, c_Ack := ak\<rparr>"
      using m2(4) by auto
    then have "peer_connection c (mm_conn r) \<and> (\<exists>m\<in>set (uw_sent w). received_as (us_decode c) m (mm_msg r))"
    proof cases
      case 1
      then show ?thesis using i(5) by (simp add: server_ok_def)
    next
      case 2
      then show ?thesis using m2(1) f(3) sid by (auto simp: peer_connection_def)
    qed
    then show "peer_connection c (mm_conn r)" "\<exists>m\<in>set (uw_sent ?w). received_as (us_decode c) m (mm_msg r)" by simp_all
  next
    fix a x assume a: "a < length (ns_acks (uw_server ?w))" "ai_session (ns_acks (uw_server ?w) ! a) = us_session c"
      and x: "x \<in> set (ai_queue (ns_acks (uw_server ?w) ! a))"
    obtain i' e' where xe: "x = (i', e')" by (cases x)
    have "(e', i') \<in> arrived (uw_sent w) q1"
    proof (cases "a < length (ns_acks (uw_server w)) \<and> x \<in> set (ai_queue (ns_acks (uw_server w) ! a))")
      case True
      then have "(e', i') \<in> arrived (uw_sent w) (uw_app w)"
        using i(5) a(2) grow(2) [of a] unfolding server_ok_def xe by fastforce
      then show ?thesis using mono by blast
    next
      case False
      then have "x \<in> queued_of m2 (us_session c)" using grow(4) [of a x] a x by auto
      then have q: "m_SessionID m = us_session c" "i' = m_ID m2" "e' = GetEndpoint m2"
        using sid by (auto simp: queued_of_def xe split: if_splits)
      note m = conjunct1 [OF f(3) [OF q(1)]]
      show ?thesis using numbered_received [OF here [OF m] m2(1)] new [OF m] m q(2,3) by (auto simp: arrived_def)
    qed
    then show "case x of (i, e) \<Rightarrow> (e, i) \<in> arrived (uw_sent ?w) (uw_app ?w)" by (simp add: xe)
  qed
  moreover have "seen_ok ?w" unfolding seen_ok_def
  proof (intro allI conjI)
    fix a
    note old = i(6) [unfolded seen_ok_def, rule_format, of a]
    show "AckDone \<notin> set (uw_seen ?w a)" using old by simp
    show "uw_seen ?w a = [] \<or> a < length (ns_acks (uw_server ?w))
        \<and> messages_seen (uw_seen ?w a) = take (length (messages_seen (uw_seen ?w a))) (ai_queue (ns_acks (uw_server ?w) ! a))"
    proof (cases "uw_seen w a = []")
      case False
      then have o: "a < length (ns_acks (uw_server w))"
        "messages_seen (uw_seen w a) = take (length (messages_seen (uw_seen w a))) (ai_queue (ns_acks (uw_server w) ! a))"
        using old by simp_all
      obtain later where "ai_queue (ns_acks ns1 ! a) = ai_queue (ns_acks (uw_server w) ! a) @ later" using grow(3) [OF o(1)] by blast
      moreover have "length (messages_seen (uw_seen w a)) \<le> length (ai_queue (ns_acks (uw_server w) ! a))"
        using arg_cong [OF o(2), of length] by simp
      ultimately show ?thesis using o grow(1) [OF o(1)] by simp
    qed simp
  qed
  ultimately show "udp_inv c ?w" by (simp add: udp_inv_def)
  show "\<exists>a<length (ns_acks ns1). ai_session (ns_acks ns1 ! a) = us_session c \<and> (m_ID m, GetEndpoint m) \<in> set (ai_queue (ns_acks ns1 ! a))"
    if "m \<in> set (uw_sent w)"
    using m2(5) numbered_received [OF here [OF that] m2(1)] by auto
qed

text \<open>An accumulator.\<close>

lemma messages_seen_simps [simp]:
  "messages_seen [] = []"
  "messages_seen (evs @ [AckMessage i e t1 t2 rto]) = messages_seen evs @ [(i, e)]"
  "messages_seen (evs @ [AckTimeout]) = messages_seen evs"
  by (simp_all add: messages_seen_def)

lemma inv_seen:
  assumes inv: "udp_inv c w" and a: "a < length (ns_acks (uw_server w))" and alive: "AckDone \<notin> set evs"
    and evs: "messages_seen evs = take (length (messages_seen evs)) (ai_queue (ns_acks (uw_server w) ! a))"
  shows "udp_inv c (w\<lparr>uw_seen := (uw_seen w)(a := evs)\<rparr>)"
proof -
  have "uw_retry (w\<lparr>uw_seen := (uw_seen w)(a := evs)\<rparr>) = uw_retry w" by (rule uw_retry_cong) simp_all
  moreover have "seen_ok (w\<lparr>uw_seen := (uw_seen w)(a := evs)\<rparr>)" using udp_invD(6) [OF inv] a alive evs by (simp add: seen_ok_def)
  ultimately show ?thesis
    using udp_invD(1-5) [OF inv] unfolding udp_inv_def client_ok_def stops_ok_def up_ok_def down_ok_def server_ok_def by simp
qed

text \<open>What an accumulator sends names numbers that it has seen.\<close>

lemma event_pairs_seen: "(\<Sum>ev\<leftarrow>evs. event_pairs ev) = mset (map (\<lambda>(i, e). (e, i)) (messages_seen evs))"
proof (induction evs)
  case (Cons ev evs)
  then show ?case by (cases ev) (simp_all add: messages_seen_def)
qed simp

lemma accumulator_facts:
  assumes ok: "setup_ok c" and alive: "AckDone \<notin> set (uw_seen w a)"
  shows "acc_inv (ac_MaxSize (us_ack c)) (accumulator_of c a w)"
    and "acc_holds (accumulator_of c a w) = mset (map (\<lambda>(i, e). (e, i)) (messages_seen (uw_seen w a)))"
proof -
  show "acc_inv (ac_MaxSize (us_ack c)) (accumulator_of c a w)"
    using accumulator.inv_reached setup_okD(3) [OF ok] unfolding accumulator_of_def by blast
  show "acc_holds (accumulator_of c a w) = mset (map (\<lambda>(i, e). (e, i)) (messages_seen (uw_seen w a)))"
    unfolding accumulator_of_def event_pairs_seen [symmetric]
    using accumulator_holds [OF setup_okD(3) [OF ok] alive acc_inv_New]
    by (simp add: ack_New_def acc_holds_def SetMaxSize_def NewMessageAcknowledgement_def)
qed

lemma acked_within: "m \<in> set ms \<Longrightarrow> acked_pairs m \<subseteq># (\<Sum>m\<leftarrow>ms. acked_pairs m)"
proof (induction ms)
  case (Cons n ms)
  show ?case
  proof (cases "m = n")
    case False
    then have "acked_pairs m \<subseteq># (\<Sum>m\<leftarrow>ms. acked_pairs m)" using Cons by simp
    then show ?thesis using subset_mset.add_increasing [of "acked_pairs n"] by simp
  qed simp
qed simp

lemma sent_acknowledgement:
  assumes ok: "setup_ok c" and alive: "AckDone \<notin> set (uw_seen w a)" and m: "m \<in> set (aa_sent (accumulator_of c a w))"
  obtains x where "m_Payload m = PAck x" "m_IsACK m" "m_Type m = MessageTypeData" "proper (us_t c) decode m" "\<not> IsUserData m"
    "set (ack_pairs (ack_data x)) \<subseteq> (\<lambda>(i, e). (e, i)) ` set (messages_seen (uw_seen w a))"
proof -
  note acc = accumulator_facts [OF ok alive]
  have "sent_ok (ac_MaxSize (us_ack c)) m" using acc(1) m by (simp add: acc_inv_def)
  then obtain x where x: "m_Payload m = PAck x" "ack_wf x" "ack_data x \<noteq> []" "ack_size x \<le> ac_MaxSize (us_ack c)"
    "m_Type m = MessageTypeData" "m_IsACK m" "m_Error m = 0" unfolding sent_ok_def by blast
  have "acked_pairs m \<subseteq># (\<Sum>m\<leftarrow>aa_sent (accumulator_of c a w). acked_pairs m)" by (rule acked_within [OF m])
  then have "set_mset (acked_pairs m) \<subseteq> set_mset (acc_holds (accumulator_of c a w))"
    unfolding acc_holds_def by (auto dest: mset_subset_eqD)
  then have pairs: "set (ack_pairs (ack_data x)) \<subseteq> (\<lambda>(i, e). (e, i)) ` set (messages_seen (uw_seen w a))"
    unfolding acc(2) by (simp add: acked_pairs_def x(1))
  have nu: "\<not> IsUserData m" using x(6) by (simp add: IsUserData_def)
  have "wire_payload (tr_codec (us_t c)) m"
    using x setup_okD(4) [OF ok] by (simp add: wire_payload_def)
  then have "proper (us_t c) decode m"
    using x(1,5,7) nu by (simp add: proper_def sendable_def wire_ok_def MessageType_Valid_def)
  then show thesis using that x(1,5,6) nu pairs by blast
qed

lemma v1_sends_acknowledgement:
  assumes "\<not> IsUserData m" "v1_sendUDP t d ws now m None None ns = Some (out, Ok (), ns1)"
  shows "seal t False True (user_encryptor u m) (dr_fake d) (dr_rnd1 d) (dr_rnd2 d) m = Ok out \<and> ns1 = ns"
proof -
  have u: "user_encryptor u m = None" "\<not> IsSendACK m" using assms(1) by (simp_all add: user_encryptor_def IsSendACK_IsUserData)
  obtain data where data: "seal t False True None (dr_fake d) (dr_rnd1 d) (dr_rnd2 d) m = Ok data"
    using assms(2) by (cases "seal t False True None (dr_fake d) (dr_rnd1 d) (dr_rnd2 d) m") (auto simp: send_udp_def)
  obtain o1 r1 where w: "send_data data ws = Some (o1, r1)"
    using assms(2) data by (cases "send_data data ws") (auto simp: send_udp_def)
  have "r1 = Ok () \<and> o1 = out \<and> ns1 = ns" using assms(2) data w u(2) by (cases r1) (auto simp: send_udp_def)
  then show ?thesis using send_data_Ok [of data ws o1] w data u(1) by simp
qed

lemma inv_acknowledge:
  assumes ok: "setup_ok c" and inv: "udp_inv c w" and a: "a < length (ns_acks (uw_server w))" "ai_session (ns_acks (uw_server w) ! a) = us_session c"
    and m: "m \<in> set (aa_sent (accumulator_of c a w))" and d: "draws_ok (us_nonce c) d"
    and snd: "v1_sendUDP (us_t c) d ws now m None None (uw_server w) = Some (out, Ok (), ns1)"
  shows "udp_inv c (w\<lparr>uw_server := ns1, uw_down := add_mset out (uw_down w)\<rparr>)" and "frame_of c m out" "ns1 = uw_server w"
    and "m_Payload m = PAck y \<Longrightarrow> set (ack_pairs (ack_data y)) \<subseteq> arrived (uw_sent w) (uw_app w)"
proof -
  note i = udp_invD [OF inv]
  have seen: "AckDone \<notin> set (uw_seen w a)" "set (messages_seen (uw_seen w a)) \<subseteq> set (ai_queue (ns_acks (uw_server w) ! a))"
  proof -
    note old = i(6) [unfolded seen_ok_def, rule_format, of a]
    then show "AckDone \<notin> set (uw_seen w a)" by blast
    show "set (messages_seen (uw_seen w a)) \<subseteq> set (ai_queue (ns_acks (uw_server w) ! a))"
      using old set_take_subset by (metis messages_seen_simps(1) empty_subsetI list.set(1))
  qed
  obtain x where x: "m_Payload m = PAck x" "m_IsACK m" "m_Type m = MessageTypeData" "proper (us_t c) (us_decode c) m" "\<not> IsUserData m"
    "set (ack_pairs (ack_data x)) \<subseteq> (\<lambda>(i, e). (e, i)) ` set (messages_seen (uw_seen w a))"
    using sent_acknowledgement [OF ok seen(1) m] .
  have sealed: "seal (us_t c) False True (user_encryptor (us_enc c) m) (dr_fake d) (dr_rnd1 d) (dr_rnd2 d) m = Ok out" "ns1 = uw_server w"
    using v1_sends_acknowledgement [OF x(5) snd, of "us_enc c"] by simp_all
  show "ns1 = uw_server w" by (rule sealed(2))
  show frame: "frame_of c m out" by (rule sealed_frame_of [OF ok x(4) d sealed(1)])
  have pairs: "set (ack_pairs (ack_data x)) \<subseteq> arrived (uw_sent w) (uw_app w)"
    using x(6) seen(2) i(5) a unfolding server_ok_def by fastforce
  then show "m_Payload m = PAck y \<Longrightarrow> set (ack_pairs (ack_data y)) \<subseteq> arrived (uw_sent w) (uw_app w)" using x(1) by simp
  let ?w = "w\<lparr>uw_server := ns1, uw_down := add_mset out (uw_down w)\<rparr>"
  have r: "uw_retry ?w = uw_retry w" by (rule uw_retry_cong) simp_all
  have "down_ok c ?w" unfolding down_ok_def
  proof (intro allI impI)
    fix f assume "f \<in># uw_down ?w"
    then consider "f = out" | "f \<in># uw_down w" by auto
    then show "\<exists>m a. frame_of c m f \<and> m_IsACK m \<and> m_Type m = MessageTypeData \<and> m_Payload m = PAck a
        \<and> set (ack_pairs (ack_data a)) \<subseteq> arrived (uw_sent ?w) (uw_app ?w)"
    proof cases
      case 1
      then show ?thesis using frame x(1-3) pairs by auto
    next
      case 2
      then show ?thesis using i(4) by (simp add: down_ok_def)
    qed
  qed
  then show "udp_inv c ?w"
    using i(1-3,5,6) sealed(2) unfolding udp_inv_def client_ok_def stops_ok_def up_ok_def server_ok_def seen_ok_def r by simp
qed

text \<open>An acknowledgement at the client.\<close>

lemma good_frame_any_decoder: "\<not> IsUserData m \<Longrightarrow> good_frame t d u m f \<Longrightarrow> good_frame t d' u m f"
  by (simp add: good_frame_def)

lemma inv_receive:
  assumes ok: "setup_ok c" and inv: "udp_inv c w" and f: "frame_of c m f" "m_IsACK m" "m_Type m = MessageTypeData" "m_Payload m = PAck x"
    and pairs: "set (ack_pairs (ack_data x)) \<subseteq> arrived (uw_sent w) (uw_app w)"
    and st: "client_udp_step (us_t c) (us_client c) now pending (DGram f addr) (uw_conn w, uw_client w, uw_state w) = (e, conn1, ns1, s1)"
  shows "udp_inv c (w\<lparr>uw_conn := conn1, uw_client := ns1, uw_state := s1\<rparr>)" and "e = SNext"
    and "uw_retry (w\<lparr>uw_conn := conn1, uw_client := ns1, uw_state := s1\<rparr>) = retry_Ack now pending (Some (NewMessageAcknowledgement (Some (ack_data x)))) (uw_retry w)"
proof -
  note i = udp_invD [OF inv]
  let ?x = "NewMessageAcknowledgement (Some (ack_data x))"
  obtain h where h: "c_Retry (uw_conn w) = Some h" "h < length (ns_retries (uw_client w))" "c_TCPConn (uw_conn w) = None"
    using i(1) unfolding client_ok_def by blast
  have nu: "\<not> IsUserData m" using f(2) by (simp add: IsUserData_def)
  have frame: "good_frame (us_t c) (re_decode (us_client c)) (us_enc c) m f" "length f \<le> buffer_size (us_t c)"
    using f(1) good_frame_any_decoder [OF nu] by (auto simp: frame_of_def)
  let ?conn = "(uw_conn w)\<lparr>c_Addr := addr\<rparr>" and ?s = "re_stat (us_client c) (m_SessionID m) (int (length f)) (uw_state w)"
  obtain m1 m2 where m: "open_datagram (us_t c) f = DMsg m1 (length f)" "m_Type m1 = m_Type m" "m_IsACK m1 = m_IsACK m"
    "m_SessionID m1 = m_SessionID m" "verdict_of (us_t c) (us_client c) ?conn ?s m1 = VDeliver m2"
    "received_as (re_decode (us_client c)) m m2"
    using good_frame_datagram [OF frame setup_okD(6) [OF ok], of ?conn ?s] by blast
  have pay: "IsPayload m" using f(3) by (simp add: IsPayload_def)
  have m2: "m_IsACK m2" "m_Payload m2 = PAck ?x"
    using m(6) f(2,4) pay by (simp_all add: received_as_def received_payload_def)
  let ?ns = "(uw_client w)\<lparr>ns_retries := (ns_retries (uw_client w))[h := retry_Ack now pending (Some ?x) (ns_retries (uw_client w) ! h)]\<rparr>"
  have "with_retry (c_Retry ?conn) (retry_Ack now pending (Some ?x)) (uw_client w) = Ok ?ns" using h by (simp add: with_retry_def)
  then have d: "dispatch (us_client c) now pending m2 ?conn (uw_client w) ?s = (SNext, ?conn, ?ns, ?s)"
    using m2 by (simp add: dispatch_def)
  have nk: "m_Type m1 \<noteq> MessageTypeKeepalive" using m(2) f(3) by simp
  have read: "readUDP (us_t c) (DGram f addr) = UMsg m1 addr (length f)"
    using m(1) nk by (simp add: readUDP_def)
  have res: "e = SNext" "conn1 = ?conn" "ns1 = ?ns" "s1 = ?s"
    using st nk m(4,5) d unfolding client_udp_step_def prod.case read by (simp_all add: Let_def)
  show "e = SNext" by (rule res(1))
  let ?w = "w\<lparr>uw_conn := conn1, uw_client := ns1, uw_state := s1\<rparr>"
  show r: "uw_retry ?w = retry_Ack now pending (Some ?x) (uw_retry w)" using h res by (simp add: uw_retry_def)
  have tr: "retry_tracks (frame_of c) (uw_sent w) (uw_retry w)" using i(1) by (simp add: client_ok_def)
  note ack = tracks_Ack [OF tr refl, where now = now and p = pending and a = ?x]
  have data: "ack_data ?x = ack_data x" by (simp add: NewMessageAcknowledgement_def)
  have "client_ok c ?w" using i(1) h res(2,3) ack(1) unfolding client_ok_def r by simp
  moreover have "stops_ok ?w" unfolding stops_ok_def r
  proof (intro allI impI)
    fix k assume k: "k < length (uw_sent ?w)" and stop: "rm_stop (rt_timers (retry_Ack now pending (Some ?x) (uw_retry w)) ! k)"
    have k': "k < length (uw_sent w)" using k by simp
    have "rm_stop (rt_timers (uw_retry w) ! k) \<or> (GetEndpoint (uw_sent w ! k), m_ID (uw_sent w ! k)) \<in> arrived (uw_sent w) (uw_app w)"
      using ack(2) [OF k' stop] pairs unfolding data by blast
    then show "got (uw_app ?w) (uw_sent ?w ! k)"
      using i(2) k' arrived_got [OF _ nth_mem [OF k'] tracksD(2) [OF tr]] by (auto simp: stops_ok_def)
  qed
  ultimately show "udp_inv c ?w"
    using i(3-6) unfolding udp_inv_def up_ok_def down_ok_def server_ok_def seen_ok_def by simp
qed

lemma inv_step:
  assumes ok: "setup_ok c" and step: "udp_session c w w1" and inv: "udp_inv c w"
  shows "udp_inv c w1"
  using step
proof cases
  case (send m d ws now out ns1)
  then show ?thesis using inv_send(1) [OF ok inv send(2,3,4,5)] by simp
next
  case (fire k now r1 again)
  then show ?thesis using inv_fire [OF inv fire(2,3,4)] by simp
next
  case (stopped k)
  then show ?thesis using inv_stopped [OF inv stopped(2)] by simp
next
  case (lose_up f)
  then show ?thesis using inv_wires [OF inv, of "uw_up w - {#f#}" "uw_down w"] by (auto dest: in_diffD)
next
  case (lose_down f)
  then show ?thesis using inv_wires [OF inv, of "uw_up w" "uw_down w - {#f#}"] by (auto dest: in_diffD)
next
  case (repeat_up f)
  then show ?thesis using inv_wires [OF inv, of "add_mset f (uw_up w)" "uw_down w"] by auto
next
  case (repeat_down f)
  then show ?thesis using inv_wires [OF inv, of "uw_up w" "add_mset f (uw_down w)"] by auto
next
  case (deliver f now pending e ctl1 ns1 q1 d1)
  obtain m where m: "m \<in> set (uw_sent w)" "frame_of c m f" using udp_invD(3) [OF inv] deliver(2) unfolding up_ok_def by blast
  have "numbered c m" using udp_invD(1) [OF inv] m(1) by (simp add: client_ok_def)
  then have "m_SessionID m \<noteq> 0" using setup_okD(5) [OF ok] by (simp add: numbered_def)
  moreover have "udp_inv c (w\<lparr>uw_up := uw_up w - {#f#}\<rparr>)"
    using inv_wires [OF inv, of "uw_up w - {#f#}" "uw_down w"] by (auto dest: in_diffD)
  ultimately show ?thesis
    using inv_server(1) [where c = c and w = "w\<lparr>uw_up := uw_up w - {#f#}\<rparr>" and m = m and f = f and now = now and pending = pending
        and addr = "us_addr c" and e = e and ?ctl1.0 = ctl1 and ?ns1.0 = ns1 and ?q1.0 = q1 and ?d1.0 = d1] m deliver(1,3) by simp
next
  case (other m f now pending addr e ctl1 ns1 q1 d1)
  have "frame_of c m f" using other(2,3) by (simp add: frame_of_def)
  from inv_server(1) [OF inv this other(4) _ other(6)] show ?thesis using other(1,5) by simp
next
  case (drop_session sid q1 d1)
  have "q1 = uw_app w" using drop_session(2) by (simp add: server_DropSession_def push_server_def)
  moreover have "uw_retry (w\<lparr>uw_app := uw_app w, uw_dropped := d1\<rparr>) = uw_retry w" by (rule uw_retry_cong) simp_all
  ultimately show ?thesis
    using inv drop_session(1) unfolding udp_inv_def client_ok_def stops_ok_def up_ok_def down_ok_def server_ok_def seen_ok_def by simp
next
  case (take_number a i ep t1 t2 rto)
  note old = udp_invD(6) [OF inv, unfolded seen_ok_def, rule_format, of a]
  let ?q = "ai_queue (ns_acks (uw_server w) ! a)" and ?n = "length (messages_seen (uw_seen w a))"
  have "messages_seen (uw_seen w a) = take ?n ?q"
    using old by (metis messages_seen_simps(1) list.size(3) take_0)
  then have "messages_seen (uw_seen w a) @ [(i, ep)] = take (Suc ?n) ?q"
    using take_number(3,4) by (simp add: take_Suc_conv_app_nth)
  moreover have "length (messages_seen (uw_seen w a @ [AckMessage i ep t1 t2 rto])) = Suc ?n" by simp
  ultimately have "messages_seen (uw_seen w a @ [AckMessage i ep t1 t2 rto]) =
      take (length (messages_seen (uw_seen w a @ [AckMessage i ep t1 t2 rto]))) ?q"
    by (simp only: messages_seen_simps)
  moreover have "AckDone \<notin> set (uw_seen w a @ [AckMessage i ep t1 t2 rto])" using old by simp
  ultimately show ?thesis unfolding take_number(1) by (intro inv_seen [OF inv take_number(2)])
next
  case (waited a)
  note old = udp_invD(6) [OF inv, unfolded seen_ok_def, rule_format, of a]
  have "messages_seen (uw_seen w a) = take (length (messages_seen (uw_seen w a))) (ai_queue (ns_acks (uw_server w) ! a))"
    using old by (metis messages_seen_simps(1) list.size(3) take_0)
  then show ?thesis
    using inv_seen [OF inv waited(2), of "uw_seen w a @ [AckTimeout]"] old waited(1) by simp
next
  case (acknowledge a m d ws now out ns1)
  then show ?thesis using inv_acknowledge(1) [OF ok inv acknowledge(2-6)] by simp
next
  case (receive f now pending addr e conn1 ns1 s1)
  obtain m x where m: "frame_of c m f" "m_IsACK m" "m_Type m = MessageTypeData" "m_Payload m = PAck x"
    "set (ack_pairs (ack_data x)) \<subseteq> arrived (uw_sent w) (uw_app w)"
    using udp_invD(4) [OF inv] receive(2) unfolding down_ok_def by blast
  moreover have "udp_inv c (w\<lparr>uw_down := uw_down w - {#f#}\<rparr>)"
    using inv_wires [OF inv, of "uw_up w" "uw_down w - {#f#}"] by (auto dest: in_diffD)
  ultimately show ?thesis
    using inv_receive(1) [OF ok, where w = "w\<lparr>uw_down := uw_down w - {#f#}\<rparr>" and m = m and f = f and x = x and addr = addr
        and now = now and pending = pending and e = e and ?conn1.0 = conn1 and ?ns1.0 = ns1 and ?s1.0 = s1] receive(1,3) by simp
qed

lemma inv_reach:
  assumes "setup_ok c" "(udp_session c)\<^sup>*\<^sup>* w w1" "udp_inv c w"
  shows "udp_inv c w1"
  using assms(2,3) by (induction rule: rtranclp_induct) (auto intro: inv_step [OF assms(1)])

lemma reach_inv:
  assumes "setup_ok c" "udp_reach c w"
  shows "udp_inv c w"
  using assms(2) inv_reach [OF assms(1) _ inv_begin [OF assms(1)]] by (elim exE)

section \<open>A message that is not given up can always get through\<close>

text \<open>The accumulator takes all that is queued, and then its wait is over: everything has been sent.\<close>

lemma take_all:
  assumes "udp_inv c w" "setup_ok c" "a < length (ns_acks (uw_server w))"
  shows "\<exists>evs. (udp_session c)\<^sup>*\<^sup>* w (w\<lparr>uw_seen := (uw_seen w)(a := evs)\<rparr>) \<and> messages_seen evs = ai_queue (ns_acks (uw_server w) ! a)"
  using assms
proof (induction "length (ai_queue (ns_acks (uw_server w) ! a)) - length (messages_seen (uw_seen w a))" arbitrary: w)
  case 0
  have "messages_seen (uw_seen w a) = take (length (messages_seen (uw_seen w a))) (ai_queue (ns_acks (uw_server w) ! a))"
    using udp_invD(6) [OF 0(2)] unfolding seen_ok_def by (metis messages_seen_simps(1) list.size(3) take_0)
  then have "messages_seen (uw_seen w a) = ai_queue (ns_acks (uw_server w) ! a)" using 0(1) by simp
  then show ?case by (intro exI [of _ "uw_seen w a"]) simp
next
  case (Suc n)
  let ?q = "ai_queue (ns_acks (uw_server w) ! a)" and ?n = "length (messages_seen (uw_seen w a))"
  obtain i e where ie: "?q ! ?n = (i, e)" by (cases "?q ! ?n")
  let ?w = "w\<lparr>uw_seen := (uw_seen w)(a := uw_seen w a @ [AckMessage i e 0 0 0])\<rparr>"
  have less: "n = length ?q - Suc ?n" "?n < length ?q" using Suc(2) by linarith+
  have step: "udp_session c w ?w" using less(2) by (intro udp_session.take_number [OF Suc(5) _ ie])
  obtain evs where evs: "(udp_session c)\<^sup>*\<^sup>* ?w (?w\<lparr>uw_seen := (uw_seen ?w)(a := evs)\<rparr>)" "messages_seen evs = ai_queue (ns_acks (uw_server ?w) ! a)"
    using Suc(1) [of ?w] less inv_step [OF Suc(4) step Suc(3)] Suc(4,5) by auto
  then have "(udp_session c)\<^sup>*\<^sup>* w (w\<lparr>uw_seen := (uw_seen w)(a := evs)\<rparr>)"
    using converse_rtranclp_into_rtranclp [of "udp_session c", OF step] by simp
  then show ?case using evs(2) by auto
qed

lemma accumulator_alive: "AckDone \<notin> set evs \<Longrightarrow> \<not> aa_stopped a \<Longrightarrow> \<not> aa_stopped (foldl accumulator_step a evs)"
proof (induction evs arbitrary: a)
  case (Cons ev evs)
  have "\<not> aa_stopped (accumulator_step a ev)"
    using Cons.prems by (cases ev) (auto simp: accumulator_step_def acc_send_def sendACK_def Let_def split: prod.splits)
  then show ?case using Cons by simp
qed simp

lemma waited_has_sent:
  assumes ok: "setup_ok c" and alive: "AckDone \<notin> set evs" and seen: "uw_seen w a = evs @ [AckTimeout]" and i: "(i, e) \<in> set (messages_seen evs)"
  obtains m where "m \<in> set (aa_sent (accumulator_of c a w))" "(e, i) \<in># acked_pairs m"
proof -
  have alive': "AckDone \<notin> set (uw_seen w a)" using alive seen by simp
  let ?old = "foldl accumulator_step (ack_New (us_ack c) (ai_session (ns_acks (uw_server w) ! a))) evs"
  have inv: "acc_inv (ac_MaxSize (us_ack c)) ?old" using accumulator.inv_reached setup_okD(3) [OF ok] by blast
  have "\<not> aa_stopped ?old" by (rule accumulator_alive [OF alive]) (simp add: ack_New_def)
  then have "accumulator_of c a w = acc_send ?old" by (simp add: accumulator_of_def seen accumulator_step_def)
  then have "ack_data (aa_ids (accumulator_of c a w)) = []" using acc_send_inv(3) [OF inv] by simp
  then have "(\<Sum>m\<leftarrow>aa_sent (accumulator_of c a w). acked_pairs m) = mset (map (\<lambda>(i, e). (e, i)) (messages_seen (uw_seen w a)))"
    using accumulator_facts(2) [OF ok alive'] by (simp add: acc_holds_def)
  moreover have "(e, i) \<in># mset (map (\<lambda>(i, e). (e, i)) (messages_seen (uw_seen w a)))" using i by (force simp: seen)
  ultimately have "(e, i) \<in># (\<Sum>m\<leftarrow>aa_sent (accumulator_of c a w). acked_pairs m)" by simp
  moreover have "\<exists>m\<in>set ms. x \<in># acked_pairs m" if "x \<in># (\<Sum>m\<leftarrow>ms. acked_pairs m)" for x ms
    using that by (induction ms) auto
  ultimately show thesis using that by blast
qed

text \<open>An acknowledgement can be sent.\<close>

definition some_draws :: "nat \<Rightarrow> draws" where
  "some_draws k = \<lparr>dr_fake = (\<lambda>_. 0), dr_rnd1 = Ok (replicate k 0), dr_rnd2 = Ok (replicate k 0)\<rparr>"

lemma some_draws_ok: "draws_ok k (some_draws k)"
  by (simp add: draws_ok_def some_draws_def rand_ok_def)

lemma send_data_whole: "HeaderSize \<le> length data \<Longrightarrow> send_data data [Wrote (length data)] = Some (data, Ok ())"
  by (cases data) (simp_all add: send_data_def write_all.simps)

lemma send_udp_possible:
  assumes ok: "transport_ok k t u" and m: "proper t decode m" and nu: "\<not> IsUserData m"
  shows "\<exists>ws out. send_udp t (some_draws k) ws now m None None ns = Some (out, Ok (), ns)"
proof -
  obtain data where data: "seal t False True (user_encryptor u m) (dr_fake (some_draws k)) (dr_rnd1 (some_draws k)) (dr_rnd2 (some_draws k)) m = Ok data"
    "good_frame t decode u m data"
    using seal_proper [OF ok some_draws_ok m, of False] by blast
  have "HeaderSize \<le> length data" using good_frame_nonempty [OF data(2)] headerLength_pos [OF ok] by simp
  moreover have "user_encryptor u m = None" "\<not> IsSendACK m" using nu by (simp_all add: user_encryptor_def IsSendACK_IsUserData)
  ultimately have "send_udp t (some_draws k) [Wrote (length data)] now m None None ns = Some (data, Ok (), ns)"
    using data(1) send_data_whole by (simp add: send_udp_def)
  then show ?thesis by blast
qed

text \<open>The message of a running timer is sent again; nothing else changes at the client.\<close>

definition in_flight :: "'s udp_setup \<Rightarrow> int \<Rightarrow> 's udp_world \<Rightarrow> nat \<Rightarrow> bool" where
  "in_flight c now w k \<longleftrightarrow> k < length (uw_sent w) \<and> rm_running (rt_timers (uw_retry w) ! k)
     \<and> now - rm_start (rt_timers (uw_retry w) ! k) < rc_MaxTimeout (us_retry c)"

lemma fire_sends:
  assumes inv: "udp_inv c w" and k: "in_flight c now w k"
  obtains f w1 where "udp_session c w w1" "f \<in># uw_up w1" "frame_of c (uw_sent w ! k) f" "uw_sent w1 = uw_sent w" "uw_app w1 = uw_app w"
    "rm_running (rt_timers (uw_retry w1) ! k)"
proof -
  let ?r = "uw_retry w" and ?m = "rt_timers (uw_retry w) ! k"
  have client: "client_ok c w" and tr: "retry_tracks (frame_of c) (uw_sent w) ?r" using udp_invD(1) [OF inv] by (simp_all add: client_ok_def)
  have l: "k < length (uw_sent w)" "rm_running ?m" "now - rm_start ?m < rc_MaxTimeout (us_retry c)" "k < length (rt_timers ?r)"
    using k tracksD(1) [OF tr] by (simp_all add: in_flight_def)
  obtain b where b: "rm_msg ?m = (uw_sent w ! k)\<lparr>m_Payload := PBytes b\<rparr>" "frame_of c (uw_sent w ! k) b"
    using tracksD(4) [OF tr l(1,2)] by blast
  define r1 where "r1 = ?r\<lparr>rt_sent := rt_sent ?r @ [(b, rm_msg ?m)],
      rt_timers := (rt_timers ?r)[k := ?m\<lparr>rm_attempts := rm_attempts ?m + 1,
        rm_duration := rm_duration ?m + duration (fSecond * exp (real (rm_attempts ?m + 1) * rc_BackoffFactor (us_retry c)))\<rparr>]\<rparr>"
  have fire: "timer_fire (us_retry c) k now ?r = Ok r1" using l b(1) by (simp add: timer_fire_def Let_def r1_def)
  have sent: "rt_sent r1 = rt_sent ?r @ [(b, rm_msg ?m)]" by (simp add: r1_def)
  let ?w = "put_retry r1 w\<lparr>uw_up := uw_up w + mset (map fst [(b, rm_msg ?m)])\<rparr>"
  have "uw_retry ?w = r1" using uw_retry_put [OF client] uw_retry_cong [of ?w "put_retry r1 w"] by simp
  then have "rm_running (rt_timers (uw_retry ?w) ! k)" using l(2,4) by (simp add: r1_def)
  with udp_session.fire [OF l(4) fire sent] b(2) show thesis by (intro that [of ?w b]) simp_all
qed

text \<open>A datagram arrives: its number is queued with an accumulator of the session.\<close>

definition same_client :: "'s udp_world \<Rightarrow> 's udp_world \<Rightarrow> bool" where
  "same_client w w1 \<longleftrightarrow> uw_conn w1 = uw_conn w \<and> uw_client w1 = uw_client w \<and> uw_sent w1 = uw_sent w"

lemma same_client_retry: "same_client w w1 \<Longrightarrow> uw_retry w1 = uw_retry w"
  by (simp add: same_client_def uw_retry_def)

lemma datagram_arrives:
  assumes ok: "setup_ok c" and inv: "udp_inv c w" and f: "f \<in># uw_up w" "frame_of c m f" "m \<in> set (uw_sent w)"
  obtains w1 a where "udp_session c w w1" "same_client w w1" "a < length (ns_acks (uw_server w1))"
    "ai_session (ns_acks (uw_server w1) ! a) = us_session c" "(m_ID m, GetEndpoint m) \<in> set (ai_queue (ns_acks (uw_server w1) ! a))"
proof -
  have "numbered c m" using udp_invD(1) [OF inv] f(3) by (simp add: client_ok_def)
  then have sid: "m_SessionID m \<noteq> 0" using setup_okD(5) [OF ok] by (simp add: numbered_def)
  obtain e ctl1 ns1 q1 d1 where st: "v1_udp_step (us_t c) (push_server (us_enc c) (us_decode c)) (us_socket c) (us_port c) 0 False
      (DGram f (us_addr c)) (uw_control w, uw_server w, uw_app w, uw_dropped w) = (e, ctl1, ns1, q1, d1)"
    by (cases "v1_udp_step (us_t c) (push_server (us_enc c) (us_decode c)) (us_socket c) (us_port c) 0 False
      (DGram f (us_addr c)) (uw_control w, uw_server w, uw_app w, uw_dropped w)")
  obtain a where a: "a < length (ns_acks ns1)" "ai_session (ns_acks ns1 ! a) = us_session c" "(m_ID m, GetEndpoint m) \<in> set (ai_queue (ns_acks ns1 ! a))"
    using inv_server(2) [OF inv f(2) sid _ st f(3)] f(3) by blast
  show thesis
    by (rule that [OF udp_session.deliver [OF f(1) st], of a]) (simp_all add: same_client_def a)
qed

text \<open>A number that is queued: an acknowledgement that names it, and only messages that have arrived, goes out.\<close>

definition acknowledging :: "'s udp_setup \<Rightarrow> 's udp_world \<Rightarrow> bytes \<Rightarrow> message \<Rightarrow> ack_message \<Rightarrow> bool" where
  "acknowledging c w f m x \<longleftrightarrow> frame_of c m f \<and> m_IsACK m \<and> m_Type m = MessageTypeData \<and> m_Payload m = PAck x
     \<and> set (ack_pairs (ack_data x)) \<subseteq> arrived (uw_sent w) (uw_app w)"

lemma waited_acknowledges:
  assumes ok: "setup_ok c" and inv: "udp_inv c w" and a: "a < length (ns_acks (uw_server w))" "ai_session (ns_acks (uw_server w) ! a) = us_session c"
    and seen: "uw_seen w a = evs @ [AckTimeout]" "(i, e) \<in> set (messages_seen evs)"
  obtains w1 f m x where "udp_session c w w1" "same_client w w1" "f \<in># uw_down w1" "acknowledging c w1 f m x" "(e, i) \<in> set (ack_pairs (ack_data x))"
proof -
  have alive: "AckDone \<notin> set (uw_seen w a)" using udp_invD(6) [OF inv] by (simp add: seen_ok_def)
  then obtain m where m: "m \<in> set (aa_sent (accumulator_of c a w))" "(e, i) \<in># acked_pairs m"
    using waited_has_sent [OF ok _ seen] seen(1) by auto
  obtain x where x: "m_Payload m = PAck x" "m_IsACK m" "m_Type m = MessageTypeData" "proper (us_t c) (us_decode c) m" "\<not> IsUserData m"
    using sent_acknowledgement [OF ok alive m(1)] by metis
  obtain ws out where snd: "v1_sendUDP (us_t c) (some_draws (us_nonce c)) ws 0 m None None (uw_server w) = Some (out, Ok (), uw_server w)"
    using send_udp_possible [OF setup_okD(1) [OF ok] x(4,5)] by fastforce
  note sent = inv_acknowledge [OF ok inv a m(1) some_draws_ok snd]
  let ?w = "w\<lparr>uw_server := uw_server w, uw_down := add_mset out (uw_down w)\<rparr>"
  show thesis
  proof (rule that [of ?w out m x])
    show "udp_session c w ?w" by (rule udp_session.acknowledge [OF a m(1) some_draws_ok snd])
    show "acknowledging c ?w out m x" using sent(2) sent(4) [OF x(1)] x(1-3) by (simp add: acknowledging_def)
    show "(e, i) \<in> set (ack_pairs (ack_data x))" using m(2) by (simp add: acked_pairs_def x(1))
  qed (simp_all add: same_client_def)
qed

lemma queued_is_acknowledged:
  assumes ok: "setup_ok c" and inv: "udp_inv c w" and a: "a < length (ns_acks (uw_server w))" "ai_session (ns_acks (uw_server w) ! a) = us_session c"
    and i: "(i, e) \<in> set (ai_queue (ns_acks (uw_server w) ! a))"
  obtains w1 f m x where "(udp_session c)\<^sup>*\<^sup>* w w1" "same_client w w1" "f \<in># uw_down w1" "acknowledging c w1 f m x" "(e, i) \<in> set (ack_pairs (ack_data x))"
proof -
  obtain evs where evs: "(udp_session c)\<^sup>*\<^sup>* w (w\<lparr>uw_seen := (uw_seen w)(a := evs)\<rparr>)" "messages_seen evs = ai_queue (ns_acks (uw_server w) ! a)"
    using take_all [OF inv ok a(1)] by blast
  define w1 where "w1 = w\<lparr>uw_seen := (uw_seen w)(a := evs)\<rparr>"
  define w2 where "w2 = w1\<lparr>uw_seen := (uw_seen w1)(a := uw_seen w1 a @ [AckTimeout])\<rparr>"
  have step: "udp_session c w1 w2" unfolding w2_def by (rule udp_session.waited) (use a(1) in \<open>simp add: w1_def\<close>)
  have run: "(udp_session c)\<^sup>*\<^sup>* w w2" using evs(1) [folded w1_def] step by (rule rtranclp.rtrancl_into_rtrancl)
  have inv2: "udp_inv c w2" by (rule inv_reach [OF ok run inv])
  have a2: "a < length (ns_acks (uw_server w2))" "ai_session (ns_acks (uw_server w2) ! a) = us_session c" "uw_seen w2 a = evs @ [AckTimeout]"
    "(i, e) \<in> set (messages_seen evs)" and same: "same_client w w2"
    using a i evs(2) by (simp_all add: w2_def w1_def same_client_def)
  obtain w3 f m x where w3: "udp_session c w2 w3" "same_client w2 w3" "f \<in># uw_down w3" "acknowledging c w3 f m x" "(e, i) \<in> set (ack_pairs (ack_data x))"
    using waited_acknowledges [OF ok inv2 a2] .
  have "(udp_session c)\<^sup>*\<^sup>* w w3" using run w3(1) by (rule rtranclp.rtrancl_into_rtrancl)
  moreover have "same_client w w3" using same w3(2) by (simp add: same_client_def)
  ultimately show thesis using w3(3-5) that by blast
qed

text \<open>The client receives it: the timers of the messages that it names are stopped.\<close>

lemma acknowledgement_stops:
  assumes ok: "setup_ok c" and inv: "udp_inv c w" and f: "f \<in># uw_down w" "acknowledging c w f m x"
    and k: "k < length (uw_sent w)" "rm_running (rt_timers (uw_retry w) ! k)"
      "(GetEndpoint (uw_sent w ! k), m_ID (uw_sent w ! k)) \<in> set (ack_pairs (ack_data x))"
  obtains w1 where "udp_session c w w1" "uw_sent w1 = uw_sent w" "rm_stop (rt_timers (uw_retry w1) ! k)"
proof -
  obtain e conn1 ns1 s1 where st: "client_udp_step (us_t c) (us_client c) 0 False (DGram f (us_addr c)) (uw_conn w, uw_client w, uw_state w)
      = (e, conn1, ns1, s1)"
    by (cases "client_udp_step (us_t c) (us_client c) 0 False (DGram f (us_addr c)) (uw_conn w, uw_client w, uw_state w)")
  let ?x = "NewMessageAcknowledgement (Some (ack_data x))"
  let ?w = "w\<lparr>uw_down := uw_down w - {#f#}, uw_conn := conn1, uw_client := ns1, uw_state := s1\<rparr>"
  have m: "frame_of c m f" "m_IsACK m" "m_Type m = MessageTypeData" "m_Payload m = PAck x"
    "set (ack_pairs (ack_data x)) \<subseteq> arrived (uw_sent w) (uw_app w)" using f(2) by (simp_all add: acknowledging_def)
  have r: "uw_retry ?w = retry_Ack 0 False (Some ?x) (uw_retry w)"
    using inv_receive(3) [OF ok inv m st] by (simp add: uw_retry_def)
  have tr: "retry_tracks (frame_of c) (uw_sent w) (uw_retry w)" using udp_invD(1) [OF inv] by (simp add: client_ok_def)
  have "rm_stop (rt_timers (uw_retry ?w) ! k)"
    unfolding r using tracks_Ack(3) [OF tr refl k(1), where now = 0 and p = False and a = ?x] k(2,3) by (simp add: NewMessageAcknowledgement_def)
  then show thesis using udp_session.receive [OF f(1) st] by (intro that [of ?w]) simp_all
qed

lemma completes:
  assumes ok: "setup_ok c" and inv: "udp_inv c w" and k: "in_flight c now w k"
  shows "\<exists>w1. (udp_session c)\<^sup>*\<^sup>* w w1 \<and> uw_sent w1 = uw_sent w \<and> rm_stop (rt_timers (uw_retry w1) ! k)"
proof -
  let ?m = "uw_sent w ! k"
  obtain f w1 where w1: "udp_session c w w1" "f \<in># uw_up w1" "frame_of c ?m f" "uw_sent w1 = uw_sent w" "uw_app w1 = uw_app w"
    "rm_running (rt_timers (uw_retry w1) ! k)"
    using fire_sends [OF inv k] .
  have kl: "k < length (uw_sent w)" using k by (simp add: in_flight_def)
  then have mem: "?m \<in> set (uw_sent w1)" using w1(4) by simp
  have inv1: "udp_inv c w1" by (rule inv_step [OF ok w1(1) inv])
  obtain w2 a where w2: "udp_session c w1 w2" "same_client w1 w2" "a < length (ns_acks (uw_server w2))"
    "ai_session (ns_acks (uw_server w2) ! a) = us_session c" "(m_ID ?m, GetEndpoint ?m) \<in> set (ai_queue (ns_acks (uw_server w2) ! a))"
    using datagram_arrives [OF ok inv1 w1(2,3) mem] .
  have inv2: "udp_inv c w2" by (rule inv_step [OF ok w2(1) inv1])
  obtain w3 f3 m x where w3: "(udp_session c)\<^sup>*\<^sup>* w2 w3" "same_client w2 w3" "f3 \<in># uw_down w3" "acknowledging c w3 f3 m x"
    "(GetEndpoint ?m, m_ID ?m) \<in> set (ack_pairs (ack_data x))"
    using queued_is_acknowledged [OF ok inv2 w2(3-5)] .
  have inv3: "udp_inv c w3" by (rule inv_reach [OF ok w3(1) inv2])
  have r3: "uw_retry w3 = uw_retry w1" "uw_sent w3 = uw_sent w"
    using same_client_retry [OF w2(2)] same_client_retry [OF w3(2)] w2(2) w3(2) w1(4) by (simp_all add: same_client_def)
  obtain w4 where w4: "udp_session c w3 w4" "uw_sent w4 = uw_sent w3" "rm_stop (rt_timers (uw_retry w4) ! k)"
    using acknowledgement_stops [OF ok inv3 w3(3,4), of k] kl w1(6) w3(5) unfolding r3 by blast
  have "(udp_session c)\<^sup>*\<^sup>* w w2" using w1(1) w2(1) by (meson r_into_rtranclp rtranclp.rtrancl_into_rtrancl)
  then have "(udp_session c)\<^sup>*\<^sup>* w w4" using w3(1) w4(1) by (meson rtranclp.rtrancl_into_rtrancl rtranclp_trans)
  then show ?thesis using w4(2,3) r3(2) by auto
qed

text \<open>A timer that is stopped stays stopped.\<close>

lemma stop_stays:
  assumes ok: "setup_ok c" and inv: "udp_inv c w" and step: "udp_session c w w1"
    and k: "k < length (uw_sent w)" "rm_stop (rt_timers (uw_retry w) ! k)"
  shows "k < length (uw_sent w1) \<and> rm_stop (rt_timers (uw_retry w1) ! k)"
proof -
  note i = udp_invD [OF inv]
  have tr: "retry_tracks (frame_of c) (uw_sent w) (uw_retry w)" using i(1) by (simp add: client_ok_def)
  note len = tracksD(1) [OF tr]
  have put: "uw_retry (put_retry r w\<lparr>uw_up := up\<rparr>) = r" for r up
    using uw_retry_put [OF i(1)] uw_retry_cong [of "put_retry r w\<lparr>uw_up := up\<rparr>" "put_retry r w"] by simp
  show ?thesis
    using step
  proof cases
    case (send m d ws now out ns1)
    have "uw_retry w1 = uw_retry (w\<lparr>uw_client := ns1\<rparr>)" by (rule uw_retry_cong) (simp_all add: send(1))
    also have "\<dots> = retry_Push now (m\<lparr>m_Payload := PBytes out\<rparr>) (uw_retry w)"
      unfolding inv_send(2) [OF ok inv send(2,3,4,5)] by (rule uw_retry_put [OF i(1)])
    finally show ?thesis using k len by (simp add: send(1) retry_Push_def nth_append)
  next
    case (fire j now r1 again)
    then show ?thesis using put tracks_fire(3) [OF tr _ fire(3), of k] k len by simp
  next
    case (stopped j)
    then show ?thesis using uw_retry_put [OF i(1)] tracks_stop(2) [OF tr, of j k] k len by simp
  next
    case (receive f now pending addr e conn1 ns1 s1)
    obtain m x where m: "frame_of c m f" "m_IsACK m" "m_Type m = MessageTypeData" "m_Payload m = PAck x"
      "set (ack_pairs (ack_data x)) \<subseteq> arrived (uw_sent w) (uw_app w)"
      using i(4) receive(2) unfolding down_ok_def by blast
    have "uw_retry w1 = uw_retry (w\<lparr>uw_conn := conn1, uw_client := ns1, uw_state := s1\<rparr>)" by (rule uw_retry_cong) (simp_all add: receive(1))
    also have "\<dots> = retry_Ack now pending (Some (NewMessageAcknowledgement (Some (ack_data x)))) (uw_retry w)"
      by (rule inv_receive(3) [OF ok inv m receive(3)])
    finally show ?thesis using tracks_Ack(3) [OF tr refl k(1)] k by (simp add: receive(1))
  qed (use k in \<open>simp_all add: uw_retry_def\<close>)
qed

lemma stop_stays_run:
  assumes "setup_ok c" "(udp_session c)\<^sup>*\<^sup>* w w1" "udp_inv c w" "k < length (uw_sent w)" "rm_stop (rt_timers (uw_retry w) ! k)"
  shows "k < length (uw_sent w1) \<and> rm_stop (rt_timers (uw_retry w1) ! k)"
  using assms(2)
proof (induction rule: rtranclp_induct)
  case (step y z)
  then show ?case using stop_stays [OF assms(1) inv_reach [OF assms(1) step(1) assms(3)] step(2)] by blast
qed (use assms(4,5) in blast)

text \<open>A numbered message can be sent, and its timer runs.\<close>

lemma send_possible:
  assumes ok: "setup_ok c" and inv: "udp_inv c w" and m: "numbered c m" "key_of m \<notin> key_of ` set (uw_sent w)"
    and max: "0 < rc_MaxTimeout (us_retry c)"
  obtains w1 where "udp_session c w w1" "uw_sent w1 = uw_sent w @ [m]" "in_flight c 0 w1 (length (uw_sent w))"
proof -
  note i = udp_invD [OF inv]
  have client: "client_ok c w" by (rule i(1))
  obtain h where h: "c_Retry (uw_conn w) = Some h" "h < length (ns_retries (uw_client w))" "c_TCPConn (uw_conn w) = None"
    using client unfolding client_ok_def by blast
  have data: "IsUserData m" "proper (us_t c) (us_decode c) m" using m(1) by (simp_all add: numbered_def)
  let ?d = "some_draws (us_nonce c)"
  obtain out where out: "seal (us_t c) False True (user_encryptor (us_enc c) m) (dr_fake ?d) (dr_rnd1 ?d) (dr_rnd2 ?d) m = Ok out"
    "good_frame (us_t c) (us_decode c) (us_enc c) m out"
    using seal_proper [OF setup_okD(1) [OF ok] some_draws_ok data(2), of False] by blast
  have "HeaderSize \<le> length out" using good_frame_nonempty [OF out(2)] headerLength_pos [OF setup_okD(1) [OF ok]] by simp
  note whole = send_data_whole [OF this]
  have "\<exists>ns1. client_SendAsync (us_t c) (us_client c) ?d [Wrote (length out)] 0 m (uw_conn w) (uw_state w) (uw_client w) = Some (out, Ok (), ns1)"
    unfolding client_SendAsync_def user_choice [OF setup_okD(6) [OF ok]] using h out(1) whole by (simp add: send_udp_def with_retry_def)
  then obtain ns1 where snd: "client_SendAsync (us_t c) (us_client c) ?d [Wrote (length out)] 0 m (uw_conn w) (uw_state w) (uw_client w) = Some (out, Ok (), ns1)" ..
  let ?w = "w\<lparr>uw_client := ns1, uw_sent := uw_sent w @ [m], uw_up := add_mset out (uw_up w)\<rparr>"
  have "uw_retry ?w = uw_retry (w\<lparr>uw_client := ns1\<rparr>)" by (rule uw_retry_cong) simp_all
  also have "\<dots> = retry_Push 0 (m\<lparr>m_Payload := PBytes out\<rparr>) (uw_retry w)"
    unfolding inv_send(2) [OF ok inv m some_draws_ok snd] by (rule uw_retry_put [OF client])
  finally have r: "uw_retry ?w = retry_Push 0 (m\<lparr>m_Payload := PBytes out\<rparr>) (uw_retry w)" .
  have "length (rt_timers (uw_retry w)) = length (uw_sent w)" using client tracksD(1) by (auto simp: client_ok_def)
  then have "in_flight c 0 ?w (length (uw_sent w))" using max unfolding in_flight_def r by (simp add: retry_Push_def nth_append)
  then show thesis using udp_session.send [OF m some_draws_ok snd] by (intro that [of ?w]) simp_all
qed

text \<open>Any messages can be sent and acknowledged.\<close>

lemma can_be_acknowledged:
  assumes ok: "setup_ok c" and max: "0 < rc_MaxTimeout (us_retry c)"
  shows "udp_inv c w \<Longrightarrow> \<forall>m\<in>set ms. numbered c m \<Longrightarrow> distinct (map key_of (uw_sent w @ ms)) \<Longrightarrow>
    \<forall>k<length (uw_sent w). rm_stop (rt_timers (uw_retry w) ! k) \<Longrightarrow>
    \<exists>w1. (udp_session c)\<^sup>*\<^sup>* w w1 \<and> uw_sent w1 = uw_sent w @ ms \<and> (\<forall>k<length (uw_sent w1). rm_stop (rt_timers (uw_retry w1) ! k))"
proof (induction ms arbitrary: w)
  case Nil
  then show ?case by (intro exI [of _ w]) simp
next
  case (Cons m ms)
  let ?n = "length (uw_sent w)"
  have new: "numbered c m" "key_of m \<notin> key_of ` set (uw_sent w)" using Cons.prems(2,3) by auto
  obtain w1 where w1: "udp_session c w w1" "uw_sent w1 = uw_sent w @ [m]" "in_flight c 0 w1 ?n"
    using send_possible [OF ok Cons.prems(1) new max] .
  have inv1: "udp_inv c w1" by (rule inv_step [OF ok w1(1) Cons.prems(1)])
  obtain w2 where w2: "(udp_session c)\<^sup>*\<^sup>* w1 w2" "uw_sent w2 = uw_sent w1" "rm_stop (rt_timers (uw_retry w2) ! ?n)"
    using completes [OF ok inv1 w1(3)] by blast
  have run: "(udp_session c)\<^sup>*\<^sup>* w w2" by (rule converse_rtranclp_into_rtranclp [OF w1(1) w2(1)])
  have inv2: "udp_inv c w2" by (rule inv_reach [OF ok run Cons.prems(1)])
  have "rm_stop (rt_timers (uw_retry w2) ! k)" if "k < length (uw_sent w2)" for k
    using that w2(2,3) w1(2) stop_stays_run [OF ok run Cons.prems(1)] Cons.prems(4) by (cases "k = ?n") auto
  moreover have "distinct (map key_of (uw_sent w2 @ ms))" using Cons.prems(3) w1(2) w2(2) by simp
  ultimately obtain w3 where "(udp_session c)\<^sup>*\<^sup>* w2 w3" "uw_sent w3 = uw_sent w2 @ ms" "\<forall>k<length (uw_sent w3). rm_stop (rt_timers (uw_retry w3) ! k)"
    using Cons.IH [OF inv2] Cons.prems(2) by auto
  then show ?case using run w1(2) w2(2) by (intro exI [of _ w3]) (auto intro: rtranclp_trans)
qed

section \<open>Properties\<close>

lemma stopped_got:
  assumes "udp_inv c w" "k < length (uw_sent w)" "rm_stop (rt_timers (uw_retry w) ! k)"
  shows "\<exists>r\<in>set (uw_app w). m_SessionID (mm_msg r) = us_session c \<and> essence (mm_msg r) = essence (uw_sent w ! k)"
proof -
  have "m_SessionID (uw_sent w ! k) = us_session c"
    using udp_invD(1) [OF assms(1)] nth_mem [OF assms(2)] by (auto simp: client_ok_def numbered_def)
  moreover have "got (uw_app w) (uw_sent w ! k)" using udp_invD(2) [OF assms(1)] assms(2,3) by (simp add: stops_ok_def)
  ultimately show ?thesis by (simp add: got_def)
qed

definition sample_udp :: "message list udp_setup" where
  "sample_udp = \<lparr>us_t = sample_transport, us_enc = NewEmpty [], us_decode = re_decode sample_env, us_client = sample_env,
     us_conn = new_connection\<lparr>c_UDPConn := Some sample_socket\<rparr>, us_retry = sample_retry_cfg,
     us_ack = \<lparr>ac_MaxSize = 100, ac_EndpointLifeTime = 0, ac_WaitingTimePercentOfRTO = 50\<rparr>, us_session = 9, us_nonce = 0,
     us_socket = sample_socket, us_port = 1977, us_addr = UDPAddr [10, 0, 0, 2] 4000, us_sessions = 10\<rparr>"

lemma sample_setup_ok: "setup_ok sample_udp"
  using sample_transport_ok
  by (simp add: setup_ok_def sample_udp_def new_connection_def)
    (simp add: sample_transport_def NewTapirCodec_def sample_env_def)

lemma sample_numbered: "numbered sample_udp sample_data"
  using sample_proper
  by (simp add: numbered_def sample_udp_def)
    (simp add: sample_data_def new_message_def IsUserData_def sample_env_def new_packet_info_def GetEndpoint_def)

lemma sample_send_step:
  "\<exists>w. udp_session sample_udp (udp_begin sample_udp []) w \<and> uw_sent w = [sample_data] \<and> uw_up w = {#sample_frame#} \<and> uw_app w = []
     \<and> in_flight sample_udp 1001 w 0"
proof -
  let ?w = "udp_begin sample_udp []"
  have w: "c_TCPConn (uw_conn ?w) = None" "c_Retry (uw_conn ?w) = Some 0" "length (ns_retries (uw_client ?w)) = 1" "uw_sent ?w = []"
    "uw_up ?w = {#}" "uw_app ?w = []"
    by (simp_all add: udp_begin_def client_udp_start_def retryFactory_def ackFactory_def sample_udp_def new_connection_def)
  have b: "write_all sample_frame [Wrote 15] = Some (sample_frame, Ok ())" "\<not> length sample_frame < HeaderSize"
    by (simp_all add: write_all.simps sample_frame_def)
  have "re_enc sample_env (uw_conn ?w) (uw_state ?w) = Ok (Some (NewEmpty []))" by (simp add: sample_env_def)
  note choice = user_choice [OF this, of sample_data]
  obtain ns1 where snd: "client_SendAsync (us_t sample_udp) (us_client sample_udp) sample_draws [Wrote 15] 1000 sample_data (uw_conn ?w) (uw_state ?w) (uw_client ?w)
      = Some (sample_frame, Ok (), ns1)"
  proof -
    have e: "us_t sample_udp = sample_transport" "us_client sample_udp = sample_env" by (simp_all add: sample_udp_def)
    have "\<exists>ns1. client_SendAsync sample_transport sample_env sample_draws [Wrote 15] 1000 sample_data (uw_conn ?w) (uw_state ?w) (uw_client ?w)
      = Some (sample_frame, Ok (), ns1)"
      unfolding client_SendAsync_def choice using w b by (simp add: send_udp_def sample_seal send_data_def with_retry_def)
    then show thesis using that unfolding e by blast
  qed
  have d: "draws_ok (us_nonce sample_udp) sample_draws" by (simp add: sample_udp_def draws_ok_def sample_draws_def rand_ok_def)
  have new: "key_of sample_data \<notin> key_of ` set (uw_sent ?w)" using w(4) by simp
  let ?w1 = "?w\<lparr>uw_client := ns1, uw_sent := uw_sent ?w @ [sample_data], uw_up := add_mset sample_frame (uw_up ?w)\<rparr>"
  have inv: "udp_inv sample_udp ?w" by (rule inv_begin [OF sample_setup_ok])
  have "?w\<lparr>uw_client := ns1\<rparr> = put_retry (retry_Push 1000 (sample_data\<lparr>m_Payload := PBytes sample_frame\<rparr>) (uw_retry ?w)) ?w"
    by (rule inv_send(2) [OF sample_setup_ok inv sample_numbered new d snd])
  then have "uw_retry ?w1 = retry_Push 1000 (sample_data\<lparr>m_Payload := PBytes sample_frame\<rparr>) (uw_retry ?w)"
    using uw_retry_put [OF udp_invD(1) [OF inv]] uw_retry_cong [of ?w1 "?w\<lparr>uw_client := ns1\<rparr>"] by simp
  moreover have "uw_retry ?w = retry_New"
    by (simp add: uw_retry_def udp_begin_def client_udp_start_def retryFactory_def ackFactory_def)
  ultimately have "in_flight sample_udp 1001 ?w1 0"
    using w(4) by (simp add: in_flight_def retry_Push_def retry_New_def sample_udp_def sample_retry_cfg_def)
  then show ?thesis
    using udp_session.send [OF sample_numbered new d snd] w(4-6) by (intro exI [of _ ?w1]) simp
qed

text \<open>
  C4. An acknowledged message has been received. Whatever the network does with the datagrams of a session and of its
  acknowledgements - they are lost, repeated, delayed, overtaken -, and whatever other sessions do at the same socket: when the
  client's retransmission has stopped the timer of a message, the server has handed that message to the application, with its
  number, its bytes and its endpoint; and what the server hands over in the session, the client has sent.
\<close>

theorem acknowledged_means_received:
  assumes "setup_ok c" "udp_reach c w"
  shows "length (rt_timers (uw_retry w)) = length (uw_sent w)
     \<and> (\<forall>k<length (uw_sent w). rm_stop (rt_timers (uw_retry w) ! k) \<longrightarrow>
          (\<exists>r\<in>set (uw_app w). m_SessionID (mm_msg r) = us_session c \<and> essence (mm_msg r) = essence (uw_sent w ! k)))
     \<and> (\<forall>r\<in>set (uw_app w). m_SessionID (mm_msg r) = us_session c \<longrightarrow> (\<exists>m\<in>set (uw_sent w). essence (mm_msg r) = essence m))"
proof (intro conjI allI impI ballI)
  note i = udp_invD [OF reach_inv [OF assms]]
  have sent: "numbered c m" if "m \<in> set (uw_sent w)" for m using i(1) that by (simp add: client_ok_def)
  show "length (rt_timers (uw_retry w)) = length (uw_sent w)" using i(1) tracksD(1) by (auto simp: client_ok_def)
  show "\<exists>r\<in>set (uw_app w). m_SessionID (mm_msg r) = us_session c \<and> essence (mm_msg r) = essence (uw_sent w ! k)"
    if "k < length (uw_sent w)" "rm_stop (rt_timers (uw_retry w) ! k)" for k
    by (rule stopped_got [OF reach_inv [OF assms] that])
  show "\<exists>m\<in>set (uw_sent w). essence (mm_msg r) = essence m" if "r \<in> set (uw_app w)" "m_SessionID (mm_msg r) = us_session c" for r
    using i(5) that numbered_received(1) [OF sent] unfolding server_ok_def by blast
qed

theorem acknowledged_means_received_witness:
  "\<exists>w. uw_sent w = [sample_data] \<and> rm_stop (rt_timers (uw_retry (w :: message list udp_world)) ! 0)
     \<and> (\<exists>r\<in>set (uw_app w). m_SessionID (mm_msg r) = 9 \<and> essence (mm_msg r) = essence sample_data)"
proof -
  obtain w where w: "udp_session sample_udp (udp_begin sample_udp []) w" "uw_sent w = [sample_data]" "in_flight sample_udp 1001 w 0"
    using sample_send_step by blast
  have inv: "udp_inv sample_udp w" by (rule inv_step [OF sample_setup_ok w(1) inv_begin [OF sample_setup_ok]])
  obtain w1 where w1: "(udp_session sample_udp)\<^sup>*\<^sup>* w w1" "uw_sent w1 = [sample_data]" "rm_stop (rt_timers (uw_retry w1) ! 0)"
    using completes [OF sample_setup_ok inv w(3)] w(2) by auto
  have "(udp_session sample_udp)\<^sup>*\<^sup>* (udp_begin sample_udp []) w1" by (rule converse_rtranclp_into_rtranclp [OF w(1) w1(1)])
  then have "udp_reach sample_udp w1" by blast
  from acknowledged_means_received [OF sample_setup_ok this] w1(2,3) show ?thesis
    by (intro exI [of _ w1]) (simp add: sample_udp_def)
qed

text \<open>
  C5. A lost message gets through. However many datagrams have been lost, as long as a message has not been given up - its
  timer runs and \<open>MaxTimeout\<close> has not passed - it can still be delivered and acknowledged: the timer sends it again, the
  server takes it and acknowledges it, and the acknowledgement stops the timer.
\<close>

theorem lost_messages_get_through:
  assumes "setup_ok c" "udp_reach c w" "k < length (uw_sent w)" "rm_running (rt_timers (uw_retry w) ! k)"
    and "now - rm_start (rt_timers (uw_retry w) ! k) < rc_MaxTimeout (us_retry c)"
  shows "\<exists>w1. (udp_session c)\<^sup>*\<^sup>* w w1 \<and> uw_sent w1 = uw_sent w \<and> rm_stop (rt_timers (uw_retry w1) ! k)
     \<and> (\<exists>r\<in>set (uw_app w1). m_SessionID (mm_msg r) = us_session c \<and> essence (mm_msg r) = essence (uw_sent w ! k))"
proof -
  have inv: "udp_inv c w" by (rule reach_inv [OF assms(1,2)])
  have "in_flight c now w k" using assms(3-5) by (simp add: in_flight_def)
  then obtain w1 where w1: "(udp_session c)\<^sup>*\<^sup>* w w1" "uw_sent w1 = uw_sent w" "rm_stop (rt_timers (uw_retry w1) ! k)"
    using completes [OF assms(1) inv] by blast
  have "\<exists>r\<in>set (uw_app w1). m_SessionID (mm_msg r) = us_session c \<and> essence (mm_msg r) = essence (uw_sent w1 ! k)"
    using assms(3) w1(2) by (intro stopped_got [OF inv_reach [OF assms(1) w1(1) inv] _ w1(3)]) simp
  with w1 show ?thesis by auto
qed

theorem lost_messages_get_through_witness:
  "\<exists>w w1. (udp_session sample_udp)\<^sup>*\<^sup>* w w1 \<and> uw_up w = {#} \<and> uw_app w = [] \<and> rm_stop (rt_timers (uw_retry w1) ! 0)
     \<and> (\<exists>r\<in>set (uw_app w1). m_SessionID (mm_msg r) = 9 \<and> essence (mm_msg r) = essence sample_data)"
proof -
  let ?start = "udp_begin sample_udp []"
  obtain w where w: "udp_session sample_udp ?start w" "uw_sent w = [sample_data]" "uw_up w = {#sample_frame#}" "uw_app w = []"
    "in_flight sample_udp 1001 w 0" using sample_send_step by blast
  let ?w = "w\<lparr>uw_up := uw_up w - {#sample_frame#}\<rparr>"
  have "udp_session sample_udp w ?w" by (rule udp_session.lose_up)
  with w(1) have "(udp_session sample_udp)\<^sup>*\<^sup>* ?start ?w" by (meson r_into_rtranclp rtranclp.rtrancl_into_rtrancl)
  then have reach: "udp_reach sample_udp ?w" by blast
  have "uw_retry ?w = uw_retry w" by (rule uw_retry_cong) simp_all
  then have k: "0 < length (uw_sent ?w)" "rm_running (rt_timers (uw_retry ?w) ! 0)"
    "1001 - rm_start (rt_timers (uw_retry ?w) ! 0) < rc_MaxTimeout (us_retry sample_udp)"
    using w(2,5) by (simp_all add: in_flight_def)
  have "us_session sample_udp = 9" "uw_sent ?w ! 0 = sample_data" "uw_up ?w = {#}" "uw_app ?w = []"
    using w(2-4) by (simp_all add: sample_udp_def)
  then show ?thesis using lost_messages_get_through [OF sample_setup_ok reach k] by metis
qed

end
