(* ===== verification/UdpTunnel.thy ===== *)
theory UdpTunnel
  imports Reliable
begin

text \<open>
  The way of a packet through the tunnel over UDP: the listener and the threads of the client, the UDP sessions with their
  retransmission and acknowledgements over a network that loses, repeats and reorders datagrams, the stream merger, and the use
  case of the server that writes to the interface.
\<close>

section \<open>What the sessions have handed over\<close>

text \<open>The sessions of a client: each carries what was sent on its connection; the server decodes with \<open>decode\<close>.\<close>

definition udp_carries :: "client_uc \<Rightarrow> packet_decoder \<Rightarrow> (message \<times> connection) set \<Rightarrow> 's udp_setup \<Rightarrow> 's udp_world \<Rightarrow> bool" where
  "udp_carries uc decode ps c w \<longleftrightarrow> setup_ok c \<and> udp_reach c w \<and> us_session c = cu_sessionID uc \<and> us_decode c = decode
     \<and> set (uw_sent w) = fst ` {p \<in> ps. snd p = us_conn c}"

text \<open>Every message for the endpoint has been acknowledged.\<close>

definition all_acknowledged :: "u64 \<Rightarrow> 's udp_world \<Rightarrow> bool" where
  "all_acknowledged e w \<longleftrightarrow> (\<forall>k<length (uw_sent w). GetEndpoint (uw_sent w ! k) = e \<longrightarrow> rm_stop (rt_timers (uw_retry w) ! k))"

text \<open>What the server has handed over of the session, for the endpoint.\<close>

definition handed_over :: "u64 \<Rightarrow> 's udp_setup \<times> 's udp_world \<Rightarrow> merge_message set" where
  "handed_over e = (\<lambda>(c, w). {r \<in> set (uw_app w). m_SessionID (mm_msg r) = us_session c \<and> GetEndpoint (mm_msg r) = e})"

lemma handed_over_sent:
  assumes "setup_ok c" "udp_reach c w" "r \<in> handed_over e (c, w)"
  obtains m where "m \<in> set (uw_sent w)" "essence (mm_msg r) = essence m" "m_Type (mm_msg r) = MessageTypeData"
    "\<exists>b. m_Payload (mm_msg r) = PBytes b" "peer_connection c (mm_conn r)"
proof -
  note i = udp_invD [OF reach_inv [OF assms(1,2)]]
  have r: "r \<in> set (uw_app w)" "m_SessionID (mm_msg r) = us_session c" using assms(3) by (simp_all add: handed_over_def)
  then obtain m where m: "m \<in> set (uw_sent w)" "received_as (us_decode c) m (mm_msg r)" "peer_connection c (mm_conn r)"
    using i(5) unfolding server_ok_def by blast
  have num: "numbered c m" using i(1) m(1) by (simp add: client_ok_def)
  note e = numbered_received [OF num m(2)]
  obtain b where "m_Payload m = PBytes b" using num by (auto simp: numbered_def)
  then have "m_Payload (mm_msg r) = PBytes b" using e(1) by (simp add: essence_def)
  then show thesis using that m e(1,3) by (simp add: IsUserData_def)
qed

lemma acknowledged_handed_over:
  assumes "setup_ok c" "udp_reach c w" "all_acknowledged e w" "m \<in> set (uw_sent w)" "GetEndpoint m = e"
  shows "\<exists>r\<in>handed_over e (c, w). essence (mm_msg r) = essence m"
proof -
  obtain k where k: "k < length (uw_sent w)" "uw_sent w ! k = m" using assms(4) by (auto simp: in_set_conv_nth)
  then have "rm_stop (rt_timers (uw_retry w) ! k)" using assms(3,5) by (simp add: all_acknowledged_def)
  from stopped_got [OF reach_inv [OF assms(1,2)] k(1) this] k(2) assms(5) show ?thesis
    by (auto simp: handed_over_def essence_def)
qed

text \<open>Together the sessions have handed over the messages of the endpoint.\<close>

lemma sessions_hand_over:
  assumes us: "\<forall>(c, w)\<in>set us. udp_carries uc decode ps c w \<and> all_acknowledged e w"
    and links: "snd ` ps \<subseteq> (\<lambda>(c, w). us_conn c) ` set us"
  shows "(\<lambda>r. essence (mm_msg r)) ` (\<Union>u\<in>set us. handed_over e u) = essence ` {m \<in> fst ` ps. GetEndpoint m = e}"
proof (intro equalityI subsetI)
  fix x assume "x \<in> (\<lambda>r. essence (mm_msg r)) ` (\<Union>u\<in>set us. handed_over e u)"
  then obtain u r where "u \<in> set us" "r \<in> handed_over e u" "x = essence (mm_msg r)" by blast
  then obtain c w where r: "(c, w) \<in> set us" "r \<in> handed_over e (c, w)" "x = essence (mm_msg r)" using prod.exhaust by metis
  have c: "setup_ok c" "udp_reach c w" "set (uw_sent w) = fst ` {p \<in> ps. snd p = us_conn c}"
    using bspec [OF us r(1)] by (simp_all add: udp_carries_def)
  obtain m where m: "m \<in> set (uw_sent w)" "essence (mm_msg r) = essence m" using handed_over_sent [OF c(1,2) r(2)] .
  have "GetEndpoint m = GetEndpoint (mm_msg r)" using m(2) by (simp add: essence_def)
  moreover have "GetEndpoint (mm_msg r) = e" using r(2) by (simp add: handed_over_def)
  moreover have "m \<in> fst ` ps" using m(1) unfolding c(3) by blast
  ultimately have "m \<in> {m \<in> fst ` ps. GetEndpoint m = e}" by simp
  then show "x \<in> essence ` {m \<in> fst ` ps. GetEndpoint m = e}" unfolding r(3) m(2) by (rule imageI)
next
  fix x assume "x \<in> essence ` {m \<in> fst ` ps. GetEndpoint m = e}"
  then obtain m conn where m: "(m, conn) \<in> ps" "GetEndpoint m = e" "x = essence m" by force
  have "snd (m, conn) \<in> (\<lambda>(c, w). us_conn c) ` set us" using links imageI [OF m(1), of snd] by blast
  then obtain u where "u \<in> set us" "conn = (\<lambda>(c, w). us_conn c) u" unfolding snd_conv by (elim imageE)
  then obtain c w where c: "(c, w) \<in> set us" "us_conn c = conn" by (metis case_prod_conv prod.exhaust)
  have u: "setup_ok c" "udp_reach c w" "all_acknowledged e w" "set (uw_sent w) = fst ` {p \<in> ps. snd p = us_conn c}"
    using bspec [OF us c(1)] by (simp_all add: udp_carries_def)
  have "(m, conn) \<in> {p \<in> ps. snd p = us_conn c}" using m(1) c(2) by simp
  then have "fst (m, conn) \<in> set (uw_sent w)" unfolding u(4) by (rule imageI)
  then have "m \<in> set (uw_sent w)" by simp
  then obtain r where r: "r \<in> handed_over e (c, w)" "essence (mm_msg r) = x"
    using acknowledged_handed_over [OF u(1-3) _ m(2)] m(3) by blast
  then show "x \<in> (\<lambda>r. essence (mm_msg r)) ` (\<Union>u\<in>set us. handed_over e u)" using c(1) by blast
qed

lemma Connection_Key_instances: "Connection_Key (conn\<lparr>c_Retry := r, c_Ack := a\<rparr>) = Connection_Key conn"
  by (simp add: Connection_Key_def split: option.split net_addr.split)

lemma routed_peer:
  assumes "peer_connection c conn"
  shows "routed name uc conn = routed name uc (datagram_connection (us_socket c) (us_addr c) (us_port c) (us_session c))"
proof -
  obtain r a where "conn = (datagram_connection (us_socket c) (us_addr c) (us_port c) (us_session c))\<lparr>c_Retry := r, c_Ack := a\<rparr>"
    using assms unfolding peer_connection_def by blast
  then show ?thesis by (simp only: routed_def getConnection_def Connection_Key_instances)
qed


section \<open>Two packets over UDP\<close>

definition udp_conn :: "int \<Rightarrow> connection" where
  "udp_conn port = new_connection\<lparr>c_UDPConn := Some \<lparr>so_LocalAddr = NoAddr, so_RemoteAddr = UDPAddr [10, 0, 0, 1] port\<rparr>,
     c_Addr := UDPAddr [10, 0, 0, 1] port, c_Proto := ProtoUDP, c_Port := 1000\<rparr>"

definition udp_network :: network_config where
  "udp_network = demo_network\<lparr>nc_UseTCP := False, nc_UseUDP := True\<rparr>"

definition udp_client_world :: client_world where
  "udp_client_world = demo_client_world\<lparr>cw_Run := (\<lambda>port proto. Ok (udp_conn (uint port)))\<rparr>"

definition udp_client :: client_uc where
  "udp_client = (case NewClientUseCase demo_client_lib [9] (demo_client_config\<lparr>cf_Server := udp_network\<rparr>) sample_tapir demo_merger of
     Ok uc \<Rightarrow> uc | _ \<Rightarrow> undefined)"

definition udp_connected :: client_uc where
  "udp_connected = (case connection_attempt demo_client_lib udp_client_world 1000 ProtoUDP udp_client of Some (_, uc) \<Rightarrow> uc | None \<Rightarrow> udp_client)"

lemmas udp_eval = udp_client_def udp_client_world_def udp_network_def udp_conn_def client_eval demo_defs Connection_Key_def new_connection_def
  new_message_def UseStreamMerger_def Let_def merger_CreateStream_def v1_CreateStream_def NewV1_def

lemma udp_connected_attempt:
  "connection_attempt demo_client_lib udp_client_world 1000 ProtoUDP udp_client = Some (ADone, udp_connected)"
  by (simp add: udp_connected_def udp_eval)

lemma udp_client_network: "cf_Server (cu_conn udp_client) = udp_network"
  by (simp add: udp_client_def client_eval)

lemma udp_start: "client_Start demo_client_lib (\<lambda>_ _ _. udp_client_world) udp_client = Some (Ok (), udp_connected)"
proof -
  have "createConnection demo_client_lib (\<lambda>_. udp_client_world) 1000 ProtoUDP udp_client = Some (Ok (), udp_connected)"
    using udp_connected_attempt
    by (simp add: createConnection_def udp_client_network) (simp add: udp_network_def demo_network_def)
  note connect = this
  note step = port_loop.simps
  show ?thesis
    unfolding client_Start_def Let_def udp_client_network
    using connect by (subst step, subst step) (simp add: connect_port_def udp_network_def demo_network_def)
qed

lemma udp_connected_reach: "client_reach demo_client_lib udp_connected"
proof -
  have "NewClientUseCase demo_client_lib [9] (demo_client_config\<lparr>cf_Server := udp_network\<rparr>) sample_tapir demo_merger = Ok udp_client"
    by (simp add: udp_client_def client_eval)
  from client_reach_new [OF this] have "client_reach demo_client_lib udp_client" .
  moreover have "client_step demo_client_lib udp_client udp_connected" by (rule step_Start [OF udp_start]) simp
  ultimately show ?thesis by (rule client_reach_step)
qed

lemma udp_connected_facts:
  "can_send udp_connected" "client_links udp_connected = [(udp_conn 1000)\<lparr>c_SessionID := 5\<rparr>]"
  "cu_sent udp_connected = []" "cu_sessionID udp_connected = 5" "cu_compressionType udp_connected = 0" "cu_compressionLevel udp_connected = 0"
  by (simp_all add: can_send_def client_links_def udp_connected_def udp_eval GetPortSelectionStrategy_def GetCompressionType_def)

definition udp_peer :: net_addr where
  "udp_peer = UDPAddr [10, 9, 8, 7] 5555"

definition udp_in :: server_uc where
  "udp_in = (case command demo_lib (demo_world 4 ''tun0'') (demo_auth (demo_request [9] [1] [2]))
     (datagram_connection sample_socket udp_peer 1000 0) demo_uc of Some (_, _, uc1) \<Rightarrow> uc1 | None \<Rightarrow> demo_uc)"

lemma udp_routed: "routed ''tun0'' udp_in (datagram_connection sample_socket udp_peer 1000 5)"
  by (simp add: routed_def datagram_connection_def getConnection_def getInterfaceByName_def udp_in_def udp_peer_def server_eval gomap_simps)

definition udp_demo :: "client_uc udp_setup" where
  "udp_demo = \<lparr>us_t = sample_transport, us_enc = NewEmpty [], us_decode = server_sockPacketDecoder (\<lambda>_. []) False, us_client = demo_enc_env,
     us_conn = (udp_conn 1000)\<lparr>c_SessionID := 5\<rparr>, us_retry = sample_retry_cfg,
     us_ack = \<lparr>ac_MaxSize = 100, ac_EndpointLifeTime = 0, ac_WaitingTimePercentOfRTO = 50\<rparr>, us_session = 5, us_nonce = 0,
     us_socket = sample_socket, us_port = 1000, us_addr = udp_peer, us_sessions = 10\<rparr>"

lemma udp_demo_ok: "setup_ok udp_demo"
  using sample_transport_ok
  by (simp add: setup_ok_def udp_demo_def udp_conn_def new_connection_def)
    (simp add: sample_transport_def NewTapirCodec_def demo_enc_env_def)

lemma udp_stamped_numbered: "i \<noteq> 0 \<Longrightarrow> numbered udp_demo (stamped udp_connected (demo_message i b))"
  using demo_decodes(2) [of "\<lambda>_. []" b]
  by (simp add: numbered_def stamped_def demo_message_def udp_connected_facts udp_demo_def proper_def sendable_def wire_ok_def wire_payload_def
      new_message_def MessageType_Valid_def IsUserData_def IsPayload_def sample_transport_def NewTapirCodec_def new_compressor_def
      plain_lib_def sample_packet_def demo_info_def)

lemma udp_demo_world:
  "\<exists>w. udp_reach udp_demo w \<and> uw_sent w = [stamped udp_connected (demo_message 2 6), stamped udp_connected (demo_message 1 5)]
     \<and> (\<forall>k<length (uw_sent w). rm_stop (rt_timers (uw_retry w) ! k))"
proof -
  let ?start = "udp_begin udp_demo udp_connected" and ?ms = "[stamped udp_connected (demo_message 2 6), stamped udp_connected (demo_message 1 5)]"
  have "uw_sent ?start = []" by (simp add: udp_begin_def client_udp_start_def retryFactory_def ackFactory_def)
  moreover have "distinct (map key_of ?ms)" by (simp add: key_of_eq stamped_def demo_message_def)
  moreover have "0 < rc_MaxTimeout (us_retry udp_demo)" by (simp add: udp_demo_def sample_retry_cfg_def)
  ultimately obtain w where "(udp_session udp_demo)\<^sup>*\<^sup>* ?start w" "uw_sent w = ?ms" "\<forall>k<length (uw_sent w). rm_stop (rt_timers (uw_retry w) ! k)"
    using can_be_acknowledged [OF udp_demo_ok _ inv_begin [OF udp_demo_ok], of ?ms udp_connected] udp_stamped_numbered [of 2 6] udp_stamped_numbered [of 1 5]
    by auto
  then show ?thesis by blast
qed

text \<open>A configuration of the merger that has room for the arrivals.\<close>

definition roomy :: "arrival list \<Rightarrow> merger_config" where
  "roomy arr = demo_merging\<lparr>mc_WaitingListMaxSize := (\<Sum>(req, _, _)\<leftarrow>arr. mm_size req)\<rparr>"


end
