(* ===== verification/Downstream.thy ===== *)
theory Downstream
  imports Tunnel
begin

text \<open>
  The way back through the tunnel, from the interface of a client at the server to the interface of the client: the listener, the
  handler threads of the server that choose one of the connections of the interface (\<open>business/usecase/server.interfaces.go\<close>), the
  frames and the receiver of the client, its stream merger, and the use case of the client that writes the packets
  (\<open>business/usecase/client.go\<close>).
\<close>

section \<open>The handler threads of the server\<close>

definition answered :: "connection \<Rightarrow> message \<Rightarrow> message" where
  "answered conn m = m\<lparr>m_SessionID := c_SessionID conn, m_Type := MessageTypeData,
     m_CompressionType := c_CompressionType conn, m_CompressionLevel := c_CompressionLevel conn\<rparr>"

definition server_links :: "string \<Rightarrow> server_uc \<Rightarrow> connection list" where
  "server_links name uc = (case map_of (su_interfaces uc) name of None \<Rightarrow> [] | Some ic \<Rightarrow> si_Connections ic)"

text \<open>A server that can send what it reads from an interface: the interface has connections, and the strategy is known.\<close>

definition can_answer :: "string \<Rightarrow> server_uc \<Rightarrow> bool" where
  "can_answer name uc \<longleftrightarrow> server_links name uc \<noteq> []
     \<and> su_portSelectionStrategy uc \<in> {PortSelectionStrategyRandom, PortSelectionStrategyHash}"

lemma server_answers:
  assumes "can_answer name uc" "m_PacketInfo m = Some p" "pi_IfName p = name" "\<forall>m c. send m c = Ok ()"
  shows "\<exists>conn stat. conn \<in> set (server_links name uc)
     \<and> server_interfaceReceiver send draw (Some m) uc
         = (Ok (), Some (answered conn m, conn), addSessionStat (c_SessionID conn) stat uc)"
proof -
  obtain ic where ic: "map_of (su_interfaces uc) name = Some ic" "si_Connections ic \<noteq> []" "server_links name uc = si_Connections ic"
    using assms(1) by (auto simp: can_answer_def server_links_def split: option.splits)
  have "\<exists>i. getInterfaceConnection draw p uc = Ok (ic, si_Connections ic ! (i mod length (si_Connections ic)))"
    using assms(1,3) ic by (auto simp: getInterfaceConnection_def can_answer_def Let_def)
  then obtain i where i: "getInterfaceConnection draw p uc = Ok (ic, si_Connections ic ! (i mod length (si_Connections ic)))" ..
  have "si_Connections ic ! (i mod length (si_Connections ic)) \<in> set (server_links name uc)"
    using ic(2,3) by simp
  moreover have "server_interfaceReceiver send draw (Some m) uc
      = (Ok (), Some (answered (si_Connections ic ! (i mod length (si_Connections ic))) m, si_Connections ic ! (i mod length (si_Connections ic))),
         addSessionStat (c_SessionID (si_Connections ic ! (i mod length (si_Connections ic))))
           (no_statistic\<lparr>st_IncomingBytes := ucast (m_PayloadLength m), st_IncomingFrames := 1\<rparr>) uc)"
    by (simp add: server_interfaceReceiver_def assms(2,4) i answered_def Let_def)
  ultimately show ?thesis by blast
qed

lemma addSessionStat_keeps [simp]:
  "server_links name (addSessionStat sid stat uc) = server_links name uc"
  "can_answer name (addSessionStat sid stat uc) = can_answer name uc"
  by (simp_all add: server_links_def can_answer_def addSessionStat_def)

lemma server_loop_answers:
  assumes "can_answer name uc"
    and "\<forall>(send, draw, mo)\<in>set sms. (\<forall>m c. send m c = Ok ()) \<and> (\<exists>m p. mo = Some m \<and> m_PacketInfo m = Some p \<and> pi_IfName p = name)"
  shows "\<exists>ps uc1. server_interfaceLoop sms uc = (Ok (), ps, uc1) \<and> snd ` set ps \<subseteq> set (server_links name uc)
     \<and> list_all2 (\<lambda>(send, draw, mo) (m', conn). \<exists>m. mo = Some m \<and> m' = answered conn m) sms ps"
  using assms
proof (induction sms arbitrary: uc)
  case (Cons x sms)
  obtain send draw m p where x: "x = (send, draw, Some m)" "m_PacketInfo m = Some p" "pi_IfName p = name" "\<forall>m c. send m c = Ok ()"
    using Cons.prems(2) by (cases x) auto
  obtain conn stat where step: "conn \<in> set (server_links name uc)"
    "server_interfaceReceiver send draw (Some m) uc = (Ok (), Some (answered conn m, conn), addSessionStat (c_SessionID conn) stat uc)"
    using server_answers [OF Cons.prems(1) x(2-4)] by blast
  let ?uc = "addSessionStat (c_SessionID conn) stat uc"
  obtain ps uc1 where rest: "server_interfaceLoop sms ?uc = (Ok (), ps, uc1)" "snd ` set ps \<subseteq> set (server_links name ?uc)"
    "list_all2 (\<lambda>(send, draw, mo) (m', conn). \<exists>m. mo = Some m \<and> m' = answered conn m) sms ps"
    using Cons.IH [of ?uc] Cons.prems by auto
  show ?case
    using step rest by (intro exI [of _ "(answered conn m, conn) # ps"] exI [of _ uc1]) (simp add: x(1))
qed simp

text \<open>Every message of a listener names its interface.\<close>

definition from_iface :: "string \<Rightarrow> message \<Rightarrow> bool" where
  "from_iface name m \<longleftrightarrow> (\<exists>p. m_PacketInfo m = Some p \<and> pi_IfName p = name)"

lemma listen_step_from_iface:
  assumes "listen_step decode name ttl ev s = Ok s'" "\<forall>m\<in>set (il_out s). from_iface name m"
  shows "\<forall>m\<in>set (il_out s'). from_iface name m"
  using assms
  by (auto simp: listen_step_def Let_def case_prod_unfold getMessageID_simps from_iface_def
      split: if_splits iface_read.splits res.splits option.splits)

lemma listen_run_from_iface:
  "listen_run decode name ttl evs s = Ok s' \<Longrightarrow> \<forall>m\<in>set (il_out s). from_iface name m \<Longrightarrow> \<forall>m\<in>set (il_out s'). from_iface name m"
  by (induction evs arbitrary: s) (auto simp: res_simps dest: listen_step_from_iface)

section \<open>The connections\<close>

text \<open>
  A TCP connection of the interface: the server's end, its calls and what they wrote, the encryptor that both sides agreed on, and the
  client's end with the pieces that were read.
\<close>

record down_link =
  dl_conn :: connection
  dl_calls :: "send_call list"
  dl_outs :: "bytes list"
  dl_enc :: encryptor
  dl_end :: connection
  dl_reads :: "gerror rd list"

definition down_carries :: "nat \<Rightarrow> transport \<Rightarrow> server_uc receiver_env \<Rightarrow> server_uc \<Rightarrow> net_store
    \<Rightarrow> (message \<times> connection) list \<Rightarrow> down_link \<Rightarrow> bool" where
  "down_carries k t senv uc ns ps l \<longleftrightarrow> c_TCPConn (dl_conn l) \<noteq> None \<and> transport_ok k t (dl_enc l)
     \<and> re_enc senv (dl_conn l) uc = Ok (Some (dl_enc l))
     \<and> map fst (dl_calls l) = map fst (filter (\<lambda>p. snd p = dl_conn l) ps)
     \<and> (\<forall>(m, d, ws, now)\<in>set (dl_calls l). sendable t m \<and> draws_ok k d)
     \<and> list_all2 (v1_sent t senv (dl_conn l) uc ns) (dl_calls l) (dl_outs l)
     \<and> no_errors (dl_reads l) \<and> sock_bytes (dl_reads l) = concat (dl_outs l)"

text \<open>The receiver of the client for its session \<open>sid\<close>, before the merger.\<close>

definition down_pushed :: "transport \<Rightarrow> packet_decoder \<Rightarrow> u32 \<Rightarrow> down_link \<Rightarrow> merge_message list" where
  "down_pushed t decode sid l = snd (snd (client_ReceiverTCP (Suc (length (dl_calls l))) t (push_env (dl_enc l) decode)
     (dl_end l) sid [] (dl_reads l)))"

lemma down_link_pushes:
  assumes "down_carries k t senv uc ns ps l"
    and "\<forall>m\<in>fst ` set ps. IsUserData m \<and> m_Error m = 0 \<and> (\<exists>b info. m_Payload m = PBytes b \<and> decode b = Ok info)"
  shows "list_all2 (\<lambda>p r. received_as decode (fst p) (mm_msg r)) (filter (\<lambda>p. snd p = dl_conn l) ps) (down_pushed t decode sid l)"
proof -
  let ?env = "push_env (dl_enc l) decode" and ?cend = "(dl_end l)\<lparr>c_SessionID := sid, c_Proto := ProtoTCP\<rparr>"
  note c = assms(1) [unfolded down_carries_def]
  have tcp: "c_TCPConn (dl_conn l) \<noteq> None" and tok: "transport_ok k t (dl_enc l)"
    and enc: "re_enc senv (dl_conn l) uc = Ok (Some (dl_enc l))" using c by simp_all
  have pos: "0 < headerLength t" using headerLength_pos [OF tok] by simp
  have "fst call \<in> fst ` set ps" if "call \<in> set (dl_calls l)" for call
  proof -
    have "fst call \<in> set (map fst (dl_calls l))" using that by simp
    also have "\<dots> = set (map fst (filter (\<lambda>p. snd p = dl_conn l) ps))" using c by simp
    finally show ?thesis by auto
  qed
  then have calls: "\<forall>call\<in>set (dl_calls l). proper_call k t decode call"
    using c assms(2) by (fastforce simp: proper_call_def proper_def)
  have sent: "list_all2 (v1_sent t senv (dl_conn l) uc ns) (dl_calls l) (dl_outs l)" using c by simp
  have frames: "list_all2 (good_frame t (re_decode ?env) (dl_enc l)) (map fst (dl_calls l)) (dl_outs l)"
    using v1_stream_frames [OF tcp enc tok sent calls] by (simp add: push_env_def)
  have acc: "accepting ?env (dl_enc l) (\<lambda>_ _. True)" by (simp add: accepting_def push_env_def)
  have bytes: "no_errors (dl_reads l)" "sock_bytes (dl_reads l) = concat (dl_outs l)" using c by simp_all
  have fuel: "length (map fst (dl_calls l)) < Suc (length (dl_calls l))" by simp
  obtain rs where rs: "all_received (re_decode ?env) 0 (map fst (dl_calls l)) (dl_outs l) rs"
    "client_loop (Suc (length (dl_calls l))) t ?env ?cend [] (dl_reads l) = (RBlocked, handle_all ?env rs ?cend [])"
    using client_loop_stream [OF acc pos frames bytes fuel TrueI] by blast
  have p: "down_pushed t decode sid l = map (\<lambda>r. \<lparr>mm_msg = snd r, mm_conn = ?cend\<rparr>) rs"
    unfolding down_pushed_def client_ReceiverTCP_def rs(2) by (simp add: handle_all_push)
  have "length (map fst (dl_calls l)) = length (dl_outs l)" using list_all2_lengthD [OF sent] by simp
  then have "list_all2 (received_as decode) (map fst (dl_calls l)) (map snd rs)"
    using all_received_messages [OF rs(1)] by (simp add: push_env_def)
  moreover have "map fst (dl_calls l) = map fst (filter (\<lambda>p. snd p = dl_conn l) ps)" using c by simp
  ultimately show ?thesis by (simp add: p list.rel_map)
qed

section \<open>The client writes\<close>

text \<open>The receiver handler of the client's merger is its \<open>socketReceiver\<close>.\<close>

fun client_deliver_all :: "client_world \<Rightarrow> merge_message list \<Rightarrow> client_uc \<Rightarrow> client_uc option" where
  "client_deliver_all w [] uc = Some uc"
| "client_deliver_all w (r # rs) uc =
     (case client_socketReceiver w (mm_msg r) uc of
        (Ok _, uc1) \<Rightarrow> client_deliver_all w rs uc1
      | _ \<Rightarrow> None)"

text \<open>A data message of its session is written; one of another session is left out.\<close>

lemma client_writes:
  assumes "cw_write w = Ok ()" "cu_isConnected uc" "cu_interfaceConn uc = Some i"
    and "m_Type m = MessageTypeData" "m_SessionID m = cu_sessionID uc" "m_Payload m = PBytes b"
  shows "client_socketReceiver w m uc = (Ok (), uc\<lparr>cu_written := cu_written uc @ [PBytes b]\<rparr>)"
  unfolding client_socketReceiver_def client_command_def client_commandData_def by (simp add: assms)

lemma client_delivers:
  assumes "cw_write w = Ok ()" "cu_isConnected uc" "cu_interfaceConn uc = Some i"
    and "\<forall>r\<in>set rs. m_Type (mm_msg r) = MessageTypeData \<and> m_SessionID (mm_msg r) = cu_sessionID uc \<and> (\<exists>b. m_Payload (mm_msg r) = PBytes b)"
  shows "client_deliver_all w rs uc = Some (uc\<lparr>cu_written := cu_written uc @ map (\<lambda>r. m_Payload (mm_msg r)) rs\<rparr>)"
  using assms(2-4)
proof (induction rs arbitrary: uc)
  case (Cons r rs)
  obtain b where b: "m_Payload (mm_msg r) = PBytes b" using Cons.prems(3) by auto
  define uc1 where "uc1 = uc\<lparr>cu_written := cu_written uc @ [PBytes b]\<rparr>"
  have same: "cu_isConnected uc1" "cu_interfaceConn uc1 = Some i" "cu_sessionID uc1 = cu_sessionID uc"
    "cu_written uc1 = cu_written uc @ [PBytes b]"
    using Cons.prems(1,2) by (simp_all add: uc1_def)
  have "client_socketReceiver w (mm_msg r) uc = (Ok (), uc1)"
    unfolding uc1_def using Cons.prems b by (intro client_writes [OF assms(1)]) simp_all
  moreover have "client_deliver_all w rs uc1 = Some (uc1\<lparr>cu_written := cu_written uc1 @ map (\<lambda>r. m_Payload (mm_msg r)) rs\<rparr>)"
    using Cons.prems(3) by (intro Cons.IH same(1,2)) (simp add: same(3))
  moreover have "uc1\<lparr>cu_written := x\<rparr> = uc\<lparr>cu_written := x\<rparr>" for x by (simp add: uc1_def)
  ultimately show ?case by (simp add: b same(4))
qed simp

section \<open>From interface to interface\<close>

lemma essence_answered [simp]: "essence (answered conn m) = essence m"
  by (simp add: essence_def answered_def GetEndpoint_def)

lemma answered_good:
  assumes "listened (server_ifacePacketDecoder parse tracing) m"
  shows "IsUserData (answered conn m) \<and> m_Error (answered conn m) = 0
     \<and> (\<exists>b info. m_Payload (answered conn m) = PBytes b \<and> client_sockPacketDecoder parse' tracing' b = Ok (Some info)
          \<and> pi_Endpoint info = GetEndpoint (answered conn m))"
proof -
  obtain i data info info' where m: "m = new_message\<lparr>m_ID := i, m_Payload := PBytes data,
       m_PayloadLength := of_nat (length data), m_PacketInfo := Some info'\<rparr>"
    and info: "server_ifacePacketDecoder parse tracing data = Ok (Some info)" "pi_Endpoint info' = pi_Endpoint info"
    using assms unfolding listened_def by blast
  obtain j where j: "client_sockPacketDecoder parse' tracing' data = Ok (Some j)" "pi_Endpoint j = pi_Endpoint info"
    using downstream_decoders_agree [OF info(1)] .
  have "IsUserData (answered conn m)" "m_Error (answered conn m) = 0"
    "m_Payload (answered conn m) = PBytes data" "GetEndpoint (answered conn m) = pi_Endpoint info"
    using info(2) by (simp_all add: m answered_def new_message_def IsUserData_def GetEndpoint_def)
  with j show ?thesis by simp
qed

text \<open>What the threads send of the messages of the listener.\<close>

lemma loop_answers_listened:
  assumes listen: "listen_run (server_ifacePacketDecoder parse tracing) name ttl evs listener_new = Ok s"
    and server: "can_answer name uc" "mset (map (snd \<circ> snd) sms) = mset (map Some (il_out s))"
      "\<forall>(send, draw, mo)\<in>set sms. \<forall>m c. send m c = Ok ()" "server_interfaceLoop sms uc = (res, ps, uc1)"
  shows "image_mset essence (mset (map fst ps)) = image_mset essence (mset (il_out s))" "snd ` set ps \<subseteq> set (server_links name uc)"
    and "\<forall>p\<in>set ps. \<exists>m. listened (server_ifacePacketDecoder parse tracing) m \<and> fst p = answered (snd p) m"
proof -
  have heard: "\<forall>m\<in>set (il_out s). listened (server_ifacePacketDecoder parse tracing) m \<and> from_iface name m"
    using listen_run_listened [OF listen] listen_run_from_iface [OF listen] by (simp add: listener_new_def)
  have same: "(snd \<circ> snd) ` set sms = Some ` set (il_out s)"
    using mset_eq_setD [OF server(2)] by simp
  have named: "\<exists>m p. snd (snd x) = Some m \<and> m_PacketInfo m = Some p \<and> pi_IfName p = name" if "x \<in> set sms" for x
  proof -
    have "snd (snd x) \<in> (snd \<circ> snd) ` set sms" using that by simp
    then obtain m where "snd (snd x) = Some m" "m \<in> set (il_out s)" unfolding same by blast
    then show ?thesis using heard by (auto simp: from_iface_def)
  qed
  then have worlds: "\<forall>(send, draw, mo)\<in>set sms. (\<forall>m c. send m c = Ok ()) \<and> (\<exists>m p. mo = Some m \<and> m_PacketInfo m = Some p \<and> pi_IfName p = name)"
    using server(3) by fastforce
  obtain qs uc2 where loop: "server_interfaceLoop sms uc = (Ok (), qs, uc2)" "snd ` set qs \<subseteq> set (server_links name uc)"
    "list_all2 (\<lambda>(send, draw, mo) (m', conn). \<exists>m. mo = Some m \<and> m' = answered conn m) sms qs"
    using server_loop_answers [OF server(1) worlds] by blast
  have qs: "qs = ps" using loop(1) server(4) by simp
  show "snd ` set ps \<subseteq> set (server_links name uc)" using loop(2) by (simp add: qs)
  have "list_all2 (\<lambda>x p. essence (the (snd (snd x))) = essence (fst p)) sms ps"
    using loop(3) unfolding qs by (rule list.rel_mono_strong) auto
  then have "map (\<lambda>x. essence (the (snd (snd x)))) sms = map (\<lambda>p. essence (fst p)) ps"
    by (simp add: list.rel_map flip: list.rel_eq)
  then have "image_mset (\<lambda>p. essence (fst p)) (mset ps) = mset (map (\<lambda>x. essence (the (snd (snd x)))) sms)"
    by simp
  also have "\<dots> = image_mset (essence \<circ> the) (mset (map (snd \<circ> snd) sms))"
    by (simp add: multiset.map_comp comp_def)
  also have "\<dots> = image_mset essence (mset (il_out s))"
    unfolding server(2) by (simp add: multiset.map_comp comp_def)
  finally show "image_mset essence (mset (map fst ps)) = image_mset essence (mset (il_out s))"
    by (simp add: multiset.map_comp comp_def)
  show "\<forall>p\<in>set ps. \<exists>m. listened (server_ifacePacketDecoder parse tracing) m \<and> fst p = answered (snd p) m"
  proof
    fix p assume "p \<in> set ps"
    then obtain x m where x: "x \<in> set sms" "snd (snd x) = Some m" "fst p = answered (snd p) m"
      using list_all2_set2 [OF loop(3)] unfolding qs by fastforce
    have "Some m \<in> (snd \<circ> snd) ` set sms" using x(1,2) by (force simp: image_iff)
    then have "m \<in> set (il_out s)" unfolding same by auto
    then show "\<exists>m. listened (server_ifacePacketDecoder parse tracing) m \<and> fst p = answered (snd p) m" using heard x(3) by blast
  qed
qed

lemma down_pushed_data:
  assumes "down_carries k t senv uc ns ps l" "r \<in> set (down_pushed t decode sid l)"
    and "\<forall>m\<in>fst ` set ps. IsUserData m \<and> m_Error m = 0 \<and> (\<exists>b info. m_Payload m = PBytes b \<and> decode b = Ok info)"
  shows "m_Type (mm_msg r) = MessageTypeData \<and> (\<exists>b. m_Payload (mm_msg r) = PBytes b)
     \<and> (\<exists>p\<in>set ps. m_SessionID (mm_msg r) = m_SessionID (fst p))"
proof -
  obtain p where p: "p \<in> set ps" "received_as decode (fst p) (mm_msg r)"
    using list_all2_set2 [OF down_link_pushes [OF assms(1,3)] assms(2)] by auto
  have "fst p \<in> fst ` set ps" using p(1) by simp
  then obtain b where b: "IsUserData (fst p)" "m_Error (fst p) = 0" "m_Payload (fst p) = PBytes b" using assms(3) by blast
  then have "m_Type (mm_msg r) = MessageTypeData \<and> (\<exists>b. m_Payload (mm_msg r) = PBytes b) \<and> m_SessionID (mm_msg r) = m_SessionID (fst p)"
    using p(2) IsUserData_IsPayload [OF b(1)] by (simp add: received_as_def received_payload_def IsUserData_def)
  then show ?thesis using p(1) by blast
qed

lemma handed_to_session:
  assumes "\<forall>l\<in>set ls. down_carries k t senv uc ns ps l" "r \<in> set (concat (map (down_pushed t decode sid) ls))"
    and "\<forall>m\<in>fst ` set ps. IsUserData m \<and> m_Error m = 0 \<and> (\<exists>b info. m_Payload m = PBytes b \<and> decode b = Ok info)"
    and "\<forall>p\<in>set ps. m_SessionID (fst p) = sid'"
  shows "m_Type (mm_msg r) = MessageTypeData \<and> m_SessionID (mm_msg r) = sid' \<and> (\<exists>b. m_Payload (mm_msg r) = PBytes b)"
proof -
  obtain l where "l \<in> set ls" "r \<in> set (down_pushed t decode sid l)" using assms(2) by auto
  then show ?thesis using down_pushed_data [OF _ _ assms(3)] assms(1,4) by metis
qed


section \<open>Two packets\<close>

text \<open>The server after authentication and handshake of one client: its interface has one connection, of session 5.\<close>

definition demo_answering :: server_uc where
  "demo_answering = snd (snd (commandHandshake demo_lib (demo_world 4 ''tun0'')
     (new_message\<lparr>m_Type := MessageTypeHandshake, m_Payload := PHandshake [7]\<rparr>) ((demo_conn 5555)\<lparr>c_SessionID := 5\<rparr>) demo_in))"

lemma demo_answering_links:
  "\<exists>conn. server_links ''tun0'' demo_answering = [conn] \<and> c_SessionID conn = 5 \<and> c_TCPConn conn \<noteq> None
     \<and> c_CompressionType conn = 0 \<and> c_CompressionLevel conn = 0"
  "can_answer ''tun0'' demo_answering"
  by (simp_all add: can_answer_def server_links_def demo_answering_def commandHandshake_def demo_in_def server_eval getConnection_def
      setConnectionEncryptor_def addInterfaceConnection_def GetEncryptor_def GetPortSelectionStrategy_def
      wrap_def gomap_simps)

lemma demo_connected_session: "cu_isConnected demo_connected" "cu_sessionID demo_connected = 5"
  by (simp_all add: demo_connected_def client_eval demo_defs Connection_Key_def new_connection_def new_message_def UseStreamMerger_def Let_def)

definition answer_packet :: "u8 \<Rightarrow> bytes" where
  "answer_packet b = [0x45, 0, 0, 20, 0, b, 0, 0, 64, 6, 0, 0, 10, 0, 0, 2, 10, 0, 0, 5]"

lemma answer_decodes:
  "server_ifacePacketDecoder parse False (answer_packet b) = Ok (Some demo_info)"
  "client_sockPacketDecoder parse False (answer_packet b) = Ok (Some demo_info)"
  by (simp_all add: server_ifacePacketDecoder_def client_sockPacketDecoder_def Decode_def decodeIP_def decodeIPv4_def
      answer_packet_def hashed_bytes_def slice_def Let_def demo_info_def demo_endpoint_def)

definition answer_message :: "u32 \<Rightarrow> u8 \<Rightarrow> message" where
  "answer_message i b = new_message\<lparr>m_ID := i, m_Payload := PBytes (answer_packet b), m_PayloadLength := 20,
     m_PacketInfo := Some (demo_info\<lparr>pi_IfName := ''tun0''\<rparr>)\<rparr>"

definition answer_reads :: "iface_read list" where
  "answer_reads = [ReadPacket (answer_packet 1) 10 10, ReadPacket (answer_packet 2) 11 11]"

lemma answer_listened:
  "\<exists>s. listen_run (server_ifacePacketDecoder parse False) ''tun0'' 600 answer_reads listener_new = Ok s
     \<and> il_out s = [answer_message 1 1, answer_message 2 2]"
proof -
  have len: "length (answer_packet b) = 20" for b by (simp add: answer_packet_def)
  show ?thesis
    by (simp add: answer_reads_def listen_step_def answer_decodes getMessageID_def evict_def listener_new_def pool_get_def
        Let_def answer_message_def len demo_info_def)
qed

lemma answer_read_facts:
  "packets_of (server_ifacePacketDecoder parse False) demo_endpoint answer_reads = [answer_packet 1, answer_packet 2]"
  "endpoints_of (server_ifacePacketDecoder parse False) answer_reads = {demo_endpoint}"
  by (simp_all add: answer_reads_def packets_of_def endpoints_of_def answer_decodes) (simp_all add: demo_info_def)

definition demo_senv :: "server_uc receiver_env" where
  "demo_senv = \<lparr>re_enc = (\<lambda>_ _. Ok (Some (NewEmpty []))), re_decode = (\<lambda>_. Err EOF), re_receiver = (\<lambda>m c s. (Ok (), c, s)),
     re_stat = (\<lambda>_ _ s. s), re_disconnect = (\<lambda>_ _ s. s)\<rparr>"

text \<open>A message of user data without compression can be sent on a connection of the server.\<close>

lemma demo_v1_sent:
  assumes "c_TCPConn conn \<noteq> None" "IsUserData m" "sendable sample_transport m" "m_Error m = 0" "m_Payload m = PBytes b"
  shows "\<exists>out. v1_sent sample_transport demo_senv conn uc ns (m, sample_draws, [Wrote (length out)], 0) out"
proof -
  have enc: "re_enc demo_senv conn uc = Ok (Some (NewEmpty []))" by (simp add: demo_senv_def)
  have draws: "draws_ok 0 sample_draws" by (simp add: draws_ok_def sample_draws_def rand_ok_def)
  have "proper sample_transport (\<lambda>_. Ok None) m" using assms by (simp add: proper_def)
  from seal_proper [OF sample_transport_ok draws this, of False False] obtain data where
    data: "seal sample_transport False False (user_encryptor (NewEmpty []) m) (dr_fake sample_draws) (dr_rnd1 sample_draws)
      (dr_rnd2 sample_draws) m = Ok data" by auto
  have w: "write_all data [Wrote (length data)] = Some (data, Ok ())" by (simp add: write_all.simps)
  have "v1_sent sample_transport demo_senv conn uc ns (m, sample_draws, [Wrote (length data)], 0) data"
    unfolding v1_sent_def v1_Send_def prod.case user_choice [OF enc, of m]
    using assms(1) data w by (simp add: v1_sendTCP_def)
  then show ?thesis by blast
qed

lemma answered_facts:
  assumes "c_CompressionType conn = 0" "c_CompressionLevel conn = 0"
  shows "IsUserData (answered conn (answer_message i b))" "sendable sample_transport (answered conn (answer_message i b))"
    "m_Error (answered conn (answer_message i b)) = 0" "m_Payload (answered conn (answer_message i b)) = PBytes (answer_packet b)"
    "m_ID (answered conn (answer_message i b)) = i"
  using assms
  by (simp_all add: answered_def answer_message_def new_message_def IsUserData_def sendable_def wire_ok_def wire_payload_def
      MessageType_Valid_def sample_transport_def NewTapirCodec_def new_compressor_def plain_lib_def IsPayload_def answer_packet_def)


end
