(* ===== verification/ServerTraffic.thy ===== *)
theory ServerTraffic
  imports NetServer
begin

text \<open>
  The traffic handler of the server \<open>V2\<close> over TCP. The contract of a gnet connection is a
  locale: an inbound buffer that the network appends to, of which \<open>Peek\<close> shows and
  \<open>Discard\<close> drops the first bytes. Under it the handler delivers every message of a stream
  as soon as its last byte is there.
\<close>

section \<open>The contract of the inbound buffer\<close>

locale gnet_buffer =
  fixes g :: "'c gnet" and arrive :: "bytes \<Rightarrow> 'c \<Rightarrow> 'c" and buf :: "'c \<Rightarrow> bytes"
  assumes peek: "0 < n \<Longrightarrow> gn_Peek g n c =
      (if n \<le> int (length (buf c)) then Ok (take (nat n) (buf c)) else Err ErrShortBuffer)"
    and discard: "0 \<le> n \<Longrightarrow> n \<le> int (length (buf c)) \<Longrightarrow> buf (gn_Discard g n c) = drop (nat n) (buf c)"
    and buffered: "gn_InboundBuffered g c = int (length (buf c))"
    and arrived: "buf (arrive bs c) = buf c @ bs"
begin

text \<open>An incomplete frame is left in the buffer.\<close>

lemma peek_short: "0 < headerLength t \<Longrightarrow> length (buf c) < headerLength t \<Longrightarrow> peek_frame g t c = PkBreak"
  by (simp add: peek_frame_def peek)

lemma peek_incomplete:
  assumes "good_frame t decode u m f" "0 < headerLength t" "buf c @ later = f @ others" "length (buf c) < length f"
  shows "peek_frame g t c = PkBreak"
proof (cases "length (buf c) < headerLength t")
  case True
  then show ?thesis by (rule peek_short [OF assms(2)])
next
  case False
  obtain ch cp where f: "f = ch @ cp" "frame_for t (if IsUserData m then u else tr_enc t) m ch cp"
    using assms(1) unfolding good_frame_def by blast
  obtain m1 where m1: "open_header t ch = Ok m1" "unat (m_PayloadLength m1) = length cp" "length ch = headerLength t"
    using f(2) unfolding frame_for_def by blast
  have ch: "take (headerLength t) (buf c) = ch"
  proof -
    have "take (headerLength t) (buf c @ later) = ch" using assms(3) f(1) m1(3) by simp
    then show ?thesis using False by simp
  qed
  have pos: "m_PayloadLength m1 > 0"
    using assms(4) f(1) m1(2,3) False by (cases "cp = []") (simp_all add: word_less_nat_alt)
  have "gn_InboundBuffered g c < int (headerLength t) + int (unat (m_PayloadLength m1))"
    using assms(4) f(1) m1(2,3) by (simp add: buffered)
  moreover have "gn_Peek g (int (headerLength t)) c = Ok ch"
    using False ch assms(2) by (simp add: peek)
  ultimately show ?thesis using m1 pos by (simp add: peek_frame_def Let_def)
qed

text \<open>A complete one is taken out.\<close>

lemma peek_complete:
  assumes "good_frame t (re_decode env) u m f" "0 < headerLength t" "buf c = f @ x"
  shows "\<exists>m1. peek_frame g t c = PkFrame m1 (int (length f)) \<and> m_SessionID m1 = m_SessionID m
     \<and> int (headerLength t) + int (unat (m_PayloadLength m1)) = int (length f)
     \<and> (\<forall>conn s. re_enc env conn s = Ok (Some u) \<longrightarrow>
          (\<exists>m2. verdict_of t env conn s m1 = VDeliver m2 \<and> received_as (re_decode env) m m2))"
proof -
  obtain ch cp where f: "f = ch @ cp" "frame_for t (if IsUserData m then u else tr_enc t) m ch cp"
    and m: "m_Error m = 0" "IsUserData m \<longrightarrow> (\<exists>b info. m_Payload m = PBytes b \<and> re_decode env b = Ok info)"
    using assms(1) unfolding good_frame_def by blast
  obtain m1 where v: "open_header t ch = Ok m1" "unat (m_PayloadLength m1) = length cp" "m_SessionID m1 = m_SessionID m"
    "length ch = headerLength t"
    using f(2) unfolding frame_for_def by blast
  let ?m = "if cp = [] then m1 else m1\<lparr>m_Payload := PBytes cp\<rparr>"
  have verdict: "\<exists>m2. verdict_of t env conn s ?m = VDeliver m2 \<and> received_as (re_decode env) m m2"
    if "re_enc env conn s = Ok (Some u)" for conn s
    using frame_verdict [OF f(2) m that] v(1) by auto
  have head: "gn_Peek g (int (headerLength t)) c = Ok ch" using assms(2,3) f(1) v(4) by (simp add: peek)
  have "peek_frame g t c = PkFrame ?m (int (length f))"
  proof (cases "cp = []")
    case True
    then have "m_PayloadLength m1 = 0" using v(2) by (simp add: unat_eq_0)
    then show ?thesis using True head v f(1) by (simp add: peek_frame_def)
  next
    case False
    then have pos: "m_PayloadLength m1 > 0" using v(2) by (simp add: word_less_nat_alt)
    let ?n = "int (headerLength t) + int (length cp)"
    have all: "gn_Peek g ?n c = Ok (ch @ cp)" "\<not> gn_InboundBuffered g c < ?n"
      using assms(2,3) f(1) v(4) by (simp_all add: peek buffered nat_add_distrib)
    then show ?thesis
      using False head pos v f(1) unfolding peek_frame_def by (simp add: Let_def)
  qed
  moreover have "m_SessionID ?m = m_SessionID m" "int (headerLength t) + int (unat (m_PayloadLength ?m)) = int (length f)"
    using v f(1) uint_nat [of "m_PayloadLength m1"] by simp_all
  ultimately show ?thesis using verdict by blast
qed

end

section \<open>A stream over TCP\<close>

definition traffic_connection :: "u8 \<Rightarrow> socket \<Rightarrow> u16 \<Rightarrow> u32 \<Rightarrow> connection" where
  "traffic_connection proto so port sid =
     new_connection\<lparr>c_GNetConn := Some so, c_Addr := so_RemoteAddr so, c_Port := port, c_Proto := proto, c_SessionID := sid\<rparr>"

text \<open>What the handlers make of messages of a socket, each on a connection of its own.\<close>

fun traffic_all :: "'s receiver_env \<Rightarrow> (u32 \<Rightarrow> connection) \<Rightarrow> (nat \<times> message) list \<Rightarrow> 's \<Rightarrow> 's" where
  "traffic_all env conn [] s = s"
| "traffic_all env conn ((n, m) # ms) s =
     (case re_receiver env m (conn (m_SessionID m)) (re_stat env (m_SessionID m) (int n) s) of
        (r, conn1, s1) \<Rightarrow> traffic_all env conn ms s1)"

lemma traffic_all_append: "traffic_all env conn (a @ b) s = traffic_all env conn b (traffic_all env conn a s)"
  by (induction a arbitrary: s) (auto split: prod.splits)

lemma all_received_append:
  "length ms1 = length fs1 \<Longrightarrow> all_received d k ms1 fs1 rs1 \<Longrightarrow> all_received d k ms2 fs2 rs2
   \<Longrightarrow> all_received d k (ms1 @ ms2) (fs1 @ fs2) (rs1 @ rs2)"
  unfolding all_received_def by (simp add: list_all2_appendI)

lemma accepting_state:
  assumes "accepting env u (\<lambda>_. P)" "P s"
  obtains conn1 s1 where "re_receiver env m conn (re_stat env sid n s) = (Ok (), conn1, s1)" "P s1"
  using accepting_receiver [OF assms] by metis

text \<open>The buffer at work: \<open>OnTraffic\<close> after each piece that arrives, until one ends otherwise.\<close>

fun traffic_run :: "nat \<Rightarrow> 'c gnet \<Rightarrow> (bytes \<Rightarrow> 'c \<Rightarrow> 'c) \<Rightarrow> transport \<Rightarrow> 's server_env \<Rightarrow> u8 \<Rightarrow> socket
    \<Rightarrow> (bytes \<times> int \<times> bool) list \<Rightarrow> 'c \<times> udp_control \<times> net_store \<times> 's
    \<Rightarrow> traffic_end \<times> 'c \<times> udp_control \<times> net_store \<times> 's" where
  "traffic_run fuel g arrive t env proto so [] st = (TReturn GNone, st)"
| "traffic_run fuel g arrive t env proto so ((bs, now, pending) # chunks) (c, ctl, ns, s) =
     (case OnTraffic fuel g t env proto so now pending (arrive bs c, ctl, ns, s) of
        (TReturn GNone, st1) \<Rightarrow> traffic_run fuel g arrive t env proto so chunks st1
      | r \<Rightarrow> r)"

abbreviation tcp_all :: "'s server_env \<Rightarrow> socket \<Rightarrow> int \<Rightarrow> (nat \<times> message) list \<Rightarrow> 's \<Rightarrow> 's" where
  "tcp_all env so port \<equiv> traffic_all (se_env env) (traffic_connection ProtoTCP so (word_of_int port))"

context gnet_buffer
begin

lemma on_traffic_step_frame:
  assumes "good_frame t (re_decode (se_env env)) u m f" "0 < headerLength t" "buf c = f @ x"
    and "accepting (se_env env) u (\<lambda>_. P)" "P s" "so_LocalAddr so = TCPAddr ip port"
  shows "\<exists>m2 c1. received_as (re_decode (se_env env)) m m2 \<and> buf c1 = x
     \<and> on_traffic_step g t env ProtoTCP so now pending (c, ctl, ns, s) =
         (None, c1, ctl, ns, tcp_all env so port [(length f, m2)] s)
     \<and> P (tcp_all env so port [(length f, m2)] s)"
proof -
  obtain m1 where m1: "peek_frame g t c = PkFrame m1 (int (length f))" "m_SessionID m1 = m_SessionID m"
    "int (headerLength t) + int (unat (m_PayloadLength m1)) = int (length f)"
    "\<forall>conn s. re_enc (se_env env) conn s = Ok (Some u) \<longrightarrow>
          (\<exists>m2. verdict_of t (se_env env) conn s m1 = VDeliver m2 \<and> received_as (re_decode (se_env env)) m m2)"
    using peek_complete [OF assms(1-3)] by blast
  let ?conn = "traffic_connection ProtoTCP so (word_of_int port) (m_SessionID m)"
  let ?s = "re_stat (se_env env) (m_SessionID m) (int (length f)) s"
  have "re_enc (se_env env) ?conn ?s = Ok (Some u)"
    using accepting_enc [OF assms(4)] accepting_stat [OF assms(4)] assms(5) by blast
  then obtain m2 where m2: "verdict_of t (se_env env) ?conn ?s m1 = VDeliver m2" "received_as (re_decode (se_env env)) m m2"
    using m1(4) by blast
  have sid: "m_SessionID m2 = m_SessionID m" using m2(2) by (simp add: received_as_def)
  obtain conn1 s1 where rec: "re_receiver (se_env env) m2 ?conn ?s = (Ok (), conn1, s1)" "P s1"
    using accepting_state [OF assms(4,5)] .
  let ?c = "gn_Discard g (int (length f)) c"
  have "buf ?c = x" using assms(3) by (simp add: discard)
  moreover have "tcp_all env so port [(length f, m2)] s = s1" using rec(1) sid by simp
  moreover have "on_traffic_step g t env ProtoTCP so now pending (c, ctl, ns, s) = (None, ?c, ctl, ns, s1)"
    unfolding on_traffic_step_def prod.case m1(1) peeked.case Let_def m1(3) m1(2)
    using m2(1) rec(1) assms(6) by (simp add: v2_port_def traffic_connection_def)
  ultimately show ?thesis using m2(2) rec(2) by metis
qed

text \<open>The loop takes out every complete frame, and leaves the incomplete one.\<close>

lemma on_traffic_loop_frames:
  assumes acc: "accepting (se_env env) u (\<lambda>_. P)" and pos: "0 < headerLength t" and so: "so_LocalAddr so = TCPAddr ip port"
  shows "list_all2 (good_frame t (re_decode (se_env env)) u) ms fs \<Longrightarrow> buf c @ later = concat fs \<Longrightarrow> P s
    \<Longrightarrow> length (buf c) < n \<Longrightarrow>
    \<exists>ms1 ms2 fs1 fs2 rs c1. ms = ms1 @ ms2 \<and> fs = fs1 @ fs2 \<and> length ms1 = length fs1
      \<and> all_received (re_decode (se_env env)) 0 ms1 fs1 rs \<and> P (tcp_all env so port rs s)
      \<and> on_traffic_loop n g t env ProtoTCP so now pending (c, ctl, ns, s) = (TBreak, c1, ctl, ns, tcp_all env so port rs s)
      \<and> buf c1 @ later = concat fs2 \<and> (fs2 = [] \<or> length (buf c1) < length (hd fs2))"
proof (induction ms fs arbitrary: c s n rule: list_all2_induct)
  case Nil
  then obtain k where k: "n = Suc k" by (cases n) auto
  have "peek_frame g t c = PkBreak" using Nil(1) pos by (intro peek_short) auto
  then have "on_traffic_loop n g t env ProtoTCP so now pending (c, ctl, ns, s) = (TBreak, c, ctl, ns, s)"
    using k by (simp add: on_traffic_step_def)
  then show ?case using Nil by (intro exI [of _ "[]"] exI [of _ c]) simp
next
  case (Cons m ms f fs)
  then obtain k where k: "n = Suc k" by (cases n) auto
  show ?case
  proof (cases "length (buf c) < length f")
    case True
    have "buf c @ later = f @ concat fs" using Cons.prems(1) by simp
    then have "peek_frame g t c = PkBreak" by (rule peek_incomplete [OF Cons.hyps(1) pos _ True])
    then have "on_traffic_loop n g t env ProtoTCP so now pending (c, ctl, ns, s) = (TBreak, c, ctl, ns, s)"
      using k by (simp add: on_traffic_step_def)
    then show ?thesis
      using Cons.prems True
      by (intro exI [of _ "[]"] exI [of _ "m # ms"] exI [of _ "f # fs"] exI [of _ c]) simp
  next
    case False
    obtain x where x: "buf c = f @ x" "x @ later = concat fs"
    proof -
      have "take (length f) (buf c @ later) = f" using Cons.prems(1) by simp
      then have "take (length f) (buf c) = f" using False by simp
      then have "buf c = f @ drop (length f) (buf c)" by (metis append_take_drop_id)
      moreover from this have "drop (length f) (buf c) @ later = concat fs"
        using Cons.prems(1) by (metis append.assoc concat.simps(2) same_append_eq)
      ultimately show ?thesis using that by blast
    qed
    obtain m2 c1 where st: "received_as (re_decode (se_env env)) m m2" "buf c1 = x"
      "on_traffic_step g t env ProtoTCP so now pending (c, ctl, ns, s) =
         (None, c1, ctl, ns, tcp_all env so port [(length f, m2)] s)" "P (tcp_all env so port [(length f, m2)] s)"
      using on_traffic_step_frame [OF Cons.hyps(1) pos x(1) acc Cons.prems(2) so] by blast
    have "0 < length f" using good_frame_nonempty [OF Cons.hyps(1)] pos by linarith
    moreover have "length (buf c) = length f + length (buf c1)" using x(1) st(2) by simp
    ultimately have less: "length (buf c1) < k" using Cons.prems(3) k by linarith
    have rest: "buf c1 @ later = concat fs" using st(2) x(2) by simp
    obtain ms1 ms2 fs1 fs2 rs c2 where IH: "ms = ms1 @ ms2" "fs = fs1 @ fs2" "length ms1 = length fs1"
      "all_received (re_decode (se_env env)) 0 ms1 fs1 rs"
      "P (tcp_all env so port rs (tcp_all env so port [(length f, m2)] s))"
      "on_traffic_loop k g t env ProtoTCP so now pending (c1, ctl, ns, tcp_all env so port [(length f, m2)] s) =
         (TBreak, c2, ctl, ns, tcp_all env so port rs (tcp_all env so port [(length f, m2)] s))"
      "buf c2 @ later = concat fs2" "fs2 = [] \<or> length (buf c2) < length (hd fs2)"
      using Cons.IH [OF rest st(4) less] by blast
    have all: "tcp_all env so port ((length f, m2) # rs) s = tcp_all env so port rs (tcp_all env so port [(length f, m2)] s)"
      using traffic_all_append [of _ _ "[(length f, m2)]" rs] by simp
    have loop: "on_traffic_loop n g t env ProtoTCP so now pending (c, ctl, ns, s) =
         (TBreak, c2, ctl, ns, tcp_all env so port ((length f, m2) # rs) s)"
      unfolding all using k st(3) IH(6) by simp
    have rec: "all_received (re_decode (se_env env)) 0 (m # ms1) (f # fs1) ((length f, m2) # rs)"
      using st(1) IH(4) by (simp add: received_with_def)
    show ?thesis
      using IH(1-3,5,7,8) loop rec unfolding all [symmetric]
      by - (rule exI [of _ "m # ms1"], rule exI [of _ ms2], rule exI [of _ "f # fs1"], rule exI [of _ fs2],
          rule exI [of _ "(length f, m2) # rs"], rule exI [of _ c2], simp del: traffic_all.simps)
  qed
qed

text \<open>Piece by piece, everything is delivered once its last byte has arrived.\<close>

lemma traffic_run_stream:
  assumes acc: "accepting (se_env env) u (\<lambda>_. P)" and pos: "0 < headerLength t" and so: "so_LocalAddr so = TCPAddr ip port"
  shows "list_all2 (good_frame t (re_decode (se_env env)) u) ms fs \<Longrightarrow> buf c @ concat (map fst chunks) = concat fs \<Longrightarrow>
    fs = [] \<or> length (buf c) < length (hd fs) \<Longrightarrow> P s \<Longrightarrow> length (concat fs) < n \<Longrightarrow>
    \<exists>rs c1. all_received (re_decode (se_env env)) 0 ms fs rs \<and> buf c1 = []
      \<and> traffic_run n g arrive t env ProtoTCP so chunks (c, ctl, ns, s) = (TReturn GNone, c1, ctl, ns, tcp_all env so port rs s)"
proof (induction chunks arbitrary: ms fs c s)
  case Nil
  have "fs = []"
  proof (cases fs)
    case (Cons f fs')
    then show ?thesis using Nil.prems(2,3) by simp
  qed
  then show ?case using Nil.prems by (intro exI [of _ "[]"] exI [of _ c]) simp
next
  case (Cons chunk chunks)
  obtain bs now pending where chunk: "chunk = (bs, now, pending)" by (cases chunk)
  let ?c = "arrive bs c" and ?later = "concat (map fst chunks)"
  have bytes: "buf ?c @ ?later = concat fs" using Cons.prems(2) by (simp add: arrived chunk)
  have "length (buf ?c) \<le> length (concat fs)" by (metis bytes le_add1 length_append)
  then have less: "length (buf ?c) < n" using Cons.prems(5) by simp
  obtain ms1 ms2 fs1 fs2 rs c1 where step: "ms = ms1 @ ms2" "fs = fs1 @ fs2" "length ms1 = length fs1"
    "all_received (re_decode (se_env env)) 0 ms1 fs1 rs" "P (tcp_all env so port rs s)"
    "on_traffic_loop n g t env ProtoTCP so now pending (?c, ctl, ns, s) = (TBreak, c1, ctl, ns, tcp_all env so port rs s)"
    "buf c1 @ ?later = concat fs2" "fs2 = [] \<or> length (buf c1) < length (hd fs2)"
    using on_traffic_loop_frames [where now = now and pending = pending and ctl = ctl and ns = ns,
        OF acc pos so Cons.prems(1) bytes Cons.prems(4) less] by (elim exE conjE)
  have good2: "list_all2 (good_frame t (re_decode (se_env env)) u) ms2 fs2"
    using Cons.prems(1) step(1-3) by (simp add: list_all2_append)
  have less2: "length (concat fs2) < n" using Cons.prems(5) step(2) by simp
  obtain rs2 c2 where rest: "all_received (re_decode (se_env env)) 0 ms2 fs2 rs2" "buf c2 = []"
    "traffic_run n g arrive t env ProtoTCP so chunks (c1, ctl, ns, tcp_all env so port rs s) =
       (TReturn GNone, c2, ctl, ns, tcp_all env so port rs2 (tcp_all env so port rs s))"
    using Cons.IH [OF good2 step(7,8,5) less2] by blast
  have "OnTraffic n g t env ProtoTCP so now pending (?c, ctl, ns, s) = (TReturn GNone, c1, ctl, ns, tcp_all env so port rs s)"
    using step(6) by (simp add: OnTraffic_def)
  then have "traffic_run n g arrive t env ProtoTCP so (chunk # chunks) (c, ctl, ns, s) =
      (TReturn GNone, c2, ctl, ns, tcp_all env so port (rs @ rs2) s)"
    using rest(3) by (simp add: chunk traffic_all_append)
  moreover have "all_received (re_decode (se_env env)) 0 ms fs (rs @ rs2)"
    unfolding step(1,2) by (rule all_received_append [OF step(3,4) rest(1)])
  ultimately show ?case using rest(2) by blast
qed

end

text \<open>A buffer that is a list of bytes meets the contract.\<close>

definition list_gnet :: "bytes gnet" where
  "list_gnet = \<lparr>gn_Peek = (\<lambda>n c. if n \<le> int (length c) then Ok (take (nat n) c) else Err ErrShortBuffer),
     gn_Discard = (\<lambda>n c. drop (nat n) c), gn_InboundBuffered = (\<lambda>c. int (length c))\<rparr>"

interpretation list_buffer: gnet_buffer list_gnet "\<lambda>bs c. c @ bs" "\<lambda>c. c"
  by unfold_locales (simp_all add: list_gnet_def)

section \<open>Properties\<close>

text \<open>
  C12. The server \<open>V2\<close> over TCP: of a stream of messages that comes in any pieces the traffic
  handler delivers each message, once, in order, as soon as it is complete, and when the
  stream has arrived nothing is left in the buffer. The buffer is any one that keeps the
  contract of gnet.
\<close>

theorem v2_traffic_delivers_stream:
  assumes "gnet_buffer g arrive buf" "transport_ok k t u" "c_TCPConn conn \<noteq> None" "re_enc cenv conn cs = Ok (Some u)"
    and "list_all2 (client_sent t cenv conn cs cns) calls outs"
    and "\<forall>call\<in>set calls. proper_call k t (re_decode (se_env env)) call \<and> IsPayload (fst call)"
    and "buf c = []" "concat (map fst chunks) = concat outs" "length (concat outs) < n"
    and "accepting (se_env env) u (\<lambda>_. P)" "P s" "so_LocalAddr so = TCPAddr ip port"
  shows "\<exists>rs c1. all_received (re_decode (se_env env)) 0 (map fst calls) outs rs \<and> buf c1 = []
     \<and> traffic_run n g arrive t env ProtoTCP so chunks (c, ctl, ns, s) =
         (TReturn GNone, c1, ctl, ns,
          traffic_all (se_env env) (traffic_connection ProtoTCP so (word_of_int port)) rs s)"
proof -
  have pos: "0 < headerLength t" using headerLength_pos [OF assms(2)] by simp
  note frames = client_stream_frames [OF assms(3,4,2,5,6)]
  have "outs = [] \<or> length (buf c) < length (hd outs)"
    using frames pos assms(7) good_frame_nonempty by (cases outs) (fastforce simp: list_all2_Cons2)+
  then show ?thesis
    using gnet_buffer.traffic_run_stream [OF assms(1) assms(10) pos assms(12) frames _ _ assms(11,9)] assms(7,8) by simp
qed

definition sample_tcp :: socket where
  "sample_tcp = \<lparr>so_LocalAddr = TCPAddr [10, 0, 0, 1] 1977, so_RemoteAddr = TCPAddr [10, 0, 0, 2] 4000\<rparr>"

theorem v2_traffic_delivers_stream_witness:
  "\<exists>rs. all_received (re_decode sample_env) 0 [sample_data] [sample_frame] rs
     \<and> traffic_run 20 list_gnet (\<lambda>bs c. c @ bs) sample_transport sample_server ProtoTCP sample_tcp
         [(take 5 sample_frame, 0, True), (drop 5 sample_frame, 1, True)] ([], control_new 10, no_instances, []) =
         (TReturn GNone, [], control_new 10, no_instances,
          traffic_all sample_env (traffic_connection ProtoTCP sample_tcp 1977) rs [])"
proof -
  let ?calls = "[(sample_data, sample_draws, [Wrote 4, Wrote 11], 0)] :: send_call list"
  have s: "se_env sample_server = sample_env" by (simp add: sample_server_def)
  have enc: "re_enc sample_env (new_connection\<lparr>c_TCPConn := Some sample_socket\<rparr>) [] = Ok (Some (NewEmpty []))"
    by (simp add: sample_env_def)
  have sent: "list_all2 (client_sent sample_transport sample_env (new_connection\<lparr>c_TCPConn := Some sample_socket\<rparr>) [] no_instances)
      ?calls [sample_frame]"
    using sample_sent by simp
  have good: "\<forall>call\<in>set ?calls. proper_call 0 sample_transport (re_decode (se_env sample_server)) call \<and> IsPayload (fst call)"
    using sample_proper
    by (simp add: s proper_call_def draws_ok_def sample_draws_def rand_ok_def) (simp add: sample_data_def new_message_def IsPayload_def)
  have acc: "accepting (se_env sample_server) (NewEmpty []) (\<lambda>_. (\<lambda>_. True))" using sample_accepting by (simp add: s)
  have rest: "concat (map fst [(take 5 sample_frame, 0 :: int, True), (drop 5 sample_frame, 1, True)]) = concat [sample_frame]"
    "length (concat [sample_frame]) < 20" "so_LocalAddr sample_tcp = TCPAddr [10, 0, 0, 1] 1977"
    by (simp_all add: sample_tcp_def) (simp add: sample_frame_def)
  have tcp: "c_TCPConn (new_connection\<lparr>c_TCPConn := Some sample_socket\<rparr>) \<noteq> None" by simp
  show ?thesis
    using v2_traffic_delivers_stream [OF list_buffer.gnet_buffer_axioms sample_transport_ok tcp enc sent good refl rest(1,2) acc TrueI rest(3),
        where ctl = "control_new 10" and ns = no_instances and s = "[]"]
    by (simp add: s)
qed

end
