(* ===== verification/ServerHazards.thy ===== *)
theory ServerHazards
  imports ServerProps
begin

text \<open>
  Where the server's use case leaves the states of the invariant, or passes one client's
  data or rights to another.
\<close>

section \<open>A connection that ends without its session number\<close>

text \<open>
  The second version of the network server reports the end of a connection with session number 0.
  If it was the last connection of its interface, the interface goes and the session stays, with
  its name; the client that comes back to its session then ends the process.
\<close>

definition back_to_session :: message where
  "back_to_session = demo_auth (demo_request [9] [1] [2])\<lparr>m_SessionID := 5\<rparr>"

definition demo_orphan :: server_uc where
  "demo_orphan = (case disconnect (demo_conn 5555) None demo_in of Ok uc \<Rightarrow> uc | _ \<Rightarrow> demo_in)"

text \<open>
  After the end of its only connection, reported with session number 0, a session has no
  interface any more, and to come back to it panics.
\<close>

theorem returning_to_orphan_session_panics:
  "c_SessionID (demo_conn 5555) = 0 \<and> disconnect (demo_conn 5555) None demo_in = Ok demo_orphan
   \<and> su_interfaces demo_orphan = [] \<and> su_client2session demo_orphan = [([9], 5)]
   \<and> map_option fst (commandAuthentication demo_lib (demo_world 0 ''tun0'') back_to_session (demo_conn 7777) demo_orphan) = Some Panic"
  by (simp add: demo_orphan_def demo_in_def disconnect_def removeConnection_def close_interface_def remove_at_def
      merger_DeleteStream_def v1_DeleteStream_def back_to_session_def checkSession_def server_eval NewV1_def)

section \<open>A connection of a dropped session\<close>

text \<open>
  \<open>dropSession\<close> leaves the connections of the session in the table, and they name the device.
  When the device's name is used again, data from the old connection goes to the new device.
\<close>

definition demo_reused :: server_uc where
  \<comment> \<open>client 9 resets its session, then client 8 logs in and gets the same device\<close>
  "demo_reused = demo_login (demo_world 8 ''tun0'') [8] [5] [6] 6666
     (snd (snd (commandReset (new_message\<lparr>m_Type := MessageTypeReset\<rparr>) (demo_conn 5555) demo_in)))"

theorem old_connection_writes_to_new_tunnel:
  "directory_of demo_reused [8] = Some (9, [5], ''tun0'') \<and> directory_of demo_reused [9] = None
   \<and> su_written demo_reused = []
   \<and> su_written (snd (snd (commandData (demo_world 0 ''tun0'')
        (new_message\<lparr>m_Type := MessageTypeData, m_Payload := PBytes [69]\<rparr>) (demo_conn 5555) demo_reused))) = [(''tun0'', PBytes [69])]"
  by (simp add: demo_reused_def demo_in_def commandReset_def getConnection_def dropSessionByID_def directory_of_def commandData_def
      getInterfaceByName_def iface_Write_def merger_DeleteStream_def v1_DeleteStream_def server_eval NewV1_def le16_def be32_def)

section \<open>A request object that is shared\<close>

lemma auth_ignores_payload:
  "auth_session draws (msg\<lparr>m_Payload := p\<rparr>) = auth_session draws msg"
  "auth_finish w (msg\<lparr>m_Payload := p\<rparr>) = auth_finish w msg"
proof -
  have m: "m_SessionID (msg\<lparr>m_Payload := p\<rparr>) = m_SessionID msg" "m_Type (msg\<lparr>m_Payload := p\<rparr>) = m_Type msg" by simp_all
  show "auth_session draws (msg\<lparr>m_Payload := p\<rparr>) = auth_session draws msg" unfolding auth_session_def m ..
  show "auth_finish w (msg\<lparr>m_Payload := p\<rparr>) = auth_finish w msg" unfolding auth_finish_def m ..
qed

text \<open>
  Requests are decoded into one object. A payload that sets none of its fields, such as the
  payload of an answer, is then as good as the last request, password included.
\<close>

theorem answer_payload_repeats_last_request:
  assumes unset: "\<And>x r. lib_request lib (PAuthResponse x) r = Ok r"
    and request: "\<And>q r. lib_request lib (PAuthRequest q) r = Ok q"
  shows "commandAuthentication lib w (msg\<lparr>m_Payload := PAuthResponse x\<rparr>) conn uc
    = commandAuthentication lib w (msg\<lparr>m_Payload := PAuthRequest (su_authRequest uc)\<rparr>) conn uc"
proof -
  have p: "m_Payload (msg\<lparr>m_Payload := q\<rparr>) = q" for q by simp
  show ?thesis unfolding commandAuthentication_def auth_ignores_payload p unset request ..
qed

theorem answer_payload_repeats_last_request_witness:
  "\<exists>m conn1 uc1. commandAuthentication demo_lib (demo_world 8 ''tun1'')
      (new_message\<lparr>m_Type := MessageTypeAuthentication, m_Payload := PAuthResponse \<lparr>as_SessionID = 0, as_LocalIP = [], as_RemoteIP = []\<rparr>\<rparr>)
      (demo_conn 6666) demo_in = Some (Ok m, conn1, uc1) \<and> directory_of uc1 [9] = Some (9, [1], ''tun1'')"
proof -
  have "commandAuthentication demo_lib (demo_world 8 ''tun1'')
      ((new_message\<lparr>m_Type := MessageTypeAuthentication\<rparr>)\<lparr>m_Payload := PAuthResponse \<lparr>as_SessionID = 0, as_LocalIP = [], as_RemoteIP = []\<rparr>\<rparr>)
      (demo_conn 6666) demo_in
    = commandAuthentication demo_lib (demo_world 8 ''tun1'')
      ((new_message\<lparr>m_Type := MessageTypeAuthentication\<rparr>)\<lparr>m_Payload := PAuthRequest (su_authRequest demo_in)\<rparr>) (demo_conn 6666) demo_in"
    by (rule answer_payload_repeats_last_request) (simp_all add: demo_lib_def)
  then show ?thesis
    by (simp add: demo_in_def server_eval merger_DeleteStream_def v1_DeleteStream_def directory_of_def NewV1_def)
qed

end
