(* ===== verification/Requests.thy ===== *)
theory Requests
  imports Entity
begin

text \<open>
  The requests of the desktop window (\<open>business/entity/gui.go\<close>): JSON values as the library
  \<open>encoding/json\<close> leaves them in an \<open>interface{}\<close>, and the functions \<open>Model\<close> that read the fields
  of a request from them with type assertions.
\<close>

section \<open>JSON values\<close>

text \<open>A number of JSON is a finite \<open>float64\<close>, and so a rational number.\<close>

datatype json =
    JNull
  | JBool bool
  | JNumber rat
  | JString string
  | JArray "json list"
  | JObject "(string, json) gomap"

text \<open>
  A conversion of a float drops the fraction. For a value that the integer type does not hold,
  Go leaves the result to the implementation: \<open>float_conv\<close> is that implementation.
\<close>

record float_conv =
  fc_int32 :: "rat \<Rightarrow> u32"
  fc_uint16 :: "rat \<Rightarrow> u16"

definition truncate_rat :: "rat \<Rightarrow> int" where
  "truncate_rat x = (if x < 0 then - \<lfloor>- x\<rfloor> else \<lfloor>x\<rfloor>)"

definition float_to_int32 :: "float_conv \<Rightarrow> rat \<Rightarrow> u32" where
  "float_to_int32 fc x = (let n = truncate_rat x in if - (2 ^ 31) \<le> n \<and> n < 2 ^ 31 then word_of_int n else fc_int32 fc x)"

definition float_to_uint16 :: "float_conv \<Rightarrow> rat \<Rightarrow> u16" where
  "float_to_uint16 fc x = (let n = truncate_rat x in if 0 \<le> n \<and> n < 2 ^ 16 then word_of_int n else fc_uint16 fc x)"

text \<open>The type assertions \<open>v.(float64)\<close>, \<open>v.(bool)\<close> and \<open>v.(string)\<close>.\<close>

fun as_float64 :: "json \<Rightarrow> ('e, rat) res" where
  "as_float64 (JNumber x) = Ok x"
| "as_float64 _ = Panic"

fun as_bool :: "json \<Rightarrow> ('e, bool) res" where
  "as_bool (JBool b) = Ok b"
| "as_bool _ = Panic"

fun as_string :: "json \<Rightarrow> ('e, string) res" where
  "as_string (JString s) = Ok s"
| "as_string _ = Panic"

section \<open>Requests\<close>

type_synonym request_payload = "(string, json) gomap option" \<comment> \<open>\<open>None\<close> is a nil map\<close>

record connect_request =
  cr_ConnID :: u32
  cr_IsConnect :: bool

record update_connection_request =
  ur_ConnID :: u32
  ur_Name :: string
  ur_ServerHost :: string
  ur_PortMin :: u16
  ur_PortMax :: u16
  ur_UseTCP :: "bool option"
  ur_UseUDP :: "bool option"
  ur_Username :: string
  ur_Password :: string

record delete_connection_request =
  dr_ConnID :: u32

record import_connection_request =
  ir_File :: string

definition new_connect_request :: connect_request where
  "new_connect_request = \<lparr>cr_ConnID = 0, cr_IsConnect = False\<rparr>"

definition new_update_request :: update_connection_request where
  "new_update_request = \<lparr>ur_ConnID = 0, ur_Name = '''', ur_ServerHost = '''', ur_PortMin = 0, ur_PortMax = 0,
     ur_UseTCP = None, ur_UseUDP = None, ur_Username = '''', ur_Password = ''''\<rparr>"

text \<open>\<open>if v, ok := payload[name]; ok && v != nil\<close>: the value, asserted and stored.\<close>

definition field :: "request_payload \<Rightarrow> string \<Rightarrow> json option" where
  "field payload name =
     (case payload of None \<Rightarrow> None
      | Some m \<Rightarrow> (case map_of m name of None \<Rightarrow> None | Some v \<Rightarrow> if v = JNull then None else Some v))"

definition read_field :: "request_payload \<Rightarrow> string \<Rightarrow> (json \<Rightarrow> ('e, 'a) res) \<Rightarrow> ('a \<Rightarrow> 'r \<Rightarrow> 'r) \<Rightarrow> 'r \<Rightarrow> ('e, 'r) res" where
  "read_field payload name assertion store r =
     (case field payload name of None \<Rightarrow> Ok r | Some v \<Rightarrow> rbind (assertion v) (\<lambda>x. Ok (store x r)))"

definition ConnectRequest_Model :: "float_conv \<Rightarrow> request_payload \<Rightarrow> connect_request \<Rightarrow> ('e, connect_request) res" where
  "ConnectRequest_Model fc payload r =
     (if payload = None then Ok r
      else rbind (read_field payload ''id'' as_float64 (\<lambda>x. cr_ConnID_update (\<lambda>_. float_to_int32 fc x)) r) (\<lambda>r.
           read_field payload ''connect'' as_bool (\<lambda>x. cr_IsConnect_update (\<lambda>_. x)) r))"

definition UpdateConnectionRequest_Model ::
  "float_conv \<Rightarrow> request_payload \<Rightarrow> update_connection_request \<Rightarrow> ('e, update_connection_request) res" where
  "UpdateConnectionRequest_Model fc payload r =
     (if payload = None then Ok r
      else rbind (read_field payload ''id'' as_float64 (\<lambda>x. ur_ConnID_update (\<lambda>_. float_to_int32 fc x)) r) (\<lambda>r.
           rbind (read_field payload ''name'' as_string (\<lambda>x. ur_Name_update (\<lambda>_. x)) r) (\<lambda>r.
           rbind (read_field payload ''serverHost'' as_string (\<lambda>x. ur_ServerHost_update (\<lambda>_. x)) r) (\<lambda>r.
           rbind (read_field payload ''portMin'' as_float64 (\<lambda>x. ur_PortMin_update (\<lambda>_. float_to_uint16 fc x)) r) (\<lambda>r.
           rbind (read_field payload ''portMax'' as_float64 (\<lambda>x. ur_PortMax_update (\<lambda>_. float_to_uint16 fc x)) r) (\<lambda>r.
           rbind (read_field payload ''useTCP'' as_bool (\<lambda>x. ur_UseTCP_update (\<lambda>_. Some x)) r) (\<lambda>r.
           rbind (read_field payload ''useUDP'' as_bool (\<lambda>x. ur_UseUDP_update (\<lambda>_. Some x)) r) (\<lambda>r.
           rbind (read_field payload ''username'' as_string (\<lambda>x. ur_Username_update (\<lambda>_. x)) r) (\<lambda>r.
           read_field payload ''password'' as_string (\<lambda>x. ur_Password_update (\<lambda>_. x)) r)))))))))"

definition DeleteConnectionRequest_Model ::
  "float_conv \<Rightarrow> request_payload \<Rightarrow> delete_connection_request \<Rightarrow> ('e, delete_connection_request) res" where
  "DeleteConnectionRequest_Model fc payload r =
     (if payload = None then Ok r
      else read_field payload ''id'' as_float64 (\<lambda>x. dr_ConnID_update (\<lambda>_. float_to_int32 fc x)) r)"

definition ImportConnectionRequest_Model :: "request_payload \<Rightarrow> import_connection_request \<Rightarrow> ('e, import_connection_request) res" where
  "ImportConnectionRequest_Model payload r =
     (if payload = None then Ok r
      else read_field payload ''file'' as_string (\<lambda>x. ir_File_update (\<lambda>_. x)) r)"

section \<open>When a request is readable\<close>

text \<open>What the window has to send: each field that is present and not null has its type.\<close>

datatype json_type = TNumber | TBool | TString

fun has_type :: "json \<Rightarrow> json_type \<Rightarrow> bool" where
  "has_type (JNumber _) TNumber = True"
| "has_type (JBool _) TBool = True"
| "has_type (JString _) TString = True"
| "has_type _ _ = False"

definition typed :: "(string \<times> json_type) list \<Rightarrow> request_payload \<Rightarrow> bool" where
  "typed sig payload \<longleftrightarrow> list_all (\<lambda>(name, t). case field payload name of None \<Rightarrow> True | Some v \<Rightarrow> has_type v t) sig"

definition connect_signature :: "(string \<times> json_type) list" where
  "connect_signature = [(''id'', TNumber), (''connect'', TBool)]"

definition update_signature :: "(string \<times> json_type) list" where
  "update_signature = [(''id'', TNumber), (''name'', TString), (''serverHost'', TString), (''portMin'', TNumber),
     (''portMax'', TNumber), (''useTCP'', TBool), (''useUDP'', TBool), (''username'', TString), (''password'', TString)]"

lemma assertion_holds:
  "as_float64 v = (if has_type v TNumber then Ok (case v of JNumber x \<Rightarrow> x) else Panic)"
  "as_bool v = (if has_type v TBool then Ok (case v of JBool x \<Rightarrow> x) else Panic)"
  "as_string v = (if has_type v TString then Ok (case v of JString x \<Rightarrow> x) else Panic)"
  by (cases v; simp)+

lemma read_field_cases:
  assumes "\<And>v. assertion v = (if has_type v t then Ok (g v) else Panic)"
  shows "read_field payload name assertion store r
    = (if typed [(name, t)] payload
       then Ok (case field payload name of None \<Rightarrow> r | Some v \<Rightarrow> store (g v) r) else Panic)"
  by (auto simp: read_field_def typed_def assms split: option.splits)

lemmas read_fields = read_field_cases [OF assertion_holds(1)] read_field_cases [OF assertion_holds(2)]
  read_field_cases [OF assertion_holds(3)]

lemma typed_Cons: "typed (x # xs) payload \<longleftrightarrow> typed [x] payload \<and> typed xs payload"
  by (simp add: typed_def)

lemma typed_Nil [simp]: "typed [] payload"
  by (simp add: typed_def)

lemma typed_nil_payload [simp]: "typed sig None"
  by (auto simp: typed_def field_def list_all_iff)

lemma rbind_if [simp]: "rbind (if b then Ok x else Panic) f = (if b then f x else Panic)"
  by simp

text \<open>A request is read or panics, and it panics exactly when a field has another type.\<close>

lemma ConnectRequest_Model_panics:
  "ConnectRequest_Model fc payload r = Panic \<longleftrightarrow> \<not> typed connect_signature payload"
  by (auto simp: ConnectRequest_Model_def read_fields connect_signature_def typed_Cons [of _ "_ # _"])

lemma UpdateConnectionRequest_Model_panics:
  "UpdateConnectionRequest_Model fc payload r = Panic \<longleftrightarrow> \<not> typed update_signature payload"
  by (auto simp: UpdateConnectionRequest_Model_def read_fields update_signature_def typed_Cons [of _ "_ # _"])

lemma DeleteConnectionRequest_Model_panics:
  "DeleteConnectionRequest_Model fc payload r = Panic \<longleftrightarrow> \<not> typed [(''id'', TNumber)] payload"
  by (auto simp: DeleteConnectionRequest_Model_def read_fields)

lemma no_request_errors:
  "ConnectRequest_Model fc payload r \<noteq> Err e" "UpdateConnectionRequest_Model fc payload r1 \<noteq> Err e"
  "DeleteConnectionRequest_Model fc payload r2 \<noteq> Err e" "ImportConnectionRequest_Model payload r3 \<noteq> Err e"
  by (auto simp: ConnectRequest_Model_def UpdateConnectionRequest_Model_def DeleteConnectionRequest_Model_def
      ImportConnectionRequest_Model_def read_fields)

text \<open>A number of the window that is an index of a connection is read as that index.\<close>

lemma float_to_int32_nat: "n < 2 ^ 31 \<Longrightarrow> float_to_int32 fc (rat_of_nat n) = of_nat n"
  by (simp add: float_to_int32_def truncate_rat_def)

end
