(* ===== verification/ConnManager.thy ===== *)
theory ConnManager
  imports ServerProps
begin

text \<open>
  The connection manager (\<open>business/usecase/connection.manager.go\<close> and
  \<open>connection.manager.stat.go\<close>): connecting to one of the configured servers, disconnecting,
  listing, and the figures of the connections.
\<close>

section \<open>State\<close>

text \<open>
  A handler is named by the number of its creation. \<open>cm_live\<close> are the handlers that were started
  and not told to exit.
\<close>

record connection_info =
  in_ID :: int
  in_Handler :: "nat option"
  in_IsConnected :: bool
  in_ConnectTs :: int

record 'c conn_manager =
  cm_Connections :: "'c list" \<comment> \<open>of the configuration\<close>
  cm_connections :: "(int, connection_info) gomap"
  cm_next :: nat
  cm_live :: "nat list"
  cm_shutdown :: bool
  cm_saved :: "'c list list" \<comment> \<open>configurations handed to \<open>cfgHandler\<close>\<close>

definition NewConnectionManagerUseCase :: "'c list \<Rightarrow> 'c conn_manager" where
  "NewConnectionManagerUseCase cfg = \<lparr>cm_Connections = cfg, cm_connections = [], cm_next = 0, cm_live = [], cm_shutdown = False, cm_saved = []\<rparr>"

text \<open>\<open>Handler.Exit\<close>.\<close>

definition handler_Exit :: "connection_info \<Rightarrow> 'c conn_manager \<Rightarrow> 'c conn_manager" where
  "handler_Exit info uc = uc\<lparr>cm_live := filter (\<lambda>h. Some h \<noteq> in_Handler info) (cm_live uc)\<rparr>"

text \<open>The loop of \<open>Connect\<close> breaks after the first entry that the iteration over the map gives.\<close>

definition drop_first :: "'c conn_manager \<Rightarrow> 'c conn_manager" where
  "drop_first uc =
     (case cm_connections uc of
        [] \<Rightarrow> uc
      | (i, info) # _ \<Rightarrow> (handler_Exit info uc)\<lparr>cm_connections := mdel i (cm_connections uc)\<rparr>)"

text \<open>
  \<open>create\<close> is what \<open>createConnection\<close> answers, \<open>start\<close> what \<open>Start\<close> of the handler answers. A
  handler that did not start is not kept, and not told to exit.
\<close>

definition Connect :: "('c \<Rightarrow> gerror option) \<Rightarrow> gerror option \<Rightarrow> int \<Rightarrow> int \<Rightarrow> 'c conn_manager \<Rightarrow> gerror option \<times> 'c conn_manager" where
  "Connect create start now connID uc =
     (if connID < 0 \<or> connID \<ge> int (length (cm_Connections uc)) then (Some ErrWrongConnectionId, uc)
      else (let uc1 = drop_first uc
            in case create (cm_Connections uc1 ! nat connID) of
              Some e \<Rightarrow> (Some e, uc1)
            | None \<Rightarrow>
                (let h = cm_next uc1;
                     uc2 = uc1\<lparr>cm_next := Suc h, cm_live := cm_live uc1 @ [h]\<rparr>
                 in case start of
                   Some e \<Rightarrow> (Some e, uc2)
                 | None \<Rightarrow> (None, uc2\<lparr>cm_connections := mput connID \<lparr>in_ID = connID, in_Handler = Some h,
                     in_IsConnected = True, in_ConnectTs = now\<rparr> (cm_connections uc2)\<rparr>))))"

definition Disconnect :: "int \<Rightarrow> 'c conn_manager \<Rightarrow> gerror option \<times> 'c conn_manager" where
  "Disconnect connID uc =
     (case map_of (cm_connections uc) connID of
        None \<Rightarrow> (Some ErrWrongConnectionId, uc)
      | Some info \<Rightarrow> (None, (handler_Exit info uc)\<lparr>cm_connections := mdel connID (cm_connections uc)\<rparr>))"

definition GetConnections :: "'c conn_manager \<Rightarrow> connection_info list" where
  "GetConnections uc =
     map (\<lambda>i. case map_of (cm_connections uc) (int i) of
         Some info \<Rightarrow> info
       | None \<Rightarrow> \<lparr>in_ID = int i, in_Handler = None, in_IsConnected = False, in_ConnectTs = 0\<rparr>)
       [0 ..< length (cm_Connections uc)]"

text \<open>\<open>unmarshalled\<close> is what the JSON of the new configuration gives.\<close>

definition UpdateConfig :: "gerror + 'c list \<Rightarrow> 'c conn_manager \<Rightarrow> gerror option \<times> 'c conn_manager" where
  "UpdateConfig unmarshalled uc =
     (case unmarshalled of
        Inr cfg \<Rightarrow> (None, uc\<lparr>cm_Connections := cfg, cm_saved := cm_saved uc @ [cfg]\<rparr>)
      | Inl e \<Rightarrow> (Some e, uc))"

definition Shutdown :: "'c conn_manager \<Rightarrow> 'c conn_manager" where
  "Shutdown uc = (fold handler_Exit (map snd (cm_connections uc)) uc)\<lparr>cm_shutdown := True\<rparr>"

section \<open>Statistics\<close>

text \<open>
  The goroutine of \<open>sessionStat\<close>. At a tick nothing is done when nothing came since the last one,
  apart from one tick that clears the rates.
\<close>

record manager_stat =
  ms_stat :: "(int, statistic) gomap"
  ms_statistic :: "(int, statistic) gomap"
  ms_updated :: bool
  ms_init :: bool
  ms_inStatCh :: "(int \<times> statistic) list"
  ms_out :: "(int, statistic) gomap list"

definition createStatisticHandler :: "int \<Rightarrow> statistic \<Rightarrow> manager_stat \<Rightarrow> manager_stat" where
  "createStatisticHandler connID stat st = st\<lparr>ms_inStatCh := ms_inStatCh st @ [(connID, no_statistic\<lparr>
     st_IncomingBytes := st_IncomingBytes stat, st_OutgoingBytes := st_OutgoingBytes stat,
     st_IncomingFrames := st_IncomingFrames stat, st_OutgoingFrames := st_OutgoingFrames stat\<rparr>)]\<rparr>"

definition no_rates :: "statistic \<Rightarrow> statistic" where
  "no_rates s = s\<lparr>st_IncomingRateBytes := 0, st_OutgoingRateBytes := 0, st_IncomingRateFrames := 0, st_OutgoingRateFrames := 0\<rparr>"

definition manager_flush :: "real \<Rightarrow> int \<times> statistic \<Rightarrow> (int, statistic) gomap \<Rightarrow> (int, statistic) gomap" where
  "manager_flush interval = (\<lambda>(i, s) m.
     mput i (stat_rates interval s (stat_add (case map_of m i of Some a \<Rightarrow> a | None \<Rightarrow> no_statistic) s)) m)"

definition manager_tick :: "real \<Rightarrow> bool \<Rightarrow> manager_stat \<Rightarrow> manager_stat" where
  \<comment> \<open>\<open>out\<close>: a channel for the figures is set\<close>
  "manager_tick interval out st =
     (if \<not> ms_updated st \<and> ms_init st then st
      else (let m = fold (manager_flush interval) (ms_stat st) (map (\<lambda>(i, s). (i, no_rates s)) (ms_statistic st))
            in st\<lparr>ms_init := \<not> ms_updated st, ms_statistic := m, ms_out := (if out then ms_out st @ [m] else ms_out st),
                  ms_stat := [], ms_updated := False\<rparr>))"

definition manager_take :: "manager_stat \<Rightarrow> manager_stat" where
  "manager_take st =
     (case ms_inStatCh st of
        [] \<Rightarrow> st
      | (i, s) # xs \<Rightarrow> st\<lparr>ms_stat := mput i (stat_add (case map_of (ms_stat st) i of Some a \<Rightarrow> a | None \<Rightarrow> no_statistic) s) (ms_stat st),
          ms_updated := True, ms_inStatCh := xs\<rparr>)"

section \<open>The figures\<close>

text \<open>
  As on the server, no figure is lost: one counter of a connection, over what is shown, what is
  summed up and what is on its way. Between ticks nothing is summed up unless \<open>updated\<close> says so.
\<close>

definition manager_total :: "(statistic \<Rightarrow> u64) \<Rightarrow> int \<Rightarrow> manager_stat \<Rightarrow> u64" where
  "manager_total f i st =
     (case map_of (ms_statistic st) i of Some a \<Rightarrow> f a | None \<Rightarrow> 0)
     + (case map_of (ms_stat st) i of Some a \<Rightarrow> f a | None \<Rightarrow> 0)
     + (\<Sum>x \<leftarrow> ms_inStatCh st. if fst x = i then f (snd x) else 0)"

definition manager_stat_ok :: "manager_stat \<Rightarrow> bool" where
  "manager_stat_ok st \<longleftrightarrow> mwf (ms_stat st) \<and> (\<not> ms_updated st \<longrightarrow> ms_stat st = [])"

lemma map_of_map_snd: "map_of (map (\<lambda>(k, v). (k, g v)) m) i = map_option g (map_of m i)"
  by (induction m) auto

lemma manager_flush_lookup:
  "map_of (manager_flush interval (k, s) m) i = (if i = k
     then Some (stat_rates interval s (stat_add (case map_of m k of Some a \<Rightarrow> a | None \<Rightarrow> no_statistic) s)) else map_of m i)"
  by (simp add: manager_flush_def gomap_simps)

lemma fold_manager_flush:
  assumes f: "f \<in> counters" and "mwf stat"
  shows "(case map_of (fold (manager_flush interval) stat m) i of Some a \<Rightarrow> f a | None \<Rightarrow> 0)
    = (case map_of m i of Some a \<Rightarrow> f a | None \<Rightarrow> 0) + (case map_of stat i of Some a \<Rightarrow> f a | None \<Rightarrow> 0)"
  using assms(2)
proof (induction stat arbitrary: m)
  case (Cons x stat)
  obtain k s where x: "x = (k, s)" by (cases x)
  have wf: "mwf stat" and k: "map_of stat k = None" using Cons.prems by (auto simp: mwf_def x map_of_eq_None_iff)
  show ?case
    using Cons.IH [OF wf, of "manager_flush interval x m"] k
    by (auto simp: x manager_flush_lookup counter_simps [OF f] split: option.splits)
qed simp

lemma manager_figures_are_conserved:
  assumes f: "f \<in> counters" and ok: "manager_stat_ok st"
  shows "manager_total f i (manager_take st) = manager_total f i st" "manager_stat_ok (manager_take st)"
    and "manager_total f i (manager_tick interval out st) = manager_total f i st" "manager_stat_ok (manager_tick interval out st)"
    and "manager_total f i (createStatisticHandler j x st) = manager_total f i st + (if j = i then f x else 0)"
proof -
  show "manager_total f i (manager_take st) = manager_total f i st"
    by (cases "ms_inStatCh st")
      (auto simp: manager_total_def manager_take_def gomap_simps counter_simps [OF f] split: prod.splits option.splits)
  show "manager_stat_ok (manager_take st)"
    using ok by (auto simp: manager_stat_ok_def manager_take_def gomap_simps split: list.splits)
  show "manager_stat_ok (manager_tick interval out st)"
    using ok by (auto simp: manager_stat_ok_def manager_tick_def Let_def)
  have rates: "f (no_rates a) = f a" for a using f by (auto simp: counters_def no_rates_def)
  have "mwf (ms_stat st)" using ok by (simp add: manager_stat_ok_def)
  from fold_manager_flush [OF f this, of interval "map (\<lambda>(i, s). (i, no_rates s)) (ms_statistic st)" i]
  show "manager_total f i (manager_tick interval out st) = manager_total f i st"
    by (auto simp: manager_total_def manager_tick_def Let_def map_of_map_snd rates split: option.splits)
  show "manager_total f i (createStatisticHandler j x st) = manager_total f i st + (if j = i then f x else 0)"
    using f by (auto simp: manager_total_def createStatisticHandler_def counters_def)
qed

section \<open>One connection at a time\<close>

text \<open>
  Until a start fails, the handlers that live are those of the table, and there is one at most.
\<close>

definition manager_inv :: "'c conn_manager \<Rightarrow> bool" where
  "manager_inv uc \<longleftrightarrow> (cm_connections uc = [] \<and> cm_live uc = [])
     \<or> (\<exists>i ts h. cm_connections uc = [(i, \<lparr>in_ID = i, in_Handler = Some h, in_IsConnected = True, in_ConnectTs = ts\<rparr>)]
          \<and> cm_live uc = [h] \<and> 0 \<le> i)"

lemma manager_inv_new: "manager_inv (NewConnectionManagerUseCase cfg)"
  by (simp add: manager_inv_def NewConnectionManagerUseCase_def)

lemma manager_inv_drop:
  "manager_inv uc \<Longrightarrow> cm_connections (drop_first uc) = [] \<and> cm_live (drop_first uc) = [] \<and> cm_Connections (drop_first uc) = cm_Connections uc"
  by (auto simp: manager_inv_def drop_first_def handler_Exit_def)

lemma manager_inv_Connect:
  assumes inv: "manager_inv uc" and c: "Connect create start now connID uc = (r, uc1)"
    and start: "start \<noteq> None \<Longrightarrow> \<exists>e. create (cm_Connections uc ! nat connID) = Some e"
  shows "manager_inv uc1"
  using c manager_inv_drop [OF inv] inv start
  by (auto simp: Connect_def Let_def manager_inv_def [of uc1] split: if_splits option.splits)

lemma manager_inv_Disconnect: "manager_inv uc \<Longrightarrow> Disconnect connID uc = (r, uc1) \<Longrightarrow> manager_inv uc1"
  by (auto simp: Disconnect_def manager_inv_def handler_Exit_def split: if_splits)

lemma manager_inv_UpdateConfig: "manager_inv uc \<Longrightarrow> UpdateConfig x uc = (r, uc1) \<Longrightarrow> manager_inv uc1"
  by (auto simp: UpdateConfig_def manager_inv_def split: sum.splits)

text \<open>The calls of the manager; every handler that is created starts.\<close>

datatype 'c manager_call = CallConnect "'c \<Rightarrow> gerror option" int int | CallDisconnect int | CallUpdate "gerror + 'c list"

definition manager_call :: "'c manager_call \<Rightarrow> 'c conn_manager \<Rightarrow> gerror option \<times> 'c conn_manager" where
  "manager_call c uc =
     (case c of
        CallConnect create now connID \<Rightarrow> Connect create None now connID uc
      | CallDisconnect connID \<Rightarrow> Disconnect connID uc
      | CallUpdate x \<Rightarrow> UpdateConfig x uc)"

lemma manager_inv_calls: "manager_inv uc \<Longrightarrow> manager_inv (fold (\<lambda>c uc. snd (manager_call c uc)) cs uc)"
proof (induction cs arbitrary: uc)
  case (Cons c cs)
  obtain r uc1 where eq: "manager_call c uc = (r, uc1)" by fastforce
  have "manager_inv uc1"
    using eq manager_inv_Connect [OF Cons.prems, of _ None] manager_inv_Disconnect [OF Cons.prems] manager_inv_UpdateConfig [OF Cons.prems]
    by (cases c) (auto simp: manager_call_def)
  then show ?case using Cons.IH eq by simp
qed simp

lemma length_filter_one:
  assumes "distinct xs" "\<And>x. P x \<Longrightarrow> x = y"
  shows "length (filter P xs) \<le> 1"
proof -
  have "length (filter P xs) = card (set (filter P xs))" using distinct_card [OF distinct_filter [OF assms(1)], of P] by simp
  also have "\<dots> \<le> card {y}" by (rule card_mono) (use assms(2) in auto)
  finally show ?thesis by simp
qed

lemma manager_inv_facts:
  assumes inv: "manager_inv uc"
  shows "length (cm_live uc) \<le> 1 \<and> cm_live (Shutdown uc) = []
     \<and> length (filter in_IsConnected (GetConnections uc)) \<le> 1
     \<and> set (map in_Handler (filter in_IsConnected (GetConnections uc))) \<subseteq> Some ` set (cm_live uc)"
proof -
  from inv consider (none) "cm_connections uc = []" "cm_live uc = []"
    | (one) i ts h where "cm_connections uc = [(i, \<lparr>in_ID = i, in_Handler = Some h, in_IsConnected = True, in_ConnectTs = ts\<rparr>)]"
        "cm_live uc = [h]" "0 \<le> i"
    unfolding manager_inv_def by blast
  then show ?thesis
  proof cases
    case none
    then show ?thesis by (simp add: Shutdown_def GetConnections_def filter_empty_conv comp_def)
  next
    case one
    let ?f = "\<lambda>j. case map_of (cm_connections uc) (int j) of Some info \<Rightarrow> info
       | None \<Rightarrow> \<lparr>in_ID = int j, in_Handler = None, in_IsConnected = False, in_ConnectTs = 0\<rparr>"
    have only: "j = nat i" if "in_IsConnected (?f j)" for j using that one(1) by (auto split: if_splits)
    have "length (filter (\<lambda>j. in_IsConnected (?f j)) [0 ..< length (cm_Connections uc)]) \<le> 1"
      by (rule length_filter_one [OF distinct_upt only])
    then have "length (filter in_IsConnected (GetConnections uc)) \<le> 1" by (simp add: GetConnections_def filter_map comp_def)
    moreover have "set (map in_Handler (filter in_IsConnected (GetConnections uc))) \<subseteq> Some ` set (cm_live uc)"
      using one(1,2) by (auto simp: GetConnections_def split: if_splits)
    moreover have "cm_live (Shutdown uc) = []" using one(1,2) by (simp add: Shutdown_def handler_Exit_def)
    ultimately show ?thesis using one(2) by simp
  qed
qed


text \<open>A handler whose start fails is kept nowhere: connections it has made stay, also after a shutdown.\<close>

theorem failed_start_is_never_stopped:
  assumes "0 \<le> connID" "connID < int (length (cm_Connections uc))" "create (cm_Connections uc ! nat connID) = None"
    and "cm_connections uc = []"
  shows "\<exists>uc1. Connect create (Some e) now connID uc = (Some e, uc1) \<and> cm_next uc \<in> set (cm_live (Shutdown uc1))"
  using assms by (simp add: Connect_def drop_first_def Let_def Shutdown_def)

end
