(* ===== verification/Rpc.thy ===== *)
theory Rpc
  imports ConnManager
begin

text \<open>
  The calls of the window to the connection manager over gRPC: the server side
  (\<open>adapter/grpc/server\<close>), which turns errors into status codes, and the client side
  (\<open>adapter/grpc/client\<close>), which turns some of the codes back. gRPC itself is a library: what
  becomes of a call is an argument.
\<close>

section \<open>Status codes\<close>

datatype rpc_code = Unavailable | DeadlineExceeded | Unauthenticated | Internal | UnknownCode | OtherCode nat

text \<open>A status has a code and the text of an error, here the error itself.\<close>

datatype rpc_error = RpcStatus rpc_code gerror

fun status_Code :: "rpc_error \<Rightarrow> rpc_code" where
  "status_Code (RpcStatus c e) = c"

text \<open>
  A call is answered; or it fails before the handler has run; or the handler runs and the answer does
  not come, as when the minute of \<open>requestTimeout\<close> is over: the handlers do not look at the context.
\<close>

datatype fate = Answered | NotDelivered rpc_error | AnswerLost rpc_error

fun rpc_call :: "fate \<Rightarrow> ('s \<Rightarrow> (rpc_error + 'a) \<times> 's) \<Rightarrow> 's \<Rightarrow> (rpc_error + 'a) \<times> 's" where
  "rpc_call Answered handler s = handler s"
| "rpc_call (NotDelivered e) handler s = (Inl e, s)"
| "rpc_call (AnswerLost e) handler s = (Inl e, snd (handler s))"

section \<open>The server side\<close>

record rpc_connection =
  rc_Id :: u32
  rc_IsConnected :: bool
  rc_ConnectTs :: int

definition entityToConnection :: "connection_info \<Rightarrow> rpc_connection" where
  "entityToConnection c = \<lparr>rc_Id = word_of_int (in_ID c), rc_IsConnected = in_IsConnected c, rc_ConnectTs = in_ConnectTs c\<rparr>"

definition server_GetState :: "'c conn_manager \<Rightarrow> (rpc_error + rpc_connection list) \<times> 'c conn_manager" where
  "server_GetState uc = (Inr (map entityToConnection (GetConnections uc)), uc)"

definition server_Start :: "('c \<Rightarrow> gerror option) \<Rightarrow> gerror option \<Rightarrow> int \<Rightarrow> u32 \<Rightarrow> 'c conn_manager
    \<Rightarrow> (rpc_error + rpc_connection list) \<times> 'c conn_manager" where
  "server_Start create start now reqId uc =
     (let (err, uc1) = Connect create start now (sint reqId) uc
      in case err of
        Some e \<Rightarrow>
          (if e = ErrMaxConnectionAttempts then (Inl (RpcStatus DeadlineExceeded e), uc1)
           else if e = ErrUnauthorized then (Inl (RpcStatus Unauthenticated e), uc1)
           else (Inl (RpcStatus Internal e), uc1))
      | None \<Rightarrow> server_GetState uc1)"

text \<open>An error that is not a status, as those that \<open>Stop\<close> and \<open>UpdateConfig\<close> return, gets the code \<open>Unknown\<close>.\<close>

definition server_Stop :: "u32 \<Rightarrow> 'c conn_manager \<Rightarrow> (rpc_error + rpc_connection list) \<times> 'c conn_manager" where
  "server_Stop reqId uc =
     (let (err, uc1) = Disconnect (sint reqId) uc;
          (state, uc2) = server_GetState uc1
      in case err of Some e \<Rightarrow> (Inl (RpcStatus UnknownCode e), uc2) | None \<Rightarrow> (state, uc2))"

definition server_UpdateConfig :: "gerror + 'c list \<Rightarrow> 'c conn_manager \<Rightarrow> (rpc_error + unit) \<times> 'c conn_manager" where
  "server_UpdateConfig unmarshalled uc =
     (let (err, uc1) = UpdateConfig unmarshalled uc
      in (case err of Some e \<Rightarrow> Inl (RpcStatus UnknownCode e) | None \<Rightarrow> Inr (), uc1))"

definition server_Shutdown :: "'c conn_manager \<Rightarrow> (rpc_error + unit) \<times> 'c conn_manager" where
  "server_Shutdown uc = (Inr (), Shutdown uc)"

section \<open>The client side\<close>

datatype ipc_error = EntityError gerror | StatusError rpc_error

definition connectionToEntity :: "rpc_connection \<Rightarrow> connection_info" where
  "connectionToEntity c = \<lparr>in_ID = sint (rc_Id c), in_Handler = None, in_IsConnected = rc_IsConnected c, in_ConnectTs = rc_ConnectTs c\<rparr>"

definition start_error :: "rpc_error \<Rightarrow> ipc_error" where
  "start_error err =
     (if status_Code err = Unavailable then EntityError ErrGrpcServerUnavailable
      else if status_Code err = DeadlineExceeded then EntityError ErrMaxConnectionAttempts
      else if status_Code err = Unauthenticated then EntityError ErrUnauthorized
      else StatusError err)"

definition state_error :: "rpc_error \<Rightarrow> ipc_error" where
  "state_error err = (if status_Code err = Unavailable then EntityError ErrGrpcServerUnavailable else StatusError err)"

definition ipc_Start :: "fate \<Rightarrow> ('c \<Rightarrow> gerror option) \<Rightarrow> gerror option \<Rightarrow> int \<Rightarrow> u32 \<Rightarrow> 'c conn_manager
    \<Rightarrow> (ipc_error + connection_info list) \<times> 'c conn_manager" where
  "ipc_Start ft create start now connID uc =
     apfst (map_sum start_error (map connectionToEntity)) (rpc_call ft (server_Start create start now connID) uc)"

definition ipc_Stop :: "fate \<Rightarrow> u32 \<Rightarrow> 'c conn_manager \<Rightarrow> (ipc_error + connection_info list) \<times> 'c conn_manager" where
  "ipc_Stop ft connID uc = apfst (map_sum state_error (map connectionToEntity)) (rpc_call ft (server_Stop connID) uc)"

definition ipc_GetState :: "fate \<Rightarrow> 'c conn_manager \<Rightarrow> (ipc_error + connection_info list) \<times> 'c conn_manager" where
  "ipc_GetState ft uc = apfst (map_sum state_error (map connectionToEntity)) (rpc_call ft server_GetState uc)"

definition ipc_UpdateConfig :: "fate \<Rightarrow> gerror + 'c list \<Rightarrow> 'c conn_manager \<Rightarrow> ipc_error option \<times> 'c conn_manager" where
  "ipc_UpdateConfig ft unmarshalled uc =
     (let (r, uc1) = rpc_call ft (server_UpdateConfig unmarshalled) uc
      in (case r of Inl e \<Rightarrow> Some (StatusError e) | Inr _ \<Rightarrow> None, uc1))"

definition ipc_Shutdown :: "fate \<Rightarrow> 'c conn_manager \<Rightarrow> ipc_error option \<times> 'c conn_manager" where
  "ipc_Shutdown ft uc =
     (let (r, uc1) = rpc_call ft server_Shutdown uc
      in (case r of Inl e \<Rightarrow> Some (StatusError e) | Inr _ \<Rightarrow> None, uc1))"

section \<open>What the window sees\<close>

lemma sint_u32_index: "0 \<le> i \<Longrightarrow> i < 2 ^ 31 \<Longrightarrow> sint (word_of_int i :: u32) = i"
  by (simp add: signed_take_bit_int_eq_self sint_sbintrunc')

lemma sint_u32_nat: "n < 2 ^ 31 \<Longrightarrow> sint (of_nat n :: u32) = int n"
  using sint_u32_index [of "int n"] by simp

text \<open>
  The keys of the table are the identifiers of its entries, and indices of a configuration; an entry
  of the list of connections has its index as identifier.
\<close>

definition ids_ok :: "'c conn_manager \<Rightarrow> bool" where
  "ids_ok uc \<longleftrightarrow> length (cm_Connections uc) < 2 ^ 31 \<and> (\<forall>i info. map_of (cm_connections uc) i = Some info \<longrightarrow> in_ID info = i)"

lemma manager_inv_ids: "manager_inv uc \<Longrightarrow> length (cm_Connections uc) < 2 ^ 31 \<Longrightarrow> ids_ok uc"
  by (auto simp: manager_inv_def ids_ok_def split: if_splits)

text \<open>\<open>without_handler\<close> is what the calls carry of an entry: the identifier crosses the wire in 32 bits.\<close>

definition without_handler :: "connection_info \<Rightarrow> connection_info" where
  "without_handler info = info\<lparr>in_Handler := None\<rparr>"

lemma GetConnections_nth:
  "i < length (cm_Connections uc) \<Longrightarrow> GetConnections uc ! i = (case map_of (cm_connections uc) (int i) of
     Some info \<Rightarrow> info | None \<Rightarrow> \<lparr>in_ID = int i, in_Handler = None, in_IsConnected = False, in_ConnectTs = 0\<rparr>)"
  by (simp add: GetConnections_def split: option.split)

lemma length_GetConnections [simp]: "length (GetConnections uc) = length (cm_Connections uc)"
  by (simp add: GetConnections_def)

lemma state_crosses:
  assumes "ids_ok uc"
  shows "map connectionToEntity (map entityToConnection (GetConnections uc)) = map without_handler (GetConnections uc)"
proof (rule nth_equalityI)
  fix i assume "i < length (map connectionToEntity (map entityToConnection (GetConnections uc)))"
  then have i: "i < length (cm_Connections uc)" by simp
  then have "int i < 2 ^ 31" using assms by (simp add: ids_ok_def)
  then show "map connectionToEntity (map entityToConnection (GetConnections uc)) ! i = map without_handler (GetConnections uc) ! i"
    using i assms
    by (auto simp: GetConnections_nth connectionToEntity_def entityToConnection_def without_handler_def ids_ok_def
        sint_u32_index sint_u32_nat split: option.splits)
qed simp

lemma ipc_GetState_answered:
  "ids_ok uc \<Longrightarrow> ipc_GetState Answered uc = (Inr (map without_handler (GetConnections uc)), uc)"
  by (simp add: ipc_GetState_def server_GetState_def state_crosses del: map_map)

text \<open>The two errors of a start that the window shows in words come back as themselves.\<close>

lemma ipc_Start_answered:
  assumes c: "Connect create start now (sint connID) uc = (err, uc1)" and ok: "ids_ok uc1"
  shows "ipc_Start Answered create start now connID uc =
    (case err of
       None \<Rightarrow> Inr (map without_handler (GetConnections uc1))
     | Some e \<Rightarrow> Inl (if e = ErrMaxConnectionAttempts \<or> e = ErrUnauthorized then EntityError e
                      else StatusError (RpcStatus Internal e)), uc1)"
  using c state_crosses [OF ok]
  by (auto simp: ipc_Start_def server_Start_def server_GetState_def start_error_def split: option.splits)

text \<open>
  A start that takes longer than the minute of the call is shown as too many attempts, while the
  connection is made.
\<close>

theorem slow_start_is_shown_as_failed:
  assumes "manager_inv uc" "0 \<le> sint connID" "sint connID < int (length (cm_Connections uc))"
    and "create (cm_Connections uc ! nat (sint connID)) = None"
  shows "\<exists>uc1. ipc_Start (AnswerLost (RpcStatus DeadlineExceeded (ErrLibrary 0))) create None now connID uc
      = (Inl (EntityError ErrMaxConnectionAttempts), uc1) \<and> length (cm_live uc1) = 1"
  using assms manager_inv_drop [OF assms(1)]
  by (simp add: ipc_Start_def server_Start_def Connect_def Let_def start_error_def server_GetState_def)

end
