(* ===== verification/Gui.thy ===== *)
theory Gui
  imports Requests Rpc
begin

text \<open>
  The use case of the desktop window (\<open>business/usecase/gui.go\<close>), the dispatch of its events
  (\<open>deploy/gui/events.go\<close>), and the window, the RPC and the connection manager together.
\<close>

section \<open>The configuration of the window\<close>

text \<open>
  Of a connection the fields that the window changes; \<open>cc_other\<close> is the rest. The pointers to the server
  and to the user are \<open>None\<close> when nil, as in an imported file that leaves them out.
\<close>

record server_settings =
  ss_Host :: string
  ss_PortMin :: u16
  ss_PortMax :: u16
  ss_UseTCP :: "bool option"
  ss_UseUDP :: "bool option"

record user_settings =
  us_Name :: string
  us_Password :: string

record 'x gui_connection =
  cc_Name :: string
  cc_Server :: "server_settings option"
  cc_User :: "user_settings option"
  cc_other :: 'x

record 'x gui_config =
  cg_Connections :: "'x gui_connection list"
  cg_ShutdownClientOnExit :: "bool option"

section \<open>Requests and answers\<close>

datatype 'x gui_request =
    Initialization "'x gui_config" "connection_info list option" \<comment> \<open>a nil state: the call for it failed\<close>
  | InitializationError ipc_error
  | StatisticRequest "(int, statistic) gomap"
  | LoggerRequest string

datatype gui_payload = NoPayload | StatePayload "connection_info list" | LinesPayload "string list"

record gui_response =
  gr_Payload :: gui_payload
  gr_Error :: "ipc_error option" \<comment> \<open>its text is sent\<close>

definition gui_ok :: "gui_payload \<Rightarrow> gui_response" where
  "gui_ok p = \<lparr>gr_Payload = p, gr_Error = None\<rparr>"

definition gui_error :: "ipc_error \<Rightarrow> gui_response" where
  "gui_error e = \<lparr>gr_Payload = NoPayload, gr_Error = Some e\<rparr>"

record 'x gui_usecase =
  gu_cfg :: "'x gui_config"
  gu_messageCh :: "'x gui_request list"

text \<open>The two processes.\<close>

record 'x desktop =
  d_gui :: "'x gui_usecase"
  d_manager :: "'x gui_connection conn_manager"

text \<open>
  \<open>json.Marshal\<close> and \<open>json.Unmarshal\<close> of a configuration, the conversions of floats, and \<open>createConnection\<close>.
\<close>

record ('x, 'j) gui_world =
  gw_marshal :: "'x gui_config \<Rightarrow> gerror + 'j"
  gw_unmarshal :: "'j \<Rightarrow> gerror + 'x gui_config"
  gw_floats :: float_conv
  gw_create :: "'x gui_connection \<Rightarrow> gerror option"

section \<open>Commands\<close>

definition sendInitialization :: "'x gui_config \<Rightarrow> connection_info list option \<Rightarrow> ipc_error option \<Rightarrow> 'x gui_usecase \<Rightarrow> 'x gui_usecase" where
  "sendInitialization cfg state err uc =
     uc\<lparr>gu_messageCh := gu_messageCh uc @ [case err of Some e \<Rightarrow> InitializationError e | None \<Rightarrow> Initialization cfg state]\<rparr>"

definition manager_unmarshal :: "('x, 'j) gui_world \<Rightarrow> 'j \<Rightarrow> gerror + 'x gui_connection list" where
  "manager_unmarshal w j = map_sum id cg_Connections (gw_unmarshal w j)"

text \<open>\<open>updateConfig\<close>: two calls with their fates. An error of the second is logged.\<close>

definition updateConfig :: "('x, 'j) gui_world \<Rightarrow> fate \<Rightarrow> fate \<Rightarrow> 'x desktop \<Rightarrow> ipc_error option \<times> 'x desktop" where
  "updateConfig w ft1 ft2 d =
     (case gw_marshal w (gu_cfg (d_gui d)) of
        Inl e \<Rightarrow> (Some (EntityError e), d)
      | Inr data \<Rightarrow>
          (let (err, m1) = ipc_UpdateConfig ft1 (manager_unmarshal w data) (d_manager d)
           in case err of
             Some e \<Rightarrow> (Some e, d\<lparr>d_manager := m1\<rparr>)
           | None \<Rightarrow>
               (let (state, m2) = ipc_GetState ft2 m1
                in (None, d\<lparr>d_gui := sendInitialization (gu_cfg (d_gui d)) (case state of Inl _ \<Rightarrow> None | Inr s \<Rightarrow> Some s) None (d_gui d),
                            d_manager := m2\<rparr>))))"

definition respond :: "ipc_error option \<times> 'x desktop \<Rightarrow> gui_response \<times> 'x desktop" where
  "respond = (\<lambda>(err, d). (case err of Some e \<Rightarrow> gui_error e | None \<Rightarrow> gui_ok NoPayload, d))"

definition CommandConnect :: "('x, 'j) gui_world \<Rightarrow> fate \<Rightarrow> gerror option \<Rightarrow> int \<Rightarrow> request_payload \<Rightarrow> 'x desktop
    \<Rightarrow> (gerror, gui_response \<times> 'x desktop) res" where
  "CommandConnect w ft start now payload d =
     rbind (ConnectRequest_Model (gw_floats w) payload new_connect_request) (\<lambda>req.
       let (r, m) = (if cr_IsConnect req
                     then ipc_Start ft (gw_create w) start now (cr_ConnID req) (d_manager d)
                     else ipc_Stop ft (cr_ConnID req) (d_manager d))
       in Ok (case r of Inl e \<Rightarrow> gui_error e | Inr state \<Rightarrow> gui_ok (StatePayload state), d\<lparr>d_manager := m\<rparr>))"

definition wrong_index :: "u32 \<Rightarrow> 'x gui_usecase \<Rightarrow> bool" where
  "wrong_index connID uc \<longleftrightarrow> sint connID \<ge> int (length (cg_Connections (gu_cfg uc))) \<or> sint connID < 0"

definition set_Connections :: "'x gui_connection list \<Rightarrow> 'x desktop \<Rightarrow> 'x desktop" where
  "set_Connections cs d = d\<lparr>d_gui := (d_gui d)\<lparr>gu_cfg := (gu_cfg (d_gui d))\<lparr>cg_Connections := cs\<rparr>\<rparr>\<rparr>"

text \<open>The assignments to one connection; the fields of a nil server or user cannot be assigned.\<close>

definition update_connection :: "update_connection_request \<Rightarrow> 'x gui_connection \<Rightarrow> (gerror, 'x gui_connection) res" where
  "update_connection req c =
     rbind (deref (cc_Server c)) (\<lambda>s. rbind (deref (cc_User c)) (\<lambda>u.
       Ok (c\<lparr>cc_Name := ur_Name req,
             cc_Server := Some (s\<lparr>ss_Host := ur_ServerHost req, ss_PortMin := ur_PortMin req, ss_PortMax := ur_PortMax req,
                ss_UseTCP := ur_UseTCP req, ss_UseUDP := ur_UseUDP req\<rparr>),
             cc_User := Some (u\<lparr>us_Name := ur_Username req, us_Password := ur_Password req\<rparr>)\<rparr>)))"

definition CommandConnectionUpdate :: "('x, 'j) gui_world \<Rightarrow> fate \<Rightarrow> fate \<Rightarrow> request_payload \<Rightarrow> 'x desktop
    \<Rightarrow> (gerror, gui_response \<times> 'x desktop) res" where
  "CommandConnectionUpdate w ft1 ft2 payload d =
     rbind (UpdateConnectionRequest_Model (gw_floats w) payload new_update_request) (\<lambda>req.
       if wrong_index (ur_ConnID req) (d_gui d) then Ok (gui_error (EntityError ErrValidation), d)
       else (let i = nat (sint (ur_ConnID req)); cs = cg_Connections (gu_cfg (d_gui d))
             in rbind (update_connection req (cs ! i)) (\<lambda>c.
                  Ok (respond (updateConfig w ft1 ft2 (set_Connections (cs[i := c]) d))))))"

definition CommandConnectionDelete :: "('x, 'j) gui_world \<Rightarrow> fate \<Rightarrow> fate \<Rightarrow> request_payload \<Rightarrow> 'x desktop
    \<Rightarrow> (gerror, gui_response \<times> 'x desktop) res" where
  "CommandConnectionDelete w ft1 ft2 payload d =
     rbind (DeleteConnectionRequest_Model (gw_floats w) payload \<lparr>dr_ConnID = 0\<rparr>) (\<lambda>req.
       if wrong_index (dr_ConnID req) (d_gui d) then Ok (gui_error (EntityError ErrValidation), d)
       else (let i = nat (sint (dr_ConnID req)); cs = cg_Connections (gu_cfg (d_gui d))
             in Ok (respond (updateConfig w ft1 ft2 (set_Connections (take i cs @ drop (Suc i) cs) d)))))"

text \<open>\<open>read\<close> is what reading the named file and decoding it as YAML gives.\<close>

definition CommandConnectionImport :: "('x, 'j) gui_world \<Rightarrow> (string \<Rightarrow> gerror + 'x gui_connection) \<Rightarrow> fate \<Rightarrow> fate \<Rightarrow> request_payload
    \<Rightarrow> 'x desktop \<Rightarrow> (gerror, gui_response \<times> 'x desktop) res" where
  "CommandConnectionImport w read ft1 ft2 payload d =
     rbind (ImportConnectionRequest_Model payload \<lparr>ir_File = ''''\<rparr>) (\<lambda>req.
       case read (ir_File req) of
         Inl e \<Rightarrow> Ok (gui_error (EntityError e), d)
       | Inr conn \<Rightarrow> Ok (respond (updateConfig w ft1 ft2 (set_Connections (cg_Connections (gu_cfg (d_gui d)) @ [conn]) d))))"

definition maxLogFileLines :: nat where [simp]: "maxLogFileLines = 1000"

definition CommandLogsGet :: "gerror + string list \<Rightarrow> gui_response" where
  \<comment> \<open>the lines that the scanner gives\<close>
  "CommandLogsGet file =
     (case file of
        Inl e \<Rightarrow> gui_error (EntityError e)
      | Inr lines \<Rightarrow> (let l = length lines in gui_ok (LinesPayload (if l > maxLogFileLines then drop (l - maxLogFileLines) lines else lines))))"

text \<open>\<open>Shutdown\<close> dereferences the setting after a successful update.\<close>

definition gui_Shutdown :: "('x, 'j) gui_world \<Rightarrow> fate \<Rightarrow> fate \<Rightarrow> 'x desktop \<Rightarrow> (gerror, 'x desktop) res" where
  "gui_Shutdown w ft1 ft2 d =
     (case gw_marshal w (gu_cfg (d_gui d)) of
        Inl e \<Rightarrow> Ok d
      | Inr data \<Rightarrow>
          (let (err, m1) = ipc_UpdateConfig ft1 (manager_unmarshal w data) (d_manager d); d1 = d\<lparr>d_manager := m1\<rparr>
           in if err \<noteq> None then Ok d1
              else rbind (deref (cg_ShutdownClientOnExit (gu_cfg (d_gui d)))) (\<lambda>b.
                if \<not> b then Ok d1
                else Ok (d1\<lparr>d_manager := snd (ipc_Shutdown ft2 m1)\<rparr>))))"

section \<open>Events of the window\<close>

text \<open>What the environment does during one event.\<close>

record 'x gui_turn =
  gt_fate1 :: fate
  gt_fate2 :: fate
  gt_start :: "gerror option"
  gt_now :: int
  gt_read :: "string \<Rightarrow> gerror + 'x gui_connection"
  gt_log :: "gerror + string list"

definition payload_of :: "json option \<Rightarrow> (gerror, request_payload) res" where
  \<comment> \<open>\<open>r.Payload.(map[string]interface{})\<close> of a payload that is not nil\<close>
  "payload_of p =
     (case p of
        None \<Rightarrow> Ok None
      | Some JNull \<Rightarrow> Ok None
      | Some (JObject m) \<Rightarrow> Ok (Some m)
      | Some _ \<Rightarrow> Panic)"

definition eventsHandler :: "('x, 'j) gui_world \<Rightarrow> 'x gui_turn \<Rightarrow> string \<Rightarrow> json option \<Rightarrow> 'x desktop
    \<Rightarrow> (gerror, gui_response \<times> 'x desktop) res" where
  "eventsHandler w t cmd p d =
     rbind (payload_of p) (\<lambda>payload.
       if cmd = ''connection.connect'' then CommandConnect w (gt_fate1 t) (gt_start t) (gt_now t) payload d
       else if cmd = ''connection.update'' then CommandConnectionUpdate w (gt_fate1 t) (gt_fate2 t) payload d
       else if cmd = ''connection.delete'' then CommandConnectionDelete w (gt_fate1 t) (gt_fate2 t) payload d
       else if cmd = ''connection.import'' then CommandConnectionImport w (gt_read t) (gt_fate1 t) (gt_fate2 t) payload d
       else if cmd = ''logs.get'' then Ok (CommandLogsGet (gt_log t), d)
       else Ok (gui_ok NoPayload, d))"

fun desktop_run :: "('x, 'j) gui_world \<Rightarrow> ('x gui_turn \<times> string \<times> json option) list \<Rightarrow> 'x desktop \<Rightarrow> (gerror, 'x desktop) res" where
  "desktop_run w [] d = Ok d"
| "desktop_run w ((t, cmd, p) # evs) d = rbind (eventsHandler w t cmd p d) (\<lambda>(resp, d1). desktop_run w evs d1)"

section \<open>The start of the window\<close>

text \<open>
  \<open>answers n\<close> is what the call number \<open>n\<close> of \<open>GetState\<close> gives, \<open>run\<close> what \<open>runClient\<close> returns. A
  \<open>select\<close> with a \<open>default\<close> does not wait for its timer, which has just been made: the loop that asks
  again is entered at once, and it may not end.
\<close>

partial_function (option) wait_client :: "(nat \<Rightarrow> ipc_error + 's) \<Rightarrow> nat \<Rightarrow> 's option" where
  "wait_client answers n = (case answers n of Inr state \<Rightarrow> Some state | Inl e \<Rightarrow> wait_client answers (Suc n))"

definition gui_init :: "(nat \<Rightarrow> ipc_error + connection_info list) \<Rightarrow> ipc_error option \<Rightarrow> 'x gui_usecase \<Rightarrow> (bool \<times> 'x gui_usecase) option" where
  \<comment> \<open>with whether the stream of statistics is asked for\<close>
  "gui_init answers run uc =
     (case answers 0 of
        Inr state \<Rightarrow> Some (True, sendInitialization (gu_cfg uc) (Some state) None uc)
      | Inl e \<Rightarrow>
          (if e = EntityError ErrGrpcServerUnavailable then
             (case run of
                Some e1 \<Rightarrow> Some (False, uc)
              | None \<Rightarrow> map_option (\<lambda>state. (True, sendInitialization (gu_cfg uc) (Some state) None uc)) (wait_client answers 1))
           else Some (False, sendInitialization (gu_cfg uc) None (Some e) uc)))"

definition statisticHandler :: "(int, statistic) gomap list \<Rightarrow> 'x gui_usecase \<Rightarrow> 'x gui_usecase" where
  \<comment> \<open>what the channel gives until it is closed\<close>
  "statisticHandler ch uc = uc\<lparr>gu_messageCh := gu_messageCh uc @ map StatisticRequest ch\<rparr>"

definition loggerHandler :: "string list \<Rightarrow> 'x gui_usecase \<Rightarrow> 'x gui_usecase" where
  "loggerHandler ch uc = uc\<lparr>gu_messageCh := gu_messageCh uc @ map LoggerRequest ch\<rparr>"

lemma wait_client_first:
  "answers n = Inr s \<Longrightarrow> \<forall>k. m \<le> k \<and> k < n \<longrightarrow> isl (answers k) \<Longrightarrow> m \<le> n \<Longrightarrow> wait_client answers m = Some s"
proof (induction "n - m" arbitrary: m)
  case 0
  then show ?case by (simp add: wait_client.simps)
next
  case (Suc x)
  then have "m < n" by simp
  then obtain e where "answers m = Inl e" using Suc.prems(2) by (cases "answers m") auto
  then show ?case using Suc.hyps(1) [of "Suc m"] Suc by (simp add: wait_client.simps [of answers m])
qed

lemma wait_client_Some:
  assumes "wait_client answers m = Some s"
  shows "\<exists>n \<ge> m. answers n = Inr s"
proof (rule wait_client.raw_induct [where P = "\<lambda>answers m s. \<exists>n \<ge> m. answers n = Inr s", OF _ assms])
  fix wait answers n y
  assume ih: "\<And>answers n y. wait answers n = Some y \<Longrightarrow> \<exists>k \<ge> n. answers k = Inr y"
    and step: "(case answers n of Inl e \<Rightarrow> wait answers (Suc n) | Inr state \<Rightarrow> Some state) = Some y"
  show "\<exists>k \<ge> n. answers k = Inr y"
  proof (cases "answers n")
    case (Inl e)
    then have "wait answers (Suc n) = Some y" using step by simp
    from ih [OF this] show ?thesis using Suc_leD by blast
  qed (use step in auto)
qed

text \<open>
  The client does not run when the window starts, and is started. Then the first call that is answered
  is shown in the window, however many fail before, and the window asks for the statistics; when no call
  is ever answered the start does not end, and nothing is shown: the ten seconds of \<open>clientWaitingTime\<close>
  have no effect.
\<close>

theorem window_waits_for_client:
  assumes "answers 0 = Inl (EntityError ErrGrpcServerUnavailable)"
  shows "(answers n = Inr s \<and> (\<forall>k<n. isl (answers k)) \<longrightarrow>
        gui_init answers None uc = Some (True, uc\<lparr>gu_messageCh := gu_messageCh uc @ [Initialization (gu_cfg uc) (Some s)]\<rparr>))
    \<and> ((\<forall>k. isl (answers k)) \<longleftrightarrow> gui_init answers None uc = None)"
proof (intro conjI impI)
  assume n: "answers n = Inr s \<and> (\<forall>k<n. isl (answers k))"
  then have "1 \<le> n" using assms by (cases n) auto
  then have "wait_client answers 1 = Some s" using wait_client_first [of answers n s 1] n by blast
  then show "gui_init answers None uc = Some (True, uc\<lparr>gu_messageCh := gu_messageCh uc @ [Initialization (gu_cfg uc) (Some s)]\<rparr>)"
    by (simp add: gui_init_def assms sendInitialization_def)
next
  have none: "gui_init answers None uc = None \<longleftrightarrow> wait_client answers 1 = None" by (simp add: gui_init_def assms)
  show "(\<forall>k. isl (answers k)) \<longleftrightarrow> gui_init answers None uc = None"
  proof
    assume all: "\<forall>k. isl (answers k)"
    show "gui_init answers None uc = None"
    proof (cases "wait_client answers 1")
      case (Some s)
      then obtain k where "answers k = Inr s" using wait_client_Some [OF Some] by auto
      then show ?thesis using spec [OF all, of k] by simp
    qed (simp add: none)
  next
    assume "gui_init answers None uc = None"
    then have never: "wait_client answers 1 = None" by (simp add: none)
    show "\<forall>k. isl (answers k)"
    proof (rule ccontr)
      assume "\<not> (\<forall>k. isl (answers k))"
      then obtain k where "\<not> isl (answers k)" by blast
      define m where "m = (LEAST k. \<not> isl (answers k))"
      have "\<not> isl (answers m)" "\<forall>k<m. isl (answers k)"
        unfolding m_def using LeastI [of "\<lambda>k. \<not> isl (answers k)", OF \<open>\<not> isl (answers k)\<close>] not_less_Least by blast+
      moreover from this(1) have "1 \<le> m" using assms by (cases m) auto
      ultimately show False using wait_client_first [of answers m "projr (answers m)" 1] never by (simp add: sum.collapse)
    qed
  qed
qed

lemma window_waits_for_client_witness:
  "let answers = (\<lambda>k::nat. if k < 3 then Inl (EntityError ErrGrpcServerUnavailable) else Inr [])
   in gui_init answers None \<lparr>gu_cfg = \<lparr>cg_Connections = [] :: unit gui_connection list, cg_ShutdownClientOnExit = None\<rparr>, gu_messageCh = []\<rparr> \<noteq> None"
  using window_waits_for_client [of "\<lambda>k. if k < 3 then Inl (EntityError ErrGrpcServerUnavailable) else Inr []" 3 "[]"
      "\<lparr>gu_cfg = \<lparr>cg_Connections = [] :: unit gui_connection list, cg_ShutdownClientOnExit = None\<rparr>, gu_messageCh = []\<rparr>"]
  by (auto simp: Let_def)

end
