(* ===== verification/GuiProps.thy ===== *)
theory GuiProps
  imports Gui
begin

text \<open>
  The window and the client together: their configurations, what a connect shows, and what a delete does
  to a connection that is in use.
\<close>

section \<open>Two copies of the configuration\<close>

text \<open>
  The law of the JSON library: a configuration is encoded, and decoding gives it back.
\<close>

definition json_law :: "('x, 'j) gui_world \<Rightarrow> bool" where
  "json_law w \<longleftrightarrow> (\<forall>c. \<exists>j. gw_marshal w c = Inr j \<and> gw_unmarshal w j = Inr c)"

definition same_config :: "'x desktop \<Rightarrow> bool" where
  "same_config d \<longleftrightarrow> cm_Connections (d_manager d) = cg_Connections (gu_cfg (d_gui d))"

definition changes_config :: "string \<Rightarrow> bool" where
  "changes_config cmd \<longleftrightarrow> cmd \<in> {''connection.update'', ''connection.delete'', ''connection.import''}"

lemma GetState_keeps: "ipc_GetState ft m = (state, m1) \<Longrightarrow> m1 = m"
  by (cases ft) (auto simp: ipc_GetState_def server_GetState_def)

lemma server_UpdateConfig_Inr:
  "server_UpdateConfig (Inr cs) m = (Inr (), m\<lparr>cm_Connections := cs, cm_saved := cm_saved m @ [cs]\<rparr>)"
  by (simp add: server_UpdateConfig_def UpdateConfig_def)

text \<open>An update that reports no error has reached the client.\<close>

lemma updateConfig_ok:
  assumes law: "json_law w" and u: "updateConfig w ft1 ft2 d = (None, d1)"
  shows "d_manager d1 = (d_manager d)\<lparr>cm_Connections := cg_Connections (gu_cfg (d_gui d)),
      cm_saved := cm_saved (d_manager d) @ [cg_Connections (gu_cfg (d_gui d))]\<rparr>
    \<and> gu_cfg (d_gui d1) = gu_cfg (d_gui d)"
proof -
  obtain j where j: "gw_marshal w (gu_cfg (d_gui d)) = Inr j" "gw_unmarshal w j = Inr (gu_cfg (d_gui d))"
    using law unfolding json_law_def by blast
  show ?thesis
    using u
    by (cases ft1)
      (auto simp: updateConfig_def j manager_unmarshal_def ipc_UpdateConfig_def server_UpdateConfig_Inr
        sendInitialization_def Let_def split: prod.splits dest!: GetState_keeps)
qed

lemma updateConfig_answered:
  assumes law: "json_law w"
  shows "fst (updateConfig w Answered ft2 d) = None"
proof -
  obtain j where j: "gw_marshal w (gu_cfg (d_gui d)) = Inr j" "gw_unmarshal w j = Inr (gu_cfg (d_gui d))"
    using law unfolding json_law_def by blast
  show ?thesis
    by (simp add: updateConfig_def j manager_unmarshal_def ipc_UpdateConfig_def server_UpdateConfig_Inr Let_def split: prod.split)
qed

lemma set_Connections_simps [simp]:
  "d_manager (set_Connections cs d) = d_manager d" "cg_Connections (gu_cfg (d_gui (set_Connections cs d))) = cs"
  by (simp_all add: set_Connections_def)

lemma respond_error [simp]: "respond (err, d) = (r, d1) \<longleftrightarrow> d1 = d \<and> r = (case err of Some e \<Rightarrow> gui_error e | None \<Rightarrow> gui_ok NoPayload)"
  by (auto simp: respond_def)

text \<open>What the three commands that change the configuration have in common.\<close>

definition is_update :: "('x, 'j) gui_world \<Rightarrow> 'x gui_turn \<Rightarrow> 'x desktop \<Rightarrow> gui_response \<Rightarrow> 'x desktop \<Rightarrow> bool" where
  "is_update w t d resp d1 \<longleftrightarrow> (gr_Error resp \<noteq> None \<and> d1 = d)
     \<or> (\<exists>cs. updateConfig w (gt_fate1 t) (gt_fate2 t) (set_Connections cs d) = (gr_Error resp, d1))"

lemma gr_Error_simps [simp]: "gr_Error (gui_error e) = Some e" "gr_Error (gui_ok x) = None"
  by (simp_all add: gui_error_def gui_ok_def)

lemma is_update_error [simp]: "is_update w t d (gui_error e) d"
  by (simp add: is_update_def)

lemma is_update_respond:
  assumes "respond (updateConfig w (gt_fate1 t) (gt_fate2 t) (set_Connections cs d)) = (resp, d1)"
  shows "is_update w t d resp d1"
proof -
  obtain err where "updateConfig w (gt_fate1 t) (gt_fate2 t) (set_Connections cs d) = (err, d1)" "gr_Error resp = err"
    using assms by (cases "updateConfig w (gt_fate1 t) (gt_fate2 t) (set_Connections cs d)") (auto split: option.splits)
  then show ?thesis by (auto simp: is_update_def)
qed

lemma change_is_update:
  assumes "eventsHandler w t cmd p d = Ok (resp, d1)" "changes_config cmd"
  shows "is_update w t d resp d1"
proof -
  have "is_update w t d resp d1" if "CommandConnectionUpdate w (gt_fate1 t) (gt_fate2 t) payload d = Ok (resp, d1)" for payload
    using that by (auto simp: CommandConnectionUpdate_def res_simps Let_def split: if_splits intro: is_update_respond)
  moreover have "is_update w t d resp d1" if "CommandConnectionDelete w (gt_fate1 t) (gt_fate2 t) payload d = Ok (resp, d1)" for payload
    using that by (auto simp: CommandConnectionDelete_def res_simps Let_def split: if_splits intro: is_update_respond)
  moreover have "is_update w t d resp d1" if i: "CommandConnectionImport w (gt_read t) (gt_fate1 t) (gt_fate2 t) payload d = Ok (resp, d1)" for payload
  proof -
    from i obtain req where req: "(case gt_read t (ir_File (req :: import_connection_request)) of
         Inl e \<Rightarrow> Ok (gui_error (EntityError e), d)
       | Inr conn \<Rightarrow> Ok (respond (updateConfig w (gt_fate1 t) (gt_fate2 t) (set_Connections (cg_Connections (gu_cfg (d_gui d)) @ [conn]) d))))
       = (Ok (resp, d1) :: (gerror, gui_response \<times> _) res)"
      by (auto simp: CommandConnectionImport_def res_simps)
    show ?thesis
    proof (cases "gt_read t (ir_File req)")
      case (Inr conn)
      then show ?thesis using req by (auto intro: is_update_respond)
    qed (use req in auto)
  qed
  ultimately show ?thesis
    using assms by (auto simp: eventsHandler_def changes_config_def res_simps split: if_splits)
qed

lemma change_without_error:
  assumes "json_law w" "eventsHandler w t cmd p d = Ok (resp, d1)" "changes_config cmd" "gr_Error resp = None"
  shows "same_config d1 \<and> cm_saved (d_manager d1) = cm_saved (d_manager d) @ [cg_Connections (gu_cfg (d_gui d1))]"
  using change_is_update [OF assms(2,3)] assms(4) updateConfig_ok [OF assms(1)]
  by (fastforce simp: same_config_def is_update_def)


text \<open>The other commands leave both configurations alone.\<close>

lemma Connect_keeps_config: "Connect create start now i m = (r, m1) \<Longrightarrow> cm_Connections m1 = cm_Connections m"
  by (auto simp: Connect_def drop_first_def handler_Exit_def Let_def split: if_splits option.splits list.splits prod.splits)

lemma Disconnect_keeps_config: "Disconnect i m = (r, m1) \<Longrightarrow> cm_Connections m1 = cm_Connections m"
  by (auto simp: Disconnect_def handler_Exit_def split: option.splits)

lemma rpc_call_keeps:
  assumes "\<And>s r s1. handler s = (r, s1) \<Longrightarrow> f s1 = f s" and "rpc_call ft handler s = (r, s1)"
  shows "f s1 = f s"
  using assms(2) assms(1) [of s] by (cases ft; cases "handler s") auto

lemma ipc_keeps_config:
  "ipc_Start ft create start now i m = (r, m1) \<Longrightarrow> cm_Connections m1 = cm_Connections m"
  "ipc_Stop ft i m = (r1, m1) \<Longrightarrow> cm_Connections m1 = cm_Connections m"
proof -
  assume "ipc_Start ft create start now i m = (r, m1)"
  then obtain r0 where "rpc_call ft (server_Start create start now i) m = (r0, m1)"
    by (cases "rpc_call ft (server_Start create start now i) m") (simp add: ipc_Start_def)
  then show "cm_Connections m1 = cm_Connections m"
    by (rule rpc_call_keeps [rotated])
      (auto simp: server_Start_def server_GetState_def Let_def split: prod.splits if_splits option.splits dest: Connect_keeps_config)
next
  assume "ipc_Stop ft i m = (r1, m1)"
  then obtain r0 where "rpc_call ft (server_Stop i) m = (r0, m1)"
    by (cases "rpc_call ft (server_Stop i) m") (simp add: ipc_Stop_def)
  then show "cm_Connections m1 = cm_Connections m"
    by (rule rpc_call_keeps [rotated])
      (auto simp: server_Stop_def server_GetState_def Let_def split: prod.splits option.splits dest: Disconnect_keeps_config)
qed

lemma CommandConnect_keeps:
  "CommandConnect w ft start now payload d = Ok (resp, d1)
     \<Longrightarrow> cm_Connections (d_manager d1) = cm_Connections (d_manager d) \<and> d_gui d1 = d_gui d"
  by (auto simp: CommandConnect_def res_simps split: if_splits prod.splits dest!: ipc_keeps_config)

lemma other_command_keeps:
  assumes "eventsHandler w t cmd p d = Ok (resp, d1)" "\<not> changes_config cmd"
  shows "cm_Connections (d_manager d1) = cm_Connections (d_manager d) \<and> d_gui d1 = d_gui d"
proof -
  have cmd: "cmd \<noteq> ''connection.update''" "cmd \<noteq> ''connection.delete''" "cmd \<noteq> ''connection.import''"
    using assms(2) by (simp_all only: changes_config_def insert_iff de_Morgan_disj not_False_eq_True)
  from assms(1) obtain payload where
    "(if cmd = ''connection.connect'' then CommandConnect w (gt_fate1 t) (gt_start t) (gt_now t) payload d
      else if cmd = ''logs.get'' then Ok (CommandLogsGet (gt_log t), d) else Ok (gui_ok NoPayload, d)) = Ok (resp, d1)"
    unfolding eventsHandler_def by (auto simp only: rbind_eq_Ok cmd if_False)
  then consider "CommandConnect w (gt_fate1 t) (gt_start t) (gt_now t) payload d = Ok (resp, d1)" | "d1 = d"
    by (simp only: split: if_splits) auto
  then show ?thesis
  proof cases
    case 1
    then show ?thesis by (rule CommandConnect_keeps)
  qed simp
qed

text \<open>As long as the changes are answered, the two configurations agree after every event.\<close>

theorem configurations_agree:
  assumes "json_law w" "desktop_run w evs d = Ok d1" "same_config d"
    and "\<forall>(t, cmd, p) \<in> set evs. changes_config cmd \<longrightarrow> gt_fate1 t = Answered"
  shows "same_config d1"
  using assms(2-4)
proof (induction evs arbitrary: d)
  case (Cons ev evs)
  obtain t cmd p where ev: "ev = (t, cmd, p)" by (cases ev)
  from Cons.prems(1) obtain resp d2 where d2: "eventsHandler w t cmd p d = Ok (resp, d2)" "desktop_run w evs d2 = Ok d1"
    by (auto simp: ev res_simps)
  have "same_config d2"
  proof (cases "changes_config cmd")
    case True
    with Cons.prems(3) have "gt_fate1 t = Answered" by (simp add: ev)
    note answered = this
    from change_is_update [OF d2(1) True] consider "d2 = d"
      | cs where "updateConfig w (gt_fate1 t) (gt_fate2 t) (set_Connections cs d) = (gr_Error resp, d2)"
      unfolding is_update_def by blast
    then have "gr_Error resp = None \<or> d2 = d"
    proof cases
      case 2
      then show ?thesis using updateConfig_answered [OF assms(1), of "gt_fate2 t" "set_Connections cs d"] by (simp add: answered)
    qed simp
    then show ?thesis using change_without_error [OF assms(1) d2(1) True] Cons.prems(2) by blast
  next
    case False
    then show ?thesis using other_command_keeps [OF d2(1)] Cons.prems(2) by (simp add: same_config_def)
  qed
  then show ?case using Cons.IH [OF d2(2)] Cons.prems(3) by simp
qed simp

section \<open>A sample desktop\<close>

definition sample_world :: "(unit, unit gui_config) gui_world" where
  "sample_world = \<lparr>gw_marshal = Inr, gw_unmarshal = Inr, gw_floats = \<lparr>fc_int32 = \<lambda>_. 0, fc_uint16 = \<lambda>_. 0\<rparr>, gw_create = \<lambda>_. None\<rparr>"

definition sample_connection :: "string \<Rightarrow> unit gui_connection" where
  "sample_connection name = \<lparr>cc_Name = name,
     cc_Server = Some \<lparr>ss_Host = ''example.org'', ss_PortMin = 1977, ss_PortMax = 1986, ss_UseTCP = Some False, ss_UseUDP = Some True\<rparr>,
     cc_User = Some \<lparr>us_Name = ''user'', us_Password = ''secret''\<rparr>, cc_other = ()\<rparr>"

definition sample_desktop :: "string list \<Rightarrow> unit desktop" where
  "sample_desktop names =
     (let cs = map sample_connection names
      in \<lparr>d_gui = \<lparr>gu_cfg = \<lparr>cg_Connections = cs, cg_ShutdownClientOnExit = Some True\<rparr>, gu_messageCh = []\<rparr>,
          d_manager = NewConnectionManagerUseCase cs\<rparr>)"

definition sample_turn :: "unit gui_turn" where
  "sample_turn = \<lparr>gt_fate1 = Answered, gt_fate2 = Answered, gt_start = None, gt_now = 100,
     gt_read = \<lambda>_. Inr (sample_connection ''imported''), gt_log = Inr []\<rparr>"

lemma json_law_sample: "json_law sample_world"
  by (simp add: json_law_def sample_world_def)

lemma updateConfig_sample:
  "updateConfig sample_world Answered Answered d =
     (None, d\<lparr>d_gui := sendInitialization (gu_cfg (d_gui d))
         (Some (map (connectionToEntity \<circ> entityToConnection) (GetConnections ((d_manager d)\<lparr>cm_Connections := cg_Connections (gu_cfg (d_gui d)),
            cm_saved := cm_saved (d_manager d) @ [cg_Connections (gu_cfg (d_gui d))]\<rparr>)))) None (d_gui d),
       d_manager := (d_manager d)\<lparr>cm_Connections := cg_Connections (gu_cfg (d_gui d)),
            cm_saved := cm_saved (d_manager d) @ [cg_Connections (gu_cfg (d_gui d))]\<rparr>\<rparr>)"
  by (simp add: updateConfig_def sample_world_def manager_unmarshal_def ipc_UpdateConfig_def server_UpdateConfig_Inr
      ipc_GetState_def server_GetState_def Let_def)


section \<open>Connecting from the window\<close>

definition connect_payload :: "nat \<Rightarrow> bool \<Rightarrow> json" where
  "connect_payload n b = JObject [(''id'', JNumber (rat_of_nat n)), (''connect'', JBool b)]"

lemma connect_payload_request:
  "n < 2 ^ 31 \<Longrightarrow> ConnectRequest_Model fc (Some [(''id'', JNumber (rat_of_nat n)), (''connect'', JBool b)]) r
     = Ok (r\<lparr>cr_ConnID := of_nat n, cr_IsConnect := b\<rparr>)"
  by (simp add: ConnectRequest_Model_def read_field_def field_def float_to_int32_nat)

lemma eventsHandler_connect:
  assumes "n < 2 ^ 31"
  shows "eventsHandler w t ''connection.connect'' (Some (connect_payload n b)) d =
    (let (r, m) = (if b then ipc_Start (gt_fate1 t) (gw_create w) (gt_start t) (gt_now t) (of_nat n) (d_manager d)
                   else ipc_Stop (gt_fate1 t) (of_nat n) (d_manager d))
     in Ok (case r of Inl e \<Rightarrow> gui_error e | Inr state \<Rightarrow> gui_ok (StatePayload state), d\<lparr>d_manager := m\<rparr>))"
  using assms by (simp add: eventsHandler_def payload_of_def connect_payload_def CommandConnect_def connect_payload_request
      new_connect_request_def)

lemma Connect_started:
  assumes "manager_inv m" "n < length (cm_Connections m)" "create (cm_Connections m ! n) = None"
  shows "\<exists>m1. Connect create None now (int n) m = (None, m1) \<and> manager_inv m1 \<and> cm_Connections m1 = cm_Connections m
    \<and> length (cm_live m1) = 1
    \<and> (\<exists>h. cm_connections m1 = [(int n, \<lparr>in_ID = int n, in_Handler = Some h, in_IsConnected = True, in_ConnectTs = now\<rparr>)])"
  using assms manager_inv_drop [OF assms(1)]
  by (auto simp: Connect_def Let_def manager_inv_def)

text \<open>
  C37. The button of an entry: the request, the call, the manager and the answer together. When the
  connection starts, the list that the window gets shows exactly that entry as connected, each entry under
  its own identifier, one handler lives, and the configuration of the window is left alone.
\<close>

theorem window_connects:
  assumes inv: "manager_inv (d_manager d)" and n: "n < length (cm_Connections (d_manager d))"
    and bound: "length (cm_Connections (d_manager d)) < 2 ^ 31"
    and create: "gw_create w (cm_Connections (d_manager d) ! n) = None"
    and t: "gt_fate1 t = Answered" "gt_start t = None"
  shows "\<exists>state d1. eventsHandler w t ''connection.connect'' (Some (connect_payload n True)) d = Ok (gui_ok (StatePayload state), d1)
    \<and> map in_ID state = map int [0 ..< length (cm_Connections (d_manager d))]
    \<and> map in_IsConnected state = map (\<lambda>i. i = n) [0 ..< length (cm_Connections (d_manager d))]
    \<and> length (cm_live (d_manager d1)) = 1 \<and> manager_inv (d_manager d1) \<and> d_gui d1 = d_gui d"
proof -
  obtain m1 h where m1: "Connect (gw_create w) None (gt_now t) (int n) (d_manager d) = (None, m1)" "manager_inv m1"
    "cm_Connections m1 = cm_Connections (d_manager d)" "length (cm_live m1) = 1"
    "cm_connections m1 = [(int n, \<lparr>in_ID = int n, in_Handler = Some h, in_IsConnected = True, in_ConnectTs = gt_now t\<rparr>)]"
    using Connect_started [where create = "gw_create w" and now = "gt_now t", OF inv n create] by blast
  have n31: "n < 2 ^ 31" using n bound by simp
  have "ids_ok m1" using m1(2,3) bound manager_inv_ids by metis
  then have "ipc_Start Answered (gw_create w) None (gt_now t) (of_nat n) (d_manager d)
      = (Inr (map without_handler (GetConnections m1)), m1)"
    using ipc_Start_answered [of "gw_create w" None "gt_now t" "of_nat n"] m1(1) sint_u32_nat [OF n31] by simp
  then have "eventsHandler w t ''connection.connect'' (Some (connect_payload n True)) d
      = Ok (gui_ok (StatePayload (map without_handler (GetConnections m1))), d\<lparr>d_manager := m1\<rparr>)"
    by (simp add: eventsHandler_connect [OF n31] t)
  moreover have "map in_ID (map without_handler (GetConnections m1)) = map int [0 ..< length (cm_Connections (d_manager d))]"
    "map in_IsConnected (map without_handler (GetConnections m1)) = map (\<lambda>i. i = n) [0 ..< length (cm_Connections (d_manager d))]"
    by (auto simp: GetConnections_def without_handler_def m1(3,5))
  ultimately show ?thesis using m1(2,4) by auto
qed

lemma window_connects_witness:
  "\<exists>state d1. eventsHandler sample_world sample_turn ''connection.connect'' (Some (connect_payload 1 True)) (sample_desktop [''a'', ''b''])
     = Ok (gui_ok (StatePayload state), d1) \<and> map in_IsConnected state = [False, True]"
proof -
  let ?d = "sample_desktop [''a'', ''b'']"
  have conns: "cm_Connections (d_manager ?d) = map sample_connection [''a'', ''b'']" and inv: "manager_inv (d_manager ?d)"
    by (simp_all add: sample_desktop_def Let_def manager_inv_new) (simp add: NewConnectionManagerUseCase_def)
  have ok: "gw_create sample_world c = None" "gt_fate1 sample_turn = Answered" "gt_start sample_turn = None" for c
    by (simp_all add: sample_world_def sample_turn_def)
  from window_connects [OF inv, of 1 sample_world sample_turn] obtain state d1 where
    "eventsHandler sample_world sample_turn ''connection.connect'' (Some (connect_payload 1 True)) ?d = Ok (gui_ok (StatePayload state), d1)"
    "map in_IsConnected state = [False, True]"
    by (auto simp: conns ok)
  then show ?thesis by (intro exI conjI)
qed

section \<open>Deleting a connection while one is in use\<close>

definition delete_payload :: "nat \<Rightarrow> json" where
  "delete_payload n = JObject [(''id'', JNumber (rat_of_nat n))]"

lemma eventsHandler_delete:
  assumes "i < 2 ^ 31" "i < length (cg_Connections (gu_cfg (d_gui d)))"
  shows "eventsHandler w t ''connection.delete'' (Some (delete_payload i)) d =
    Ok (respond (updateConfig w (gt_fate1 t) (gt_fate2 t)
      (set_Connections (take i (cg_Connections (gu_cfg (d_gui d))) @ drop (Suc i) (cg_Connections (gu_cfg (d_gui d)))) d)))"
  using assms
  by (simp add: eventsHandler_def payload_of_def delete_payload_def CommandConnectionDelete_def DeleteConnectionRequest_Model_def
      read_field_def field_def float_to_int32_nat wrong_index_def sint_u32_nat Let_def)

text \<open>The entries of the configuration move up; the table of the manager keeps the index of its connection.\<close>

lemma delete_answered:
  assumes law: "json_law w" and same: "same_config d" and t: "gt_fate1 t = Answered"
    and i: "i < 2 ^ 31" "i < length (cm_Connections (d_manager d))"
  shows "\<exists>d1. eventsHandler w t ''connection.delete'' (Some (delete_payload i)) d = Ok (gui_ok NoPayload, d1)
    \<and> cm_Connections (d_manager d1) = take i (cm_Connections (d_manager d)) @ drop (Suc i) (cm_Connections (d_manager d))
    \<and> cm_connections (d_manager d1) = cm_connections (d_manager d) \<and> cm_live (d_manager d1) = cm_live (d_manager d)"
proof -
  let ?cs = "cm_Connections (d_manager d)"
  let ?d = "set_Connections (take i ?cs @ drop (Suc i) ?cs) d"
  have cs: "cg_Connections (gu_cfg (d_gui d)) = ?cs" using same by (simp add: same_config_def)
  obtain d1 where d1: "updateConfig w Answered (gt_fate2 t) ?d = (None, d1)"
    using updateConfig_answered [OF law, of "gt_fate2 t" ?d] by (cases "updateConfig w Answered (gt_fate2 t) ?d") simp
  show ?thesis
    using updateConfig_ok [OF law d1] eventsHandler_delete [of i d w t] i d1
    by (simp add: cs t respond_def)
qed

text \<open>
  A connection is in use and an entry at or before it is deleted. The handler lives on. If the entry in
  use was not the last, the list now shows the entry that was after it, the server of another
  configuration, as connected; if it was the last, no entry is shown as connected, and a stop of any entry of
  the list is refused.
\<close>

theorem delete_misplaces_connection:
  assumes law: "json_law w" and same: "same_config d" and t: "gt_fate1 t = Answered" and inv: "manager_inv (d_manager d)"
    and n: "cm_connections (d_manager d) = [(int n, info)]" "n < length (cm_Connections (d_manager d))"
    and bound: "length (cm_Connections (d_manager d)) < 2 ^ 31" and i: "i \<le> n"
  shows "\<exists>d1. eventsHandler w t ''connection.delete'' (Some (delete_payload i)) d = Ok (gui_ok NoPayload, d1)
    \<and> cm_live (d_manager d1) = cm_live (d_manager d) \<and> length (cm_live (d_manager d1)) = 1
    \<and> (if Suc n < length (cm_Connections (d_manager d))
       then in_IsConnected (GetConnections (d_manager d1) ! n)
          \<and> cm_Connections (d_manager d1) ! n = cm_Connections (d_manager d) ! Suc n
       else filter in_IsConnected (GetConnections (d_manager d1)) = []
          \<and> (\<forall>k < length (cm_Connections (d_manager d1)).
               fst (ipc_Stop Answered (of_nat k) (d_manager d1)) = Inl (StatusError (RpcStatus UnknownCode ErrWrongConnectionId))))"
proof -
  let ?m = "d_manager d" and ?cs = "cm_Connections (d_manager d)"
  obtain d1 where d1: "eventsHandler w t ''connection.delete'' (Some (delete_payload i)) d = Ok (gui_ok NoPayload, d1)"
    "cm_Connections (d_manager d1) = take i ?cs @ drop (Suc i) ?cs"
    "cm_connections (d_manager d1) = [(int n, info)]" "cm_live (d_manager d1) = cm_live ?m"
    using delete_answered [OF law same t, of i] i n bound by auto
  have live: "length (cm_live ?m) = 1" and info: "in_IsConnected info" using inv n by (auto simp: manager_inv_def)
  have len: "length (cm_Connections (d_manager d1)) = length ?cs - 1" using i n(2) by (simp add: d1(2))
  have moved: "in_IsConnected (GetConnections (d_manager d1) ! n) \<and> cm_Connections (d_manager d1) ! n = ?cs ! Suc n" if "Suc n < length ?cs"
    using that i by (auto simp: GetConnections_nth len d1(3) info d1(2) nth_append)
  have hidden: "filter in_IsConnected (GetConnections (d_manager d1)) = []" if "\<not> Suc n < length ?cs"
    using that n(2) len by (auto simp: filter_empty_conv GetConnections_def d1(3))
  have refused: "fst (ipc_Stop Answered (of_nat k) (d_manager d1)) = Inl (StatusError (RpcStatus UnknownCode ErrWrongConnectionId))"
    if "\<not> Suc n < length ?cs" "k < length (cm_Connections (d_manager d1))" for k
  proof -
    have "k \<noteq> n" "k < 2 ^ 31" using that n(2) len bound by auto
    then show ?thesis
      by (simp add: ipc_Stop_def server_Stop_def sint_u32_nat Disconnect_def d1(3) server_GetState_def state_error_def)
  qed
  show ?thesis using d1(1,4) live moved hidden refused by auto
qed


definition sample_in_use :: "unit desktop" where
  "sample_in_use = (let d = sample_desktop [''a'', ''b'']
     in d\<lparr>d_manager := (d_manager d)\<lparr>cm_connections := [(1, \<lparr>in_ID = 1, in_Handler = Some 0, in_IsConnected = True, in_ConnectTs = 100\<rparr>)],
       cm_next := 1, cm_live := [0]\<rparr>\<rparr>)"

lemma delete_misplaces_connection_witness:
  "\<exists>d1. eventsHandler sample_world sample_turn ''connection.delete'' (Some (delete_payload 0)) sample_in_use = Ok (gui_ok NoPayload, d1)
     \<and> length (cm_live (d_manager d1)) = 1 \<and> filter in_IsConnected (GetConnections (d_manager d1)) = []"
proof -
  let ?info = "\<lparr>in_ID = 1, in_Handler = Some 0, in_IsConnected = True, in_ConnectTs = 100\<rparr>"
  have same: "same_config sample_in_use" and inv: "manager_inv (d_manager sample_in_use)"
    and n: "cm_connections (d_manager sample_in_use) = [(int 1, ?info)]"
    and conns: "cm_Connections (d_manager sample_in_use) = map sample_connection [''a'', ''b'']"
    by (simp_all add: same_config_def manager_inv_def sample_in_use_def sample_desktop_def NewConnectionManagerUseCase_def Let_def)
  have t: "gt_fate1 sample_turn = Answered" by (simp add: sample_turn_def)
  from delete_misplaces_connection [OF json_law_sample same t inv n, of 0] obtain d1 where
    "eventsHandler sample_world sample_turn ''connection.delete'' (Some (delete_payload 0)) sample_in_use = Ok (gui_ok NoPayload, d1)"
    "length (cm_live (d_manager d1)) = 1" "filter in_IsConnected (GetConnections (d_manager d1)) = []"
    by (auto simp: conns)
  then show ?thesis by (intro exI conjI)
qed

end
