(* ===== verification/ConfigParse.thy ===== *)
theory ConfigParse
  imports Entity Structs
begin

text \<open>
  Reading a configuration (\<open>pkg/config/config.go\<close>): \<open>Parse\<close> walks over a struct by reflection and
  fills what is not set from the tags \<open>default\<close>. The structs of \<open>business/entity/config.go\<close> are
  values of a datatype of Go types here, with their tags.
\<close>

section \<open>Types and values\<close>

datatype go_type =
    TInt nat | TUint nat | TFloat \<comment> \<open>with the width in bits\<close>
  | TString | TBool | TMap | TPtrBool
  | TPtr struct_type
  | TSlice go_type
and struct_type = Struct string "struct_field list"
and struct_field = Field string "string option" go_type \<comment> \<open>name, tag \<open>default\<close>, type\<close>

text \<open>\<open>VNil\<close> is a nil pointer, slice or map; the contents of a map are not looked at.\<close>

datatype go_value =
    VInt int | VUint nat | VFloat rat | VString string | VBool bool
  | VNil | VMap nat | VPtrBool bool | VPtr "go_value list" | VSlice "go_value list"

definition IsZero :: "go_value \<Rightarrow> bool" where
  "IsZero v \<longleftrightarrow> v \<in> {VInt 0, VUint 0, VFloat 0, VString '''', VBool False, VNil}"

fun is_ptr :: "go_type \<Rightarrow> bool" where
  "is_ptr TPtrBool = True"
| "is_ptr (TPtr _) = True"
| "is_ptr _ = False"

fun is_slice :: "go_type \<Rightarrow> bool" where
  "is_slice (TSlice _) = True"
| "is_slice _ = False"

fun zero_value :: "go_type \<Rightarrow> go_value" where
  "zero_value (TInt _) = VInt 0"
| "zero_value (TUint _) = VUint 0"
| "zero_value TFloat = VFloat 0"
| "zero_value TString = VString ''''"
| "zero_value TBool = VBool False"
| "zero_value _ = VNil"

fun zero_fields :: "struct_type \<Rightarrow> go_value list" where
  "zero_fields (Struct _ fs) = map (\<lambda>f. case f of Field _ _ t \<Rightarrow> zero_value t) fs"

section \<open>Numbers and words of a tag\<close>

text \<open>\<open>strconv.ParseUint\<close> and \<open>strconv.ParseInt\<close> with base 10.\<close>

fun decimal :: "nat \<Rightarrow> string \<Rightarrow> nat option" where
  "decimal acc [] = Some acc"
| "decimal acc (c # cs) =
     (let d = of_char c :: nat in if 48 \<le> d \<and> d \<le> 57 then decimal (10 * acc + (d - 48)) cs else None)"

definition ParseUint :: "string \<Rightarrow> nat \<Rightarrow> nat option" where
  "ParseUint s bits =
     (if s = '''' then None
      else case decimal 0 s of None \<Rightarrow> None | Some n \<Rightarrow> if n < 2 ^ bits then Some n else None)"

definition ParseInt :: "string \<Rightarrow> nat \<Rightarrow> int option" where
  "ParseInt s bits =
     (case s of
        [] \<Rightarrow> None
      | c # cs \<Rightarrow>
          (let neg = (c = CHR ''-''); digits = (if neg \<or> c = CHR ''+'' then cs else s)
           in if digits = '''' then None
              else case decimal 0 digits of
                None \<Rightarrow> None
              | Some n \<Rightarrow>
                  (let i = (if neg then - int n else int n)
                   in if - (2 ^ (bits - 1)) \<le> i \<and> i < 2 ^ (bits - 1) then Some i else None)))"

text \<open>\<open>strings.ToLower(value) == "true"\<close>; no letter outside ASCII becomes one of these.\<close>

definition lower :: "char \<Rightarrow> char" where
  "lower c = (let n = of_char c :: nat in if 65 \<le> n \<and> n \<le> 90 then char_of (n + 32) else c)"

definition is_true :: "string \<Rightarrow> bool" where
  "is_true value \<longleftrightarrow> map lower value = ''true''"

text \<open>\<open>strings.Split(value, ",")\<close>.\<close>

fun split_comma :: "string \<Rightarrow> string list" where
  "split_comma [] = ['''']"
| "split_comma (c # cs) =
     (if c = CHR '','' then '''' # split_comma cs
      else case split_comma cs of [] \<Rightarrow> [[c]] | w # ws \<Rightarrow> (c # w) # ws)"

section \<open>Parse\<close>

datatype config_error = RequiredParameter string string | NumberError string

type_synonym float_parser = "string \<Rightarrow> rat option" \<comment> \<open>\<open>strconv.ParseFloat\<close>\<close>

definition isSet :: "go_type \<Rightarrow> go_value \<Rightarrow> bool" where
  "isSet t v \<longleftrightarrow> (t = TPtrBool \<and> v \<noteq> VNil) \<or> (\<not> is_ptr t \<and> \<not> is_slice t \<and> \<not> IsZero v)"

text \<open>
  \<open>Parse\<close> of a struct goes over its fields, \<open>setValue\<close> over the type of one field. A nil pointer among
  the elements of a slice, and an element that is not a pointer to a struct, panic in the library
  \<open>reflect\<close>.
\<close>

fun Parse :: "float_parser \<Rightarrow> struct_type \<Rightarrow> go_value list \<Rightarrow> (config_error, go_value list) res"
  and parse_fields :: "float_parser \<Rightarrow> string \<Rightarrow> struct_field list \<Rightarrow> go_value list \<Rightarrow> (config_error, go_value list) res"
  and parse_field :: "float_parser \<Rightarrow> string \<Rightarrow> struct_field \<Rightarrow> go_value \<Rightarrow> (config_error, go_value) res"
  and setValue :: "float_parser \<Rightarrow> go_type \<Rightarrow> string \<Rightarrow> go_value \<Rightarrow> (config_error, go_value) res"
where
  "Parse fp (Struct name fs) vs = parse_fields fp name fs vs"
| "parse_fields fp name [] vs = (if vs = [] then Ok [] else Panic)"
| "parse_fields fp name (f # fs) vs =
     (case vs of
        [] \<Rightarrow> Panic
      | v # vs' \<Rightarrow> rbind (parse_field fp name f v) (\<lambda>w. rbind (parse_fields fp name fs vs') (\<lambda>ws. Ok (w # ws))))"
| "parse_field fp name (Field n tag t) v =
     (if isSet t v then Ok v
      else case tag of
        Some d \<Rightarrow> setValue fp t d v
      | None \<Rightarrow>
          (if IsZero v \<and> t \<noteq> TBool \<and> \<not> is_ptr t \<and> \<not> is_slice t then Err (RequiredParameter name n)
           else if is_ptr t \<or> is_slice t then setValue fp t '''' v
           else Ok v))"
| "setValue fp (TInt bits) value v = (case ParseInt value bits of None \<Rightarrow> Err (NumberError value) | Some i \<Rightarrow> Ok (VInt i))"
| "setValue fp (TUint bits) value v = (case ParseUint value bits of None \<Rightarrow> Err (NumberError value) | Some i \<Rightarrow> Ok (VUint i))"
| "setValue fp TFloat value v = (case fp value of None \<Rightarrow> Err (NumberError value) | Some x \<Rightarrow> Ok (VFloat x))"
| "setValue fp TString value v = Ok (VString value)"
| "setValue fp TBool value v = Ok (VBool (is_true value))"
| "setValue fp TMap value v = Ok v"
| "setValue fp TPtrBool value v = Ok (VPtrBool (is_true value))"
| "setValue fp (TPtr st) value v =
     (case v of
        VNil \<Rightarrow> rbind (Parse fp st (zero_fields st)) (\<lambda>ws. Ok (VPtr ws))
      | VPtr vs \<Rightarrow> rbind (Parse fp st vs) (\<lambda>ws. Ok (VPtr ws))
      | _ \<Rightarrow> Panic)"
| "setValue fp (TSlice t) value v =
     (if value \<noteq> '''' then (if t = TString then Ok (VSlice (map VString (split_comma value))) else Panic)
      else case v of
        VNil \<Rightarrow> Ok VNil
      | VSlice vs \<Rightarrow> rbind (map_with_error (\<lambda>e. case t of
            TPtr st \<Rightarrow> (case e of VPtr fs \<Rightarrow> rbind (Parse fp st fs) (\<lambda>ws. Ok (VPtr ws)) | _ \<Rightarrow> Panic)
          | _ \<Rightarrow> Panic) vs) (\<lambda>ws. Ok (VSlice ws))
      | _ \<Rightarrow> Panic)"

section \<open>The configurations of the program\<close>

abbreviation double_quote :: string where "double_quote \<equiv> [CHR 0x22]"
abbreviation backslash :: string where "backslash \<equiv> [CHR 0x5C]"

definition LoggerConfig_type :: struct_type where
  "LoggerConfig_type = Struct ''LoggerConfig'' [
     Field ''Level'' (Some ''info'') TString,
     Field ''TimeFieldFormat'' (Some ''2006-01-02T15:04:05.000000'') TString,
     Field ''PrettyPrint'' (Some ''false'') TPtrBool,
     Field ''DisableSampling'' (Some ''true'') TPtrBool,
     Field ''RedirectStdLogger'' (Some ''true'') TPtrBool,
     Field ''ErrorStack'' (Some ''true'') TPtrBool,
     Field ''ShowCaller'' (Some ''false'') TPtrBool,
     Field ''FileName'' (Some '''') TString]"

definition RuntimeConfig_type :: struct_type where
  "RuntimeConfig_type = Struct ''RuntimeConfig'' [
     Field ''GoMaxProcs'' (Some ''0'') (TInt 64)]"

definition SystemConfig_type :: struct_type where
  "SystemConfig_type = Struct ''SystemConfig'' [
     Field ''ClientID'' (Some '''') TString,
     Field ''Shell'' (Some '''') TString]"

definition NetworkConfig_type :: struct_type where
  "NetworkConfig_type = Struct ''NetworkConfig'' [
     Field ''Host'' (Some '''') TString,
     Field ''PortMin'' (Some ''1977'') (TUint 16),
     Field ''PortMax'' (Some ''1986'') (TUint 16),
     Field ''UseTCP'' (Some ''false'') TPtrBool,
     Field ''UseUDP'' (Some ''true'') TPtrBool,
     Field ''ReadBufferSize'' (Some ''131071'') (TInt 64),
     Field ''WriteBufferSize'' (Some ''131071'') (TInt 64),
     Field ''MultipathTCP'' (Some ''true'') TPtrBool,
     Field ''AuthenticationTimeout'' (Some ''10'') (TInt 64),
     Field ''HandshakeTimeout'' (Some ''10'') (TInt 64),
     Field ''ResetTimeout'' (Some ''10'') (TInt 64),
     Field ''MaxConnectionAttempts'' (Some ''3'') (TInt 64),
     Field ''KeepaliveTimeout'' (Some ''60'') (TInt 64),
     Field ''KeepaliveInterval'' (Some ''2'') (TInt 64),
     Field ''KeepaliveProbes'' (Some ''20'') (TInt 64),
     Field ''PortSelectionStrategy'' (Some ''random'') TString,
     Field ''Compression'' (Some ''none'') TString,
     Field ''CompressionLevel'' (Some ''0'') (TInt 64),
     Field ''ObfuscateData'' (Some ''true'') TPtrBool]"

definition TunnelConfig_type :: struct_type where
  "TunnelConfig_type = Struct ''TunnelConfig'' [
     Field ''MTU'' (Some ''1400'') (TInt 64),
     Field ''AddrMin'' (Some ''192.168.30.0'') TString,
     Field ''AddrMax'' (Some ''192.168.50.0'') TString,
     Field ''InterfaceUp'' None TMap,
     Field ''InterfaceDown'' None TMap,
     Field ''NumberOfHandlerThreads'' (Some ''4'') (TInt 64),
     Field ''Encryption'' (Some ''aes-256-ecb'') TString]"

definition StreamMergerConfig_type :: struct_type where
  "StreamMergerConfig_type = Struct ''StreamMergerConfig'' [
     Field ''ThreadingBy'' (Some ''endpoint'') TString,
     Field ''WaitingListMaxSize'' (Some ''1048576'') (TInt 64),
     Field ''WaitingListMaxTTL'' (Some ''60'') (TInt 64),
     Field ''StreamCheckInterval'' (Some ''60'') (TInt 64),
     Field ''StreamTTL'' (Some ''300'') TFloat]"

definition RetryConfig_type :: struct_type where
  "RetryConfig_type = Struct ''RetryConfig'' [
     Field ''MaxTimout'' (Some ''30'') (TInt 64),
     Field ''BackoffFactor'' (Some ''0.2'') TFloat]"

definition AckConfig_type :: struct_type where
  "AckConfig_type = Struct ''AckConfig'' [
     Field ''WaitingTimePercentOfRTO'' (Some ''50'') TFloat,
     Field ''EndpointLifeTime'' (Some ''60'') (TInt 64)]"

definition AuthenticationConfig_type :: struct_type where
  "AuthenticationConfig_type = Struct ''AuthenticationConfig'' [
     Field ''Key'' (Some '''') TString]"

definition User_type :: struct_type where
  "User_type = Struct ''User'' [
     Field ''Name'' None TString,
     Field ''Password'' None TString]"

definition TracingConfig_type :: struct_type where
  "TracingConfig_type = Struct ''TracingConfig'' [
     Field ''Socket'' (Some ''false'') TBool,
     Field ''Interface'' (Some ''false'') TBool,
     Field ''StreamMerger'' (Some ''false'') TBool,
     Field ''Retry'' (Some ''false'') TBool,
     Field ''Ack'' (Some ''false'') TBool]"

definition ProfilerConfig_type :: struct_type where
  "ProfilerConfig_type = Struct ''ProfilerConfig'' [
     Field ''Enabled'' (Some ''false'') TPtrBool,
     Field ''Host'' (Some ''localhost'') TString,
     Field ''Port'' (Some ''8888'') (TInt 64)]"

definition RestConfig_type :: struct_type where
  "RestConfig_type = Struct ''RestConfig'' [
     Field ''Enabled'' (Some ''false'') TPtrBool,
     Field ''Host'' (Some '''') TString,
     Field ''Port'' (Some ''8877'') (TInt 64)]"

definition StatisticConfig_type :: struct_type where
  "StatisticConfig_type = Struct ''StatisticConfig'' [
     Field ''Interval'' (Some ''1000'') (TInt 64)]"

definition ServerConfig_type :: struct_type where
  "ServerConfig_type = Struct ''ServerConfig'' [
     Field ''ServerHost'' (Some '''') TString,
     Field ''Logger'' None (TPtr LoggerConfig_type),
     Field ''Runtime'' None (TPtr RuntimeConfig_type),
     Field ''System'' None (TPtr SystemConfig_type),
     Field ''Network'' None (TPtr NetworkConfig_type),
     Field ''Tunnel'' None (TPtr TunnelConfig_type),
     Field ''StreamMerger'' None (TPtr StreamMergerConfig_type),
     Field ''Retry'' None (TPtr RetryConfig_type),
     Field ''Ack'' None (TPtr AckConfig_type),
     Field ''Authentication'' None (TPtr AuthenticationConfig_type),
     Field ''Users'' None (TSlice (TPtr User_type)),
     Field ''Tracing'' None (TPtr TracingConfig_type),
     Field ''Profiler'' None (TPtr ProfilerConfig_type),
     Field ''Rest'' None (TPtr RestConfig_type),
     Field ''Statistic'' None (TPtr StatisticConfig_type)]"

definition ClientConnection_type :: struct_type where
  "ClientConnection_type = Struct ''ClientConnection'' [
     Field ''Name'' None TString,
     Field ''Server'' None (TPtr NetworkConfig_type),
     Field ''Authentication'' None (TPtr AuthenticationConfig_type),
     Field ''User'' None (TPtr User_type),
     Field ''Tunnel'' None (TPtr TunnelConfig_type)]"

definition ApplicationConfig_type :: struct_type where
  "ApplicationConfig_type = Struct ''ApplicationConfig'' [
     Field ''Homepage'' (Some ''resources/index.html'') TString,
     Field ''HomepageWin'' (Some ''../index.html'') TString,
     Field ''IconsPath'' (Some ''resources/icons'') TString,
     Field ''AppIconLinux'' (Some ''app.png'') TString,
     Field ''AppIconDarwin'' (Some ''tapir.icns'') TString,
     Field ''AppIconWindows'' (Some ''app.ico'') TString,
     Field ''TrayIconLinux'' (Some ''tray.png'') TString,
     Field ''TrayIconDarwin'' (Some ''tray24.png'') TString,
     Field ''TrayIconWindows'' (Some ''tray.ico'') TString]"

definition GUISettings_type :: struct_type where
  "GUISettings_type = Struct ''GUISettings'' [
     Field ''WindowWidth'' (Some ''200'') (TInt 64),
     Field ''WindowHeight'' (Some ''300'') (TInt 64),
     Field ''WindowX'' (Some ''600'') (TInt 64),
     Field ''WindowY'' (Some ''100'') (TInt 64),
     Field ''ShutdownClientOnExit'' (Some ''true'') TPtrBool]"

definition ClientIPCSettings_type :: struct_type where
  "ClientIPCSettings_type = Struct ''ClientIPCSettings'' [
     Field ''GrpcHost'' (Some ''localhost'') TString,
     Field ''GrpcPort'' (Some ''1977'') (TInt 64)]"

definition ClientRunnerSettings_type :: struct_type where
  "ClientRunnerSettings_type = Struct ''ClientRunnerSettings'' [
     Field ''CmdLinux'' (Some ''pkexec {{ .client }} -config {{ .config }} &'') TString,
     Field ''CmdDarwin'' (Some (''osascript -e '' @ double_quote @ ''do shell script '' @ backslash @ double_quote @ ''{{ .client }}  -config {{ .config }} &>/dev/null &'' @ backslash @ double_quote @ '' with administrator privileges'' @ double_quote)) TString,
     Field ''CmdWindows'' (Some ''powershell.exe Start-Process {{ .client }} -Verb runAs -WindowStyle Hidden'') TString]"

definition ClientConfig_type :: struct_type where
  "ClientConfig_type = Struct ''ClientConfig'' [
     Field ''Logger'' None (TPtr LoggerConfig_type),
     Field ''Runtime'' None (TPtr RuntimeConfig_type),
     Field ''System'' None (TPtr SystemConfig_type),
     Field ''StreamMerger'' None (TPtr StreamMergerConfig_type),
     Field ''Retry'' None (TPtr RetryConfig_type),
     Field ''Ack'' None (TPtr AckConfig_type),
     Field ''Connections'' None (TSlice (TPtr ClientConnection_type)),
     Field ''Tracing'' None (TPtr TracingConfig_type),
     Field ''Profiler'' None (TPtr ProfilerConfig_type),
     Field ''Application'' None (TPtr ApplicationConfig_type),
     Field ''GUI'' None (TPtr GUISettings_type),
     Field ''IPC'' None (TPtr ClientIPCSettings_type),
     Field ''ClientRunner'' None (TPtr ClientRunnerSettings_type),
     Field ''Statistic'' None (TPtr StatisticConfig_type)]"

lemmas config_types = LoggerConfig_type_def RuntimeConfig_type_def SystemConfig_type_def NetworkConfig_type_def
  TunnelConfig_type_def StreamMergerConfig_type_def RetryConfig_type_def AckConfig_type_def
  AuthenticationConfig_type_def User_type_def TracingConfig_type_def ProfilerConfig_type_def
  RestConfig_type_def StatisticConfig_type_def ServerConfig_type_def ClientConnection_type_def
  ApplicationConfig_type_def GUISettings_type_def ClientIPCSettings_type_def ClientRunnerSettings_type_def
  ClientConfig_type_def

section \<open>What a parsed configuration holds\<close>

text \<open>
  The use cases dereference the pointers of a configuration without a test. \<open>no_nil\<close>: no pointer to a
  bool or to a struct is nil, at any depth, also in the elements of slices.
\<close>

fun no_nil :: "go_type \<Rightarrow> go_value \<Rightarrow> bool"
  and no_nil_struct :: "struct_type \<Rightarrow> go_value list \<Rightarrow> bool"
  and no_nil_fields :: "struct_field list \<Rightarrow> go_value list \<Rightarrow> bool"
where
  "no_nil TPtrBool v = (v \<noteq> VNil)"
| "no_nil (TPtr st) v = (case v of VPtr ws \<Rightarrow> no_nil_struct st ws | _ \<Rightarrow> False)"
| "no_nil (TSlice t) v = (case v of VNil \<Rightarrow> True | VSlice vs \<Rightarrow> list_all (no_nil t) vs | _ \<Rightarrow> False)"
| "no_nil _ v = True"
| "no_nil_struct (Struct name fs) ws = no_nil_fields fs ws"
| "no_nil_fields [] ws = (ws = [])"
| "no_nil_fields (Field n tag t # fs) ws = (case ws of [] \<Rightarrow> False | w # ws' \<Rightarrow> no_nil t w \<and> no_nil_fields fs ws')"

lemma map_with_error_Ok: "map_with_error f xs = Ok ys \<longleftrightarrow> list_all2 (\<lambda>x y. f x = Ok y) xs ys"
  by (induction xs arbitrary: ys) (auto simp: res_simps list_all2_Cons1)

lemma map_with_error_image: "map_with_error f xs = Ok ys \<Longrightarrow> y \<in> set ys \<Longrightarrow> \<exists>x \<in> set xs. f x = Ok y"
  by (auto simp: map_with_error_Ok list_all2_conv_all_nth in_set_conv_nth) (metis nth_mem)

text \<open>The function that \<open>setValue\<close> maps over the elements of a slice.\<close>

definition parse_elem :: "float_parser \<Rightarrow> go_type \<Rightarrow> go_value \<Rightarrow> (config_error, go_value) res" where
  "parse_elem fp t e = (case t of
            TPtr st \<Rightarrow> (case e of VPtr fs \<Rightarrow> rbind (Parse fp st fs) (\<lambda>ws. Ok (VPtr ws)) | _ \<Rightarrow> Panic)
          | _ \<Rightarrow> Panic)"

lemma parse_elem_Ok:
  "parse_elem fp t e = Ok w \<longleftrightarrow> (\<exists>st fs us. e = VPtr fs \<and> t = TPtr st \<and> Parse fp st fs = Ok us \<and> w = VPtr us)"
  by (cases t; cases e) (auto simp: parse_elem_def res_simps)

lemma parsed_elem:
  assumes "map_with_error (parse_elem fp t) vs = Ok ws" "w \<in> set ws"
  shows "\<exists>st fs us. VPtr fs \<in> set vs \<and> t = TPtr st \<and> Parse fp st fs = Ok us \<and> w = VPtr us"
  using map_with_error_image [OF assms] by (auto simp: parse_elem_Ok)

lemma setValue_slice:
  "setValue fp (TSlice t) '''' (VSlice vs) = rbind (map_with_error (parse_elem fp t) vs) (\<lambda>ws. Ok (VSlice ws))"
  by (simp add: parse_elem_def [abs_def])

lemma parse_fills:
  shows "Parse fp st vs = Ok ws \<Longrightarrow> no_nil_struct st ws"
    and "parse_fields fp name fs vs1 = Ok ws1 \<Longrightarrow> no_nil_fields fs ws1"
    and "parse_field fp name f v = Ok w \<Longrightarrow> (case f of Field n tag t \<Rightarrow> no_nil t w)"
    and "setValue fp t d v1 = Ok w1 \<Longrightarrow> no_nil t w1"
proof (induction fp st vs and fp name fs vs1 and fp name f v and fp t d v1
    arbitrary: ws and ws1 and w and w1 rule: Parse_parse_fields_parse_field_setValue.induct)
  case (3 fp name f fs vs)
  then show ?case by (cases f) (auto simp: res_simps split: list.splits)
next
  case (4 fp name n tag t v)
  have plain: "no_nil t x" if "isSet t x \<or> \<not> (is_ptr t \<or> is_slice t)" for x
    using that by (cases t) (simp_all add: isSet_def)
  consider "isSet t v" | d where "\<not> isSet t v" "tag = Some d" | "\<not> isSet t v" "tag = None" "is_ptr t \<or> is_slice t"
    | "\<not> isSet t v" "tag = None" "\<not> (is_ptr t \<or> is_slice t)"
    by (cases tag) blast+
  then show ?case
  proof cases
    case 2
    then show ?thesis using "4.IH"(2) [OF 2] "4.prems" by simp
  next
    case 3
    then show ?thesis using "4.IH"(1) [OF 3(1,2) _ 3(3)] "4.prems" by (auto split: if_splits)
  qed (use "4.prems" plain in \<open>auto split: if_splits\<close>)
next
  case (13 fp t d v)
  show ?case
  proof (cases "\<exists>vs. d = '''' \<and> v = VSlice vs")
    case True
    then obtain vs where v: "d = ''''" "v = VSlice vs" by blast
    with "13.prems" obtain ws where ws: "w1 = VSlice ws" "map_with_error (parse_elem fp t) vs = Ok ws"
      by (auto simp: setValue_slice res_simps simp del: setValue.simps)
    have "no_nil t w" if "w \<in> set ws" for w
      using parsed_elem [OF ws(2) that] "13.IH" v by fastforce
    then show ?thesis by (simp add: ws(1) list_all_iff)
  qed (use "13.prems" in \<open>auto simp: list_all_iff split: if_splits go_value.splits\<close>)
qed (auto simp: res_simps split: if_splits option.splits go_value.splits)

lemma map_with_error_same: "\<forall>y \<in> set ys. f y = Ok y \<Longrightarrow> map_with_error f ys = Ok ys"
  by (induction ys) auto

text \<open>A second pass, as after a change of the file, changes nothing.\<close>

lemma parse_again:
  shows "Parse fp st vs = Ok ws \<Longrightarrow> Parse fp st ws = Ok ws"
    and "parse_fields fp name fs vs1 = Ok ws1 \<Longrightarrow> parse_fields fp name fs ws1 = Ok ws1"
    and "parse_field fp name f v = Ok w \<Longrightarrow> parse_field fp name f w = Ok w"
    and "setValue fp t d v1 = Ok w1 \<Longrightarrow> setValue fp t d w1 = Ok w1"
proof (induction fp st vs and fp name fs vs1 and fp name f v and fp t d v1
    arbitrary: ws and ws1 and w and w1 rule: Parse_parse_fields_parse_field_setValue.induct)
  case (3 fp name f fs vs)
  then show ?case by (auto simp: res_simps split: list.splits)
next
  case (4 fp name n tag t v)
  consider "isSet t v" | d where "\<not> isSet t v" "tag = Some d" | "\<not> isSet t v" "tag = None" "is_ptr t \<or> is_slice t"
    | "\<not> isSet t v" "tag = None" "\<not> (is_ptr t \<or> is_slice t)"
    by (cases tag) blast+
  then show ?case
  proof cases
    case 2
    then show ?thesis using "4.IH"(2) [OF 2] "4.prems" by auto
  next
    case 3
    then show ?thesis using "4.IH"(1) [OF 3(1,2) _ 3(3)] "4.prems" by (auto split: if_splits)
  qed (use "4.prems" in \<open>auto split: if_splits\<close>)
next
  case (13 fp t d v)
  show ?case
  proof (cases "\<exists>vs. d = '''' \<and> v = VSlice vs")
    case True
    then obtain vs where v: "d = ''''" "v = VSlice vs" by blast
    with "13.prems" obtain ws where ws: "w1 = VSlice ws" "map_with_error (parse_elem fp t) vs = Ok ws"
      by (auto simp: setValue_slice res_simps simp del: setValue.simps)
    have "parse_elem fp t w = Ok w" if "w \<in> set ws" for w
      using parsed_elem [OF ws(2) that] "13.IH" v by (fastforce simp: parse_elem_Ok)
    then show ?thesis by (simp add: ws(1) v setValue_slice map_with_error_same del: setValue.simps)
  qed (use "13.prems" in \<open>auto split: if_splits go_value.splits\<close>)
qed (auto simp: res_simps split: if_splits option.splits go_value.splits)

text \<open>
  C39. What \<open>Parse\<close> accepts can be used: no pointer of it is nil at any depth, and another pass
  leaves it as it is.
\<close>

theorem parsed_configuration_is_usable:
  assumes "Parse fp st vs = Ok ws"
  shows "no_nil_struct st ws \<and> Parse fp st ws = Ok ws"
  using parse_fills(1) [OF assms] parse_again(1) [OF assms] by simp

definition sample_floats :: float_parser where
  "sample_floats s = (if s = ''0.2'' then Some (1 / 5) else if s = ''50'' then Some 50 else if s = ''300'' then Some 300 else None)"

lemmas parse_eval = ParseInt_def ParseUint_def isSet_def IsZero_def is_true_def lower_def sample_floats_def

text \<open>A client without a configuration file.\<close>

lemma empty_client_config: "\<exists>ws. Parse sample_floats ClientConfig_type (zero_fields ClientConfig_type) = Ok ws"
  by (simp add: config_types parse_eval)

lemma parsed_configuration_is_usable_witness:
  "\<exists>ws. Parse sample_floats ClientConfig_type (zero_fields ClientConfig_type) = Ok ws \<and> no_nil_struct ClientConfig_type ws"
  using parsed_configuration_is_usable empty_client_config by blast

text \<open>
  A server has to be told the commands of its interface. A client whose connection has an empty user name or
  password, as a window can save it, is refused at its next start; so is an imported connection
  without commands for its interface.
\<close>

lemma empty_server_config:
  "Parse sample_floats ServerConfig_type (zero_fields ServerConfig_type) = Err (RequiredParameter ''TunnelConfig'' ''InterfaceUp'')"
  by (simp add: config_types parse_eval)

lemma parse_fields_nth:
  "parse_fields fp name fs vs = Ok ws \<Longrightarrow> i < length fs \<Longrightarrow> i < length vs \<and> parse_field fp name (fs ! i) (vs ! i) = Ok (ws ! i)"
proof (induction fs arbitrary: vs ws i)
  case (Cons f fs)
  then obtain v vs1 w ws1 where "vs = v # vs1" "ws = w # ws1" "parse_field fp name f v = Ok w" "parse_fields fp name fs vs1 = Ok ws1"
    by (auto simp: res_simps split: list.splits)
  then show ?case using Cons.IH [of vs1 ws1 "i - 1"] Cons.prems(2) by (cases i) auto
qed simp

lemma Parse_nth:
  "Parse fp st vs = Ok ws \<Longrightarrow> st = Struct name fs \<Longrightarrow> i < length fs \<Longrightarrow> parse_field fp name (fs ! i) (vs ! i) = Ok (ws ! i)"
  using parse_fields_nth by simp

theorem empty_password_is_refused:
  assumes p: "Parse fp ClientConfig_type vs = Ok ws" and cs: "vs ! 6 = VSlice cs" "VPtr c \<in> set cs" and u: "c ! 3 = VPtr u"
  shows "\<forall>i < 2. u ! i \<noteq> VString ''''"
proof -
  have "parse_field fp ''ClientConfig'' (Field ''Connections'' None (TSlice (TPtr ClientConnection_type))) (VSlice cs) = Ok (ws ! 6)"
    using Parse_nth [OF p ClientConfig_type_def, of 6] by (simp add: cs(1) del: parse_field.simps)
  then obtain cs1 where "map_with_error (parse_elem fp (TPtr ClientConnection_type)) cs = Ok cs1"
    by (auto simp: isSet_def setValue_slice res_simps simp del: setValue.simps)
  then obtain c1 where "parse_elem fp (TPtr ClientConnection_type) (VPtr c) = Ok c1"
    using cs(2) by (auto simp: map_with_error_Ok list_all2_conv_all_nth in_set_conv_nth)
  then obtain c2 where c2: "Parse fp ClientConnection_type c = Ok c2" by (auto simp: parse_elem_Ok)
  have "parse_field fp ''ClientConnection'' (Field ''User'' None (TPtr User_type)) (VPtr u) = Ok (c2 ! 3)"
    using Parse_nth [OF c2 ClientConnection_type_def, of 3] by (simp add: u del: parse_field.simps)
  then obtain u1 where "parse_fields fp ''User'' [Field ''Name'' None TString, Field ''Password'' None TString] u = Ok u1"
    by (auto simp: isSet_def User_type_def res_simps simp del: parse_fields.simps)
  from parse_fields_nth [OF this, of 0] parse_fields_nth [OF this, of 1] show ?thesis
    by (auto simp: isSet_def IsZero_def less_2_cases_iff split: if_splits)
qed

section \<open>Loading, and small helpers\<close>

text \<open>
  \<open>New\<close>: \<open>read\<close> is what \<open>os.ReadFile\<close> gives for the path, \<open>decode\<close> the YAML library on the empty
  configuration. A missing file is read as an empty one.
\<close>

datatype file_result = FileBytes bytes | FileNotExist | FileError

datatype load_error = LoadReadError | LoadDecodeError | LoadParseError config_error

definition config_New :: "float_parser \<Rightarrow> struct_type \<Rightarrow> (bytes \<Rightarrow> go_value list option) \<Rightarrow> file_result \<Rightarrow> (load_error, go_value list) res" where
  "config_New fp st decode file =
     (case file of
        FileError \<Rightarrow> Err LoadReadError
      | _ \<Rightarrow>
          (case decode (case file of FileBytes bs \<Rightarrow> bs | _ \<Rightarrow> []) of
             None \<Rightarrow> Err LoadDecodeError
           | Some cfg \<Rightarrow> (case Parse fp st cfg of Ok c \<Rightarrow> Ok c | Err e \<Rightarrow> Err (LoadParseError e) | Panic \<Rightarrow> Panic)))"

lemma config_New_usable: "config_New fp st decode file = Ok c \<Longrightarrow> no_nil_struct st c"
  using parse_fills(1) by (auto simp: config_New_def split: file_result.splits option.splits res.splits)

text \<open>\<open>GetSystemShell\<close> and \<open>ClientRunnerSettings.Get\<close> by the operating system, and \<open>Normalize\<close>.\<close>

definition GetSystemShell :: "string \<Rightarrow> ('e, string) res" where
  "GetSystemShell os =
     (if os = ''linux'' then Ok ''bash -c''
      else if os = ''darwin'' then Ok ''zsh -c''
      else if os = ''windows'' then Ok ''powershell.exe -nologo -noninteractive -windowStyle hidden -nologo -noninteractive''
      else Panic)"

record client_runner =
  cl_CmdLinux :: string
  cl_CmdDarwin :: string
  cl_CmdWindows :: string

definition ClientRunner_Get :: "string \<Rightarrow> client_runner \<Rightarrow> ('e, string) res" where
  "ClientRunner_Get os c =
     (if os = ''linux'' then Ok (cl_CmdLinux c)
      else if os = ''darwin'' then Ok (cl_CmdDarwin c)
      else if os = ''windows'' then Ok (cl_CmdWindows c)
      else Panic)"

record system_config =
  sy_ClientID :: string
  sy_Shell :: string

text \<open>The arguments of \<open>structs.If\<close> are evaluated first: \<open>GetSystemShell\<close> is called in any case.\<close>

definition Normalize :: "string \<Rightarrow> string \<Rightarrow> system_config \<Rightarrow> ('e, system_config) res" where
  "Normalize uuid os c =
     rbind (GetSystemShell os) (\<lambda>shell.
       Ok (c\<lparr>sy_ClientID := structs_If (sy_ClientID c = '''') uuid (sy_ClientID c),
             sy_Shell := structs_If (sy_Shell c = '''') shell (sy_Shell c)\<rparr>))"

lemma Normalize_panics: "Normalize uuid os c = Panic \<longleftrightarrow> os \<notin> {''linux'', ''darwin'', ''windows''}"
  by (simp add: Normalize_def GetSystemShell_def res_simps)

definition ClientConfig_MaxPorts :: "network_config list \<Rightarrow> int" where
  "ClientConfig_MaxPorts servers = fold (\<lambda>c n. n + MaxPorts c) servers 0"

lemma ClientConfig_MaxPorts_bound:
  "0 \<le> ClientConfig_MaxPorts servers \<and> ClientConfig_MaxPorts servers \<le> 65535 * int (length servers)"
proof -
  have "0 \<le> MaxPorts c \<and> MaxPorts c \<le> 65535" for c
    using uint_lt2p [of "_ :: u16"] by (auto simp: MaxPorts_def Let_def intro: order.trans [OF zle_diff1_eq [THEN iffD2]])
  note one = this
  show ?thesis
  proof (induction servers rule: rev_induct)
    case (snoc c servers)
    then show ?case using one [of c] by (simp add: ClientConfig_MaxPorts_def)
  qed (simp add: ClientConfig_MaxPorts_def)
qed

text \<open>The shell of the commands (\<open>pkg/command/command.go\<close>): a word and its arguments, the command as the last.\<close>

record executor =
  ex_shellName :: string
  ex_shellArgs :: "string list"

fun split_space :: "string \<Rightarrow> string list" where
  "split_space [] = ['''']"
| "split_space (c # cs) =
     (if c = CHR '' '' then '''' # split_space cs
      else case split_space cs of [] \<Rightarrow> [[c]] | w # ws \<Rightarrow> (c # w) # ws)"

definition command_New :: "system_config \<Rightarrow> (gerror, executor) res" where
  "command_New cfg =
     (if sy_Shell cfg = '''' then Err ErrCommandShellUndefined
      else case split_space (sy_Shell cfg) of
        [] \<Rightarrow> Panic
      | name # args \<Rightarrow> Ok \<lparr>ex_shellName = name, ex_shellArgs = args\<rparr>)"

definition command_argv :: "executor \<Rightarrow> string \<Rightarrow> string list" where
  "command_argv c cmd = ex_shellName c # ex_shellArgs c @ [cmd]"

text \<open>After \<open>Normalize\<close> there is a shell.\<close>

lemma normalized_has_shell:
  assumes "Normalize uuid os c = (Ok d :: ('e, system_config) res)"
  shows "\<exists>e. command_New d = Ok e"
proof -
  have "sy_Shell d \<noteq> ''''"
    using assms by (auto simp: Normalize_def GetSystemShell_def structs_If_def res_simps split: if_splits)
  moreover have "split_space s \<noteq> []" for s by (induction s) (auto split: list.splits)
  ultimately show ?thesis by (auto simp: command_New_def split: list.splits)
qed

end
