(* ===== verification/ServerCmd.thy ===== *)
theory ServerCmd
  imports ServerUC ClientUC ConfigParse
begin

text \<open>
  The command line of the server (\<open>deploy/server/cmd.go\<close>): initialising the configuration, creating
  users, and exporting a connection for a client; and the import of what was exported by the client
  (\<open>importConnection\<close> of \<open>deploy/client/main.go\<close>). The libraries for YAML, JSON and flags are
  parameters. \<open>Fatalf\<close> ends the process with its message and is an error here.
\<close>

section \<open>The configuration file\<close>

record tunnel_config =
  tn_MTU :: int
  tn_AddrMin :: string
  tn_AddrMax :: string
  tn_InterfaceUp :: "(string, string list) gomap"
  tn_InterfaceDown :: "(string, string list) gomap"
  tn_NumberOfHandlerThreads :: int
  tn_Encryption :: string

record server_file =
  sf_ServerHost :: string
  sf_Shell :: string
  sf_Network :: network_config
  sf_Tunnel :: tunnel_config
  sf_Key :: bytes
  sf_Users :: "user list"

record client_entry =
  en_Name :: bytes
  en_Server :: network_config
  en_Key :: bytes
  en_User :: user
  en_Tunnel :: tunnel_config

definition known_encryption :: "string \<Rightarrow> bool" where
  \<comment> \<open>the keys of the table \<open>Encryptors\<close>\<close>
  "known_encryption m \<longleftrightarrow> m \<in> {''none'', ''aes-256-ecb'', ''aes-256-gcm''}"

text \<open>\<open>GetRandomString\<close>: \<open>rnd\<close> is what \<open>Intn\<close> draws.\<close>

definition charset :: bytes where
  "charset = map of_char (''abcdefghijklmnopqrstuvwxyz'' @ ''ABCDEFGHIJKLMNOPQRSTUVWXYZ0123456789'')"

definition GetRandomString :: "(nat \<Rightarrow> nat) \<Rightarrow> nat \<Rightarrow> bytes" where
  "GetRandomString rnd l = map (\<lambda>i. charset ! (rnd i mod length charset)) [0..<l]"

definition DefaultClientInterfaceUp :: "(string, string list) gomap" where
  "DefaultClientInterfaceUp =
     [(''linux'',
       [''ip addr add dev {{ .tunnel_dev }} local {{ .server_tunnel_local_ip }} remote {{ .server_tunnel_remote_ip }}'',
        ''ip link set dev {{ .tunnel_dev }} mtu {{ .mtu }} up'',
        ''ip route add {{ .server_ip }}/32 via {{ .gateway_ip }}'',
        ''ip route add 0.0.0.0/1 via {{ .server_tunnel_remote_ip }}'',
        ''ip route add 128.0.0.0/1 via {{ .server_tunnel_remote_ip }}'']),
      (''darwin'',
       [''ifconfig {{ .tunnel_dev }} {{ .server_tunnel_local_ip }} {{ .server_tunnel_remote_ip }} mtu {{ .mtu }} up'',
        ''route add {{ .server_ip }} {{ .gateway_ip }}'',
        ''route add -net 0.0.0.0 -netmask 128.0.0.0 {{ .server_tunnel_remote_ip }}'',
        ''route add -net 128.0.0.0 -netmask 128.0.0.0 {{ .server_tunnel_remote_ip }}'']),
      (''windows'',
       [''Disable-NetAdapterBinding -Name '' @ double_quote @ ''{{ .tunnel_dev }}'' @ double_quote @ '' -ComponentID ms_tcpip6'',
        ''Disable-NetAdapterBinding -Name '' @ double_quote @ ''{{ .tunnel_dev }}'' @ double_quote @ '' -ComponentID ms_lldp'',
        ''netsh interface ip set address name='' @ double_quote @ ''{{ .tunnel_dev }}'' @ double_quote @ '' source=static addr={{ .server_tunnel_local_ip }} mask=255.255.255.0 gateway=none'',
        ''netsh interface ip set interface '' @ double_quote @ ''{{ .tunnel_dev }}'' @ double_quote @ '' mtu={{ .mtu }}'',
        ''route add {{ .server_ip }}/32 {{ .gateway_ip }}'',
        ''route add 0.0.0.0/0 {{ .server_tunnel_local_ip }} IF {{ .tunnel_index }}''])]"

definition DefaultClientInterfaceDown :: "(string, string list) gomap" where
  "DefaultClientInterfaceDown =
     [(''linux'',
       [''ip route del {{ .server_ip }}/32 via {{ .gateway_ip }}'',
        ''ip route del 0.0.0.0/1 via {{ .server_tunnel_remote_ip }}'',
        ''ip route del 128.0.0.0/1 via {{ .server_tunnel_remote_ip }}'']),
      (''darwin'',
       [''route delete {{ .server_ip }} {{ .gateway_ip }}'',
        ''route delete -net 0.0.0.0 -netmask 128.0.0.0 {{ .server_tunnel_remote_ip }}'',
        ''route delete -net 128.0.0.0 -netmask 128.0.0.0 {{ .server_tunnel_remote_ip }}'']),
      (''windows'', [''route delete {{ .server_ip }}/32''])]"

section \<open>The commands\<close>

text \<open>The libraries: JSON for the clones, YAML for the exported connection.\<close>

record cmd_lib =
  lb_putNetwork :: "network_config \<Rightarrow> bytes option"
  lb_getNetwork :: "bytes \<Rightarrow> network_config option"
  lb_putTunnel :: "tunnel_config \<Rightarrow> bytes option"
  lb_getTunnel :: "bytes \<Rightarrow> tunnel_config option"
  lb_putKey :: "bytes \<Rightarrow> bytes option"
  lb_getKey :: "bytes \<Rightarrow> bytes option"
  lb_putEntry :: "client_entry \<Rightarrow> bytes option"
  lb_getEntry :: "bytes \<Rightarrow> client_entry option"

text \<open>\<open>Clone\<close> goes through JSON and panics when that fails.\<close>

definition jsonClone :: "('a \<Rightarrow> bytes option) \<Rightarrow> (bytes \<Rightarrow> 'a option) \<Rightarrow> 'a \<Rightarrow> 'a option" where
  "jsonClone marshal unmarshal x = (case marshal x of None \<Rightarrow> None | Some orig \<Rightarrow> unmarshal orig)"

definition NetworkConfig_Clone :: "cmd_lib \<Rightarrow> network_config \<Rightarrow> ('e, network_config) res" where
  "NetworkConfig_Clone lib c = deref (jsonClone (lb_putNetwork lib) (lb_getNetwork lib) c)"

definition TunnelConfig_Clone :: "cmd_lib \<Rightarrow> tunnel_config \<Rightarrow> ('e, tunnel_config) res" where
  "TunnelConfig_Clone lib c = deref (jsonClone (lb_putTunnel lib) (lb_getTunnel lib) c)"

definition AuthenticationConfig_Clone :: "cmd_lib \<Rightarrow> bytes \<Rightarrow> ('e, bytes) res" where
  "AuthenticationConfig_Clone lib c = deref (jsonClone (lb_putKey lib) (lb_getKey lib) c)"

record command_data =
  cd_serverHost :: string
  cd_serverKey :: bytes
  cd_encryption :: string
  cd_name :: bytes
  cd_password :: bytes
  cd_compression :: string
  cd_compressionLevel :: int

datatype cmd_error =
    EmptyHost | UnknownEncryption string | EmptyUserName | EmptyPassword | UserExists | UserNotExists | ExportFailed

definition init_key :: "(nat \<Rightarrow> nat) \<Rightarrow> command_data \<Rightarrow> bytes \<Rightarrow> (cmd_error, bytes) res" where
  "init_key rnd d key =
     (if cd_serverKey d \<noteq> [] then Ok (cd_serverKey d)
      else if key \<noteq> [] then Ok key
      else case KeySize (cd_encryption d) of
          Ok n \<Rightarrow> Ok (if n > 0 then GetRandomString rnd n else key)
        | _ \<Rightarrow> Panic)"

definition handlerInit :: "string \<Rightarrow> (nat \<Rightarrow> nat) \<Rightarrow> command_data \<Rightarrow> server_file \<Rightarrow> (cmd_error, server_file) res" where
  "handlerInit os rnd d cfg =
     (if cd_serverHost d = '''' then Err EmptyHost
      else if \<not> known_encryption (cd_encryption d) then Err (UnknownEncryption (cd_encryption d))
      else
        (let cfg = cfg\<lparr>sf_ServerHost := cd_serverHost d, sf_Tunnel := (sf_Tunnel cfg)\<lparr>tn_Encryption := cd_encryption d\<rparr>\<rparr>
         in rbind (init_key rnd d (sf_Key cfg)) (\<lambda>key.
            rbind (GetSystemShell os) (\<lambda>shell.
              Ok (cfg\<lparr>sf_Key := key, sf_Shell := structs_If (sf_Shell cfg = '''') shell (sf_Shell cfg)\<rparr>)))))"

definition user_named :: "bytes \<Rightarrow> user list \<Rightarrow> user option" where
  \<comment> \<open>\<open>slices.IndexFunc\<close> for the first user of the name\<close>
  "user_named name us = List.find (\<lambda>u. us_Name u = name) us"

definition handlerCreate :: "command_data \<Rightarrow> server_file \<Rightarrow> (cmd_error, server_file) res" where
  "handlerCreate d cfg =
     (if cd_name d = [] then Err EmptyUserName
      else if cd_password d = [] then Err EmptyPassword
      else if user_named (cd_name d) (sf_Users cfg) \<noteq> None then Err UserExists
      else Ok (cfg\<lparr>sf_Users := sf_Users cfg @ [\<lparr>us_Name = cd_name d, us_Password = cd_password d\<rparr>]\<rparr>))"

definition exported_entry :: "string \<Rightarrow> user \<Rightarrow> network_config \<Rightarrow> bytes \<Rightarrow> tunnel_config \<Rightarrow> client_entry" where
  "exported_entry host user net key tunnel =
     \<lparr>en_Name = map of_char host @ map of_char '' ['' @ us_Name user @ map of_char '']'',
      en_Server = net\<lparr>nc_Host := host\<rparr>, en_Key = key, en_User = user,
      en_Tunnel = tunnel\<lparr>tn_InterfaceUp := DefaultClientInterfaceUp, tn_InterfaceDown := DefaultClientInterfaceDown,
        tn_AddrMin := '''', tn_AddrMax := ''''\<rparr>\<rparr>"

definition handlerExport :: "cmd_lib \<Rightarrow> command_data \<Rightarrow> server_file \<Rightarrow> (cmd_error, bytes) res" where
  "handlerExport lib d cfg =
     (case user_named (cd_name d) (sf_Users cfg) of
        None \<Rightarrow> Err UserNotExists
      | Some user \<Rightarrow>
          rbind (NetworkConfig_Clone lib (sf_Network cfg)) (\<lambda>net.
          rbind (AuthenticationConfig_Clone lib (sf_Key cfg)) (\<lambda>key.
          rbind (TunnelConfig_Clone lib (sf_Tunnel cfg)) (\<lambda>tunnel.
            case lb_putEntry lib (exported_entry (sf_ServerHost cfg) user net key tunnel) of
              None \<Rightarrow> Err ExportFailed
            | Some buf \<Rightarrow> Ok buf))))"

text \<open>
  \<open>parseCommandLine\<close> on the arguments behind the name of the program. \<open>flags\<close> is the library: the
  defaults, the names of the flags and the arguments give the data, or the process exits.
\<close>

datatype cmd_result = CmdSaved server_file | CmdPrinted bytes | CmdFatal cmd_error | CmdExit int | CmdPanic

definition no_data :: command_data where
  "no_data = \<lparr>cd_serverHost = '''', cd_serverKey = [], cd_encryption = '''', cd_name = [], cd_password = [],
     cd_compression = '''', cd_compressionLevel = 0\<rparr>"

definition saved :: "(cmd_error, server_file) res \<Rightarrow> cmd_result" where
  "saved r = (case r of Ok cfg \<Rightarrow> CmdSaved cfg | Err e \<Rightarrow> CmdFatal e | Panic \<Rightarrow> CmdPanic)"

definition parseCommandLine :: "(command_data \<Rightarrow> string list \<Rightarrow> string list \<Rightarrow> command_data option) \<Rightarrow> cmd_lib \<Rightarrow> string
    \<Rightarrow> (nat \<Rightarrow> nat) \<Rightarrow> string list \<Rightarrow> server_file \<Rightarrow> cmd_result" where
  "parseCommandLine flags lib os rnd argv cfg =
     (case argv of
        [] \<Rightarrow> CmdPanic
      | cmd # rest \<Rightarrow>
          if cmd = ''init'' then
            (case flags (no_data\<lparr>cd_encryption := ''aes-256-ecb''\<rparr>) [''host'', ''key'', ''encryption''] rest of
               None \<Rightarrow> CmdExit 2 | Some d \<Rightarrow> saved (handlerInit os rnd d cfg))
          else if cmd = ''create'' then
            (case flags (no_data\<lparr>cd_compression := ''none''\<rparr>) [''name'', ''password'', ''compression'', ''compression-level''] rest of
               None \<Rightarrow> CmdExit 2 | Some d \<Rightarrow> saved (handlerCreate d cfg))
          else if cmd = ''export'' then
            (case flags no_data [''name''] rest of
               None \<Rightarrow> CmdExit 2
             | Some d \<Rightarrow> (case handlerExport lib d cfg of Ok buf \<Rightarrow> CmdPrinted buf | Err e \<Rightarrow> CmdFatal e | Panic \<Rightarrow> CmdPanic))
          else if cmd = ''help'' then CmdExit 0
          else CmdExit 1)"

text \<open>The client reads the exported file and appends the connection to its configuration.\<close>

definition importConnection :: "cmd_lib \<Rightarrow> file_result \<Rightarrow> client_entry list \<Rightarrow> (gerror, client_entry list) res" where
  "importConnection lib file conns =
     (case file of
        FileBytes buf \<Rightarrow> (case lb_getEntry lib buf of None \<Rightarrow> Err (ErrLibrary 1) | Some conn \<Rightarrow> Ok (conns @ [conn]))
      | _ \<Rightarrow> Err (ErrLibrary 2))"

text \<open>The flag \<open>-connection\<close>: the index of the first connection of that name, if there is one.\<close>

fun connection_index :: "bytes \<Rightarrow> client_entry list \<Rightarrow> nat option" where
  "connection_index name [] = None"
| "connection_index name (c # cs) = (if en_Name c = name then Some 0 else map_option Suc (connection_index name cs))"

text \<open>The parts of the two configurations that the use cases read.\<close>

definition server_of :: "(string \<Rightarrow> bytes) \<Rightarrow> server_file \<Rightarrow> server_config" where
  "server_of parseIP cfg = \<lparr>cf_Users = sf_Users cfg, cf_Network = sf_Network cfg, cf_AddrMin = parseIP (tn_AddrMin (sf_Tunnel cfg)),
     cf_Encryption = tn_Encryption (sf_Tunnel cfg)\<rparr>"

definition client_of :: "client_entry \<Rightarrow> client_connection" where
  "client_of e = \<lparr>cf_Server = en_Server e, cf_Key = en_Key e, cf_User = en_User e, cf_TunnelEncryption = tn_Encryption (en_Tunnel e)\<rparr>"

section \<open>Users\<close>

definition users_ok :: "user list \<Rightarrow> bool" where
  "users_ok us \<longleftrightarrow> distinct (map us_Name us) \<and> (\<forall>u\<in>set us. us_Name u \<noteq> [] \<and> us_Password u \<noteq> [])"

lemma user_named_Some: "user_named name us = Some u \<Longrightarrow> u \<in> set us \<and> us_Name u = name"
  by (auto simp: user_named_def find_Some_iff)

lemma user_named_None: "user_named name us = None \<longleftrightarrow> name \<notin> us_Name ` set us"
  by (auto simp: user_named_def find_None_iff)

lemma handlerCreate_users:
  "handlerCreate d cfg = Ok cfg1 \<Longrightarrow> users_ok (sf_Users cfg) \<Longrightarrow> users_ok (sf_Users cfg1)"
  by (auto simp: handlerCreate_def users_ok_def user_named_None split: if_splits)

lemma handlerInit_cases:
  assumes "handlerInit os rnd d cfg = Ok cfg1"
  shows "sf_Users cfg1 = sf_Users cfg \<and> sf_ServerHost cfg1 \<noteq> '''' \<and> known_encryption (tn_Encryption (sf_Tunnel cfg1))
    \<and> sf_Shell cfg1 \<noteq> '''' \<and> (tn_Encryption (sf_Tunnel cfg1) \<noteq> ''none'' \<longrightarrow> sf_Key cfg1 \<noteq> [])"
proof -
  have d: "cd_serverHost d \<noteq> ''''" "known_encryption (cd_encryption d)"
    using assms unfolding handlerInit_def by (metis res.distinct(1))+
  have "\<exists>k. init_key rnd d (sf_Key cfg) = Ok k \<and> (cd_encryption d \<noteq> ''none'' \<longrightarrow> k \<noteq> [])"
    using d(2) by (auto simp: init_key_def KeySize_def known_encryption_def GetRandomString_def)
  then obtain k where k: "init_key rnd d (sf_Key cfg) = Ok k" "cd_encryption d \<noteq> ''none'' \<longrightarrow> k \<noteq> []" by blast
  have eq: "handlerInit os rnd d cfg = rbind (GetSystemShell os) (\<lambda>shell. Ok (cfg\<lparr>sf_ServerHost := cd_serverHost d,
      sf_Tunnel := (sf_Tunnel cfg)\<lparr>tn_Encryption := cd_encryption d\<rparr>, sf_Key := k,
      sf_Shell := structs_If (sf_Shell cfg = '''') shell (sf_Shell cfg)\<rparr>))"
    using d k(1) by (simp add: handlerInit_def)
  obtain shell where s: "GetSystemShell os = (Ok shell :: (cmd_error, string) res)" and
    cfg1: "cfg1 = cfg\<lparr>sf_ServerHost := cd_serverHost d, sf_Tunnel := (sf_Tunnel cfg)\<lparr>tn_Encryption := cd_encryption d\<rparr>,
      sf_Key := k, sf_Shell := structs_If (sf_Shell cfg = '''') shell (sf_Shell cfg)\<rparr>"
    using assms unfolding eq by (auto simp: res_simps)
  have "shell \<noteq> ''''" using s by (auto simp: GetSystemShell_def split: if_splits)
  then show ?thesis using d k(2) by (simp add: cfg1 structs_If_def)
qed

text \<open>The configuration after a command line, and after several of them.\<close>

definition after_command :: "cmd_result \<Rightarrow> server_file \<Rightarrow> server_file" where
  "after_command r cfg = (case r of CmdSaved cfg1 \<Rightarrow> cfg1 | _ \<Rightarrow> cfg)"

fun command_lines :: "(command_data \<Rightarrow> string list \<Rightarrow> string list \<Rightarrow> command_data option) \<Rightarrow> cmd_lib \<Rightarrow> string
    \<Rightarrow> ((nat \<Rightarrow> nat) \<times> string list) list \<Rightarrow> server_file \<Rightarrow> server_file" where
  "command_lines flags lib os [] cfg = cfg"
| "command_lines flags lib os ((rnd, argv) # cs) cfg =
     command_lines flags lib os cs (after_command (parseCommandLine flags lib os rnd argv cfg) cfg)"

lemma command_users:
  "users_ok (sf_Users cfg) \<Longrightarrow> users_ok (sf_Users (after_command (parseCommandLine flags lib os rnd argv cfg) cfg))"
proof -
  assume ok: "users_ok (sf_Users cfg)"
  have "users_ok (sf_Users (after_command (saved r) cfg))" if "\<And>cfg1. r = Ok cfg1 \<Longrightarrow> users_ok (sf_Users cfg1)" for r
    using that ok by (cases r) (simp_all add: saved_def after_command_def)
  then have "users_ok (sf_Users (after_command (saved (handlerInit os rnd d cfg)) cfg))"
    "users_ok (sf_Users (after_command (saved (handlerCreate d cfg)) cfg))" for d
    using ok handlerCreate_users [OF _ ok] handlerInit_cases [of os rnd d cfg] by metis+
  moreover have "after_command (CmdExit n) cfg = cfg" "after_command CmdPanic cfg = cfg" for n by (simp_all add: after_command_def)
  moreover have "after_command (case handlerExport lib d cfg of Ok buf \<Rightarrow> CmdPrinted buf | Err e \<Rightarrow> CmdFatal e | Panic \<Rightarrow> CmdPanic) cfg = cfg" for d
    by (cases "handlerExport lib d cfg") (simp_all add: after_command_def)
  ultimately show ?thesis
    using ok by (cases argv) (simp_all add: parseCommandLine_def split: option.split)
qed

lemma command_lines_users: "users_ok (sf_Users cfg) \<Longrightarrow> users_ok (sf_Users (command_lines flags lib os cs cfg))"
proof (induction cs arbitrary: cfg)
  case (Cons c cs)
  then show ?case by (cases c) (simp add: command_users)
qed simp

section \<open>An exported connection logs in\<close>

definition entry_of :: "server_file \<Rightarrow> user \<Rightarrow> client_entry" where
  "entry_of cfg u = exported_entry (sf_ServerHost cfg) u (sf_Network cfg) (sf_Key cfg) (sf_Tunnel cfg)"

text \<open>What is used of the libraries: what they write of this configuration they read back.\<close>

definition lib_roundtrips :: "cmd_lib \<Rightarrow> server_file \<Rightarrow> bool" where
  "lib_roundtrips lib cfg \<longleftrightarrow> jsonClone (lb_putNetwork lib) (lb_getNetwork lib) (sf_Network cfg) = Some (sf_Network cfg)
     \<and> jsonClone (lb_putTunnel lib) (lb_getTunnel lib) (sf_Tunnel cfg) = Some (sf_Tunnel cfg)
     \<and> jsonClone (lb_putKey lib) (lb_getKey lib) (sf_Key cfg) = Some (sf_Key cfg)
     \<and> (\<forall>u\<in>set (sf_Users cfg). jsonClone (lb_putEntry lib) (lb_getEntry lib) (entry_of cfg u) = Some (entry_of cfg u))"

lemma export_import:
  assumes "lib_roundtrips lib cfg" "handlerExport lib d cfg = Ok buf" "importConnection lib (FileBytes buf) conns = Ok conns1"
  shows "\<exists>u. user_named (cd_name d) (sf_Users cfg) = Some u \<and> conns1 = conns @ [entry_of cfg u]"
proof (cases "user_named (cd_name d) (sf_Users cfg)")
  case (Some u)
  have clones: "NetworkConfig_Clone lib (sf_Network cfg) = Ok (sf_Network cfg)"
    "AuthenticationConfig_Clone lib (sf_Key cfg) = Ok (sf_Key cfg)" "TunnelConfig_Clone lib (sf_Tunnel cfg) = Ok (sf_Tunnel cfg)"
    using assms(1) by (simp_all add: lib_roundtrips_def NetworkConfig_Clone_def AuthenticationConfig_Clone_def TunnelConfig_Clone_def)
  have "lb_putEntry lib (entry_of cfg u) = Some buf"
    using assms(2) by (simp add: handlerExport_def Some clones entry_of_def split: option.splits)
  moreover have "jsonClone (lb_putEntry lib) (lb_getEntry lib) (entry_of cfg u) = Some (entry_of cfg u)"
    using assms(1) user_named_Some [OF Some] by (simp add: lib_roundtrips_def)
  ultimately have "lb_getEntry lib buf = Some (entry_of cfg u)" by (simp add: jsonClone_def)
  then show ?thesis using assms(3) Some by (auto simp: importConnection_def)
qed (use assms(2) in \<open>simp add: handlerExport_def\<close>)

lemma initUsers_lookup:
  assumes "distinct (map us_Name (cf_Users cfg))" "u \<in> set (cf_Users cfg)"
  shows "map_of (initUsers cfg) (us_Name u) = Some u"
proof -
  have "distinct (map us_Name us) \<Longrightarrow> u \<in> set us \<Longrightarrow> map_of (fold (\<lambda>u m. mput (us_Name u) u m) us []) (us_Name u) = Some u" for us
  proof (induction us rule: rev_induct)
    case (snoc x us)
    have "us_Name u \<noteq> us_Name x" if "u \<noteq> x" using snoc.prems that by (auto simp: image_iff)
    then show ?case using snoc by (cases "u = x") (simp_all add: gomap_simps)
  qed simp
  then show ?thesis using assms by (simp add: initUsers_def)
qed

lemma auth_finish_no_refusal: "fst (auth_finish w msg req conn uc) \<noteq> Err ErrUnauthorized"
proof -
  have "addConnection conn sc uc1 \<noteq> Err ErrUnauthorized" for sc uc1
    by (auto simp: addConnection_def Connection_Key_def split: option.splits net_addr.splits if_splits)
  then show ?thesis
    by (auto simp: auth_finish_def split: res.splits prod.splits option.splits)
qed

text \<open>
  C17. A user that the server exports can log in. The exported connection, imported by a client and
  used by its use case, asks for authentication with the name and password of the user; a server
  running with the configuration that the command lines left does not refuse it, whatever the
  state of its sessions, and both sides have the same key and the same encryption.
\<close>

theorem exported_user_can_log_in:
  assumes lib: "lib_roundtrips lib cfg"
    and disk: "cfg = command_lines flags lib os cs cfg0" "users_ok (sf_Users cfg0)"
    and export: "handlerExport lib d cfg = Ok buf" "importConnection lib (FileBytes buf) conns = Ok conns1"
    and client: "NewClientUseCase clib clientID (client_of (last conns1)) codec mg = Ok cuc"
    and server: "su_users suc = initUsers (server_of parseIP cfg)"
    and request: "lib_request slib (m_Payload (auth_message cuc)) (su_authRequest suc) = Ok q"
      "PAuthRequest q = m_Payload (auth_message cuc)"
  shows "commandAuthentication slib w (auth_message cuc) conn suc \<noteq> Some (Err ErrUnauthorized, c, suc1)
     \<and> ar_Name q = cd_name d \<and> cf_Key (cu_conn cuc) = sf_Key cfg
     \<and> cf_TunnelEncryption (cu_conn cuc) = cf_Encryption (server_of parseIP cfg)"
proof -
  have users: "users_ok (sf_Users cfg)" unfolding disk(1) by (rule command_lines_users [OF disk(2)])
  obtain u where u: "user_named (cd_name d) (sf_Users cfg) = Some u"
    "conns1 = conns @ [entry_of cfg u]"
    using export_import [OF lib export] by blast
  have conn: "cu_conn cuc = client_of (entry_of cfg u)"
    and sid: "cu_sessionID cuc = 0"
    using client u(2) by (auto simp: NewClientUseCase_def client_reset_def res_simps)
  have q: "ar_Name q = us_Name u" "ar_Password q = us_Password u" "m_SessionID (auth_message cuc) = 0"
    using request(2) sid by (simp_all add: auth_message_def conn client_of_def entry_of_def exported_entry_def)
  have "u \<in> set (cf_Users (server_of parseIP cfg))" "distinct (map us_Name (cf_Users (server_of parseIP cfg)))"
    using user_named_Some [OF u(1)] users by (simp_all add: server_of_def users_ok_def)
  then have "map_of (su_users suc) (ar_Name q) = Some u" unfolding server q(1) by (intro initUsers_lookup)
  then have "commandAuthentication slib w (auth_message cuc) conn suc \<noteq> Some (Err ErrUnauthorized, c, suc1)"
    using request(1) q(2,3) auth_finish_no_refusal [of w "auth_message cuc" q]
    by (auto simp: commandAuthentication_def auth_session_def Let_def prod_eq_iff split: option.splits res.splits)
  moreover have "us_Name u = cd_name d" using user_named_Some [OF u(1)] by simp
  ultimately show ?thesis using q(1) by (simp add: conn client_of_def entry_of_def exported_entry_def server_of_def)
qed

text \<open>The imported connection is found by its name, if no other has it.\<close>

lemma imported_connection_found:
  "importConnection lib file conns = Ok conns1 \<Longrightarrow> \<forall>e\<in>set conns. en_Name e \<noteq> en_Name (last conns1) \<Longrightarrow>
   connection_index (en_Name (last conns1)) conns1 = Some (length conns)"
proof -
  have found: "\<forall>e\<in>set cs. en_Name e \<noteq> en_Name x \<Longrightarrow> connection_index (en_Name x) (cs @ [x]) = Some (length cs)" for cs x
    by (induction cs) auto
  assume "importConnection lib file conns = Ok conns1" "\<forall>e\<in>set conns. en_Name e \<noteq> en_Name (last conns1)"
  then show ?thesis using found by (auto simp: importConnection_def split: file_result.splits option.splits)
qed

definition demo_file :: server_file where
  "demo_file = \<lparr>sf_ServerHost = '''', sf_Shell = '''', sf_Network = \<lparr>nc_Host = '''', nc_PortMin = 1000, nc_PortMax = 1000,
       nc_UseTCP = True, nc_UseUDP = False, nc_MaxConnectionAttempts = 1, nc_PortSelectionStrategy = ''random'', nc_Compression = '''',
       nc_CompressionLevel = 0, nc_ObfuscateData = False\<rparr>,
     sf_Tunnel = \<lparr>tn_MTU = 1400, tn_AddrMin = ''10.0.0.1'', tn_AddrMax = '''', tn_InterfaceUp = [], tn_InterfaceDown = [],
       tn_NumberOfHandlerThreads = 4, tn_Encryption = ''aes-256-ecb''\<rparr>, sf_Key = [], sf_Users = []\<rparr>"

text \<open>A parser of flags that knows the two command lines of the example.\<close>

definition demo_flags :: "command_data \<Rightarrow> string list \<Rightarrow> string list \<Rightarrow> command_data option" where
  "demo_flags dflt names args =
     (if args = [''-host=vpn'', ''-encryption=none''] then Some (dflt\<lparr>cd_serverHost := ''vpn'', cd_encryption := ''none''\<rparr>)
      else if args = [''-name=a'', ''-password=b''] then Some (dflt\<lparr>cd_name := [97], cd_password := [98]\<rparr>)
      else None)"

definition demo_lines :: "((nat \<Rightarrow> nat) \<times> string list) list" where
  "demo_lines = [(\<lambda>_. 0, [''init'', ''-host=vpn'', ''-encryption=none'']), (\<lambda>_. 0, [''create'', ''-name=a'', ''-password=b''])]"

definition demo_made :: server_file where
  "demo_made = demo_file\<lparr>sf_ServerHost := ''vpn'', sf_Shell := ''bash -c'',
     sf_Tunnel := (sf_Tunnel demo_file)\<lparr>tn_Encryption := ''none''\<rparr>, sf_Users := [\<lparr>us_Name = [97], us_Password = [98]\<rparr>]\<rparr>"

definition demo_cmd_lib :: cmd_lib where
  "demo_cmd_lib = \<lparr>lb_putNetwork = (\<lambda>_. Some []), lb_getNetwork = (\<lambda>_. Some (sf_Network demo_file)),
     lb_putTunnel = (\<lambda>_. Some []), lb_getTunnel = (\<lambda>_. Some (sf_Tunnel demo_made)), lb_putKey = Some, lb_getKey = Some,
     lb_putEntry = (\<lambda>_. Some [7]), lb_getEntry = (\<lambda>_. Some (entry_of demo_made \<lparr>us_Name = [97], us_Password = [98]\<rparr>))\<rparr>"

lemma demo_lines_run: "command_lines demo_flags lib ''linux'' demo_lines demo_file = demo_made"
  by (simp add: demo_lines_def demo_flags_def parseCommandLine_def handlerInit_def init_key_def known_encryption_def KeySize_def
      GetSystemShell_def structs_If_def handlerCreate_def user_named_def saved_def after_command_def demo_made_def no_data_def
      demo_file_def)

theorem exported_user_can_log_in_witness:
  "\<exists>buf conns1 cuc. handlerExport demo_cmd_lib (no_data\<lparr>cd_name := [97]\<rparr>) demo_made = Ok buf
     \<and> importConnection demo_cmd_lib (FileBytes buf) [] = Ok conns1
     \<and> NewClientUseCase \<lparr>cl_authResponse = \<lambda>_. Err EOF, cl_handshake = \<lambda>_. Err EOF, cl_aes = (\<lambda>_. None), cl_gcm = (\<lambda>_. None),
         cl_PublicKey = id, cl_NewPublicKey = Ok, cl_ECDH = (\<lambda>a b. Ok [])\<rparr> [9] (client_of (last conns1)) sample_tapir (MergerV1 (NewV1 True True)) = Ok cuc
     \<and> (\<forall>c suc1. commandAuthentication \<lparr>lib_request = (\<lambda>p r. case p of PAuthRequest q \<Rightarrow> Ok q | _ \<Rightarrow> Ok r), lib_handshake = (\<lambda>p r. Ok r),
         lib_aes = (\<lambda>_. None), lib_gcm = (\<lambda>_. None), lib_PublicKey = id, lib_NewPublicKey = Ok, lib_ECDH = (\<lambda>a b. Ok [])\<rparr>
         \<lparr>sw_session = [4], sw_created = Ok ''tun0'', sw_privateKey = Ok [7], sw_now = 0, sw_write = Ok ()\<rparr> (auth_message cuc) new_connection
         (NewServerUseCase (server_of (\<lambda>_. [10, 0, 0, 1]) demo_made) (MergerV1 (NewV1 True True))) \<noteq> Some (Err ErrUnauthorized, c, suc1))
     \<and> cf_Key (cu_conn cuc) = sf_Key demo_made"
  (is "\<exists>buf conns1 cuc. ?export buf \<and> ?import buf conns1 \<and> ?new conns1 cuc \<and> (\<forall>c suc1. ?auth cuc c suc1) \<and> _")
proof -
  let ?u = "\<lparr>us_Name = [97], us_Password = [98]\<rparr>"
  have lib: "lib_roundtrips demo_cmd_lib demo_made"
    by (simp add: lib_roundtrips_def demo_cmd_lib_def jsonClone_def demo_made_def)
  have export: "?export [7]"
    by (simp add: handlerExport_def user_named_def NetworkConfig_Clone_def TunnelConfig_Clone_def
        AuthenticationConfig_Clone_def no_data_def jsonClone_def demo_made_def demo_cmd_lib_def)
  have imported: "?import [7] [entry_of demo_made ?u]" by (simp add: importConnection_def demo_cmd_lib_def)
  obtain cuc where cuc: "?new [entry_of demo_made ?u] cuc"
    by (simp add: NewClientUseCase_def GetEncryptor_def client_of_def entry_of_def exported_entry_def demo_made_def)
  have ok: "users_ok (sf_Users demo_file)" by (simp add: users_ok_def demo_file_def)
  have request: "PAuthRequest \<lparr>ar_ClientID = cu_ClientID cuc, ar_Name = us_Name (cf_User (cu_conn cuc)),
       ar_Password = us_Password (cf_User (cu_conn cuc)), ar_CompressionType = cu_compressionType cuc,
       ar_CompressionLevel = cu_compressionLevel cuc\<rparr> = m_Payload (auth_message cuc)"
    by (simp add: auth_message_def)
  have auth: "?auth cuc c suc1 \<and> ar_Name \<lparr>ar_ClientID = cu_ClientID cuc, ar_Name = us_Name (cf_User (cu_conn cuc)),
       ar_Password = us_Password (cf_User (cu_conn cuc)), ar_CompressionType = cu_compressionType cuc,
       ar_CompressionLevel = cu_compressionLevel cuc\<rparr> = cd_name (no_data\<lparr>cd_name := [97]\<rparr>) \<and> cf_Key (cu_conn cuc) = sf_Key demo_made
     \<and> cf_TunnelEncryption (cu_conn cuc) = cf_Encryption (server_of (\<lambda>_. [10, 0, 0, 1]) demo_made)" for c suc1
    by (rule exported_user_can_log_in [OF lib demo_lines_run [symmetric] ok export imported _ _ _ request])
      (use cuc in \<open>simp_all add: NewServerUseCase_def auth_message_def\<close>)
  have all: "\<forall>c suc1. ?auth cuc c suc1" using auth by blast
  show ?thesis using export imported cuc all auth by (intro exI [of _ "[7]"] exI [of _ "[entry_of demo_made ?u]"] exI [of _ cuc]) simp
qed

end
