(* ===== verification/IfaceLife.thy ===== *)
theory IfaceLife
  imports Entity
begin

text \<open>
  The life of a tunnel interface (\<open>adapter/wiface/iface.go\<close>, \<open>iface.linux.go\<close>,
  \<open>business/entity/iface.go\<close>): it is created, the commands of the configuration set it up, the
  listener reads it until it is closed, and the commands for taking it down run.
\<close>

section \<open>State\<close>

record iface_config =
  ig_InterfaceUp :: "string list option" \<comment> \<open>the entry of the map for the operating system\<close>
  ig_InterfaceDown :: "string list option"
  ig_MTU :: nat
  ig_ServerHost :: string

record iface_gateway =
  gw_IP :: string
  gw_Dev :: string
  gw_Index :: string

record tunnel_ips =
  tp_ClientLocal :: string
  tp_ClientRemote :: string
  tp_ServerLocal :: string
  tp_ServerRemote :: string

text \<open>
  A device: \<open>dv_Handler\<close> has its name and whether it is open; \<open>dv_Receiver\<close> whether the channel has been
  closed. \<open>dv_listening\<close>: the goroutine of \<open>listen\<close> runs.
\<close>

record tunnel_device =
  dv_IP :: tunnel_ips
  dv_Handler :: "(string \<times> bool) option"
  dv_Receiver :: bool
  dv_cancelled :: bool
  dv_listening :: bool

text \<open>
  What is outside: text templates with their variables, the shell (its output or an error), the device
  driver, and the regular expression that finds the gateway in the output.
\<close>

record iface_world =
  wo_render :: "string \<Rightarrow> (string, string) gomap \<Rightarrow> gerror + string"
  wo_run :: "string \<Rightarrow> gerror + string"
  wo_create :: "nat \<Rightarrow> gerror + string"
  wo_gateway :: "string \<Rightarrow> (string \<times> string) option"

section \<open>Operations\<close>

fun string_of_nat :: "nat \<Rightarrow> string" where
  "string_of_nat n = (if n < 10 then [char_of (48 + n)] else string_of_nat (n div 10) @ [char_of (48 + n mod 10)])"

declare string_of_nat.simps [simp del]

text \<open>The loop over the commands: a template that fails ends it, a command that fails is logged.\<close>

fun run_commands :: "iface_world \<Rightarrow> (string, string) gomap \<Rightarrow> string list \<Rightarrow> string list \<Rightarrow> gerror option \<times> string list" where
  "run_commands w vars [] done_cmds = (None, done_cmds)"
| "run_commands w vars (c # cs) done_cmds =
     (case wo_render w c vars of
        Inl e \<Rightarrow> (Some e, done_cmds)
      | Inr cmd \<Rightarrow> run_commands w vars cs (done_cmds @ [cmd]))"

definition startup_vars :: "iface_config \<Rightarrow> iface_gateway \<Rightarrow> tunnel_device \<Rightarrow> string \<Rightarrow> (string, string) gomap" where
  "startup_vars cfg gw info ifName =
     [(''mtu'', string_of_nat (ig_MTU cfg)),
      (''client_tunnel_local_ip'', tp_ClientLocal (dv_IP info)), (''client_tunnel_remote_ip'', tp_ClientRemote (dv_IP info)),
      (''server_tunnel_local_ip'', tp_ServerLocal (dv_IP info)), (''server_tunnel_remote_ip'', tp_ServerRemote (dv_IP info)),
      (''tunnel_dev'', ifName), (''gateway_ip'', gw_IP gw), (''gateway_dev'', gw_Dev gw),
      (''server_ip'', ig_ServerHost cfg), (''tunnel_index'', gw_Index gw)]"

text \<open>The result is the error and the commands that were given to the shell; a nil handler is dereferenced.\<close>

definition startup :: "iface_world \<Rightarrow> iface_config \<Rightarrow> iface_gateway \<Rightarrow> tunnel_device \<Rightarrow> bool \<Rightarrow> (gerror, gerror option \<times> string list) res" where
  "startup w cfg gw info isUp =
     (case (if isUp then ig_InterfaceUp cfg else ig_InterfaceDown cfg) of
        None \<Rightarrow> Ok (Some ErrUnknown, [])
      | Some commands \<Rightarrow>
          (if commands = [] then Ok (None, [])
           else rbind (deref (dv_Handler info)) (\<lambda>(ifName, _).
             Ok (run_commands w (startup_vars cfg gw info ifName) commands []))))"

text \<open>
  \<open>up\<close> on Linux asks for the default route. An answer without one is an error, and the gateway of the
  adapter stays as it was.
\<close>

definition iface_up :: "iface_world \<Rightarrow> iface_config \<Rightarrow> iface_gateway \<Rightarrow> tunnel_device \<Rightarrow> (gerror, gerror option \<times> iface_gateway \<times> string list) res" where
  "iface_up w cfg gw info =
     (case wo_run w ''ip route show default'' of
        Inl e \<Rightarrow> Ok (Some e, gw, [])
      | Inr out \<Rightarrow>
          (case wo_gateway w out of
             None \<Rightarrow> Ok (Some ErrUnknown, gw, [])
           | Some (ip, dev) \<Rightarrow>
               (let gw1 = gw\<lparr>gw_IP := ip, gw_Dev := dev\<rparr>
                in rbind (startup w cfg gw1 info True) (\<lambda>(e, cmds). Ok (e, gw1, cmds)))))"

definition iface_Create :: "iface_world \<Rightarrow> iface_config \<Rightarrow> iface_gateway \<Rightarrow> tunnel_device
    \<Rightarrow> (gerror, gerror option \<times> iface_gateway \<times> tunnel_device \<times> string list) res" where
  "iface_Create w cfg gw ifc =
     (case wo_create w (ig_MTU cfg) of
        Inl e \<Rightarrow> Ok (Some e, gw, ifc\<lparr>dv_Handler := None\<rparr>, [])
      | Inr name \<Rightarrow>
          (let ifc1 = ifc\<lparr>dv_Handler := Some (name, True)\<rparr>
           in rbind (iface_up w cfg gw ifc1) (\<lambda>(err, gw1, cmds).
                Ok (err, gw1, (if err = None then ifc1\<lparr>dv_listening := True\<rparr> else ifc1), cmds))))"

definition DeviceType_Int :: "string \<Rightarrow> int" where
  "DeviceType_Int d = (if d = ''tun'' then 1 else if d = ''tap'' then 2 else 0)"

definition Interface_Name :: "tunnel_device \<Rightarrow> (gerror, string) res" where
  "Interface_Name i = (case dv_Handler i of None \<Rightarrow> Err ErrUnknown | Some (name, _) \<Rightarrow> Ok name)"

text \<open>\<open>Interface.Close\<close> of the entity, which the use cases call.\<close>

definition Interface_Close :: "tunnel_device \<Rightarrow> gerror option \<times> tunnel_device" where
  "Interface_Close i =
     (case dv_Handler i of
        None \<Rightarrow> (Some ErrInterfaceNotExists, i)
      | Some (name, _) \<Rightarrow> (None, i\<lparr>dv_cancelled := True, dv_Handler := Some (name, False)\<rparr>))"

text \<open>\<open>Iface.Close\<close>: closing a channel that is closed panics.\<close>

definition Iface_Close :: "iface_world \<Rightarrow> iface_config \<Rightarrow> iface_gateway \<Rightarrow> tunnel_device
    \<Rightarrow> (gerror, gerror option \<times> tunnel_device \<times> string list) res" where
  "Iface_Close w cfg gw info =
     (if dv_Handler info = None then Ok (None, info, [])
      else rbind (startup w cfg gw info False) (\<lambda>(err, cmds).
        if dv_Receiver info then Panic else Ok (err, info\<lparr>dv_Receiver := True\<rparr>, cmds)))"

text \<open>The end of the listener, when a read fails; its deferred call takes the interface down.\<close>

definition listener_ends :: "iface_world \<Rightarrow> iface_config \<Rightarrow> iface_gateway \<Rightarrow> tunnel_device \<Rightarrow> (gerror, tunnel_device \<times> string list) res" where
  "listener_ends w cfg gw ifc =
     (if \<not> dv_listening ifc then Ok (ifc, [])
      else rbind (Iface_Close w cfg gw ifc) (\<lambda>(err, ifc1, cmds). Ok (ifc1\<lparr>dv_listening := False\<rparr>, cmds)))"

section \<open>Up and down in pairs\<close>

datatype iface_event = EvClose | EvReadFails

definition iface_event :: "iface_world \<Rightarrow> iface_config \<Rightarrow> iface_gateway \<Rightarrow> iface_event \<Rightarrow> tunnel_device \<times> string list
    \<Rightarrow> (gerror, tunnel_device \<times> string list) res" where
  "iface_event w cfg gw ev s =
     (case ev of
        EvClose \<Rightarrow> Ok (snd (Interface_Close (fst s)), snd s)
      | EvReadFails \<Rightarrow> rbind (listener_ends w cfg gw (fst s)) (\<lambda>(d, cmds). Ok (d, snd s @ cmds)))"

fun iface_events :: "iface_world \<Rightarrow> iface_config \<Rightarrow> iface_gateway \<Rightarrow> iface_event list \<Rightarrow> tunnel_device \<times> string list
    \<Rightarrow> (gerror, tunnel_device \<times> string list) res" where
  "iface_events w cfg gw [] s = Ok s"
| "iface_events w cfg gw (ev # evs) s = rbind (iface_event w cfg gw ev s) (iface_events w cfg gw evs)"

definition device_inv :: "tunnel_device \<Rightarrow> bool" where
  "device_inv d \<longleftrightarrow> dv_Handler d \<noteq> None \<and> (dv_listening d \<longleftrightarrow> \<not> dv_Receiver d)"

lemma created_device:
  assumes "iface_Create w cfg gw ifc = Ok (None, gw1, d, cmds)" "\<not> dv_Receiver ifc"
  shows "device_inv d \<and> dv_listening d"
  using assms by (auto simp: iface_Create_def device_inv_def res_simps Let_def split: sum.splits if_splits)

lemma startup_returns: "dv_Handler info \<noteq> None \<Longrightarrow> \<exists>err cmds. startup w cfg gw info isUp = Ok (err, cmds)"
  by (cases "run_commands w (startup_vars cfg gw info (fst (the (dv_Handler info)))) (the (if isUp then ig_InterfaceUp cfg else ig_InterfaceDown cfg)) []")
    (auto simp: startup_def split: option.splits)

lemma startup_name: "map_option fst (dv_Handler d) = map_option fst (dv_Handler d1) \<Longrightarrow> dv_IP d = dv_IP d1
    \<Longrightarrow> startup w cfg gw d isUp = startup w cfg gw d1 isUp"
  by (cases "dv_Handler d"; cases "dv_Handler d1") (auto simp: startup_def startup_vars_def split: option.splits prod.splits)

text \<open>
  However often the use case closes it and whatever reads fail: nothing panics, and the commands for taking
  the interface down run once, when the first read fails.
\<close>

lemma iface_events_down_once:
  assumes "device_inv d" "startup w cfg gw d False = Ok (err, down)"
  shows "\<exists>d1. iface_events w cfg gw evs (d, cmds)
      = Ok (d1, if dv_listening d \<and> EvReadFails \<in> set evs then cmds @ down else cmds) \<and> device_inv d1"
  using assms
proof (induction evs arbitrary: d cmds)
  case (Cons ev evs)
  obtain name b where h: "dv_Handler d = Some (name, b)" using Cons.prems(1) by (auto simp: device_inv_def)
  show ?case
  proof (cases ev)
    case EvClose
    let ?d = "snd (Interface_Close d)"
    have inv: "device_inv ?d" and same: "dv_listening ?d = dv_listening d"
      using Cons.prems(1) by (auto simp: Interface_Close_def device_inv_def h)
    have "startup w cfg gw ?d False = Ok (err, down)"
      using Cons.prems(2) startup_name [of ?d d w cfg gw False] by (simp add: Interface_Close_def h)
    then show ?thesis using Cons.IH [OF inv, of cmds] same by (auto simp: EvClose iface_event_def)
  next
    case EvReadFails
    let ?d = "if dv_listening d then d\<lparr>dv_Receiver := True, dv_listening := False\<rparr> else d"
    have step: "iface_event w cfg gw ev (d, cmds) = Ok (?d, if dv_listening d then cmds @ down else cmds)"
      using Cons.prems by (auto simp: EvReadFails iface_event_def listener_ends_def Iface_Close_def h device_inv_def)
    have inv: "device_inv ?d" using Cons.prems(1) by (auto simp: device_inv_def)
    have "startup w cfg gw ?d False = Ok (err, down)"
      using Cons.prems(2) startup_name [of ?d d w cfg gw False] by simp
    then show ?thesis using Cons.IH [OF inv] step by (auto simp: EvReadFails)
  qed
qed simp

theorem interface_is_taken_down_once:
  assumes c: "iface_Create w cfg gw ifc = Ok (None, gw1, d, up_cmds)" and new: "\<not> dv_Receiver ifc" and ev: "EvReadFails \<in> set evs"
  shows "\<exists>d1 err down. startup w cfg gw1 d False = Ok (err, down)
    \<and> iface_events w cfg gw1 evs (d, up_cmds) = Ok (d1, up_cmds @ down) \<and> \<not> dv_listening d1 \<and> dv_Receiver d1"
proof -
  have d: "device_inv d" "dv_listening d" using created_device [OF c new] by auto
  then obtain err down where down: "startup w cfg gw1 d False = Ok (err, down)"
    using startup_returns [of d w cfg gw1 False] unfolding device_inv_def by blast
  have ended: "iface_events w cfg gw1 evs (d, cmds) = Ok (d1, x) \<Longrightarrow> EvReadFails \<in> set evs \<or> \<not> dv_listening d \<Longrightarrow> \<not> dv_listening d1" for d cmds d1 x
  proof (induction evs arbitrary: d cmds)
    case (Cons e es)
    from Cons.prems(1) obtain d2 cmds2 where s: "iface_event w cfg gw1 e (d, cmds) = Ok (d2, cmds2)" "iface_events w cfg gw1 es (d2, cmds2) = Ok (d1, x)"
      by (auto simp: res_simps)
    have "EvReadFails \<in> set es \<or> \<not> dv_listening d2"
      using s(1) Cons.prems(2)
      by (cases e) (auto simp: iface_event_def listener_ends_def Interface_Close_def Iface_Close_def res_simps split: if_splits option.splits)
    then show ?case by (rule Cons.IH [OF s(2)])
  qed simp
  obtain d1 where d1: "iface_events w cfg gw1 evs (d, up_cmds) = Ok (d1, up_cmds @ down)" "device_inv d1"
    using iface_events_down_once [OF d(1) down, of evs up_cmds] d(2) ev by auto
  show ?thesis using down d1 ended [OF d1(1)] ev by (auto simp: device_inv_def)
qed

text \<open>When the set-up fails after the device was made, the caller gets an error and the device stays open.\<close>

theorem failed_up_leaves_device_open:
  assumes "wo_create w (ig_MTU cfg) = Inr name" "wo_run w ''ip route show default'' = Inl e"
  shows "\<exists>d. iface_Create w cfg gw ifc = Ok (Some e, gw, d, []) \<and> dv_Handler d = Some (name, True) \<and> \<not> (dv_listening d \<and> \<not> dv_listening ifc)"
  using assms by (simp add: iface_Create_def iface_up_def Let_def)

end
