(* ===== verification/Wiring.thy ===== *)
theory Wiring
  imports Tunnel ServerCmd Retry AckAccumulator IfaceLife
begin

text \<open>
  How both programs are put together from their configuration: the adapters that
  \<open>createClientConnection\<close> (\<open>deploy/client/connection.go\<close>) and \<open>initAdapters\<close>
  (\<open>deploy/server/main.go\<close>) make, the codec of \<open>usecase/vars.go\<close>, the handlers that the use cases
  give to merger and network, and the start of the server.
\<close>

section \<open>Codec and sizes\<close>

definition fakeKey :: bytes where
  "fakeKey = replicate 32 (of_char (CHR ''0''))"

definition GetCodec :: "new_cipher \<Rightarrow> new_gcm \<Rightarrow> compress_lib \<Rightarrow> int \<Rightarrow> string \<Rightarrow> bool option \<Rightarrow> (gerror, tapir) res" where
  "GetCodec aes gcm cmp payloadSize encryptorMethod obfuscateData =
     rbind (deref obfuscateData) (\<lambda>obfuscate.
     rbind (GetEncryptor aes gcm fakeKey encryptorMethod) (\<lambda>e.
       Ok (NewTapirCodec cmp payloadSize obfuscate (e_GetLength e))))"

definition GetMaxAcknowledgementSize :: "new_cipher \<Rightarrow> new_gcm \<Rightarrow> tunnel_config \<Rightarrow> (gerror, int) res" where
  "GetMaxAcknowledgementSize aes gcm c =
     rbind (GetEncryptor aes gcm fakeKey (tn_Encryption c)) (\<lambda>e.
       Ok (tn_MTU c - e_GetLength e (int HeaderSize)))"

section \<open>Settings\<close>

text \<open>
  The settings that both configuration files have (\<open>Retry\<close>, \<open>Acknowledgement\<close>, \<open>StreamMerger\<close>,
  \<open>Tracing\<close>), and those of the network that only the adapters read.
\<close>

record program_settings =
  pg_MaxTimout :: int
  pg_BackoffFactor :: real
  pg_WaitingTimePercentOfRTO :: real
  pg_EndpointLifeTime :: int
  pg_ThreadingBy :: string
  pg_WaitingListMaxSize :: int
  pg_WaitingListMaxTTL :: int
  pg_StreamCheckInterval :: int
  pg_StreamTTL :: real
  pg_TracingSocket :: bool
  pg_TracingInterface :: bool

record socket_options =
  op_ReadBufferSize :: int
  op_WriteBufferSize :: int
  op_MultipathTCP :: "bool option"
  op_KeepaliveTimeout :: int
  op_KeepaliveInterval :: int
  op_KeepaliveProbes :: int

text \<open>The libraries and the system of a program.\<close>

record program_env =
  pe_aes :: new_cipher
  pe_gcm :: new_gcm
  pe_compress :: compress_lib
  pe_layers :: layer_parser
  pe_lookup :: "string \<Rightarrow> gerror + string list" \<comment> \<open>\<open>net.LookupIP\<close>\<close>
  pe_os :: string

definition seconds :: "int \<Rightarrow> int" where
  \<comment> \<open>\<open>time.Duration(n) * time.Second\<close>, in 64 bits\<close>
  "seconds n = sint (word_of_int (n * 1000000000) :: 64 word)"

definition iface_config_of :: "string \<Rightarrow> tunnel_config \<Rightarrow> string \<Rightarrow> iface_config" where
  "iface_config_of os tunnel host =
     \<lparr>ig_InterfaceUp = map_of (tn_InterfaceUp tunnel) os, ig_InterfaceDown = map_of (tn_InterfaceDown tunnel) os,
      ig_MTU = nat (tn_MTU tunnel), ig_ServerHost = host\<rparr>"

text \<open>\<open>wiface.New\<close> resolves the name of the server.\<close>

definition wiface_New :: "(string \<Rightarrow> gerror + string list) \<Rightarrow> iface_config \<Rightarrow> (gerror, iface_config) res" where
  "wiface_New lookup cfg =
     (if ig_ServerHost cfg = '''' then Ok cfg
      else case lookup (ig_ServerHost cfg) of
          Inl e \<Rightarrow> Err e
        | Inr [] \<Rightarrow> Err (ErrLibrary 3)
        | Inr (ip # _) \<Rightarrow> Ok (cfg\<lparr>ig_ServerHost := ip\<rparr>))"

section \<open>Handlers\<close>

text \<open>What a network adapter calls: nothing yet, the merger, or the use case.\<close>

datatype receiver_target = NoReceiver | ToMerger | ToUseCase

record net_handlers =
  nh_receiver :: receiver_target
  nh_disconnect :: bool
  nh_encryptor :: bool
  nh_statistic :: bool

definition no_handlers :: net_handlers where
  "no_handlers = \<lparr>nh_receiver = NoReceiver, nh_disconnect = False, nh_encryptor = False, nh_statistic = False\<rparr>"

definition merger_of :: "v1_merger + v2_merger \<Rightarrow> stream_merger" where
  "merger_of m = (case m of Inl a \<Rightarrow> MergerV1 a | Inr a \<Rightarrow> MergerV2 a)"

definition SetMergerHandlers :: "stream_merger \<Rightarrow> stream_merger" where
  "SetMergerHandlers m =
     (case m of MergerV1 a \<Rightarrow> MergerV1 (a\<lparr>vm_receiver := True, vm_disconnect := True\<rparr>)
      | MergerV2 a \<Rightarrow> MergerV2 (a\<lparr>vn_receiver := True, vn_disconnect := True\<rparr>))"

text \<open>\<open>init\<close> of the client and the middle of \<open>Start\<close> of the server set the same handlers.\<close>

definition set_handlers :: "network_config \<Rightarrow> stream_merger \<Rightarrow> net_handlers \<Rightarrow> stream_merger \<times> net_handlers" where
  "set_handlers cfg mg h =
     (if UseStreamMerger cfg
      then (SetMergerHandlers mg,
            h\<lparr>nh_receiver := ToMerger, nh_disconnect := True, nh_encryptor := True, nh_statistic := True\<rparr>)
      else (mg, h\<lparr>nh_receiver := ToUseCase, nh_disconnect := True, nh_encryptor := True, nh_statistic := True\<rparr>))"

section \<open>The client\<close>

record client_adapter =
  ca_transport :: transport
  ca_WriteBufferSize :: int
  ca_ReadBufferSize :: int
  ca_MultipathTCP :: bool
  ca_KeepaliveInterval :: int
  ca_sockDecoder :: packet_decoder

definition client_retryFactory :: "program_settings \<Rightarrow> socket_options \<Rightarrow> retry_config" where
  "client_retryFactory pg op =
     \<lparr>rc_MaxTimeout = seconds (pg_MaxTimout pg), rc_BackoffFactor = pg_BackoffFactor pg,
      rc_KeepaliveTimeout = seconds (op_KeepaliveTimeout op), rc_KeepaliveInterval = seconds (op_KeepaliveInterval op),
      rc_KeepaliveProbes = op_KeepaliveProbes op\<rparr>"

definition client_ackFactory :: "program_env \<Rightarrow> program_settings \<Rightarrow> tunnel_config \<Rightarrow> u32 \<Rightarrow> (gerror, ack_acc) res" where
  "client_ackFactory pe pg tunnel sessionID =
     rbind (GetMaxAcknowledgementSize (pe_aes pe) (pe_gcm pe) tunnel) (\<lambda>n.
       Ok (ack_New \<lparr>ac_MaxSize = n, ac_EndpointLifeTime = pg_EndpointLifeTime pg,
         ac_WaitingTimePercentOfRTO = pg_WaitingTimePercentOfRTO pg\<rparr> sessionID))"

definition merger_settings :: "program_settings \<Rightarrow> int \<Rightarrow> merger_config" where
  "merger_settings pg n =
     \<lparr>mc_ThreadingBy = pg_ThreadingBy pg, mc_WaitingListMaxSize = pg_WaitingListMaxSize pg,
      mc_WaitingListMaxTTL = pg_WaitingListMaxTTL pg, mc_StreamCheckInterval = pg_StreamCheckInterval pg,
      mc_StreamTTL = pg_StreamTTL pg, mc_StreamCount = n\<rparr>"

text \<open>\<open>client.New\<close>.\<close>

definition client_New :: "program_env \<Rightarrow> program_settings \<Rightarrow> socket_options \<Rightarrow> client_entry \<Rightarrow> (gerror, client_adapter) res" where
  "client_New pe pg op e =
     rbind (GetCodec (pe_aes pe) (pe_gcm pe) (pe_compress pe) (tn_MTU (en_Tunnel e)) (tn_Encryption (en_Tunnel e))
       (Some (nc_ObfuscateData (en_Server e)))) (\<lambda>codec.
     rbind (GetEncryptor (pe_aes pe) (pe_gcm pe) (en_Key e) (tn_Encryption (en_Tunnel e))) (\<lambda>enc.
     rbind (deref (op_MultipathTCP op)) (\<lambda>mptcp.
       Ok \<lparr>ca_transport = \<lparr>tr_codec = codec, tr_enc = enc, tr_MTU = tn_MTU (en_Tunnel e)\<rparr>,
         ca_WriteBufferSize = op_WriteBufferSize op, ca_ReadBufferSize = op_ReadBufferSize op, ca_MultipathTCP = mptcp,
         ca_KeepaliveInterval = seconds (op_KeepaliveInterval op),
         ca_sockDecoder = client_sockPacketDecoder (pe_layers pe) (pg_TracingSocket pg)\<rparr>)))"

record client_program =
  cp_adapter :: client_adapter
  cp_iface :: iface_config
  cp_ifaceDecoder :: packet_decoder
  cp_EndpointTTL :: int
  cp_mergerConfig :: merger_config
  cp_handlers :: net_handlers
  cp_uc :: client_uc

text \<open>\<open>NewClientUseCase\<close> with its \<open>init\<close>, on the merger and the handlers of the adapter.\<close>

definition client_usecase :: "program_env \<Rightarrow> client_lib \<Rightarrow> bytes \<Rightarrow> client_entry \<Rightarrow> stream_merger
    \<Rightarrow> (gerror, net_handlers \<times> client_uc) res" where
  "client_usecase pe lib clientID e mg =
     rbind (GetCodec (pe_aes pe) (pe_gcm pe) (pe_compress pe) (tn_MTU (en_Tunnel e)) (tn_Encryption (en_Tunnel e))
       (Some (nc_ObfuscateData (en_Server e)))) (\<lambda>codec.
     case set_handlers (en_Server e) mg no_handlers of (mg1, h) \<Rightarrow>
     rbind (NewClientUseCase lib clientID (client_of e) codec mg1) (\<lambda>uc. Ok (h, uc)))"

definition createClientConnection :: "program_env \<Rightarrow> client_lib \<Rightarrow> program_settings \<Rightarrow> socket_options \<Rightarrow> bytes \<Rightarrow> client_entry
    \<Rightarrow> (gerror, client_program) res" where
  "createClientConnection pe lib pg op clientID e =
     rbind (client_New pe pg op e) (\<lambda>adapter.
     rbind (wiface_New (pe_lookup pe) (iface_config_of (pe_os pe) (en_Tunnel e) (nc_Host (en_Server e)))) (\<lambda>ifc.
     rbind (merger_New (merger_settings pg 1)) (\<lambda>mg.
     rbind (client_usecase pe lib clientID e (merger_of mg)) (\<lambda>(h, uc).
       Ok \<lparr>cp_adapter = adapter, cp_iface = ifc,
         cp_ifaceDecoder = client_ifacePacketDecoder (pe_layers pe) (pg_TracingInterface pg),
         cp_EndpointTTL = duration (pg_StreamTTL pg) * 2, cp_mergerConfig = merger_settings pg 1,
         cp_handlers = h, cp_uc = uc\<rparr>))))"

section \<open>The server\<close>

record server_adapter =
  sa_transport :: transport
  sa_WriteBufferSize :: int
  sa_ReadBufferSize :: int
  sa_MultipathTCP :: bool
  sa_MaxSessionsCount :: nat
  sa_sockDecoder :: packet_decoder

definition server_retryFactory :: "program_settings \<Rightarrow> socket_options \<Rightarrow> retry_config" where
  "server_retryFactory pg op =
     \<lparr>rc_MaxTimeout = seconds (pg_MaxTimout pg), rc_BackoffFactor = pg_BackoffFactor pg,
      rc_KeepaliveTimeout = seconds (op_KeepaliveTimeout op), rc_KeepaliveInterval = seconds (op_KeepaliveInterval op),
      rc_KeepaliveProbes = op_KeepaliveProbes op\<rparr>"

definition server_ackFactory :: "program_env \<Rightarrow> program_settings \<Rightarrow> tunnel_config \<Rightarrow> u32 \<Rightarrow> (gerror, ack_acc) res" where
  "server_ackFactory pe pg tunnel sessionID =
     rbind (GetMaxAcknowledgementSize (pe_aes pe) (pe_gcm pe) tunnel) (\<lambda>n.
       Ok (ack_New \<lparr>ac_MaxSize = n, ac_EndpointLifeTime = pg_EndpointLifeTime pg,
         ac_WaitingTimePercentOfRTO = pg_WaitingTimePercentOfRTO pg\<rparr> sessionID))"

text \<open>The configuration of \<open>server.NewV1\<close>.\<close>

definition server_NewV1 :: "program_env \<Rightarrow> program_settings \<Rightarrow> socket_options \<Rightarrow> server_file \<Rightarrow> (gerror, server_adapter) res" where
  "server_NewV1 pe pg op cfg =
     rbind (GetCodec (pe_aes pe) (pe_gcm pe) (pe_compress pe) (tn_MTU (sf_Tunnel cfg)) (tn_Encryption (sf_Tunnel cfg))
       (Some (nc_ObfuscateData (sf_Network cfg)))) (\<lambda>codec.
     rbind (GetEncryptor (pe_aes pe) (pe_gcm pe) (sf_Key cfg) (tn_Encryption (sf_Tunnel cfg))) (\<lambda>enc.
     rbind (deref (op_MultipathTCP op)) (\<lambda>mptcp.
       Ok \<lparr>sa_transport = \<lparr>tr_codec = codec, tr_enc = enc, tr_MTU = tn_MTU (sf_Tunnel cfg)\<rparr>,
         sa_WriteBufferSize = op_WriteBufferSize op, sa_ReadBufferSize = op_ReadBufferSize op, sa_MultipathTCP = mptcp,
         sa_MaxSessionsCount = length (sf_Users cfg),
         sa_sockDecoder = server_sockPacketDecoder (pe_layers pe) (pg_TracingSocket pg)\<rparr>)))"

record server_program =
  sp_executor :: executor
  sp_adapter :: server_adapter
  sp_iface :: iface_config
  sp_ifaceDecoder :: packet_decoder
  sp_EndpointTTL :: int
  sp_mergerConfig :: merger_config
  sp_merger :: stream_merger

definition initAdapters :: "program_env \<Rightarrow> program_settings \<Rightarrow> socket_options \<Rightarrow> server_file \<Rightarrow> (gerror, server_program) res" where
  "initAdapters pe pg op cfg =
     rbind (command_New \<lparr>sy_ClientID = '''', sy_Shell = sf_Shell cfg\<rparr>) (\<lambda>cmd.
     rbind (server_NewV1 pe pg op cfg) (\<lambda>adapter.
     rbind (wiface_New (pe_lookup pe) (iface_config_of (pe_os pe) (sf_Tunnel cfg) '''')) (\<lambda>ifc.
     rbind (merger_New (merger_settings pg (int (length (sf_Users cfg))))) (\<lambda>mg.
       Ok \<lparr>sp_executor = cmd, sp_adapter = adapter, sp_iface = ifc,
         sp_ifaceDecoder = server_ifacePacketDecoder (pe_layers pe) (pg_TracingInterface pg),
         sp_EndpointTTL = duration (pg_StreamTTL pg) * 2,
         sp_mergerConfig = merger_settings pg (int (length (sf_Users cfg))), sp_merger = merger_of mg\<rparr>))))"

definition server_usecase :: "program_env \<Rightarrow> (string \<Rightarrow> bytes) \<Rightarrow> server_file \<Rightarrow> stream_merger
    \<Rightarrow> (gerror, tapir \<times> encryptor \<times> server_uc) res" where
  \<comment> \<open>\<open>NewServerUseCase\<close> with its codec and encryptor\<close>
  "server_usecase pe parseIP cfg mg =
     rbind (GetCodec (pe_aes pe) (pe_gcm pe) (pe_compress pe) (tn_MTU (sf_Tunnel cfg)) (tn_Encryption (sf_Tunnel cfg))
       (Some (nc_ObfuscateData (sf_Network cfg)))) (\<lambda>codec.
     rbind (GetEncryptor (pe_aes pe) (pe_gcm pe) (sf_Key cfg) (tn_Encryption (sf_Tunnel cfg))) (\<lambda>enc.
       Ok (codec, enc, NewServerUseCase (server_of parseIP cfg) mg)))"

text \<open>
  \<open>Start\<close>: the configuration is validated and observed, users and handlers are set, and every port
  is run. \<open>hostOk\<close> is the check of \<open>Validate\<close>, \<open>observe\<close> the answer of \<open>AddObserver\<close>, \<open>run\<close> that of the adapter.
\<close>

record started =
  sd_uc :: server_uc
  sd_handlers :: net_handlers
  sd_ports :: "(u16 \<times> u8) list" \<comment> \<open>the ports and protocols that are served\<close>

definition run_port :: "(u16 \<Rightarrow> u8 \<Rightarrow> gerror option) \<Rightarrow> u16 \<Rightarrow> u8 \<Rightarrow> started \<Rightarrow> started" where
  "run_port run port proto s = (case run port proto of None \<Rightarrow> s\<lparr>sd_ports := sd_ports s @ [(port, proto)]\<rparr> | Some _ \<Rightarrow> s)"

definition server_Start :: "(string \<Rightarrow> bool) \<Rightarrow> gerror option \<Rightarrow> (u16 \<Rightarrow> u8 \<Rightarrow> gerror option) \<Rightarrow> server_file
    \<Rightarrow> server_uc \<Rightarrow> ((gerror, unit) res \<times> started) option" where
  "server_Start hostOk observe run cfg uc =
     (let s = \<lparr>sd_uc = uc, sd_handlers = no_handlers, sd_ports = []\<rparr>
      in if sf_ServerHost cfg = '''' \<or> \<not> hostOk (sf_ServerHost cfg) then Some (Err (ErrLibrary 4), s)
         else case observe of
             None \<Rightarrow>
               (let uc1 = uc\<lparr>su_users := initUsers (su_cfg uc)\<rparr>
                in case set_handlers (sf_Network cfg) (su_merger uc1) no_handlers of (mg, h) \<Rightarrow>
                   map_option (\<lambda>s1. (Ok (), s1))
                     (server_listen (run_port run) (sf_Network cfg) \<lparr>sd_uc = uc1\<lparr>su_merger := mg\<rparr>, sd_handlers = h, sd_ports = []\<rparr>))
           | Some e \<Rightarrow> Some (Err e, s))"

section \<open>The transport that the settings give\<close>

text \<open>
  What is used of the ciphers: blocks and nonces as the standard library documents them, the nonces
  of size \<open>k\<close> and a tag of 16 bytes.
\<close>

definition ciphers_ok :: "new_cipher \<Rightarrow> new_gcm \<Rightarrow> nat \<Rightarrow> bool" where
  "ciphers_ok aes gcm k \<longleftrightarrow> (\<forall>key b. aes key = Some b \<longrightarrow> block_law b)
     \<and> (\<forall>key g. gcm key = Some g \<longrightarrow> aead_law g \<and> gcm_NonceSize g = k \<and> gcm_Overhead g = 16)"

definition cipher_length :: "nat \<Rightarrow> string \<Rightarrow> int \<Rightarrow> int" where
  "cipher_length k m n =
     (if m = ''none'' then n else if m = ''aes-256-ecb'' then ecb_GetLength n else n + int k + 16)"

lemma GetEncryptor_laws:
  assumes "ciphers_ok aes gcm k" "GetEncryptor aes gcm key m = Ok e"
  shows "encryptor_laws e k" "e_GetLength e = cipher_length k m"
proof -
  consider "m = ''none''" "e = NewEmpty key" | "m = ''aes-256-ecb''" "NewAESECB aes key = Ok e"
    | "m = ''aes-256-gcm''" "NewAESGCM gcm key = Ok e"
    using assms(2) by (auto simp: GetEncryptor_def split: if_splits)
  then have "encryptor_laws e k \<and> e_GetLength e = cipher_length k m"
  proof cases
    case 1
    have "encryptor_laws (NewEmpty key) k" ..
    then show ?thesis by (auto simp: 1 NewEmpty_def empty_GetLength_def cipher_length_def)
  next
    case 2
    then obtain b where b: "aes key = Some b" by (auto simp: NewAESECB_def split: option.splits)
    then have "encryptor_laws e k" using 2 assms(1) by (intro ecb_laws [of b aes key]) (auto simp: ciphers_ok_def)
    then show ?thesis using 2 b by (auto simp: NewAESECB_def cipher_length_def)
  next
    case 3
    then obtain g where g: "gcm key = Some g" by (auto simp: NewAESGCM_def split: option.splits)
    then have law: "aead_law g" "gcm_NonceSize g = k" "gcm_Overhead g = 16" using assms(1) by (auto simp: ciphers_ok_def)
    have "encryptor_laws e k" using gcm_laws [OF law(1) g 3(2)] law(2) by simp
    then show ?thesis using 3 g law by (auto simp: NewAESGCM_def gcm_GetLength_def cipher_length_def)
  qed
  then show "encryptor_laws e k" "e_GetLength e = cipher_length k m" by simp_all
qed

lemma cipher_length_bounds:
  "0 \<le> n \<Longrightarrow> n \<le> cipher_length k m n \<and> cipher_length k m n \<le> n + int k + 16"
  "0 \<le> i \<Longrightarrow> i \<le> n \<Longrightarrow> cipher_length k m i \<le> cipher_length k m n"
proof -
  have ecb: "ecb_GetLength j = 16 * (j div 16) + 16" if "0 \<le> j" for j
    using that by (cases "j = 0") (simp_all add: ecb_GetLength_def minus_mod_eq_mult_div [symmetric])
  show "n \<le> cipher_length k m n \<and> cipher_length k m n \<le> n + int k + 16" if "0 \<le> n"
  proof -
    have "0 \<le> n mod 16" "n mod 16 < 16" by simp_all
    then have "n mod 16 \<le> 16" "- (n mod 16) \<le> int k" by linarith+
    then show ?thesis using that by (simp add: cipher_length_def ecb minus_mod_eq_mult_div [symmetric])
  qed
  show "cipher_length k m i \<le> cipher_length k m n" if "0 \<le> i" "i \<le> n"
    using that by (simp add: cipher_length_def ecb zdiv_mono1)
qed

text \<open>A packet size that the codec can count in 16 bits, ciphered too.\<close>

definition mtu_ok :: "nat \<Rightarrow> int \<Rightarrow> bool" where
  "mtu_ok k mtu \<longleftrightarrow> 1 \<le> mtu \<and> mtu + int k + 16 < 65536"

lemma GetCodec_ok:
  assumes "ciphers_ok aes gcm k" "GetCodec aes gcm cmp mtu m ob = Ok codec" "compress_law cmp mtu" "mtu_ok k mtu"
  shows "tapir_ok codec" "tp_GetLength codec = cipher_length k m"
proof -
  obtain ob' e where e: "GetEncryptor aes gcm fakeKey m = Ok e" and codec: "codec = NewTapirCodec cmp mtu ob' (e_GetLength e)"
    using assms(2) by (auto simp: GetCodec_def res_simps)
  have len: "e_GetLength e = cipher_length k m" by (rule GetEncryptor_laws(2) [OF assms(1) e])
  show "tp_GetLength codec = cipher_length k m" by (simp add: codec len NewTapirCodec_def)
  have "cipher_length k m mtu \<le> mtu + int k + 16" using cipher_length_bounds(1) [of mtu k m] assms(4) by (simp add: mtu_ok_def)
  then have "cipher_length k m mtu < 65536" using assms(4) by (simp add: mtu_ok_def)
  then show "tapir_ok codec"
    using assms(3,4) cipher_length_bounds
    by (auto simp: tapir_ok_def codec len NewTapirCodec_def new_compressor_def mtu_ok_def)
qed

lemma settings_transport:
  assumes "ciphers_ok aes gcm k" "compress_law cmp mtu" "mtu_ok k mtu"
    and "GetCodec aes gcm cmp mtu m ob = Ok codec" "GetEncryptor aes gcm key m = Ok enc" "GetEncryptor aes gcm key' m = Ok user"
  shows "transport_ok k \<lparr>tr_codec = codec, tr_enc = enc, tr_MTU = mtu\<rparr> user"
  using GetCodec_ok [OF assms(1,4,2,3)] GetEncryptor_laws [OF assms(1,5)] GetEncryptor_laws [OF assms(1,6)]
  by (simp add: transport_ok_def)

section \<open>The handlers are set before they are used\<close>

lemma set_handlers_receiver:
  "nh_receiver (snd (set_handlers cfg mg h)) = (if UseStreamMerger cfg then ToMerger else ToUseCase)"
  by (simp add: set_handlers_def)

lemma SetMergerHandlers_creates: "fst (merger_CreateStream sid (SetMergerHandlers mg)) = Ok ()"
  by (cases mg) (auto simp: SetMergerHandlers_def merger_CreateStream_def v1_CreateStream_def v2_CreateStream_def)

lemma UseStreamMerger_host [simp]: "UseStreamMerger (cfg\<lparr>nc_Host := host\<rparr>) = UseStreamMerger cfg"
  by (simp add: UseStreamMerger_def)

lemma createClientConnection_Ok:
  assumes "createClientConnection pe lib pg op clientID e = Ok cp"
  shows "client_New pe pg op e = Ok (cp_adapter cp)"
    and "cp_ifaceDecoder cp = client_ifacePacketDecoder (pe_layers pe) (pg_TracingInterface pg)"
    and "nh_receiver (cp_handlers cp) = (if UseStreamMerger (en_Server e) then ToMerger else ToUseCase)"
    and "UseStreamMerger (en_Server e) \<Longrightarrow> fst (merger_CreateStream sid (cu_merger (cp_uc cp))) = Ok ()"
    and "client_reach lib (cp_uc cp)"
proof -
  obtain adapter ifc mg h uc where parts: "client_New pe pg op e = Ok adapter"
    "client_usecase pe lib clientID e (merger_of mg) = Ok (h, uc)"
    "cp_adapter cp = adapter" "cp_handlers cp = h" "cp_uc cp = uc"
    "cp_ifaceDecoder cp = client_ifacePacketDecoder (pe_layers pe) (pg_TracingInterface pg)"
    using assms by (auto simp: createClientConnection_def res_simps)
  then show "client_New pe pg op e = Ok (cp_adapter cp)"
    "cp_ifaceDecoder cp = client_ifacePacketDecoder (pe_layers pe) (pg_TracingInterface pg)" by simp_all
  obtain codec where new: "NewClientUseCase lib clientID (client_of e) codec (fst (set_handlers (en_Server e) (merger_of mg) no_handlers)) = Ok uc"
    "h = snd (set_handlers (en_Server e) (merger_of mg) no_handlers)"
    using parts(2) by (auto simp: client_usecase_def res_simps case_prod_beta)
  then show "nh_receiver (cp_handlers cp) = (if UseStreamMerger (en_Server e) then ToMerger else ToUseCase)"
    by (simp add: parts(4) set_handlers_receiver)
  show "client_reach lib (cp_uc cp)" unfolding parts(5) by (rule client_reach_new [OF new(1)])
  have mg: "cu_merger uc = fst (set_handlers (en_Server e) (merger_of mg) no_handlers)"
    using new(1) by (auto simp: NewClientUseCase_def client_reset_def res_simps)
  show "fst (merger_CreateStream sid (cu_merger (cp_uc cp))) = Ok ()" if "UseStreamMerger (en_Server e)"
    using that by (simp add: parts(5) mg set_handlers_def SetMergerHandlers_creates)
qed

lemma initAdapters_Ok:
  assumes "initAdapters pe pg op cfg = Ok sp"
  shows "server_NewV1 pe pg op cfg = Ok (sp_adapter sp)"
    and "sp_ifaceDecoder sp = server_ifacePacketDecoder (pe_layers pe) (pg_TracingInterface pg)"
  using assms by (auto simp: initAdapters_def res_simps)

section \<open>A client and its server\<close>

lemma server_NewV1_Ok:
  assumes "server_NewV1 pe pg op cfg = Ok b"
  shows "sa_sockDecoder b = server_sockPacketDecoder (pe_layers pe) (pg_TracingSocket pg)"
    and "GetCodec (pe_aes pe) (pe_gcm pe) (pe_compress pe) (tn_MTU (sf_Tunnel cfg)) (tn_Encryption (sf_Tunnel cfg))
       (Some (nc_ObfuscateData (sf_Network cfg))) = Ok (tr_codec (sa_transport b))"
    and "GetEncryptor (pe_aes pe) (pe_gcm pe) (sf_Key cfg) (tn_Encryption (sf_Tunnel cfg)) = Ok (tr_enc (sa_transport b))"
  using assms by (auto simp: server_NewV1_def res_simps)

lemma client_New_decoder:
  "client_New pe pg op e = Ok a \<Longrightarrow> ca_sockDecoder a = client_sockPacketDecoder (pe_layers pe) (pg_TracingSocket pg)"
  by (auto simp: client_New_def res_simps)

lemma adapters_agree:
  assumes "client_New pe' pg' op' e = Ok a" "server_NewV1 pe pg op cfg = Ok b"
    and "pe_aes pe' = pe_aes pe" "pe_gcm pe' = pe_gcm pe" "pe_compress pe' = pe_compress pe"
    and "tn_MTU (en_Tunnel e) = tn_MTU (sf_Tunnel cfg)" "tn_Encryption (en_Tunnel e) = tn_Encryption (sf_Tunnel cfg)"
      "nc_ObfuscateData (en_Server e) = nc_ObfuscateData (sf_Network cfg)" "en_Key e = sf_Key cfg"
  shows "ca_transport a = sa_transport b"
  using assms(1,2) unfolding client_New_def server_NewV1_def assms(3-9) by (auto simp: res_simps)

lemma server_NewV1_transport:
  assumes "server_NewV1 pe pg op cfg = Ok b" "ciphers_ok (pe_aes pe) (pe_gcm pe) k"
    and "compress_law (pe_compress pe) (tn_MTU (sf_Tunnel cfg))" "mtu_ok k (tn_MTU (sf_Tunnel cfg))"
    and "GetEncryptor (pe_aes pe) (pe_gcm pe) key (tn_Encryption (sf_Tunnel cfg)) = Ok user"
  shows "transport_ok k (sa_transport b) user"
  using assms(1) settings_transport [OF assms(2-4) _ _ assms(5)] by (auto simp: server_NewV1_def res_simps)

lemma exported_settings:
  "tn_MTU (en_Tunnel (entry_of cfg u)) = tn_MTU (sf_Tunnel cfg)"
  "tn_Encryption (en_Tunnel (entry_of cfg u)) = tn_Encryption (sf_Tunnel cfg)"
  "nc_ObfuscateData (en_Server (entry_of cfg u)) = nc_ObfuscateData (sf_Network cfg)" "en_Key (entry_of cfg u) = sf_Key cfg"
  "UseStreamMerger (en_Server (entry_of cfg u)) = UseStreamMerger (sf_Network cfg)"
  by (simp_all add: entry_of_def exported_entry_def)

text \<open>
  C18. A client that was set up from the connection its server exported fits the server. Both programs,
  started from their configurations, have the same transport: codec, encryptor and packet size; it opens
  what it seals, with every session key that the two may agree on. What the interface decoder of one side
  takes for the endpoint of a packet is what the socket decoder of the other takes for it. Both put the
  merger between network and use case, or none does, and where it is, it has its handlers: it creates streams.
\<close>

theorem exported_client_fits_server:
  assumes lib: "lib_roundtrips jlib cfg"
    and export: "handlerExport jlib d cfg = Ok buf" "importConnection jlib (FileBytes buf) conns = Ok conns1"
    and server: "initAdapters pe pg op cfg = Ok sp"
    and client: "createClientConnection pe' lib pg' op' clientID (last conns1) = Ok cp"
    and libs: "pe_aes pe' = pe_aes pe" "pe_gcm pe' = pe_gcm pe" "pe_compress pe' = pe_compress pe"
    and laws: "ciphers_ok (pe_aes pe) (pe_gcm pe) k" "compress_law (pe_compress pe) (tn_MTU (sf_Tunnel cfg))"
      "mtu_ok k (tn_MTU (sf_Tunnel cfg))"
  shows "ca_transport (cp_adapter cp) = sa_transport (sp_adapter sp)
     \<and> (GetEncryptor (pe_aes pe) (pe_gcm pe) key (tn_Encryption (sf_Tunnel cfg)) = Ok user
          \<longrightarrow> transport_ok k (sa_transport (sp_adapter sp)) user)
     \<and> (cp_ifaceDecoder cp data = Ok (Some i)
          \<longrightarrow> (\<exists>j. sa_sockDecoder (sp_adapter sp) data = Ok (Some j) \<and> pi_Endpoint j = pi_Endpoint i))
     \<and> (sp_ifaceDecoder sp data = Ok (Some i)
          \<longrightarrow> (\<exists>j. ca_sockDecoder (cp_adapter cp) data = Ok (Some j) \<and> pi_Endpoint j = pi_Endpoint i))
     \<and> nh_receiver (cp_handlers cp) = (if UseStreamMerger (sf_Network cfg) then ToMerger else ToUseCase)
     \<and> (UseStreamMerger (sf_Network cfg) \<longrightarrow> fst (merger_CreateStream sid (cu_merger (cp_uc cp))) = Ok ())"
proof -
  obtain u where "conns1 = conns @ [entry_of cfg u]" using export_import [OF lib export] by blast
  then have last: "last conns1 = entry_of cfg u" by simp
  note cp = createClientConnection_Ok [OF client [unfolded last]] and sp = initAdapters_Ok [OF server]
  have "ca_transport (cp_adapter cp) = sa_transport (sp_adapter sp)"
    by (rule adapters_agree [OF cp(1) sp(1) libs exported_settings(1-4)])
  moreover have "transport_ok k (sa_transport (sp_adapter sp)) user"
    if "GetEncryptor (pe_aes pe) (pe_gcm pe) key (tn_Encryption (sf_Tunnel cfg)) = Ok user"
    by (rule server_NewV1_transport [OF sp(1) laws that])
  moreover have "\<exists>j. sa_sockDecoder (sp_adapter sp) data = Ok (Some j) \<and> pi_Endpoint j = pi_Endpoint i"
    if "cp_ifaceDecoder cp data = Ok (Some i)"
    using upstream_decoders_agree [OF that [unfolded cp(2)]] unfolding server_NewV1_Ok(1) [OF sp(1)] by metis
  moreover have "\<exists>j. ca_sockDecoder (cp_adapter cp) data = Ok (Some j) \<and> pi_Endpoint j = pi_Endpoint i"
    if "sp_ifaceDecoder sp data = Ok (Some i)"
    using downstream_decoders_agree [OF that [unfolded sp(2)]] unfolding client_New_decoder [OF cp(1)] by metis
  ultimately show ?thesis using cp(3,4) exported_settings(5) by simp
qed

section \<open>The server comes up\<close>

definition served :: "(u16 \<Rightarrow> u8 \<Rightarrow> gerror option) \<Rightarrow> network_config \<Rightarrow> (u16 \<times> u8) list" where
  "served run cfg = filter (\<lambda>(port, proto). run port proto = None)
     (concat (map (\<lambda>port. (if nc_UseTCP cfg then [(port, ProtoTCP)] else []) @ (if nc_UseUDP cfg then [(port, ProtoUDP)] else []))
       (port_range (nc_PortMin cfg) (nc_PortMax cfg))))"

lemma run_port_fold:
  "fold (\<lambda>port s. let s1 = (if tcp then run_port run port ProtoTCP s else s)
      in if udp then run_port run port ProtoUDP s1 else s1) ports s
   = s\<lparr>sd_ports := sd_ports s @ filter (\<lambda>(port, proto). run port proto = None)
        (concat (map (\<lambda>port. (if tcp then [(port, ProtoTCP)] else []) @ (if udp then [(port, ProtoUDP)] else [])) ports))\<rparr>"
  by (induction ports arbitrary: s) (auto simp: run_port_def Let_def split: option.splits)

lemma server_serves:
  "server_listen (run_port run) cfg s =
     (if nc_PortMax cfg = 0xFFFF then None else Some (s\<lparr>sd_ports := sd_ports s @ served run cfg\<rparr>))"
  unfolding server_listens_on_every_port run_port_fold served_def ..

lemma server_usecase_started:
  assumes "server_usecase pe parseIP cfg mg = Ok (codec, enc, uc)"
  shows "uc\<lparr>su_users := initUsers (su_cfg uc), su_merger := mg'\<rparr> = NewServerUseCase (server_of parseIP cfg) mg'"
  using assms by (auto simp: server_usecase_def NewServerUseCase_def res_simps)

text \<open>
  C35. The start of the server. With a host name that \<open>Validate\<close> accepts and a configuration file that can be
  watched it serves every port of the range in the protocols of the configuration, those that fail to open
  apart; before the first is opened, users and handlers are set and the tables are empty, in the
  state from which the reachable states of the use case start. A last port of 65535 is the exception:
  \<open>Start\<close> never returns.
\<close>

theorem server_comes_up:
  assumes adapters: "initAdapters pe pg op cfg = Ok sp"
    and usecase: "server_usecase pe parseIP cfg (sp_merger sp) = Ok (codec, enc, uc)"
    and host: "sf_ServerHost cfg \<noteq> ''''" "hostOk (sf_ServerHost cfg)"
  shows "server_Start hostOk None run cfg uc =
     (if nc_PortMax (sf_Network cfg) = 0xFFFF then None
      else Some (Ok (), \<lparr>sd_uc = NewServerUseCase (server_of parseIP cfg) (fst (set_handlers (sf_Network cfg) (sp_merger sp) no_handlers)),
        sd_handlers = \<lparr>nh_receiver = (if UseStreamMerger (sf_Network cfg) then ToMerger else ToUseCase),
          nh_disconnect = True, nh_encryptor = True, nh_statistic = True\<rparr>,
        sd_ports = served run (sf_Network cfg)\<rparr>))
     \<and> server_reach lib (server_of parseIP cfg) mg (NewServerUseCase (server_of parseIP cfg) mg)
     \<and> codec = tr_codec (sa_transport (sp_adapter sp)) \<and> enc = tr_enc (sa_transport (sp_adapter sp))"
proof -
  have merger: "su_merger uc = sp_merger sp" using usecase by (auto simp: server_usecase_def NewServerUseCase_def res_simps)
  have same: "codec = tr_codec (sa_transport (sp_adapter sp)) \<and> enc = tr_enc (sa_transport (sp_adapter sp))"
    using server_NewV1_Ok(2,3) [OF initAdapters_Ok(1) [OF adapters]] usecase by (simp add: server_usecase_def)
  show ?thesis
    using host merger same reach_start
    by (simp add: server_Start_def server_serves set_handlers_def Let_def
        server_usecase_started [OF usecase] no_handlers_def)
qed

section \<open>Examples\<close>

text \<open>A server with AES in ECB mode and one user; the cipher of the example leaves blocks as they are.\<close>

definition demo_aes :: new_cipher where
  "demo_aes key = (if length key = 32 then Some \<lparr>bc_Encrypt = id, bc_Decrypt = id\<rparr> else None)"

definition demo_env :: program_env where
  "demo_env = \<lparr>pe_aes = demo_aes, pe_gcm = (\<lambda>_. None), pe_compress = plain_lib, pe_layers = (\<lambda>_. []),
     pe_lookup = (\<lambda>host. Inr [''10.1.1.1'']), pe_os = ''linux''\<rparr>"

definition demo_settings :: program_settings where
  "demo_settings = \<lparr>pg_MaxTimout = 30, pg_BackoffFactor = 1 / 5, pg_WaitingTimePercentOfRTO = 50, pg_EndpointLifeTime = 60,
     pg_ThreadingBy = ''endpoint'', pg_WaitingListMaxSize = 1048576, pg_WaitingListMaxTTL = 60, pg_StreamCheckInterval = 60,
     pg_StreamTTL = 300, pg_TracingSocket = False, pg_TracingInterface = False\<rparr>"

definition demo_options :: socket_options where
  "demo_options = \<lparr>op_ReadBufferSize = 131071, op_WriteBufferSize = 131071, op_MultipathTCP = Some True,
     op_KeepaliveTimeout = 60, op_KeepaliveInterval = 2, op_KeepaliveProbes = 20\<rparr>"

definition demo_user :: user where
  "demo_user = \<lparr>us_Name = [97], us_Password = [98]\<rparr>"

definition demo_sealed :: server_file where
  "demo_sealed = demo_made\<lparr>sf_Tunnel := (sf_Tunnel demo_made)\<lparr>tn_Encryption := ''aes-256-ecb''\<rparr>, sf_Key := replicate 32 7,
     sf_Users := [demo_user]\<rparr>"

definition sealed_lib :: cmd_lib where
  "sealed_lib = \<lparr>lb_putNetwork = (\<lambda>_. Some []), lb_getNetwork = (\<lambda>_. Some (sf_Network demo_sealed)),
     lb_putTunnel = (\<lambda>_. Some []), lb_getTunnel = (\<lambda>_. Some (sf_Tunnel demo_sealed)), lb_putKey = Some, lb_getKey = Some,
     lb_putEntry = (\<lambda>_. Some [7]), lb_getEntry = (\<lambda>_. Some (entry_of demo_sealed demo_user))\<rparr>"

lemma demo_laws: "ciphers_ok demo_aes (\<lambda>_. None) 12" "compress_law plain_lib n" "mtu_ok 12 1400"
  by (simp_all add: ciphers_ok_def demo_aes_def block_law_def compress_law_def plain_lib_def mtu_ok_def)

lemma demo_sealed_fields:
  "sf_Key demo_sealed = replicate 32 7" "tn_Encryption (sf_Tunnel demo_sealed) = ''aes-256-ecb''"
  "tn_MTU (sf_Tunnel demo_sealed) = 1400" "sf_Users demo_sealed = [demo_user]" "sf_Shell demo_sealed = ''bash -c''"
  "sf_ServerHost demo_sealed = ''vpn''"
  by (simp_all add: demo_sealed_def demo_made_def demo_file_def)

lemma demo_encryptor: "length key = 32 \<Longrightarrow> \<exists>e. GetEncryptor demo_aes gcm key ''aes-256-ecb'' = Ok e"
  by (simp add: GetEncryptor_def NewAESECB_def demo_aes_def)

lemma demo_codec: "\<exists>c. GetCodec demo_aes gcm lib mtu ''aes-256-ecb'' (Some ob) = Ok c"
proof -
  obtain e where "GetEncryptor demo_aes gcm fakeKey ''aes-256-ecb'' = Ok e"
    using demo_encryptor [of fakeKey] by (auto simp: fakeKey_def)
  then show ?thesis by (simp add: GetCodec_def)
qed

lemma demo_merger: "merger_New (merger_settings demo_settings n) = Ok (Inr (NewV2 False False))"
  by (simp add: merger_New_def merger_settings_def demo_settings_def)

lemma demo_server: "\<exists>sp. initAdapters demo_env demo_settings demo_options demo_sealed = Ok sp"
proof -
  obtain c where c: "GetCodec demo_aes (\<lambda>_. None) plain_lib 1400 ''aes-256-ecb''
      (Some (nc_ObfuscateData (sf_Network demo_sealed))) = Ok c" using demo_codec by blast
  obtain e where e: "GetEncryptor demo_aes (\<lambda>_. None) (replicate 32 7) ''aes-256-ecb'' = Ok e"
    using demo_encryptor [of "replicate 32 7"] by auto
  show ?thesis
    by (simp add: initAdapters_def command_New_def demo_sealed_fields server_NewV1_def demo_env_def c e demo_options_def
        wiface_New_def iface_config_of_def demo_merger)
qed

definition demo_net_lib :: client_lib where
  "demo_net_lib = \<lparr>cl_authResponse = \<lambda>_. Err EOF, cl_handshake = \<lambda>_. Err EOF, cl_aes = demo_aes, cl_gcm = (\<lambda>_. None),
     cl_PublicKey = id, cl_NewPublicKey = Ok, cl_ECDH = (\<lambda>a b. Ok [])\<rparr>"

lemma demo_client:
  "\<exists>cp. createClientConnection demo_env demo_net_lib demo_settings demo_options [9] (entry_of demo_sealed demo_user) = Ok cp"
proof -
  have e: "en_Key (entry_of demo_sealed demo_user) = replicate 32 7"
    "tn_Encryption (en_Tunnel (entry_of demo_sealed demo_user)) = ''aes-256-ecb''"
    by (simp_all add: exported_settings demo_sealed_fields)
  obtain c where c: "GetCodec demo_aes (\<lambda>_. None) plain_lib (tn_MTU (en_Tunnel (entry_of demo_sealed demo_user))) ''aes-256-ecb''
      (Some (nc_ObfuscateData (en_Server (entry_of demo_sealed demo_user)))) = Ok c" using demo_codec by blast
  obtain enc where enc: "GetEncryptor demo_aes (\<lambda>_. None) (replicate 32 7) ''aes-256-ecb'' = Ok enc"
    using demo_encryptor [of "replicate 32 7"] by auto
  show ?thesis
    by (simp add: createClientConnection_def client_New_def e c enc demo_env_def demo_options_def wiface_New_def
        demo_merger client_usecase_def NewClientUseCase_def demo_net_lib_def client_of_def case_prod_beta)
qed

theorem exported_client_fits_server_witness:
  "\<exists>sp cp user. initAdapters demo_env demo_settings demo_options demo_sealed = Ok sp
     \<and> createClientConnection demo_env demo_net_lib demo_settings demo_options [9] (entry_of demo_sealed demo_user) = Ok cp
     \<and> GetEncryptor demo_aes (\<lambda>_. None) (replicate 32 8) ''aes-256-ecb'' = Ok user
     \<and> ca_transport (cp_adapter cp) = sa_transport (sp_adapter sp) \<and> transport_ok 12 (sa_transport (sp_adapter sp)) user"
proof -
  obtain sp where sp: "initAdapters demo_env demo_settings demo_options demo_sealed = Ok sp" using demo_server by blast
  obtain cp where cp: "createClientConnection demo_env demo_net_lib demo_settings demo_options [9]
      (last ([] @ [entry_of demo_sealed demo_user])) = Ok cp" using demo_client by auto
  obtain user where user: "GetEncryptor demo_aes (\<lambda>_. None) (replicate 32 8) ''aes-256-ecb'' = Ok user"
    using demo_encryptor [of "replicate 32 8"] by auto
  have lib: "lib_roundtrips sealed_lib demo_sealed"
    by (simp add: lib_roundtrips_def jsonClone_def sealed_lib_def demo_sealed_fields)
  have export: "handlerExport sealed_lib (no_data\<lparr>cd_name := [97]\<rparr>) demo_sealed = Ok [7]"
    by (simp add: handlerExport_def user_named_def demo_sealed_fields demo_user_def no_data_def NetworkConfig_Clone_def
        TunnelConfig_Clone_def AuthenticationConfig_Clone_def jsonClone_def sealed_lib_def)
  have imported: "importConnection sealed_lib (FileBytes [7]) [] = Ok ([] @ [entry_of demo_sealed demo_user])"
    by (simp add: importConnection_def sealed_lib_def)
  have "ca_transport (cp_adapter cp) = sa_transport (sp_adapter sp) \<and> transport_ok 12 (sa_transport (sp_adapter sp)) user"
    using exported_client_fits_server [OF lib export imported sp cp refl refl refl, of 12 "replicate 32 8" user]
      demo_laws user by (simp add: demo_env_def demo_sealed_fields)
  then show ?thesis using sp cp user by auto
qed

theorem server_comes_up_witness:
  "\<exists>sp codec enc uc. initAdapters demo_env demo_settings demo_options demo_sealed = Ok sp
     \<and> server_usecase demo_env (\<lambda>_. [10, 0, 0, 1]) demo_sealed (sp_merger sp) = Ok (codec, enc, uc)
     \<and> map_option (\<lambda>r. sd_ports (snd r)) (server_Start (\<lambda>_. True) None (\<lambda>_ _. None) demo_sealed uc) = Some [(1000, ProtoTCP)]"
proof -
  obtain sp where sp: "initAdapters demo_env demo_settings demo_options demo_sealed = Ok sp" using demo_server by blast
  obtain c where c: "GetCodec demo_aes (\<lambda>_. None) plain_lib 1400 ''aes-256-ecb''
      (Some (nc_ObfuscateData (sf_Network demo_sealed))) = Ok c" using demo_codec by blast
  obtain e where e: "GetEncryptor demo_aes (\<lambda>_. None) (replicate 32 7) ''aes-256-ecb'' = Ok e"
    using demo_encryptor [of "replicate 32 7"] by auto
  obtain uc where uc: "server_usecase demo_env (\<lambda>_. [10, 0, 0, 1]) demo_sealed (sp_merger sp) = Ok (c, e, uc)"
    by (simp add: server_usecase_def demo_env_def demo_sealed_fields c e)
  have net: "nc_PortMin (sf_Network demo_sealed) = 1000" "nc_PortMax (sf_Network demo_sealed) = 1000"
    "nc_UseTCP (sf_Network demo_sealed)" "\<not> nc_UseUDP (sf_Network demo_sealed)"
    by (simp_all add: demo_sealed_def demo_made_def demo_file_def)
  have "port_range 1000 1000 = [1000]" by (simp add: port_range_def)
  then have "served (\<lambda>_ _. None) (sf_Network demo_sealed) = [(1000, ProtoTCP)]" by (simp add: served_def net)
  then show ?thesis
    using sp uc server_comes_up [OF sp uc, of "\<lambda>_. True" "\<lambda>_ _. None"] by (auto simp: demo_sealed_fields net)
qed

end
