(* ===== verification/Sockets.thy ===== *)
theory Sockets
  imports Wiring NetServer
begin

text \<open>
  How sockets are opened: \<open>Run\<close> of the client (\<open>adapter/client/client.go\<close>) and of both servers
  (\<open>adapter/server/server.v1.go\<close>, \<open>server.v2.go\<close>), the accept loop (\<open>tcp.go\<close>), the constructors that share
  one \<open>sync.Once\<close> (\<open>server.go\<close>), and the end of a connection (\<open>business/entity/network.go\<close>). The calls of the
  package \<open>net\<close> are arguments; the sockets that were opened are kept in a list.
\<close>

section \<open>Connections\<close>

definition Protocol_String :: "u8 \<Rightarrow> string" where
  "Protocol_String p = (if p = ProtoTCP then ''tcp4'' else if p = ProtoUDP then ''udp4'' else ''unknown'')"

text \<open>
  The old form of the key, which nothing calls any more. It writes the remote address as text and parses that again: a nil address
  has no text, an address that is not IPv4 (\<open>As4\<close>, or text without an address) and a port that has not 16 bits end in a panic.
  The third branch of the code, for a connection of gnet, is never reached: the second takes it.
\<close>

definition ParseAddrPort_String :: "net_addr \<Rightarrow> (gerror, bytes \<times> u16) res" where
  "ParseAddrPort_String addr =
     (case addr of
        NoAddr \<Rightarrow> Panic
      | TCPAddr ip port \<Rightarrow> if To4 ip \<noteq> [] \<and> 0 \<le> port \<and> port < 2 ^ 16 then Ok (To4 ip, word_of_int port) else Panic
      | UDPAddr ip port \<Rightarrow> if To4 ip \<noteq> [] \<and> 0 \<le> port \<and> port < 2 ^ 16 then Ok (To4 ip, word_of_int port) else Panic)"

definition KeyOld :: "connection \<Rightarrow> (gerror, bytes) res" where
  "KeyOld c =
     (let key = (\<lambda>addr.
        if addr = NoAddr then Panic
        else if c_Port c = 0 then Ok (replicate connectionKeySize 0)
        else rbind (ParseAddrPort_String addr) (\<lambda>(rIP, rPort).
          Ok (take connectionKeySize ((c_Proto c # le16 (c_Port c) @ rIP @ le16 rPort) @ replicate connectionKeySize 0))))
      in case c_TCPConn c of
           Some s \<Rightarrow> key (so_RemoteAddr s)
         | None \<Rightarrow> if c_UDPConn c \<noteq> None \<or> c_GNetConn c \<noteq> None then key (c_Addr c) else Panic)"

text \<open>
  Where the old key exists it is the key of today, on the sockets that the programs make: a TCP socket has a TCP address, a UDP connection
  the address of a datagram, and a connection of gnet the address of its peer.
\<close>

lemma KeyOld_is_Key:
  assumes old: "KeyOld c = Ok k"
    and tcp: "\<And>s. c_TCPConn c = Some s \<Longrightarrow> \<exists>ip port. so_RemoteAddr s = TCPAddr ip port"
    and udp: "\<And>s. c_TCPConn c = None \<Longrightarrow> c_UDPConn c = Some s \<Longrightarrow> \<exists>ip port. c_Addr c = UDPAddr ip port"
    and gnet: "\<And>s. c_TCPConn c = None \<Longrightarrow> c_UDPConn c = None \<Longrightarrow> c_GNetConn c = Some s \<Longrightarrow> c_Addr c = so_RemoteAddr s"
  shows "Connection_Key c = Ok k"
proof (cases "c_TCPConn c")
  case (Some s)
  then show ?thesis using old tcp
    by (fastforce simp: KeyOld_def Connection_Key_def ParseAddrPort_String_def key_bytes_def res_simps split: if_splits)
next
  case tcp0: None
  show ?thesis
  proof (cases "c_UDPConn c")
    case (Some s)
    then show ?thesis using old tcp0 udp
      by (fastforce simp: KeyOld_def Connection_Key_def ParseAddrPort_String_def key_bytes_def res_simps split: if_splits)
  next
    case None
    then show ?thesis using old tcp0 gnet
      by (cases "c_GNetConn c"; cases "c_Addr c")
        (fastforce simp: KeyOld_def Connection_Key_def ParseAddrPort_String_def key_bytes_def res_simps split: if_splits)+
  qed
qed

text \<open>It needs more: a connection without a port has a key today, and had none if its address was not known.\<close>

lemma KeyOld_needs_address:
  "KeyOld (new_connection\<lparr>c_UDPConn := Some s\<rparr>) = Panic"
  "Connection_Key (new_connection\<lparr>c_UDPConn := Some s\<rparr>) = Ok (replicate connectionKeySize 0)"
  by (simp_all add: KeyOld_def Connection_Key_def new_connection_def)

definition Connection_Close :: "(socket \<Rightarrow> (gerror, unit) res) \<Rightarrow> connection \<Rightarrow> (gerror, unit) res" where
  "Connection_Close close c =
     (case c_TCPConn c of
        Some so \<Rightarrow> close so
      | None \<Rightarrow> (case c_UDPConn c of
          Some so \<Rightarrow> close so
        | None \<Rightarrow> rbind (deref (c_GNetConn c)) close))"

definition host_port :: "string \<Rightarrow> u16 \<Rightarrow> string" where
  "host_port host port = host @ '':'' @ string_of_nat (unat port)"

text \<open>Options are set one after the other, the first error ends it.\<close>

fun set_options :: "gerror option list \<Rightarrow> (gerror, unit) res" where
  "set_options [] = Ok ()"
| "set_options (None # es) = set_options es"
| "set_options (Some e # es) = Err e"

section \<open>The client\<close>

record net_calls =
  nt_resolve :: "string \<Rightarrow> string \<Rightarrow> gerror + net_addr" \<comment> \<open>\<open>ResolveTCPAddr\<close>, \<open>ResolveUDPAddr\<close>\<close>
  nt_dial :: "string \<Rightarrow> net_addr \<Rightarrow> gerror + socket"
  nt_listen :: "bool \<Rightarrow> string \<Rightarrow> string \<Rightarrow> gerror option" \<comment> \<open>\<open>ListenConfig.Listen\<close>, with Multipath TCP or not\<close>
  nt_listenUDP :: "string \<Rightarrow> string \<Rightarrow> u16 \<Rightarrow> gerror + socket"
  nt_SetReadBuffer :: "socket \<Rightarrow> int \<Rightarrow> gerror option"
  nt_SetWriteBuffer :: "socket \<Rightarrow> int \<Rightarrow> gerror option"
  nt_SetKeepAlive :: "socket \<Rightarrow> bool \<Rightarrow> gerror option"
  nt_SetKeepAlivePeriod :: "socket \<Rightarrow> int \<Rightarrow> gerror option"

definition client_buffers :: "net_calls \<Rightarrow> client_adapter \<Rightarrow> socket \<Rightarrow> gerror option list" where
  "client_buffers nt cfg so =
     [if ca_ReadBufferSize cfg > 0 then nt_SetReadBuffer nt so (ca_ReadBufferSize cfg) else None,
      if ca_WriteBufferSize cfg > 0 then nt_SetWriteBuffer nt so (ca_WriteBufferSize cfg) else None]"

definition client_keepalive :: "net_calls \<Rightarrow> client_adapter \<Rightarrow> socket \<Rightarrow> gerror option list" where
  "client_keepalive nt cfg so =
     (if ca_KeepaliveInterval cfg \<noteq> 0
      then [nt_SetKeepAlive nt so True, nt_SetKeepAlivePeriod nt so (ca_KeepaliveInterval cfg)] else [])"

text \<open>The answer, and the sockets that are open after the call. The dialer with Multipath TCP is not used.\<close>

definition client_Run :: "net_calls \<Rightarrow> client_adapter \<Rightarrow> string \<Rightarrow> u16 \<Rightarrow> u8 \<Rightarrow> (gerror, connection) res \<times> socket list" where
  "client_Run nt cfg host port proto =
     (if proto = ProtoTCP then
        (case nt_resolve nt (Protocol_String proto) (host_port host port) of
           Inl e \<Rightarrow> (Err e, [])
         | Inr addr \<Rightarrow> (case nt_dial nt (Protocol_String proto) addr of
             Inl e \<Rightarrow> (Err e, [])
           | Inr so \<Rightarrow> (rbind (set_options (client_buffers nt cfg so @ client_keepalive nt cfg so)) (\<lambda>_.
               Ok (new_connection\<lparr>c_TCPConn := Some so, c_Port := port, c_Addr := so_RemoteAddr so, c_Proto := ProtoTCP\<rparr>)), [so])))
      else if proto = ProtoUDP then
        (case nt_resolve nt (Protocol_String proto) (host_port host port) of
           Inl e \<Rightarrow> (Err e, [])
         | Inr addr \<Rightarrow> (case nt_dial nt (Protocol_String proto) addr of
             Inl e \<Rightarrow> (Err e, [])
           | Inr so \<Rightarrow> (rbind (set_options (client_buffers nt cfg so)) (\<lambda>_.
               Ok (new_connection\<lparr>c_UDPConn := Some so, c_Addr := addr, c_Port := port, c_Proto := ProtoUDP\<rparr>)), [so])))
      else (Err (ErrLibrary 5), []))"

section \<open>The servers\<close>

text \<open>The constructors share one instance: the first call makes it, whichever it is.\<close>

datatype server_instance = InstanceV1 server_adapter | InstanceV2 server_adapter

definition once_Do :: "server_instance \<Rightarrow> server_instance option \<Rightarrow> server_instance option" where
  "once_Do made inst = (case inst of None \<Rightarrow> Some made | Some i \<Rightarrow> Some i)"

definition NewV1_instance :: "server_adapter \<Rightarrow> server_instance option \<Rightarrow> server_instance option" where
  "NewV1_instance cfg inst = once_Do (InstanceV1 cfg) inst"

definition NewV2_instance :: "server_adapter \<Rightarrow> server_instance option \<Rightarrow> server_instance option" where
  "NewV2_instance cfg inst = once_Do (InstanceV2 cfg) inst"

text \<open>The sizes of the buffers are given the other way round.\<close>

definition server_buffers :: "net_calls \<Rightarrow> server_adapter \<Rightarrow> socket \<Rightarrow> gerror option list" where
  "server_buffers nt cfg so = [nt_SetReadBuffer nt so (sa_WriteBufferSize cfg), nt_SetWriteBuffer nt so (sa_ReadBufferSize cfg)]"

text \<open>The accept loop: the sockets whose receiver is started, and whether the loop still runs.\<close>

datatype accept_event = AcceptFailed gerror | Accepted socket

fun listenerTCP :: "net_calls \<Rightarrow> server_adapter \<Rightarrow> accept_event list \<Rightarrow> socket list \<times> bool" where
  "listenerTCP nt cfg [] = ([], True)"
| "listenerTCP nt cfg (AcceptFailed e # evs) = listenerTCP nt cfg evs"
| "listenerTCP nt cfg (Accepted so # evs) =
     (case set_options (server_buffers nt cfg so) of
        Ok _ \<Rightarrow> (case listenerTCP nt cfg evs of (sos, b) \<Rightarrow> (so # sos, b))
      | _ \<Rightarrow> ([], False))"

text \<open>\<open>Run\<close> of \<open>V1\<close>: what then runs is an accept loop, or the receiver of a UDP socket.\<close>

datatype served_by = AcceptLoop u16 | ReceiverUDP socket

definition v1_Run :: "net_calls \<Rightarrow> server_adapter \<Rightarrow> string \<Rightarrow> u16 \<Rightarrow> u8 \<Rightarrow> (gerror, served_by) res \<times> socket list" where
  "v1_Run nt cfg host port proto =
     (if proto = ProtoTCP then
        (case nt_listen nt (sa_MultipathTCP cfg) (Protocol_String proto) (host_port host port) of
           Some e \<Rightarrow> (Err e, [])
         | None \<Rightarrow> (Ok (AcceptLoop port), []))
      else if proto = ProtoUDP then
        (case nt_listenUDP nt (Protocol_String proto) host port of
           Inl e \<Rightarrow> (Err e, [])
         | Inr so \<Rightarrow> (rbind (set_options (server_buffers nt cfg so)) (\<lambda>_. Ok (ReceiverUDP so)), [so]))
      else (Err (ErrLibrary 5), []))"

definition v1_run_error :: "net_calls \<Rightarrow> server_adapter \<Rightarrow> string \<Rightarrow> u16 \<Rightarrow> u8 \<Rightarrow> gerror option" where
  \<comment> \<open>the error that \<open>Start\<close> sees\<close>
  "v1_run_error nt cfg host port proto = (case fst (v1_Run nt cfg host port proto) of Err e \<Rightarrow> Some e | _ \<Rightarrow> None)"

text \<open>
  \<open>Run\<close> of \<open>V2\<close> always answers nil: gnet runs in a goroutine, and an error of it ends the process. The
  handler gets its state, and gnet the address; an unknown protocol ends the process (\<open>None\<close>).
\<close>

record v2_handler =
  vh_proto :: u8
  vh_port :: u16
  vh_control :: "udp_control option" \<comment> \<open>the table of instances, made for UDP only\<close>
  vh_maxSessionsCount :: nat

definition v2_Run :: "server_adapter \<Rightarrow> string \<Rightarrow> u16 \<Rightarrow> u8 \<Rightarrow> (gerror, unit) res \<times> (string \<times> v2_handler) option" where
  "v2_Run cfg host port proto =
     (let host = structs_If (host \<noteq> '''') host ''0.0.0.0'';
          srv = \<lparr>vh_proto = proto, vh_port = port, vh_control = None, vh_maxSessionsCount = sa_MaxSessionsCount cfg\<rparr>
      in (Ok (),
          if proto = ProtoTCP then Some (''tcp://'' @ host_port host port, srv)
          else if proto = ProtoUDP
            then Some (''udp://'' @ host_port host port, srv\<lparr>vh_control := Some (control_new (int (sa_MaxSessionsCount cfg)))\<rparr>)
          else None))"

section \<open>What holds\<close>

lemma set_options_Ok: "set_options es = Ok () \<longleftrightarrow> (\<forall>e\<in>set es. e = None)"
proof (induction es)
  case (Cons e es)
  then show ?case by (cases e) auto
qed simp

lemma set_options_append: "set_options (a @ b) = rbind (set_options a) (\<lambda>_. set_options b)"
  by (induction a rule: set_options.induct) simp_all

lemma set_options_no_panic: "set_options es \<noteq> Panic"
proof (induction es)
  case (Cons e es)
  then show ?case by (cases e) auto
qed simp

text \<open>The port of a connection is the server's, the protocol that of its socket.\<close>

lemma client_Run_Ok:
  assumes "client_Run nt cfg host port proto = (Ok conn, opened)"
  shows "c_Port conn = port \<and> c_Proto conn = proto \<and> Connection_Protocol conn = proto
    \<and> (\<exists>so. opened = [so] \<and> (c_TCPConn conn = Some so \<and> proto = ProtoTCP \<or> c_UDPConn conn = Some so \<and> c_TCPConn conn = None \<and> proto = ProtoUDP))"
  using assms
  by (auto simp: client_Run_def new_connection_def Connection_Protocol_def res_simps ProtoTCP_def ProtoUDP_def
      split: sum.splits if_splits)

lemma Connection_Close_opened:
  assumes "client_Run nt cfg host port proto = (Ok conn, opened)"
  shows "Connection_Close close conn = close (hd opened)"
  using client_Run_Ok [OF assms] by (auto simp: Connection_Close_def)

text \<open>
  A call of \<open>Run\<close> that fails may leave a socket behind: exactly when an option of it could not be set. Nothing
  refers to that socket any more.
\<close>

lemma failed_Run_leaks:
  "client_Run nt cfg host port proto = (Err e, opened) \<Longrightarrow>
   opened \<noteq> [] \<longleftrightarrow> (\<exists>so. opened = [so] \<and> (set_options (client_buffers nt cfg so) \<noteq> Ok ()
      \<or> proto = ProtoTCP \<and> set_options (client_keepalive nt cfg so) \<noteq> Ok ()))"
  by (auto simp: client_Run_def set_options_append res_simps split: sum.splits if_splits)

text \<open>
  The accept loop starts a receiver for every socket up to the first whose buffers cannot be set, and
  ends there: no later socket is accepted, although \<open>Run\<close> had answered that the port is served.
\<close>

lemma listenerTCP_ends:
  "listenerTCP nt cfg evs = (sos, running) \<longleftrightarrow>
     (running \<longleftrightarrow> (\<forall>so. Accepted so \<in> set evs \<longrightarrow> set_options (server_buffers nt cfg so) = Ok ()))
     \<and> sos = takeWhile (\<lambda>so. set_options (server_buffers nt cfg so) = Ok ()) (concat (map (\<lambda>ev. case ev of Accepted so \<Rightarrow> [so] | _ \<Rightarrow> []) evs))"
proof (induction nt cfg evs arbitrary: sos running rule: listenerTCP.induct)
  case (3 nt cfg so evs)
  then show ?case
    by (cases "set_options (server_buffers nt cfg so)"; cases "listenerTCP nt cfg evs")
      (auto simp: set_options_no_panic)
qed auto

text \<open>After the first constructor every other answers its instance, of the other version too.\<close>

lemma one_instance:
  "NewV1_instance a (NewV2_instance b inst) = NewV2_instance b inst"
  "NewV2_instance a (NewV1_instance b inst) = NewV1_instance b inst"
  by (simp_all add: NewV1_instance_def NewV2_instance_def once_Do_def split: option.splits)

end
