(* ===== verification/MessagePool.thy ===== *)
theory MessagePool
  imports Iface Retry
begin

text \<open>
  The pool of messages (\<open>business/entity/pool.go\<close>): the listener of an interface takes a message from it
  for every packet, and a timer of the retransmission puts its message back. A recycled message keeps its
  payload, with the array behind it; the listener writes over both.
\<close>

section \<open>The pool\<close>

text \<open>An idle message and the array behind its payload, which can be longer than the payload.\<close>

record idle_message =
  im_msg :: message
  im_array :: bytes

text \<open>
  \<open>sync.Pool\<close> answers any idle message, or makes a new one, as it likes: \<open>choice\<close>. A payload that is no slice of
  bytes fails the type assertion.
\<close>

definition pool_take :: "nat option \<Rightarrow> idle_message list \<Rightarrow> idle_message \<times> idle_message list" where
  "pool_take choice pool =
     (case choice of
        Some i \<Rightarrow> if i < length pool then (pool ! i, take i pool @ drop (Suc i) pool) else (\<lparr>im_msg = new_message, im_array = []\<rparr>, pool)
      | None \<Rightarrow> (\<lparr>im_msg = new_message, im_array = []\<rparr>, pool))"

definition MessagePool_Get :: "nat option \<Rightarrow> nat \<Rightarrow> idle_message list \<Rightarrow> (gerror, idle_message) res \<times> idle_message list" where
  "MessagePool_Get choice n pool =
     (case pool_take choice pool of (m, rest) \<Rightarrow>
        ((case m_Payload (im_msg m) of
            PNil \<Rightarrow> Ok (m\<lparr>im_msg := (im_msg m)\<lparr>m_Payload := PBytes (replicate n 0)\<rparr>, im_array := replicate n 0\<rparr>)
          | PBytes b \<Rightarrow>
              if length (im_array m) < n
              then Ok (m\<lparr>im_msg := (im_msg m)\<lparr>m_Payload := PBytes (replicate n 0)\<rparr>, im_array := replicate n 0\<rparr>)
              else Ok (m\<lparr>im_msg := (im_msg m)\<lparr>m_Payload := PBytes (take n (im_array m))\<rparr>\<rparr>)
          | _ \<Rightarrow> Panic), rest))"

definition MessagePool_Put :: "idle_message \<Rightarrow> idle_message list \<Rightarrow> idle_message list" where
  "MessagePool_Put m pool = pool @ [m\<lparr>im_msg := Message_Reset (im_msg m)\<rparr>]"

section \<open>The listener with the pool\<close>

text \<open>
  \<open>copy\<close> writes as many bytes as both slices have. The message of the pool is filled in place of a new one;
  when the packet cannot be decoded it is not put back.
\<close>

definition copy_into :: "bytes \<Rightarrow> bytes \<Rightarrow> bytes" where
  "copy_into dst src = take (length dst) src @ drop (length src) dst"

definition payload_bytes :: "payload \<Rightarrow> (gerror, bytes) res" where
  "payload_bytes p = (case p of PBytes b \<Rightarrow> Ok b | _ \<Rightarrow> Panic)"

definition pooled_listen_step :: "(bytes \<Rightarrow> (gerror, packet_info option) res) \<Rightarrow> string \<Rightarrow> int \<Rightarrow> nat option \<Rightarrow> iface_read
    \<Rightarrow> iface_listener \<times> idle_message list \<Rightarrow> (gerror, iface_listener \<times> idle_message list) res" where
  "pooled_listen_step decode ifName ttl choice ev st =
     (case st of (s, pool) \<Rightarrow>
        if il_closed s then Ok st
        else case ev of
          ReadError \<Rightarrow> Ok (s\<lparr>il_closed := True\<rparr>, pool)
        | ReadPacket data now1 now2 \<Rightarrow>
            (case MessagePool_Get choice (length data) pool of (got, pool1) \<Rightarrow>
              rbind got (\<lambda>m.
              case decode data of
                Err e \<Rightarrow> Ok (s, pool1)
              | Panic \<Rightarrow> Panic
              | Ok None \<Rightarrow> Panic
              | Ok (Some info) \<Rightarrow>
                  (let (i, s1) = getMessageID now1 (pi_Endpoint info) s
                   in rbind (payload_bytes (m_Payload (im_msg m))) (\<lambda>p.
                      let msg = (im_msg m)\<lparr>m_ID := i, m_Payload := PBytes (copy_into p data), m_PayloadLength := of_nat (length data),
                            m_PacketInfo := Some (info\<lparr>pi_IfName := ifName\<rparr>)\<rparr>
                      in Ok (evict ttl now2 (s1\<lparr>il_out := il_out s1 @ [msg]\<rparr>), pool1))))))"

section \<open>A recycled message is as good as a new one\<close>

text \<open>
  What \<open>Put\<close> leaves: every field but the payload is that of a new message, and the payload is a slice of bytes
  of the array, or none.
\<close>

definition idle_ok :: "idle_message \<Rightarrow> bool" where
  "idle_ok m \<longleftrightarrow> (\<exists>p. im_msg m = new_message\<lparr>m_Payload := p\<rparr> \<and> (p = PNil \<or> (\<exists>n. p = PBytes (take n (im_array m)))))"

definition pool_ok :: "idle_message list \<Rightarrow> bool" where
  "pool_ok pool \<longleftrightarrow> (\<forall>m\<in>set pool. idle_ok m)"

lemma MessagePool_Put_ok:
  assumes "pool_ok pool" "m_Payload (im_msg m) = PBytes (take n (im_array m))"
  shows "pool_ok (MessagePool_Put m pool)"
proof -
  have "Message_Reset (im_msg m) = new_message\<lparr>m_Payload := PBytes (take n (im_array m))\<rparr>"
    using assms(2) by (cases "im_msg m") (simp add: Message_Reset_def new_message_def)
  then show ?thesis using assms(1) by (auto simp: pool_ok_def MessagePool_Put_def idle_ok_def)
qed

lemma pool_take_ok:
  assumes "pool_ok pool" "pool_take choice pool = (m, rest)"
  shows "idle_ok m \<and> pool_ok rest"
proof -
  have "idle_ok \<lparr>im_msg = new_message, im_array = []\<rparr>" by (auto simp: idle_ok_def new_message_def)
  moreover have "idle_ok (pool ! i)" if "i < length pool" for i using assms(1) that by (simp add: pool_ok_def)
  moreover have "pool_ok (take i pool @ drop j pool)" for i j
    using assms(1) by (auto simp: pool_ok_def dest: in_set_takeD in_set_dropD)
  ultimately show ?thesis
    using assms by (auto simp: pool_take_def split: option.splits if_splits)
qed

lemma MessagePool_Get_ok:
  assumes "pool_ok pool" "MessagePool_Get choice n pool = (got, rest)"
  shows "pool_ok rest \<and> (\<exists>m b. got = Ok m \<and> im_msg m = new_message\<lparr>m_Payload := PBytes b\<rparr> \<and> length b = n
     \<and> n \<le> length (im_array m) \<and> b = take n (im_array m))"
proof -
  obtain m0 where m0: "pool_take choice pool = (m0, rest)" "idle_ok m0" "pool_ok rest"
    using assms pool_take_ok by (fastforce simp: MessagePool_Get_def split: prod.splits)
  then obtain p where p: "im_msg m0 = new_message\<lparr>m_Payload := p\<rparr>" "p = PNil \<or> (\<exists>k. p = PBytes (take k (im_array m0)))"
    by (auto simp: idle_ok_def)
  then show ?thesis using assms(2) m0(1,3) by (auto simp: MessagePool_Get_def min_def split: if_splits)
qed

lemma copy_into_all: "length dst = length src \<Longrightarrow> copy_into dst src = src"
  by (simp add: copy_into_def)



end
