(* ===== verification/RestState.thy ===== *)
theory RestState
  imports ServerProps
begin

text \<open>
  The state of the server as its HTTP interface shows it (\<open>adapter/http/server.go\<close>): the sessions as they are, and for
  every interface its connections in a form that JSON can carry. The router and the encoding are libraries.
\<close>

record shown_connection =
  sw_Protocol :: string
  sw_Local :: string
  sw_Remote :: string
  sw_SessionID :: u32
  sw_CreatedAt :: int
  sw_CompressionType :: u8

record shown_interface =
  wi_ConnectionsCount :: nat
  wi_Connections :: "shown_connection list"
  wi_SessionID :: u32

record state_response =
  sr_Sessions :: "(u32, session_info) gomap"
  sr_Interfaces :: "(string, shown_interface) gomap"

definition GetSessions :: "server_uc \<Rightarrow> (u32, session_info) gomap" where
  "GetSessions uc = su_sessions uc"

definition GetInterfaces :: "server_uc \<Rightarrow> (string, server_interface) gomap" where
  "GetInterfaces uc = su_interfaces uc"

text \<open>\<open>str\<close> is \<open>String\<close> of an address; \<open>String\<close> of a nil address panics.\<close>

definition addr_String :: "(net_addr \<Rightarrow> string) \<Rightarrow> net_addr \<Rightarrow> (gerror, string) res" where
  "addr_String str a = (if a = NoAddr then Panic else Ok (str a))"

definition shown :: "connection \<Rightarrow> string \<Rightarrow> string \<Rightarrow> string \<Rightarrow> shown_connection" where
  "shown c protocol local remote =
     \<lparr>sw_Protocol = protocol, sw_Local = local, sw_Remote = remote, sw_SessionID = c_SessionID c,
      sw_CreatedAt = c_CreatedAt c, sw_CompressionType = c_CompressionType c\<rparr>"

definition entityToConnection :: "(net_addr \<Rightarrow> string) \<Rightarrow> connection \<Rightarrow> (gerror, shown_connection) res" where
  "entityToConnection str c =
     (case c_TCPConn c of
        Some so \<Rightarrow>
          rbind (addr_String str (so_LocalAddr so)) (\<lambda>local.
          rbind (addr_String str (so_RemoteAddr so)) (\<lambda>remote. Ok (shown c ''TCP'' local remote)))
      | None \<Rightarrow>
          (case c_UDPConn c of
             Some so \<Rightarrow>
               rbind (addr_String str (so_LocalAddr so)) (\<lambda>local.
               rbind (addr_String str (c_Addr c)) (\<lambda>remote. Ok (shown c ''UDP'' local remote)))
           | None \<Rightarrow> Ok (shown c '''' '''' '''')))"

fun all_Ok :: "('a \<Rightarrow> (gerror, 'b) res) \<Rightarrow> 'a list \<Rightarrow> (gerror, 'b list) res" where
  "all_Ok f [] = Ok []"
| "all_Ok f (x # xs) = rbind (f x) (\<lambda>y. rbind (all_Ok f xs) (\<lambda>ys. Ok (y # ys)))"

definition show_interface :: "(net_addr \<Rightarrow> string) \<Rightarrow> server_interface \<Rightarrow> (gerror, shown_interface) res" where
  "show_interface str info =
     rbind (all_Ok (entityToConnection str) (si_Connections info)) (\<lambda>cs.
       Ok \<lparr>wi_ConnectionsCount = length (si_Connections info), wi_Connections = cs, wi_SessionID = si_SessionID info\<rparr>)"

fun show_interfaces :: "(net_addr \<Rightarrow> string) \<Rightarrow> (string, server_interface) gomap \<Rightarrow> (gerror, (string, shown_interface) gomap) res" where
  "show_interfaces str [] = Ok []"
| "show_interfaces str ((name, info) # rest) =
     rbind (show_interface str info) (\<lambda>w. rbind (show_interfaces str rest) (\<lambda>m. Ok ((name, w) # m)))"

definition handlerState :: "(net_addr \<Rightarrow> string) \<Rightarrow> server_uc \<Rightarrow> (gerror, state_response) res" where
  "handlerState str uc =
     rbind (show_interfaces str (GetInterfaces uc)) (\<lambda>ifs. Ok \<lparr>sr_Sessions = GetSessions uc, sr_Interfaces = ifs\<rparr>)"

section \<open>What is shown is there\<close>

lemma all_Ok_length: "all_Ok f xs = Ok ys \<Longrightarrow> length ys = length xs"
  by (induction xs arbitrary: ys) (auto simp: res_simps)

lemma show_interfaces_lookup:
  "show_interfaces str m = Ok m1 \<Longrightarrow>
   (case map_of m n of None \<Rightarrow> map_of m1 n = None
    | Some info \<Rightarrow> \<exists>w. map_of m1 n = Some w \<and> show_interface str info = (Ok w :: (gerror, shown_interface) res))"
proof (induction m arbitrary: m1)
  case (Cons p m)
  obtain name info where p: "p = (name, info)" by (cases p)
  obtain w rest where w: "show_interface str info = (Ok w :: (gerror, shown_interface) res)" "show_interfaces str m = (Ok rest :: (gerror, _) res)"
    "m1 = (name, w) # rest"
    using Cons.prems by (auto simp: p res_simps)
  then show ?case using Cons.IH [OF w(2)] by (simp add: p w(1,3) split: option.splits)
qed simp



end
