(* ===== verification/Gateways.thy ===== *)
theory Gateways
  imports IfaceLife ConfigParse
begin

text \<open>
  The set-up of a tunnel interface on macOS and Windows (\<open>adapter/wiface/iface.darwin.go\<close>, \<open>iface.windows.go\<close>):
  how the default gateway is found in the output of a command. The text is a list of characters, in ASCII.
\<close>

section \<open>Text\<close>

definition is_space :: "char \<Rightarrow> bool" where
  "is_space c \<longleftrightarrow> c \<in> {CHR 0x09, CHR 0x0A, CHR 0x0B, CHR 0x0C, CHR 0x0D, CHR '' ''}"

definition TrimSpace :: "string \<Rightarrow> string" where
  "TrimSpace s = rev (dropWhile is_space (rev (dropWhile is_space s)))"

text \<open>\<open>bufio.ScanLines\<close>: the lines without their ends; a last line without end counts if it is not empty.\<close>

definition drop_CR :: "string \<Rightarrow> string" where
  "drop_CR l = (if l \<noteq> [] \<and> last l = CHR 0x0D then butlast l else l)"

fun scan_lines :: "string \<Rightarrow> string \<Rightarrow> string list" where
  "scan_lines acc [] = (if acc = [] then [] else [drop_CR acc])"
| "scan_lines acc (c # cs) = (if c = CHR 0x0A then drop_CR acc # scan_lines [] cs else scan_lines (acc @ [c]) cs)"

fun has_prefix :: "string \<Rightarrow> string \<Rightarrow> bool" where
  "has_prefix [] s = True"
| "has_prefix (p # ps) s = (case s of [] \<Rightarrow> False | c # cs \<Rightarrow> c = p \<and> has_prefix ps cs)"

text \<open>\<open>strings.ReplaceAll(s, pat, "")\<close> for a pattern that is not empty.\<close>

function remove_all :: "string \<Rightarrow> string \<Rightarrow> string" where
  "remove_all pat s =
     (case s of [] \<Rightarrow> []
      | c # cs \<Rightarrow> if pat \<noteq> [] \<and> has_prefix pat s then remove_all pat (drop (length pat) s) else c # remove_all pat cs)"
  by pat_completeness auto
termination
  by (relation "measure (\<lambda>(pat, s). length s)") (auto simp: diff_less neq_Nil_conv)

declare remove_all.simps [simp del]

definition after_label :: "string \<Rightarrow> string \<Rightarrow> string" where
  "after_label lbl l = TrimSpace (remove_all lbl l)"

section \<open>macOS\<close>

text \<open>
  The loop over the lines. It ends as soon as gateway and device are known; both are fields of the adapter
  and keep what an earlier interface has put there.
\<close>

definition darwin_line :: "string \<Rightarrow> iface_gateway \<Rightarrow> iface_gateway" where
  "darwin_line line gw =
     (let l = TrimSpace line
      in if has_prefix ''gateway:'' l then gw\<lparr>gw_IP := after_label ''gateway:'' l\<rparr>
         else if has_prefix ''interface:'' l then gw\<lparr>gw_Dev := after_label ''interface:'' l\<rparr>
         else gw)"

fun darwin_scan :: "string list \<Rightarrow> iface_gateway \<Rightarrow> iface_gateway" where
  "darwin_scan [] gw = gw"
| "darwin_scan (l # ls) gw =
     (let gw1 = darwin_line l gw
      in if gw_IP gw1 \<noteq> '''' \<and> gw_Dev gw1 \<noteq> '''' then gw1 else darwin_scan ls gw1)"

definition darwin_up :: "iface_world \<Rightarrow> iface_config \<Rightarrow> iface_gateway \<Rightarrow> tunnel_device
    \<Rightarrow> (gerror, gerror option \<times> iface_gateway \<times> string list) res" where
  "darwin_up w cfg gw info =
     (case wo_run w ''route -n get default'' of
        Inl e \<Rightarrow> Ok (Some e, gw, [])
      | Inr out \<Rightarrow>
          (let gw1 = darwin_scan (scan_lines [] out) gw
           in rbind (startup w cfg gw1 info True) (\<lambda>(e, cmds). Ok (e, gw1, cmds))))"

text \<open>\<open>Create\<close> is the same on every system but for the name of the device, which the driver chooses.\<close>

definition create_with :: "(iface_gateway \<Rightarrow> tunnel_device \<Rightarrow> (gerror, gerror option \<times> iface_gateway \<times> string list) res)
    \<Rightarrow> iface_world \<Rightarrow> iface_config \<Rightarrow> iface_gateway \<Rightarrow> tunnel_device
    \<Rightarrow> (gerror, gerror option \<times> iface_gateway \<times> tunnel_device \<times> string list) res" where
  "create_with up w cfg gw ifc =
     (case wo_create w (ig_MTU cfg) of
        Inl e \<Rightarrow> Ok (Some e, gw, ifc\<lparr>dv_Handler := None\<rparr>, [])
      | Inr name \<Rightarrow>
          (let ifc1 = ifc\<lparr>dv_Handler := Some (name, True)\<rparr>
           in rbind (up gw ifc1) (\<lambda>(err, gw1, cmds).
                Ok (err, gw1, (if err = None then ifc1\<lparr>dv_listening := True\<rparr> else ifc1), cmds))))"

definition darwin_Create :: "iface_world \<Rightarrow> iface_config \<Rightarrow> iface_gateway \<Rightarrow> tunnel_device
    \<Rightarrow> (gerror, gerror option \<times> iface_gateway \<times> tunnel_device \<times> string list) res" where
  "darwin_Create w cfg = create_with (darwin_up w cfg) w cfg"

section \<open>Windows\<close>

text \<open>\<open>route_rx\<close> and \<open>index_rx\<close> are the first groups of the two regular expressions; the second has the name in it.\<close>

record windows_rx =
  route_rx :: "string \<Rightarrow> string option"
  index_rx :: "string \<Rightarrow> string \<Rightarrow> string option"

definition windows_up :: "windows_rx \<Rightarrow> iface_world \<Rightarrow> iface_config \<Rightarrow> iface_gateway \<Rightarrow> tunnel_device
    \<Rightarrow> (gerror, gerror option \<times> iface_gateway \<times> string list) res" where
  "windows_up rx w cfg gw info =
     (case wo_run w (''route print | findstr '' @ double_quote @ [CHR 0x5C] @ ''<0.0.0.0'' @ [CHR 0x5C] @ ''>'' @ double_quote) of
        Inl e \<Rightarrow> Ok (Some e, gw, [])
      | Inr out \<Rightarrow> (case route_rx rx (TrimSpace out) of
          None \<Rightarrow> Ok (Some ErrUnknown, gw, [])
        | Some ip \<Rightarrow>
            (let gw1 = gw\<lparr>gw_IP := ip\<rparr>
             in case wo_run w ''Get-NetAdapter | Sort-Object DeviceName | ft Name, IFIndex'' of
                  Inl e \<Rightarrow> Ok (Some e, gw1, [])
                | Inr out2 \<Rightarrow>
                    (case index_rx rx (case Interface_Name info of Ok name \<Rightarrow> name | _ \<Rightarrow> '''') out2 of
                       None \<Rightarrow> Ok (Some ErrUnknown, gw1, [])
                     | Some idx \<Rightarrow>
                         (let gw2 = gw1\<lparr>gw_Index := idx\<rparr>
                          in rbind (startup w cfg gw2 info True) (\<lambda>(e, cmds). Ok (e, gw2, cmds)))))))"

definition windows_Create :: "windows_rx \<Rightarrow> iface_world \<Rightarrow> iface_config \<Rightarrow> iface_gateway \<Rightarrow> tunnel_device
    \<Rightarrow> (gerror, gerror option \<times> iface_gateway \<times> tunnel_device \<times> string list) res" where
  "windows_Create rx w cfg = create_with (windows_up rx w cfg) w cfg"

section \<open>Which gateway the routes go through\<close>

lemma linux_Create: "iface_Create w cfg gw ifc = create_with (iface_up w cfg) w cfg gw ifc"
  by (simp add: iface_Create_def create_with_def)

text \<open>
  On macOS the first interface gets the gateway of the routing table. A later one gets at most one of its
  two fields anew: when both are known the loop ends after the first line.
\<close>

definition darwin_route :: "string \<Rightarrow> string \<Rightarrow> string list" where
  "darwin_route ip dev = [''   route to: default'', ''    gateway: '' @ ip, ''  interface: '' @ dev]"

lemma known_gateway_stays:
  assumes "gw_IP gw \<noteq> ''''" "gw_Dev gw \<noteq> ''''"
  shows "darwin_scan (darwin_route ip dev) gw = gw"
proof -
  have "darwin_line ''   route to: default'' gw = gw"
    by (simp add: darwin_line_def TrimSpace_def is_space_def Let_def)
  then show ?thesis using assms by (simp add: darwin_route_def Let_def)
qed

lemma new_gateway_found:
  "darwin_scan (darwin_route ''10.0.0.1'' ''en0'') \<lparr>gw_IP = '''', gw_Dev = '''', gw_Index = ''''\<rparr>
     = \<lparr>gw_IP = ''10.0.0.1'', gw_Dev = ''en0'', gw_Index = ''''\<rparr>"
  by (simp add: darwin_route_def darwin_line_def after_label_def TrimSpace_def is_space_def remove_all.simps Let_def)

text \<open>On Linux and Windows the gateway of the set-up is the one that was found now.\<close>

lemma linux_gateway_is_current:
  "iface_up w cfg gw info = Ok (None, gw1, cmds) \<Longrightarrow>
   \<exists>out. wo_run w ''ip route show default'' = Inr out \<and> wo_gateway w out = Some (gw_IP gw1, gw_Dev gw1)"
  by (auto simp: iface_up_def res_simps Let_def split: sum.splits option.splits prod.splits)

lemma windows_gateway_is_current:
  "windows_up rx w cfg gw info = Ok (None, gw1, cmds) \<Longrightarrow> \<exists>out. route_rx rx (TrimSpace out) = Some (gw_IP gw1)"
  by (auto simp: windows_up_def res_simps Let_def split: sum.splits option.splits prod.splits)

end
