(* ===== verification/ConfigTypes.thy ===== *)
theory ConfigTypes
  imports ConfigParse
begin

text \<open>
  Type soundness of the walk over a configuration (\<open>pkg/config/config.go\<close>). A value of the decoder
  of YAML has the type of its struct; \<open>Parse\<close> keeps it well typed, and on well-typed values it does
  not panic, except on a nil pointer among the elements of a slice.
\<close>

section \<open>Well-typed values\<close>

fun typed :: "go_type \<Rightarrow> go_value \<Rightarrow> bool"
  and typed_struct :: "struct_type \<Rightarrow> go_value list \<Rightarrow> bool"
  and typed_fields :: "struct_field list \<Rightarrow> go_value list \<Rightarrow> bool"
where
  "typed (TInt bits) v = (case v of VInt i \<Rightarrow> - (2 ^ (bits - 1)) \<le> i \<and> i < 2 ^ (bits - 1) | _ \<Rightarrow> False)"
| "typed (TUint bits) v = (case v of VUint n \<Rightarrow> n < 2 ^ bits | _ \<Rightarrow> False)"
| "typed TFloat v = (case v of VFloat _ \<Rightarrow> True | _ \<Rightarrow> False)"
| "typed TString v = (case v of VString _ \<Rightarrow> True | _ \<Rightarrow> False)"
| "typed TBool v = (case v of VBool _ \<Rightarrow> True | _ \<Rightarrow> False)"
| "typed TMap v = (case v of VNil \<Rightarrow> True | VMap _ \<Rightarrow> True | _ \<Rightarrow> False)"
| "typed TPtrBool v = (case v of VNil \<Rightarrow> True | VPtrBool _ \<Rightarrow> True | _ \<Rightarrow> False)"
| "typed (TPtr st) v = (case v of VNil \<Rightarrow> True | VPtr vs \<Rightarrow> typed_struct st vs | _ \<Rightarrow> False)"
| "typed (TSlice t) v = (case v of VNil \<Rightarrow> True | VSlice vs \<Rightarrow> list_all (typed t) vs | _ \<Rightarrow> False)"
| "typed_struct (Struct name fs) vs = typed_fields fs vs"
| "typed_fields [] vs = (vs = [])"
| "typed_fields (Field n tag t # fs) vs = (case vs of [] \<Rightarrow> False | v # vs' \<Rightarrow> typed t v \<and> typed_fields fs vs')"

text \<open>No element of a slice is nil, at any depth.\<close>

fun whole :: "go_type \<Rightarrow> go_value \<Rightarrow> bool"
  and whole_struct :: "struct_type \<Rightarrow> go_value list \<Rightarrow> bool"
  and whole_fields :: "struct_field list \<Rightarrow> go_value list \<Rightarrow> bool"
where
  "whole (TPtr st) v = (case v of VPtr vs \<Rightarrow> whole_struct st vs | _ \<Rightarrow> True)"
| "whole (TSlice t) v = (case v of VSlice vs \<Rightarrow> list_all (\<lambda>e. e \<noteq> VNil \<and> whole t e) vs | _ \<Rightarrow> True)"
| "whole _ v = True"
| "whole_struct (Struct name fs) vs = whole_fields fs vs"
| "whole_fields [] vs = True"
| "whole_fields (Field n tag t # fs) vs = (case vs of [] \<Rightarrow> True | v # vs' \<Rightarrow> whole t v \<and> whole_fields fs vs')"

text \<open>
  What \<open>Parse\<close> can walk over: slices have pointers to structs as elements, and no default. The zero
  value of an integer fits when it has a bit.
\<close>

fun parsable :: "go_type \<Rightarrow> bool"
  and parsable_struct :: "struct_type \<Rightarrow> bool"
  and parsable_fields :: "struct_field list \<Rightarrow> bool"
where
  "parsable (TPtr st) = parsable_struct st"
| "parsable (TSlice t) = ((case t of TPtr _ \<Rightarrow> True | _ \<Rightarrow> False) \<and> parsable t)"
| "parsable _ = True"
| "parsable_struct (Struct name fs) = parsable_fields fs"
| "parsable_fields [] = True"
| "parsable_fields (Field n tag t # fs) = ((is_slice t \<longrightarrow> tag \<in> {None, Some ''''}) \<and> parsable t \<and> parsable_fields fs)"

definition sound :: "go_type \<Rightarrow> go_value \<Rightarrow> bool" where
  "sound t v \<longleftrightarrow> typed t v \<and> whole t v"

definition sound_struct :: "struct_type \<Rightarrow> go_value list \<Rightarrow> bool" where
  "sound_struct st vs \<longleftrightarrow> typed_struct st vs \<and> whole_struct st vs"

definition sound_fields :: "struct_field list \<Rightarrow> go_value list \<Rightarrow> bool" where
  "sound_fields fs vs \<longleftrightarrow> typed_fields fs vs \<and> whole_fields fs vs"

lemmas sound_defs = sound_def sound_struct_def sound_fields_def

lemma zero_value_sound: "sound t (zero_value t)"
  by (cases t) (auto simp: sound_def)

lemma zero_fields_sound: "sound_struct st (zero_fields st)"
proof (cases st)
  case (Struct name fs)
  have "sound_fields fs (map (\<lambda>f. case f of Field _ _ t \<Rightarrow> zero_value t) fs)"
  proof (induction fs)
    case (Cons f fs)
    then show ?case using zero_value_sound by (cases f) (auto simp: sound_defs)
  qed (simp add: sound_fields_def)
  then show ?thesis by (simp add: Struct sound_defs)
qed

section \<open>Parsing keeps the types\<close>

text \<open>A result that is no panic, and if it is a value, a sound one.\<close>

definition good :: "('a \<Rightarrow> bool) \<Rightarrow> (config_error, 'a) res \<Rightarrow> bool" where
  "good P r \<longleftrightarrow> r \<noteq> Panic \<and> (\<forall>w. r = Ok w \<longrightarrow> P w)"

lemma good_simps [simp]: "good P (Ok w) = P w" "good P (Err e)" "\<not> good P Panic"
  by (simp_all add: good_def)

lemma good_bind: "good P r \<Longrightarrow> (\<And>w. P w \<Longrightarrow> good Q (f w)) \<Longrightarrow> good Q (rbind r f)"
  by (cases r) auto

lemma ParseInt_fits: "ParseInt s bits = Some i \<Longrightarrow> - (2 ^ (bits - 1)) \<le> i \<and> i < 2 ^ (bits - 1)"
  by (auto simp: ParseInt_def Let_def split: list.splits if_splits option.splits)

lemma ParseUint_fits: "ParseUint s bits = Some n \<Longrightarrow> n < 2 ^ bits"
  by (auto simp: ParseUint_def split: if_splits option.splits)

lemma good_map:
  assumes "\<And>x. x \<in> set xs \<Longrightarrow> good P (f x)"
  shows "good (list_all P) (map_with_error f xs)"
  using assms
proof (induction xs)
  case (Cons x xs)
  then have "good P (f x)" "good (list_all P) (map_with_error f xs)" by simp_all
  then show ?case by (cases "f x"; cases "map_with_error f xs") simp_all
qed simp

lemma sound_slice_elem:
  "sound (TSlice (TPtr st)) (VSlice vs) \<Longrightarrow> e \<in> set vs \<Longrightarrow> \<exists>fs. e = VPtr fs \<and> sound_struct st fs"
  by (cases e) (auto simp: sound_defs list_all_iff)

lemma parse_sound:
  shows "parsable_struct st \<Longrightarrow> sound_struct st vs \<Longrightarrow> good (sound_struct st) (Parse fp st vs)"
    and "parsable_fields fs \<Longrightarrow> sound_fields fs vs1 \<Longrightarrow> good (sound_fields fs) (parse_fields fp name fs vs1)"
    and "parsable_fields [f] \<Longrightarrow> sound (case f of Field n tag t \<Rightarrow> t) v \<Longrightarrow>
           good (sound (case f of Field n tag t \<Rightarrow> t)) (parse_field fp name f v)"
    and "parsable t \<Longrightarrow> (is_slice t \<Longrightarrow> d = '''') \<Longrightarrow> sound t v1 \<Longrightarrow> good (sound t) (setValue fp t d v1)"
proof (induction fp st vs and fp name fs vs1 and fp name f v and fp t d v1 rule: Parse_parse_fields_parse_field_setValue.induct)
  case (1 fp name fs vs)
  then show ?case by (simp add: sound_defs [abs_def])
next
  case (3 fp name f fs vs)
  obtain n tag t where f: "f = Field n tag t" by (cases f)
  obtain v vs' where vs: "vs = v # vs'" "sound t v" "sound_fields fs vs'"
    using "3.prems" by (cases vs) (auto simp: f sound_defs)
  have "good (sound t) (parse_field fp name f v)"
    using "3.IH"(1) [OF vs(1)] "3.prems"(1) vs(2) by (simp add: f del: parse_field.simps)
  moreover have "good (sound_fields fs) (parse_fields fp name fs vs')"
    using "3.IH"(2) [OF vs(1)] "3.prems"(1) vs(3) by (simp add: f)
  ultimately show ?case
    by (simp add: vs(1) del: parse_field.simps) (auto intro!: good_bind simp: f sound_defs simp del: parse_field.simps)
next
  case (4 fp name n tag t v)
  have t: "parsable t" "is_slice t \<Longrightarrow> tag \<in> {None, Some ''''}" "sound t v" using "4.prems" by auto
  consider "isSet t v" | d where "\<not> isSet t v" "tag = Some d" | "\<not> isSet t v" "tag = None" "is_ptr t \<or> is_slice t"
    | "\<not> isSet t v" "tag = None" "\<not> (is_ptr t \<or> is_slice t)"
    by (cases tag) blast+
  then show ?case
  proof cases
    case 2
    then show ?thesis using "4.IH"(2) [OF 2] t by auto
  next
    case 3
    then show ?thesis using "4.IH"(1) [OF 3(1,2) _ 3(3)] t by auto
  qed (use t in auto)
next
  case (12 fp st d v)
  consider "v = VNil" | vs where "v = VPtr vs" "sound_struct st vs"
    using "12.prems"(3) by (cases v) (auto simp: sound_defs)
  then show ?case
  proof cases
    case 1
    then have "good (sound_struct st) (Parse fp st (zero_fields st))"
      using "12.IH"(1) "12.prems"(1) zero_fields_sound by simp
    then show ?thesis by (simp add: 1) (rule good_bind, assumption, simp add: sound_defs)
  next
    case 2
    then have "good (sound_struct st) (Parse fp st vs)" using "12.IH"(2) "12.prems"(1) by simp
    then show ?thesis by (simp add: 2) (rule good_bind, assumption, simp add: sound_defs)
  qed
next
  case (13 fp t d v)
  obtain st where st: "t = TPtr st" "parsable_struct st" using "13.prems"(1) by (cases t) auto
  have d: "d = ''''" using "13.prems"(2) by simp
  consider "v = VNil" | vs where "v = VSlice vs" using "13.prems"(3) by (cases v) (auto simp: sound_defs)
  then show ?case
  proof cases
    case 1
    then show ?thesis by (simp add: d sound_defs)
  next
    case 2
    have "good (\<lambda>e. e \<noteq> VNil \<and> sound t e) (parse_elem fp t e)" if e: "e \<in> set vs" for e
    proof -
      obtain fs where fs: "e = VPtr fs" "sound_struct st fs" 
        using sound_slice_elem [OF "13.prems"(3) [unfolded 2 st(1)] e] by blast
      then have "good (sound_struct st) (Parse fp st fs)" using "13.IH" d 2 e st by auto
      then show ?thesis by (simp add: parse_elem_def st(1) fs(1)) (rule good_bind, assumption, simp add: sound_defs)
    qed
    then have "good (list_all (\<lambda>e. e \<noteq> VNil \<and> sound t e)) (map_with_error (parse_elem fp t) vs)" by (rule good_map)
    then show ?thesis unfolding 2 d setValue_slice
      by (rule good_bind) (auto simp: sound_defs list_all_iff)
  qed
qed (auto simp: sound_defs good_def split: option.splits go_value.splits dest: ParseInt_fits ParseUint_fits)

text \<open>The configurations of the program can be walked over.\<close>

lemma program_types_parsable: "parsable_struct ServerConfig_type" "parsable_struct ClientConfig_type"
  by (simp_all add: config_types)

text \<open>
  C40. \<open>Parse\<close> is type sound: on a well-typed configuration of a type like those of the program,
  with no nil element in a slice, it does not panic, and if it accepts, all fields of the result, at
  any depth, have values of their type: integers fit their widths and pointers point to structs
  with the right fields.
\<close>

theorem parse_is_type_sound:
  assumes "parsable_struct st" "typed_struct st vs" "whole_struct st vs"
  shows "Parse fp st vs \<noteq> Panic \<and> (\<forall>ws. Parse fp st vs = Ok ws \<longrightarrow> typed_struct st ws \<and> whole_struct st ws)"
  using parse_sound(1) [OF assms(1), of vs fp] assms(2,3) by (simp add: good_def sound_struct_def)

theorem parse_is_type_sound_witness:
  "\<exists>ws. Parse sample_floats ClientConfig_type (zero_fields ClientConfig_type) = Ok ws \<and> typed_struct ClientConfig_type ws"
proof -
  have "typed_struct ClientConfig_type (zero_fields ClientConfig_type)" "whole_struct ClientConfig_type (zero_fields ClientConfig_type)"
    using zero_fields_sound [of ClientConfig_type] by (simp_all add: sound_struct_def)
  then show ?thesis
    using parse_is_type_sound [OF program_types_parsable(2)] empty_client_config by blast
qed

text \<open>The hypothesis on slices is needed: a list of users with an empty entry panics the server.\<close>

lemma nil_user_panics:
  "setValue fp (TSlice (TPtr User_type)) '''' (VSlice [VNil]) = Panic"
  by simp

end
