(* ===== verification/ConfigFile.thy ===== *)
theory ConfigFile
  imports ServerCmd ConfigTypes
begin

text \<open>
  The configuration file of a running program (\<open>pkg/config/config.go\<close>): where it is, how it is saved, and how a change
  of it reaches the observers; and the server with it, whose users are managed by another process.
\<close>

section \<open>The handler\<close>

text \<open>
  \<open>New\<close> looks into the environment, then into the directory it is given, then next to the program. \<open>exe\<close> is
  \<open>os.Executable\<close>; \<open>join\<close> and \<open>dirOf\<close> are functions of \<open>path/filepath\<close>.
\<close>

definition config_path :: "(string \<Rightarrow> string \<Rightarrow> string) \<Rightarrow> (string \<Rightarrow> string) \<Rightarrow> string option \<Rightarrow> gerror + string
    \<Rightarrow> string \<Rightarrow> string \<Rightarrow> (gerror, string) res" where
  "config_path join dirOf env exe configFileName configFileDir =
     (case env of
        Some path \<Rightarrow> Ok path
      | None \<Rightarrow>
          if configFileDir \<noteq> '''' then Ok (join configFileDir configFileName)
          else case exe of Inl e \<Rightarrow> Err e | Inr ex \<Rightarrow> Ok (join (dirOf ex) configFileName))"

text \<open>An observer is what it does to the state \<open>'s\<close> of the program.\<close>

record ('c, 's) config_handler =
  ch_path :: string
  ch_data :: 'c
  ch_observers :: "('c \<Rightarrow> 's \<Rightarrow> 's) list"

definition config_Update :: "'c \<Rightarrow> ('c, 's) config_handler \<Rightarrow> ('c, 's) config_handler" where
  "config_Update data c = c\<lparr>ch_data := data\<rparr>"

definition config_GetPath :: "('c, 's) config_handler \<Rightarrow> string" where
  "config_GetPath c = ch_path c"

text \<open>\<open>Save\<close> on the content of the file; its errors are logged only. A write that fails leaves \<open>failed\<close> of it.\<close>

definition config_Save :: "('c \<Rightarrow> bytes option) \<Rightarrow> file_result option \<Rightarrow> ('c, 's) config_handler \<Rightarrow> file_result \<Rightarrow> file_result" where
  "config_Save marshal failed c file =
     (case marshal (ch_data c) of
        None \<Rightarrow> file
      | Some buf \<Rightarrow> (case failed of None \<Rightarrow> FileBytes buf | Some left \<Rightarrow> left))"

text \<open>The first observer starts the watcher, which can fail.\<close>

definition AddObserver :: "gerror option \<Rightarrow> ('c \<Rightarrow> 's \<Rightarrow> 's) \<Rightarrow> ('c, 's) config_handler
    \<Rightarrow> (gerror, unit) res \<times> ('c, 's) config_handler" where
  "AddObserver watcher f c =
     (case (if ch_observers c = [] then watcher else None) of
        Some e \<Rightarrow> (Err e, c)
      | None \<Rightarrow> (Ok (), c\<lparr>ch_observers := ch_observers c @ [f]\<rparr>))"

text \<open>
  A change of the file, as the goroutine of \<open>startWatcher\<close> takes it: what the observers make of the program. The file is decoded
  onto the data in use, which are the program's own. \<open>None\<close>: no observer is called, and the data are in whatever state
  decoding or parsing has left them.
\<close>

definition file_changed :: "(bytes \<Rightarrow> 'c \<Rightarrow> 'c option) \<Rightarrow> ('c \<Rightarrow> ('e, 'c) res) \<Rightarrow> file_result \<Rightarrow> ('c, 's) config_handler \<Rightarrow> 's
    \<Rightarrow> ('e, (('c, 's) config_handler \<times> 's) option) res" where
  "file_changed decode parse file c s =
     (case file of
        FileBytes buf \<Rightarrow>
          (case decode buf (ch_data c) of
             None \<Rightarrow> Ok None
           | Some data \<Rightarrow>
               (case parse data of
                  Err e \<Rightarrow> Ok None
                | Panic \<Rightarrow> Panic
                | Ok data1 \<Rightarrow> Ok (Some (c\<lparr>ch_data := data1\<rparr>, fold (\<lambda>f. f data1) (ch_observers c) s))))
      | _ \<Rightarrow> Ok None)"

text \<open>Observers get what \<open>Parse\<close> accepts only: no pointer of it is nil, as at the start of the program.\<close>

lemma observers_get_usable:
  "file_changed decode (Parse fp st) file c s = Ok (Some (c1, s1)) \<Longrightarrow> no_nil_struct st (ch_data c1)
     \<and> s1 = fold (\<lambda>f. f (ch_data c1)) (ch_observers c) s"
  using parse_fills(1) by (auto simp: file_changed_def split: file_result.splits option.splits res.splits)

lemma saved_file_comes_back:
  assumes "marshal (ch_data w) = Some buf" "decode buf (ch_data c) = Some (ch_data w)" "parse (ch_data w) = Ok (ch_data w)"
  shows "file_changed decode parse (config_Save marshal None w file) c s
    = Ok (Some (c\<lparr>ch_data := ch_data w\<rparr>, fold (\<lambda>f. f (ch_data w)) (ch_observers c) s))"
  using assms by (simp add: file_changed_def config_Save_def)

section \<open>Users of a running server\<close>

text \<open>\<open>Start\<close> of the server registers \<open>onConfigChanged\<close>.\<close>

definition server_observer :: "(string \<Rightarrow> bytes) \<Rightarrow> server_file \<Rightarrow> server_uc \<Rightarrow> server_uc" where
  "server_observer parseIP cfg uc = onConfigChanged (server_of parseIP cfg) uc"

lemma known_user_not_refused:
  assumes "lib_request lib (m_Payload msg) (su_authRequest uc) = Ok q" "m_SessionID msg = 0"
    and "map_of (su_users uc) (ar_Name q) = Some u" "us_Password u = ar_Password q"
  shows "commandAuthentication lib w msg conn uc \<noteq> Some (Err ErrUnauthorized, c, uc1)"
  using assms auth_finish_no_refusal [of w msg q]
  by (auto simp: commandAuthentication_def auth_session_def Let_def prod_eq_iff split: option.splits res.splits)

text \<open>
  C19. Users are created at a running server. The process of \<open>create\<close> adds a user to the configuration and saves it; the
  server sees the file change. From then on it does not refuse a client that asks for a new session with the name and password
  of that user, nor one with those of a user it knew before; sessions, interfaces and connections stay as they are.
\<close>

theorem created_user_can_log_in:
  assumes create: "handlerCreate d cfg = Ok cfg1" "users_ok (sf_Users cfg)"
    and disk: "marshal cfg1 = Some buf" "decode buf (ch_data c) = Some cfg1" "parse cfg1 = Ok cfg1"
    and watch: "AddObserver None (server_observer parseIP) c0 = (Ok (), c)" "ch_observers c0 = []"
    and saved: "config_Save marshal None \<lparr>ch_path = p, ch_data = cfg1, ch_observers = []\<rparr> old = new"
    and request: "lib_request lib (m_Payload msg) q0 = Ok q" "m_SessionID msg = 0"
      "ar_Name q = cd_name d \<and> ar_Password q = cd_password d
         \<or> (\<exists>u\<in>set (sf_Users cfg). us_Name u = ar_Name q \<and> us_Password u = ar_Password q)"
  shows "\<exists>c1 uc1. file_changed decode parse new c uc = Ok (Some (c1, uc1))
     \<and> (su_authRequest uc = q0 \<longrightarrow> commandAuthentication lib w msg conn uc1 \<noteq> Some (Err ErrUnauthorized, conn1, uc2))
     \<and> su_sessions uc1 = su_sessions uc \<and> su_interfaces uc1 = su_interfaces uc \<and> su_connections uc1 = su_connections uc"
proof -
  let ?uc1 = "onConfigChanged (server_of parseIP cfg1) uc"
  have observers: "ch_observers c = [server_observer parseIP]" using watch by (auto simp: AddObserver_def)
  have changed: "file_changed decode parse new c uc = Ok (Some (c\<lparr>ch_data := cfg1\<rparr>, ?uc1))"
    using saved_file_comes_back [of marshal "\<lparr>ch_path = p, ch_data = cfg1, ch_observers = []\<rparr>" buf decode c parse old uc] disk
    by (simp add: saved [symmetric] observers server_observer_def)
  have users: "sf_Users cfg1 = sf_Users cfg @ [\<lparr>us_Name = cd_name d, us_Password = cd_password d\<rparr>]"
    using create(1) by (auto simp: handlerCreate_def split: if_splits)
  have "\<exists>u\<in>set (sf_Users cfg1). us_Name u = ar_Name q \<and> us_Password u = ar_Password q"
    using request(3) by (auto simp: users)
  then obtain u where u: "u \<in> set (sf_Users cfg1)" "us_Name u = ar_Name q" "us_Password u = ar_Password q" by blast
  have "distinct (map us_Name (sf_Users cfg1))" using handlerCreate_users [OF create] by (simp add: users_ok_def)
  then have "map_of (su_users ?uc1) (ar_Name q) = Some u"
    using initUsers_lookup [of "server_of parseIP cfg1" u] u by (simp add: onConfigChanged_def server_of_def)
  then have "su_authRequest uc = q0 \<longrightarrow> commandAuthentication lib w msg conn ?uc1 \<noteq> Some (Err ErrUnauthorized, conn1, uc2)"
    using known_user_not_refused [of lib msg ?uc1 q u] request(1,2) u(3) by (simp add: onConfigChanged_def)
  with changed show ?thesis by (simp add: onConfigChanged_def)
qed

theorem created_user_can_log_in_witness:
  "\<exists>c1 uc1. file_changed (\<lambda>_ _. Some demo_made) (Ok :: server_file \<Rightarrow> (gerror, server_file) res) (FileBytes [1])
       \<lparr>ch_path = ''f'', ch_data = demo_file, ch_observers = [server_observer (\<lambda>_. [10, 0, 0, 1])]\<rparr>
       (NewServerUseCase (server_of (\<lambda>_. [10, 0, 0, 1]) demo_file) (MergerV1 (NewV1 True True))) = Ok (Some (c1, uc1))
     \<and> su_sessions uc1 = []"
proof -
  let ?uc = "NewServerUseCase (server_of (\<lambda>_. [10, 0, 0, 1]) demo_file) (MergerV1 (NewV1 True True))"
  let ?lib = "\<lparr>lib_request = (\<lambda>p r. Ok r), lib_handshake = (\<lambda>p r. Ok r), lib_aes = (\<lambda>_. None), lib_gcm = (\<lambda>_. None), lib_PublicKey = id,
     lib_NewPublicKey = Ok, lib_ECDH = (\<lambda>a b. Ok [])\<rparr>"
  let ?d = "no_data\<lparr>cd_name := [97], cd_password := [98]\<rparr>"
  let ?cfg = "demo_made\<lparr>sf_Users := []\<rparr>"
  let ?q = "\<lparr>ar_ClientID = [], ar_Name = [97], ar_Password = [98], ar_CompressionType = 0, ar_CompressionLevel = 0\<rparr>"
  have create: "handlerCreate ?d ?cfg = Ok demo_made"
    by (simp add: handlerCreate_def user_named_def no_data_def demo_made_def demo_file_def)
  have users: "users_ok (sf_Users ?cfg)" by (simp add: users_ok_def)
  have observer: "AddObserver None (server_observer (\<lambda>_. [10, 0, 0, 1])) \<lparr>ch_path = ''f'', ch_data = demo_file, ch_observers = []\<rparr>
    = (Ok (), \<lparr>ch_path = ''f'', ch_data = demo_file, ch_observers = [server_observer (\<lambda>_. [10, 0, 0, 1])]\<rparr>)"
    by (simp add: AddObserver_def)
  show ?thesis
    using created_user_can_log_in [OF create users, of "\<lambda>_. Some [1]" "[1]" "\<lambda>_ _. Some demo_made"
        "\<lparr>ch_path = ''f'', ch_data = demo_file, ch_observers = [server_observer (\<lambda>_. [10, 0, 0, 1])]\<rparr>" Ok, OF refl refl refl observer _ _ _ , of "''f''" FileNotExist "FileBytes [1]" ?lib new_message ?q ?q ?uc]
    by (auto simp: config_Save_def new_message_def no_data_def NewServerUseCase_def)
qed

end
