(* ===== verification/Shell.thy ===== *)
theory Shell
  imports ConfigParse
begin

text \<open>
  Commands given to the shell (\<open>pkg/command/command.go\<close>), the start of the client by the window
  (\<open>runClient\<close> of \<open>business/usecase/gui.go\<close>), and the paths of the application (\<open>pkg/resources/path.go\<close>). A process is what it
  writes and how it ends; functions of \<open>path/filepath\<close> and of the system are arguments.
\<close>

section \<open>Running commands\<close>

record process =
  pr_stdout :: string
  pr_stderr :: string
  pr_error :: "gerror option"

text \<open>What a process wrote as an error is answered as its output, without an error.\<close>

definition command_Run :: "(string list \<Rightarrow> process) \<Rightarrow> executor \<Rightarrow> string \<Rightarrow> string \<times> gerror option" where
  "command_Run exec c command =
     (let p = exec (command_argv c command)
      in case pr_error p of
           Some e \<Rightarrow> ('''', Some e)
         | None \<Rightarrow> if pr_stderr p \<noteq> '''' then (pr_stderr p, None) else (pr_stdout p, None))"

definition command_Start :: "(string list \<Rightarrow> gerror option) \<Rightarrow> executor \<Rightarrow> string \<Rightarrow> gerror option" where
  "command_Start start c command = start (command_argv c command)"

fun starts_with :: "string \<Rightarrow> string \<Rightarrow> bool" where
  "starts_with [] s = True"
| "starts_with (p # ps) s = (case s of [] \<Rightarrow> False | c # cs \<Rightarrow> c = p \<and> starts_with ps cs)"

fun contains :: "string \<Rightarrow> string \<Rightarrow> bool" where
  \<comment> \<open>\<open>strings.Index(s, pat) != -1\<close>\<close>
  "contains pat [] = (pat = [])"
| "contains pat (c # cs) = (starts_with pat (c # cs) \<or> contains pat cs)"

text \<open>
  \<open>RunAndWaitResponse\<close> waits for a line with one of the two answers. When the output ends without one,
  nothing is sent to the channel: it does not return (\<open>None\<close>).
\<close>

fun wait_response :: "string \<Rightarrow> string \<Rightarrow> string list \<Rightarrow> gerror option option" where
  "wait_response success error [] = None"
| "wait_response success error (line # rest) =
     (if contains success line then Some None
      else if contains error line then Some (Some (ErrLibrary 6))
      else wait_response success error rest)"

definition RunAndWaitResponse :: "(string list \<Rightarrow> gerror + string list) \<Rightarrow> executor \<Rightarrow> string \<Rightarrow> string \<Rightarrow> string \<Rightarrow> gerror option option" where
  "RunAndWaitResponse start c command success error =
     (case start (command_argv c command) of
        Inl e \<Rightarrow> Some (Some e)
      | Inr outp \<Rightarrow> wait_response success error outp)"

lemma wait_response_returns:
  "wait_response success error outp \<noteq> None \<longleftrightarrow> (\<exists>l\<in>set outp. contains success l \<or> contains error l)"
  by (induction outp) auto

lemma wait_response_first:
  "wait_response success error outp =
     (case dropWhile (\<lambda>l. \<not> contains success l \<and> \<not> contains error l) outp of
        [] \<Rightarrow> None
      | l # _ \<Rightarrow> Some (if contains success l then None else Some (ErrLibrary 6)))"
  by (induction outp) auto

section \<open>The client program\<close>

definition GetClientBinaryName :: "string \<Rightarrow> string" where
  "GetClientBinaryName os = (if os = ''windows'' then ''client.exe'' else ''client'')"

text \<open>The template of the system gets two variables; \<open>render\<close> is \<open>text/template\<close>.\<close>

definition runClient :: "(string \<Rightarrow> string \<Rightarrow> string) \<Rightarrow> (string \<Rightarrow> string) \<Rightarrow> (string \<Rightarrow> (string, string) gomap \<Rightarrow> gerror + string)
    \<Rightarrow> (string list \<Rightarrow> gerror option) \<Rightarrow> executor \<Rightarrow> string \<Rightarrow> client_runner \<Rightarrow> string \<Rightarrow> string \<Rightarrow> (gerror, unit) res" where
  "runClient join dirOf render start c os runner homeDir configPath =
     rbind (ClientRunner_Get os runner) (\<lambda>tmpl.
       case render tmpl [(''client'', join homeDir (GetClientBinaryName os)), (''config'', dirOf configPath)] of
         Inl e \<Rightarrow> Err e
       | Inr cmd \<Rightarrow> (case command_Start start c cmd of None \<Rightarrow> Ok () | Some e \<Rightarrow> Err e))"

section \<open>Paths\<close>

record app_paths =
  ap_Homepage :: string
  ap_HomepageWin :: string
  ap_IconsPath :: string
  ap_AppIconLinux :: string
  ap_AppIconDarwin :: string
  ap_AppIconWindows :: string
  ap_TrayIconLinux :: string
  ap_TrayIconDarwin :: string
  ap_TrayIconWindows :: string

text \<open>The system: its name, the debug variable, and where the user and the program are.\<close>

record app_system =
  as_os :: string
  as_debug :: bool
  as_UserHomeDir :: "string option"
  as_UserConfigDir :: "string option"
  as_Executable :: string
  as_join :: "string list \<Rightarrow> string"
  as_dir :: "string \<Rightarrow> string"

text \<open>The logger is set by \<open>Init\<close>, later: without a home directory its nil pointer is dereferenced.\<close>

definition CreateApplicationDir :: "app_system \<Rightarrow> (gerror, string) res" where
  "CreateApplicationDir s =
     (case as_UserHomeDir s of
        None \<Rightarrow> Panic
      | Some userHome \<Rightarrow>
          Ok (if as_os s = ''windows''
              then (case as_UserConfigDir s of Some dir \<Rightarrow> as_join s [dir, ''Tapir''] | None \<Rightarrow> as_join s [userHome, ''.tapir''])
              else as_join s [userHome, ''.tapir'']))"

definition getPath :: "app_system \<Rightarrow> string \<Rightarrow> string \<Rightarrow> string \<Rightarrow> string \<Rightarrow> string \<Rightarrow> string" where
  "getPath s homeDir dir linux darwin windows =
     (if \<not> as_debug s then
        (if as_os s = ''linux'' then as_join s [homeDir, dir, linux]
         else if as_os s = ''darwin'' then as_join s [as_dir s (as_Executable s), ''../Resources'', darwin]
         else as_join s [homeDir, dir, windows])
      else if as_os s = ''linux'' then as_join s [dir, linux]
      else if as_os s = ''darwin'' then as_join s [dir, darwin]
      else as_join s [dir, windows])"

definition GetApplicationIcon :: "app_system \<Rightarrow> string \<Rightarrow> app_paths \<Rightarrow> string" where
  "GetApplicationIcon s homeDir a =
     (let other = getPath s homeDir (ap_IconsPath a) (ap_AppIconLinux a) (ap_AppIconDarwin a) (ap_AppIconWindows a)
      in if as_os s = ''darwin'' \<and> as_debug s then ''''
         else if as_os s = ''windows'' then
           (case as_UserConfigDir s of
              Some dir \<Rightarrow> as_join s [dir, ''Tapir'', ap_IconsPath a, ap_AppIconWindows a] | None \<Rightarrow> other)
         else other)"

definition GetTrayIcon :: "app_system \<Rightarrow> string \<Rightarrow> app_paths \<Rightarrow> string" where
  "GetTrayIcon s homeDir a =
     (if as_os s \<noteq> ''windows''
      then getPath s homeDir (ap_IconsPath a) (ap_TrayIconLinux a) (ap_TrayIconDarwin a) (ap_TrayIconWindows a)
      else (case as_UserConfigDir s of
          Some dir \<Rightarrow> as_join s [dir, ''Tapir'', ap_IconsPath a, ap_TrayIconWindows a] | None \<Rightarrow> ap_TrayIconWindows a))"

definition GetHomepage :: "app_system \<Rightarrow> string \<Rightarrow> app_paths \<Rightarrow> string" where
  "GetHomepage s homeDir a =
     (if \<not> as_debug s
      then (if as_os s \<noteq> ''windows'' then as_join s [homeDir, ap_Homepage a] else ap_HomepageWin a)
      else ap_Homepage a)"

text \<open>
  On Linux, outside of debugging, everything the window loads is below the directory that \<open>CreateApplicationDir\<close> makes.
\<close>

lemma resources_in_home:
  assumes "CreateApplicationDir s = Ok homeDir" "as_os s = ''linux''" "\<not> as_debug s"
  shows "GetApplicationIcon s homeDir a = as_join s [homeDir, ap_IconsPath a, ap_AppIconLinux a]"
    and "GetTrayIcon s homeDir a = as_join s [homeDir, ap_IconsPath a, ap_TrayIconLinux a]"
    and "GetHomepage s homeDir a = as_join s [homeDir, ap_Homepage a]"
    and "\<exists>userHome. as_UserHomeDir s = Some userHome \<and> homeDir = as_join s [userHome, ''.tapir'']"
  using assms
  by (auto simp: GetApplicationIcon_def GetTrayIcon_def GetHomepage_def getPath_def CreateApplicationDir_def split: option.splits)

text \<open>Windows in debug mode: the icon is taken from the profile of the user all the same.\<close>

lemma windows_icon_ignores_debug:
  "as_os s = ''windows'' \<Longrightarrow> as_UserConfigDir s = Some dir \<Longrightarrow>
   GetApplicationIcon s homeDir a = as_join s [dir, ''Tapir'', ap_IconsPath a, ap_AppIconWindows a]"
  by (simp add: GetApplicationIcon_def)

text \<open>The window starts the client with the template of its system, which it has on every supported one.\<close>

lemma runClient_panics_iff:
  "runClient join dirOf render start c os runner homeDir configPath = Panic \<longleftrightarrow> os \<notin> {''linux'', ''darwin'', ''windows''}"
  by (auto simp: runClient_def ClientRunner_Get_def res_simps split: sum.splits option.splits)

end
