(* ===== verification/Analyzer.thy ===== *)
theory Analyzer
  imports Prelude
begin

text \<open>
  The tool that draws charts from the logs of a program (\<open>deploy/analyzer\<close>): which lines of a log become values of a chart.
  Decoding a line from JSON, parsing its time and drawing are libraries; a scanner gives the lines. The program chooses the log, the name of
  the chart and the test.
\<close>

section \<open>Charts\<close>

record log_entity =
  le_Rtt :: int
  le_Srtt :: real
  le_Rttvar :: real
  le_Rto :: real
  le_Time :: string
  le_WaitingListSize :: int
  le_Ack :: bool
  le_AckSize :: int
  le_TTL :: int
  le_Message :: string

text \<open>The axis of times \<open>'t\<close> and the named series of a chart.\<close>

record ('t, 'v) chart =
  ct_times :: "'t list"
  ct_series :: "(string \<times> 'v list) list"

definition empty_chart :: "string list \<Rightarrow> ('t, 'v) chart" where
  "empty_chart names = \<lparr>ct_times = [], ct_series = map (\<lambda>n. (n, [])) names\<rparr>"

text \<open>\<open>append\<close> to the series, one value for each.\<close>

definition add_row :: "'v list \<Rightarrow> ('t, 'v) chart \<Rightarrow> ('t, 'v) chart" where
  "add_row vs c = c\<lparr>ct_series := map (\<lambda>((n, xs), v). (n, xs @ [v])) (zip (ct_series c) vs)\<rparr>"

definition add_time :: "'t \<Rightarrow> ('t, 'v) chart \<Rightarrow> ('t, 'v) chart" where
  "add_time t c = c\<lparr>ct_times := ct_times c @ [t]\<rparr>"

text \<open>A line that cannot be decoded, or whose time cannot be parsed, is logged and left out.\<close>

definition retry_line :: "('l \<Rightarrow> log_entity option) \<Rightarrow> (string \<Rightarrow> 't option) \<Rightarrow> 'l \<Rightarrow> ('t, real) chart \<Rightarrow> ('t, real) chart" where
  "retry_line decode strToDateTime line c =
     (case decode line of
        None \<Rightarrow> c
      | Some ev \<Rightarrow>
          if le_Message ev \<noteq> ''timer stopped'' then c
          else case strToDateTime (le_Time ev) of
            None \<Rightarrow> c
          | Some t \<Rightarrow> add_row [of_int (le_Rtt ev) / 1000000000, le_Srtt ev / 1000000000, le_Rttvar ev / 1000000000, le_Rto ev]
              (add_time t c))"

definition chartRetry :: "('l \<Rightarrow> log_entity option) \<Rightarrow> (string \<Rightarrow> 't option) \<Rightarrow> 'l list \<Rightarrow> ('t, real) chart" where
  "chartRetry decode strToDateTime lines =
     fold (retry_line decode strToDateTime) lines (empty_chart [''RTT'', ''SRTT'', ''RTTVAR'', ''RTO''])"

definition merger_line :: "('l \<Rightarrow> log_entity option) \<Rightarrow> (string \<Rightarrow> 't option) \<Rightarrow> 'l \<Rightarrow> ('t, int) chart \<Rightarrow> ('t, int) chart" where
  "merger_line decode strToDateTime line c =
     (case decode line of
        None \<Rightarrow> c
      | Some ev \<Rightarrow>
          if le_Message ev \<noteq> ''received by stream merger'' then c
          else case strToDateTime (le_Time ev) of
            None \<Rightarrow> c
          | Some t \<Rightarrow> add_row [le_WaitingListSize ev, le_TTL ev] (add_time t c))"

definition chartMerger :: "('l \<Rightarrow> log_entity option) \<Rightarrow> (string \<Rightarrow> 't option) \<Rightarrow> 'l list \<Rightarrow> ('t, int) chart" where
  "chartMerger decode strToDateTime lines =
     fold (merger_line decode strToDateTime) lines (empty_chart [''Size of waiting list'', ''TTL of waiting list''])"

text \<open>The sizes of acknowledgements: the value is taken before the time is parsed, and a sent one adds no time.\<close>

record ('t) ack_chart =
  ak_times :: "'t list"
  ak_received :: "int list"
  ak_sent :: "int list"

definition ack_line :: "('l \<Rightarrow> log_entity option) \<Rightarrow> (string \<Rightarrow> 't option) \<Rightarrow> 'l \<Rightarrow> 't ack_chart \<Rightarrow> 't ack_chart" where
  "ack_line decode strToDateTime line c =
     (case decode line of
        None \<Rightarrow> c
      | Some ev \<Rightarrow>
          if \<not> le_Ack ev \<or> (le_Message ev \<noteq> ''sent to socket'' \<and> le_Message ev \<noteq> ''received from socket'') then c
          else if le_Message ev = ''sent to socket'' then c\<lparr>ak_sent := ak_sent c @ [le_AckSize ev]\<rparr>
          else
            (let c = c\<lparr>ak_received := ak_received c @ [le_AckSize ev]\<rparr>
             in case strToDateTime (le_Time ev) of None \<Rightarrow> c | Some t \<Rightarrow> c\<lparr>ak_times := ak_times c @ [t]\<rparr>))"

definition chartAcknowledgement :: "('l \<Rightarrow> log_entity option) \<Rightarrow> (string \<Rightarrow> 't option) \<Rightarrow> 'l list \<Rightarrow> 't ack_chart" where
  "chartAcknowledgement decode strToDateTime lines =
     fold (ack_line decode strToDateTime) lines \<lparr>ak_times = [], ak_received = [], ak_sent = []\<rparr>"

section \<open>The last log\<close>

text \<open>
  An entry of the directory: its name and extension, whether it is a directory, its time of modification; \<open>None\<close> if its
  information cannot be read. The file with the latest time is taken, the first of them.
\<close>

record dir_entry =
  de_Name :: string
  de_Ext :: string
  de_IsDir :: bool
  de_ModTime :: int

fun last_log :: "dir_entry option list \<Rightarrow> string \<times> int \<Rightarrow> (string \<times> int) option" where
  "last_log [] acc = Some acc"
| "last_log (None # fs) acc = None"
| "last_log (Some f # fs) (name, latest) =
     (if de_Ext f \<noteq> ''.log'' then last_log fs (name, latest)
      else if \<not> de_IsDir f \<and> latest < de_ModTime f then last_log fs (de_Name f, de_ModTime f)
      else last_log fs (name, latest))"

text \<open>\<open>zero\<close> is the zero time; \<open>None\<close> an error.\<close>

definition getLastLogFile :: "(string \<Rightarrow> string \<Rightarrow> string) \<Rightarrow> int \<Rightarrow> string \<Rightarrow> dir_entry option list option \<Rightarrow> string option" where
  "getLastLogFile join zero dir files =
     (case files of
        None \<Rightarrow> None
      | Some fs \<Rightarrow> (case last_log fs ('''', zero) of
          None \<Rightarrow> None
        | Some (name, _) \<Rightarrow> if name = '''' then None else Some (join dir name)))"

section \<open>The program\<close>

text \<open>\<open>path.Split\<close>, \<open>filepath.Ext\<close> and \<open>strings.TrimSuffix\<close> of the standard library, for slashes.\<close>

definition path_Split :: "string \<Rightarrow> string \<times> string" where
  "path_Split p =
     (let file = rev (takeWhile (\<lambda>c. c \<noteq> CHR ''/'') (rev p)) in (take (length p - length file) p, file))"

definition path_Ext :: "string \<Rightarrow> string" where
  "path_Ext p =
     (case dropWhile (\<lambda>c. c \<noteq> CHR ''.'' \<and> c \<noteq> CHR ''/'') (rev p) of
        c # _ \<Rightarrow> (if c = CHR ''.'' then CHR ''.'' # rev (takeWhile (\<lambda>c. c \<noteq> CHR ''.'' \<and> c \<noteq> CHR ''/'') (rev p)) else '''')
      | [] \<Rightarrow> '''')"

definition TrimSuffix :: "string \<Rightarrow> string \<Rightarrow> string" where
  "TrimSuffix s suf = (if suffix suf s then take (length s - length suf) s else s)"

text \<open>The name of the chart, if none was given: beside the log, after the log and the test.\<close>

definition out_name :: "string \<Rightarrow> string \<Rightarrow> string \<Rightarrow> string" where
  "out_name logFile outFile testType =
     (if outFile \<noteq> '''' then outFile
      else case path_Split logFile of
        (dir, file) \<Rightarrow> dir @ TrimSuffix file (path_Ext file) @ ''-'' @ testType @ ''.html'')"

datatype 't drawing = RetryDrawing "('t, real) chart" | MergerDrawing "('t, int) chart" | AckDrawing "'t ack_chart"

text \<open>
  \<open>main\<close>: \<open>read\<close> opens a log and gives its lines, \<open>write\<close> renders a chart into a file. \<open>Inl\<close> is the end by \<open>Fatalf\<close>,
  \<open>None\<close> there that no log was found; a test of another name draws nothing.
\<close>

definition analyzer_main :: "('l \<Rightarrow> log_entity option) \<Rightarrow> (string \<Rightarrow> 't option) \<Rightarrow> (string \<Rightarrow> 'e + 'l list) \<Rightarrow> (string \<Rightarrow> 't drawing \<Rightarrow> 'e option)
    \<Rightarrow> string option \<Rightarrow> string \<Rightarrow> string \<Rightarrow> string \<Rightarrow> 'e option + (string \<times> 't drawing) option" where
  "analyzer_main decode strToDateTime read write lastLog logFile outFile testType =
     (case (if logFile = '''' then lastLog else Some logFile) of
        None \<Rightarrow> Inl None
      | Some l \<Rightarrow>
          (let out = out_name l outFile testType;
               draw = (\<lambda>mk. case read l of
                   Inl e \<Rightarrow> Inl (Some e)
                 | Inr lines \<Rightarrow> (case write out (mk lines) of Some e \<Rightarrow> Inl (Some e) | None \<Rightarrow> Inr (Some (out, mk lines))))
           in if testType = ''retry'' then draw (\<lambda>lines. RetryDrawing (chartRetry decode strToDateTime lines))
              else if testType = ''merger'' then draw (\<lambda>lines. MergerDrawing (chartMerger decode strToDateTime lines))
              else if testType = ''ack'' then draw (\<lambda>lines. AckDrawing (chartAcknowledgement decode strToDateTime lines))
              else Inr None))"

lemma takeWhile_rev_file: "CHR ''/'' \<notin> set file \<Longrightarrow> dir = '''' \<or> last dir = CHR ''/'' \<Longrightarrow> path_Split (dir @ file) = (dir, file)"
proof -
  assume "CHR ''/'' \<notin> set file" "dir = '''' \<or> last dir = CHR ''/''"
  then have "takeWhile (\<lambda>c. c \<noteq> CHR ''/'') (rev file @ rev dir) = rev file"
    by (cases dir rule: rev_cases) (auto simp: takeWhile_append)
  then show "path_Split (dir @ file) = (dir, file)" by (simp add: path_Split_def)
qed

text \<open>The chart of \<open>dir/stem.log\<close> is \<open>dir/stem-test.html\<close>.\<close>

lemma chart_beside_log:
  assumes "CHR ''/'' \<notin> set stem" "dir = '''' \<or> last dir = CHR ''/''"
  shows "out_name (dir @ stem @ ''.log'') '''' test = dir @ stem @ ''-'' @ test @ ''.html''"
proof -
  have "path_Split (dir @ (stem @ ''.log'')) = (dir, stem @ ''.log'')"
    by (rule takeWhile_rev_file) (use assms in auto)
  moreover have "path_Ext (stem @ ''.log'') = ''.log''" by (simp add: path_Ext_def)
  ultimately show ?thesis by (simp add: out_name_def TrimSuffix_def suffix_def)
qed

lemma unknown_test_draws_nothing:
  "test \<notin> {''retry'', ''merger'', ''ack''} \<Longrightarrow> logFile \<noteq> '''' \<Longrightarrow>
   analyzer_main decode parse read write lastLog logFile outFile test = Inr None"
  by (simp add: analyzer_main_def Let_def)

section \<open>The axis fits the series\<close>

definition aligned :: "('t, 'v) chart \<Rightarrow> nat \<Rightarrow> bool" where
  "aligned c n \<longleftrightarrow> length (ct_series c) = n \<and> (\<forall>(name, vs)\<in>set (ct_series c). length vs = length (ct_times c))"

lemma aligned_row: "aligned c n \<Longrightarrow> length vs = n \<Longrightarrow> aligned (add_row vs (add_time t c)) n"
  by (auto simp: aligned_def add_row_def add_time_def dest!: set_zip_leftD)

lemma aligned_empty: "aligned (empty_chart names) (length names)"
  by (simp add: aligned_def empty_chart_def)

lemma aligned_fold: "(\<And>l c. aligned c n \<Longrightarrow> aligned (f l c) n) \<Longrightarrow> aligned c n \<Longrightarrow> aligned (fold f lines c) n"
  by (induction lines arbitrary: c) auto

lemma charts_aligned:
  "aligned (chartRetry decode strToDateTime lines) 4"
  "aligned (chartMerger decode strToDateTime lines) 2"
proof -
  show "aligned (chartRetry decode strToDateTime lines) 4"
    unfolding chartRetry_def
    using aligned_empty [of "[''RTT'', ''SRTT'', ''RTTVAR'', ''RTO'']"]
    by (intro aligned_fold) (auto simp: retry_line_def numeral_eq_Suc intro: aligned_row split: option.splits)
  show "aligned (chartMerger decode strToDateTime lines) 2"
    unfolding chartMerger_def
    using aligned_empty [of "[''Size of waiting list'', ''TTL of waiting list'']"]
    by (intro aligned_fold) (auto simp: merger_line_def numeral_eq_Suc intro: aligned_row split: option.splits)
qed

text \<open>The chart of acknowledgements is not: a received value whose time is bad has no place on the axis, and moves the others.\<close>

lemma ack_chart_misaligned:
  "ak_times (chartAcknowledgement Some (\<lambda>s. if s = '''' then None else Some s)
      [\<lparr>le_Rtt = 0, le_Srtt = 0, le_Rttvar = 0, le_Rto = 0, le_Time = '''', le_WaitingListSize = 0, le_Ack = True, le_AckSize = 3,
        le_TTL = 0, le_Message = ''received from socket''\<rparr>]) = []"
  "ak_received (chartAcknowledgement Some (\<lambda>s. if s = '''' then None else Some s)
      [\<lparr>le_Rtt = 0, le_Srtt = 0, le_Rttvar = 0, le_Rto = 0, le_Time = '''', le_WaitingListSize = 0, le_Ack = True, le_AckSize = 3,
        le_TTL = 0, le_Message = ''received from socket''\<rparr>]) = [3]"
  by (simp_all add: chartAcknowledgement_def ack_line_def)

text \<open>The file that is analysed by default is the newest log.\<close>

lemma last_log_latest:
  "last_log fs (n, t) = Some (name, latest) \<Longrightarrow>
   t \<le> latest \<and> (\<forall>f. Some f \<in> set fs \<and> de_Ext f = ''.log'' \<and> \<not> de_IsDir f \<longrightarrow> de_ModTime f \<le> latest)"
proof (induction fs "(n, t)" arbitrary: n t rule: last_log.induct)
  case (3 f fs n t)
  then show ?case by (fastforce split: if_splits)
qed auto

lemma last_log_is_log:
  "last_log fs (n, t) = Some (name, latest) \<Longrightarrow>
   (name, latest) = (n, t) \<or> (\<exists>f. Some f \<in> set fs \<and> de_Ext f = ''.log'' \<and> \<not> de_IsDir f \<and> de_Name f = name \<and> de_ModTime f = latest)"
proof (induction fs "(n, t)" arbitrary: n t rule: last_log.induct)
  case (3 f fs n t)
  then show ?case by (fastforce split: if_splits)
qed auto

end
