(* ===== verification/StatStream.thy ===== *)
theory StatStream
  imports ConnManager
begin

text \<open>
  The figures of the connections on their way to the window: the goroutine of the connection manager that collects and
  flushes them (\<open>connection.manager.stat.go\<close>), and the call of the window that waits for them (\<open>StatisticStream\<close> of
  \<open>adapter/grpc/server/server.go\<close>). Both use the lock \<open>statMux\<close>, and the first sends on a channel without
  buffer while it holds it. Here their steps are interleaved.
\<close>

section \<open>States and steps\<close>

text \<open>
  The collecting goroutine waits for an event, or is at \<open>outStatCh <- statistic\<close>, with the lock. The call is about to set its
  channel, at the head of its loop, at \<open><-statCh\<close>, sends to the window, is in its deferred call that waits for the lock, or
  has returned.
\<close>

datatype collector = Collecting | Offering

datatype streamer = Registering | Looping | Receiving | Sending | Closing | Closed

record stat_hub =
  hb_collector :: collector
  hb_streamer :: streamer
  hb_out :: bool \<comment> \<open>\<open>outStatCh\<close> is set\<close>
  hb_cancelled :: bool \<comment> \<open>the context of the stream\<close>
  hb_queued :: nat \<comment> \<open>figures in \<open>inStatCh\<close>\<close>

definition stat_locked :: "stat_hub \<Rightarrow> bool" where
  \<comment> \<open>the one place where the lock is held across a step\<close>
  "stat_locked s \<longleftrightarrow> hb_collector s = Offering"

definition hub_start :: stat_hub where
  "hub_start = \<lparr>hb_collector = Collecting, hb_streamer = Registering, hb_out = False, hb_cancelled = False, hb_queued = 0\<rparr>"

text \<open>
  \<open>cap\<close> is the capacity of \<open>inStatCh\<close>; a connection that reports a figure waits when it is full, and with it the handler of
  the packet. An error of \<open>SendMsg\<close> ends the call, unless it says that the context was cancelled.
\<close>

inductive hub_step :: "nat \<Rightarrow> stat_hub \<Rightarrow> stat_hub \<Rightarrow> bool" for cap where
  register: "hb_streamer s = Registering \<Longrightarrow> \<not> stat_locked s \<Longrightarrow> hub_step cap s (s\<lparr>hb_streamer := Looping, hb_out := True\<rparr>)"
| loop_on: "hb_streamer s = Looping \<Longrightarrow> \<not> hb_cancelled s \<Longrightarrow> hub_step cap s (s\<lparr>hb_streamer := Receiving\<rparr>)"
| loop_ends: "hb_streamer s = Looping \<Longrightarrow> hb_cancelled s \<Longrightarrow> hub_step cap s (s\<lparr>hb_streamer := Closing\<rparr>)"
| tick: "hb_collector s = Collecting \<Longrightarrow> hub_step cap s (if hb_out s then s\<lparr>hb_collector := Offering\<rparr> else s)"
| exchange: "hb_collector s = Offering \<Longrightarrow> hb_streamer s = Receiving \<Longrightarrow>
    hub_step cap s (s\<lparr>hb_collector := Collecting, hb_streamer := Sending\<rparr>)"
| sent: "hb_streamer s = Sending \<Longrightarrow> hub_step cap s (s\<lparr>hb_streamer := Looping\<rparr>)"
| send_fails: "hb_streamer s = Sending \<Longrightarrow> hub_step cap s (s\<lparr>hb_streamer := Closing\<rparr>)"
| close: "hb_streamer s = Closing \<Longrightarrow> \<not> stat_locked s \<Longrightarrow> hub_step cap s (s\<lparr>hb_streamer := Closed, hb_out := False\<rparr>)"
| cancel: "hub_step cap s (s\<lparr>hb_cancelled := True\<rparr>)"
| report: "hb_queued s < cap \<Longrightarrow> hub_step cap s (s\<lparr>hb_queued := Suc (hb_queued s)\<rparr>)"
| report_directly: "cap = 0 \<Longrightarrow> hb_collector s = Collecting \<Longrightarrow> hub_step cap s s"
| collect: "hb_collector s = Collecting \<Longrightarrow> hb_queued s = Suc n \<Longrightarrow> hub_step cap s (s\<lparr>hb_queued := n\<rparr>)"

inductive_cases hub_stepE: "hub_step cap s t"

definition hub_reaches :: "nat \<Rightarrow> stat_hub \<Rightarrow> stat_hub \<Rightarrow> bool" where
  "hub_reaches cap = (hub_step cap)\<^sup>*\<^sup>*"

section \<open>When the collector hangs\<close>

definition hub_inv :: "stat_hub \<Rightarrow> bool" where
  "hub_inv s \<longleftrightarrow> (hb_streamer s = Registering \<or> hb_streamer s = Closed \<longrightarrow> \<not> hb_out s)
     \<and> (hb_collector s = Offering \<longrightarrow> hb_out s)"

lemma hub_inv_step: "hub_step cap s t \<Longrightarrow> hub_inv s \<Longrightarrow> hub_inv t"
  by (induction rule: hub_step.induct) (auto simp: hub_inv_def stat_locked_def)

lemma hub_inv_reached: "hub_reaches cap hub_start s \<Longrightarrow> hub_inv s"
proof -
  have "(hub_step cap)\<^sup>*\<^sup>* a s \<Longrightarrow> hub_inv a \<Longrightarrow> hub_inv s" for a
    by (induction rule: rtranclp_induct) (simp_all add: hub_inv_step)
  moreover have "hub_inv hub_start" by (simp add: hub_inv_def hub_start_def)
  ultimately show "hub_reaches cap hub_start s \<Longrightarrow> hub_inv s" by (simp add: hub_reaches_def)
qed

definition hung :: "stat_hub \<Rightarrow> bool" where
  "hung s \<longleftrightarrow> hb_collector s = Offering
     \<and> (hb_streamer s = Closing \<or> hb_cancelled s \<and> (hb_streamer s = Looping \<or> hb_streamer s = Sending))"

lemma hung_step: "hub_step cap s t \<Longrightarrow> hung s \<Longrightarrow> hung t \<and> hb_queued s \<le> hb_queued t"
  by (induction rule: hub_step.induct) (auto simp: hung_def stat_locked_def)

lemma hung_stays: "hub_reaches cap s t \<Longrightarrow> hung s \<Longrightarrow> hung t \<and> hb_queued s \<le> hb_queued t"
  unfolding hub_reaches_def by (induction rule: rtranclp_induct) (auto dest: hung_step)

lemma can_exchange:
  assumes "hub_inv s" "\<not> hung s"
  shows "\<exists>t. hub_reaches cap s t \<and> hb_collector t = Collecting"
proof (cases "hb_collector s = Collecting")
  case True
  then show ?thesis by (auto simp: hub_reaches_def)
next
  case False
  then have off: "hb_collector s = Offering" by (cases "hb_collector s") auto
  then have streamer: "hb_streamer s = Receiving \<or> \<not> hb_cancelled s \<and> (hb_streamer s = Looping \<or> hb_streamer s = Sending)"
    using assms by (cases "hb_streamer s") (auto simp: hub_inv_def hung_def)
  have recv: "hub_reaches cap r t" if "hb_collector r = Offering" "hb_streamer r = Receiving"
    "t = r\<lparr>hb_collector := Collecting, hb_streamer := Sending\<rparr>" for r t
    using exchange [OF that(1,2), of cap] that(3) by (simp add: hub_reaches_def)
  have loop: "hub_reaches cap r (r\<lparr>hb_streamer := Sending, hb_collector := Collecting\<rparr>)"
    if "hb_collector r = Offering" "hb_streamer r = Looping" "\<not> hb_cancelled r" for r
    using loop_on [OF that(2,3), of cap] recv [of "r\<lparr>hb_streamer := Receiving\<rparr>" "r\<lparr>hb_streamer := Sending, hb_collector := Collecting\<rparr>"] that(1)
    by (auto simp: hub_reaches_def intro: converse_rtranclp_into_rtranclp)
  show ?thesis
  proof (cases "hb_streamer s")
    case Receiving
    then show ?thesis using recv [OF off] by (intro exI [of _ "s\<lparr>hb_collector := Collecting, hb_streamer := Sending\<rparr>"]) simp
  next
    case Looping
    then show ?thesis
      using loop [OF off] streamer by (intro exI [of _ "s\<lparr>hb_streamer := Sending, hb_collector := Collecting\<rparr>"]) simp
  next
    case Sending
    let ?r = "s\<lparr>hb_streamer := Looping\<rparr>"
    have "hub_step cap s ?r" by (rule sent [OF Sending])
    moreover have "hub_reaches cap ?r (?r\<lparr>hb_streamer := Sending, hb_collector := Collecting\<rparr>)"
      by (rule loop) (use off streamer Sending in auto)
    ultimately have "hub_reaches cap s (?r\<lparr>hb_streamer := Sending, hb_collector := Collecting\<rparr>)"
      by (auto simp: hub_reaches_def intro: converse_rtranclp_into_rtranclp)
    then show ?thesis by (intro exI [of _ "?r\<lparr>hb_streamer := Sending, hb_collector := Collecting\<rparr>"]) simp
  qed (use streamer in auto)
qed

text \<open>
  C34. In every state that collector and stream reach, the collector can come back from offering its figures, whatever it waits
  for, except when the stream ends: when the call waits for the lock to take its channel back, or is cancelled and not at the
  channel, while the collector, with the lock, waits for it. Then the collector never comes back, the queue of
  figures is never emptied again, and when it is full, no connection can report a packet any more.
\<close>

theorem collector_hangs_iff_stream_ends:
  assumes reach: "hub_reaches cap hub_start s"
  shows "((\<exists>t. hub_reaches cap s t \<and> hb_collector t = Collecting) \<longleftrightarrow> \<not> hung s)
     \<and> (hung s \<and> hub_reaches cap s t \<longrightarrow> hb_queued s \<le> hb_queued t
          \<and> (hb_queued t = cap \<longrightarrow> (\<forall>u. hub_step cap t u \<longrightarrow> hb_queued u = cap)))"
proof -
  have "hb_collector t \<noteq> Collecting" if "hung s" "hub_reaches cap s t" for t
    using hung_stays [OF that(2,1)] by (auto simp: hung_def)
  then have "(\<exists>t. hub_reaches cap s t \<and> hb_collector t = Collecting) \<longleftrightarrow> \<not> hung s"
    using can_exchange [OF hub_inv_reached [OF reach]] by blast
  moreover have "hb_queued u = cap" if "hung s" "hub_reaches cap s t" "hb_queued t = cap" "hub_step cap t u" for u
  proof -
    have "hb_collector t = Offering" using hung_stays [OF that(2,1)] by (simp add: hung_def)
    then show ?thesis using that(3,4) by (auto elim!: hub_stepE)
  qed
  ultimately show ?thesis using hung_stays by blast
qed

text \<open>The window is closed while the figures of the last second are on their way, and the next second comes.\<close>

definition hub_hanging :: stat_hub where
  "hub_hanging = hub_start\<lparr>hb_streamer := Closing, hb_out := True, hb_cancelled := True, hb_collector := Offering\<rparr>"

lemma hanging_reached: "hub_reaches cap hub_start hub_hanging"
proof -
  let ?s1 = "hub_start\<lparr>hb_streamer := Looping, hb_out := True\<rparr>" and ?s2 = "hub_start\<lparr>hb_streamer := Receiving, hb_out := True\<rparr>"
    and ?s3 = "hub_start\<lparr>hb_streamer := Receiving, hb_out := True, hb_collector := Offering\<rparr>"
    and ?s4 = "hub_start\<lparr>hb_streamer := Sending, hb_out := True\<rparr>"
    and ?s5 = "hub_start\<lparr>hb_streamer := Sending, hb_out := True, hb_cancelled := True\<rparr>"
    and ?s6 = "hub_start\<lparr>hb_streamer := Sending, hb_out := True, hb_cancelled := True, hb_collector := Offering\<rparr>"
    and ?s7 = "hub_start\<lparr>hb_streamer := Looping, hb_out := True, hb_cancelled := True, hb_collector := Offering\<rparr>"
  have "hub_step cap hub_start ?s1" using register [of hub_start cap] by (simp add: hub_start_def stat_locked_def)
  moreover have "hub_step cap ?s1 ?s2" using loop_on [of ?s1 cap] by (simp add: hub_start_def)
  moreover have "hub_step cap ?s2 ?s3" using tick [of ?s2 cap] by (simp add: hub_start_def)
  moreover have "hub_step cap ?s3 ?s4" using exchange [of ?s3 cap] by (simp add: hub_start_def)
  moreover have "hub_step cap ?s4 ?s5" using cancel [of cap ?s4] by (simp add: hub_start_def)
  moreover have "hub_step cap ?s5 ?s6" using tick [of ?s5 cap] by (simp add: hub_start_def)
  moreover have "hub_step cap ?s6 ?s7" using sent [of ?s6 cap] by (simp add: hub_start_def)
  moreover have "hub_step cap ?s7 hub_hanging" using loop_ends [of ?s7 cap] by (simp add: hub_start_def hub_hanging_def)
  ultimately show ?thesis unfolding hub_reaches_def by (meson converse_rtranclp_into_rtranclp rtranclp.rtrancl_refl)
qed

theorem collector_hangs_iff_stream_ends_witness:
  "hung hub_hanging \<and> \<not> (\<exists>t. hub_reaches 2 hub_hanging t \<and> hb_collector t = Collecting)"
proof -
  have "hung hub_hanging" by (simp add: hung_def hub_hanging_def)
  then show ?thesis using collector_hangs_iff_stream_ends [OF hanging_reached, of 2] by blast
qed

end
