(* ===== verification/Traces.thy ===== *)
theory Traces
  imports AckSet Retry MergerStream NetClient Analyzer
begin

text \<open>
  The lines that the program writes about single messages when tracing is on (the \<open>trace\<close> files of \<open>adapter/client\<close>,
  \<open>adapter/server\<close>, \<open>adapter/merger\<close> and \<open>adapter/wiface\<close>, and the lines of \<open>stream.v1.go\<close>, \<open>stream.v2.go\<close> and \<open>retry.go\<close>
  that the analyzer looks for), and what the analyzer makes of them: the charts show the acknowledgements, the waiting lists and
  the round trips of the run that wrote the log.
\<close>

section \<open>Events\<close>

text \<open>
  An event of the logger: its fields and its message. \<open>TLayer\<close> is a layer of a packet, given as a whole to \<open>Interface\<close>.
\<close>

datatype trace_layer = LIP ip_layer | LTCP tcp_layer | LUDP udp_layer | LTLS tls_layer | LICMPv4 icmp_layer

datatype trace_value =
    TInt int
  | TBool bool
  | TStr string
  | TFloat real
  | TAcks "(u64, u32 list) gomap"
  | TLayer trace_layer
  | TErr gerror

type_synonym trace_fields = "(string \<times> trace_value) list"

record trace_event =
  te_fields :: trace_fields
  te_Message :: string

text \<open>
  What a log function does: it returns at once when tracing is off, it writes an event, or it panics on a failed type assertion.
\<close>

type_synonym traced = "(gerror, trace_event option) res"

definition msg_event :: "string \<Rightarrow> trace_fields \<Rightarrow> traced" where
  "msg_event text fs = Ok (Some \<lparr>te_fields = fs, te_Message = text\<rparr>)"

definition id_fields :: "message \<Rightarrow> trace_fields" where
  "id_fields m = [(''id'', TInt (uint (m_ID m))), (''endpoint'', TInt (uint (GetEndpoint m)))]"

text \<open>The assertion \<open>msg.Payload.(*entity.MessageAcknowledgement)\<close> of an acknowledgement with a payload.\<close>

definition ack_fields :: "message \<Rightarrow> (gerror, trace_fields) res" where
  "ack_fields m =
     (if m_IsACK m \<and> m_Payload m \<noteq> PNil
      then (case m_Payload m of
              PAck a \<Rightarrow> Ok [(''ack_size'', TInt (GetMessagesCount a)), (''ack_id'', TAcks (ack_data a))]
            | _ \<Rightarrow> Panic)
      else Ok [])"

definition addr_fields :: "message \<Rightarrow> trace_fields" where
  "addr_fields m =
     (case m_PacketInfo m of None \<Rightarrow> []
      | Some p \<Rightarrow> (case pi_IP p of None \<Rightarrow> [] | Some ip \<Rightarrow> [(''src'', TStr (ip_Src ip)), (''dst'', TStr (ip_Dst ip))]))"

text \<open>\<open>md5\<close> is the hexadecimal hash of \<open>crypto/md5\<close>.\<close>

definition hash_field :: "(bytes \<Rightarrow> string) \<Rightarrow> bytes option \<Rightarrow> trace_fields" where
  "hash_field md5 data = (case data of None \<Rightarrow> [] | Some d \<Rightarrow> [(''hash'', TStr (md5 d))])"

text \<open>The data of a received message is an \<open>interface{}\<close>: what is not a slice of bytes has no hash.\<close>

definition payload_hash :: "(bytes \<Rightarrow> string) \<Rightarrow> payload \<Rightarrow> trace_fields" where
  "payload_hash md5 data = (case data of PBytes d \<Rightarrow> [(''hash'', TStr (md5 d))] | _ \<Rightarrow> [])"

definition sent_fields :: "message \<Rightarrow> trace_fields" where
  "sent_fields m = id_fields m @
     [(''session_id'', TInt (uint (m_SessionID m))), (''type'', TStr (MessageType_String (m_Type m))), (''ack'', TBool (m_IsACK m)),
      (''payload_size'', TInt (uint (m_PayloadLength m))), (''compression'', TInt (uint (m_CompressionType m)))]"

section \<open>The sockets of the client\<close>

definition client_sendMessageLog :: "(bytes \<Rightarrow> string) \<Rightarrow> bool \<Rightarrow> bytes option \<Rightarrow> int \<Rightarrow> message option \<Rightarrow> traced" where
  "client_sendMessageLog md5 SocketTracing data sz msg =
     (if \<not> SocketTracing then Ok None
      else rbind (case msg of None \<Rightarrow> Ok [] | Some m \<Rightarrow> rbind (ack_fields m) (\<lambda>acks. Ok (sent_fields m @ acks)))
        (\<lambda>fs. msg_event ''sent to socket'' (fs @ [(''size'', TInt sz)] @ hash_field md5 data)))"

text \<open>The client leaves the session out of what it receives.\<close>

definition client_receiveMessageLog :: "(bytes \<Rightarrow> string) \<Rightarrow> bool \<Rightarrow> payload \<Rightarrow> int \<Rightarrow> message \<Rightarrow> traced" where
  "client_receiveMessageLog md5 SocketTracing data sz m =
     (if \<not> SocketTracing then Ok None
      else rbind (ack_fields m)
        (\<lambda>acks. msg_event ''received from socket''
           (id_fields m @
            [(''size'', TInt sz), (''payload_size'', TInt (uint (m_PayloadLength m))),
             (''type'', TStr (MessageType_String (m_Type m))), (''ack'', TBool (m_IsACK m)),
             (''compression'', TInt (uint (m_CompressionType m)))] @ acks @ payload_hash md5 data)))"

section \<open>The sockets of the server\<close>

definition v1_sendMessageLog :: "(bytes \<Rightarrow> string) \<Rightarrow> bool \<Rightarrow> bytes option \<Rightarrow> int \<Rightarrow> message option \<Rightarrow> string \<Rightarrow> traced" where
  "v1_sendMessageLog md5 Tracing data sz msg description =
     (if \<not> Tracing then Ok None
      else rbind (case msg of None \<Rightarrow> Ok [] | Some m \<Rightarrow> rbind (ack_fields m) (\<lambda>acks. Ok (sent_fields m @ acks @ addr_fields m)))
        (\<lambda>fs. msg_event description (fs @ [(''size'', TInt sz)] @ hash_field md5 data)))"

definition received_fields :: "int \<Rightarrow> message \<Rightarrow> trace_fields" where
  "received_fields sz m = id_fields m @
     [(''size'', TInt sz), (''payload_size'', TInt (uint (m_PayloadLength m))), (''session_id'', TInt (uint (m_SessionID m))),
      (''type'', TStr (MessageType_String (m_Type m))), (''ack'', TBool (m_IsACK m)),
      (''compression'', TInt (uint (m_CompressionType m)))]"

definition v1_receiveMessageLog :: "(bytes \<Rightarrow> string) \<Rightarrow> bool \<Rightarrow> payload \<Rightarrow> int \<Rightarrow> message \<Rightarrow> traced" where
  "v1_receiveMessageLog md5 Tracing data sz m =
     (if \<not> Tracing then Ok None
      else rbind (ack_fields m)
        (\<lambda>acks. msg_event ''received from socket'' (received_fields sz m @ acks @ addr_fields m @ payload_hash md5 data)))"

text \<open>\<open>V2\<close> leaves out the addresses of the packet.\<close>

definition v2_sendMessageLog :: "(bytes \<Rightarrow> string) \<Rightarrow> bool \<Rightarrow> bytes option \<Rightarrow> int \<Rightarrow> message option \<Rightarrow> string \<Rightarrow> traced" where
  "v2_sendMessageLog md5 Tracing data sz msg description =
     (if \<not> Tracing then Ok None
      else rbind (case msg of None \<Rightarrow> Ok [] | Some m \<Rightarrow> rbind (ack_fields m) (\<lambda>acks. Ok (sent_fields m @ acks)))
        (\<lambda>fs. msg_event description (fs @ [(''size'', TInt sz)] @ hash_field md5 data)))"

definition v2_receiveMessageLog :: "(bytes \<Rightarrow> string) \<Rightarrow> bool \<Rightarrow> payload \<Rightarrow> int \<Rightarrow> message \<Rightarrow> traced" where
  "v2_receiveMessageLog md5 Tracing data sz m =
     (if \<not> Tracing then Ok None
      else rbind (ack_fields m)
        (\<lambda>acks. msg_event ''received from socket'' (received_fields sz m @ acks @ payload_hash md5 data)))"

section \<open>The stream merger\<close>

text \<open>The identifier at the head of the waiting list, zero if it is empty; a nil head would be dereferenced.\<close>

definition head_id :: "waiting_list \<Rightarrow> (gerror, u32) res" where
  "head_id wl = (if length (wl_data wl) > 0 then rbind (deref (getHead wl)) (\<lambda>h. Ok (mm_id h)) else Ok 0)"

definition v1_pushToWaitingListLog :: "bool \<Rightarrow> message \<Rightarrow> waiting_list \<Rightarrow> traced" where
  "v1_pushToWaitingListLog Tracing m wl =
     (if \<not> Tracing then Ok None
      else rbind (head_id wl) (\<lambda>headID. msg_event ''push to waiting list''
        (id_fields m @ [(''size'', TInt (int (length (wl_data wl)))), (''session_id'', TInt (uint (m_SessionID m))),
          (''waiting_list_head'', TInt (uint headID))])))"

definition v1_popFromWaitingListLog :: "bool \<Rightarrow> message \<Rightarrow> waiting_list \<Rightarrow> traced" where
  "v1_popFromWaitingListLog Tracing m wl =
     (if \<not> Tracing then Ok None
      else msg_event ''pop from waiting list''
        (id_fields m @ [(''size'', TInt (int (length (wl_data wl)))), (''session_id'', TInt (uint (m_SessionID m)))]))"

definition v1_senderLog :: "bool \<Rightarrow> message \<Rightarrow> waiting_list \<Rightarrow> traced" where
  "v1_senderLog Tracing m wl =
     (if \<not> Tracing then Ok None
      else rbind (head_id wl) (\<lambda>headID. msg_event ''sent merged message''
        (id_fields m @ [(''last_id'', TInt (uint (wl_lastID wl))), (''session_id'', TInt (uint (m_SessionID m))),
          (''compression'', TInt (uint (m_CompressionType m))), (''waiting_list_head'', TInt (uint headID)),
          (''waiting_list_size'', TInt (int (length (wl_data wl))))])))"

text \<open>Those of \<open>V2\<close> are the same, field by field.\<close>

definition v2_pushToWaitingListLog :: "bool \<Rightarrow> message \<Rightarrow> waiting_list \<Rightarrow> traced" where
  [simp]: "v2_pushToWaitingListLog = v1_pushToWaitingListLog"

definition v2_popFromWaitingListLog :: "bool \<Rightarrow> message \<Rightarrow> waiting_list \<Rightarrow> traced" where
  [simp]: "v2_popFromWaitingListLog = v1_popFromWaitingListLog"

definition v2_senderLog :: "bool \<Rightarrow> message \<Rightarrow> waiting_list \<Rightarrow> traced" where
  [simp]: "v2_senderLog = v1_senderLog"

text \<open>What a stream writes on a message, before it looks for a duplicate; \<open>now\<close> is the clock in seconds.\<close>

definition wl_ttl :: "int \<Rightarrow> waiting_list \<Rightarrow> int" where
  "wl_ttl now wl = (if wl_firstMessageTs wl > 0 then now - wl_firstMessageTs wl else 0)"

definition v1_streamLog :: "bool \<Rightarrow> int \<Rightarrow> message \<Rightarrow> waiting_list \<Rightarrow> traced" where
  "v1_streamLog Tracing now m wl =
     (if \<not> Tracing then Ok None
      else msg_event ''received by stream merger''
        (id_fields m @ [(''last_id'', TInt (uint (wl_lastID wl))), (''waiting_list_size'', TInt (int (length (wl_data wl)))),
          (''ttl'', TInt (wl_ttl now wl))]))"

text \<open>\<open>V2\<close> adds the session and the number \<open>sid\<close> of the stream.\<close>

definition v2_streamLog :: "bool \<Rightarrow> u32 \<Rightarrow> int \<Rightarrow> int \<Rightarrow> message \<Rightarrow> waiting_list \<Rightarrow> traced" where
  "v2_streamLog Tracing sessionID sid now m wl =
     (if \<not> Tracing then Ok None
      else msg_event ''received by stream merger''
        (id_fields m @ [(''session_id'', TInt (uint sessionID)), (''sid'', TInt sid), (''last_id'', TInt (uint (wl_lastID wl))),
          (''ttl'', TInt (wl_ttl now wl)), (''waiting_list_size'', TInt (int (length (wl_data wl))))]))"

section \<open>The tunnel interface\<close>

definition layer_fields :: "string \<Rightarrow> ('l \<Rightarrow> trace_layer) \<Rightarrow> ('l \<Rightarrow> gerror option) \<Rightarrow> 'l option \<Rightarrow> trace_fields" where
  "layer_fields name layer error l =
     (case l of None \<Rightarrow> []
      | Some x \<Rightarrow> (name, TLayer (layer x)) # (case error x of None \<Rightarrow> [] | Some e \<Rightarrow> [(''error'', TErr e)]))"

definition packetLog :: "packet_info option \<Rightarrow> trace_fields \<Rightarrow> trace_fields" where
  "packetLog info ev =
     (case info of None \<Rightarrow> ev
      | Some p \<Rightarrow> ev @ layer_fields ''IP'' LIP ip_Error (pi_IP p) @ layer_fields ''TCP'' LTCP tcp_Error (pi_TCP p)
          @ layer_fields ''UDP'' LUDP udp_Error (pi_UDP p) @ layer_fields ''TLS'' LTLS tls_Error (pi_TLS p)
          @ layer_fields ''ICMPv4'' LICMPv4 icmp_Error (pi_ICMPv4 p))"

text \<open>
  \<open>SendLog\<close> decodes the packet again; an error is written as an event of its own, and the log goes on without the layers. The
  payload is asserted to be bytes.
\<close>

definition SendLog :: "(bytes \<Rightarrow> string) \<Rightarrow> (bytes \<Rightarrow> (gerror, packet_info option) res) \<Rightarrow> bool \<Rightarrow> message \<Rightarrow> string
    \<Rightarrow> (gerror, trace_event list) res" where
  "SendLog md5 decode Tracing m ifName =
     (if \<not> Tracing then Ok []
      else case m_Payload m of
        PBytes b \<Rightarrow>
          (let ev = (\<lambda>info. \<lparr>te_fields = packetLog info
                 (id_fields m @ [(''size'', TInt (int (length b))), (''compression'', TInt (uint (m_CompressionType m))),
                   (''if'', TStr ifName)]) @ [(''hash'', TStr (md5 b))], te_Message = ''sent to interface''\<rparr>)
           in case decode b of
                Panic \<Rightarrow> Panic
              | Err e \<Rightarrow> Ok [\<lparr>te_fields = [(''error'', TErr e), (''id'', TInt (uint (m_ID m))), (''size'', TInt (int (length b)))],
                            te_Message = ''failed to decode packet''\<rparr>, ev None]
              | Ok info \<Rightarrow> Ok [ev info])
      | _ \<Rightarrow> Panic)"

definition ReceiveLog :: "(bytes \<Rightarrow> string) \<Rightarrow> bool \<Rightarrow> message \<Rightarrow> traced" where
  "ReceiveLog md5 Tracing m =
     (if \<not> Tracing then Ok None
      else case m_Payload m of
        PBytes b \<Rightarrow>
          rbind (deref (m_PacketInfo m)) (\<lambda>p. msg_event ''received from interface''
            (packetLog (Some p) (id_fields m @ [(''size'', TInt (int (length b))), (''if'', TStr (pi_IfName p))])
              @ [(''hash'', TStr (md5 b))]))
      | _ \<Rightarrow> Panic)"

section \<open>The retransmission\<close>

text \<open>
  What \<open>Ack\<close> writes on one identifier, in state \<open>r\<close> and at time \<open>now\<close>: nothing when the message is not in flight. The estimate
  is that after the sample.
\<close>

definition ack_oneLog :: "bool \<Rightarrow> int \<Rightarrow> bool \<Rightarrow> u64 \<Rightarrow> u32 \<Rightarrow> retry_state \<Rightarrow> trace_event option" where
  "ack_oneLog Tracing now pending endpoint i r =
     (if \<not> Tracing then None
      else case map_of (rt_messages r) (getMessageKey endpoint i) of
        None \<Rightarrow> None
      | Some k \<Rightarrow>
          (let msg = rt_timers r ! k; st = rt_rtt (ack_one now pending endpoint i r)
           in Some \<lparr>te_fields =
                [(''id'', TInt (uint i)), (''endpoint'', TInt (uint endpoint)), (''stop'', TBool pending),
                 (''attempts'', TFloat (real (rm_attempts msg))),
                 (''rtt'', TFloat (real_of_int (now + rttFactor - rm_start msg))), (''srtt'', TFloat (rs_srtt st)),
                 (''rttvar'', TFloat (rs_rttvar st)), (''rto'', TFloat (real_of_int (rs_rto st) / 1000000000))],
              te_Message = ''timer stopped''\<rparr>))"

section \<open>The line of an event, read by the analyzer\<close>

text \<open>
  \<open>LogEntity\<close> is decoded from the JSON of a line: a field that is missing is zero, of two with one name the last counts, and one of another
  type than that of the struct is an error. A float that is a whole number is written like an integer; the integers of the struct
  have 64 bits. The logger adds the time.
\<close>

definition json_int :: "trace_value \<Rightarrow> int option" where
  "json_int v =
     (let range = (\<lambda>i. if - (2 ^ 63) \<le> i \<and> i < 2 ^ 63 then Some i else None)
      in case v of TInt i \<Rightarrow> range i | TFloat x \<Rightarrow> (if x = of_int \<lfloor>x\<rfloor> then range \<lfloor>x\<rfloor> else None) | _ \<Rightarrow> None)"

definition json_float :: "trace_value \<Rightarrow> real option" where
  "json_float v = (case v of TInt i \<Rightarrow> Some (of_int i) | TFloat x \<Rightarrow> Some x | _ \<Rightarrow> None)"

definition json_bool :: "trace_value \<Rightarrow> bool option" where
  "json_bool v = (case v of TBool b \<Rightarrow> Some b | _ \<Rightarrow> None)"

definition field :: "trace_fields \<Rightarrow> string \<Rightarrow> trace_value option" where
  "field fs name = map_of (rev fs) name"

definition json_field :: "(trace_value \<Rightarrow> 'a option) \<Rightarrow> 'a \<Rightarrow> string \<Rightarrow> trace_event \<Rightarrow> 'a option" where
  "json_field conv zero name ev = (case field (te_fields ev) name of None \<Rightarrow> Some zero | Some v \<Rightarrow> conv v)"

definition read_LogEntity :: "string \<times> trace_event \<Rightarrow> log_entity option" where
  "read_LogEntity line =
     (case line of (time, ev) \<Rightarrow>
      Option.bind (json_field json_int 0 ''id'' ev) (\<lambda>_.
      Option.bind (json_field json_bool False ''stop'' ev) (\<lambda>_.
      Option.bind (json_field json_int 0 ''attempts'' ev) (\<lambda>_.
      Option.bind (json_field json_int 0 ''rtt'' ev) (\<lambda>rtt.
      Option.bind (json_field json_float 0 ''srtt'' ev) (\<lambda>srtt.
      Option.bind (json_field json_float 0 ''rttvar'' ev) (\<lambda>rttvar.
      Option.bind (json_field json_float 0 ''rto'' ev) (\<lambda>rto.
      Option.bind (json_field json_int 0 ''waiting_list_size'' ev) (\<lambda>sz.
      Option.bind (json_field json_bool False ''ack'' ev) (\<lambda>ack.
      Option.bind (json_field json_int 0 ''ack_size'' ev) (\<lambda>ack_size.
      Option.bind (json_field json_int 0 ''ttl'' ev) (\<lambda>ttl.
      Some \<lparr>le_Rtt = rtt, le_Srtt = srtt, le_Rttvar = rttvar, le_Rto = rto, le_Time = time, le_WaitingListSize = sz,
        le_Ack = ack, le_AckSize = ack_size, le_TTL = ttl, le_Message = te_Message ev\<rparr>))))))))))))"

section \<open>What the analyzer reads\<close>

text \<open>The number that a line shows for the acknowledgement of a message.\<close>

definition ack_count :: "message \<Rightarrow> int" where
  "ack_count m = (if m_IsACK m then (case m_Payload m of PAck a \<Rightarrow> GetMessagesCount a | _ \<Rightarrow> 0) else 0)"

definition socket_entity :: "string \<Rightarrow> message \<Rightarrow> string \<Rightarrow> log_entity" where
  "socket_entity time m text =
     \<lparr>le_Rtt = 0, le_Srtt = 0, le_Rttvar = 0, le_Rto = 0, le_Time = time, le_WaitingListSize = 0,
      le_Ack = m_IsACK m, le_AckSize = ack_count m, le_TTL = 0, le_Message = text\<rparr>"

lemma json_int_uint32 [simp]: "json_int (TInt (uint (w :: u32))) = Some (uint w)"
  using uint_bounded [of w] by (auto simp: json_int_def intro: order_trans [of _ 0] less_trans [of _ "2 ^ 32"])

lemma json_int_range: "- (2 ^ 63) \<le> i \<Longrightarrow> i < 2 ^ 63 \<Longrightarrow> json_int (TInt i) = Some i"
  by (simp add: json_int_def)

lemma ack_count_nonneg: "0 \<le> ack_count m"
  by (auto simp: ack_count_def GetMessagesCount_eq split: payload.splits)

lemmas socket_logs =
  client_sendMessageLog_def client_receiveMessageLog_def v1_sendMessageLog_def v1_receiveMessageLog_def
  v2_sendMessageLog_def v2_receiveMessageLog_def

text \<open>A function that writes something has seen an acknowledgement, or no acknowledgement with a payload.\<close>

lemma ack_fields_cases:
  assumes "ack_fields m = Ok fs"
  obtains a where "m_IsACK m" "m_Payload m = PAck a" "ack_count m = GetMessagesCount a"
      "fs = [(''ack_size'', TInt (ack_count m)), (''ack_id'', TAcks (ack_data a))]"
    | "fs = []" "ack_count m = 0"
  using assms by (auto simp: ack_fields_def ack_count_def split: if_splits payload.splits)

text \<open>Looking up a field in lists that are put together.\<close>

lemma field_append: "field (xs @ ys) k = (case field ys k of None \<Rightarrow> field xs k | v \<Rightarrow> v)"
  by (simp add: field_def map_add_def split: option.split)

lemma field_Cons: "field ((n, v) # fs) k = (case field fs k of None \<Rightarrow> if k = n then Some v else None | v \<Rightarrow> v)"
  by (simp add: field_def map_add_def split: option.split)

lemma field_Nil: "field [] k = None"
  by (simp add: field_def)

lemma field_addr: "k \<noteq> ''src'' \<Longrightarrow> k \<noteq> ''dst'' \<Longrightarrow> field (addr_fields m) k = None"
  by (simp add: addr_fields_def field_Cons field_Nil split: option.split)

lemma field_hash: "k \<noteq> ''hash'' \<Longrightarrow> field (hash_field md5 d) k = None" "k \<noteq> ''hash'' \<Longrightarrow> field (payload_hash md5 p) k = None"
  by (simp_all add: hash_field_def payload_hash_def field_Cons field_Nil split: option.split payload.split)

lemmas fields = field_append field_Cons field_Nil field_addr field_hash id_fields_def

definition unread :: "string list" where
  "unread = [''stop'', ''attempts'', ''rtt'', ''srtt'', ''rttvar'', ''rto'', ''waiting_list_size'', ''ttl'']"

definition socket_fields :: "message \<Rightarrow> trace_fields \<Rightarrow> bool" where
  "socket_fields m fs \<longleftrightarrow> field fs ''id'' = Some (TInt (uint (m_ID m))) \<and> field fs ''ack'' = Some (TBool (m_IsACK m))
     \<and> field fs ''ack_size'' = (if ack_fields m = Ok [] then None else Some (TInt (ack_count m)))
     \<and> list_all (\<lambda>k. field fs k = None) unread"

lemma read_socket_fields:
  assumes "socket_fields m fs" "ack_fields m = Ok acks" "ack_count m < 2 ^ 63"
  shows "read_LogEntity (t, \<lparr>te_fields = fs, te_Message = text\<rparr>) = Some (socket_entity t m text)"
proof -
  have count: "json_int (TInt (ack_count m)) = Some (ack_count m)"
    using assms(3) ack_count_nonneg [of m] by (intro json_int_range) auto
  from assms(2) show ?thesis
    by (cases rule: ack_fields_cases)
      (use assms(1,2) count in \<open>simp_all add: socket_fields_def unread_def read_LogEntity_def json_field_def json_bool_def socket_entity_def\<close>)
qed

lemma socket_fields_sent:
  assumes "ack_fields m = Ok acks"
  shows "socket_fields m ((sent_fields m @ acks) @ [(''size'', TInt n)] @ hash_field md5 data)"
    "socket_fields m ((sent_fields m @ acks @ addr_fields m) @ [(''size'', TInt n)] @ hash_field md5 data)"
  using assms
  by (cases rule: ack_fields_cases; simp add: assms socket_fields_def unread_def fields sent_fields_def)+

lemma socket_fields_received:
  assumes "ack_fields m = Ok acks"
  shows "socket_fields m (received_fields n m @ acks @ payload_hash md5 data)"
    "socket_fields m (received_fields n m @ acks @ addr_fields m @ payload_hash md5 data)"
    "socket_fields m (id_fields m @ [(''size'', TInt n), (''payload_size'', TInt (uint (m_PayloadLength m))),
       (''type'', TStr (MessageType_String (m_Type m))), (''ack'', TBool (m_IsACK m)),
       (''compression'', TInt (uint (m_CompressionType m)))] @ acks @ payload_hash md5 data)"
  using assms
  by (cases rule: ack_fields_cases; simp add: assms socket_fields_def unread_def fields received_fields_def)+

text \<open>The line of a socket's event, whichever of the programs wrote it.\<close>

datatype socket_program = ByClient | ByV1 | ByV2

fun sent_log :: "socket_program \<Rightarrow> (bytes \<Rightarrow> string) \<Rightarrow> bytes option \<Rightarrow> int \<Rightarrow> message \<Rightarrow> traced" where
  "sent_log ByClient md5 data n m = client_sendMessageLog md5 True data n (Some m)"
| "sent_log ByV1 md5 data n m = v1_sendMessageLog md5 True data n (Some m) ''sent to socket''"
| "sent_log ByV2 md5 data n m = v2_sendMessageLog md5 True data n (Some m) ''sent to socket''"

fun received_log :: "socket_program \<Rightarrow> (bytes \<Rightarrow> string) \<Rightarrow> payload \<Rightarrow> int \<Rightarrow> message \<Rightarrow> traced" where
  "received_log ByClient md5 data n m = client_receiveMessageLog md5 True data n m"
| "received_log ByV1 md5 data n m = v1_receiveMessageLog md5 True data n m"
| "received_log ByV2 md5 data n m = v2_receiveMessageLog md5 True data n m"

lemma read_sent:
  assumes "sent_log who md5 data n m = Ok (Some ev)" "ack_count m < 2 ^ 63"
  shows "read_LogEntity (t, ev) = Some (socket_entity t m ''sent to socket'')"
proof -
  obtain acks where acks: "ack_fields m = Ok acks"
    using assms(1) by (cases who) (auto simp: socket_logs res_simps)
  then have "\<exists>fs. ev = \<lparr>te_fields = fs, te_Message = ''sent to socket''\<rparr> \<and> socket_fields m fs"
    using assms(1) socket_fields_sent [OF acks, of n md5 data] by (cases who) (auto simp: socket_logs msg_event_def)
  then show ?thesis using read_socket_fields [OF _ acks assms(2)] by auto
qed

lemma read_received:
  assumes "received_log who md5 data n m = Ok (Some ev)" "ack_count m < 2 ^ 63"
  shows "read_LogEntity (t, ev) = Some (socket_entity t m ''received from socket'')"
proof -
  obtain acks where acks: "ack_fields m = Ok acks"
    using assms(1) by (cases who) (auto simp: socket_logs res_simps)
  then have "\<exists>fs. ev = \<lparr>te_fields = fs, te_Message = ''received from socket''\<rparr> \<and> socket_fields m fs"
    using assms(1) socket_fields_received [OF acks, of n md5 data] by (cases who) (auto simp: socket_logs msg_event_def)
  then show ?thesis using read_socket_fields [OF _ acks assms(2)] by auto
qed

section \<open>The charts of a run\<close>

text \<open>What a program did, as its log tells it: it sent or received a message on a socket, at a time.\<close>

datatype socket_act = Sent "bytes option" int message | Received payload int message

fun act_log :: "socket_program \<Rightarrow> (bytes \<Rightarrow> string) \<Rightarrow> socket_act \<Rightarrow> traced" where
  "act_log who md5 (Sent data n m) = sent_log who md5 data n m"
| "act_log who md5 (Received data n m) = received_log who md5 data n m"

fun act_message :: "socket_act \<Rightarrow> message" where
  "act_message (Sent data n m) = m"
| "act_message (Received data n m) = m"

text \<open>Line by line, the log of what was done.\<close>

definition log_of :: "('e \<Rightarrow> traced) \<Rightarrow> (string \<times> 'e) list \<Rightarrow> (string \<times> trace_event) list \<Rightarrow> bool" where
  "log_of f acts lines \<longleftrightarrow> list_all2 (\<lambda>(t, act) (t', ev). t' = t \<and> f act = Ok (Some ev)) acts lines"

lemma log_of_fold:
  assumes "log_of f acts lines"
    and step: "\<And>t act ev c. (t, act) \<in> set acts \<Longrightarrow> f act = Ok (Some ev) \<Longrightarrow> g (t, ev) c = h (t, act) c"
  shows "fold g lines c = fold h acts c"
proof -
  have "list_all2 (\<lambda>(t, act) (t', ev). t' = t \<and> f act = Ok (Some ev)) acts lines"
    using assms(1) by (simp add: log_of_def)
  then show ?thesis using step
  proof (induction acts lines arbitrary: c rule: list_all2_induct)
    case (Cons x xs y ys)
    obtain t act where x: "x = (t, act)" by fastforce
    with Cons.hyps obtain ev where y: "y = (t, ev)" "f act = Ok (Some ev)" by (cases y) auto
    have "g y c = h x c" unfolding x y(1) by (rule Cons.prems) (use x y in auto)
    then show ?case using Cons.IH [of "h x c"] Cons.prems by simp
  qed simp
qed

definition act_row :: "(string \<Rightarrow> 't option) \<Rightarrow> string \<times> socket_act \<Rightarrow> 't ack_chart \<Rightarrow> 't ack_chart" where
  "act_row parse x c =
     (case x of (t, act) \<Rightarrow>
      if \<not> m_IsACK (act_message act) then c
      else case act of
        Sent data n m \<Rightarrow> c\<lparr>ak_sent := ak_sent c @ [ack_count m]\<rparr>
      | Received data n m \<Rightarrow> c\<lparr>ak_received := ak_received c @ [ack_count m],
            ak_times := ak_times c @ (case parse t of None \<Rightarrow> [] | Some x \<Rightarrow> [x])\<rparr>)"

lemma act_rows:
  "ak_sent (fold (act_row parse) acts c) = ak_sent c @ [ack_count m. (t, Sent data n m) \<leftarrow> acts, m_IsACK m]"
  "ak_received (fold (act_row parse) acts c) = ak_received c @ [ack_count m. (t, Received data n m) \<leftarrow> acts, m_IsACK m]"
  by (induction acts arbitrary: c) (auto simp: act_row_def split: socket_act.splits)

text \<open>
  The chart of acknowledgements shows the run: the numbers of identifiers in the acknowledgements that were sent, and in those that
  were received, each in the order of the log. Nothing else of the log appears in it.
\<close>

theorem chart_shows_acknowledgements:
  assumes "log_of (act_log who md5) acts lines" "\<forall>(t, act)\<in>set acts. ack_count (act_message act) < 2 ^ 63"
  shows "ak_sent (chartAcknowledgement read_LogEntity parse lines) = [ack_count m. (t, Sent data n m) \<leftarrow> acts, m_IsACK m]"
    and "ak_received (chartAcknowledgement read_LogEntity parse lines)
      = [ack_count m. (t, Received data n m) \<leftarrow> acts, m_IsACK m]"
proof -
  have "fold (ack_line read_LogEntity parse) lines c = fold (act_row parse) acts c" for c
  proof (rule log_of_fold [OF assms(1)])
    fix t act ev c
    assume mem: "(t, act) \<in> set acts" and ev: "act_log who md5 act = Ok (Some ev)"
    have n: "ack_count (act_message act) < 2 ^ 63" using assms(2) mem by auto
    show "ack_line read_LogEntity parse (t, ev) c = act_row parse (t, act) c"
    proof (cases act)
      case (Sent data n m)
      then show ?thesis using ev n read_sent [of who md5 data n m ev t]
        by (simp add: ack_line_def act_row_def socket_entity_def)
    next
      case (Received data n m)
      then show ?thesis using ev n read_received [of who md5 data n m ev t]
        by (simp add: ack_line_def act_row_def socket_entity_def Let_def split: option.split)
    qed
  qed
  then show "ak_sent (chartAcknowledgement read_LogEntity parse lines) = [ack_count m. (t, Sent data n m) \<leftarrow> acts, m_IsACK m]"
    and "ak_received (chartAcknowledgement read_LogEntity parse lines)
      = [ack_count m. (t, Received data n m) \<leftarrow> acts, m_IsACK m]"
    by (simp_all add: chartAcknowledgement_def act_rows)
qed

text \<open>A line of the merger gives the length of the waiting list and the age of its oldest message, for both versions.\<close>

definition merger_log :: "(u32 \<times> int) option \<Rightarrow> int \<times> message \<times> waiting_list \<Rightarrow> traced" where
  "merger_log version x =
     (case x of (now, m, wl) \<Rightarrow>
        (case version of None \<Rightarrow> v1_streamLog True now m wl | Some (session, sid) \<Rightarrow> v2_streamLog True session sid now m wl))"

lemma merger_line_event:
  assumes "merger_log version (now, m, wl) = Ok (Some ev)" "int (length (wl_data wl)) < 2 ^ 63" "\<bar>wl_ttl now wl\<bar> < 2 ^ 63"
    and "parse t = Some x"
  shows "merger_line read_LogEntity parse (t, ev) c = add_row [int (length (wl_data wl)), wl_ttl now wl] (add_time x c)"
proof -
  have range: "json_int (TInt (int (length (wl_data wl)))) = Some (int (length (wl_data wl)))"
    "json_int (TInt (wl_ttl now wl)) = Some (wl_ttl now wl)"
    using assms(2,3) by (intro json_int_range; simp)+
  from assms(1) obtain fs where ev: "ev = \<lparr>te_fields = fs, te_Message = ''received by stream merger''\<rparr>"
    and fs: "fs = id_fields m @ [(''last_id'', TInt (uint (wl_lastID wl))), (''waiting_list_size'', TInt (int (length (wl_data wl)))),
          (''ttl'', TInt (wl_ttl now wl))]
      \<or> (\<exists>session sid. fs = id_fields m @ [(''session_id'', TInt session), (''sid'', TInt sid),
          (''last_id'', TInt (uint (wl_lastID wl))), (''ttl'', TInt (wl_ttl now wl)),
          (''waiting_list_size'', TInt (int (length (wl_data wl))))])"
    by (cases version) (auto simp: merger_log_def v1_streamLog_def v2_streamLog_def msg_event_def)
  from fs have "read_LogEntity (t, ev) = Some \<lparr>le_Rtt = 0, le_Srtt = 0, le_Rttvar = 0, le_Rto = 0, le_Time = t,
      le_WaitingListSize = int (length (wl_data wl)), le_Ack = False, le_AckSize = 0, le_TTL = wl_ttl now wl,
      le_Message = ''received by stream merger''\<rparr>"
    by (elim disjE exE) (simp_all add: ev read_LogEntity_def json_field_def fields range)
  then show ?thesis using assms(4) by (simp add: merger_line_def)
qed

text \<open>
  A line of the retransmission gives, in seconds, the round trip of the message that was acknowledged, and the estimate after it.
  \<open>Rto\<close> is the only value that the log has in seconds already.
\<close>

lemma retry_line_event:
  assumes "ack_oneLog True now pending endpoint i r = Some ev" "map_of (rt_messages r) (getMessageKey endpoint i) = Some k"
    and "\<bar>now + rttFactor - rm_start (rt_timers r ! k)\<bar> < 2 ^ 63" "rm_attempts (rt_timers r ! k) < 2 ^ 63"
    and "parse t = Some x"
  defines "st \<equiv> rt_rtt (ack_one now pending endpoint i r)"
  shows "retry_line read_LogEntity parse (t, ev) c =
     add_row [real_of_int (now + rttFactor - rm_start (rt_timers r ! k)) / 1000000000, rs_srtt st / 1000000000,
       rs_rttvar st / 1000000000, real_of_int (rs_rto st) / 1000000000] (add_time x c)"
proof -
  have range: "json_int (TFloat (real_of_int (now + rttFactor - rm_start (rt_timers r ! k))))
      = Some (now + rttFactor - rm_start (rt_timers r ! k))"
    using assms(3) unfolding json_int_def by (simp add: abs_less_iff)
  have att: "json_int (TFloat (real (rm_attempts (rt_timers r ! k)))) = Some (int (rm_attempts (rt_timers r ! k)))"
    using assms(4) by (simp add: json_int_def)
  have "read_LogEntity (t, ev) = Some \<lparr>le_Rtt = now + rttFactor - rm_start (rt_timers r ! k), le_Srtt = rs_srtt st,
      le_Rttvar = rs_rttvar st, le_Rto = real_of_int (rs_rto st) / 1000000000, le_Time = t, le_WaitingListSize = 0,
      le_Ack = False, le_AckSize = 0, le_TTL = 0, le_Message = ''timer stopped''\<rparr>"
    using assms(1,2) range att
    by (auto simp: ack_oneLog_def Let_def st_def read_LogEntity_def json_field_def fields json_float_def json_bool_def)
  then show ?thesis using assms(5) by (simp add: retry_line_def)
qed

section \<open>Tracing and the run\<close>

text \<open>Without tracing nothing is written, and nothing can panic.\<close>

lemma tracing_off:
  "client_sendMessageLog md5 False data n mo = Ok None" "client_receiveMessageLog md5 False p n m = Ok None"
  "v1_sendMessageLog md5 False data n mo d = Ok None" "v1_receiveMessageLog md5 False p n m = Ok None"
  "v2_sendMessageLog md5 False data n mo d = Ok None" "v2_receiveMessageLog md5 False p n m = Ok None"
  "SendLog md5 decode False m ifName = Ok []" "ReceiveLog md5 False m = Ok None"
  by (simp_all add: socket_logs SendLog_def ReceiveLog_def)

text \<open>The traces of the merger never panic.\<close>

lemma merger_traces_safe:
  "v1_pushToWaitingListLog b m wl \<noteq> Panic" "v1_senderLog b m wl \<noteq> Panic"
  by (auto simp: v1_pushToWaitingListLog_def v1_senderLog_def head_id_def getHead_def msg_event_def res_simps split: list.splits)

text \<open>
  With tracing on they can: the socket layer hands the payload of a keepalive over undecoded, and a keepalive that claims to be an answer and
  has a payload fails the assertion of the log, in the client (whose \<open>readUDP\<close> traces it before anything looks at it) as in the servers.
\<close>

lemma traced_keepalive_panics:
  assumes "open_datagram t bs = DMsg m n" "m_IsACK m" "0 < m_PayloadLength m"
  shows "client_receiveMessageLog md5 True (m_Payload m) (int n) m = Panic"
    "v1_receiveMessageLog md5 True (m_Payload m) (int n) m = Panic"
    "v2_receiveMessageLog md5 True (m_Payload m) (int n) m = Panic"
proof -
  obtain b where "m_Payload m = PBytes b"
    using assms(1,3) by (auto simp: open_datagram_def Let_def split: if_splits res.splits)
  then show "client_receiveMessageLog md5 True (m_Payload m) (int n) m = Panic"
    "v1_receiveMessageLog md5 True (m_Payload m) (int n) m = Panic"
    "v2_receiveMessageLog md5 True (m_Payload m) (int n) m = Panic"
    using assms(2) by (simp_all add: socket_logs ack_fields_def)
qed

end
