(* ===== verification/Logging.thy ===== *)
theory Logging
  imports Prelude
begin

text \<open>
  The logger of the programs (\<open>pkg/logger\<close>): where its lines go. zerolog is a library: its loggers are values of a type
  \<open>'z\<close>, and of it only what the wrapper uses is an argument, as a record of functions with the laws that it documents.
\<close>

section \<open>The library\<close>

text \<open>
  The places lines are written to: the two streams of the process, a file, the channel of events, and the
  writer that makes lines readable, which writes to another.
\<close>

datatype writer = Stdout | Stderr | LogFile string | ChannelWriter | ConsoleWriter writer

record 'z zerolog =
  zl_New :: "writer list \<Rightarrow> 'z" \<comment> \<open>of a \<open>MultiLevelWriter\<close>\<close>
  zl_Output :: "'z \<Rightarrow> writer list \<Rightarrow> 'z"
  zl_Timestamp :: "'z \<Rightarrow> 'z"
  zl_Caller :: "'z \<Rightarrow> 'z"
  zl_writers :: "'z \<Rightarrow> writer list"

definition zerolog_laws :: "'z zerolog \<Rightarrow> bool" where
  "zerolog_laws zl \<longleftrightarrow> (\<forall>ws. zl_writers zl (zl_New zl ws) = ws) \<and> (\<forall>z ws. zl_writers zl (zl_Output zl z ws) = ws)
     \<and> (\<forall>z. zl_writers zl (zl_Timestamp zl z) = zl_writers zl z) \<and> (\<forall>z. zl_writers zl (zl_Caller zl z) = zl_writers zl z)"

text \<open>The levels with the order that the library gives them; \<open>NoLevel\<close> is above those that are written.\<close>

datatype log_level = DebugLevel | InfoLevel | WarnLevel | ErrorLevel | FatalLevel | PanicLevel | NoLevel | Disabled

fun level_rank :: "log_level \<Rightarrow> nat" where
  "level_rank DebugLevel = 0"
| "level_rank InfoLevel = 1"
| "level_rank WarnLevel = 2"
| "level_rank ErrorLevel = 3"
| "level_rank FatalLevel = 4"
| "level_rank PanicLevel = 5"
| "level_rank NoLevel = 6"
| "level_rank Disabled = 7"

definition written_at :: "log_level \<Rightarrow> log_level \<Rightarrow> bool" where
  \<comment> \<open>a line of the second level is written when the global level is the first\<close>
  "written_at global lvl \<longleftrightarrow> level_rank global \<le> level_rank lvl"

section \<open>Levels and file names\<close>

text \<open>\<open>strings.ToLower\<close> on ASCII, which the names of levels are.\<close>

definition lower_char :: "char \<Rightarrow> char" where
  "lower_char c = (let n = of_char c :: nat in if 65 \<le> n \<and> n \<le> 90 then char_of (n + 32) else c)"

definition getZerologLevel :: "string \<Rightarrow> log_level" where
  "getZerologLevel name =
     (let lvl = map lower_char name
      in if lvl = ''debug'' then DebugLevel
         else if lvl = ''info'' then InfoLevel
         else if lvl = ''warn'' then WarnLevel
         else if lvl = ''error'' then ErrorLevel
         else if lvl = ''fatal'' then FatalLevel
         else if lvl = ''panic'' then PanicLevel
         else if lvl = ''disabled'' then Disabled
         else NoLevel)"

text \<open>\<open>strings.ReplaceAll\<close> for a pattern of a percent sign and a letter.\<close>

fun replace_pair :: "char \<Rightarrow> string \<Rightarrow> string \<Rightarrow> string" where
  "replace_pair k new (a # b # s) =
     (if a = CHR ''%'' \<and> b = k then new @ replace_pair k new s else a # replace_pair k new (b # s))"
| "replace_pair k new s = s"

text \<open>\<open>fmt\<close> is \<open>cur.Format\<close>.\<close>

definition prepareLogFileName :: "(string \<Rightarrow> string) \<Rightarrow> string \<Rightarrow> string" where
  "prepareLogFileName fmt pattern =
     fold (\<lambda>(k, layout). replace_pair k (fmt layout))
       [(CHR ''d'', ''2''), (CHR ''D'', ''02''), (CHR ''m'', ''1''), (CHR ''M'', ''01''), (CHR ''y'', ''06''), (CHR ''Y'', ''2006''),
        (CHR ''H'', ''15''), (CHR ''N'', ''04''), (CHR ''S'', ''05'')] pattern"

section \<open>The logger\<close>

record logger_config =
  lg_Level :: string
  lg_TimeFieldFormat :: string
  lg_PrettyPrint :: bool
  lg_RedirectStdLogger :: bool
  lg_DisableSampling :: bool
  lg_ErrorStack :: bool
  lg_ShowCaller :: bool
  lg_EventsChannel :: bool
  lg_FileName :: string

definition defaultConfig :: logger_config where
  "defaultConfig = \<lparr>lg_Level = ''debug'', lg_TimeFieldFormat = ''2006-01-02T15:04:05Z07:00'', lg_PrettyPrint = True,
     lg_RedirectStdLogger = False, lg_DisableSampling = False, lg_ErrorStack = False, lg_ShowCaller = False,
     lg_EventsChannel = False, lg_FileName = ''''\<rparr>"

record 'z logger =
  lo_zero :: 'z
  lo_zeroErr :: 'z
  lo_level :: string
  lo_prettyPrint :: bool
  lo_redirectSTDLogger :: bool
  lo_rootInitialized :: bool
  lo_showCaller :: bool
  lo_extWriter :: "string option"
  lo_eventsChannel :: bool

text \<open>What the package \<open>log\<close> and zerolog keep for the whole process.\<close>

record 'z log_globals =
  gl_level :: log_level
  gl_DisableSampling :: bool
  gl_TimeFieldFormat :: string
  gl_ErrorStack :: bool \<comment> \<open>the marshaler of stacks is set\<close>
  gl_std :: "'z option" \<comment> \<open>what the standard logger writes to\<close>

definition extra_writers :: "string option \<Rightarrow> bool \<Rightarrow> writer list" where
  "extra_writers ext events = (case ext of None \<Rightarrow> [] | Some f \<Rightarrow> [LogFile f]) @ (if events then [ChannelWriter] else [])"

text \<open>\<open>With().Logger()\<close> without a field in between changes nothing.\<close>

definition initRootLogger :: "'z zerolog \<Rightarrow> 'z logger \<Rightarrow> 'z logger" where
  "initRootLogger zl l =
     l\<lparr>lo_rootInitialized := True,
       lo_zero := zl_New zl (Stdout # extra_writers (lo_extWriter l) (lo_eventsChannel l)),
       lo_zeroErr := zl_New zl (Stderr # extra_writers (lo_extWriter l) (lo_eventsChannel l))\<rparr>"

text \<open>With the caller shown, the logger of errors is made from the other one.\<close>

definition initDefaultFields :: "'z zerolog \<Rightarrow> 'z logger \<Rightarrow> 'z logger" where
  "initDefaultFields zl l =
     (let l1 = l\<lparr>lo_zero := zl_Timestamp zl (lo_zero l), lo_zeroErr := zl_Timestamp zl (lo_zeroErr l)\<rparr>
      in if lo_showCaller l1
         then (let l2 = l1\<lparr>lo_zero := zl_Caller zl (lo_zero l1)\<rparr> in l2\<lparr>lo_zeroErr := zl_Caller zl (lo_zero l2)\<rparr>)
         else l1)"

definition addPrettyPrint :: "'z zerolog \<Rightarrow> 'z logger \<Rightarrow> 'z logger" where
  "addPrettyPrint zl l =
     l\<lparr>lo_zero := zl_Output zl (lo_zero l) [ConsoleWriter Stdout], lo_zeroErr := zl_Output zl (lo_zeroErr l) [ConsoleWriter Stderr]\<rparr>"

definition setLogOutputToZerolog :: "'z logger \<Rightarrow> 'z log_globals \<Rightarrow> 'z log_globals" where
  "setLogOutputToZerolog l g = g\<lparr>gl_std := Some (lo_zero l)\<rparr>"

definition compileLogger :: "'z zerolog \<Rightarrow> 'z logger \<Rightarrow> 'z log_globals \<Rightarrow> 'z logger \<times> 'z log_globals" where
  "compileLogger zl l g =
     (let l1 = (if lo_rootInitialized l then l else initRootLogger zl l);
          g1 = (if lo_redirectSTDLogger l1 then setLogOutputToZerolog l1 g else g);
          l2 = initDefaultFields zl l1
      in (if lo_prettyPrint l2 then addPrettyPrint zl l2 else l2, g1))"

definition set_globals :: "logger_config \<Rightarrow> bool \<Rightarrow> 'z log_globals \<Rightarrow> 'z log_globals" where
  "set_globals c sampling g =
     g\<lparr>gl_level := getZerologLevel (lg_Level c), gl_DisableSampling := sampling, gl_TimeFieldFormat := lg_TimeFieldFormat c,
       gl_ErrorStack := (if lg_ErrorStack c then True else gl_ErrorStack g)\<rparr>"

text \<open>\<open>z0\<close> is the zero value of \<open>zerolog.Logger\<close>.\<close>

definition logger_New_fields :: "'z \<Rightarrow> logger_config \<Rightarrow> string option \<Rightarrow> 'z logger" where
  "logger_New_fields z0 c ext =
     \<lparr>lo_zero = z0, lo_zeroErr = z0, lo_level = lg_Level c, lo_prettyPrint = lg_PrettyPrint c,
      lo_redirectSTDLogger = lg_RedirectStdLogger c, lo_rootInitialized = False, lo_showCaller = lg_ShowCaller c,
      lo_extWriter = ext, lo_eventsChannel = lg_EventsChannel c\<rparr>"

definition NewDefault :: "'z zerolog \<Rightarrow> 'z \<Rightarrow> 'z log_globals \<Rightarrow> 'z logger \<times> 'z log_globals" where
  "NewDefault zl z0 g = compileLogger zl (logger_New_fields z0 defaultConfig None) (set_globals defaultConfig True g)"

text \<open>\<open>New\<close>; \<open>create\<close> is \<open>os.Create\<close>, and an error of it ends the process.\<close>

definition logger_New :: "'z zerolog \<Rightarrow> 'z \<Rightarrow> (string \<Rightarrow> string) \<Rightarrow> (string \<Rightarrow> 'e option) \<Rightarrow> logger_config \<Rightarrow> 'z log_globals
    \<Rightarrow> ('e, 'z logger \<times> 'z log_globals) res" where
  "logger_New zl z0 fmt create c g =
     (let g1 = set_globals c (lg_DisableSampling c) g
      in if lg_FileName c \<noteq> ''''
         then (let fName = prepareLogFileName fmt (lg_FileName c)
               in case create fName of
                 Some e \<Rightarrow> Err e
               | None \<Rightarrow> Ok (compileLogger zl (logger_New_fields z0 c (Some fName)) g1))
         else Ok (compileLogger zl (logger_New_fields z0 c None) g1))"

text \<open>\<open>Duplicate\<close> gives the copy the writers of the logger, and not its file.\<close>

definition Duplicate :: "'z zerolog \<Rightarrow> 'z \<Rightarrow> 'z logger \<Rightarrow> 'z logger" where
  "Duplicate zl zero l =
     (let dup = l\<lparr>lo_extWriter := None,
            lo_zero := zl_Output zl zero (Stdout # extra_writers (lo_extWriter l) (lo_eventsChannel l)),
            lo_zeroErr := zl_Output zl zero (Stderr # extra_writers (lo_extWriter l) (lo_eventsChannel l))\<rparr>
      in if lo_prettyPrint l then addPrettyPrint zl dup else dup)"

text \<open>Which of the two loggers a method starts its line with, and at which level.\<close>

datatype log_method = MDebug | MInfo | MError | MWarn | MPanic | MFatal | MFatalf | MPrint | MPrintf

fun event_of :: "log_method \<Rightarrow> 'z logger \<Rightarrow> 'z \<times> log_level" where
  "event_of MDebug l = (lo_zero l, DebugLevel)"
| "event_of MInfo l = (lo_zero l, InfoLevel)"
| "event_of MError l = (lo_zeroErr l, ErrorLevel)"
| "event_of MWarn l = (lo_zeroErr l, WarnLevel)"
| "event_of MPanic l = (lo_zeroErr l, PanicLevel)"
| "event_of MFatal l = (lo_zeroErr l, FatalLevel)"
| "event_of MFatalf l = (lo_zeroErr l, FatalLevel)"
| "event_of MPrint l = (lo_zero l, DebugLevel)"
| "event_of MPrintf l = (lo_zero l, DebugLevel)"

text \<open>Where a line of a method is written.\<close>

definition line_goes_to :: "'z zerolog \<Rightarrow> log_level \<Rightarrow> 'z logger \<Rightarrow> log_method \<Rightarrow> writer list" where
  "line_goes_to zl global l m = (case event_of m l of (z, lvl) \<Rightarrow> if written_at global lvl then zl_writers zl z else [])"

text \<open>
  The channel of events: a line without its last byte; \<open>None\<close> when the channel is full and the writer waits. An empty line panics.
\<close>

definition chanelWriter_Write :: "nat \<Rightarrow> bytes \<Rightarrow> bytes list \<Rightarrow> ('e, nat \<times> bytes list) res option" where
  "chanelWriter_Write capacity ev ch =
     (if ev = [] then Some Panic
      else if length ch < capacity then Some (Ok (length ev, ch @ [butlast ev]))
      else None)"

section \<open>Where lines go\<close>

lemma zerolog_lawsD:
  assumes "zerolog_laws zl"
  shows "zl_writers zl (zl_New zl ws) = ws" "zl_writers zl (zl_Output zl z ws) = ws"
    "zl_writers zl (zl_Timestamp zl z) = zl_writers zl z" "zl_writers zl (zl_Caller zl z) = zl_writers zl z"
  using assms by (simp_all add: zerolog_laws_def)

text \<open>
  The two loggers that \<open>New\<close> makes. Readable lines replace the file and the channel; with the caller shown, errors go to the
  output of the other lines.
\<close>

lemma logger_New_writers:
  assumes "zerolog_laws zl" "logger_New zl z0 fmt create c g = Ok (l, g1)"
  defines "others \<equiv> extra_writers (if lg_FileName c = '''' then None else Some (prepareLogFileName fmt (lg_FileName c))) (lg_EventsChannel c)"
  shows "zl_writers zl (lo_zero l) = (if lg_PrettyPrint c then [ConsoleWriter Stdout] else Stdout # others)"
    and "zl_writers zl (lo_zeroErr l) =
      (if lg_PrettyPrint c then [ConsoleWriter Stderr] else (if lg_ShowCaller c then Stdout else Stderr) # others)"
    and "gl_level g1 = getZerologLevel (lg_Level c)"
    and "lo_prettyPrint l = lg_PrettyPrint c" "lo_eventsChannel l = lg_EventsChannel c"
      "lo_extWriter l = (if lg_FileName c = '''' then None else Some (prepareLogFileName fmt (lg_FileName c)))"
  using assms(2) unfolding others_def
  by (auto simp: logger_New_def compileLogger_def logger_New_fields_def initRootLogger_def initDefaultFields_def addPrettyPrint_def
      set_globals_def setLogOutputToZerolog_def Let_def zerolog_lawsD [OF assms(1)] split: if_splits option.splits)

lemma line_reaches_file:
  assumes "zerolog_laws zl" "logger_New zl z0 fmt create c g = Ok (l, g1)" "lg_FileName c \<noteq> ''''"
  shows "LogFile (prepareLogFileName fmt (lg_FileName c)) \<in> set (line_goes_to zl (gl_level g1) l m)
    \<longleftrightarrow> \<not> lg_PrettyPrint c \<and> written_at (getZerologLevel (lg_Level c)) (snd (event_of m l))"
  using logger_New_writers [OF assms(1,2)] assms(3)
  by (cases m) (auto simp: line_goes_to_def extra_writers_def split: if_splits)

text \<open>A level that is misspelt silences every method.\<close>

lemma unknown_level_silences:
  assumes "getZerologLevel name = NoLevel"
  shows "line_goes_to zl (getZerologLevel name) l m = []"
  unfolding assms by (cases m) (simp_all add: line_goes_to_def written_at_def)

lemma warning_is_unknown: "getZerologLevel ''warning'' = NoLevel" "getZerologLevel ''WARN'' = WarnLevel"
  by code_simp+

text \<open>The components have copies of the logger with the same writers; a copy of a copy has lost the file.\<close>

lemma Duplicate_writers:
  assumes "zerolog_laws zl" "\<not> lo_prettyPrint l"
  shows "zl_writers zl (lo_zero (Duplicate zl z l)) = Stdout # extra_writers (lo_extWriter l) (lo_eventsChannel l)"
    and "zl_writers zl (lo_zeroErr (Duplicate zl z l)) = Stderr # extra_writers (lo_extWriter l) (lo_eventsChannel l)"
    and "LogFile f \<notin> set (zl_writers zl (lo_zero (Duplicate zl z1 (Duplicate zl z l))))"
  using assms by (auto simp: Duplicate_def Let_def extra_writers_def zerolog_lawsD)

lemma zerolog_laws_instance:
  "zerolog_laws \<lparr>zl_New = id, zl_Output = (\<lambda>z ws. ws), zl_Timestamp = id, zl_Caller = id, zl_writers = id\<rparr>"
  by (simp add: zerolog_laws_def)

section \<open>The name of the file\<close>

lemma replace_pair_plain: "CHR ''%'' \<notin> set s \<Longrightarrow> replace_pair k new s = s"
  by (induction k new s rule: replace_pair.induct) auto

lemma plain_file_name: "CHR ''%'' \<notin> set pattern \<Longrightarrow> prepareLogFileName fmt pattern = pattern"
  by (simp add: prepareLogFileName_def replace_pair_plain)

lemma file_name_with_date:
  assumes "\<And>layout. CHR ''%'' \<notin> set (fmt layout)"
  shows "prepareLogFileName fmt ''tapir-%Y-%M-%D.log'' = ''tapir-'' @ fmt ''2006'' @ ''-'' @ fmt ''01'' @ ''-'' @ fmt ''02'' @ ''.log''"
proof -
  have app: "replace_pair k new (s @ t) = s @ replace_pair k new t" if "CHR ''%'' \<notin> set s" for k new s t
    using that
  proof (induction s)
    case (Cons a s)
    then show ?case by (cases "s @ t") (auto simp: replace_pair_plain)
  qed simp
  show ?thesis by (simp add: prepareLogFileName_def app assms replace_pair_plain)
qed

lemma channel_gets_line:
  "length ch < capacity \<Longrightarrow> chanelWriter_Write capacity (line @ [10]) ch = Some (Ok (Suc (length line), ch @ [line]))"
  by (simp add: chanelWriter_Write_def)

end
