(* ===== verification/Programs.thy ===== *)
theory Programs
  imports ConfigFile Sockets Shell RestState Logging ConnManager
begin

text \<open>
  The two programs from their start on (\<open>deploy/server/main.go\<close>, \<open>deploy/client/main.go\<close>): the order in which configuration,
  logger, adapters, use cases and the servers beside the tunnel come up, and how each of them ends the process. The profiler
  (\<open>pkg/profiler\<close>) and the window's side of the stream of statistics (\<open>adapter/grpc/client\<close>) are here too.
\<close>

section \<open>The end of a start\<close>

text \<open>
  A program runs in a state, has ended with what a command line gave, was ended by \<open>Fatalf\<close> (which runs no deferred call) or by a
  panic, or never gets to the point where it waits for a signal.
\<close>

datatype ('s, 'r) program_end = Running 's | Finished 'r | Fatal gerror | Panicked | Hanging

definition or_fatal :: "(gerror, 'a) res \<Rightarrow> ('a \<Rightarrow> ('s, 'r) program_end) \<Rightarrow> ('s, 'r) program_end" where
  "or_fatal r k = (case r of Ok x \<Rightarrow> k x | Err e \<Rightarrow> Fatal e | Panic \<Rightarrow> Panicked)"

lemma or_fatal_simps [simp]:
  "or_fatal (Ok x) k = k x" "or_fatal (Err e) k = Fatal e" "or_fatal Panic k = Panicked"
  by (simp_all add: or_fatal_def)

text \<open>The settings of a logger in a configuration: pointers, which are nil if \<open>Parse\<close> has not filled them.\<close>

record logger_settings =
  ls_Level :: string
  ls_TimeFieldFormat :: string
  ls_PrettyPrint :: "bool option"
  ls_DisableSampling :: "bool option"
  ls_RedirectStdLogger :: "bool option"
  ls_ErrorStack :: "bool option"
  ls_ShowCaller :: "bool option"
  ls_FileName :: string

definition logger_config_of :: "logger_settings \<Rightarrow> string \<Rightarrow> ('e, logger_config) res" where
  "logger_config_of ls file =
     rbind (deref (ls_PrettyPrint ls)) (\<lambda>pretty.
     rbind (deref (ls_DisableSampling ls)) (\<lambda>sampling.
     rbind (deref (ls_RedirectStdLogger ls)) (\<lambda>redirect.
     rbind (deref (ls_ErrorStack ls)) (\<lambda>errStack.
     rbind (deref (ls_ShowCaller ls)) (\<lambda>caller.
       Ok \<lparr>lg_Level = ls_Level ls, lg_TimeFieldFormat = ls_TimeFieldFormat ls, lg_PrettyPrint = pretty, lg_RedirectStdLogger = redirect,
         lg_DisableSampling = sampling, lg_ErrorStack = errStack, lg_ShowCaller = caller, lg_EventsChannel = False, lg_FileName = file\<rparr>)))))"

text \<open>A service on an address beside the tunnel.\<close>

datatype service = Profiler string int | Rest string int | Rpc string int

record side_services =
  sv_ProfilerEnabled :: "bool option"
  sv_Profiler :: "string \<times> int"
  sv_RestEnabled :: "bool option"
  sv_Rest :: "string \<times> int"

text \<open>\<open>profiler.Start\<close> starts one profiler for the life of the process.\<close>

definition profiler_Start :: "string \<Rightarrow> int \<Rightarrow> service list \<Rightarrow> service list" where
  "profiler_Start host port running =
     (if \<exists>s\<in>set running. case s of Profiler _ _ \<Rightarrow> True | _ \<Rightarrow> False then running else running @ [Profiler host port])"

text \<open>\<open>fmt.Sprintf("%s:%d", host, port)\<close>\<close>

definition string_of_int :: "int \<Rightarrow> string" where
  "string_of_int i = (if i < 0 then ''-'' @ string_of_nat (nat (- i)) else string_of_nat (nat i))"

definition host_and_port :: "string \<Rightarrow> int \<Rightarrow> string" where
  "host_and_port host port = host @ '':'' @ string_of_int port"

section \<open>The view over HTTP\<close>

text \<open>
  \<open>rest.New\<close> makes a server with one route and reports no error. \<open>Start\<close> runs it in a goroutine of its own: \<open>run\<close> is the error with which
  \<open>Run\<close> of gin returns, if it ever does, which then ends the process.
\<close>

record rest_server =
  rv_Host :: string
  rv_Port :: int
  rv_routes :: "(string \<times> string) list"

definition rest_init :: "rest_server \<Rightarrow> (gerror, rest_server) res" where
  "rest_init s = Ok (s\<lparr>rv_routes := rv_routes s @ [(''GET'', ''/api/v1/state'')]\<rparr>)"

definition rest_New :: "string \<Rightarrow> int \<Rightarrow> (gerror, rest_server) res" where
  "rest_New host port = rest_init \<lparr>rv_Host = host, rv_Port = port, rv_routes = []\<rparr>"

definition rest_Start :: "(string \<Rightarrow> gerror option) \<Rightarrow> rest_server \<Rightarrow> gerror option" where
  "rest_Start run s = run (host_and_port (rv_Host s) (rv_Port s))"

text \<open>What an answer of the server is made from: gin calls the handler of a route, and answers everything else itself (\<open>None\<close>).\<close>

definition rest_answer :: "(net_addr \<Rightarrow> string) \<Rightarrow> server_uc \<Rightarrow> rest_server \<Rightarrow> string \<times> string \<Rightarrow> (gerror, state_response) res option" where
  "rest_answer str uc s request = (if request \<in> set (rv_routes s) then Some (handlerState str uc) else None)"

lemma rest_answers_state:
  "rest_New host port = Ok s \<Longrightarrow> rest_answer str uc s request = (if request = (''GET'', ''/api/v1/state'') then Some (handlerState str uc) else None)"
  by (auto simp: rest_New_def rest_init_def rest_answer_def)

section \<open>The server of the calls\<close>

text \<open>\<open>New\<close> of \<open>adapter/grpc/server\<close> listens before it answers; serving goes on in a goroutine, and an error of it ends the process.\<close>

definition grpc_server_New :: "(string \<Rightarrow> gerror option) \<Rightarrow> string \<Rightarrow> int \<Rightarrow> (gerror, service) res" where
  "grpc_server_New listen host port =
     (case listen (host_and_port host port) of Some e \<Rightarrow> Err e | None \<Rightarrow> Ok (Rpc host port))"

section \<open>The server\<close>

record running_server =
  rs_program :: server_program
  rs_started :: started
  rs_services :: "service list"

definition initRestServer :: "side_services \<Rightarrow> service list \<Rightarrow> (gerror, service list) res" where
  "initRestServer ss running =
     rbind (deref (sv_RestEnabled ss)) (\<lambda>on.
       if \<not> on then Ok running
       else rbind (rest_New (fst (sv_Rest ss)) (snd (sv_Rest ss))) (\<lambda>srv. Ok (running @ [Rest (rv_Host srv) (rv_Port srv)])))"

definition initUseCases :: "program_env \<Rightarrow> (string \<Rightarrow> bytes) \<Rightarrow> server_file \<Rightarrow> server_program \<Rightarrow> (gerror, server_uc) res" where
  "initUseCases pe parseIP cfg sp = rbind (server_usecase pe parseIP cfg (sp_merger sp)) (\<lambda>(_, _, uc). Ok uc)"

text \<open>
  \<open>main\<close> after \<open>init\<close>: \<open>commandLine\<close> is what the command line does when there is one. The profiler comes up before the tunnel, the view
  over HTTP after it.
\<close>

definition server_main :: "(string list \<Rightarrow> cmd_result) \<Rightarrow> program_env \<Rightarrow> (string \<Rightarrow> bytes) \<Rightarrow> program_settings \<Rightarrow> socket_options
    \<Rightarrow> side_services \<Rightarrow> (string \<Rightarrow> bool) \<Rightarrow> gerror option \<Rightarrow> (u16 \<Rightarrow> u8 \<Rightarrow> gerror option) \<Rightarrow> string list \<Rightarrow> server_file
    \<Rightarrow> (running_server, cmd_result) program_end" where
  "server_main commandLine pe parseIP pg op ss hostOk observe run argv cfg =
     (if argv \<noteq> [] then Finished (commandLine argv)
      else
        or_fatal (initAdapters pe pg op cfg) (\<lambda>sp.
        or_fatal (initUseCases pe parseIP cfg sp) (\<lambda>uc.
        or_fatal (deref (sv_ProfilerEnabled ss)) (\<lambda>prof.
          let running = (if prof then profiler_Start (fst (sv_Profiler ss)) (snd (sv_Profiler ss)) [] else [])
          in case server_Start hostOk observe run cfg uc of
              None \<Rightarrow> Hanging
            | Some (r, s) \<Rightarrow>
                or_fatal r (\<lambda>_.
                or_fatal (initRestServer ss running) (\<lambda>services.
                  Running \<lparr>rs_program = sp, rs_started = s, rs_services = services\<rparr>))))))"

section \<open>The client\<close>

record running_client =
  rl_manager :: "client_entry conn_manager"
  rl_saved :: "client_entry list option" \<comment> \<open>what the import has saved\<close>
  rl_services :: "service list"

text \<open>The directory of the configuration, and the file of the log: the flag or the configuration before the directory of the user.\<close>

definition client_paths :: "app_system \<Rightarrow> string \<Rightarrow> logger_settings \<Rightarrow> (gerror, string \<times> string) res" where
  "client_paths sys configFileDir ls =
     rbind (CreateApplicationDir sys) (\<lambda>homeDir.
       Ok (structs_If (configFileDir = '''') homeDir configFileDir,
           structs_If (ls_FileName ls \<noteq> '''') (ls_FileName ls) (as_join sys [homeDir, ''tapir-client.log''])))"

text \<open>The flag \<open>-import\<close> in \<open>init\<close>: what was saved, and the connections from then on.\<close>

definition init_import :: "cmd_lib \<Rightarrow> file_result option \<Rightarrow> client_entry list
    \<Rightarrow> (gerror, client_entry list option \<times> client_entry list) res" where
  "init_import lib connImport conns =
     (case connImport of
        None \<Rightarrow> Ok (None, conns)
      | Some file \<Rightarrow> rbind (importConnection lib file conns) (\<lambda>conns1. Ok (Some conns1, conns1)))"

text \<open>
  \<open>main\<close>: \<open>listen\<close> is the answer of \<open>net.Listen\<close> for the calls of the window; \<open>create\<close> makes a connection, and \<open>start\<close>
  is the answer of its \<open>Start\<close>.
\<close>

definition client_main :: "cmd_lib \<Rightarrow> system_config \<Rightarrow> side_services \<Rightarrow> string \<times> int \<Rightarrow> (string \<Rightarrow> gerror option)
    \<Rightarrow> (client_entry \<Rightarrow> gerror option) \<Rightarrow> gerror option \<Rightarrow> int \<Rightarrow> file_result option \<Rightarrow> bytes \<Rightarrow> client_entry list
    \<Rightarrow> (running_client, unit) program_end" where
  "client_main lib sys ss ipc listen create start now connImport connName conns =
     or_fatal (init_import lib connImport conns) (\<lambda>(saved, conns1).
     or_fatal (deref (sv_ProfilerEnabled ss)) (\<lambda>prof.
       let running = (if prof then profiler_Start (fst (sv_Profiler ss)) (snd (sv_Profiler ss)) [] else [])
       in or_fatal (command_New sys) (\<lambda>_.
          let uc = NewConnectionManagerUseCase conns1
          in or_fatal (grpc_server_New listen (fst ipc) (snd ipc)) (\<lambda>rpc.
                let services = running @ [rpc]
                in if connName = [] then Running \<lparr>rl_manager = uc, rl_saved = saved, rl_services = services\<rparr>
                   else case connection_index connName conns1 of
                       None \<Rightarrow> Fatal (ErrLibrary 0)
                     | Some i \<Rightarrow>
                         (case Connect create start now (int i) uc of
                            (Some e, _) \<Rightarrow> Fatal e
                          | (None, uc1) \<Rightarrow> Running \<lparr>rl_manager = uc1, rl_saved = saved, rl_services = services\<rparr>)))))"

text \<open>
  An imported connection is started by its name in the same call of the program: it is saved behind the others, and it is the one that
  the window then sees as connected.
\<close>

lemma import_and_connect:
  assumes import: "importConnection lib file conns = Ok conns1" "\<forall>e\<in>set conns. en_Name e \<noteq> en_Name (last conns1)"
      "en_Name (last conns1) \<noteq> []"
    and ready: "sv_ProfilerEnabled ss = Some prof" "command_New sys = Ok ex" "create (last conns1) = None"
  shows "\<exists>r. client_main lib sys ss ipc (\<lambda>_. None) create None now (Some file) (en_Name (last conns1)) conns = Running r
    \<and> rl_saved r = Some conns1 \<and> cm_Connections (rl_manager r) = conns1
    \<and> map in_IsConnected (GetConnections (rl_manager r)) = replicate (length conns) False @ [True]"
proof -
  have index: "connection_index (en_Name (last conns1)) conns1 = Some (length conns)"
    by (rule imported_connection_found [OF import(1,2)])
  obtain e where conns1: "conns1 = conns @ [e]"
    using import(1) by (auto simp: importConnection_def split: file_result.splits option.splits)
  define uc where "uc = NewConnectionManagerUseCase conns1"
  obtain uc1 where uc1: "Connect create None now (int (length conns)) uc = (None, uc1)" "cm_Connections uc1 = conns1"
      "cm_connections uc1 = [(int (length conns), \<lparr>in_ID = int (length conns), in_Handler = Some 0, in_IsConnected = True, in_ConnectTs = now\<rparr>)]"
    using ready(3) by (simp add: Connect_def Let_def uc_def NewConnectionManagerUseCase_def drop_first_def conns1)
  have "map in_IsConnected (GetConnections uc1) = map (\<lambda>i. i = length conns) [0 ..< Suc (length conns)]"
    by (auto simp: GetConnections_def uc1(2,3) conns1 simp del: upt_Suc)
  also have "\<dots> = replicate (length conns) False @ [True]"
    by (rule nth_equalityI) (simp_all add: nth_append del: upt_Suc)
  finally have shown: "map in_IsConnected (GetConnections uc1) = replicate (length conns) False @ [True]" .
  have "client_main lib sys ss ipc (\<lambda>_. None) create None now (Some file) (en_Name (last conns1)) conns =
      Running \<lparr>rl_manager = uc1, rl_saved = Some conns1,
        rl_services = (if prof then profiler_Start (fst (sv_Profiler ss)) (snd (sv_Profiler ss)) [] else []) @ [Rpc (fst ipc) (snd ipc)]\<rparr>"
    by (simp add: client_main_def grpc_server_New_def init_import_def import(1,3) ready(1,2) index uc1(1) uc_def [symmetric] Let_def)
  then show ?thesis using uc1(2) shown by simp
qed

text \<open>A server whose last port is 65535 runs its ports and never gets to the view over HTTP.\<close>

lemma server_main_hangs:
  assumes "initAdapters pe pg op cfg = Ok sp" "initUseCases pe parseIP cfg sp = Ok uc" "sv_ProfilerEnabled ss = Some prof"
    and "sf_ServerHost cfg \<noteq> ''''" "hostOk (sf_ServerHost cfg)" "nc_PortMax (sf_Network cfg) = 0xFFFF"
  shows "server_main commandLine pe parseIP pg op ss hostOk None run [] cfg = Hanging"
proof -
  have "server_Start hostOk None run cfg uc = None"
    using assms(4-6) by (simp add: server_Start_def server_listens_on_every_port Let_def split: prod.split)
  then show ?thesis using assms(1-3) by (simp add: server_main_def Let_def)
qed

text \<open>A logger can be made from every configuration that \<open>Parse\<close> has filled.\<close>

lemma logger_of_filled:
  "logger_config_of ls file \<noteq> (Panic :: ('e, logger_config) res) \<longleftrightarrow>
     None \<notin> {ls_PrettyPrint ls, ls_DisableSampling ls, ls_RedirectStdLogger ls, ls_ErrorStack ls, ls_ShowCaller ls}"
  by (cases "ls_PrettyPrint ls"; cases "ls_DisableSampling ls"; cases "ls_RedirectStdLogger ls"; cases "ls_ErrorStack ls";
      cases "ls_ShowCaller ls") (simp_all add: logger_config_of_def)

section \<open>The window's side of the stream of statistics\<close>

text \<open>
  \<open>StatisticStream\<close> of the client of the calls: what \<open>Recv\<close> answers, with whether the context is found cancelled before it, one for each
  turn of the loop. The result: the figures given to the window, and whether the channel is closed. \<open>decode\<close> is \<open>json.Unmarshal\<close>.
\<close>

datatype received = RecvData bytes | RecvEOF | RecvError gerror

fun window_stream :: "(bytes \<Rightarrow> 'f option) \<Rightarrow> (bool \<times> received) list \<Rightarrow> 'f list \<times> bool" where
  "window_stream decode [] = ([], False)"
| "window_stream decode ((cancelled, r) # rs) =
     (if cancelled then ([], True)
      else case r of
          RecvEOF \<Rightarrow> ([], True)
        | RecvError e \<Rightarrow> ([], True)
        | RecvData data \<Rightarrow>
            (case decode data of
               None \<Rightarrow> ([], True)
             | Some stat \<Rightarrow> (case window_stream decode rs of (stats, c) \<Rightarrow> (stat # stats, c))))"

definition ipc_StatisticStream :: "(bytes \<Rightarrow> 'f option) \<Rightarrow> gerror option \<Rightarrow> (bool \<times> received) list \<Rightarrow> gerror + 'f list \<times> bool" where
  "ipc_StatisticStream decode call rs = (case call of Some e \<Rightarrow> Inl e | None \<Rightarrow> Inr (window_stream decode rs))"

text \<open>Whatever the server encodes before the stream ends, the window gets, in that order.\<close>

lemma window_gets_figures:
  assumes "\<And>f. decode (encode f) = Some f"
  shows "window_stream decode (map (\<lambda>f. (False, RecvData (encode f))) fs @ rs) =
    (fs @ fst (window_stream decode rs), snd (window_stream decode rs))"
  by (induction fs) (simp_all add: assms split_beta)

lemma window_stream_closes:
  "snd (window_stream decode rs) \<longleftrightarrow> (\<exists>x\<in>set rs. fst x \<or> (case snd x of RecvData d \<Rightarrow> decode d = None | _ \<Rightarrow> True))"
proof (induction rs)
  case (Cons x rs)
  then show ?case by (cases x; cases "snd x") (auto split: option.splits prod.splits)
qed simp

end
