(* ===== verification/Window.thy ===== *)
theory Window
  imports GuiProps Programs
begin

text \<open>
  The program of the window (\<open>deploy/gui\<close>): the client that it unpacks, the two ways a message of the page comes in, with
  and without the bootstrap of the library, and the bounds of the window in the configuration. The calls that make the window are
  in the theory \<open>Desktop\<close>.
\<close>

section \<open>The client program\<close>

text \<open>
  \<open>prepareClient\<close> on the file of the client: \<open>bin\<close> and \<open>binHash\<close> were put into the program when it was built, \<open>md5\<close>
  is of the standard library, \<open>failed\<close> is the answer of \<open>WriteFile\<close> with what it leaves.
\<close>

definition prepareClient :: "(bytes \<Rightarrow> string) \<Rightarrow> bytes \<Rightarrow> string \<Rightarrow> (gerror \<times> file_result) option \<Rightarrow> file_result
    \<Rightarrow> (gerror, unit) res \<times> file_result" where
  "prepareClient md5 bin binHash failed f =
     (let write = (case failed of None \<Rightarrow> (Ok (), FileBytes bin) | Some (e, left) \<Rightarrow> (Err e, left))
      in if bin = [] \<or> binHash = '''' then (Ok (), f)
         else case f of
             FileNotExist \<Rightarrow> write
           | FileError \<Rightarrow> (Err (ErrLibrary 8), f)
           | FileBytes cur \<Rightarrow> if md5 cur \<noteq> binHash then write else (Ok (), f))"

text \<open>With the right hash the file is the client of this build, or one with the same hash; a second start leaves it alone.\<close>

lemma prepareClient_current:
  assumes "prepareClient md5 bin (md5 bin) failed f = (Ok (), g)" "bin \<noteq> []" "md5 bin \<noteq> ''''"
  shows "\<exists>cur. g = FileBytes cur \<and> md5 cur = md5 bin \<and> (cur = bin \<or> f = g)"
    and "prepareClient md5 bin (md5 bin) failed1 g = (Ok (), g)"
  using assms by (auto simp: prepareClient_def Let_def split: file_result.splits option.splits if_splits)

section \<open>Messages of the page\<close>

text \<open>
  With the bootstrap, the payload is decoded into a map: \<open>parse\<close> is the syntax of JSON, and a value that is neither an object nor
  null is an error. \<open>Inl\<close>: the error that is returned.
\<close>

definition bootstrap_payload :: "(bytes \<Rightarrow> gerror + json) \<Rightarrow> bytes \<Rightarrow> gerror + json option" where
  "bootstrap_payload parse data =
     (if data = [] then Inr None
      else case parse data of
          Inl e \<Rightarrow> Inl e
        | Inr JNull \<Rightarrow> Inr (Some JNull)
        | Inr (JObject m) \<Rightarrow> Inr (Some (JObject m))
        | Inr _ \<Rightarrow> Inl (ErrLibrary 9))"

definition bootstrapMessageHandler :: "(bytes \<Rightarrow> gerror + json) \<Rightarrow> ('x, 'j) gui_world \<Rightarrow> 'x gui_turn \<Rightarrow> string \<Rightarrow> bytes \<Rightarrow> 'x desktop
    \<Rightarrow> (gerror, gui_response \<times> 'x desktop) res" where
  "bootstrapMessageHandler parse w t name data d =
     (case bootstrap_payload parse data of
        Inl e \<Rightarrow> Err e
      | Inr p \<Rightarrow> eventsHandler w t name p d)"

text \<open>
  Without it the whole message is decoded into a request: an error gives no answer (\<open>None\<close>), and a message that is
  null leaves a nil request.
\<close>

definition noBootstrapMessageHandler :: "('x, 'j) gui_world \<Rightarrow> 'x gui_turn \<Rightarrow> gerror + (string \<times> json option) option \<Rightarrow> 'x desktop
    \<Rightarrow> (gerror, gui_response option \<times> 'x desktop) res" where
  "noBootstrapMessageHandler w t unmarshalled d =
     (case unmarshalled of
        Inl e \<Rightarrow> Ok (None, d)
      | Inr req \<Rightarrow>
          rbind (deref req) (\<lambda>(cmd, p). rbind (eventsHandler w t cmd p d) (\<lambda>(resp, d1). Ok (Some resp, d1))))"

text \<open>On a request whose payload is an object, or that has none, the two do the same.\<close>

lemma handlers_agree:
  assumes "data \<noteq> []" "parse data = Inr (JObject m)"
  shows "noBootstrapMessageHandler w t (Inr (Some (cmd, Some (JObject m)))) d =
      rbind (bootstrapMessageHandler parse w t cmd data d) (\<lambda>(resp, d1). Ok (Some resp, d1))"
    and "noBootstrapMessageHandler w t (Inr (Some (cmd, None))) d =
      rbind (bootstrapMessageHandler parse w t cmd [] d) (\<lambda>(resp, d1). Ok (Some resp, d1))"
  using assms by (simp_all add: noBootstrapMessageHandler_def bootstrapMessageHandler_def bootstrap_payload_def)

text \<open>The assertion on the payload holds behind the bootstrap; without it, the page can end the program.\<close>

lemma bootstrap_payload_is_map: "bootstrap_payload parse data = Inr p \<Longrightarrow> payload_of p \<noteq> Panic"
  by (auto simp: bootstrap_payload_def payload_of_def split: if_splits sum.splits json.splits)

lemma no_bootstrap_panics:
  "noBootstrapMessageHandler w t (Inr None) d = Panic"
  "noBootstrapMessageHandler w t (Inr (Some (cmd, Some (JArray xs)))) d = Panic"
  by (simp_all add: noBootstrapMessageHandler_def eventsHandler_def payload_of_def)

section \<open>The bounds of the window\<close>

record window_bounds =
  wb_X :: "int option"
  wb_Y :: "int option"
  wb_Width :: "int option"
  wb_Height :: "int option"

record gui_settings =
  gs_WindowX :: int
  gs_WindowY :: int
  gs_WindowWidth :: int
  gs_WindowHeight :: int

definition window_moved :: "window_bounds option \<Rightarrow> gui_settings \<Rightarrow> ('e, gui_settings) res" where
  "window_moved bounds gs =
     rbind (deref bounds) (\<lambda>b. rbind (deref (wb_X b)) (\<lambda>x. rbind (deref (wb_Y b)) (\<lambda>y.
       Ok (gs\<lparr>gs_WindowX := x, gs_WindowY := y\<rparr>))))"

definition window_resized :: "window_bounds option \<Rightarrow> gui_settings \<Rightarrow> ('e, gui_settings) res" where
  "window_resized bounds gs =
     rbind (deref bounds) (\<lambda>b. rbind (deref (wb_Width b)) (\<lambda>x. rbind (deref (wb_Height b)) (\<lambda>y.
       Ok (gs\<lparr>gs_WindowWidth := x, gs_WindowHeight := y\<rparr>))))"

definition getWindowOptions :: "bool \<Rightarrow> gui_settings \<Rightarrow> window_bounds \<times> int \<times> int \<times> bool" where
  \<comment> \<open>with the least width and height, and whether the window hides when it is closed\<close>
  "getWindowOptions debug gs =
     (\<lparr>wb_X = Some (gs_WindowX gs), wb_Y = Some (gs_WindowY gs), wb_Width = Some (gs_WindowWidth gs),
       wb_Height = Some (gs_WindowHeight gs)\<rparr>, 400, 400, \<not> debug)"

text \<open>The next window has the bounds that the last events gave.\<close>

lemma bounds_are_kept:
  assumes "window_moved (Some b) gs = (Ok gs1 :: ('e, gui_settings) res)" "window_resized (Some b) gs1 = (Ok gs2 :: ('e, gui_settings) res)"
  shows "fst (getWindowOptions debug gs2) = b"
  using assms by (cases b) (auto simp: window_moved_def window_resized_def getWindowOptions_def res_simps deref_def split: option.splits)

end
