(* ===== verification/Desktop.thy ===== *)
theory Desktop
  imports Window
begin

text \<open>
  The run of the window's program (\<open>deploy/gui/main.go\<close>, \<open>gui.go\<close>, \<open>gui-nobootstrap.go\<close>, \<open>gui-bootstrap.go\<close>): its start, the
  calls of astilectron that make the window and the tray, in their order and with their options, the messages in both directions, and
  its end. The library is a parameter: what its calls answer.
\<close>

section \<open>Options\<close>

definition applicationName :: string where "applicationName = ''Tapir''"
definition defaultVersionAstilectron :: string where "defaultVersionAstilectron = ''0.56.0''"
definition defaultVersionElectron :: string where "defaultVersionElectron = ''13.6.9''"

text \<open>What the options are made from: the paths, and the versions that were put into the program when it was built.\<close>

record gui_env =
  ge_system :: app_system
  ge_homeDir :: string
  ge_paths :: app_paths
  ge_VersionAstilectron :: string
  ge_VersionElectron :: string
  ge_gui :: gui_settings

record astilectron_options =
  ao_AppName :: string
  ao_AppIconDarwinPath :: string
  ao_AppIconDefaultPath :: string
  ao_BaseDirectoryPath :: string
  ao_VersionAstilectron :: string
  ao_VersionElectron :: string

definition getAstilectronOptions :: "gui_env \<Rightarrow> astilectron_options" where
  "getAstilectronOptions g =
     (let iconPath = GetApplicationIcon (ge_system g) (ge_homeDir g) (ge_paths g)
      in \<lparr>ao_AppName = applicationName, ao_AppIconDarwinPath = iconPath, ao_AppIconDefaultPath = iconPath,
          ao_BaseDirectoryPath = ge_homeDir g,
          ao_VersionAstilectron = (if ge_VersionAstilectron g = '''' then defaultVersionAstilectron else ge_VersionAstilectron g),
          ao_VersionElectron = (if ge_VersionElectron g = '''' then defaultVersionElectron else ge_VersionElectron g)\<rparr>)"

text \<open>The tray: its image and its tooltip; the items of its menu show the window, or have a role of the library.\<close>

definition getTrayOptions :: "gui_env \<Rightarrow> string \<times> string" where
  "getTrayOptions g = (GetTrayIcon (ge_system g) (ge_homeDir g) (ge_paths g), applicationName)"

datatype menu_action = ShowWindow | RoleQuit

definition getTrayMenuOptions :: "(string \<times> menu_action) list" where
  "getTrayMenuOptions = [(''Show'', ShowWindow), (''Exit'', RoleQuit)]"

section \<open>The window without the bootstrap\<close>

text \<open>The calls of the library, in the order in which the program makes them.\<close>

datatype lib_call =
    MakeLibrary astilectron_options
  | HandleSignals
  | StartLibrary
  | MakeWindow string "window_bounds \<times> int \<times> int \<times> bool"
  | CreateWindow
  | OpenDevTools
  | OnMessage
  | CreateTray "string \<times> string"
  | CreateMenu "(string \<times> menu_action) list"
  | OnMove
  | OnResize
  | SendMessages
  | WaitForEnd
  | CloseLibrary

text \<open>Calls are made until one fails; \<open>answer\<close> gives the error of a call.\<close>

fun lib_calls :: "(lib_call \<Rightarrow> gerror option) \<Rightarrow> lib_call list \<Rightarrow> lib_call list \<times> gerror option" where
  "lib_calls answer [] = ([], None)"
| "lib_calls answer (c # cs) =
     (case answer c of
        Some e \<Rightarrow> ([c], Some e)
      | None \<Rightarrow> (case lib_calls answer cs of (made, e) \<Rightarrow> (c # made, e)))"

text \<open>An error of the developer tools is only logged.\<close>

definition createWindow :: "gui_env \<Rightarrow> (lib_call \<Rightarrow> gerror option) \<Rightarrow> lib_call list \<times> gerror option" where
  "createWindow g answer =
     (case lib_calls answer
        [MakeLibrary (getAstilectronOptions g), HandleSignals, StartLibrary,
         MakeWindow (GetHomepage (ge_system g) (ge_homeDir g) (ge_paths g)) (getWindowOptions (as_debug (ge_system g)) (ge_gui g)),
         CreateWindow] of
        (made, Some e) \<Rightarrow> (made, Some e)
      | (made, None) \<Rightarrow> (if as_debug (ge_system g) then made @ [OpenDevTools] else made, None))"

definition createTray :: "gui_env \<Rightarrow> (lib_call \<Rightarrow> gerror option) \<Rightarrow> lib_call list \<times> gerror option" where
  "createTray g answer = lib_calls answer [CreateTray (getTrayOptions g), CreateMenu getTrayMenuOptions]"

definition initGUIEvents :: "lib_call list" where
  "initGUIEvents = [OnMove, OnResize]"

text \<open>\<open>Fatalf\<close> ends the process without the deferred call that closes the library.\<close>

definition withoutBootstrap :: "gui_env \<Rightarrow> (lib_call \<Rightarrow> gerror option) \<Rightarrow> lib_call list \<times> gerror option" where
  "withoutBootstrap g answer =
     (case createWindow g answer of
        (made, Some e) \<Rightarrow> (made, Some e)
      | (made, None) \<Rightarrow>
          (case createTray g answer of
             (made1, Some e) \<Rightarrow> (made @ [OnMessage] @ made1, Some e)
           | (made1, None) \<Rightarrow>
               (made @ [OnMessage] @ made1 @ initGUIEvents @ [SendMessages, WaitForEnd, CloseLibrary], None)))"

section \<open>The window with the bootstrap\<close>

record bootstrap_options =
  bo_Astilectron :: astilectron_options
  bo_Window :: "string \<times> window_bounds \<times> int \<times> int \<times> bool"
  bo_Tray :: "string \<times> string"
  bo_TrayMenu :: "(string \<times> menu_action) list"
  bo_OnWait :: "lib_call list"

definition getWindow :: "gui_env \<Rightarrow> string \<times> window_bounds \<times> int \<times> int \<times> bool" where
  "getWindow g = (GetHomepage (ge_system g) (ge_homeDir g) (ge_paths g), getWindowOptions (as_debug (ge_system g)) (ge_gui g))"

text \<open>\<open>run\<close> is the error with which \<open>bootstrap.Run\<close> returns.\<close>

definition bootstrap_options_of :: "gui_env \<Rightarrow> bootstrap_options" where
  "bootstrap_options_of g =
     \<lparr>bo_Astilectron = getAstilectronOptions g, bo_Window = getWindow g, bo_Tray = getTrayOptions g,
      bo_TrayMenu = getTrayMenuOptions, bo_OnWait = initGUIEvents @ [SendMessages]\<rparr>"

definition withBootstrap :: "gui_env \<Rightarrow> (bootstrap_options \<Rightarrow> gerror option) \<Rightarrow> gerror option" where
  "withBootstrap g run = run (bootstrap_options_of g)"

section \<open>Messages\<close>

text \<open>
  The goroutine of \<open>initAsyncMessages\<close>: in every turn it finds the context cancelled or takes a message of the use case, which it sends to the
  window; a failed send is only logged. The result is what was tried to be sent.
\<close>

datatype 'm async_turn = CtxDone | AsyncMessage 'm "gerror option"

fun initAsyncMessages :: "'m async_turn list \<Rightarrow> 'm list" where
  "initAsyncMessages [] = []"
| "initAsyncMessages (CtxDone # ts) = []"
| "initAsyncMessages (AsyncMessage m err # ts) = m # initAsyncMessages ts"

text \<open>A message of the page, as the one or the other handler gets it; the error that is returned to the bootstrap changes nothing.\<close>

datatype page_message = PageBootstrap string bytes | PageRaw "gerror + (string \<times> json option) option"

fun page_turn :: "(bytes \<Rightarrow> gerror + json) \<Rightarrow> ('x, 'j) gui_world \<Rightarrow> 'x gui_turn \<Rightarrow> page_message \<Rightarrow> 'x desktop \<Rightarrow> (gerror, 'x desktop) res" where
  "page_turn parse w t (PageBootstrap name data) d =
     (case bootstrapMessageHandler parse w t name data d of Ok (_, d1) \<Rightarrow> Ok d1 | Err e \<Rightarrow> Ok d | Panic \<Rightarrow> Panic)"
| "page_turn parse w t (PageRaw u) d = rbind (noBootstrapMessageHandler w t u d) (\<lambda>(_, d1). Ok d1)"

fun page_run :: "(bytes \<Rightarrow> gerror + json) \<Rightarrow> ('x, 'j) gui_world \<Rightarrow> ('x gui_turn \<times> page_message) list \<Rightarrow> 'x desktop \<Rightarrow> (gerror, 'x desktop) res" where
  "page_run parse w [] d = Ok d"
| "page_run parse w ((t, m) # ms) d = rbind (page_turn parse w t m d) (page_run parse w ms)"

text \<open>
  The use case behind the window starts with an empty channel and its \<open>init\<close>, which asks the client for its state (\<open>answers\<close>) and starts it
  if it is not there.
\<close>

definition NewGUIUseCase :: "(nat \<Rightarrow> ipc_error + connection_info list) \<Rightarrow> ipc_error option \<Rightarrow> 'x gui_config \<Rightarrow> (bool \<times> 'x gui_usecase) option" where
  "NewGUIUseCase answers run cfg = gui_init answers run \<lparr>gu_cfg = cfg, gu_messageCh = []\<rparr>"

text \<open>The first thing that the page gets is the configuration with the state of the client, once there is one.\<close>

lemma page_is_initialized:
  assumes "answers 0 = Inr state \<or> answers 0 = Inl (EntityError ErrGrpcServerUnavailable) \<and> run = None
      \<and> answers n = Inr state \<and> (\<forall>k < n. isl (answers k))"
  shows "NewGUIUseCase answers run cfg = Some (True, sendInitialization cfg (Some state) None \<lparr>gu_cfg = cfg, gu_messageCh = []\<rparr>)"
  using assms
proof
  assume a: "answers 0 = Inl (EntityError ErrGrpcServerUnavailable) \<and> run = None \<and> answers n = Inr state \<and> (\<forall>k < n. isl (answers k))"
  then have "1 \<le> n" by (cases n) auto
  then have "wait_client answers 1 = Some state" using a by (intro wait_client_first [of _ n]) auto
  then show ?thesis using a by (simp add: NewGUIUseCase_def gui_init_def)
qed (simp add: NewGUIUseCase_def gui_init_def)

section \<open>The program\<close>

text \<open>What the start of the program meets, besides the library: the file of the client, and the clients of the system and of the calls.\<close>

record gui_start =
  gx_config :: "(gerror, unit) res" \<comment> \<open>\<open>config.New\<close>, then \<open>Normalize\<close>, which may panic\<close>
  gx_logger :: logger_settings
  gx_prepare :: "(gerror, unit) res"
  gx_system :: system_config
  gx_grpc :: "(gerror, unit) res"
  gx_UseBootstrap :: string

definition gui_program_init :: "gui_env \<Rightarrow> gui_start \<Rightarrow> (gerror, gui_env \<times> logger_config) res" where
  "gui_program_init g x =
     rbind (CreateApplicationDir (ge_system g)) (\<lambda>homeDir.
     rbind (gx_config x) (\<lambda>_.
     rbind (logger_config_of (gx_logger x) (ls_FileName (gx_logger x))) (\<lambda>lg.
       Ok (g\<lparr>ge_homeDir := homeDir\<rparr>, lg))))"

definition gui_shutdown :: "('x, 'j) gui_world \<Rightarrow> fate \<Rightarrow> fate \<Rightarrow> 'x desktop \<Rightarrow> (gerror, 'x desktop) res" where
  "gui_shutdown w ft1 ft2 d = gui_Shutdown w ft1 ft2 d"

text \<open>
  \<open>main\<close>: \<open>d\<close> is the state behind \<open>NewGUIUseCase\<close>, which has no error, and \<open>ms\<close> the messages of the page until the window ends.
  The deferred \<open>shutdown\<close> runs when the library returns, not after \<open>Fatalf\<close>.
\<close>

definition gui_main :: "(bytes \<Rightarrow> gerror + json) \<Rightarrow> ('x, 'j) gui_world \<Rightarrow> gui_env \<Rightarrow> gui_start \<Rightarrow> (lib_call \<Rightarrow> gerror option)
    \<Rightarrow> (bootstrap_options \<Rightarrow> gerror option) \<Rightarrow> ('x gui_turn \<times> page_message) list \<Rightarrow> fate \<Rightarrow> fate \<Rightarrow> 'x desktop
    \<Rightarrow> (unit, 'x desktop) program_end" where
  "gui_main parse w g x answer run ms ft1 ft2 d =
     or_fatal (gui_program_init g x) (\<lambda>(g1, lg).
     or_fatal (gx_prepare x) (\<lambda>_.
     or_fatal (command_New (gx_system x)) (\<lambda>_.
     or_fatal (gx_grpc x) (\<lambda>_.
       case (if gx_UseBootstrap x = ''true'' then withBootstrap g1 run else snd (withoutBootstrap g1 answer)) of
         Some e \<Rightarrow> Fatal e
       | None \<Rightarrow> or_fatal (page_run parse w ms d) (\<lambda>d1. or_fatal (gui_shutdown w ft1 ft2 d1) Finished)))))"

section \<open>The order of the calls\<close>

lemma lib_calls_all: "snd (lib_calls answer cs) = None \<Longrightarrow> fst (lib_calls answer cs) = cs"
  by (induction cs) (auto split: option.splits prod.splits)

lemma lib_calls_prefix: "prefix (fst (lib_calls answer cs)) cs"
  by (induction cs) (auto split: option.splits prod.splits)

text \<open>A window that comes up listens to the page before it has a tray, and is sent messages only when both are there.\<close>

lemma window_comes_up:
  assumes "snd (withoutBootstrap g answer) = None"
  shows "\<exists>dev. fst (withoutBootstrap g answer) =
    [MakeLibrary (getAstilectronOptions g), HandleSignals, StartLibrary,
     MakeWindow (GetHomepage (ge_system g) (ge_homeDir g) (ge_paths g)) (getWindowOptions (as_debug (ge_system g)) (ge_gui g)), CreateWindow]
    @ dev @ [OnMessage, CreateTray (getTrayOptions g), CreateMenu getTrayMenuOptions, OnMove, OnResize, SendMessages, WaitForEnd, CloseLibrary]
    \<and> dev = (if as_debug (ge_system g) then [OpenDevTools] else [])"
  using assms
  by (auto simp: withoutBootstrap_def createWindow_def createTray_def initGUIEvents_def split: prod.splits option.splits if_splits)

text \<open>The two ways of making the window give it the same page, bounds, tray and menu.\<close>

lemma ways_agree:
  assumes "snd (withoutBootstrap g answer) = None"
  shows "MakeLibrary (bo_Astilectron (bootstrap_options_of g)) \<in> set (fst (withoutBootstrap g answer))"
    and "MakeWindow (fst (bo_Window (bootstrap_options_of g))) (snd (bo_Window (bootstrap_options_of g))) \<in> set (fst (withoutBootstrap g answer))"
    and "CreateTray (bo_Tray (bootstrap_options_of g)) \<in> set (fst (withoutBootstrap g answer))"
    and "CreateMenu (bo_TrayMenu (bootstrap_options_of g)) \<in> set (fst (withoutBootstrap g answer))"
    and "set (bo_OnWait (bootstrap_options_of g)) \<subseteq> set (fst (withoutBootstrap g answer))"
  using window_comes_up [OF assms] by (auto simp: bootstrap_options_of_def getWindow_def initGUIEvents_def)

text \<open>
  When the tray cannot be made the library has been started, and the process ends without closing it. (It is closed only in a run that ends
  well.)
\<close>

lemma failed_tray_leaves_library:
  assumes "snd (createWindow g answer) = None" "snd (createTray g answer) = Some e"
  shows "snd (withoutBootstrap g answer) = Some e" "StartLibrary \<in> set (fst (withoutBootstrap g answer))"
    "CloseLibrary \<notin> set (fst (withoutBootstrap g answer))"
  using assms
  by (auto simp: withoutBootstrap_def createWindow_def createTray_def split: prod.splits option.splits if_splits)

section \<open>The end of the window\<close>

lemma exits_keep: "cm_Connections (fold handler_Exit hs m) = cm_Connections m"
  by (induction hs arbitrary: m) (simp_all add: handler_Exit_def split: option.split)

lemma ipc_Shutdown_keeps: "cm_Connections (snd (ipc_Shutdown ft m)) = cm_Connections m"
  by (cases ft) (auto simp: ipc_Shutdown_def server_Shutdown_def Shutdown_def Let_def exits_keep split: prod.splits)

text \<open>
  The window hands its configuration over once more when it ends. If that call is answered, the client has the configuration of the
  window, whatever became of the calls before: a change that was reported as failed, and is still shown in the window, has effect after all.
\<close>

lemma shutdown_repairs:
  assumes law: "json_law w" and s: "gui_Shutdown w Answered ft2 d = Ok d1"
  shows "same_config d1" "d_gui d1 = d_gui d"
proof -
  obtain j where j: "gw_marshal w (gu_cfg (d_gui d)) = Inr j" "gw_unmarshal w j = Inr (gu_cfg (d_gui d))"
    using law unfolding json_law_def by blast
  have u: "ipc_UpdateConfig Answered (manager_unmarshal w j) (d_manager d)
      = (None, (d_manager d)\<lparr>cm_Connections := cg_Connections (gu_cfg (d_gui d)),
          cm_saved := cm_saved (d_manager d) @ [cg_Connections (gu_cfg (d_gui d))]\<rparr>)"
    by (simp add: ipc_UpdateConfig_def manager_unmarshal_def j server_UpdateConfig_Inr)
  show "same_config d1" "d_gui d1 = d_gui d"
    using s by (auto simp: gui_Shutdown_def j u same_config_def ipc_Shutdown_keeps res_simps Let_def split: if_splits)
qed

theorem window_leaves_its_configuration:
  assumes "json_law w" "gui_main parse w g x answer run ms Answered ft2 d = Finished d1"
  shows "same_config d1"
  using assms shutdown_repairs [OF assms(1)]
  by (auto simp: gui_main_def or_fatal_def gui_shutdown_def split: res.splits prod.splits option.splits if_splits)

text \<open>Without its client, or without a window, the program ends before it has changed anything.\<close>

lemma window_needs_client:
  assumes "gui_program_init g x = Ok (g1, lg)" "gx_prepare x = Ok ()" "command_New (gx_system x) = Ok ex" "gx_grpc x = Ok ()"
    and "gx_UseBootstrap x \<noteq> ''true''" "snd (withoutBootstrap g1 answer) = Some e"
  shows "gui_main parse w g x answer run ms ft1 ft2 d = Fatal e"
  using assms by (simp add: gui_main_def)

text \<open>What the use case has for the page is sent in its order, until the program ends.\<close>

lemma messages_in_order:
  "prefix (initAsyncMessages ts) (concat (map (\<lambda>t. case t of AsyncMessage m err \<Rightarrow> [m] | CtxDone \<Rightarrow> []) ts))"
  "CtxDone \<notin> set ts \<Longrightarrow> initAsyncMessages ts = concat (map (\<lambda>t. case t of AsyncMessage m err \<Rightarrow> [m] | CtxDone \<Rightarrow> []) ts)"
  by (induction ts rule: initAsyncMessages.induct) auto

end
