(* ===== verification/Spec2Isabelle.thy ===== *)
theory Spec2Isabelle
  imports UdpTunnel Downstream ServerTraffic ServerHazards GuiProps Sockets MessagePool RestState Gateways ConfigFile Shell
    Analyzer StatStream Traces Desktop
begin

text \<open>
  Tapir is a VPN. A client and a server each have a tunnel interface; the packets of one are sent
  over many TCP or UDP connections and are put back into their order before they are written to
  the other. This development models the Go program under \<open>src/\<close> component by component and
  proves what makes each of them, and some of their compositions, correct.

  \<^bold>\<open>How a packet travels, and where it is modelled.\<close> The listener of the interface
  (\<open>adapter/wiface\<close>, theory \<open>Iface\<close>) reads a packet, describes it (\<open>adapter/packet\<close>, theory
  \<open>Packet\<close>) and numbers it within its endpoint. The use case (\<open>business/usecase\<close>, theories
  \<open>ServerState\<close>, \<open>ServerUC\<close>, \<open>ClientUC\<close>) chooses a connection and gives it to the network
  adapter (\<open>adapter/client\<close>, \<open>adapter/server\<close>, theories \<open>NetClient\<close>, \<open>NetServer\<close>), which encodes it
  (\<open>pkg/codec\<close>, \<open>Codec\<close>), compresses it (\<open>pkg/compression\<close>, \<open>Compression\<close>) and encrypts header and
  payload (\<open>pkg/encryptor\<close>, \<open>Encryptors\<close>); over UDP it is registered for retransmission
  (\<open>adapter/retry\<close>, \<open>Retry\<close>). At the other end the frame is read (\<open>Transport\<close>, \<open>FrameLoop\<close>,
  \<open>Datagram\<close>; \<open>OnTraffic\<close> of the server V2 in \<open>NetServer\<close> and \<open>ServerTraffic\<close>), acknowledged
  (\<open>adapter/ack\<close>, \<open>AckSet\<close>, \<open>AckAccumulator\<close>) and pushed to the stream merger
  (\<open>adapter/merger\<close>, \<open>WaitingList\<close>, \<open>MergerStream\<close>, \<open>Merger\<close>), which calls the use case in order.

  \<^bold>\<open>The theories.\<close> \<open>Prelude\<close>: results (\<open>Ok\<close>, \<open>Err\<close>, \<open>Panic\<close>), Go maps as association lists,
  integers of fixed width and their byte orders, pieces of a socket. \<open>Entity\<close>: errors, messages,
  connections with their keys, the network configuration (\<open>business/entity\<close>). \<open>Structs\<close>: the
  helpers of \<open>pkg/structs\<close>. The merger: \<open>WaitingList\<close> has the list with its insertion by number,
  \<open>MergerStream\<close> the loops of one stream in both versions, with a locale for what a stream promises
  and its two interpretations, \<open>Merger\<close> the sessions and their streams as a transition system. \<open>Codec\<close>
  ends in the round trip of every message. \<open>Encryptors\<close> states the contract of an encryptor as a
  locale, from which \<open>Transport\<close> proves that a sealed frame is opened again. \<open>FrameLoop\<close> and
  \<open>Datagram\<close> have the parts that client and server share, \<open>NetClient\<close> and \<open>NetServer\<close> the two sides.
  \<open>ServerState\<close> has the tables of the server's use case and their operations, \<open>ServerUC\<close> its
  commands, \<open>ServerInv\<close> and \<open>ServerCommands\<close> the invariant and the steps, \<open>ServerProps\<close> the
  properties of reachable states, \<open>ServerHazards\<close> the ways out of them. \<open>ClientUC\<close> is the client's
  use case, \<open>Ports\<close> the loop over the ports of both, \<open>ClientProps\<close> the client's invariant, the login of a
  client at a server, and its defects. \<open>ConnManager\<close> chooses the connection of the desktop program;
  \<open>Requests\<close>, \<open>Rpc\<close>, \<open>Gui\<close> and \<open>GuiProps\<close> are the window that tells it to (\<open>business/entity/gui.go\<close>,
  \<open>adapter/grpc\<close>, \<open>business/usecase/gui.go\<close>, \<open>deploy/gui/events.go\<close>): requests read from JSON with type
  assertions, calls whose answers can get lost, and the two copies of the configuration. \<open>IfaceLife\<close> is the
  life of a tunnel interface with its shell commands, \<open>Gateways\<close> how Darwin and Windows find the default gateway,
  \<open>MessagePool\<close> the messages that the listener recycles. \<open>ConfigParse\<close> is the walk over a configuration that fills
  in defaults (\<open>pkg/config\<close>), with the structs of \<open>business/entity/config.go\<close> as values of a datatype, \<open>ConfigTypes\<close> its
  type soundness, \<open>ConfigFile\<close> the file with its path, its saving and its watcher.

  Over UDP: \<open>Tracking\<close> is what the retransmission knows of the messages it was given, \<open>Reliable\<close> a UDP session as a
  transition system - the sender with its timers, a network that loses, repeats and reorders, the server with the
  accumulators of its sessions, and the acknowledgements on their way back -, with the invariant that an acknowledged message
  has been handed over, and \<open>UdpTunnel\<close> the path of packets over such sessions.

  Above the components: \<open>Tunnel\<close> composes the client's interface, its use case, the frames, the receiver of the server
  and the merger into one path of packets, \<open>Downstream\<close> the path back. \<open>ServerCmd\<close> has the commands of the server that make its key, its users and the
  files for clients (\<open>deploy/server/cmd.go\<close>); \<open>Wiring\<close> puts both programs together from their configurations
  (\<open>deploy/client/connection.go\<close>, \<open>initAdapters\<close>, \<open>NewServerUseCase\<close>, \<open>Start\<close>), \<open>Sockets\<close> opens and accepts connections,
  \<open>Programs\<close> is the order in which the two programs start and the ways they end, \<open>Window\<close> and \<open>Desktop\<close> the program of
  the window (\<open>deploy/gui\<close>): its messages, the calls that make the window and the tray, and its run from start to end, \<open>Shell\<close> processes and paths (\<open>pkg/command\<close>, \<open>pkg/resources\<close>). Beside the tunnel: \<open>RestState\<close> is the view over HTTP
  (\<open>adapter/http\<close>), \<open>StatStream\<close> the figures on their way to the window, with the lock of the manager as part of the state,
  \<open>Logging\<close> the loggers (\<open>pkg/logger\<close>), \<open>Analyzer\<close> the charts from logs (\<open>deploy/analyzer\<close>), and \<open>Traces\<close>
  the lines that are logged about single messages when tracing is on (\<open>adapter/*/trace*.go\<close>), with the proof that the charts show
  the run that wrote them.

  \<^bold>\<open>Conventions.\<close> A function that can return an error or panic has a result of type \<open>res\<close>; \<open>None\<close>
  stands for a call that does not return (it blocks, or its loop does not end). A panic of the
  program is a value: theorems say when it is reached and when not. What comes from outside is an
  argument: pieces that \<open>Read\<close> gives, what \<open>Write\<close> takes, random draws, the time, and as records of
  functions the libraries (ciphers, curves, compression, gopacket, mapstructure, gnet). Laws of a
  library appear as named hypotheses (\<open>block_law\<close>, \<open>aead_law\<close>, \<open>compress_law\<close>, the locale
  \<open>gnet_buffer\<close>), each with an instance that satisfies it. Objects that the code shares by reference
  are kept in a store where it matters (\<open>net_store\<close>, \<open>cu_objects\<close>); a connection that a handler
  is given is otherwise passed and returned.

  \<^bold>\<open>Bounds.\<close> Loops run over the list of what the socket gives, or recurse with a measure; the
  draw of a session number takes a finite list of draws and is \<open>None\<close> when they are used up; attempts to
  connect count down from the configured number. The loop over the ports and the wait of the window for its
  client are partial functions without fuel: \<open>server_comes_up\<close> and \<open>window_waits_for_client\<close> say
  when they end.

  \<^bold>\<open>What the properties show.\<close> Messages keep their contents through codec, cipher and transport, their
  order through the merger, and their streams apart; acknowledgements name every message and fit their
  size; retransmission ends and a silent peer is disconnected; the tables of the use cases agree in
  every state that can be reached; logins need a password, give new addresses, and leave client and
  server with the same session; figures are neither lost nor counted twice; one client connection is
  alive at a time; what the window reports as changed is what the client has and has saved; a configuration that
  is accepted has no nil pointers and is well typed. From end to end: packets leave the tunnel in the order in which they
  were read, for each endpoint, in both directions over TCP, and from the client over UDP; over UDP, what has been acknowledged has been received, and what has
  not been given up can still get through; a client set up from the file that its server exported has the transport of the server
  and can log in, also when its user was created while the server runs; a server that starts serves all its ports; a recycled
  message shows nothing of an earlier one; the view over HTTP is consistent; and the collector of figures hangs exactly when
  the stream of the window ends while it offers them.

  \<^bold>\<open>Not modelled.\<close> Goroutines interleave only where a component has explicit events (mergers,
  timers, statistics and their stream); handlers are otherwise atomic and locks are left out, and so are races on shared
  objects. Channels have no bound, but for the two of the statistics and that of the logger. Floating point numbers are
  reals or rationals. Of the lines that the program logs only the traces of single messages are modelled. Sockets, devices,
  processes, the window and its tray are made by libraries; the calls and what is done with their answers are modelled. Left out are
  flags and signals, the constructors and setters that only store their arguments, the drawing
  of charts, the generated code of the calls, mocks and tests.
\<close>

end
